(* ===== verification/Prelude.thy ===== *)
theory Prelude
  imports Complex_Main "HOL-Library.Multiset" "HOL-Library.Product_Lexorder"
    "HOL-Library.List_Lexorder" "HOL-Library.Char_ord"
begin

text \<open>
  What every component shares: the names of the model's basic types, the parts of Go's
  standard library the code calls (package \<open>strings\<close>, \<open>sort.SliceStable\<close>,
  \<open>sort.Search\<close>, \<open>fmt\<close>'s decimal integers), and the generic facts on lists and
  sums that the component proofs use. Go's \<open>*T\<close> is an option (\<open>None\<close> is nil), a pair
  \<open>(T, error)\<close> is a sum with the error on the left, and \<open>time.Time\<close> is an integer
  number of nanoseconds since the Unix epoch.
\<close>

named_theorems go_simps \<open>characteristic equations of the modelled Go library functions\<close>

type_synonym 'a ptr = "'a option"
type_synonym time = int

section \<open>Strings\<close>

definition has_prefix :: "string \<Rightarrow> string \<Rightarrow> bool" where
  "has_prefix s p \<longleftrightarrow> take (length p) s = p"

definition has_suffix :: "string \<Rightarrow> string \<Rightarrow> bool" where
  "has_suffix s p \<longleftrightarrow> has_prefix (rev s) (rev p)"

text \<open>\<open>strings.CutPrefix\<close>: \<open>None\<close> when the prefix is absent.\<close>

definition cut_prefix :: "string \<Rightarrow> string \<Rightarrow> string option" where
  "cut_prefix s p = (if has_prefix s p then Some (drop (length p) s) else None)"

text \<open>\<open>strings.TrimLeft\<close> and \<open>strings.TrimRight\<close> with a predicate on characters.\<close>

definition trim_left :: "(char \<Rightarrow> bool) \<Rightarrow> string \<Rightarrow> string" where
  "trim_left P s = dropWhile P s"

definition trim_right :: "(char \<Rightarrow> bool) \<Rightarrow> string \<Rightarrow> string" where
  "trim_right P s = rev (dropWhile P (rev s))"

text \<open>\<open>strings.Cut\<close> at a one-character separator: \<open>None\<close> when it is absent.\<close>

definition str_cut :: "char \<Rightarrow> string \<Rightarrow> (string \<times> string) option" where
  "str_cut c s = (case dropWhile (\<lambda>x. x \<noteq> c) s of
     [] \<Rightarrow> None | _ # r \<Rightarrow> Some (takeWhile (\<lambda>x. x \<noteq> c) s, r))"

text \<open>\<open>strings.Split\<close> at a one-character separator: never empty.\<close>

fun str_split :: "char \<Rightarrow> string \<Rightarrow> string list" where
  "str_split c [] = [[]]"
| "str_split c (x # xs) =
     (if x = c then [] # str_split c xs
      else case str_split c xs of [] \<Rightarrow> [[x]] | y # ys \<Rightarrow> (x # y) # ys)"

text \<open>\<open>strings.Join\<close>.\<close>

fun str_join :: "string \<Rightarrow> string list \<Rightarrow> string" where
  "str_join sep [] = []"
| "str_join sep [x] = x"
| "str_join sep (x # xs) = x @ sep @ str_join sep xs"

text \<open>\<open>strings.Contains\<close>.\<close>

fun str_contains :: "string \<Rightarrow> string \<Rightarrow> bool" where
  "str_contains [] p \<longleftrightarrow> p = []"
| "str_contains (x # xs) p \<longleftrightarrow> has_prefix (x # xs) p \<or> str_contains xs p"

lemma has_prefix_append [simp, go_simps]: "has_prefix (p @ s) p"
  by (simp add: has_prefix_def)

lemma has_prefix_iff: "has_prefix s p \<longleftrightarrow> (\<exists>r. s = p @ r)"
  by (auto simp: has_prefix_def) (metis append_take_drop_id)

lemma cut_prefix_Some_iff: "cut_prefix s p = Some r \<longleftrightarrow> s = p @ r"
  by (auto simp: cut_prefix_def has_prefix_iff)

lemma cut_prefix_append [simp, go_simps]: "cut_prefix (p @ r) p = Some r"
  by (simp add: cut_prefix_Some_iff)

lemma trim_right_last: "trim_right P s \<noteq> [] \<Longrightarrow> \<not> P (last (trim_right P s))"
  by (simp add: trim_right_def last_rev hd_dropWhile)

lemma trim_right_id: "s = [] \<or> \<not> P (last s) \<Longrightarrow> trim_right P s = s"
  by (auto simp: trim_right_def dropWhile_eq_self_iff hd_rev rev_swap)

lemma trim_right_idem [simp]: "trim_right P (trim_right P s) = trim_right P s"
  by (rule trim_right_id) (use trim_right_last in blast)

lemma trim_right_split: "\<exists>t. s = trim_right P s @ t \<and> (\<forall>c\<in>set t. P c)"
proof (intro exI conjI ballI)
  show "s = trim_right P s @ rev (takeWhile P (rev s))"
    by (simp add: trim_right_def flip: rev_append)
  show "P c" if "c \<in> set (rev (takeWhile P (rev s)))" for c
    using that by (auto dest: set_takeWhileD)
qed

lemma str_cut_Some_iff: "str_cut c s = Some (a, b) \<longleftrightarrow> s = a @ c # b \<and> c \<notin> set a"
proof
  assume "str_cut c s = Some (a, b)"
  then obtain d where d: "dropWhile (\<lambda>x. x \<noteq> c) s = d # b" and a: "a = takeWhile (\<lambda>x. x \<noteq> c) s"
    by (auto simp: str_cut_def split: list.splits)
  have "d = c" using d hd_dropWhile [of "\<lambda>x. x \<noteq> c" s] by force
  then have "s = a @ c # b" using takeWhile_dropWhile_id [of "\<lambda>x. x \<noteq> c" s] d a by simp
  moreover have "c \<notin> set a" unfolding a by (auto dest: set_takeWhileD)
  ultimately show "s = a @ c # b \<and> c \<notin> set a" by simp
next
  assume "s = a @ c # b \<and> c \<notin> set a"
  then have "dropWhile (\<lambda>x. x \<noteq> c) s = c # b" and "takeWhile (\<lambda>x. x \<noteq> c) s = a"
    by (auto simp: dropWhile_append3 takeWhile_tail intro!: dropWhile_append3 [THEN trans])
  then show "str_cut c s = Some (a, b)" by (simp add: str_cut_def)
qed

lemma str_cut_None_iff: "str_cut c s = None \<longleftrightarrow> c \<notin> set s"
proof (cases "str_cut c s")
  case None
  then have "dropWhile (\<lambda>x. x \<noteq> c) s = []" by (simp add: str_cut_def split: list.splits)
  then show ?thesis using None by auto
next
  case (Some ab)
  then obtain a b where "str_cut c s = Some (a, b)" by (cases ab) auto
  then show ?thesis using Some by (auto simp: str_cut_Some_iff)
qed

lemma str_split_not_Nil [simp]: "str_split c s \<noteq> []"
  by (induction s) (auto split: list.splits)

lemma str_split_parts: "p \<in> set (str_split c s) \<Longrightarrow> c \<notin> set p"
  by (induction s arbitrary: p) (auto split: if_splits list.splits)

section \<open>Sorting and searching\<close>

text \<open>
  \<open>sort.SliceStable\<close>: insertion of each element behind the elements it is not lt
  than. For a strict weak order this is the one stable result. \<open>sort.Slice\<close> and
  \<open>sort.Strings\<close> promise a sorted permutation only; they are modelled by the same
  function, and where the order of equivalent elements could matter a lemma shows that it
  does not.
\<close>

fun ins_stable :: "('a \<Rightarrow> 'a \<Rightarrow> bool) \<Rightarrow> 'a \<Rightarrow> 'a list \<Rightarrow> 'a list" where
  "ins_stable lt x [] = [x]"
| "ins_stable lt x (y # ys) = (if lt x y then x # y # ys else y # ins_stable lt x ys)"

definition stable_sort :: "('a \<Rightarrow> 'a \<Rightarrow> bool) \<Rightarrow> 'a list \<Rightarrow> 'a list" where
  "stable_sort lt xs = foldl (\<lambda>acc x. ins_stable lt x acc) [] xs"

lemma mset_ins_stable [simp]: "mset (ins_stable lt x ys) = add_mset x (mset ys)"
  by (induction ys) auto

lemma mset_foldl_ins: "mset (foldl (\<lambda>acc x. ins_stable lt x acc) acc xs) = mset acc + mset xs"
  by (induction xs arbitrary: acc) auto

lemma mset_stable_sort [simp]: "mset (stable_sort lt xs) = mset xs"
  by (simp add: stable_sort_def mset_foldl_ins)

lemma set_stable_sort [simp]: "set (stable_sort lt xs) = set xs"
  by (metis mset_stable_sort set_mset_mset)

lemma length_stable_sort [simp]: "length (stable_sort lt xs) = length xs"
  by (metis mset_stable_sort size_mset)

lemma distinct_stable_sort [simp]: "distinct (stable_sort lt xs) = distinct xs"
  by (metis distinct_count_atmost_1 mset_stable_sort set_stable_sort)

lemma set_ins_stable [simp]: "set (ins_stable lt x ys) = insert x (set ys)"
  by (induction ys) auto

lemma stable_sort_Nil [simp]: "stable_sort lt [] = []"
  by (simp add: stable_sort_def)

lemma stable_sort_eq_Nil [simp]: "stable_sort lt xs = [] \<longleftrightarrow> xs = []"
  by (metis length_0_conv length_stable_sort)

lemma stable_sort_snoc: "stable_sort lt (xs @ [x]) = ins_stable lt x (stable_sort lt xs)"
  by (simp add: stable_sort_def)

text \<open>The laws of the comparison functions that Go's sort requires of its caller.\<close>

locale weak_order =
  fixes lt :: "'a \<Rightarrow> 'a \<Rightarrow> bool"
  assumes asym: "lt x y \<Longrightarrow> \<not> lt y x"
    and neg_trans: "lt x z \<Longrightarrow> lt x y \<or> lt y z"
begin

lemma irrefl: "\<not> lt x x"
  using asym by blast

lemma trans_less: "lt x y \<Longrightarrow> lt y z \<Longrightarrow> lt x z"
  using neg_trans [of x y z] asym by blast

lemma ins_sorted:
  assumes "sorted_wrt (\<lambda>a b. \<not> lt b a) ys"
  shows "sorted_wrt (\<lambda>a b. \<not> lt b a) (ins_stable lt x ys)"
  using assms
proof (induction ys)
  case (Cons y ys)
  show ?case
  proof (cases "lt x y")
    case True
    with Cons.prems asym neg_trans show ?thesis by simp blast
  qed (use Cons in auto)
qed simp

lemma sort_sorted: "sorted_wrt (\<lambda>a b. \<not> lt b a) (stable_sort lt xs)"
  by (induction xs rule: rev_induct) (auto simp: stable_sort_snoc ins_sorted)

lemma sort_hd_least: "x \<in> set xs \<Longrightarrow> \<not> lt x (hd (stable_sort lt xs))"
proof -
  assume "x \<in> set xs"
  then have "x \<in> set (stable_sort lt xs)" by simp
  then show ?thesis using sort_sorted [of xs] irrefl by (cases "stable_sort lt xs") auto
qed

text \<open>Stability: elements that compare equal to a given one keep their order.\<close>

lemma ins_filter:
  assumes "sorted_wrt (\<lambda>a b. \<not> lt b a) ys"
  shows "filter (\<lambda>y. \<not> lt y k \<and> \<not> lt k y) (ins_stable lt x ys) =
         filter (\<lambda>y. \<not> lt y k \<and> \<not> lt k y) (ys @ [x])"
  using assms
proof (induction ys)
  case (Cons y ys)
  show ?case
  proof (cases "lt x y")
    case True
    have none: "\<not> (\<not> lt z k \<and> \<not> lt k z)" if "z \<in> set (y # ys)" "\<not> lt x k" "\<not> lt k x" for z
    proof -
      have "lt x z" using that True Cons.prems neg_trans [of x y z] by auto
      then show ?thesis using that(2) neg_trans [of x z k] by blast
    qed
    then show ?thesis using True by (auto simp: filter_empty_conv)
  qed (use Cons in auto)
qed simp

lemma sort_stable:
  "filter (\<lambda>y. \<not> lt y k \<and> \<not> lt k y) (stable_sort lt xs) =
   filter (\<lambda>y. \<not> lt y k \<and> \<not> lt k y) xs"
  by (induction xs rule: rev_induct) (auto simp: stable_sort_snoc ins_filter [OF sort_sorted])

end

text \<open>
  With distinct elements always comparable the sorted result is a function of the multiset,
  so any sorting algorithm gives it.
\<close>

locale total_weak_order = weak_order +
  assumes total: "x \<noteq> y \<Longrightarrow> lt x y \<or> lt y x"
begin

lemma sorted_unique:
  assumes "sorted_wrt (\<lambda>a b. \<not> lt b a) xs" "sorted_wrt (\<lambda>a b. \<not> lt b a) ys" "mset xs = mset ys"
  shows "xs = ys"
  using assms
proof (induction xs arbitrary: ys)
  case (Cons x xs)
  then obtain y ys' where ys: "ys = y # ys'" by (cases ys) auto
  have "x = y"
  proof (rule ccontr)
    assume "x \<noteq> y"
    moreover have "set (x # xs) = set (y # ys')" using Cons.prems(3) ys by (metis set_mset_mset)
    ultimately have "y \<in> set xs" "x \<in> set ys'" by auto
    with Cons.prems ys have "\<not> lt y x" "\<not> lt x y" by auto
    with \<open>x \<noteq> y\<close> show False using total by blast
  qed
  with Cons ys show ?case by auto
qed simp

lemma sort_perm: "mset xs = mset ys \<Longrightarrow> stable_sort lt xs = stable_sort lt ys"
  by (rule sorted_unique) (auto simp: sort_sorted)

end

text \<open>A comparison of keys in a linear order satisfies both contracts.\<close>

interpretation key_less: weak_order "\<lambda>x y. (f x :: 'k :: linorder) < f y" for f
  by unfold_locales auto

text \<open>\<open>sort.Search\<close>: binary search for the first index in \<open>[i, j)\<close> where \<open>f\<close> holds.\<close>

function search_from :: "(nat \<Rightarrow> bool) \<Rightarrow> nat \<Rightarrow> nat \<Rightarrow> nat" where
  "search_from f i j =
     (if i < j then let h = (i + j) div 2 in
        (if \<not> f h then search_from f (Suc h) j else search_from f i h)
      else i)"
  by pat_completeness auto
termination by (relation "measure (\<lambda>(f, i, j). j - i)") auto

declare search_from.simps [simp del]

lemma search_from_empty [simp]: "j \<le> i \<Longrightarrow> search_from f i j = i"
  by (simp add: search_from.simps [of f i j])

definition go_search :: "nat \<Rightarrow> (nat \<Rightarrow> bool) \<Rightarrow> nat" where
  "go_search n f = search_from f 0 n"

lemma search_from_bounds: "i \<le> j \<Longrightarrow> i \<le> search_from f i j \<and> search_from f i j \<le> j"
proof (induction f i j rule: search_from.induct)
  case (1 f i j)
  show ?case
  proof (cases "i < j")
    case True
    define h where "h = (i + j) div 2"
    have "i \<le> h" "h < j" using True by (auto simp: h_def)
    then show ?thesis using 1(1) [OF True h_def] 1(2) [OF True h_def] True
      by (auto simp: search_from.simps [of f i j] h_def [symmetric] Let_def)
  qed (use 1 in simp)
qed

text \<open>On a predicate that stays true once it is true, the result splits the range.\<close>

lemma search_from_correct:
  assumes "i \<le> j" and "\<And>a b. a \<le> b \<Longrightarrow> b < j \<Longrightarrow> f a \<Longrightarrow> f b"
  shows "(\<forall>k. i \<le> k \<and> k < search_from f i j \<longrightarrow> \<not> f k) \<and>
         (\<forall>k. search_from f i j \<le> k \<and> k < j \<longrightarrow> f k)"
  using assms
proof (induction f i j rule: search_from.induct)
  case (1 f i j)
  show ?case
  proof (cases "i < j")
    case True
    define h where "h = (i + j) div 2"
    have h: "i \<le> h" "h < j" using True by (auto simp: h_def)
    show ?thesis
    proof (cases "f h")
      case False
      then have e: "search_from f i j = search_from f (Suc h) j"
        using True by (simp add: search_from.simps [of f i j] h_def Let_def)
      have "\<not> f k" if "k \<le> h" for k using 1(4) [of k h] that False h by blast
      moreover note 1(1) [OF True h_def False]
      ultimately show ?thesis unfolding e using h 1(4) by (metis Suc_leI not_less_eq_eq)
    next
      case fh: True
      then have e: "search_from f i j = search_from f i h"
        using True by (simp add: search_from.simps [of f i j] h_def Let_def)
      have "f k" if "h \<le> k" "k < j" for k using 1(4) [of h k] that fh by blast
      moreover have "\<And>a b. a \<le> b \<Longrightarrow> b < h \<Longrightarrow> f a \<Longrightarrow> f b" using 1(4) h by force
      moreover note 1(2) [OF True h_def]
      ultimately show ?thesis unfolding e using h fh by (metis linorder_not_le)
    qed
  qed (use \<open>i \<le> j\<close> in auto)
qed

text \<open>Over an ascending list a threshold search counts the leading elements below it.\<close>

lemma go_search_count:
  assumes "sorted xs" and "\<And>a b. a \<le> b \<Longrightarrow> P a \<Longrightarrow> P b"
  shows "go_search (length xs) (\<lambda>i. P (xs ! i)) = length (takeWhile (\<lambda>x. \<not> P x) xs)"
proof -
  let ?f = "\<lambda>i. P (xs ! i)" and ?t = "length (takeWhile (\<lambda>x. \<not> P x) xs)"
  define n where "n = go_search (length xs) ?f"
  have n: "n \<le> length xs" using search_from_bounds [of 0 "length xs" ?f] by (simp add: n_def go_search_def)
  have c: "(\<forall>k. 0 \<le> k \<and> k < n \<longrightarrow> \<not> ?f k) \<and> (\<forall>k. n \<le> k \<and> k < length xs \<longrightarrow> ?f k)"
    unfolding n_def go_search_def
    using assms by (intro search_from_correct) (auto intro: sorted_nth_mono)
  have t: "?t \<le> length xs" by (simp add: length_takeWhile_le)
  have "n = ?t"
  proof (rule antisym)
    show "n \<le> ?t"
    proof (rule ccontr)
      assume "\<not> n \<le> ?t"
      then have "?t < n" "?t < length xs" using n by auto
      then have "P (xs ! ?t)" using nth_length_takeWhile [of "\<lambda>x. \<not> P x" xs] by simp
      with c \<open>?t < n\<close> show False by auto
    qed
    show "?t \<le> n"
    proof (rule ccontr)
      assume "\<not> ?t \<le> n"
      then have "n < ?t" by simp
      then have "xs ! n = takeWhile (\<lambda>x. \<not> P x) xs ! n" by (simp add: takeWhile_nth)
      moreover have "\<not> P (takeWhile (\<lambda>x. \<not> P x) xs ! n)"
        using \<open>n < ?t\<close> by (metis nth_mem set_takeWhileD)
      ultimately show False using c \<open>n < ?t\<close> t by auto
    qed
  qed
  then show ?thesis by (simp add: n_def)
qed

section \<open>Slices\<close>

text \<open>
  \<open>xs[i]\<close> of Go: \<open>None\<close> is the run-time panic of an index out of range. A write by
  index fails the same way.
\<close>

definition go_index :: "'a list \<Rightarrow> int \<Rightarrow> 'a option" where
  "go_index xs i = (if 0 \<le> i \<and> i < int (length xs) then Some (xs ! nat i) else None)"

definition go_update :: "'a list \<Rightarrow> int \<Rightarrow> 'a \<Rightarrow> 'a list option" where
  "go_update xs i v = (if 0 \<le> i \<and> i < int (length xs) then Some (xs[nat i := v]) else None)"

lemma go_index_in [simp]: "0 \<le> i \<Longrightarrow> i < int (length xs) \<Longrightarrow> go_index xs i = Some (xs ! nat i)"
  by (simp add: go_index_def)

lemma go_index_nat [simp]: "go_index xs (int k) = (if k < length xs then Some (xs ! k) else None)"
  by (simp add: go_index_def)

lemma go_index_Some_iff: "go_index xs i = Some v \<longleftrightarrow> 0 \<le> i \<and> i < int (length xs) \<and> v = xs ! nat i"
  by (auto simp: go_index_def)

text \<open>A loop that may panic: the first \<open>None\<close> ends it.\<close>

fun map_opt :: "('a \<Rightarrow> 'b option) \<Rightarrow> 'a list \<Rightarrow> 'b list option" where
  "map_opt f [] = Some []"
| "map_opt f (x # xs) = (case f x of None \<Rightarrow> None
     | Some y \<Rightarrow> (case map_opt f xs of None \<Rightarrow> None | Some ys \<Rightarrow> Some (y # ys)))"

lemma find_snoc: "find P (xs @ [x]) = (case find P xs of None \<Rightarrow> if P x then Some x else None | Some y \<Rightarrow> Some y)"
  by (induction xs) auto

lemma map_opt_all_Some: "(\<And>x. x \<in> set xs \<Longrightarrow> f x = Some (g x)) \<Longrightarrow> map_opt f xs = Some (map g xs)"
  by (induction xs) auto

lemma map_opt_Some_iff:
  "map_opt f xs = Some ys \<longleftrightarrow> length ys = length xs \<and> (\<forall>i < length xs. f (xs ! i) = Some (ys ! i))"
proof (induction xs arbitrary: ys)
  case (Cons x xs)
  show ?case
  proof (cases ys)
    case (Cons y ys')
    then show ?thesis using Cons.IH [of ys']
      by (auto simp: All_less_Suc2 split: option.splits)
  qed (auto split: option.splits)
qed auto

text \<open>The same for a loop whose body returns an error on the left.\<close>

fun map_err :: "('a \<Rightarrow> 'e + 'b) \<Rightarrow> 'a list \<Rightarrow> 'e + 'b list" where
  "map_err f [] = Inr []"
| "map_err f (x # xs) = (case f x of Inl e \<Rightarrow> Inl e
     | Inr y \<Rightarrow> (case map_err f xs of Inl e \<Rightarrow> Inl e | Inr ys \<Rightarrow> Inr (y # ys)))"

lemma map_err_Inr_iff:
  "map_err f xs = Inr ys \<longleftrightarrow> length ys = length xs \<and> (\<forall>i < length xs. f (xs ! i) = Inr (ys ! i))"
proof (induction xs arbitrary: ys)
  case (Cons x xs)
  show ?case
  proof (cases ys)
    case (Cons y ys')
    then show ?thesis using Cons.IH [of ys']
      by (auto simp: All_less_Suc2 split: sum.splits)
  qed (auto split: sum.splits)
qed auto

text \<open>\<open>for i, j := range order { out[j] = vs[i] }\<close>: results written back by position.\<close>

fun scatter :: "nat list \<Rightarrow> 'a list \<Rightarrow> 'a list \<Rightarrow> 'a list" where
  "scatter (j # js) (v # vs) out = scatter js vs (out[j := v])"
| "scatter _ _ out = out"

lemma length_scatter [simp]: "length (scatter js vs out) = length out"
  by (induction js vs out rule: scatter.induct) auto

lemma scatter_other: "k \<notin> set js \<Longrightarrow> scatter js vs out ! k = out ! k"
  by (induction js vs out rule: scatter.induct) auto

lemma scatter_nth:
  assumes "distinct js" "length js = length vs" "i < length js" "js ! i < length out"
  shows "scatter js vs out ! (js ! i) = vs ! i"
  using assms
proof (induction js vs out arbitrary: i rule: scatter.induct)
  case (1 j js v vs out)
  then show ?case by (cases i) (auto simp: scatter_other)
qed auto

text \<open>A permutation of the indices hits every position.\<close>

lemma perm_upt_nth:
  assumes "mset js = mset [0..<n]" "k < n"
  obtains i where "i < n" "js ! i = k"
proof -
  have "set js = {0..<n}" "length js = n"
    using assms(1) by (metis set_mset_mset set_upt, metis size_mset length_upt minus_nat.diff_0)
  then show ?thesis using assms(2) that by (metis atLeastLessThan_iff in_set_conv_nth le0)
qed

end
