(* ===== verification/Float64.thy ===== *)
theory Float64
  imports Prelude
begin

text \<open>
  Go's \<open>float64\<close>: IEEE 754 binary64 with rounding to nearest, ties to even, computed on
  exact rationals. A value is NaN, an infinity, the negative zero or a finite rational
  (\<open>Fin 0\<close> is the positive zero); every operation rounds the exact result once, so the
  overflow to an infinity, the gradual underflow and the signs of zeros are those of the
  hardware. The payload and the sign of a NaN are not observable in the modelled code and
  are left out. Go may fuse \<open>x * y + z\<close> on some architectures; the model is the
  unfused semantics, which is what amd64 executes.
\<close>

section \<open>Binary logarithm and rounding of rationals\<close>

text \<open>The bit length of an integer, and \<open>\<lfloor>log 2 x\<rfloor>\<close> of a positive rational.\<close>

function ilen :: "int \<Rightarrow> int" where
  "ilen n = (if n \<le> 0 then 0 else 1 + ilen (n div 2))"
  by pat_completeness auto
termination by (relation "measure nat") auto
declare ilen.simps [simp del]

lemma ilen_nonneg: "0 \<le> ilen n"
  by (induction n rule: ilen.induct) (subst ilen.simps, auto)

lemma ilen_bounds: "0 < n \<Longrightarrow> 1 \<le> ilen n \<and> 2 ^ nat (ilen n - 1) \<le> n \<and> n < 2 ^ nat (ilen n)"
proof (induction n rule: ilen.induct)
  case (1 n)
  show ?case
  proof (cases "n = 1")
    case True then show ?thesis by (simp add: ilen.simps [of 1] ilen.simps [of 0])
  next
    case False
    with 1 have IH: "1 \<le> ilen (n div 2)" "2 ^ nat (ilen (n div 2) - 1) \<le> n div 2"
       "n div 2 < 2 ^ nat (ilen (n div 2))" by auto
    define k where "k = nat (ilen (n div 2) - 1)"
    have k: "ilen (n div 2) = 1 + int k" using IH by (simp add: k_def)
    have "ilen n = 2 + int k" using 1 k by (simp add: ilen.simps [of n])
    moreover have "2 ^ (Suc k) \<le> n" "n < 2 ^ Suc (Suc k)" using IH k by (auto simp: nat_add_distrib)
    ultimately show ?thesis by (simp add: nat_add_distrib)
  qed
qed

definition ilog2 :: "rat \<Rightarrow> int" where
  "ilog2 x = (let (p, q) = quotient_of x; k = ilen p - ilen q in if 2 powi k \<le> x then k else k - 1)"

lemma ilen_powi: "0 < n \<Longrightarrow> (2::rat) powi (ilen n - 1) \<le> of_int n \<and> of_int n < (2::rat) powi (ilen n)"
proof -
  assume n: "0 < n"
  note b = ilen_bounds [OF n]
  have "(2::rat) powi (ilen n - 1) = of_int (2 ^ nat (ilen n - 1))"
    using b by (simp add: power_int_def)
  moreover have "(2::rat) powi (ilen n) = of_int (2 ^ nat (ilen n))"
    using b by (simp add: power_int_def)
  ultimately show ?thesis using b by (simp only: of_int_le_iff of_int_less_iff)
qed

lemma ilog2_bounds:
  assumes x: "0 < x"
  shows "2 powi (ilog2 x) \<le> x" and "x < 2 powi (ilog2 x + 1)"
proof -
  obtain p q where pq: "quotient_of x = (p, q)" by fastforce
  have q: "0 < q" using pq by (rule quotient_of_denom_pos)
  have xe: "x = of_int p / of_int q" using pq by (rule quotient_of_div)
  with x q have p: "0 < p" by (simp add: zero_less_divide_iff)
  define k where "k = ilen p - ilen q"
  have "2 powi (ilen p - 1) / 2 powi (ilen q) < (x::rat)"
    unfolding xe using ilen_powi [OF p] ilen_powi [OF q] p q
    by (intro frac_less2) auto
  then have lo: "2 powi (k - 1) < x"
    by (simp add: k_def power_int_diff)
  have "x < 2 powi (ilen p) / 2 powi (ilen q - 1)"
    unfolding xe using ilen_powi [OF p] ilen_powi [OF q] p q
    by (intro frac_less) auto
  also have "\<dots> = 2 powi (k + 1)"
    by (simp add: k_def power_int_diff power_int_add)
  finally have hi: "x < 2 powi (k + 1)" .
  have ie: "ilog2 x = (if 2 powi k \<le> x then k else k - 1)"
    by (simp add: ilog2_def pq k_def)
  show "2 powi (ilog2 x) \<le> x" using ie lo by auto
  show "x < 2 powi (ilog2 x + 1)" using ie hi by auto
qed

lemma power_int_less_imp_less_exp2: "(2::rat) powi a < 2 powi b \<Longrightarrow> a < b"
  by (metis linorder_not_less one_le_numeral power_int_increasing)

lemma ilog2_unique: assumes "2 powi k \<le> x" "x < (2::rat) powi (k+1)" shows "ilog2 x = k"
proof -
  have "0 < x" using assms(1) by (meson less_le_trans zero_less_power_int zero_less_numeral)
  note b = ilog2_bounds [OF this]
  have "(2::rat) powi k < 2 powi (ilog2 x + 1)" using assms b by linarith
  then have "k < ilog2 x + 1" by (rule power_int_less_imp_less_exp2)
  moreover have "(2::rat) powi (ilog2 x) < 2 powi (k + 1)" using assms b by linarith
  then have "ilog2 x < k + 1" by (rule power_int_less_imp_less_exp2)
  ultimately show ?thesis by simp
qed

lemma ilog2_mono: assumes "0 < x" "x \<le> y" shows "ilog2 x \<le> ilog2 y"
proof -
  have "(2::rat) powi (ilog2 x) < 2 powi (ilog2 y + 1)"
    using ilog2_bounds [of x] ilog2_bounds [of y] assms by linarith
  then have "ilog2 x < ilog2 y + 1" by (rule power_int_less_imp_less_exp2)
  then show ?thesis by simp
qed

text \<open>Rounding to the nearest integer, ties to even.\<close>

definition rhe :: "rat \<Rightarrow> int" where
  "rhe x = (let f = \<lfloor>x\<rfloor>; d = x - of_int f in
     if d < 1/2 then f else if 1/2 < d then f + 1 else if even f then f else f + 1)"

lemma rhe_int [simp]: "rhe (of_int n) = n" by (simp add: rhe_def)

lemma rhe_ge_floor: "\<lfloor>x\<rfloor> \<le> rhe x" and rhe_le_floor1: "rhe x \<le> \<lfloor>x\<rfloor> + 1"
  by (auto simp: rhe_def Let_def)

lemma rhe_mono: assumes "x \<le> y" shows "rhe x \<le> rhe y"
proof (cases "\<lfloor>x\<rfloor> = \<lfloor>y\<rfloor>")
  case True then show ?thesis using assms by (auto simp: rhe_def Let_def)
next
  case False
  then have "\<lfloor>x\<rfloor> + 1 \<le> \<lfloor>y\<rfloor>" using floor_mono [OF assms] by linarith
  then show ?thesis using rhe_ge_floor [of y] rhe_le_floor1 [of x] by linarith
qed

lemma rhe_neg: "rhe (- x) = - rhe x"
proof (cases "x = of_int \<lfloor>x\<rfloor>")
  case True then show ?thesis by (metis of_int_minus rhe_int)
next
  case False
  define f where "f = \<lfloor>x\<rfloor>"
  have "of_int f < x" "x < of_int f + 1" using False unfolding f_def by linarith+
  then have "\<lfloor>- x\<rfloor> = - f - 1" by linarith
  then show ?thesis
    by (auto simp: rhe_def Let_def f_def [symmetric]) 
qed

section \<open>The type\<close>

datatype f64 = NaN | PInf | NInf | NZero | Fin rat

fun val :: "f64 \<Rightarrow> rat" where
  "val (Fin r) = r" | "val _ = 0"

fun is_fin :: "f64 \<Rightarrow> bool" where
  "is_fin (Fin r) = True" | "is_fin NZero = True" | "is_fin _ = False"

fun is_neg :: "f64 \<Rightarrow> bool" where
  "is_neg NInf = True" | "is_neg NZero = True" | "is_neg (Fin r) = (r < 0)" | "is_neg _ = False"

text \<open>
  Rounding of a nonzero rational: the exponent of the last place (never below \<open>-1074\<close>), the
  integer significand at that exponent, and overflow beyond the largest finite value.
\<close>

definition uexp :: "rat \<Rightarrow> int" where "uexp x = max (ilog2 \<bar>x\<bar> - 52) (-1074)"
definition signif :: "rat \<Rightarrow> int" where "signif x = rhe (x / 2 powi uexp x)"
definition rval :: "rat \<Rightarrow> rat" where "rval x = of_int (signif x) * 2 powi uexp x"

definition rnd :: "rat \<Rightarrow> f64" where
  "rnd x = (if x = 0 then Fin 0
     else if signif x = 0 then (if x < 0 then NZero else Fin 0)
     else if 971 < uexp x \<or> uexp x = 971 \<and> 2 ^ 53 \<le> \<bar>signif x\<bar> then (if x < 0 then NInf else PInf)
     else Fin (of_int (signif x) * 2 powi uexp x))"

lemma uexp_neg [simp]: "uexp (- x) = uexp x" by (simp add: uexp_def)
lemma signif_neg [simp]: "signif (- x) = - signif x"
  by (simp add: signif_def rhe_neg flip: minus_divide_left)

lemma pow2_pos [simp]: "0 < (2::rat) powi k" by simp

lemma signif_bounds:
  assumes x: "0 < x"
  shows "0 \<le> signif x" and "signif x \<le> 2 ^ 53" and "-1074 < uexp x \<Longrightarrow> 2 ^ 52 \<le> signif x"
proof -
  have "0 \<le> x / 2 powi uexp x" using x by simp
  from rhe_mono [OF this] show "0 \<le> signif x" unfolding signif_def using rhe_int [of 0] by simp
  have "x < 2 powi (ilog2 x + 1)" by (rule ilog2_bounds [OF x])
  also have "\<dots> \<le> 2 powi (uexp x + 53)" using x by (intro power_int_increasing) (auto simp: uexp_def)
  finally have "x / 2 powi uexp x \<le> of_int (2 ^ 53)"
    by (simp add: power_int_add divide_le_eq mult.commute)
  from rhe_mono [OF this] show "signif x \<le> 2 ^ 53" unfolding signif_def by (simp only: rhe_int)
  assume "-1074 < uexp x"
  then have "ilog2 x = uexp x + 52" using x by (auto simp: uexp_def)
  with ilog2_bounds(1) [OF x] have "2 powi (uexp x + 52) \<le> x" by simp
  then have "of_int (2 ^ 52) \<le> x / 2 powi uexp x"
    by (simp add: power_int_add le_divide_eq mult.commute)
  from rhe_mono [OF this] show "2 ^ 52 \<le> signif x" unfolding signif_def by (simp only: rhe_int)
qed

lemma rval_mono: assumes x: "0 < x" "x \<le> y" shows "rval x \<le> rval y"
proof -
  have e: "uexp x \<le> uexp y" using ilog2_mono [of x y] x by (auto simp: uexp_def)
  show ?thesis
  proof (cases "uexp x = uexp y")
    case True
    have "signif x \<le> signif y" unfolding signif_def True using x by (intro rhe_mono divide_right_mono) auto
    then show ?thesis unfolding rval_def True by simp
  next
    case False
    with e have e': "uexp x + 1 \<le> uexp y" and "-1074 < uexp y"
      by (auto simp: uexp_def max_def split: if_splits)
    then have sy: "2 ^ 52 \<le> signif y" using signif_bounds [of y] x by auto
    have "rval x \<le> of_int (2 ^ 53) * 2 powi uexp x"
      unfolding rval_def using signif_bounds(2) [OF x(1)] by (intro mult_right_mono) (simp_all only: of_int_le_iff pow2_pos less_imp_le)
    also have "\<dots> = of_int (2 ^ 52) * 2 powi (uexp x + 1)" by (simp add: power_int_add)
    also have "\<dots> \<le> of_int (2 ^ 52) * 2 powi uexp y" using e'
      by (intro mult_left_mono power_int_increasing) auto
    also have "\<dots> \<le> rval y" unfolding rval_def using sy
      by (intro mult_right_mono) (simp_all only: of_int_le_iff pow2_pos less_imp_le)
    finally show ?thesis .
  qed
qed

definition huge :: rat where "huge = 2 powi 1024"

lemma overflow_iff:
  assumes x: "0 < x"
  shows "(971 < uexp x \<or> uexp x = 971 \<and> 2 ^ 53 \<le> signif x) \<longleftrightarrow> huge \<le> rval x"
proof
  assume o: "971 < uexp x \<or> uexp x = 971 \<and> 2 ^ 53 \<le> signif x"
  then show "huge \<le> rval x"
  proof
    assume u: "971 < uexp x"
    have "huge = of_int (2 ^ 52) * 2 powi 972" by (simp add: huge_def flip: power_int_add)
    also have "\<dots> \<le> of_int (signif x) * 2 powi uexp x"
      using u signif_bounds(3) [OF x] by (intro mult_mono power_int_increasing) (simp_all only: of_int_le_iff, auto)
    finally show ?thesis by (simp add: rval_def)
  next
    assume u: "uexp x = 971 \<and> 2 ^ 53 \<le> signif x"
    have "huge = of_int (2 ^ 53) * 2 powi 971" by (simp add: huge_def)
    also have "\<dots> \<le> of_int (signif x) * 2 powi uexp x"
      using u by (intro mult_mono) (simp_all only: of_int_le_iff, auto)
    finally show ?thesis by (simp add: rval_def)
  qed
next
  assume r: "huge \<le> rval x"
  show "971 < uexp x \<or> uexp x = 971 \<and> 2 ^ 53 \<le> signif x"
  proof (rule ccontr)
    assume "\<not> ?thesis"
    then consider "uexp x \<le> 970" | "uexp x = 971" "signif x < 2 ^ 53" by linarith
    then have "rval x < huge"
    proof cases
      case 1
      have "rval x \<le> of_int (2 ^ 53) * 2 powi 970"
        unfolding rval_def using 1 signif_bounds(1,2) [OF x]
        by (intro mult_mono power_int_increasing) (simp_all only: of_int_le_iff, auto)
      then show ?thesis by (simp add: huge_def)
    next
      case 2
      have "rval x < of_int (2 ^ 53) * 2 powi 971"
        unfolding rval_def using 2 by (simp only: of_int_less_iff mult_less_cancel_right_pos pow2_pos)
      then show ?thesis by (simp add: huge_def)
    qed
    with r show False by simp
  qed
qed

lemma rnd_pos:
  assumes x: "0 < x"
  shows "rnd x = (if huge \<le> rval x then PInf else Fin (rval x))"
proof -
  have "\<bar>signif x\<bar> = signif x" using signif_bounds(1) [OF x] by simp
  moreover have "signif x = 0 \<Longrightarrow> \<not> huge \<le> rval x \<and> rval x = 0"
    by (simp add: rval_def huge_def)
  ultimately show ?thesis unfolding rnd_def overflow_iff [OF x, symmetric] using x
    by (auto simp: rval_def)
qed

fun fneg :: "f64 \<Rightarrow> f64" where
  "fneg NaN = NaN" | "fneg PInf = NInf" | "fneg NInf = PInf" | "fneg NZero = Fin 0"
| "fneg (Fin r) = (if r = 0 then NZero else Fin (- r))"

lemma rnd_neg: "x \<noteq> 0 \<Longrightarrow> rnd (- x) = fneg (rnd x)"
  by (auto simp: rnd_def)

subsection \<open>Representable values\<close>

text \<open>Every product of an integer of at most 53 bits and a power of two is rounded to itself.\<close>

lemma rval_exact_pos:
  assumes m: "0 < m" "m \<le> 2 ^ 53" and e: "-1074 \<le> e"
  shows "rval (of_int m * 2 powi e) = of_int m * 2 powi e"
proof -
  define x where "x = (of_int m * 2 powi e :: rat)"
  have x: "0 < x" using m by (simp add: x_def)
  have "\<exists>n. x = of_int n * 2 powi uexp x"
  proof (cases "uexp x \<le> e")
    case True
    then have n: "(2::rat) powi (e - uexp x) = of_int (2 ^ nat (e - uexp x))"
      by (simp add: power_int_def)
    have "(2::rat) powi e = 2 powi (e - uexp x) * 2 powi uexp x"
      by (simp flip: power_int_add)
    then have c: "(2::rat) powi e = of_int (2 ^ nat (e - uexp x)) * 2 powi uexp x"
      by (simp only: n)
    have "x = of_int m * (of_int (2 ^ nat (e - uexp x)) * 2 powi uexp x)"
      by (subst c [symmetric]) (rule x_def)
    then have "x = of_int (m * 2 ^ nat (e - uexp x)) * 2 powi uexp x"
      by (simp only: of_int_mult mult.assoc)
    then show ?thesis by blast
  next
    case False
    with e have u: "-1074 < uexp x" "e + 1 \<le> uexp x" by auto
    then have l: "ilog2 x = uexp x + 52" using x by (auto simp: uexp_def max_def split: if_splits)
    have "(2::rat) powi (e + 53) \<le> 2 powi (uexp x + 52)" using u by (intro power_int_increasing) auto
    also have "\<dots> \<le> x" using ilog2_bounds(1) [OF x] l by simp
    finally have "2 ^ 53 * 2 powi e \<le> of_int m * (2::rat) powi e"
      by (simp add: x_def power_int_add mult.commute)
    then have "(of_int (2 ^ 53) :: rat) \<le> of_int m" by simp
    then have m53: "m = 2 ^ 53" using m(2) by (simp only: of_int_le_iff)
    then have "x = 2 powi (e + 53)" by (simp add: x_def power_int_add)
    then have "ilog2 x = e + 53" by (intro ilog2_unique) (auto simp: power_int_add)
    with l have "uexp x = e + 1" by simp
    then have "x = of_int (2 ^ 52) * 2 powi uexp x" by (simp add: x_def m53 power_int_add)
    then show ?thesis by blast
  qed
  then obtain n where n: "x = of_int n * 2 powi uexp x" by blast
  then have "x / 2 powi uexp x = of_int n" by (simp add: divide_eq_eq)
  then have "rval x = of_int n * 2 powi uexp x" by (simp only: rval_def signif_def rhe_int)
  then have "rval x = x" by (simp only: n [symmetric])
  then show ?thesis by (simp add: x_def)
qed

lemma rval_idem: assumes x: "0 < x" shows "rval (rval x) = rval x"
proof (cases "signif x = 0")
  case True
  then have "rval x = 0" by (simp add: rval_def)
  then show ?thesis by (simp add: rval_def signif_def) (simp add: rhe_def)
next
  case False
  then have "0 < signif x" using signif_bounds(1) [OF x] by simp
  then show ?thesis unfolding rval_def [of x]
    using signif_bounds(2) [OF x] by (intro rval_exact_pos) (auto simp: uexp_def)
qed

subsection \<open>Order\<close>

text \<open>
  Comparisons go through a key: the finite values between the two infinities, both zeros
  equal. Every comparison with NaN is false, as in Go.
\<close>

fun fkey :: "f64 \<Rightarrow> int \<times> rat" where
  "fkey NInf = (-1, 0)"
| "fkey PInf = (1, 0)"
| "fkey x = (0, val x)"

definition flt :: "f64 \<Rightarrow> f64 \<Rightarrow> bool" where
  "flt x y \<longleftrightarrow> x \<noteq> NaN \<and> y \<noteq> NaN \<and> fkey x < fkey y"

definition feq :: "f64 \<Rightarrow> f64 \<Rightarrow> bool" where
  "feq x y \<longleftrightarrow> x \<noteq> NaN \<and> y \<noteq> NaN \<and> fkey x = fkey y"

definition fle :: "f64 \<Rightarrow> f64 \<Rightarrow> bool" where
  "fle x y \<longleftrightarrow> x \<noteq> NaN \<and> y \<noteq> NaN \<and> fkey x \<le> fkey y"

lemma fle_refl [simp]: "fle x x \<longleftrightarrow> x \<noteq> NaN" by (simp add: fle_def)
lemma fle_trans [trans]: "fle x y \<Longrightarrow> fle y z \<Longrightarrow> fle x z" by (auto simp: fle_def)
lemma flt_trans [trans]: "flt x y \<Longrightarrow> flt y z \<Longrightarrow> flt x z" by (auto simp: flt_def)
lemma flt_fle_trans [trans]: "flt x y \<Longrightarrow> fle y z \<Longrightarrow> flt x z" by (auto simp: flt_def fle_def)
lemma fle_flt_trans [trans]: "fle x y \<Longrightarrow> flt y z \<Longrightarrow> flt x z" by (auto simp: flt_def fle_def)
lemma flt_irrefl [simp]: "\<not> flt x x" by (simp add: flt_def)
lemma flt_imp_fle: "flt x y \<Longrightarrow> fle x y" by (auto simp: flt_def fle_def)
lemma flt_asym: "flt x y \<Longrightarrow> \<not> flt y x" by (auto simp: flt_def)
lemma not_flt_iff_fle: "x \<noteq> NaN \<Longrightarrow> y \<noteq> NaN \<Longrightarrow> \<not> flt x y \<longleftrightarrow> fle y x"
  by (auto simp: flt_def fle_def)
lemma fle_iff_flt_or_feq: "fle x y \<longleftrightarrow> flt x y \<or> feq x y" by (auto simp: flt_def fle_def feq_def)
lemma flt_not_NaN: "flt x y \<Longrightarrow> x \<noteq> NaN \<and> y \<noteq> NaN" by (simp add: flt_def)
lemma fle_not_NaN: "fle x y \<Longrightarrow> x \<noteq> NaN \<and> y \<noteq> NaN" by (simp add: fle_def)
lemma flt_NaN [simp]: "\<not> flt NaN y" "\<not> flt x NaN" by (simp_all add: flt_def)
lemma fle_total: "x \<noteq> NaN \<Longrightarrow> y \<noteq> NaN \<Longrightarrow> fle x y \<or> fle y x" by (auto simp: fle_def)

lemma flt_Fin [simp]: "flt (Fin a) (Fin b) \<longleftrightarrow> a < b" by (simp add: flt_def)
lemma fle_Fin [simp]: "fle (Fin a) (Fin b) \<longleftrightarrow> a \<le> b" by (simp add: fle_def)
lemma feq_Fin [simp]: "feq (Fin a) (Fin b) \<longleftrightarrow> a = b" by (simp add: feq_def)

lemma fneg_fneg [simp]: "fneg (fneg x) = x" by (cases x) auto
lemma fneg_eq_NaN [simp]: "fneg x = NaN \<longleftrightarrow> x = NaN" by (cases x) auto
lemma flt_fneg [simp]: "flt (fneg x) (fneg y) \<longleftrightarrow> flt y x"
  by (cases x; cases y) (auto simp: flt_def)
lemma fle_fneg [simp]: "fle (fneg x) (fneg y) \<longleftrightarrow> fle y x"
  by (cases x; cases y) (auto simp: fle_def)
lemma fneg_eq_Fin: "r \<noteq> 0 \<Longrightarrow> fneg x = Fin r \<longleftrightarrow> x = Fin (- r)" by (cases x) auto
lemma val_fneg [simp]: "val (fneg x) = - val x" by (cases x) auto
lemma is_fin_fneg [simp]: "is_fin (fneg x) \<longleftrightarrow> is_fin x" by (cases x) auto
lemma is_neg_fneg: "x \<noteq> NaN \<Longrightarrow> is_neg (fneg x) \<longleftrightarrow> \<not> is_neg x" by (cases x) auto

lemma fle_zero_iff: "fle (Fin 0) x \<longleftrightarrow> x \<noteq> NaN \<and> (x = PInf \<or> is_fin x \<and> 0 \<le> val x)"
  by (cases x) (auto simp: fle_def)
lemma flt_zero_iff: "flt (Fin 0) x \<longleftrightarrow> x = PInf \<or> 0 < val x"
  by (cases x) (auto simp: flt_def)

lemma rnd_not_NaN [simp]: "rnd x \<noteq> NaN" by (simp add: rnd_def)

lemma rnd_zero [simp]: "rnd 0 = Fin 0" by (simp add: rnd_def)

lemma rval_nonneg: "0 < x \<Longrightarrow> 0 \<le> rval x"
  using signif_bounds(1) [of x] by (simp add: rval_def)

lemma rnd_nonneg: "0 \<le> x \<Longrightarrow> fle (Fin 0) (rnd x)"
  by (cases "x = 0") (auto simp: rnd_pos rval_nonneg fle_zero_iff)

lemma rnd_mono_pos: "0 < x \<Longrightarrow> x \<le> y \<Longrightarrow> fle (rnd x) (rnd y)"
  using rval_mono [of x y] by (auto simp: rnd_pos fle_def)

lemma rnd_mono: assumes "x \<le> y" shows "fle (rnd x) (rnd y)"
proof -
  consider "0 < x" | "x \<le> 0" "0 \<le> y" | "x < 0" "y < 0" using assms by linarith
  then show ?thesis
  proof cases
    case 1 then show ?thesis using assms by (rule rnd_mono_pos)
  next
    case 2
    have "fle (rnd x) (Fin 0)"
    proof (cases "x = 0")
      case False
      with 2 have "fle (Fin 0) (rnd (- x))" by (intro rnd_nonneg) simp
      then show ?thesis using rnd_neg [OF False] by (cases "rnd x") (auto simp: fle_def split: if_splits)
    qed simp
    also have "fle (Fin 0) (rnd y)" using 2 by (intro rnd_nonneg)
    finally show ?thesis .
  next
    case 3
    with assms have "fle (rnd (- y)) (rnd (- x))" by (intro rnd_mono_pos) auto
    then show ?thesis using 3 by (simp add: rnd_neg)
  qed
qed

lemma rnd_nonpos: "x \<le> 0 \<Longrightarrow> fle (rnd x) (Fin 0)"
  using rnd_mono [of x 0] by simp

text \<open>
  \<open>wf64 x\<close>: the value is one of the binary64 values. Rounding produces only such values
  and leaves them alone.
\<close>

definition wf64 :: "f64 \<Rightarrow> bool" where
  "wf64 x \<longleftrightarrow> (\<forall>r. x = Fin r \<longrightarrow> r = 0 \<or> rnd r = Fin r)"

lemma wf64_special [simp]: "wf64 NaN" "wf64 PInf" "wf64 NInf" "wf64 NZero" "wf64 (Fin 0)"
  by (simp_all add: wf64_def)

lemma wf64_fneg [simp]: "wf64 (fneg x) \<longleftrightarrow> wf64 x"
  by (cases x) (auto simp: wf64_def rnd_neg fneg_eq_Fin)

lemma wf64_rnd_pos: assumes "0 < x" shows "wf64 (rnd x)"
proof (cases "rval x = 0 \<or> huge \<le> rval x")
  case False
  then have "0 < rval x" using rval_nonneg [OF assms] by simp
  then have "rnd (rval x) = Fin (rval x)" using False by (simp add: rnd_pos rval_idem assms)
  then show ?thesis using False by (simp add: rnd_pos assms wf64_def)
qed (auto simp: rnd_pos assms)

lemma wf64_rnd [simp]: "wf64 (rnd x)"
proof -
  consider "0 < x" | "x = 0" | "0 < - x" by linarith
  then show ?thesis
  proof cases
    case 3
    then have "wf64 (fneg (rnd (- x)))" by (simp add: wf64_rnd_pos)
    moreover have "fneg (rnd (- x)) = rnd x" using 3 by (simp add: rnd_neg)
    ultimately show ?thesis by simp
  qed (auto simp: wf64_rnd_pos)
qed

lemma rnd_val: "wf64 x \<Longrightarrow> is_fin x \<Longrightarrow> x \<noteq> NZero \<Longrightarrow> rnd (val x) = x"
  by (cases x) (auto simp: wf64_def)

lemma rnd_val_key: "wf64 x \<Longrightarrow> is_fin x \<Longrightarrow> fkey (rnd (val x)) = fkey x"
  by (cases "x = NZero") (auto simp: rnd_val)

lemma rnd_int:
  assumes "\<bar>n\<bar> \<le> 2 ^ 53"
  shows "rnd (of_int n) = Fin (of_int n)"
proof -
  have pos: "rnd (of_int m) = Fin (of_int m)" if "0 < m" "m \<le> 2 ^ 53" for m
  proof -
    have "rval (of_int m) = of_int m" using rval_exact_pos [OF that, of 0] by simp
    moreover have "(of_int m :: rat) < huge"
    proof -
      have "(of_int m :: rat) \<le> of_int (2 ^ 53)" using that(2) by (simp only: of_int_le_iff)
      also have "\<dots> < huge" by (simp add: huge_def)
      finally show ?thesis .
    qed
    ultimately show ?thesis using that(1) by (simp add: rnd_pos)
  qed
  consider "0 < n" | "n = 0" | "0 < - n" by linarith
  then show ?thesis
  proof cases
    case 3
    with assms have "rnd (of_int (- n)) = Fin (of_int (- n))" by (intro pos) auto
    with 3 have "fneg (rnd (- of_int n)) = Fin (of_int n)" by simp
    then show ?thesis using 3 by (simp add: rnd_neg)
  qed (use assms pos in auto)
qed

section \<open>The operations\<close>

fun fadd :: "f64 \<Rightarrow> f64 \<Rightarrow> f64" where
  "fadd NaN y = NaN"
| "fadd x NaN = NaN"
| "fadd PInf NInf = NaN"
| "fadd NInf PInf = NaN"
| "fadd PInf y = PInf"
| "fadd NInf y = NInf"
| "fadd x PInf = PInf"
| "fadd x NInf = NInf"
| "fadd NZero NZero = NZero"
| "fadd x y = rnd (val x + val y)"

definition fsub :: "f64 \<Rightarrow> f64 \<Rightarrow> f64" where
  "fsub x y = fadd x (fneg y)"

text \<open>A zero, or an infinity, with the given sign bit.\<close>

definition fzero :: "bool \<Rightarrow> f64" where "fzero s = (if s then NZero else Fin 0)"
definition finf :: "bool \<Rightarrow> f64" where "finf s = (if s then NInf else PInf)"

definition fmul :: "f64 \<Rightarrow> f64 \<Rightarrow> f64" where
  "fmul x y = (let s = (is_neg x \<noteq> is_neg y) in
     if x = NaN \<or> y = NaN then NaN
     else if \<not> is_fin x then (if is_fin y \<and> val y = 0 then NaN else finf s)
     else if \<not> is_fin y then (if val x = 0 then NaN else finf s)
     else if val x * val y = 0 then fzero s
     else rnd (val x * val y))"

definition fdiv :: "f64 \<Rightarrow> f64 \<Rightarrow> f64" where
  "fdiv x y = (let s = (is_neg x \<noteq> is_neg y) in
     if x = NaN \<or> y = NaN then NaN
     else if \<not> is_fin x then (if \<not> is_fin y then NaN else finf s)
     else if \<not> is_fin y then fzero s
     else if val y = 0 then (if val x = 0 then NaN else finf s)
     else if val x = 0 then fzero s
     else rnd (val x / val y))"

definition fabs :: "f64 \<Rightarrow> f64" where
  "fabs x = (if is_neg x then fneg x else x)"

text \<open>\<open>float64(n)\<close> of an integer, and the conversion back of a finite value (truncation).\<close>

definition f_of_int :: "int \<Rightarrow> f64" where "f_of_int n = rnd (of_int n)"

definition f_to_int :: "f64 \<Rightarrow> int" where
  "f_to_int x = (if 0 \<le> val x then \<lfloor>val x\<rfloor> else \<lceil>val x\<rceil>)"

text \<open>\<open>math.Floor\<close>, \<open>math.Ceil\<close>: finite values are exact integers, zeros keep their sign.\<close>

definition ffloor :: "f64 \<Rightarrow> f64" where
  "ffloor x = (case x of Fin r \<Rightarrow> Fin (of_int \<lfloor>r\<rfloor>) | _ \<Rightarrow> x)"

definition fceil :: "f64 \<Rightarrow> f64" where
  "fceil x = (case x of Fin r \<Rightarrow> (if r < 0 \<and> -1 < r then NZero else Fin (of_int \<lceil>r\<rceil>)) | _ \<Rightarrow> x)"

text \<open>
  \<open>math.Sqrt\<close>, correctly rounded: the integer square root of the scaled argument gives the
  53 significant bits, and the exact comparison with the midpoint decides the rounding.
\<close>

function isqrt :: "int \<Rightarrow> int" where
  "isqrt n = (if n \<le> 0 then 0
     else let r = 2 * isqrt (n div 4) in if (r + 1) * (r + 1) \<le> n then r + 1 else r)"
  by pat_completeness auto
termination by (relation "measure nat") auto
declare isqrt.simps [simp del]

definition sqrt_exp :: "rat \<Rightarrow> int" where "sqrt_exp r = ilog2 r div 2 - 52"

definition sqrt_signif :: "rat \<Rightarrow> int" where
  "sqrt_signif r =
     (let t = r / 4 powi sqrt_exp r; m = isqrt \<lfloor>t\<rfloor>; h = of_int m + 1 / 2
      in if t < h * h then m else if h * h < t then m + 1 else if even m then m else m + 1)"

fun fsqrt :: "f64 \<Rightarrow> f64" where
  "fsqrt (Fin r) = (if r < 0 then NaN else if r = 0 then Fin 0
     else Fin (of_int (sqrt_signif r) * 2 powi sqrt_exp r))"
| "fsqrt NInf = NaN"
| "fsqrt x = x"

lemma isqrt_bounds: "0 \<le> n \<Longrightarrow> 0 \<le> isqrt n \<and> isqrt n * isqrt n \<le> n \<and> n < (isqrt n + 1) * (isqrt n + 1)"
proof (induction n rule: isqrt.induct)
  case (1 n)
  show ?case
  proof (cases "n = 0")
    case True then show ?thesis by (simp add: isqrt.simps [of 0])
  next
    case False
    define r where "r = isqrt (n div 4)"
    have IH: "0 \<le> r" "r * r \<le> n div 4" "n div 4 < (r + 1) * (r + 1)"
      using 1 False by (auto simp: r_def)
    have "4 * (n div 4) \<le> n" "n < 4 * (n div 4) + 4" by presburger+
    with IH have b: "4 * (r * r) \<le> n" "n < 4 * ((r + 1) * (r + 1))" by linarith+
    have e: "isqrt n = (if (2 * r + 1) * (2 * r + 1) \<le> n then 2 * r + 1 else 2 * r)"
      using 1 False by (simp add: isqrt.simps [of n] r_def Let_def)
    show ?thesis unfolding e using b IH(1) by (auto simp: algebra_simps)
  qed
qed

text \<open>The exact square root lies within half a unit in the last place of \<open>math.Sqrt\<close>.\<close>

lemma sqrt_signif_nearest:
  assumes "0 < r"
  defines "t \<equiv> r / 4 powi sqrt_exp r" and "m \<equiv> sqrt_signif r"
  shows "0 \<le> m" and "t \<le> (of_int m + 1 / 2) * (of_int m + 1 / 2)"
    and "0 < m \<Longrightarrow> (of_int m - 1 / 2) * (of_int m - 1 / 2) \<le> t"
proof -
  have t: "0 < t" using assms(1) by (simp add: t_def)
  define k where "k = isqrt \<lfloor>t\<rfloor>"
  have k: "0 \<le> k" "k * k \<le> \<lfloor>t\<rfloor>" "\<lfloor>t\<rfloor> < (k + 1) * (k + 1)"
    using isqrt_bounds [of "\<lfloor>t\<rfloor>"] t by (auto simp: k_def)
  have lo: "of_int k * of_int k \<le> t" using k(2) by (simp add: le_floor_iff)
  have "\<lfloor>t\<rfloor> + 1 \<le> (k + 1) * (k + 1)" using k(3) by simp
  then have "(of_int (\<lfloor>t\<rfloor> + 1) :: rat) \<le> of_int ((k + 1) * (k + 1))" by (simp only: of_int_le_iff)
  then have hi: "t < (of_int k + 1) * (of_int k + 1)"
    using floor_correct [of t] by (simp add: algebra_simps)
  have m: "m = k \<or> m = k + 1" and m1: "m = k \<Longrightarrow> t \<le> (of_int k + 1 / 2) * (of_int k + 1 / 2)"
    and m2: "m = k + 1 \<Longrightarrow> (of_int k + 1 / 2) * (of_int k + 1 / 2) \<le> t"
    by (auto simp: m_def sqrt_signif_def Let_def k_def t_def split: if_splits)
  show "0 \<le> m" using m k(1) by auto
  show "t \<le> (of_int m + 1 / 2) * (of_int m + 1 / 2)"
    using m m1 hi k(1) by (auto simp: algebra_simps)
  assume "0 < m"
  from m show "(of_int m - 1 / 2) * (of_int m - 1 / 2) \<le> t"
  proof
    assume mk: "m = k"
    then have "(1::rat) \<le> of_int k" using \<open>0 < m\<close> by simp
    with lo show ?thesis by (auto simp: mk algebra_simps)
  qed (use m2 in \<open>auto simp: algebra_simps\<close>)
qed

subsection \<open>Laws of the operations\<close>

lemma fsub_NaN [simp]: "fsub NaN y = NaN" "fsub x NaN = NaN"
  by (simp_all add: fsub_def) (cases x; simp)

lemma fdiv_NaN [simp]: "fdiv NaN y = NaN" "fdiv x NaN = NaN" by (simp_all add: fdiv_def)
lemma fmul_NaN [simp]: "fmul NaN y = NaN" "fmul x NaN = NaN" by (simp_all add: fmul_def)
lemma fadd_NaN [simp]: "fadd x NaN = NaN" by (cases x) auto

lemma fadd_comm: "fadd x y = fadd y x"
  by (cases x; cases y) (auto simp: add.commute)

lemma fzero_not [simp]: "fneg (fzero s) = fzero (\<not> s)" by (simp add: fzero_def)
lemma finf_not [simp]: "fneg (finf s) = finf (\<not> s)" by (simp add: finf_def)

lemma fmul_fneg_left: "fmul (fneg x) y = fneg (fmul x y)"
  by (cases "x = NaN") (auto simp: fmul_def Let_def is_neg_fneg rnd_neg)

lemma fdiv_fneg_left: "fdiv (fneg x) y = fneg (fdiv x y)"
  by (cases "x = NaN") (auto simp: fdiv_def Let_def is_neg_fneg rnd_neg)

lemma fsub_finite: "is_fin x \<Longrightarrow> is_fin y \<Longrightarrow> fkey (fsub x y) = fkey (rnd (val x - val y))"
  by (cases x; cases y) (auto simp: fsub_def)

lemma fadd_finite: "is_fin x \<Longrightarrow> is_fin y \<Longrightarrow> fkey (fadd x y) = fkey (rnd (val x + val y))"
  by (cases x; cases y) auto

lemma fadd_not_NaN: "x \<noteq> NaN \<Longrightarrow> y \<noteq> NaN \<Longrightarrow> is_fin x \<or> is_fin y \<Longrightarrow> fadd x y \<noteq> NaN"
  by (cases x; cases y) auto

lemma fsub_nonpos:
  assumes "fle x y" and "\<not> (x = y \<and> \<not> is_fin x)"
  shows "fle (fsub x y) (Fin 0)"
proof (cases "is_fin x \<and> is_fin y")
  case True
  then have "val x - val y \<le> 0" using assms(1) by (cases x; cases y) (auto simp: fle_def)
  then have "fle (rnd (val x - val y)) (Fin 0)" by (rule rnd_nonpos)
  moreover have "fsub x y \<noteq> NaN" using True by (cases x; cases y) (auto simp: fsub_def)
  ultimately show ?thesis using True by (simp add: fle_def fsub_finite)
next
  case False
  then show ?thesis using assms by (cases x; cases y) (auto simp: fsub_def fle_def)
qed

lemma fdiv_pos_mono0:
  assumes "fle x (Fin 0)" and "flt (Fin 0) y" and "y \<noteq> PInf"
  shows "fle (fdiv x y) (Fin 0)"
proof (cases x)
  case (Fin r)
  then show ?thesis using assms
    by (cases y) (auto simp: fdiv_def Let_def fzero_def fle_def flt_def
        intro!: rnd_nonpos [unfolded fle_def, THEN conjunct2, THEN conjunct2, simplified] divide_nonpos_pos)
qed (use assms in \<open>cases y; auto simp: fdiv_def Let_def fzero_def finf_def fle_def flt_def\<close>)+

lemma fmul_pos_mono0:
  assumes "fle x (Fin 0)" and "0 < c"
  shows "fle (fmul x (Fin c)) (Fin 0)"
proof (cases x)
  case (Fin r)
  then show ?thesis using assms
    by (auto simp: fmul_def Let_def fzero_def fle_def
        intro!: rnd_nonpos [unfolded fle_def, THEN conjunct2, THEN conjunct2, simplified] mult_nonpos_nonneg)
qed (use assms in \<open>auto simp: fmul_def Let_def fzero_def finf_def fle_def\<close>)

lemma fadd_ge_left:
  assumes "wf64 x" "is_fin x" "fle (Fin 0) y"
  shows "fle x (fadd x y)"
proof (cases "y = PInf")
  case False
  then have y: "is_fin y" "0 \<le> val y" using assms(3) by (auto simp: fle_zero_iff)
  then have "fle (rnd (val x)) (rnd (val x + val y))" by (intro rnd_mono) simp
  moreover have "fadd x y \<noteq> NaN" "x \<noteq> NaN" using assms(2) y by (cases x; cases y; simp)+
  ultimately show ?thesis using assms y by (simp add: fle_def fadd_finite rnd_val_key)
qed (use assms in \<open>cases x; auto simp: fle_def\<close>)

lemma wf64_fadd [simp]: "wf64 x \<Longrightarrow> wf64 y \<Longrightarrow> wf64 (fadd x y)" by (cases x; cases y) auto
lemma wf64_fsub [simp]: "wf64 x \<Longrightarrow> wf64 y \<Longrightarrow> wf64 (fsub x y)" by (simp add: fsub_def)
lemma wf64_fmul [simp]: "wf64 (fmul x y)" by (auto simp: fmul_def Let_def fzero_def finf_def)
lemma wf64_fdiv [simp]: "wf64 (fdiv x y)" by (auto simp: fdiv_def Let_def fzero_def finf_def)
lemma wf64_f_of_int [simp]: "wf64 (f_of_int n)" by (simp add: f_of_int_def)

end
