(* ===== verification/Stats_Window.thy ===== *)
theory Stats_Window
  imports Float64 "HOL-Library.Monad_Syntax"
begin

text \<open>
  \<^verbatim>\<open>internal/stats/aggregates.go\<close> and \<^verbatim>\<open>internal/stats/window.go\<close>: the sample
  aggregates stored with a result, and the window primitives of the rolling statistics.
  An access outside a slice is \<open>None\<close>; the lemmas show where it cannot happen. The window
  sizes are natural numbers: the callers pass the constant 100.
\<close>

section \<open>Definitions\<close>

subsection \<open>aggregates.go\<close>

definition minSamplesForAggregates :: nat where
  "minSamplesForAggregates = 3"

record Aggregates =
  Mean :: f64
  Q1 :: "f64 ptr"
  Q3 :: "f64 ptr"
  Median :: "f64 ptr"
  Min :: "f64 ptr"
  Max :: "f64 ptr"
  Stdev :: "f64 ptr"
  Iqr :: "f64 ptr"

text \<open>The comparison of \<open>sort.Float64s\<close>: NaN values come first.\<close>

definition float_less :: "f64 \<Rightarrow> f64 \<Rightarrow> bool" where
  "float_less x y \<longleftrightarrow> flt x y \<or> x = NaN \<and> y \<noteq> NaN"

definition sort_float64s :: "f64 list \<Rightarrow> f64 list" where
  "sort_float64s xs = stable_sort float_less xs"

text \<open>\<open>for _, x := range xs { sum += x }\<close> from zero.\<close>

definition fsum :: "f64 list \<Rightarrow> f64" where
  "fsum xs = foldl fadd (Fin 0) xs"

definition mean :: "f64 list \<Rightarrow> f64" where
  "mean xs = fdiv (fsum xs) (f_of_int (int (length xs)))"

definition stddev :: "f64 list \<Rightarrow> f64 \<Rightarrow> f64" where
  "stddev xs m =
     (let ss = foldl (\<lambda>ss x. let d = fsub x m in fadd ss (fmul d d)) (Fin 0) xs
      in fsqrt (fdiv ss (f_of_int (int (length xs) - 1))))"

definition percentile :: "f64 list \<Rightarrow> f64 \<Rightarrow> f64 option" where
  "percentile xs q =
     (if length xs = 1 then go_index xs 0
      else let idx = fmul (fdiv q (Fin 100)) (f_of_int (int (length xs) - 1));
               lo = ffloor idx; hi = fceil idx in
        (if feq lo hi then go_index xs (f_to_int idx)
         else do {
           a \<leftarrow> go_index xs (f_to_int lo);
           b \<leftarrow> go_index xs (f_to_int hi);
           Some (fadd a (fmul (fsub idx lo) (fsub b a)))
         }))"

definition Aggregate :: "f64 list \<Rightarrow> Aggregates option" where
  "Aggregate samples =
     (let m = mean samples;
          agg = \<lparr>Mean = m, Q1 = None, Q3 = None, Median = None, Min = None, Max = None,
                 Stdev = None, Iqr = None\<rparr> in
      if length samples < minSamplesForAggregates then Some agg
      else let sorted = sort_float64s samples in do {
        q1 \<leftarrow> percentile sorted (Fin 25);
        q3 \<leftarrow> percentile sorted (Fin 75);
        median \<leftarrow> percentile sorted (Fin 50);
        smin \<leftarrow> go_index sorted 0;
        smax \<leftarrow> go_index sorted (int (length sorted) - 1);
        Some (agg\<lparr>Q1 := Some q1, Q3 := Some q3, Median := Some median, Min := Some smin,
                   Max := Some smax, Stdev := Some (stddev samples m),
                   Iqr := Some (fsub q3 q1)\<rparr>)
      })"

subsection \<open>window.go\<close>

definition skip_NaN :: "f64 list \<Rightarrow> f64 list" where
  "skip_NaN xs = filter (\<lambda>x. x \<noteq> NaN) xs"

definition meanSkipNaN :: "f64 list \<Rightarrow> f64" where
  "meanSkipNaN xs =
     (let (sum, n) = foldl (\<lambda>(sum, n). \<lambda>x. if x \<noteq> NaN then (fadd sum x, n + 1) else (sum, n))
                           (Fin 0, 0 :: int) xs
      in if n = 0 then NaN else fdiv sum (f_of_int n))"

definition sampleStdSkipNaN :: "f64 list \<Rightarrow> f64" where
  "sampleStdSkipNaN xs =
     (let clean = skip_NaN xs in
      if length clean < 2 then NaN
      else let m = meanSkipNaN clean;
               ss = foldl (\<lambda>ss x. let d = fsub x m in fadd ss (fmul d d)) (Fin 0) clean
           in fsqrt (fdiv ss (f_of_int (int (length clean) - 1))))"

definition quantileLinear :: "f64 list \<Rightarrow> f64 \<Rightarrow> f64 option" where
  "quantileLinear xs q =
     (let clean = skip_NaN xs in
      if clean = [] then Some NaN
      else let s = sort_float64s clean in
        if length s = 1 then go_index s 0
        else let pos = fmul q (f_of_int (int (length s) - 1));
                 lo = f_to_int (ffloor pos); hi = f_to_int (fceil pos) in
          (if lo = hi then go_index s lo
           else do {
             a \<leftarrow> go_index s lo;
             b \<leftarrow> go_index s hi;
             Some (fadd a (fmul (fsub b a) (fsub pos (f_of_int lo))))
           }))"

text \<open>The loop of \<open>denseRank\<close> over the sorted values: \<open>p\<close> is the element before.\<close>

fun rank_loop :: "int option \<Rightarrow> nat \<Rightarrow> int list \<Rightarrow> (int \<times> nat) list" where
  "rank_loop p r [] = []"
| "rank_loop p r (v # vs) =
     (if p = Some v then rank_loop (Some v) r vs
      else (v, Suc r) # rank_loop (Some v) (Suc r) vs)"

text \<open>A missing key of a Go map reads as zero.\<close>

definition denseRank :: "int list \<Rightarrow> nat list" where
  "denseRank xs =
     (let rankOf = map_of (rank_loop None 0 (sort xs))
      in map (\<lambda>v. case rankOf v of Some r \<Rightarrow> r | None \<Rightarrow> 0) xs)"

definition rollingRowCount :: "f64 list \<Rightarrow> nat \<Rightarrow> (f64 list \<Rightarrow> f64) \<Rightarrow> f64 list" where
  "rollingRowCount xs window reduce =
     map (\<lambda>i. let lo = Suc i - window in reduce (take (Suc i - lo) (drop lo xs))) [0..<length xs]"

definition lowerCount :: "nat list \<Rightarrow> int \<Rightarrow> nat" where
  "lowerCount ranks v = go_search (length ranks) (\<lambda>i. int (ranks ! i) \<ge> v)"

definition upperCount :: "nat list \<Rightarrow> int \<Rightarrow> nat" where
  "upperCount ranks v = go_search (length ranks) (\<lambda>i. int (ranks ! i) > v)"

definition rollingCommitRank ::
  "f64 list \<Rightarrow> int list \<Rightarrow> nat \<Rightarrow> bool \<Rightarrow> (f64 list \<Rightarrow> f64) \<Rightarrow> f64 list" where
  "rollingCommitRank vals timestamps window closedRight reduce =
     (let ranks = denseRank timestamps in
      map (\<lambda>i. let r = int (ranks ! i);
                   hi = (if closedRight then upperCount ranks r else lowerCount ranks r);
                   lo = (if closedRight then upperCount ranks (r - int window)
                         else lowerCount ranks (r - int window)) in
               if lo \<ge> hi then NaN else reduce (take (hi - lo) (drop lo vals)))
          [0..<length vals])"


section \<open>Lemmas\<close>

subsection \<open>Sorting of float values\<close>

interpretation float_order: weak_order float_less
  by unfold_locales (auto simp: float_less_def flt_def)

lemma sort_float64s_le:
  assumes "NaN \<notin> set xs" "i \<le> j" "j < length xs"
  shows "fle (sort_float64s xs ! i) (sort_float64s xs ! j)"
proof -
  let ?s = "sort_float64s xs"
  have mem: "?s ! k \<noteq> NaN" if "k < length xs" for k
    using assms(1) that by (metis length_stable_sort nth_mem set_stable_sort sort_float64s_def)
  have "\<not> float_less (?s ! j) (?s ! i)" if "i < j"
    using float_order.sort_sorted [of xs] assms that
    by (simp add: sort_float64s_def sorted_wrt_iff_nth_less)
  moreover have "\<not> float_less (?s ! j) (?s ! i)" if "i = j"
    using that by (simp add: float_order.irrefl)
  ultimately have "\<not> flt (?s ! j) (?s ! i)" using assms(2) unfolding float_less_def by fastforce
  then show ?thesis using mem [of i] mem [of j] assms by (simp add: not_flt_iff_fle)
qed

lemma sort_float64s_simps [simp]:
  "length (sort_float64s xs) = length xs" "set (sort_float64s xs) = set xs"
  by (simp_all add: sort_float64s_def)

subsection \<open>Quantile positions\<close>

text \<open>
  A fraction of the last index, computed in floating point, stays between zero and the
  last index: the interpolation never reads outside the slice.
\<close>

lemma index_fraction:
  assumes q: "is_fin q" "0 \<le> val q" "val q \<le> 1" and m: "0 \<le> m" "m \<le> 2 ^ 53"
  shows "is_fin (fmul q (f_of_int m)) \<and> 0 \<le> val (fmul q (f_of_int m)) \<and>
         val (fmul q (f_of_int m)) \<le> of_int m"
proof -
  have fm: "f_of_int m = Fin (of_int m)" using m by (simp add: f_of_int_def rnd_int)
  show ?thesis
  proof (cases "val q * of_int m = 0")
    case True
    then show ?thesis using q m by (auto simp: fmul_def fm fzero_def Let_def)
  next
    case False
    have "fle (rnd (val q * of_int m)) (rnd (of_int m))"
      using q m by (intro rnd_mono) (simp add: mult_left_le_one_le)
    moreover have "fle (Fin 0) (rnd (val q * of_int m))" using q m by (intro rnd_nonneg) simp
    moreover have "fmul q (f_of_int m) = rnd (val q * of_int m)"
      using False q by (auto simp: fmul_def fm Let_def)
    moreover have "rnd (of_int m) = Fin (of_int m)" using m by (simp add: rnd_int)
    ultimately show ?thesis by (cases "rnd (val q * of_int m)") (auto simp: fle_def)
  qed
qed

lemma floor_ceil_index:
  assumes "is_fin p" "0 \<le> val p" "val p \<le> of_int m"
  shows "f_to_int (ffloor p) = \<lfloor>val p\<rfloor>" "f_to_int (fceil p) = \<lceil>val p\<rceil>" "f_to_int p = \<lfloor>val p\<rfloor>"
    "0 \<le> \<lfloor>val p\<rfloor>" "\<lfloor>val p\<rfloor> \<le> m" "0 \<le> \<lceil>val p\<rceil>" "\<lceil>val p\<rceil> \<le> m"
    "val (ffloor p) = of_int \<lfloor>val p\<rfloor>" "is_fin (ffloor p)"
  using assms by (cases p; auto simp: f_to_int_def ffloor_def fceil_def floor_le_iff ceiling_le_iff; linarith)+

lemma fdiv_exact: "rnd (a / b) = Fin (a / b) \<Longrightarrow> a \<noteq> 0 \<Longrightarrow> b \<noteq> 0 \<Longrightarrow> fdiv (Fin a) (Fin b) = Fin (a / b)"
  by (simp add: fdiv_def Let_def)

lemma quartile_fraction:
  "fdiv (Fin 25) (Fin 100) = Fin (1/4)" "fdiv (Fin 50) (Fin 100) = Fin (1/2)"
  "fdiv (Fin 75) (Fin 100) = Fin (3/4)"
  by code_simp+

text \<open>The fractional part of a value that is not an integer does not underflow to zero.\<close>

lemma frac_ge_min:
  assumes "rnd r = Fin r" "0 < r" "r \<noteq> of_int \<lfloor>r\<rfloor>"
  shows "2 powi (-1074) \<le> r - of_int \<lfloor>r\<rfloor>"
proof -
  let ?u = "uexp r"
  have "rval r = r" using assms(1,2) by (simp add: rnd_pos split: if_splits)
  then have r: "r = of_int (signif r) * 2 powi ?u" by (simp add: rval_def)
  have "\<not> 0 \<le> ?u"
  proof
    assume "0 \<le> ?u"
    then have "(2::rat) powi ?u = of_int (2 ^ nat ?u)" by (simp add: power_int_def)
    then have "\<exists>k. r = of_int k" by (metis r of_int_mult)
    then show False using assms(3) by auto
  qed
  then have "(1::rat) = of_int (2 ^ nat (- ?u)) * 2 powi ?u"
    by (simp add: power_int_def flip: power_mult_distrib)
  then have "of_int \<lfloor>r\<rfloor> = of_int (\<lfloor>r\<rfloor> * 2 ^ nat (- ?u)) * (2::rat) powi ?u"
    by (metis (no_types) mult.assoc mult.right_neutral of_int_mult)
  then have d: "r - of_int \<lfloor>r\<rfloor> = of_int (signif r - \<lfloor>r\<rfloor> * 2 ^ nat (- ?u)) * 2 powi ?u"
    using r by (simp add: algebra_simps)
  have "0 < r - of_int \<lfloor>r\<rfloor>" using assms(3) by linarith
  then have "0 < signif r - \<lfloor>r\<rfloor> * 2 ^ nat (- ?u)"
    unfolding d zero_less_mult_iff of_int_0_less_iff using pow2_pos [of ?u] by linarith
  then have "(1::rat) \<le> of_int (signif r - \<lfloor>r\<rfloor> * 2 ^ nat (- ?u))" by linarith
  then have "2 powi ?u \<le> r - of_int \<lfloor>r\<rfloor>" unfolding d
    using mult_right_mono [of 1 "of_int (signif r - \<lfloor>r\<rfloor> * 2 ^ nat (- ?u))" "2 powi ?u"] pow2_pos [of ?u]
    by (simp del: of_int_diff)
  moreover have "(2::rat) powi (-1074) \<le> 2 powi ?u" by (intro power_int_increasing) (auto simp: uexp_def)
  ultimately show ?thesis by linarith
qed

lemma frac_part_pos:
  assumes "wf64 p" "is_fin p" "0 \<le> val p" "val p \<noteq> of_int \<lfloor>val p\<rfloor>"
  shows "flt (Fin 0) (fsub p (ffloor p)) \<and> is_fin (fsub p (ffloor p))"
proof -
  obtain r where p: "p = Fin r" using assms by (cases p) auto
  have r: "rnd r = Fin r" "0 < r" "r \<noteq> of_int \<lfloor>r\<rfloor>" using assms p by (auto simp: wf64_def order_less_le)
  let ?d = "r - of_int \<lfloor>r\<rfloor>"
  have "rval (2 powi (-1074)) = 2 powi (-1074)" using rval_exact_pos [of 1 "-1074"] by simp
  then have m: "rnd (2 powi (-1074)) = Fin (2 powi (-1074))" by (simp add: rnd_pos huge_def)
  have "fle (rnd (2 powi (-1074))) (rnd ?d)" by (intro rnd_mono frac_ge_min r)
  moreover have "fle (rnd ?d) (rnd (of_int 1))" by (intro rnd_mono) (simp, linarith)
  moreover have "rnd (of_int 1) = Fin 1" by (subst rnd_int) auto
  ultimately have d: "fle (Fin (2 powi (-1074))) (rnd ?d)" "fle (rnd ?d) (Fin 1)" by (simp_all only: m)
  have "(0::rat) < 2 powi (-1074)" by (rule pow2_pos)
  then have fd: "flt (Fin 0) (rnd ?d)" "is_fin (rnd ?d)" using d
    by (cases "rnd ?d"; auto simp: fle_def flt_def simp del: pow2_pos)+
  have k: "fkey (fsub p (ffloor p)) = fkey (rnd ?d)"
    using fsub_finite [of p "ffloor p"] p by (simp add: ffloor_def)
  have "fsub p (ffloor p) \<noteq> NaN" using p by (auto simp: fsub_def ffloor_def)
  then show ?thesis using fd k by (cases "fsub p (ffloor p)"; cases "rnd ?d") (auto simp: flt_def)
qed

lemma percentile_value:
  assumes q: "fdiv q (Fin 100) = Fin r" "0 \<le> r" "r \<le> 1"
    and n: "2 \<le> length xs" "length xs \<le> 2 ^ 53"
  obtains i where "i < length xs" "percentile xs q = Some (xs ! i)"
  | i j frac where "i \<le> j" "j < length xs" "flt (Fin 0) frac" "is_fin frac"
      "percentile xs q = Some (fadd (xs ! i) (fmul frac (fsub (xs ! j) (xs ! i))))"
proof -
  define m where "m = int (length xs) - 1"
  define p where "p = fmul (Fin r) (f_of_int m)"
  have m: "0 \<le> m" "m \<le> 2 ^ 53" using n by (auto simp: m_def)
  have p: "is_fin p" "0 \<le> val p" "val p \<le> of_int m"
    using index_fraction [of "Fin r" m] q m by (auto simp: p_def)
  note ix = floor_ceil_index [OF p]
  have e: "percentile xs q = (if feq (ffloor p) (fceil p) then go_index xs (f_to_int p)
     else do { a \<leftarrow> go_index xs (f_to_int (ffloor p)); b \<leftarrow> go_index xs (f_to_int (fceil p));
           Some (fadd a (fmul (fsub p (ffloor p)) (fsub b a))) })"
    using n by (simp add: percentile_def q(1) p_def m_def Let_def)
  show thesis
  proof (cases "feq (ffloor p) (fceil p)")
    case True
    then show thesis using ix(3-5) by (intro that(1) [of "nat \<lfloor>val p\<rfloor>"]) (auto simp: e m_def nat_less_iff)
  next
    case False
    then have "val p \<noteq> of_int \<lfloor>val p\<rfloor>"
      using p by (cases p) (auto simp: ffloor_def fceil_def feq_def, metis ceiling_of_int)
    moreover have "wf64 p" by (simp add: p_def)
    ultimately have "flt (Fin 0) (fsub p (ffloor p)) \<and> is_fin (fsub p (ffloor p))"
      using p by (intro frac_part_pos)
    then show thesis using ix False
      by (intro that(2) [of "nat \<lfloor>val p\<rfloor>" "nat \<lceil>val p\<rceil>" "fsub p (ffloor p)"])
         (auto simp: e m_def nat_less_iff intro!: nat_mono floor_le_ceiling)
  qed
qed

text \<open>Interpolation upwards from a finite value does not go below it.\<close>

lemma fmul_nonneg:
  assumes "fle (Fin 0) x" "fle (Fin 0) y" "is_fin x" "val x \<noteq> 0 \<or> is_fin y"
  shows "fle (Fin 0) (fmul x y)"
proof -
  have r: "fle (Fin 0) (rnd (val x * val y))" if "is_fin y"
    using assms that by (intro rnd_nonneg) (auto simp: fle_zero_iff)
  show ?thesis
  proof (cases "is_fin y \<and> val x * val y \<noteq> 0")
    case True
    then show ?thesis using r assms by (auto simp: fmul_def Let_def fle_zero_iff)
  next
    case False
    then show ?thesis using assms
      by (cases x; cases y) (auto simp: fmul_def Let_def fzero_def finf_def fle_zero_iff)
  qed
qed


lemma fsub_nonneg:
  assumes "fle x y" "is_fin x" "is_fin y"
  shows "fle (Fin 0) (fsub y x)"
proof -
  have "val x \<le> val y" using assms by (cases x; cases y) (auto simp: fle_def)
  then have "fle (Fin 0) (rnd (val y - val x))" by (intro rnd_nonneg) simp
  moreover have "fsub y x \<noteq> NaN" using assms by (cases x; cases y) (auto simp: fsub_def)
  ultimately show ?thesis using assms by (simp add: fle_def fsub_finite)
qed

lemma interpolation_ge:
  assumes "fle a b" "is_fin a" "is_fin b" "wf64 a" "flt (Fin 0) w" "is_fin w"
  shows "fle a (fadd a (fmul w (fsub b a)))"
proof (rule fadd_ge_left)
  show "fle (Fin 0) (fmul w (fsub b a))"
    using assms by (intro fmul_nonneg fsub_nonneg) (auto simp: flt_zero_iff flt_imp_fle)
qed (use assms in auto)

text \<open>A slice of samples that are all finite binary64 values.\<close>

definition finite_samples :: "f64 list \<Rightarrow> bool" where
  "finite_samples xs \<longleftrightarrow> (\<forall>x\<in>set xs. is_fin x \<and> wf64 x)"

lemma percentile_ge_min:
  assumes xs: "finite_samples xs" and n: "2 \<le> length xs" "length xs \<le> 2 ^ 53"
    and q: "fdiv q (Fin 100) = Fin r" "0 \<le> r" "r \<le> 1"
  shows "\<exists>v. percentile (sort_float64s xs) q = Some v \<and> fle (sort_float64s xs ! 0) v"
proof -
  let ?s = "sort_float64s xs"
  have nan: "NaN \<notin> set xs" using xs by (auto simp: finite_samples_def)
  have el: "is_fin (?s ! i) \<and> wf64 (?s ! i)" if "i < length xs" for i
    using xs that by (metis finite_samples_def nth_mem sort_float64s_simps)
  have len: "2 \<le> length ?s" "length ?s \<le> 2 ^ 53" using n by simp_all
  show ?thesis
  proof (rule percentile_value [OF q len])
    fix i assume "i < length ?s" "percentile ?s q = Some (?s ! i)"
    then show ?thesis using sort_float64s_le [OF nan, of 0 i] by simp
  next
    fix i j frac
    assume a: "i \<le> j" "j < length ?s" "flt (Fin 0) frac" "is_fin frac"
      "percentile ?s q = Some (fadd (?s ! i) (fmul frac (fsub (?s ! j) (?s ! i))))"
    have "fle (?s ! 0) (?s ! i)" using sort_float64s_le [OF nan, of 0 i] a by simp
    moreover have "fle (?s ! i) (fadd (?s ! i) (fmul frac (fsub (?s ! j) (?s ! i))))"
      using sort_float64s_le [OF nan, of i j] a el [of i] el [of j] by (intro interpolation_ge) auto
    ultimately show ?thesis using a(5) fle_trans by blast
  qed
qed


lemma Aggregate_few:
  "length xs < 3 \<Longrightarrow> Aggregate xs = Some \<lparr>Mean = mean xs, Q1 = None, Q3 = None, Median = None,
     Min = None, Max = None, Stdev = None, Iqr = None\<rparr>"
  by (simp add: Aggregate_def minSamplesForAggregates_def)

lemma Aggregate_many:
  assumes "finite_samples xs" "3 \<le> length xs" "length xs \<le> 2 ^ 53"
  shows "\<exists>q1 q3 med. Aggregate xs = Some \<lparr>Mean = mean xs, Q1 = Some q1, Q3 = Some q3,
      Median = Some med, Min = Some (sort_float64s xs ! 0),
      Max = Some (sort_float64s xs ! (length xs - 1)),
      Stdev = Some (stddev xs (mean xs)), Iqr = Some (fsub q3 q1)\<rparr> \<and>
    fle (sort_float64s xs ! 0) q1 \<and> fle (sort_float64s xs ! 0) q3 \<and>
    fle (sort_float64s xs ! 0) med"
proof -
  have n: "2 \<le> length xs" using assms by simp
  note pc = percentile_ge_min [OF assms(1) n assms(3)]
  obtain q1 q3 med where q: "percentile (sort_float64s xs) (Fin 25) = Some q1"
      "percentile (sort_float64s xs) (Fin 75) = Some q3"
      "percentile (sort_float64s xs) (Fin 50) = Some med"
    "fle (sort_float64s xs ! 0) q1" "fle (sort_float64s xs ! 0) q3" "fle (sort_float64s xs ! 0) med"
    using pc [OF quartile_fraction(1)] pc [OF quartile_fraction(2)] pc [OF quartile_fraction(3)]
    by auto
  have last: "nat (int (length xs) - 1) = length xs - 1" "0 < length xs" using n by auto
  have "Aggregate xs = Some \<lparr>Mean = mean xs, Q1 = Some q1, Q3 = Some q3,
      Median = Some med, Min = Some (sort_float64s xs ! 0),
      Max = Some (sort_float64s xs ! (length xs - 1)),
      Stdev = Some (stddev xs (mean xs)), Iqr = Some (fsub q3 q1)\<rparr>"
    using assms(2) q(1-3) last
    by (simp add: Aggregate_def minSamplesForAggregates_def Let_def)
  then show ?thesis using q(4-6) by blast
qed

subsection \<open>Dense ranks\<close>

text \<open>The rank of a value is the number of distinct values up to it.\<close>

lemma rank_loop_lookup:
  assumes "sorted vs" "\<And>v. v \<in> set vs \<Longrightarrow> case p of Some u \<Rightarrow> u \<le> v | None \<Rightarrow> True"
  shows "map_of (rank_loop p r vs) v =
    (if v \<in> set vs \<and> p \<noteq> Some v then Some (r + card {u \<in> set vs. u \<le> v \<and> p \<noteq> Some u}) else None)"
  using assms
proof (induction p r vs rule: rank_loop.induct)
  case (2 p r w vs)
  have srt: "sorted vs" and ge: "\<And>x. x \<in> set vs \<Longrightarrow> w \<le> x" using 2(3) by auto
  show ?case
  proof (cases "p = Some w")
    case True
    then have "{u \<in> set (w # vs). u \<le> v \<and> p \<noteq> Some u} = {u \<in> set vs. u \<le> v \<and> Some w \<noteq> Some u}" by auto
    then show ?thesis using 2(1) [OF True srt] ge True by auto
  next
    case False
    have IH: "map_of (rank_loop (Some w) (Suc r) vs) v =
      (if v \<in> set vs \<and> w \<noteq> v then Some (Suc r + card {u \<in> set vs. u \<le> v \<and> w \<noteq> u}) else None)"
      using 2(2) [OF False srt] ge by auto
    have np: "p \<noteq> Some u" if "u \<in> set vs" for u
      using 2(4) [of w] ge [OF that] False by (auto split: option.splits)
    show ?thesis
    proof (cases "v = w")
      case True
      then have "{u \<in> set (w # vs). u \<le> v \<and> p \<noteq> Some u} = {w}" using ge False by (auto intro: antisym)
      then show ?thesis using True False by simp
    next
      case vw: False
      have "{u \<in> set (w # vs). u \<le> v \<and> p \<noteq> Some u} = insert w {u \<in> set vs. u \<le> v \<and> w \<noteq> u}"
        if "v \<in> set vs" using that ge False np by auto
      then show ?thesis using vw False IH np by auto
    qed
  qed
qed simp

definition rank_of :: "int list \<Rightarrow> int \<Rightarrow> nat" where
  "rank_of xs v = card {u \<in> set xs. u \<le> v}"

lemma denseRank_eq: "denseRank xs = map (rank_of xs) xs"
  by (auto simp: denseRank_def Let_def rank_loop_lookup rank_of_def)

lemma length_denseRank [simp]: "length (denseRank xs) = length xs"
  by (simp add: denseRank_eq)

lemma denseRank_nth [simp]: "i < length xs \<Longrightarrow> denseRank xs ! i = rank_of xs (xs ! i)"
  by (simp add: denseRank_eq)

lemma rank_of_mono: "u \<le> v \<Longrightarrow> rank_of xs u \<le> rank_of xs v"
  unfolding rank_of_def by (rule card_mono) auto

lemma rank_of_strict: assumes "v \<in> set xs" "u < v" shows "rank_of xs u < rank_of xs v"
proof -
  have "v \<in> {w \<in> set xs. w \<le> v} - {w \<in> set xs. w \<le> u}" using assms by auto
  then have "{w \<in> set xs. w \<le> u} \<subset> {w \<in> set xs. w \<le> v}" using assms by fastforce
  then show ?thesis unfolding rank_of_def by (intro psubset_card_mono) auto
qed

lemma rank_of_le_iff:
  "u \<in> set xs \<Longrightarrow> v \<in> set xs \<Longrightarrow> rank_of xs u \<le> rank_of xs v \<longleftrightarrow> u \<le> v"
  by (metis linorder_not_less rank_of_mono rank_of_strict)

lemma rank_of_bounds: "v \<in> set xs \<Longrightarrow> 1 \<le> rank_of xs v \<and> rank_of xs v \<le> card (set xs)"
  unfolding rank_of_def by (auto intro!: card_mono simp: Suc_le_eq card_gt_0_iff)

lemma sorted_denseRank: "sorted xs \<Longrightarrow> sorted (denseRank xs)"
  by (auto simp: denseRank_eq sorted_iff_nth_mono intro!: rank_of_mono)

subsection \<open>Windows\<close>

lemma count_iff:
  assumes "sorted rs" "j < length rs"
  shows "j < lowerCount rs v \<longleftrightarrow> int (rs ! j) < v" and "j < upperCount rs v \<longleftrightarrow> int (rs ! j) \<le> v"
proof -
  have m: "\<And>a b. a \<le> b \<Longrightarrow> b < length rs \<Longrightarrow> int (rs ! a) \<le> int (rs ! b)"
    using assms(1) by (simp add: sorted_nth_mono)
  have "(\<forall>k. 0 \<le> k \<and> k < lowerCount rs v \<longrightarrow> \<not> v \<le> int (rs ! k)) \<and>
        (\<forall>k. lowerCount rs v \<le> k \<and> k < length rs \<longrightarrow> v \<le> int (rs ! k))"
    unfolding lowerCount_def go_search_def using m by (intro search_from_correct) (auto intro: order_trans)
  then show "j < lowerCount rs v \<longleftrightarrow> int (rs ! j) < v" using assms(2) by (meson le0 linorder_not_less)
  have "(\<forall>k. 0 \<le> k \<and> k < upperCount rs v \<longrightarrow> \<not> v < int (rs ! k)) \<and>
        (\<forall>k. upperCount rs v \<le> k \<and> k < length rs \<longrightarrow> v < int (rs ! k))"
    unfolding upperCount_def go_search_def using m by (intro search_from_correct) (auto intro: order_less_le_trans)
  then show "j < upperCount rs v \<longleftrightarrow> int (rs ! j) \<le> v" using assms(2) by (meson le0 linorder_not_less)
qed

lemma count_le_length: "lowerCount rs v \<le> length rs" "upperCount rs v \<le> length rs"
  using search_from_bounds [of 0 "length rs"] by (auto simp: lowerCount_def upperCount_def go_search_def)

lemma slice_filter:
  assumes "hi \<le> length vs" "\<And>j. j < length vs \<Longrightarrow> lo \<le> j \<and> j < hi \<longleftrightarrow> P j"
  shows "take (hi - lo) (drop lo vs) = map ((!) vs) (filter P [0..<length vs])"
proof -
  have "filter P [0..<length vs] = filter (\<lambda>j. lo \<le> j \<and> j < hi) [0..<length vs]"
    using assms(2) by (intro filter_cong) auto
  also have "\<dots> = [lo..<hi]"
    using assms(1) by (intro sorted_distinct_set_unique) (auto simp: sorted_wrt_filter)
  finally have f: "filter P [0..<length vs] = [lo..<hi]" .
  show ?thesis unfolding f using assms(1) by (intro nth_equalityI) auto
qed


text \<open>
  The window of row \<open>i\<close>: the rows whose commit rank lies in \<open>(r - window, r]\<close> when the
  current commit is included and in \<open>[r - window, r)\<close> when it is not.
\<close>

definition in_window :: "nat \<Rightarrow> bool \<Rightarrow> nat \<Rightarrow> nat \<Rightarrow> bool" where
  "in_window window closedRight r r' \<longleftrightarrow>
     (if closedRight then r < r' + window \<and> r' \<le> r else r \<le> r' + window \<and> r' < r)"

definition window_ref :: "f64 list \<Rightarrow> int list \<Rightarrow> nat \<Rightarrow> bool \<Rightarrow> nat \<Rightarrow> f64 list" where
  "window_ref vals ts window closedRight i =
     map ((!) vals) (filter (\<lambda>j. in_window window closedRight (rank_of ts (ts ! i)) (rank_of ts (ts ! j)))
       [0..<length vals])"

lemma rollingCommitRank_nth:
  assumes s: "sorted ts" and l: "length vals = length ts" and i: "i < length vals"
  shows "rollingCommitRank vals ts window closedRight reduce ! i =
    (let w = window_ref vals ts window closedRight i in if w = [] then NaN else reduce w)"
proof -
  let ?rs = "denseRank ts"
  define r where "r = int (?rs ! i)"
  define hi where "hi = (if closedRight then upperCount ?rs r else lowerCount ?rs r)"
  define lo where "lo = (if closedRight then upperCount ?rs (r - int window)
                         else lowerCount ?rs (r - int window))"
  have le: "hi \<le> length vals" using count_le_length [of ?rs] l by (auto simp: hi_def)
  have "lo \<le> j \<and> j < hi \<longleftrightarrow>
      in_window window closedRight (rank_of ts (ts ! i)) (rank_of ts (ts ! j))" if "j < length vals" for j
    using that i l count_iff [OF sorted_denseRank [OF s], of j r]
      count_iff [OF sorted_denseRank [OF s], of j "r - int window"]
    by (auto simp: lo_def hi_def r_def in_window_def not_less [symmetric])
  then have w: "take (hi - lo) (drop lo vals) = window_ref vals ts window closedRight i"
    unfolding window_ref_def using le by (intro slice_filter) auto
  have "lo \<ge> hi \<longleftrightarrow> window_ref vals ts window closedRight i = []"
    using le by (simp add: w [symmetric]) arith
  then show ?thesis using i
    by (simp add: rollingCommitRank_def Let_def w [symmetric] hi_def lo_def r_def)
qed

lemma length_rollingCommitRank [simp]: "length (rollingCommitRank vs ts w c f) = length vs"
  by (simp add: rollingCommitRank_def Let_def)

lemma length_rollingRowCount [simp]: "length (rollingRowCount xs w f) = length xs"
  by (simp add: rollingRowCount_def)

text \<open>Quantiles of a series with a bounded number of points exist.\<close>

lemma quantileLinear_returns:
  assumes "is_fin q" "0 \<le> val q" "val q \<le> 1" "length xs \<le> 2 ^ 53"
  shows "\<exists>v. quantileLinear xs q = Some v"
proof -
  let ?s = "sort_float64s (skip_NaN xs)"
  have len: "length ?s \<le> 2 ^ 53" using assms(4) by (simp add: skip_NaN_def) (meson le_trans length_filter_le)
  show ?thesis
  proof (cases "skip_NaN xs = [] \<or> length ?s = 1")
    case True
    then show ?thesis by (auto simp: quantileLinear_def Let_def)
  next
    case False
    then have "1 \<le> length ?s" by (simp add: Suc_leI)
    then have m: "0 \<le> int (length ?s) - 1" "int (length ?s) - 1 \<le> 2 ^ 53" using len by auto
    define p where "p = fmul q (f_of_int (int (length ?s) - 1))"
    have p: "is_fin p" "0 \<le> val p" "val p \<le> of_int (int (length ?s) - 1)"
      using index_fraction [OF assms(1-3) m] by (auto simp: p_def)
    note ix = floor_ceil_index [OF p]
    show ?thesis using False ix(1,2,4-7) by (auto simp: quantileLinear_def Let_def p_def)
  qed
qed

text \<open>\<open>meanSkipNaN\<close> is the mean of the values that are not NaN.\<close>

lemma meanSkipNaN_loop:
  "foldl (\<lambda>(sum, n). \<lambda>x. if x \<noteq> NaN then (fadd sum x, n + 1) else (sum, n)) (s, k :: int) xs =
   (foldl fadd s (skip_NaN xs), k + int (length (skip_NaN xs)))"
  by (induction xs arbitrary: s k) (auto simp: skip_NaN_def)

lemma meanSkipNaN_eq: "meanSkipNaN xs = (if skip_NaN xs = [] then NaN else mean (skip_NaN xs))"
  by (simp add: meanSkipNaN_def meanSkipNaN_loop mean_def fsum_def)

section \<open>Properties\<close>

text \<open>
  The aggregates of three or more finite samples are computed without a panic: the
  minimum and the maximum are samples that bound all samples, the quartiles and the median
  are never below the minimum, and the interquartile range is the difference of the
  quartiles. With fewer samples only the mean is set.
\<close>

theorem Aggregate_correct:
  assumes "finite_samples xs" "length xs \<le> 2 ^ 53"
  shows "\<exists>a. Aggregate xs = Some a \<and> Mean a = mean xs \<and>
    (if length xs < 3 then Q1 a = None \<and> Q3 a = None \<and> Median a = None \<and> Min a = None \<and>
       Max a = None \<and> Stdev a = None \<and> Iqr a = None
     else \<exists>q1 q3 med mn mx. Q1 a = Some q1 \<and> Q3 a = Some q3 \<and> Median a = Some med \<and>
       Min a = Some mn \<and> Max a = Some mx \<and> Stdev a = Some (stddev xs (mean xs)) \<and>
       Iqr a = Some (fsub q3 q1) \<and> mn \<in> set xs \<and> mx \<in> set xs \<and>
       (\<forall>x\<in>set xs. fle mn x \<and> fle x mx) \<and> fle mn q1 \<and> fle mn med \<and> fle mn q3)"
proof (cases "length xs < 3")
  case True
  then show ?thesis by (simp add: Aggregate_few)
next
  case False
  let ?s = "sort_float64s xs"
  have nan: "NaN \<notin> set xs" using assms(1) by (auto simp: finite_samples_def)
  have b: "fle (?s ! 0) x \<and> fle x (?s ! (length xs - 1))" if "x \<in> set xs" for x
  proof -
    have "x \<in> set ?s" using that by simp
    then obtain i where "i < length xs" "x = ?s ! i" unfolding in_set_conv_nth by auto
    then show ?thesis using sort_float64s_le [OF nan, of 0 i] sort_float64s_le [OF nan, of i "length xs - 1"]
      by simp
  qed
  have ends: "?s ! 0 \<in> set xs" "?s ! (length xs - 1) \<in> set xs"
    using False nth_mem [of 0 ?s] nth_mem [of "length xs - 1" ?s] by (cases "xs = []"; simp)+
  from False have n: "3 \<le> length xs" by simp
  obtain q1 q3 med where "Aggregate xs = Some \<lparr>Mean = mean xs, Q1 = Some q1, Q3 = Some q3,
      Median = Some med, Min = Some (?s ! 0), Max = Some (?s ! (length xs - 1)),
      Stdev = Some (stddev xs (mean xs)), Iqr = Some (fsub q3 q1)\<rparr>"
    "fle (?s ! 0) q1" "fle (?s ! 0) q3" "fle (?s ! 0) med"
    using Aggregate_many [OF assms(1) n assms(2)] by blast
  then show ?thesis using False b ends by simp
qed

theorem Aggregate_correct_witness:
  "\<exists>a. Aggregate [Fin 3, Fin 1, Fin 2, Fin 8] = Some a \<and> (\<exists>mn. Min a = Some mn \<and> mn \<in> {Fin 3, Fin 1, Fin 2, Fin 8})"
proof -
  have "finite_samples [Fin 3, Fin 1, Fin 2, Fin 8]"
    using rnd_int [of 3] rnd_int [of 1] rnd_int [of 2] rnd_int [of 8]
    by (simp add: finite_samples_def wf64_def)
  from Aggregate_correct [OF this] show ?thesis by auto
qed

text \<open>
  The binary searches of the commit window select exactly the rows whose dense commit
  rank (the number of distinct timestamps up to the row's own) lies in the half-open window
  before the row's rank; an empty window gives NaN.
\<close>

theorem rollingCommitRank_window:
  assumes "sorted ts" "length vals = length ts" "i < length vals"
  shows "rollingCommitRank vals ts window closedRight reduce ! i =
    (let w = map ((!) vals) (filter (\<lambda>j.
           if closedRight
           then card {u \<in> set ts. u \<le> ts ! i} < card {u \<in> set ts. u \<le> ts ! j} + window \<and> ts ! j \<le> ts ! i
           else card {u \<in> set ts. u \<le> ts ! i} \<le> card {u \<in> set ts. u \<le> ts ! j} + window \<and> ts ! j < ts ! i)
         [0..<length vals])
     in if w = [] then NaN else reduce w)"
proof -
  have "rank_of ts (ts ! j) \<le> rank_of ts (ts ! i) \<longleftrightarrow> ts ! j \<le> ts ! i"
    "rank_of ts (ts ! j) < rank_of ts (ts ! i) \<longleftrightarrow> ts ! j < ts ! i" if "j < length vals" for j
    using assms(2,3) that rank_of_le_iff [of _ ts] by (auto simp: linorder_not_le [symmetric])
  then have "window_ref vals ts window closedRight i = map ((!) vals) (filter (\<lambda>j.
           if closedRight
           then card {u \<in> set ts. u \<le> ts ! i} < card {u \<in> set ts. u \<le> ts ! j} + window \<and> ts ! j \<le> ts ! i
           else card {u \<in> set ts. u \<le> ts ! i} \<le> card {u \<in> set ts. u \<le> ts ! j} + window \<and> ts ! j < ts ! i)
         [0..<length vals])"
    unfolding window_ref_def in_window_def rank_of_def
    by (intro arg_cong [where f = "map _"] filter_cong refl if_cong conj_cong) simp_all
  then show ?thesis using rollingCommitRank_nth [OF assms] by simp
qed

theorem rollingCommitRank_window_witness:
  "rollingCommitRank [Fin 1, Fin 2, Fin 4] [10, 10, 20] 1 False meanSkipNaN ! 2 = meanSkipNaN [Fin 1, Fin 2]"
proof -
  have "{u. (u = 10 \<or> u = 20) \<and> u \<le> (20 :: int)} = {10, 20}" "{u. (u = 10 \<or> u = 20) \<and> u \<le> (10 :: int)} = {10}"
    by auto
  moreover have "[0..<3] = [0, 1, 2 :: nat]" by code_simp
  ultimately show ?thesis
    using rollingCommitRank_window [of "[10, 10, 20]" "[Fin 1, Fin 2, Fin 4]" 2 1 False meanSkipNaN]
    by (simp add: Let_def)
qed

end
