(* ===== verification/Stats_Rolling.thy ===== *)
theory Stats_Rolling
  imports Stats_Window
begin

text \<open>
  \<^verbatim>\<open>internal/stats/rolling.go\<close>: shift detection and rolling statistics over one
  benchmark's history. The history is a list of points in the order the caller has it; the
  results come back in that order. \<open>None\<close> is the run-time panic of an index out of range.
\<close>

section \<open>Definitions\<close>

definition DistributionCommitsDefault :: nat where "DistributionCommitsDefault = 100"
definition PairwisePercentThresholdDefault :: f64 where "PairwisePercentThresholdDefault = Fin 5"
definition ZScoreThresholdDefault :: f64 where "ZScoreThresholdDefault = Fin 5"
definition shiftZScoreThreshold :: f64 where "shiftZScoreThreshold = Fin 5"

record SeriesPoint =
  CommitTimestamp :: time
  ResultTimestamp :: time
  SVS :: f64
  PointBegins :: bool

record shiftFlags =
  isStep :: bool
  isOutlier :: bool

record RollingStats =
  BeginsDistributionChange :: bool
  SegmentID :: nat
  RollingMeanExcludingThis :: "f64 ptr"
  RollingMean :: "f64 ptr"
  Residual :: "f64 ptr"
  RollingStddev :: "f64 ptr"
  IsStep :: bool
  IsOutlier :: bool

text \<open>\<open>time.Time.UnixNano\<close>: the signed 64-bit result wraps around.\<close>

definition UnixNano :: "time \<Rightarrow> int" where
  "UnixNano t = (t + 2 ^ 63) mod 2 ^ 64 - 2 ^ 63"

definition point_less :: "bool \<Rightarrow> SeriesPoint \<Rightarrow> SeriesPoint \<Rightarrow> bool" where
  "point_less withResultTie a b =
     (if CommitTimestamp a \<noteq> CommitTimestamp b then CommitTimestamp a < CommitTimestamp b
      else if withResultTie then ResultTimestamp a < ResultTimestamp b
      else False)"

definition stableOrder :: "SeriesPoint list \<Rightarrow> bool \<Rightarrow> nat list" where
  "stableOrder points withResultTie =
     stable_sort (\<lambda>a b. point_less withResultTie (points ! a) (points ! b)) [0..<length points]"

text \<open>The literals \<open>0.05\<close> and \<open>0.95\<close>.\<close>

definition q05_const :: f64 where "q05_const = rnd (5 / 100)"
definition q95_const :: f64 where "q95_const = rnd (95 / 100)"

definition svs_diff :: "f64 list \<Rightarrow> f64 list" where
  "svs_diff svs = map (\<lambda>i. if i = 0 then NaN else fsub (svs ! i) (svs ! (i - 1))) [0..<length svs]"

definition clip :: "f64 \<Rightarrow> f64 \<Rightarrow> f64 \<Rightarrow> f64" where
  "clip q05 q95 d = (if d = NaN \<or> flt d q05 \<or> flt q95 d then NaN else d)"

text \<open>The loops over sorted positions: the shift test, then step against outlier.\<close>

definition shift_at :: "f64 \<Rightarrow> f64 \<Rightarrow> f64 \<Rightarrow> bool" where
  "shift_at d m s = (let z = fdiv (fsub d m) s in z \<noteq> NaN \<and> flt shiftZScoreThreshold (fabs z))"

definition shift_flags :: "bool list \<Rightarrow> shiftFlags list" where
  "shift_flags isShift =
     (let n = length isShift;
          reverts = map (\<lambda>i. isShift ! i \<and> i + 1 < n \<and> isShift ! (i + 1)) [0..<n] in
      map (\<lambda>i. let prevRevert = (i > 0 \<and> reverts ! (i - 1)) in
               \<lparr>isStep = isShift ! i \<and> \<not> reverts ! i \<and> \<not> prevRevert,
                isOutlier = isShift ! i \<and> reverts ! i\<rparr>) [0..<n])"

definition detectShifts :: "SeriesPoint list \<Rightarrow> nat \<Rightarrow> shiftFlags list option" where
  "detectShifts points distributionCommits =
     (let n = length points; out = replicate n \<lparr>isStep = False, isOutlier = False\<rparr> in
      if n = 0 then Some out
      else
        let order = stableOrder points True;
            svs = map (\<lambda>idx. SVS (points ! idx)) order;
            diff = svs_diff svs in
        do {
          q05 \<leftarrow> quantileLinear diff q05_const;
          q95 \<leftarrow> quantileLinear diff q95_const;
          let clipped = map (clip q05 q95) diff;
          let rmean = rollingRowCount clipped distributionCommits meanSkipNaN;
          let rstd = rollingRowCount clipped distributionCommits sampleStdSkipNaN;
          let isShift = map (\<lambda>i. shift_at (diff ! i) (rmean ! i) (rstd ! i)) [0..<n];
          Some (scatter order (shift_flags isShift) out)
        })"

text \<open>\<open>segment_id\<close>: begins flags counted per rank, summed up, read back per row.\<close>

fun count_begins :: "nat list \<Rightarrow> bool list \<Rightarrow> nat list \<Rightarrow> nat list option" where
  "count_begins (r # ranks) (b # begins) rankCum =
     (if b then
        (if r < length rankCum then count_begins ranks begins (rankCum[r := rankCum ! r + 1]) else None)
      else count_begins ranks begins rankCum)"
| "count_begins _ _ rankCum = Some rankCum"

fun prefix_sums :: "nat \<Rightarrow> nat list \<Rightarrow> nat list" where
  "prefix_sums acc [] = []"
| "prefix_sums acc (x # xs) = (acc + x) # prefix_sums (acc + x) xs"

definition segment_ids :: "int list \<Rightarrow> bool list \<Rightarrow> nat list option" where
  "segment_ids tsv begins =
     (let ranks = denseRank tsv; maxRank = ranks ! (length tsv - 1) in do {
        rankCum \<leftarrow> count_begins ranks begins (replicate (maxRank + 1) 0);
        let rankCum = prefix_sums 0 rankCum;
        map_opt (\<lambda>r. go_index rankCum (int r)) ranks
      })"

text \<open>
  The groups of \<open>groupedCommitRollingMean\<close> live in a Go map, whose iteration order is not
  specified: \<open>segs\<close> is the order in which the loop meets them.
\<close>

definition group_idx :: "nat list \<Rightarrow> bool list \<Rightarrow> nat \<Rightarrow> nat list" where
  "group_idx segment outlier s =
     filter (\<lambda>i. \<not> outlier ! i \<and> segment ! i = s) [0..<length segment]"

definition grouped_loop ::
  "f64 list \<Rightarrow> int list \<Rightarrow> nat list \<Rightarrow> bool list \<Rightarrow> nat \<Rightarrow> bool \<Rightarrow> nat list \<Rightarrow> f64 list" where
  "grouped_loop svs tsv segment outlier window closedRight segs =
     foldl (\<lambda>out s. let g = group_idx segment outlier s;
                        res = rollingCommitRank (map ((!) svs) g) (map ((!) tsv) g)
                                window closedRight meanSkipNaN
                    in scatter g res out)
       (replicate (length svs) NaN) segs"

definition groupedCommitRollingMean ::
  "f64 list \<Rightarrow> int list \<Rightarrow> nat list \<Rightarrow> bool list \<Rightarrow> nat \<Rightarrow> bool \<Rightarrow> f64 list" where
  "groupedCommitRollingMean svs tsv segment outlier window closedRight =
     grouped_loop svs tsv segment outlier window closedRight
       (remdups (map ((!) segment) (filter (\<lambda>i. \<not> outlier ! i) [0..<length svs])))"

definition fingerprintCommitRollingStd ::
  "f64 list \<Rightarrow> int list \<Rightarrow> bool list \<Rightarrow> nat \<Rightarrow> bool \<Rightarrow> f64 list" where
  "fingerprintCommitRollingStd residual tsv outlier window closedRight =
     (let idx = filter (\<lambda>i. \<not> outlier ! i) [0..<length residual];
          res = rollingCommitRank (map ((!) residual) idx) (map ((!) tsv) idx)
                  window closedRight sampleStdSkipNaN
      in scatter idx res (replicate (length residual) NaN))"

definition nilIfNaN :: "f64 \<Rightarrow> f64 ptr" where
  "nilIfNaN x = (if x = NaN then None else Some x)"

text \<open>The rows in sorted order, once the flags and the segments are known.\<close>

definition rolling_rows ::
  "f64 list \<Rightarrow> int list \<Rightarrow> bool list \<Rightarrow> bool list \<Rightarrow> bool list \<Rightarrow> nat list \<Rightarrow> bool \<Rightarrow> nat \<Rightarrow> RollingStats list" where
  "rolling_rows svs tsv begins outlier step segment includeCurrent distributionCommits =
     (let n = length svs;
          excl0 = groupedCommitRollingMean svs tsv segment outlier distributionCommits False;
          rmeanExcl = map (\<lambda>i. if \<not> outlier ! i \<and> excl0 ! i = NaN then svs ! i else excl0 ! i) [0..<n];
          rmean = (if includeCurrent
                   then groupedCommitRollingMean svs tsv segment outlier distributionCommits True
                   else rmeanExcl);
          residual = map (\<lambda>i. fsub (svs ! i) (rmeanExcl ! i)) [0..<n];
          rstd = fingerprintCommitRollingStd residual tsv outlier distributionCommits includeCurrent in
      map (\<lambda>i. \<lparr>BeginsDistributionChange = begins ! i, SegmentID = segment ! i,
                RollingMeanExcludingThis = nilIfNaN (rmeanExcl ! i),
                RollingMean = nilIfNaN (rmean ! i),
                Residual = nilIfNaN (residual ! i),
                RollingStddev = nilIfNaN (rstd ! i),
                IsStep = step ! i, IsOutlier = outlier ! i\<rparr>) [0..<n])"

definition zero_stats :: RollingStats where
  "zero_stats = \<lparr>BeginsDistributionChange = False, SegmentID = 0, RollingMeanExcludingThis = None,
     RollingMean = None, Residual = None, RollingStddev = None, IsStep = False, IsOutlier = False\<rparr>"

definition RollingStatsForSeries :: "SeriesPoint list \<Rightarrow> bool \<Rightarrow> nat \<Rightarrow> RollingStats list option" where
  "RollingStatsForSeries points includeCurrent distributionCommits =
     (let n = length points in
      if n = 0 then Some []
      else do {
        flags \<leftarrow> detectShifts points distributionCommits;
        let order = stableOrder points False;
        let svs = map (\<lambda>idx. SVS (points ! idx)) order;
        let tsv = map (\<lambda>idx. UnixNano (CommitTimestamp (points ! idx))) order;
        let begins = map (\<lambda>idx. PointBegins (points ! idx)) order;
        let outlier = map (\<lambda>idx. isOutlier (flags ! idx)) order;
        let step = map (\<lambda>idx. isStep (flags ! idx)) order;
        segment \<leftarrow> segment_ids tsv begins;
        let rows = rolling_rows svs tsv begins outlier step segment includeCurrent distributionCommits;
        Some (scatter order rows (replicate n zero_stats))
      })"

text \<open>The first index of the latest commit timestamp.\<close>

definition max_idx :: "SeriesPoint list \<Rightarrow> nat" where
  "max_idx points = foldl (\<lambda>m i. if CommitTimestamp (points ! m) < CommitTimestamp (points ! i) then i else m)
     0 [1..<length points]"

definition BaselineDistribution :: "SeriesPoint list \<Rightarrow> nat \<Rightarrow> (f64 ptr \<times> f64 ptr) option" where
  "BaselineDistribution points distributionCommits =
     (if points = [] then Some (None, None)
      else do {
        rs \<leftarrow> RollingStatsForSeries points True distributionCommits;
        r \<leftarrow> go_index rs (int (max_idx points));
        Some (RollingMean r, RollingStddev r)
      })"


section \<open>Lemmas\<close>

subsection \<open>Order and timestamps\<close>

interpretation point_order: weak_order "\<lambda>a b. point_less w (points ! a) (points ! b)" for w points
  by unfold_locales (auto simp: point_less_def split: if_splits)

lemma stableOrder_simps [simp]:
  "length (stableOrder points w) = length points" "set (stableOrder points w) = {0..<length points}"
  "distinct (stableOrder points w)" "mset (stableOrder points w) = mset [0..<length points]"
  by (simp_all add: stableOrder_def)

lemma stableOrder_nth [simp]: "i < length points \<Longrightarrow> stableOrder points w ! i < length points"
  using nth_mem [of i "stableOrder points w"] by simp

lemma stableOrder_pos:
  assumes "j < length points"
  obtains i where "i < length points" "stableOrder points w ! i = j"
  using perm_upt_nth [of "stableOrder points w" "length points" j] assms by auto

lemma stableOrder_sorted:
  "sorted (map (\<lambda>i. CommitTimestamp (points ! i)) (stableOrder points w))"
proof -
  have "sorted_wrt (\<lambda>a b. \<not> point_less w (points ! b) (points ! a)) (stableOrder points w)"
    unfolding stableOrder_def by (rule point_order.sort_sorted)
  then show ?thesis
    unfolding sorted_wrt_map by (rule sorted_wrt_mono_rel [rotated]) (auto simp: point_less_def split: if_splits)
qed

definition in_range :: "SeriesPoint list \<Rightarrow> bool" where
  "in_range points \<longleftrightarrow> (\<forall>p\<in>set points. - (2 ^ 63) \<le> CommitTimestamp p \<and> CommitTimestamp p < 2 ^ 63)"

lemma UnixNano_id: "- (2 ^ 63) \<le> t \<Longrightarrow> t < 2 ^ 63 \<Longrightarrow> UnixNano t = t"
  by (simp add: UnixNano_def)

definition tsv_of :: "SeriesPoint list \<Rightarrow> int list" where
  "tsv_of points = map (\<lambda>idx. UnixNano (CommitTimestamp (points ! idx))) (stableOrder points False)"

lemma length_tsv_of [simp]: "length (tsv_of points) = length points"
  by (simp add: tsv_of_def)

lemma tsv_of_nth:
  assumes "in_range points" "i < length points"
  shows "tsv_of points ! i = CommitTimestamp (points ! (stableOrder points False ! i))"
  using assms by (simp add: tsv_of_def UnixNano_id in_range_def)

lemma tsv_of_sorted: assumes "in_range points" shows "sorted (tsv_of points)"
proof -
  have "tsv_of points = map (\<lambda>i. CommitTimestamp (points ! i)) (stableOrder points False)"
    using assms by (intro nth_equalityI) (auto simp: tsv_of_nth)
  then show ?thesis using stableOrder_sorted by metis
qed

lemma quantile_constants:
  "is_fin q05_const \<and> 0 \<le> val q05_const \<and> val q05_const \<le> 1"
  "is_fin q95_const \<and> 0 \<le> val q95_const \<and> val q95_const \<le> 1"
  by code_simp+

subsection \<open>Shift detection\<close>

lemma length_shift_flags [simp]: "length (shift_flags xs) = length xs"
  by (simp add: shift_flags_def Let_def)

lemma shift_flags_exclusive:
  "i < length xs \<Longrightarrow> \<not> (isStep (shift_flags xs ! i) \<and> isOutlier (shift_flags xs ! i))"
  by (auto simp: shift_flags_def Let_def)

lemma length_svs_diff [simp]: "length (svs_diff xs) = length xs"
  by (simp add: svs_diff_def)

lemma detectShifts_returns:
  assumes "length points \<le> 2 ^ 53"
  obtains sh where "length sh = length points"
    "detectShifts points w = Some (scatter (stableOrder points True) (shift_flags sh)
       (replicate (length points) \<lparr>isStep = False, isOutlier = False\<rparr>))"
proof (cases "points = []")
  case True
  then show thesis using that [of "[]"] by (simp add: detectShifts_def shift_flags_def stableOrder_def)
next
  case False
  let ?d = "svs_diff (map (\<lambda>idx. SVS (points ! idx)) (stableOrder points True))"
  have "length ?d \<le> 2 ^ 53" using assms by simp
  then obtain a b where "quantileLinear ?d q05_const = Some a" "quantileLinear ?d q95_const = Some b"
    using quantileLinear_returns quantile_constants by meson
  then show thesis using False
    by (intro that [of "map (\<lambda>i. shift_at (?d ! i)
         (rollingRowCount (map (clip a b) ?d) w meanSkipNaN ! i)
         (rollingRowCount (map (clip a b) ?d) w sampleStdSkipNaN ! i)) [0..<length points]"])
       (simp_all add: detectShifts_def Let_def)
qed

lemma detectShifts_exclusive:
  assumes "detectShifts points w = Some flags" "length points \<le> 2 ^ 53" "j < length points"
  shows "length flags = length points" and "\<not> (isStep (flags ! j) \<and> isOutlier (flags ! j))"
proof -
  obtain sh where sh: "length sh = length points"
    "flags = scatter (stableOrder points True) (shift_flags sh)
       (replicate (length points) \<lparr>isStep = False, isOutlier = False\<rparr>)"
    using detectShifts_returns [OF assms(2)] assms(1) by (metis option.inject)
  show "length flags = length points" using sh by simp
  obtain i where i: "i < length points" "stableOrder points True ! i = j"
    using stableOrder_pos [OF assms(3)] .
  have "flags ! j = shift_flags sh ! i"
    using scatter_nth [of "stableOrder points True" "shift_flags sh" i] i sh assms(3) by simp
  then show "\<not> (isStep (flags ! j) \<and> isOutlier (flags ! j))"
    using shift_flags_exclusive [of i sh] i sh by simp
qed

subsection \<open>Segments\<close>

lemma length_prefix_sums [simp]: "length (prefix_sums a xs) = length xs"
  by (induction xs arbitrary: a) auto

lemma prefix_sums_nth: "k < length xs \<Longrightarrow> prefix_sums a xs ! k = a + sum_list (take (Suc k) xs)"
proof (induction xs arbitrary: a k)
  case (Cons x xs)
  then show ?case by (cases k) auto
qed simp

lemma count_begins_spec:
  assumes "\<And>r. r \<in> set ranks \<Longrightarrow> r < length cum" "length begins = length ranks"
  shows "\<exists>cum'. count_begins ranks begins cum = Some cum' \<and> length cum' = length cum \<and>
    (\<forall>r < length cum. cum' ! r = cum ! r + length (filter (\<lambda>i. begins ! i \<and> ranks ! i = r) [0..<length ranks]))"
  using assms
proof (induction ranks begins cum rule: count_begins.induct)
  case (1 r ranks b begins cum)
  define cum1 where "cum1 = (if b then cum[r := cum ! r + 1] else cum)"
  have "length cum1 = length cum" by (simp add: cum1_def)
  have e: "count_begins (r # ranks) (b # begins) cum = count_begins ranks begins cum1"
    using 1(3) by (simp add: cum1_def)
  obtain c where c: "count_begins ranks begins cum1 = Some c" "length c = length cum1"
    "\<forall>r < length cum1. c ! r = cum1 ! r + length (filter (\<lambda>i. begins ! i \<and> ranks ! i = r) [0..<length ranks])"
    using 1 by (cases b) (auto simp: cum1_def)
  have sh: "length (filter (\<lambda>i. (b # begins) ! i \<and> (r # ranks) ! i = q) [0..<length (r # ranks)]) =
     (if b \<and> r = q then 1 else 0) + length (filter (\<lambda>i. begins ! i \<and> ranks ! i = q) [0..<length ranks])" for q
    by (simp add: upt_conv_Cons map_Suc_upt [symmetric] filter_map comp_def del: upt_Suc)
  show ?case unfolding e c(1)
    by (rule exI [of _ c]) (use c sh 1(3) in \<open>auto simp: cum1_def nth_list_update\<close>)
qed auto


lemma sum_filter_eq:
  "(\<Sum>q<m. length (filter (\<lambda>i. P i \<and> f i = q) xs)) = length (filter (\<lambda>i. P i \<and> f i < (m :: nat)) xs)"
proof (induction m)
  case (Suc m)
  have "length (filter (\<lambda>i. P i \<and> f i < Suc m) xs) =
    length (filter (\<lambda>i. P i \<and> f i < m) xs) + length (filter (\<lambda>i. P i \<and> f i = m) xs)"
    by (induction xs) auto
  then show ?case using Suc by simp
qed simp

lemma sorted_map_nth:
  "sorted xs \<Longrightarrow> sorted g \<Longrightarrow> (\<And>i. i \<in> set g \<Longrightarrow> i < length xs) \<Longrightarrow> sorted (map ((!) xs) g)"
  by (auto simp: sorted_iff_nth_mono)

lemma segment_ids_spec:
  assumes s: "sorted tsv" and n: "tsv \<noteq> []" "length begins = length tsv"
  shows "segment_ids tsv begins =
    Some (map (\<lambda>i. length (filter (\<lambda>k. begins ! k \<and> tsv ! k \<le> tsv ! i) [0..<length tsv])) [0..<length tsv])"
proof -
  let ?n = "length tsv" and ?rs = "denseRank tsv"
  define mx where "mx = ?rs ! (?n - 1)"
  have le: "r < mx + 1" if "r \<in> set ?rs" for r
    using that s n
    by (auto simp: mx_def in_set_conv_nth less_Suc_eq_le intro!: rank_of_mono sorted_nth_mono [of tsv])
  obtain c where c: "count_begins ?rs begins (replicate (mx + 1) 0) = Some c" "length c = mx + 1"
    "\<forall>r < mx + 1. c ! r = length (filter (\<lambda>i. begins ! i \<and> ?rs ! i = r) [0..<?n])"
    using count_begins_spec [of ?rs "replicate (mx + 1) 0" begins] le n
    by (auto simp del: replicate_Suc replicate.simps simp flip: One_nat_def)
  have ix: "go_index (prefix_sums 0 c) (int r) =
      Some (length (filter (\<lambda>k. begins ! k \<and> ?rs ! k \<le> r) [0..<?n]))" if "r \<in> set ?rs" for r
  proof -
    have r: "r < mx + 1" using le that .
    have "sum_list (take (Suc r) c) = (\<Sum>q<Suc r. c ! q)"
      using r c(2) by (cases "r = mx") (simp_all add: sum_list_sum_nth atLeast0LessThan min_def)
    also have "\<dots> = (\<Sum>q<Suc r. length (filter (\<lambda>i. begins ! i \<and> ?rs ! i = q) [0..<?n]))"
      using r c(3) by (intro sum.cong) auto
    also have "\<dots> = length (filter (\<lambda>k. begins ! k \<and> ?rs ! k \<le> r) [0..<?n])"
      by (subst sum_filter_eq) (simp add: less_Suc_eq_le)
    finally show ?thesis using r c(2) by (simp add: prefix_sums_nth)
  qed
  have "segment_ids tsv begins =
      Some (map (\<lambda>r. length (filter (\<lambda>k. begins ! k \<and> ?rs ! k \<le> r) [0..<?n])) ?rs)"
    using c(1) map_opt_all_Some [OF ix] by (simp add: segment_ids_def mx_def Let_def)
  also have "map (\<lambda>r. length (filter (\<lambda>k. begins ! k \<and> ?rs ! k \<le> r) [0..<?n])) ?rs =
      map (\<lambda>i. length (filter (\<lambda>k. begins ! k \<and> tsv ! k \<le> tsv ! i) [0..<?n])) [0..<?n]"
  proof (rule nth_equalityI)
    fix i assume "i < length (map (\<lambda>r. length (filter (\<lambda>k. begins ! k \<and> ?rs ! k \<le> r) [0..<?n])) ?rs)"
    then have i: "i < ?n" by simp
    have "filter (\<lambda>k. begins ! k \<and> ?rs ! k \<le> ?rs ! i) [0..<?n] =
        filter (\<lambda>k. begins ! k \<and> tsv ! k \<le> tsv ! i) [0..<?n]"
      using i by (intro filter_cong) (auto simp: rank_of_le_iff)
    then show "map (\<lambda>r. length (filter (\<lambda>k. begins ! k \<and> ?rs ! k \<le> r) [0..<?n])) ?rs ! i =
      map (\<lambda>i. length (filter (\<lambda>k. begins ! k \<and> tsv ! k \<le> tsv ! i) [0..<?n])) [0..<?n] ! i"
      using i by simp
  qed simp
  finally show ?thesis .
qed

subsection \<open>Grouped means\<close>

lemma group_idx_simps [simp]: "distinct (group_idx segment outlier s)" "sorted (group_idx segment outlier s)"
  "i \<in> set (group_idx segment outlier s) \<longleftrightarrow> i < length segment \<and> \<not> outlier ! i \<and> segment ! i = s"
  by (auto simp: group_idx_def sorted_wrt_filter)

text \<open>The value the loop leaves for a row: computed from the rows of its own segment.\<close>

definition group_value ::
  "f64 list \<Rightarrow> int list \<Rightarrow> nat list \<Rightarrow> bool list \<Rightarrow> nat \<Rightarrow> bool \<Rightarrow> nat \<Rightarrow> f64" where
  "group_value svs tsv segment outlier window closedRight i =
     (let g = group_idx segment outlier (segment ! i); ts = map ((!) tsv) g;
          w = filter (\<lambda>j. in_window window closedRight (rank_of ts (tsv ! i)) (rank_of ts (tsv ! j))) g
      in if w = [] then NaN else meanSkipNaN (map ((!) svs) w))"

lemma map_filter_upt:
  "map ((!) (map f g)) (filter (\<lambda>k. P (g ! k)) [0..<length g]) = map f (filter P g)"
proof -
  have "map f (filter P g) = map f (filter P (map ((!) g) [0..<length g]))" by (simp add: map_nth)
  also have "\<dots> = map ((!) (map f g)) (filter (\<lambda>k. P (g ! k)) [0..<length g])"
    by (auto simp: filter_map comp_def)
  finally show ?thesis by simp
qed

lemma window_ref_map:
  assumes "k < length g"
  shows "window_ref (map f g) (map t g) window c k =
    map f (filter (\<lambda>j. in_window window c (rank_of (map t g) (t (g ! k))) (rank_of (map t g) (t j))) g)"
proof -
  have "filter (\<lambda>j. in_window window c (rank_of (map t g) (map t g ! k)) (rank_of (map t g) (map t g ! j))) [0..<length g] =
        filter (\<lambda>j. in_window window c (rank_of (map t g) (t (g ! k))) (rank_of (map t g) (t (g ! j)))) [0..<length g]"
    using assms by (intro filter_cong) auto
  then show ?thesis
    using map_filter_upt [of f g "\<lambda>j. in_window window c (rank_of (map t g) (t (g ! k))) (rank_of (map t g) (t j))"]
    by (simp add: window_ref_def)
qed

lemma grouped_step:
  fixes outlier :: "bool list" and s :: nat
  assumes "sorted tsv" "length tsv = length svs" "length segment = length svs" "i < length svs"
    "length out = length svs"
  defines "g \<equiv> group_idx segment outlier s"
  shows "scatter g (rollingCommitRank (map ((!) svs) g) (map ((!) tsv) g) window c meanSkipNaN) out ! i =
    (if \<not> outlier ! i \<and> segment ! i = s then group_value svs tsv segment outlier window c i else out ! i)"
proof (cases "i \<in> set g")
  case True
  then obtain k where k: "k < length g" "g ! k = i" by (auto simp: in_set_conv_nth)
  have gs: "segment ! i = s" "\<not> outlier ! i" using True by (auto simp: g_def)
  have "sorted (map ((!) tsv) g)"
    using assms(1-3) by (intro sorted_map_nth) (auto simp: g_def)
  then have "rollingCommitRank (map ((!) svs) g) (map ((!) tsv) g) window c meanSkipNaN ! k =
      group_value svs tsv segment outlier window c i"
    using k gs by (simp add: rollingCommitRank_nth window_ref_map group_value_def Let_def g_def)
  moreover have "distinct g" by (simp add: g_def)
  ultimately show ?thesis using k gs assms(4,5)
    scatter_nth [of g "rollingCommitRank (map ((!) svs) g) (map ((!) tsv) g) window c meanSkipNaN" k out]
    by simp
next
  case False
  then show ?thesis using assms(3,4) by (auto simp: scatter_other g_def)
qed


text \<open>Whatever order the map iteration takes, the result is the same.\<close>

lemma grouped_loop_nth:
  assumes "sorted tsv" "length tsv = length svs" "length segment = length svs" "i < length svs"
  shows "grouped_loop svs tsv segment outlier window c segs ! i =
    (if \<not> outlier ! i \<and> segment ! i \<in> set segs then group_value svs tsv segment outlier window c i else NaN)
    \<and> length (grouped_loop svs tsv segment outlier window c segs) = length svs"
proof (induction segs rule: rev_induct)
  case Nil
  then show ?case using assms by (simp add: grouped_loop_def)
next
  case (snoc s segs)
  have "grouped_loop svs tsv segment outlier window c (segs @ [s]) =
    scatter (group_idx segment outlier s) (rollingCommitRank (map ((!) svs) (group_idx segment outlier s))
      (map ((!) tsv) (group_idx segment outlier s)) window c meanSkipNaN)
      (grouped_loop svs tsv segment outlier window c segs)"
    by (simp add: grouped_loop_def Let_def)
  then show ?case using snoc grouped_step [OF assms] by simp
qed

lemma groupedCommitRollingMean_nth:
  assumes "sorted tsv" "length tsv = length svs" "length segment = length svs" "i < length svs"
  shows "groupedCommitRollingMean svs tsv segment outlier window c ! i =
    (if outlier ! i then NaN else group_value svs tsv segment outlier window c i)"
  using grouped_loop_nth [OF assms] assms(4) by (auto simp: groupedCommitRollingMean_def)

lemma fingerprintStd_outlier:
  assumes "i < length residual" "outlier ! i"
  shows "fingerprintCommitRollingStd residual tsv outlier window c ! i = NaN"
  using assms by (simp add: fingerprintCommitRollingStd_def Let_def scatter_other)

subsection \<open>The whole computation\<close>

lemma length_rolling_rows [simp]:
  "length (rolling_rows svs tsv begins outlier step segment ic w) = length svs"
  by (simp add: rolling_rows_def Let_def)

text \<open>
  The result of a call, unfolded once: flags and segments exist, and row \<open>j\<close> of the result
  is the row computed at the sorted position of \<open>j\<close>.
\<close>

definition seg_of :: "SeriesPoint list \<Rightarrow> nat list" where
  "seg_of points = map (\<lambda>i. length (filter (\<lambda>k. PointBegins (points ! (stableOrder points False ! k)) \<and>
     tsv_of points ! k \<le> tsv_of points ! i) [0..<length points])) [0..<length points]"

definition rows_of :: "SeriesPoint list \<Rightarrow> shiftFlags list \<Rightarrow> bool \<Rightarrow> nat \<Rightarrow> RollingStats list" where
  "rows_of points flags ic w = (let order = stableOrder points False in
     rolling_rows (map (\<lambda>idx. SVS (points ! idx)) order) (tsv_of points)
       (map (\<lambda>idx. PointBegins (points ! idx)) order)
       (map (\<lambda>idx. isOutlier (flags ! idx)) order) (map (\<lambda>idx. isStep (flags ! idx)) order)
       (seg_of points) ic w)"

lemma RollingStats_unfold:
  assumes "in_range points" "length points \<le> 2 ^ 53"
  obtains flags where "detectShifts points w = Some flags" "length flags = length points"
    "RollingStatsForSeries points ic w =
       Some (scatter (stableOrder points False) (rows_of points flags ic w) (replicate (length points) zero_stats))"
proof -
  obtain flags where f: "detectShifts points w = Some flags" "length flags = length points"
    using detectShifts_returns [OF assms(2)] by (metis length_replicate length_scatter)
  show thesis
  proof (cases "points = []")
    case True
    then show thesis using f by (intro that [of flags]) (simp_all add: RollingStatsForSeries_def stableOrder_def)
  next
    case False
    then have ne: "tsv_of points \<noteq> []" by (metis length_0_conv length_tsv_of)
    have "segment_ids (tsv_of points) (map (\<lambda>idx. PointBegins (points ! idx)) (stableOrder points False)) =
        Some (seg_of points)"
      by (subst segment_ids_spec [OF tsv_of_sorted [OF assms(1)] ne])
         (auto simp: seg_of_def intro!: arg_cong [of _ _ length] filter_cong)
    then show thesis using f False
      by (intro that [of flags]) (simp_all add: RollingStatsForSeries_def rows_of_def tsv_of_def Let_def)
  qed
qed

lemma length_rows_of [simp]: "length (rows_of points flags ic w) = length points"
  by (simp add: rows_of_def Let_def)

lemma RollingStats_row:
  assumes "in_range points" "length points \<le> 2 ^ 53" "RollingStatsForSeries points ic w = Some rs"
    "j < length points"
  obtains flags i where "detectShifts points w = Some flags" "length flags = length points"
    "i < length points" "stableOrder points False ! i = j" "rs ! j = rows_of points flags ic w ! i"
    "length rs = length points"
proof -
  obtain flags where f: "detectShifts points w = Some flags" "length flags = length points"
    "rs = scatter (stableOrder points False) (rows_of points flags ic w) (replicate (length points) zero_stats)"
    using RollingStats_unfold [OF assms(1,2)] assms(3) by (metis option.inject)
  obtain i where i: "i < length points" "stableOrder points False ! i = j"
    using stableOrder_pos [OF assms(4)] .
  have "rs ! j = rows_of points flags ic w ! i"
    using scatter_nth [of "stableOrder points False" "rows_of points flags ic w" i] i f(3) assms(4) by simp
  then show thesis using f i that by simp
qed


lemma rows_of_begins: "i < length points \<Longrightarrow>
  BeginsDistributionChange (rows_of points flags ic w ! i) = PointBegins (points ! (stableOrder points False ! i))"
  by (simp add: rows_of_def rolling_rows_def Let_def)

lemma rows_of_flags: "i < length points \<Longrightarrow>
  IsOutlier (rows_of points flags ic w ! i) = isOutlier (flags ! (stableOrder points False ! i))"
  "i < length points \<Longrightarrow>
  IsStep (rows_of points flags ic w ! i) = isStep (flags ! (stableOrder points False ! i))"
  by (simp_all add: rows_of_def rolling_rows_def Let_def)

lemma rows_of_segment: "i < length points \<Longrightarrow> SegmentID (rows_of points flags ic w ! i) = seg_of points ! i"
  by (simp add: rows_of_def rolling_rows_def Let_def)

lemma length_seg_of [simp]: "length (seg_of points) = length points"
  by (simp add: seg_of_def)

text \<open>Counting over the sorted positions is counting over the points.\<close>

lemma seg_of_card:
  assumes "in_range points" "i < length points"
  shows "seg_of points ! i = card {k. k < length points \<and> PointBegins (points ! k) \<and>
    CommitTimestamp (points ! k) \<le> CommitTimestamp (points ! (stableOrder points False ! i))}"
proof -
  let ?o = "stableOrder points False" and ?n = "length points"
  let ?P = "\<lambda>k. PointBegins (points ! k) \<and>
    CommitTimestamp (points ! k) \<le> CommitTimestamp (points ! (?o ! i))"
  have "seg_of points ! i = length (filter (\<lambda>k. ?P (?o ! k)) [0..<?n])"
    using assms by (auto simp: seg_of_def tsv_of_nth intro!: arg_cong [of _ _ length] filter_cong)
  also have "\<dots> = length (filter ?P (map ((!) ?o) [0..<?n]))" by (simp add: filter_map comp_def)
  also have "map ((!) ?o) [0..<?n] = ?o" using map_nth [of ?o] by simp
  also have "length (filter ?P ?o) = card (set (filter ?P ?o))"
    by (rule distinct_card [symmetric]) simp
  also have "set (filter ?P ?o) = {k. k < ?n \<and> ?P k}" by auto
  finally show ?thesis .
qed

text \<open>The four statistics of a row, in sorted position.\<close>

lemma rows_of_outlier:
  assumes "in_range points" "i < length points" "isOutlier (flags ! (stableOrder points False ! i))"
  shows "RollingMeanExcludingThis (rows_of points flags ic w ! i) = None \<and>
    RollingMean (rows_of points flags ic w ! i) = None \<and>
    Residual (rows_of points flags ic w ! i) = None \<and> RollingStddev (rows_of points flags ic w ! i) = None"
  using assms tsv_of_sorted [OF assms(1)]
  by (auto simp: rows_of_def rolling_rows_def Let_def groupedCommitRollingMean_nth
      fingerprintStd_outlier nilIfNaN_def)

lemma rows_of_mean:
  fixes w :: nat
  assumes "in_range points" "i < length points" "\<not> isOutlier (flags ! (stableOrder points False ! i))"
  defines "gv \<equiv> \<lambda>c. group_value (map (\<lambda>idx. SVS (points ! idx)) (stableOrder points False)) (tsv_of points)
      (seg_of points) (map (\<lambda>idx. isOutlier (flags ! idx)) (stableOrder points False)) w c i"
  shows "RollingMeanExcludingThis (rows_of points flags ic w ! i) =
      nilIfNaN (if gv False = NaN then SVS (points ! (stableOrder points False ! i)) else gv False)"
    and "RollingMean (rows_of points flags True w ! i) = nilIfNaN (gv True)"
  using assms(1-3) tsv_of_sorted [OF assms(1)]
  by (simp_all add: rows_of_def rolling_rows_def Let_def groupedCommitRollingMean_nth gv_def)

text \<open>
  The reference for the windowed mean, on input indices: the rows that are no outliers and
  share the row's segment, in commit order, and among them those within the window of
  distinct commits.
\<close>

definition segment_rows :: "SeriesPoint list \<Rightarrow> RollingStats list \<Rightarrow> nat \<Rightarrow> nat list" where
  "segment_rows points rs j =
     filter (\<lambda>k. \<not> IsOutlier (rs ! k) \<and> SegmentID (rs ! k) = SegmentID (rs ! j)) (stableOrder points False)"

definition mean_ref :: "SeriesPoint list \<Rightarrow> RollingStats list \<Rightarrow> nat \<Rightarrow> bool \<Rightarrow> nat \<Rightarrow> f64" where
  "mean_ref points rs w closedRight j =
     (let g = segment_rows points rs j; ts = map (\<lambda>k. CommitTimestamp (points ! k)) g;
          win = filter (\<lambda>k. in_window w closedRight (rank_of ts (CommitTimestamp (points ! j)))
                   (rank_of ts (CommitTimestamp (points ! k)))) g
      in if win = [] then NaN else meanSkipNaN (map (\<lambda>k. SVS (points ! k)) win))"

lemma filter_order:
  "map ((!) xs) (filter (\<lambda>k. P (xs ! k)) [0..<length xs]) = filter P xs"
  using map_filter_upt [of "\<lambda>x. x" xs P] by simp

lemma group_value_ref:
  assumes r: "in_range points" and i: "i < length points" and l: "length rs = length points"
    and seg: "\<And>k. k < length points \<Longrightarrow> SegmentID (rs ! (stableOrder points False ! k)) = seg_of points ! k"
    and outl: "\<And>k. k < length points \<Longrightarrow>
       IsOutlier (rs ! (stableOrder points False ! k)) = isOutlier (flags ! (stableOrder points False ! k))"
  shows "group_value (map (\<lambda>idx. SVS (points ! idx)) (stableOrder points False)) (tsv_of points)
      (seg_of points) (map (\<lambda>idx. isOutlier (flags ! idx)) (stableOrder points False)) w c i =
    mean_ref points rs w c (stableOrder points False ! i)"
proof -
  let ?o = "stableOrder points False" and ?n = "length points"
  let ?T = "\<lambda>k. CommitTimestamp (points ! k)"
  define j where "j = ?o ! i"
  define g where "g = group_idx (seg_of points) (map (\<lambda>idx. isOutlier (flags ! idx)) ?o) (seg_of points ! i)"
  have lt: "k < ?n" if "k \<in> set g" for k using that by (auto simp: g_def)
  have gf: "g = filter (\<lambda>k. \<not> IsOutlier (rs ! (?o ! k)) \<and> SegmentID (rs ! (?o ! k)) = SegmentID (rs ! j)) [0..<?n]"
    unfolding g_def group_idx_def j_def using i by (auto simp: seg outl intro!: filter_cong)
  have m: "map ((!) ?o) g = segment_rows points rs j"
    using filter_order [of ?o "\<lambda>k. \<not> IsOutlier (rs ! k) \<and> SegmentID (rs ! k) = SegmentID (rs ! j)"]
    by (simp add: gf segment_rows_def)
  have ts: "map ((!) (tsv_of points)) g = map ?T (segment_rows points rs j)"
    unfolding m [symmetric] using lt by (simp add: tsv_of_nth r)
  let ?ts = "map ?T (segment_rows points rs j)"
  let ?P = "\<lambda>k. in_window w c (rank_of ?ts (?T j)) (rank_of ?ts (?T k))"
  let ?w = "filter (\<lambda>k. ?P (?o ! k)) g"
  have w: "filter (\<lambda>k. in_window w c (rank_of ?ts (tsv_of points ! i)) (rank_of ?ts (tsv_of points ! k))) g = ?w"
    using lt i by (intro filter_cong) (auto simp: tsv_of_nth r j_def)
  have fw: "map ((!) ?o) ?w = filter ?P (segment_rows points rs j)"
    unfolding m [symmetric] by (simp add: filter_map comp_def)
  then have "map (\<lambda>k. SVS (points ! k)) (filter ?P (segment_rows points rs j)) =
      map ((!) (map (\<lambda>idx. SVS (points ! idx)) ?o)) ?w"
    unfolding fw [symmetric] using lt by simp
  moreover have "?w = [] \<longleftrightarrow> filter ?P (segment_rows points rs j) = []"
    unfolding fw [symmetric] by simp
  ultimately show ?thesis unfolding group_value_def mean_ref_def Let_def
    by (simp only: g_def [symmetric] ts w j_def [symmetric])
qed


lemma max_idx_loop:
  assumes "a \<le> b" "m < a" "\<And>k. k < a \<Longrightarrow> (f k :: int) \<le> f m" "\<And>k. k < m \<Longrightarrow> f k < f m"
  shows "let r = foldl (\<lambda>m i. if f m < f i then i else m) m [a..<b] in
    r < b \<and> (\<forall>k < b. f k \<le> f r) \<and> (\<forall>k < r. f k < f r)"
  using assms(1)
proof (induction b rule: dec_induct)
  case base
  then show ?case using assms(2-4) by auto
next
  case (step b)
  define r where "r = foldl (\<lambda>m i. if f m < f i then i else m) m [a..<b]"
  have IH: "r < b" "\<forall>k < b. f k \<le> f r" "\<forall>k < r. f k < f r"
    using step.IH by (simp_all add: r_def Let_def)
  have "foldl (\<lambda>m i. if f m < f i then i else m) m [a..<Suc b] = (if f r < f b then b else r)"
    using step.hyps(1) by (simp add: r_def)
  then show ?case using IH by (force simp: less_Suc_eq Let_def)
qed

lemma max_idx_spec:
  assumes "points \<noteq> []"
  shows "max_idx points < length points"
    and "k < length points \<Longrightarrow> CommitTimestamp (points ! k) \<le> CommitTimestamp (points ! max_idx points)"
    and "k < max_idx points \<Longrightarrow> CommitTimestamp (points ! k) < CommitTimestamp (points ! max_idx points)"
proof -
  have "1 \<le> length points" using assms by (cases points) auto
  then show "max_idx points < length points"
    "k < length points \<Longrightarrow> CommitTimestamp (points ! k) \<le> CommitTimestamp (points ! max_idx points)"
    "k < max_idx points \<Longrightarrow> CommitTimestamp (points ! k) < CommitTimestamp (points ! max_idx points)"
    using max_idx_loop [of 1 "length points" 0 "\<lambda>k. CommitTimestamp (points ! k)"]
    by (auto simp: max_idx_def Let_def)
qed


section \<open>Properties\<close>

text \<open>A three point series for the witnesses: a commit measured twice and a later one.\<close>

definition demo_points :: "SeriesPoint list" where
  "demo_points =
     [\<lparr>CommitTimestamp = 20, ResultTimestamp = 21, SVS = Fin 3, PointBegins = True\<rparr>,
      \<lparr>CommitTimestamp = 10, ResultTimestamp = 12, SVS = Fin 1, PointBegins = False\<rparr>,
      \<lparr>CommitTimestamp = 10, ResultTimestamp = 11, SVS = Fin 2, PointBegins = False\<rparr>]"

lemma demo_points_ok [simp]: "in_range demo_points" "length demo_points = 3"
  by (simp_all add: demo_points_def in_range_def)

definition demo_one :: "SeriesPoint list" where
  "demo_one = [\<lparr>CommitTimestamp = 20, ResultTimestamp = 21, SVS = Fin 3, PointBegins = True\<rparr>]"

lemma demo_one_ok [simp]: "in_range demo_one" "length demo_one = 1"
  by (simp_all add: demo_one_def in_range_def)

lemma demo_one_stats: "RollingStatsForSeries demo_one True 100 =
  Some [\<lparr>BeginsDistributionChange = True, SegmentID = 1, RollingMeanExcludingThis = Some (Fin 3),
     RollingMean = Some (Fin 3), Residual = Some (Fin 0), RollingStddev = None, IsStep = False,
     IsOutlier = False\<rparr>]"
  by code_simp

lemma demo_points_stats: "\<exists>rs. RollingStatsForSeries demo_points True 100 = Some rs"
  using RollingStats_unfold [of demo_points 100 True] by auto

text \<open>
  C16: For every series whose commit times fit in 64-bit nanoseconds the rolling statistics
  are computed without a panic: one row per point, in the order of the input, each carrying
  the distribution-change flag of its own point.
\<close>

theorem RollingStats_returns:
  assumes "in_range points" "length points \<le> 2 ^ 53"
  shows "\<exists>rs. RollingStatsForSeries points ic w = Some rs \<and> length rs = length points \<and>
    (\<forall>j < length points. BeginsDistributionChange (rs ! j) = PointBegins (points ! j))"
proof -
  obtain rs where rs: "RollingStatsForSeries points ic w = Some rs" "length rs = length points"
    using RollingStats_unfold [OF assms] by (metis length_replicate length_scatter)
  have "BeginsDistributionChange (rs ! j) = PointBegins (points ! j)" if "j < length points" for j
    using RollingStats_row [OF assms rs(1) that] by (metis rows_of_begins)
  then show ?thesis using rs by blast
qed

theorem RollingStats_returns_witness:
  "\<exists>rs. RollingStatsForSeries demo_points True 100 = Some rs \<and> length rs = 3"
  using RollingStats_returns [of demo_points True 100] by auto

text \<open>
  The segment of a row is the number of distribution changes at commits up to its own,
  so rows of one commit always share a segment, whatever their order in the input.
\<close>

theorem RollingStats_segment:
  assumes "in_range points" "length points \<le> 2 ^ 53" "RollingStatsForSeries points ic w = Some rs"
    "j < length points"
  shows "SegmentID (rs ! j) = card {k. k < length points \<and> PointBegins (points ! k) \<and>
    CommitTimestamp (points ! k) \<le> CommitTimestamp (points ! j)}"
proof -
  obtain flags i where f: "i < length points" "stableOrder points False ! i = j"
    "rs ! j = rows_of points flags ic w ! i" using RollingStats_row [OF assms] by metis
  then show ?thesis using seg_of_card [OF assms(1) f(1)] by (simp add: rows_of_segment)
qed

theorem RollingStats_segment_witness:
  "\<exists>rs. RollingStatsForSeries demo_points True 100 = Some rs \<and> SegmentID (rs ! 0) = 1 \<and> SegmentID (rs ! 2) = 0"
proof -
  obtain rs where rs: "RollingStatsForSeries demo_points True 100 = Some rs" using demo_points_stats by blast
  have "PointBegins (demo_points ! k) \<longleftrightarrow> k = 0" if "k < 3" for k
  proof -
    from that consider "k = 0" | "k = 1" | "k = 2" by linarith
    then show ?thesis by cases (simp_all add: demo_points_def)
  qed
  moreover have t: "CommitTimestamp (demo_points ! 0) = 20" "CommitTimestamp (demo_points ! 2) = 10"
    by (simp_all add: demo_points_def)
  ultimately have "{k. k < 3 \<and> PointBegins (demo_points ! k) \<and> CommitTimestamp (demo_points ! k) \<le> 20} = {0}"
    "{k. k < 3 \<and> PointBegins (demo_points ! k) \<and> CommitTimestamp (demo_points ! k) \<le> 10} = {}"
    by force+
  then show ?thesis using rs t RollingStats_segment [OF _ _ rs, of 0] RollingStats_segment [OF _ _ rs, of 2]
    by simp
qed

text \<open>
  A point flagged as an outlier has none of the four statistics and is not a step; a
  point that is no outlier and has a number as its summary always has a mean of the
  commits before it.
\<close>

theorem RollingStats_outlier:
  assumes "in_range points" "length points \<le> 2 ^ 53" "RollingStatsForSeries points ic w = Some rs"
    "j < length points"
  shows "if IsOutlier (rs ! j)
    then RollingMeanExcludingThis (rs ! j) = None \<and> RollingMean (rs ! j) = None \<and>
         Residual (rs ! j) = None \<and> RollingStddev (rs ! j) = None \<and> \<not> IsStep (rs ! j)
    else SVS (points ! j) \<noteq> NaN \<longrightarrow> (\<exists>m. RollingMeanExcludingThis (rs ! j) = Some m)"
proof -
  obtain flags i where f: "detectShifts points w = Some flags" "i < length points"
    "stableOrder points False ! i = j" "rs ! j = rows_of points flags ic w ! i"
    using RollingStats_row [OF assms] by metis
  note ex = detectShifts_exclusive [OF f(1) assms(2,4)]
  show ?thesis
    using rows_of_outlier [OF assms(1) f(2)] rows_of_mean(1) [OF assms(1) f(2)] ex(2) f
    by (auto simp: rows_of_flags nilIfNaN_def)
qed

theorem RollingStats_outlier_witness:
  "\<exists>rs m. RollingStatsForSeries demo_one True 100 = Some rs \<and> RollingMeanExcludingThis (rs ! 0) = Some m"
  using RollingStats_outlier [OF _ _ demo_one_stats, of 0] demo_one_stats by (simp add: demo_one_def)

text \<open>
  C1: With the current commit included, the rolling mean of a point that is no outlier is
  the mean of the summaries of the points that are no outliers, lie in the same segment
  and belong to the last \<open>w\<close> distinct commits up to its own. The mean without the current
  commit is the one over the \<open>w\<close> commits before it, or the point's own value when there are
  none.
\<close>

theorem RollingStats_mean:
  assumes "in_range points" "length points \<le> 2 ^ 53" "RollingStatsForSeries points True w = Some rs"
    "j < length points" "\<not> IsOutlier (rs ! j)"
  shows "RollingMean (rs ! j) = nilIfNaN (mean_ref points rs w True j) \<and>
    RollingMeanExcludingThis (rs ! j) = nilIfNaN
      (if mean_ref points rs w False j = NaN then SVS (points ! j) else mean_ref points rs w False j)"
proof -
  obtain flags where fl: "detectShifts points w = Some flags"
    "rs = scatter (stableOrder points False) (rows_of points flags True w) (replicate (length points) zero_stats)"
    using RollingStats_unfold [OF assms(1,2)] assms(3) by (metis option.inject)
  have row: "rs ! (stableOrder points False ! k) = rows_of points flags True w ! k" if "k < length points" for k
    using scatter_nth [of "stableOrder points False" "rows_of points flags True w" k] that fl(2) by simp
  obtain i where i: "i < length points" "stableOrder points False ! i = j"
    using stableOrder_pos [OF assms(4)] .
  have o: "\<not> isOutlier (flags ! (stableOrder points False ! i))"
    using assms(5) row [OF i(1)] i by (simp add: rows_of_flags)
  have l: "length rs = length points" using fl(2) by simp
  note gv = group_value_ref [OF assms(1) i(1) l, of flags w]
  show ?thesis
    using rows_of_mean [OF assms(1) i(1) o, where w = w] row [OF i(1)] i gv
    by (simp add: row rows_of_segment rows_of_flags)
qed

theorem RollingStats_mean_witness:
  "\<exists>rs. RollingStatsForSeries demo_one True 100 = Some rs \<and>
     RollingMean (rs ! 0) = nilIfNaN (mean_ref demo_one rs 100 True 0)"
  using RollingStats_mean [OF _ _ demo_one_stats, of 0] demo_one_stats by simp


text \<open>
  The baseline distribution of a non-empty series is defined and is the rolling mean and
  deviation of the first point, in input order, that has the latest commit time.
\<close>

theorem BaselineDistribution_latest:
  assumes "in_range points" "length points \<le> 2 ^ 53" "points \<noteq> []"
  shows "\<exists>rs m. RollingStatsForSeries points True w = Some rs \<and> m < length points \<and>
    BaselineDistribution points w = Some (RollingMean (rs ! m), RollingStddev (rs ! m)) \<and>
    (\<forall>k < length points. CommitTimestamp (points ! k) \<le> CommitTimestamp (points ! m)) \<and>
    (\<forall>k < m. CommitTimestamp (points ! k) < CommitTimestamp (points ! m))"
proof -
  obtain rs where rs: "RollingStatsForSeries points True w = Some rs" "length rs = length points"
    using RollingStats_unfold [OF assms(1,2)] by (metis length_replicate length_scatter)
  have "BaselineDistribution points w =
      Some (RollingMean (rs ! max_idx points), RollingStddev (rs ! max_idx points))"
    using assms(3) rs max_idx_spec(1) [OF assms(3)] by (simp add: BaselineDistribution_def)
  then show ?thesis using rs max_idx_spec [OF assms(3)] by metis
qed

theorem BaselineDistribution_latest_witness:
  "\<exists>rs m. RollingStatsForSeries demo_points True 100 = Some rs \<and> m < 3 \<and>
    BaselineDistribution demo_points 100 = Some (RollingMean (rs ! m), RollingStddev (rs ! m)) \<and>
    (\<forall>k < 3. CommitTimestamp (demo_points ! k) \<le> CommitTimestamp (demo_points ! m))"
proof -
  have "demo_points \<noteq> []" by (simp add: demo_points_def)
  then show ?thesis using BaselineDistribution_latest [of demo_points 100] by auto
qed

end
