(* ===== verification/Units.thy ===== *)
theory Units
  imports Prelude
begin

text \<open>
  \<^verbatim>\<open>internal/units/units.go\<close>: the registry of measurement units and their direction,
  used by the analysis to orient regressions.
\<close>

record Unit =
  Symbol :: string
  Long :: string
  LessIsBetter_flag :: bool

definition known_units :: "(string \<times> Unit) list" where
  "known_units =
    [(''B'',   \<lparr>Symbol = ''B'', Long = ''bytes'', LessIsBetter_flag = True\<rparr>),
     (''B/s'', \<lparr>Symbol = ''B/s'', Long = ''bytes per second'', LessIsBetter_flag = False\<rparr>),
     (''s'',   \<lparr>Symbol = ''s'', Long = ''seconds'', LessIsBetter_flag = True\<rparr>),
     (''ns'',  \<lparr>Symbol = ''ns'', Long = ''nanoseconds'', LessIsBetter_flag = True\<rparr>),
     (''i/s'', \<lparr>Symbol = ''i/s'', Long = ''iterations per second'', LessIsBetter_flag = False\<rparr>)]"

datatype unit_error = UnknownUnit string | InvalidUnit string

definition Known :: "string \<Rightarrow> bool" where
  "Known symbol = (map_of known_units symbol \<noteq> None)"

definition LessIsBetter :: "string \<Rightarrow> unit_error + bool" where
  "LessIsBetter symbol = (case map_of known_units symbol of
     None \<Rightarrow> Inl (UnknownUnit symbol) | Some u \<Rightarrow> Inr (LessIsBetter_flag u))"

definition Longform :: "string \<Rightarrow> unit_error + string" where
  "Longform symbol = (case map_of known_units symbol of
     None \<Rightarrow> Inl (UnknownUnit symbol) | Some u \<Rightarrow> Inr (Long u))"

definition LegacyConvert :: "string \<Rightarrow> unit_error + string" where
  "LegacyConvert symbol =
     (if symbol = ''b/s'' then Inr ''B/s''
      else if \<not> Known symbol then Inl (InvalidUnit symbol)
      else Inr symbol)"

lemma LessIsBetter_Inr_iff: "(\<exists>b. LessIsBetter u = Inr b) \<longleftrightarrow> Known u"
  by (auto simp: LessIsBetter_def Known_def split: option.splits)

lemma LessIsBetter_Inr_Known: "LessIsBetter u = Inr b \<Longrightarrow> Known u"
  using LessIsBetter_Inr_iff by blast

lemma Known_BytesPerSec [simp]: "Known ''B/s''"
  by (simp add: Known_def known_units_def)

lemma not_Known_legacy [simp]: "\<not> Known ''b/s''"
  by (simp add: Known_def known_units_def)

lemma LegacyConvert_Known: "LegacyConvert u = Inr v \<Longrightarrow> Known v"
  by (auto simp: LegacyConvert_def split: if_splits)

lemma LegacyConvert_id: "Known u \<Longrightarrow> LegacyConvert u = Inr u"
  by (auto simp: LegacyConvert_def)

text \<open>
  Conversion of a submitted unit succeeds exactly for the registered symbols and the
  legacy spelling; its result always has a direction, and converting it again changes
  nothing.
\<close>

theorem LegacyConvert_canonical:
  "case LegacyConvert u of
     Inr v \<Rightarrow> (Known u \<or> u = ''b/s'') \<and> LegacyConvert v = Inr v \<and> (\<exists>b. LessIsBetter v = Inr b)
   | Inl e \<Rightarrow> e = InvalidUnit u \<and> \<not> Known u \<and> u \<noteq> ''b/s''"
  by (auto simp: LessIsBetter_Inr_iff LegacyConvert_def)

end
