(* ===== verification/Stats_Verdict.thy ===== *)
theory Stats_Verdict
  imports Stats_Rolling Units
begin

text \<open>
  \<^verbatim>\<open>internal/stats/svs.go\<close> and \<^verbatim>\<open>internal/stats/verdict.go\<close>: the single value
  that stands for a result, and the verdicts on a change between two results.
\<close>

section \<open>Definitions\<close>

subsection \<open>svs.go\<close>

definition SVSModeBest :: string where "SVSModeBest = ''best''"
definition SVSModeMean :: string where "SVSModeMean = ''mean''"

datatype svs_error = UnknownMode string | NoUnit | UnitErr unit_error

text \<open>A nil slice and an empty slice differ: \<open>None\<close> is nil.\<close>

definition IsFailed :: "string ptr \<Rightarrow> f64 ptr list option \<Rightarrow> bool \<Rightarrow> bool" where
  "IsFailed unit data hasError =
     (if unit = None \<or> data = None \<or> hasError then True
      else if the data = [] then True
      else list_ex (\<lambda>d. d = None) (the data))"

definition Measurements :: "string ptr \<Rightarrow> f64 ptr list option \<Rightarrow> bool \<Rightarrow> f64 list" where
  "Measurements unit data hasError =
     (if IsFailed unit data hasError then [] else map the (the data))"

definition SVSType :: "string ptr \<Rightarrow> string \<Rightarrow> svs_error + string" where
  "SVSType unit mode =
     (if mode = SVSModeMean then Inr ''mean''
      else if mode = SVSModeBest then
        (case unit of None \<Rightarrow> Inr ''n/a''
         | Some u \<Rightarrow> (case LessIsBetter u of Inl e \<Rightarrow> Inl (UnitErr e)
             | Inr lib \<Rightarrow> Inr (if lib then ''min'' else ''max'')))
      else Inl (UnknownMode mode))"

text \<open>\<open>minOf\<close> and \<open>maxOf\<close> of a non-empty slice: the first element, then the rest.\<close>

fun minOf :: "f64 list \<Rightarrow> f64" where
  "minOf (x # xs) = foldl (\<lambda>m x. if flt x m then x else m) x xs"
| "minOf [] = NaN"

fun maxOf :: "f64 list \<Rightarrow> f64" where
  "maxOf (x # xs) = foldl (\<lambda>m x. if flt m x then x else m) x xs"
| "maxOf [] = NaN"

definition SingleValueSummary :: "f64 list \<Rightarrow> string ptr \<Rightarrow> string \<Rightarrow> svs_error + f64" where
  "SingleValueSummary measurements unit mode =
     (if measurements = [] then Inr NaN
      else if mode = SVSModeMean then Inr (mean measurements)
      else if mode = SVSModeBest then
        (case unit of None \<Rightarrow> Inl NoUnit
         | Some u \<Rightarrow> (case LessIsBetter u of Inl e \<Rightarrow> Inl (UnitErr e)
             | Inr lib \<Rightarrow> Inr (if lib then minOf measurements else maxOf measurements)))
      else Inl (UnknownMode mode))"

subsection \<open>verdict.go\<close>

definition ZScore :: "f64 ptr \<Rightarrow> bool \<Rightarrow> f64 ptr \<Rightarrow> f64 ptr \<Rightarrow> f64 ptr" where
  "ZScore dataPoint lessIsBetter distMean distStddev =
     (case (dataPoint, distMean, distStddev) of
        (Some x, Some m, Some sd) \<Rightarrow>
          (if feq sd (Fin 0) then None
           else let z = fdiv (fsub x m) sd
                in Some (if \<not> feq z (Fin 0) \<and> lessIsBetter then fneg z else z))
      | _ \<Rightarrow> None)"

record PairwiseResult =
  PercentChange :: f64
  PercentThreshold :: f64
  PairRegression :: bool
  PairImprovement :: bool

definition PairwiseVerdict :: "f64 \<Rightarrow> f64 \<Rightarrow> bool \<Rightarrow> f64 \<Rightarrow> PairwiseResult ptr" where
  "PairwiseVerdict baselineSVS contenderSVS lessIsBetter percentThreshold =
     (if feq baselineSVS (Fin 0) then None
      else let rel = fdiv (fsub contenderSVS baselineSVS) (fabs baselineSVS);
               rel = (if lessIsBetter then fneg rel else rel);
               pct = fmul rel (Fin 100)
           in Some \<lparr>PercentChange = pct, PercentThreshold = percentThreshold,
                    PairRegression = flt percentThreshold (fneg pct),
                    PairImprovement = flt percentThreshold pct\<rparr>)"

record LookbackResult =
  ZThreshold :: f64
  LookbackZ :: f64
  LookRegression :: bool
  LookImprovement :: bool

definition LookbackZVerdict :: "f64 ptr \<Rightarrow> f64 \<Rightarrow> LookbackResult ptr" where
  "LookbackZVerdict zscore thresholdZ =
     (case zscore of None \<Rightarrow> None
      | Some z \<Rightarrow> (if z = NaN then None
          else Some \<lparr>ZThreshold = thresholdZ, LookbackZ = z,
                     LookRegression = flt thresholdZ (fneg z),
                     LookImprovement = flt thresholdZ z\<rparr>))"

section \<open>Lemmas\<close>

lemma feq_zero_fneg [simp]: "feq (fneg z) (Fin 0) \<longleftrightarrow> feq z (Fin 0)"
  by (cases z) (auto simp: feq_def)

text \<open>With a threshold that is not negative, no value is beyond it on both sides.\<close>

lemma threshold_exclusive:
  assumes "fle (Fin 0) t" shows "\<not> (flt t (fneg x) \<and> flt t x)"
proof
  assume a: "flt t (fneg x) \<and> flt t x"
  then have "flt (Fin 0) x" using assms fle_flt_trans by blast
  moreover have "flt (Fin 0) (fneg x)" using a assms fle_flt_trans by blast
  ultimately show False by (cases x) (auto simp: flt_def)
qed

lemma fabs_pos: "\<not> feq b (Fin 0) \<Longrightarrow> is_fin b \<Longrightarrow> flt (Fin 0) (fabs b) \<and> fabs b \<noteq> PInf"
  by (cases b) (auto simp: fabs_def flt_def feq_def)

text \<open>A relative change of a contender that is not above the baseline is not positive.\<close>

lemma relative_change_nonpos:
  assumes "fle c b" "is_fin b" "\<not> feq b (Fin 0)"
  shows "fle (fmul (fdiv (fsub c b) (fabs b)) (Fin 100)) (Fin 0)"
proof (rule fmul_pos_mono0)
  have "fle (fsub c b) (Fin 0)" using assms by (intro fsub_nonpos) auto
  then show "fle (fdiv (fsub c b) (fabs b)) (Fin 0)"
    using fabs_pos [OF assms(3,2)] by (intro fdiv_pos_mono0) auto
qed simp

lemma fmul_nonneg_const: "fle (Fin 0) x \<Longrightarrow> 0 < c \<Longrightarrow> fle (Fin 0) (fmul x (Fin c))"
proof -
  assume "fle (Fin 0) x" "0 < c"
  then have "fle (fneg x) (fneg (Fin 0))" by (simp only: fle_fneg)
  then have "fle (fneg x) (Fin 0)" by (auto simp: fle_def)
  from fmul_pos_mono0 [OF this \<open>0 < c\<close>] have "fle (fneg (fmul x (Fin c))) (Fin 0)"
    by (simp only: fmul_fneg_left)
  then have "fle (fneg (Fin 0)) (fneg (fneg (fmul x (Fin c))))" by (simp only: fle_fneg)
  then show ?thesis by (auto simp: fle_def)
qed

lemma fdiv_nonneg: "fle (Fin 0) x \<Longrightarrow> flt (Fin 0) y \<Longrightarrow> y \<noteq> PInf \<Longrightarrow> fle (Fin 0) (fdiv x y)"
proof -
  assume "fle (Fin 0) x" and y: "flt (Fin 0) y" "y \<noteq> PInf"
  then have "fle (fneg x) (fneg (Fin 0))" by (simp only: fle_fneg)
  then have "fle (fneg x) (Fin 0)" by (auto simp: fle_def)
  from fdiv_pos_mono0 [OF this y] have "fle (fneg (fdiv x y)) (Fin 0)"
    by (simp only: fdiv_fneg_left)
  then have "fle (fneg (Fin 0)) (fneg (fneg (fdiv x y)))" by (simp only: fle_fneg)
  then show ?thesis by (auto simp: fle_def)
qed

lemma fsub_nonneg': "fle b c \<Longrightarrow> is_fin b \<Longrightarrow> fle (Fin 0) (fsub c b)"
  using fsub_nonneg [of b c] by (cases "is_fin c") (cases b; cases c; auto simp: fsub_def fle_def)+

lemma relative_change_nonneg:
  assumes "fle b c" "is_fin b" "\<not> feq b (Fin 0)"
  shows "fle (Fin 0) (fmul (fdiv (fsub c b) (fabs b)) (Fin 100))"
  using fabs_pos [OF assms(3,2)] fsub_nonneg' [OF assms(1,2)]
  by (intro fmul_nonneg_const fdiv_nonneg) auto

text \<open>The loops of \<open>minOf\<close> and \<open>maxOf\<close> keep an element that is not beaten.\<close>

lemma best_loop:
  assumes "\<And>x y. x \<in> A \<Longrightarrow> y \<in> A \<Longrightarrow> R x y \<or> L y x" "\<And>x y. R x y \<Longrightarrow> L x y"
    "\<And>x y z. L x y \<Longrightarrow> L y z \<Longrightarrow> L x z" "\<And>x. x \<in> A \<Longrightarrow> L x x"
    "x \<in> A" "set xs \<subseteq> A"
  defines "r \<equiv> foldl (\<lambda>m x. if R x m then x else m) x xs"
  shows "r \<in> set (x # xs) \<and> (\<forall>y\<in>set (x # xs). L r y)"
  unfolding r_def using assms(5,6)
proof (induction xs arbitrary: x)
  case (Cons z zs)
  define y where "y = (if R z x then z else x)"
  have y: "y \<in> A" "L y x" "L y z" "y \<in> {x, z}" using Cons.prems assms(1,2,4) by (auto simp: y_def)
  have "foldl (\<lambda>m x. if R x m then x else m) y zs \<in> set (y # zs) \<and>
     (\<forall>w\<in>set (y # zs). L (foldl (\<lambda>m x. if R x m then x else m) y zs) w)"
    using y(1) Cons.prems by (intro Cons.IH) auto
  moreover have "foldl (\<lambda>m x. if R x m then x else m) x (z # zs) =
     foldl (\<lambda>m x. if R x m then x else m) y zs" by (simp add: y_def)
  ultimately show ?case using y assms(3) by (simp only:) auto
qed (use assms(4) in auto)

lemma minOf_spec:
  assumes "xs \<noteq> []" "NaN \<notin> set xs"
  shows "minOf xs \<in> set xs \<and> (\<forall>x\<in>set xs. fle (minOf xs) x)"
proof -
  obtain y ys where xs: "xs = y # ys" using assms(1) by (cases xs) auto
  then show ?thesis unfolding xs minOf.simps
    by (intro best_loop [of "{x. x \<noteq> NaN}"])
       (use assms(2) xs in \<open>auto simp: not_flt_iff_fle [symmetric] intro: flt_imp_fle fle_trans\<close>)
qed

lemma maxOf_spec:
  assumes "xs \<noteq> []" "NaN \<notin> set xs"
  shows "maxOf xs \<in> set xs \<and> (\<forall>x\<in>set xs. fle x (maxOf xs))"
proof -
  obtain y ys where xs: "xs = y # ys" using assms(1) by (cases xs) auto
  then show ?thesis unfolding xs maxOf.simps
    by (intro best_loop [of "{x. x \<noteq> NaN}" "\<lambda>x y. flt y x" "\<lambda>x y. fle y x"])
       (use assms(2) xs in \<open>auto simp: not_flt_iff_fle [symmetric] intro: flt_imp_fle fle_trans\<close>)
qed

lemma Measurements_nonempty: "Measurements u d e \<noteq> [] \<longleftrightarrow> \<not> IsFailed u d e"
  by (auto simp: Measurements_def IsFailed_def split: if_splits)

section \<open>Properties\<close>

text \<open>
  A pairwise verdict never reports a regression and an improvement at once, reversing
  the unit's direction swaps the two, and a contender that is not better than a finite
  baseline is never an improvement.
\<close>

theorem PairwiseVerdict_direction:
  assumes "fle (Fin 0) t" "PairwiseVerdict b c lib t = Some r"
  shows "\<not> (PairRegression r \<and> PairImprovement r) \<and>
    (\<exists>r'. PairwiseVerdict b c (\<not> lib) t = Some r' \<and>
       PairRegression r' = PairImprovement r \<and> PairImprovement r' = PairRegression r) \<and>
    (is_fin b \<and> (if lib then fle b c else fle c b) \<longrightarrow> \<not> PairImprovement r)"
proof (intro conjI impI)
  let ?p = "fmul (fdiv (fsub c b) (fabs b)) (Fin 100)"
  have b: "\<not> feq b (Fin 0)" and r: "r = \<lparr>PercentChange = (if lib then fneg ?p else ?p), PercentThreshold = t,
      PairRegression = flt t (if lib then ?p else fneg ?p),
      PairImprovement = flt t (if lib then fneg ?p else ?p)\<rparr>"
    using assms(2) by (auto simp: PairwiseVerdict_def Let_def fmul_fneg_left split: if_splits)
  show "\<not> (PairRegression r \<and> PairImprovement r)"
    using threshold_exclusive [OF assms(1), of ?p] by (auto simp: r)
  show "\<exists>r'. PairwiseVerdict b c (\<not> lib) t = Some r' \<and>
      PairRegression r' = PairImprovement r \<and> PairImprovement r' = PairRegression r"
    using b by (auto simp: PairwiseVerdict_def Let_def fmul_fneg_left r)
  assume h: "is_fin b \<and> (if lib then fle b c else fle c b)"
  show "\<not> PairImprovement r"
  proof (cases lib)
    case False
    then have "fle ?p (Fin 0)" using h b by (intro relative_change_nonpos) auto
    then show ?thesis using False assms(1) by (auto simp: r flt_def fle_def)
  next
    case True
    then have "fle (Fin 0) ?p" using h b by (intro relative_change_nonneg) auto
    then have "fle (fneg ?p) (fneg (Fin 0))" by (simp only: fle_fneg)
    then show ?thesis using True assms(1) by (auto simp: r flt_def fle_def)
  qed
qed

theorem PairwiseVerdict_direction_witness:
  "\<exists>r. PairwiseVerdict (Fin 10) (Fin 12) True (Fin 5) = Some r \<and> PairRegression r \<and> \<not> PairImprovement r"
proof -
  have e: "PairwiseVerdict (Fin 10) (Fin 12) True (Fin 5) =
    Some \<lparr>PercentChange = fneg (fmul (fdiv (Fin 2) (Fin 10)) (Fin 100)), PercentThreshold = Fin 5,
      PairRegression = True, PairImprovement = False\<rparr>"
    by code_simp
  show ?thesis using PairwiseVerdict_direction [OF _ e] e by simp
qed

text \<open>
  The look-back verdict of a result is never both a regression and an improvement; for
  a finite mean and a positive finite deviation, a value on the worse side of the mean (or
  on it) is never an improvement and one on the better side never a regression.
\<close>

theorem LookbackZVerdict_direction:
  assumes "fle (Fin 0) t" "LookbackZVerdict (ZScore (Some x) lib (Some m) (Some sd)) t = Some r"
    "is_fin m" "flt (Fin 0) sd" "sd \<noteq> PInf"
  shows "\<not> (LookRegression r \<and> LookImprovement r) \<and>
    ((if lib then fle m x else fle x m) \<longrightarrow> \<not> LookImprovement r) \<and>
    ((if lib then fle x m else fle m x) \<longrightarrow> \<not> LookRegression r)"
proof -
  define z where "z = fdiv (fsub x m) sd"
  define z' where "z' = (if \<not> feq z (Fin 0) \<and> lib then fneg z else z)"
  have r: "r = \<lparr>ZThreshold = t, LookbackZ = z', LookRegression = flt t (fneg z'), LookImprovement = flt t z'\<rparr>"
    using assms(2) by (auto simp: LookbackZVerdict_def ZScore_def z_def z'_def Let_def split: if_splits)
  have le: "fle z (Fin 0)" if "fle x m"
    unfolding z_def using that assms(3-5) by (intro fdiv_pos_mono0 fsub_nonpos) auto
  have ge: "fle (Fin 0) z" if "fle m x"
    unfolding z_def using that assms(3-5) by (intro fdiv_nonneg fsub_nonneg') auto
  have n: "fle (fneg z) (Fin 0) \<longleftrightarrow> fle (Fin 0) z" "fle (Fin 0) (fneg z) \<longleftrightarrow> fle z (Fin 0)"
    by (cases z; auto simp: fle_def)+
  have no: "\<not> flt t v" if "fle v (Fin 0)" for v
    using that assms(1) by (auto simp: flt_def fle_def)
  show ?thesis
    using threshold_exclusive [OF assms(1), of z'] le ge n no [of z'] no [of "fneg z'"]
    by (auto simp: r z'_def feq_def fle_def split: if_splits)
qed

theorem LookbackZVerdict_direction_witness:
  "\<exists>r. LookbackZVerdict (ZScore (Some (Fin 10)) False (Some (Fin 4)) (Some (Fin 1))) (Fin 5) = Some r \<and>
     \<not> LookRegression r"
proof -
  have e: "LookbackZVerdict (ZScore (Some (Fin 10)) False (Some (Fin 4)) (Some (Fin 1))) (Fin 5) =
    Some \<lparr>ZThreshold = Fin 5, LookbackZ = Fin 6, LookRegression = False, LookImprovement = True\<rparr>"
    by code_simp
  show ?thesis using LookbackZVerdict_direction [OF _ e] e by simp
qed

text \<open>
  In best mode a successful result with a registered unit has a summary, which is one
  of its measurements and no measurement is better in the unit's direction.
\<close>

theorem SingleValueSummary_best:
  assumes "\<not> IsFailed (Some u) d e" "Known u" "NaN \<notin> set (Measurements (Some u) d e)"
  shows "\<exists>v lib. SingleValueSummary (Measurements (Some u) d e) (Some u) SVSModeBest = Inr v \<and>
    LessIsBetter u = Inr lib \<and> v \<in> set (Measurements (Some u) d e) \<and>
    (\<forall>x\<in>set (Measurements (Some u) d e). if lib then fle v x else fle x v)"
proof -
  obtain lib where "LessIsBetter u = Inr lib" using assms(2) LessIsBetter_Inr_iff by blast
  then show ?thesis
    using assms minOf_spec [OF _ assms(3)] maxOf_spec [OF _ assms(3)]
    by (auto simp: SingleValueSummary_def SVSModeBest_def SVSModeMean_def Measurements_nonempty)
qed

theorem SingleValueSummary_best_witness:
  "\<exists>v. SingleValueSummary (Measurements (Some ''ns'') (Some [Some (Fin 3), Some (Fin 2)]) False)
      (Some ''ns'') SVSModeBest = Inr v \<and> v \<in> {Fin 3, Fin 2}"
  using SingleValueSummary_best [of "''ns''" "Some [Some (Fin 3), Some (Fin 2)]" False]
  by (auto simp: IsFailed_def Known_def known_units_def Measurements_def)

end
