(* ===== verification/Text.thy ===== *)
theory Text
  imports Prelude
begin

text \<open>
  Go strings are byte sequences that usually hold UTF-8. This theory models what the code
  uses of the encoding: the conversion to runes and back, and \<open>strings.TrimSpace\<close>, which
  knows the white space characters of Unicode.
\<close>

section \<open>Runes\<close>

definition byte_in :: "nat \<Rightarrow> nat \<Rightarrow> char \<Rightarrow> bool" where
  "byte_in lo hi c \<longleftrightarrow> lo \<le> of_char c \<and> of_char c \<le> (hi :: nat)"

definition rune_error :: string where
  "rune_error = [CHR 0xEF, CHR 0xBF, CHR 0xBD]"

text \<open>
  The length in bytes of the well-formed encoding a string starts with, 0 when there is
  none.
\<close>

definition rune_len :: "string \<Rightarrow> nat" where
  "rune_len s = (case s of
     [] \<Rightarrow> 0
   | a # r \<Rightarrow>
      (if byte_in 0 0x7F a then 1
       else if byte_in 0xC2 0xDF a then
         (case r of b # _ \<Rightarrow> if byte_in 0x80 0xBF b then 2 else 0 | _ \<Rightarrow> 0)
       else if byte_in 0xE0 0xEF a then
         (case r of b # c # _ \<Rightarrow>
            (if byte_in (if of_char a = (0xE0::nat) then 0xA0 else 0x80)
                        (if of_char a = (0xED::nat) then 0x9F else 0xBF) b \<and> byte_in 0x80 0xBF c then 3 else 0)
          | _ \<Rightarrow> 0)
       else if byte_in 0xF0 0xF4 a then
         (case r of b # c # d # _ \<Rightarrow>
            (if byte_in (if of_char a = (0xF0::nat) then 0x90 else 0x80)
                        (if of_char a = (0xF4::nat) then 0x8F else 0xBF) b \<and>
                byte_in 0x80 0xBF c \<and> byte_in 0x80 0xBF d then 4 else 0)
          | _ \<Rightarrow> 0)
       else 0))"

text \<open>
  \<open>[]rune(s)\<close> with every rune as its encoding: a byte that starts no encoding becomes
  U+FFFD, so \<open>string([]rune(s))\<close> is the concatenation.
\<close>

function runes :: "string \<Rightarrow> string list" where
  "runes [] = []"
| "runes (a # r) = (let n = rune_len (a # r) in
     if n = 0 then rune_error # runes r else take n (a # r) # runes (drop (n - 1) r))"
  by pat_completeness auto
termination by (relation "measure length") auto

section \<open>White space\<close>

definition space_seqs :: "string list" where
  "space_seqs =
     [[CHR '' ''], [CHR 0x09], [CHR 0x0A], [CHR 0x0B], [CHR 0x0C], [CHR 0x0D],
      [CHR 0xC2, CHR 0x85], [CHR 0xC2, CHR 0xA0], [CHR 0xE1, CHR 0x9A, CHR 0x80],
      [CHR 0xE2, CHR 0x80, CHR 0x80], [CHR 0xE2, CHR 0x80, CHR 0x81], [CHR 0xE2, CHR 0x80, CHR 0x82],
      [CHR 0xE2, CHR 0x80, CHR 0x83], [CHR 0xE2, CHR 0x80, CHR 0x84], [CHR 0xE2, CHR 0x80, CHR 0x85],
      [CHR 0xE2, CHR 0x80, CHR 0x86], [CHR 0xE2, CHR 0x80, CHR 0x87], [CHR 0xE2, CHR 0x80, CHR 0x88],
      [CHR 0xE2, CHR 0x80, CHR 0x89], [CHR 0xE2, CHR 0x80, CHR 0x8A], [CHR 0xE2, CHR 0x80, CHR 0xA8],
      [CHR 0xE2, CHR 0x80, CHR 0xA9], [CHR 0xE2, CHR 0x80, CHR 0xAF], [CHR 0xE2, CHR 0x81, CHR 0x9F],
      [CHR 0xE3, CHR 0x80, CHR 0x80]]"

function strip_front :: "string list \<Rightarrow> string \<Rightarrow> string" where
  "strip_front ps s = (case find (\<lambda>p. p \<noteq> [] \<and> has_prefix s p) ps of
     None \<Rightarrow> s | Some p \<Rightarrow> strip_front ps (drop (length p) s))"
  by pat_completeness auto
termination
  by (relation "measure (length \<circ> snd)")
     (auto simp: find_Some_iff has_prefix_iff)

declare strip_front.simps [simp del]

definition trim_space :: "string \<Rightarrow> string" where
  "trim_space s = rev (strip_front (map rev space_seqs) (rev (strip_front space_seqs s)))"

text \<open>\<open>strings.TrimSuffix\<close> and \<open>strings.Trim\<close> with a set of characters.\<close>

definition trim_suffix :: "string \<Rightarrow> string \<Rightarrow> string" where
  "trim_suffix s p = (if has_suffix s p then take (length s - length p) s else s)"

definition trim_chars :: "(char \<Rightarrow> bool) \<Rightarrow> string \<Rightarrow> string" where
  "trim_chars P s = trim_right P (trim_left P s)"

text \<open>Decimal digits of \<open>strconv.Itoa\<close>.\<close>

function dec_digits :: "nat \<Rightarrow> string" where
  "dec_digits n = (if n < 10 then [char_of (48 + n)] else dec_digits (n div 10) @ [char_of (48 + n mod 10)])"
  by pat_completeness auto
termination by (relation "measure (\<lambda>n. n)") auto

declare dec_digits.simps [simp del]

definition itoa :: "int \<Rightarrow> string" where
  "itoa n = (if n < 0 then ''-'' @ dec_digits (nat (- n)) else dec_digits (nat n))"

section \<open>Lemmas\<close>

lemma strip_front_suffix: "\<exists>p. s = p @ strip_front ps s"
proof (induction ps s rule: strip_front.induct)
  case (1 ps s)
  show ?case
  proof (cases "find (\<lambda>p. p \<noteq> [] \<and> has_prefix s p) ps")
    case None
    then show ?thesis by (simp add: strip_front.simps [of ps s])
  next
    case (Some p)
    then have "has_prefix s p" by (auto simp: find_Some_iff)
    then obtain r where r: "s = p @ r" by (auto simp: has_prefix_iff)
    from 1 [OF Some] obtain q where "drop (length p) s = q @ strip_front ps (drop (length p) s)" by blast
    moreover have "strip_front ps s = strip_front ps (drop (length p) s)"
      using Some by (simp add: strip_front.simps [of ps s])
    ultimately have "s = (p @ q) @ strip_front ps s" using r by simp
    then show ?thesis by blast
  qed
qed

lemma strip_front_done: "p \<in> set ps \<Longrightarrow> p \<noteq> [] \<Longrightarrow> \<not> has_prefix (strip_front ps s) p"
proof (induction ps s rule: strip_front.induct)
  case (1 ps s)
  show ?case
  proof (cases "find (\<lambda>p. p \<noteq> [] \<and> has_prefix s p) ps")
    case None
    then have "strip_front ps s = s" by (simp add: strip_front.simps [of ps s])
    moreover have "\<not> has_prefix s p" using None 1(2,3) by (auto simp: find_None_iff)
    ultimately show ?thesis by simp
  next
    case (Some q)
    then show ?thesis using 1(1) [OF Some 1(2,3)] by (simp add: strip_front.simps [of ps s])
  qed
qed

lemma strip_front_id: "(\<And>p. p \<in> set ps \<Longrightarrow> p \<noteq> [] \<Longrightarrow> \<not> has_prefix s p) \<Longrightarrow> strip_front ps s = s"
  by (subst strip_front.simps) (auto simp: find_Some_iff split: option.splits)

lemma space_seqs_nonempty: "p \<in> set space_seqs \<Longrightarrow> p \<noteq> []"
  by (auto simp: space_seqs_def)

lemma trim_space_no_prefix: assumes "p \<in> set space_seqs" shows "\<not> has_prefix (trim_space s) p"
proof -
  define f where "f = strip_front space_seqs s"
  obtain q where "rev f = q @ rev (trim_space s)"
    using strip_front_suffix [of "rev f" "map rev space_seqs"] by (auto simp: trim_space_def f_def)
  then have "f = trim_space s @ rev q" by (metis rev_append rev_rev_ident)
  moreover have "\<not> has_prefix f p"
    using strip_front_done [OF assms] space_seqs_nonempty [OF assms] by (simp add: f_def)
  ultimately show ?thesis by (auto simp: has_prefix_iff)
qed

lemma trim_space_no_suffix: assumes "p \<in> set space_seqs" shows "\<not> has_suffix (trim_space s) p"
  using strip_front_done [of "rev p" "map rev space_seqs"] assms space_seqs_nonempty [OF assms]
  by (simp add: has_suffix_def trim_space_def)

lemma trim_space_idem [simp]: "trim_space (trim_space s) = trim_space s"
proof -
  have f: "strip_front space_seqs (trim_space s) = trim_space s"
    using trim_space_no_prefix by (intro strip_front_id)
  have "strip_front (map rev space_seqs) (rev (trim_space s)) = rev (trim_space s)"
    using trim_space_no_suffix by (intro strip_front_id) (auto simp: has_suffix_def)
  with f show ?thesis unfolding trim_space_def [of "trim_space s"] by simp
qed

lemma rune_len_le: "rune_len s \<le> length s"
  by (auto simp: rune_len_def split: list.splits if_splits)

lemma length_dec_digits: "dec_digits n \<noteq> []"
  by (subst dec_digits.simps) auto

end
