(* ===== verification/Store.thy ===== *)
theory Store
  imports Prelude
begin

text \<open>
  \<^verbatim>\<open>internal/db/store.go\<close> with the queries it composes (\<^verbatim>\<open>internal/db/*.sql.go\<close>): a table
  is the list of its rows, a query a function on it, a statement that writes returns the
  new table. \<open>getOrCreate\<close> is the algorithm shared by the case, context, info, user and
  commit tables; other transactions may commit between its statements, and \<open>e1\<close> and
  \<open>e2\<close> are what they do to the table there. Comparison of text in \<^verbatim>\<open>ORDER BY\<close> is that of
  the database's collation, the parameter \<open>coll\<close>.
\<close>

section \<open>Definitions\<close>

datatype db_error = ErrNoRows | ErrNotFound | ErrConflict | ErrUniqueKey | ErrGenID | ErrMissingHash | ErrOther string

type_synonym 'a result = "db_error + 'a"

definition getOrCreate ::
  "('st \<Rightarrow> string result) \<Rightarrow> (string \<Rightarrow> 'st \<Rightarrow> string result \<times> 'st) \<Rightarrow> ('st \<Rightarrow> 'st) \<Rightarrow> ('st \<Rightarrow> 'st) \<Rightarrow>
   string result \<Rightarrow> 'st \<Rightarrow> string result \<times> 'st" where
  "getOrCreate sel ins e1 e2 genID st =
     (case sel st of
        Inr i \<Rightarrow> (Inr i, st)
      | Inl e \<Rightarrow>
          (if e \<noteq> ErrNoRows then (Inl e, st)
           else case genID of
              Inl e \<Rightarrow> (Inl e, st)
            | Inr newID \<Rightarrow>
                (case ins newID (e1 st) of
                   (Inr i, st') \<Rightarrow> (Inr i, st')
                 | (Inl e, st') \<Rightarrow>
                     (if e \<noteq> ErrNoRows then (Inl e, st')
                      else let st'' = e2 st' in (sel st'', st'')))))"

text \<open>
  \<open>SELECT id ... WHERE key = k\<close>, and \<open>INSERT ... ON CONFLICT (key) DO NOTHING RETURNING id\<close>
  on a table whose primary key is the id.
\<close>

definition select_id :: "('r \<Rightarrow> 'k) \<Rightarrow> ('r \<Rightarrow> string) \<Rightarrow> 'k \<Rightarrow> 'r list \<Rightarrow> string result" where
  "select_id key rid k t = (case find (\<lambda>r. key r = k) t of None \<Rightarrow> Inl ErrNoRows | Some r \<Rightarrow> Inr (rid r))"

definition insert_nothing :: "('r \<Rightarrow> 'k) \<Rightarrow> ('r \<Rightarrow> string) \<Rightarrow> 'r \<Rightarrow> 'r list \<Rightarrow> string result \<times> 'r list" where
  "insert_nothing key rid r t =
     (if key r \<in> set (map key t) then (Inl ErrNoRows, t)
      else if rid r \<in> set (map rid t) then (Inl ErrUniqueKey, t)
      else (Inr (rid r), t @ [r]))"

subsection \<open>Cases, contexts, infos, users\<close>

record 'j case_row =
  case_id :: string
  case_name :: string
  case_tags :: 'j

record 'j tags_row =
  tags_id :: string
  tags_value :: 'j

record user_row =
  user_id :: string
  user_email :: string
  user_name :: string
  user_password :: string

definition GetCaseByNameTags :: "string \<Rightarrow> 'j \<Rightarrow> 'j case_row list \<Rightarrow> string result" where
  "GetCaseByNameTags name tags t = select_id (\<lambda>r. (case_name r, case_tags r)) case_id (name, tags) t"

definition InsertCase :: "'j case_row \<Rightarrow> 'j case_row list \<Rightarrow> string result \<times> 'j case_row list" where
  "InsertCase r t = insert_nothing (\<lambda>r. (case_name r, case_tags r)) case_id r t"

definition GetOrCreateCase where
  "GetOrCreateCase e1 e2 genID name tags t =
     getOrCreate (GetCaseByNameTags name tags)
       (\<lambda>id. InsertCase \<lparr>case_id = id, case_name = name, case_tags = tags\<rparr>) e1 e2 genID t"

definition GetContextByTags :: "'j \<Rightarrow> 'j tags_row list \<Rightarrow> string result" where
  "GetContextByTags tags t = select_id tags_value tags_id tags t"

definition InsertContext :: "'j tags_row \<Rightarrow> 'j tags_row list \<Rightarrow> string result \<times> 'j tags_row list" where
  "InsertContext r t = insert_nothing tags_value tags_id r t"

definition GetOrCreateContext where
  "GetOrCreateContext e1 e2 genID tags t =
     getOrCreate (GetContextByTags tags)
       (\<lambda>id. InsertContext \<lparr>tags_id = id, tags_value = tags\<rparr>) e1 e2 genID t"

text \<open>The info table has no unique index on its tags.\<close>

definition GetInfoByTags :: "'j \<Rightarrow> 'j tags_row list \<Rightarrow> string result" where
  "GetInfoByTags tags t = select_id tags_value tags_id tags t"

definition InsertInfo :: "'j tags_row \<Rightarrow> 'j tags_row list \<Rightarrow> string result \<times> 'j tags_row list" where
  "InsertInfo r t = (if tags_id r \<in> set (map tags_id t) then (Inl ErrUniqueKey, t) else (Inr (tags_id r), t @ [r]))"

definition GetOrCreateInfo where
  "GetOrCreateInfo e1 e2 genID tags t =
     getOrCreate (GetInfoByTags tags)
       (\<lambda>id. InsertInfo \<lparr>tags_id = id, tags_value = tags\<rparr>) e1 e2 genID t"

definition GetUserByEmail :: "string \<Rightarrow> user_row list \<Rightarrow> string result" where
  "GetUserByEmail email t = select_id user_email user_id email t"

definition InsertUser :: "user_row \<Rightarrow> user_row list \<Rightarrow> string result \<times> user_row list" where
  "InsertUser r t = insert_nothing user_email user_id r t"

definition GetOrCreateUserByEmail where
  "GetOrCreateUserByEmail e1 e2 genID email name password t =
     getOrCreate (GetUserByEmail email)
       (\<lambda>id. InsertUser \<lparr>user_id = id, user_email = email, user_name = name, user_password = password\<rparr>)
       e1 e2 genID t"

definition GetUserByID :: "string \<Rightarrow> user_row list \<Rightarrow> (string \<times> string \<times> string) result" where
  "GetUserByID i t = (case find (\<lambda>r. user_id r = i) t of
     None \<Rightarrow> Inl ErrNotFound | Some r \<Rightarrow> Inr (user_id r, user_email r, user_name r))"

subsection \<open>Commits\<close>

record commit_row =
  c_id :: string
  c_sha :: string
  c_parent :: "string ptr"
  c_repository :: string
  c_message :: string
  c_author_name :: string
  c_author_login :: "string ptr"
  c_author_avatar :: "string ptr"
  c_timestamp :: "time ptr"
  c_branch :: "string ptr"
  c_fork_point_sha :: "string ptr"

definition commit_key :: "commit_row \<Rightarrow> string \<times> string" where
  "commit_key r = (c_sha r, c_repository r)"

definition GetCommitByShaRepo :: "string \<Rightarrow> string \<Rightarrow> commit_row list \<Rightarrow> string result" where
  "GetCommitByShaRepo sha repository t = select_id commit_key c_id (sha, repository) t"

definition InsertCommit :: "commit_row \<Rightarrow> commit_row list \<Rightarrow> string result \<times> commit_row list" where
  "InsertCommit r t = insert_nothing commit_key c_id r t"

definition GetOrCreateCommit ::
  "(commit_row list \<Rightarrow> commit_row list) \<Rightarrow> (commit_row list \<Rightarrow> commit_row list) \<Rightarrow> string result \<Rightarrow>
   commit_row \<Rightarrow> commit_row list \<Rightarrow> string result \<times> commit_row list" where
  "GetOrCreateCommit e1 e2 genID p t =
     getOrCreate (GetCommitByShaRepo (c_sha p) (c_repository p))
       (\<lambda>id. InsertCommit (p\<lparr>c_id := id\<rparr>)) e1 e2 genID t"

definition GetCommitID :: "string \<Rightarrow> string \<Rightarrow> commit_row list \<Rightarrow> string result" where
  "GetCommitID sha repository t = (case GetCommitByShaRepo sha repository t of
     Inl ErrNoRows \<Rightarrow> Inl ErrNotFound | r \<Rightarrow> r)"

definition LatestCommitTimestampOnBranch :: "string \<Rightarrow> string \<Rightarrow> time \<Rightarrow> commit_row list \<Rightarrow> time ptr" where
  "LatestCommitTimestampOnBranch repository branch before t =
     (case rev (sort (map (\<lambda>r. the (c_timestamp r))
        (filter (\<lambda>r. c_repository r = repository \<and> c_branch r = Some branch \<and>
                     c_timestamp r \<noteq> None \<and> the (c_timestamp r) < before) t))) of
        [] \<Rightarrow> None | ts # _ \<Rightarrow> Some ts)"

definition unknown_commit :: "commit_row \<Rightarrow> bool" where
  "unknown_commit r \<longleftrightarrow> c_timestamp r = None \<and> c_fork_point_sha r = None"

text \<open>The row comparison \<open>(repository, sha) < (repository', sha')\<close>.\<close>

definition pair_less :: "(string \<Rightarrow> string \<Rightarrow> bool) \<Rightarrow> string \<times> string \<Rightarrow> string \<times> string \<Rightarrow> bool" where
  "pair_less coll a b \<longleftrightarrow> coll (fst a) (fst b) \<or> fst a = fst b \<and> coll (snd a) (snd b)"

definition SelectUnknownCommitRepairCandidates ::
  "(string \<Rightarrow> string \<Rightarrow> bool) \<Rightarrow> string ptr \<Rightarrow> (string \<times> string) ptr \<Rightarrow> nat \<Rightarrow> commit_row list \<Rightarrow> commit_row list" where
  "SelectUnknownCommitRepairCandidates coll repository after limitPlusOne t =
     take limitPlusOne
       (stable_sort (\<lambda>a b. pair_less coll (c_repository a, c_sha a) (c_repository b, c_sha b))
         (filter (\<lambda>r. unknown_commit r \<and> c_sha r \<noteq> [] \<and> c_repository r \<noteq> [] \<and>
            (case repository of None \<Rightarrow> True | Some s \<Rightarrow> c_repository r = s) \<and>
            (case after of None \<Rightarrow> True | Some a \<Rightarrow> pair_less coll a (c_repository r, c_sha r))) t))"

definition UpdateUnknownCommit :: "commit_row \<Rightarrow> commit_row list \<Rightarrow> nat \<times> commit_row list" where
  "UpdateUnknownCommit p t =
     (let hit = (\<lambda>r. c_id r = c_id p \<and> unknown_commit r) in
      (length (filter hit t),
       map (\<lambda>r. if hit r then r\<lparr>c_parent := c_parent p, c_message := c_message p,
          c_author_name := c_author_name p, c_author_login := c_author_login p,
          c_author_avatar := c_author_avatar p, c_timestamp := c_timestamp p,
          c_branch := c_branch p, c_fork_point_sha := c_fork_point_sha p\<rparr> else r) t))"

subsection \<open>One-time login codes and API tokens\<close>

record login_code =
  code_hash :: string
  code_user :: string
  code_created :: time
  code_expires :: time
  code_redeemed :: "time ptr"

definition DeleteExpiredCLILoginCodes :: "time \<Rightarrow> login_code list \<Rightarrow> login_code list" where
  "DeleteExpiredCLILoginCodes now t = filter (\<lambda>c. \<not> code_expires c < now) t"

definition InsertCLILoginCode ::
  "string \<Rightarrow> string \<Rightarrow> time \<Rightarrow> time \<Rightarrow> login_code list \<Rightarrow> unit result \<times> login_code list" where
  "InsertCLILoginCode codeHash userID createdAt expiresAt t =
     (if codeHash \<in> set (map code_hash t) then (Inl ErrUniqueKey, t)
      else (Inr (), t @ [\<lparr>code_hash = codeHash, code_user = userID, code_created = createdAt,
              code_expires = expiresAt, code_redeemed = None\<rparr>]))"

definition RedeemCLILoginCode :: "string \<Rightarrow> time \<Rightarrow> login_code list \<Rightarrow> string option \<times> login_code list" where
  "RedeemCLILoginCode codeHash now t =
     (let hit = (\<lambda>c. code_hash c = codeHash \<and> code_redeemed c = None \<and> now \<le> code_expires c) in
      (map_option code_user (find hit t), map (\<lambda>c. if hit c then c\<lparr>code_redeemed := Some now\<rparr> else c) t))"

record api_token =
  tok_id :: string
  tok_user :: string
  tok_name :: string
  tok_hash :: string
  tok_prefix :: string
  tok_created :: time
  tok_last_used :: "time ptr"
  tok_revoked :: "time ptr"

definition CreateAPIToken ::
  "string result \<Rightarrow> string \<Rightarrow> string \<Rightarrow> string \<Rightarrow> string \<Rightarrow> time \<Rightarrow> api_token list \<Rightarrow> string result \<times> api_token list" where
  "CreateAPIToken genID userID name tokenHash tokenPrefix createdAt t =
     (case genID of Inl e \<Rightarrow> (Inl e, t)
      | Inr i \<Rightarrow>
        (if i \<in> set (map tok_id t) \<or> tokenHash \<in> set (map tok_hash t) then (Inl ErrUniqueKey, t)
         else (Inr i, t @ [\<lparr>tok_id = i, tok_user = userID, tok_name = name, tok_hash = tokenHash,
                  tok_prefix = tokenPrefix, tok_created = createdAt, tok_last_used = None, tok_revoked = None\<rparr>])))"

definition GetAPITokenByHash :: "string \<Rightarrow> api_token list \<Rightarrow> api_token result" where
  "GetAPITokenByHash tokenHash t = (case find (\<lambda>r. tok_hash r = tokenHash) t of
     None \<Rightarrow> Inl ErrNotFound | Some r \<Rightarrow> Inr r)"

definition GetAPITokenByID :: "string \<Rightarrow> api_token list \<Rightarrow> api_token result" where
  "GetAPITokenByID i t = (case find (\<lambda>r. tok_id r = i) t of None \<Rightarrow> Inl ErrNotFound | Some r \<Rightarrow> Inr r)"

definition ListAPITokensByUser :: "string \<Rightarrow> api_token list \<Rightarrow> api_token list" where
  "ListAPITokensByUser userID t =
     stable_sort (\<lambda>a b. tok_created b < tok_created a) (filter (\<lambda>r. tok_user r = userID) t)"

definition TouchAPITokenLastUsed :: "string \<Rightarrow> time \<Rightarrow> api_token list \<Rightarrow> api_token list" where
  "TouchAPITokenLastUsed i lastUsed t =
     map (\<lambda>r. if tok_id r = i then r\<lparr>tok_last_used := Some lastUsed\<rparr> else r) t"

definition RevokeAPIToken :: "string \<Rightarrow> time \<Rightarrow> api_token list \<Rightarrow> unit result \<times> api_token list" where
  "RevokeAPIToken i revokedAt t =
     (let rows = length (filter (\<lambda>r. tok_id r = i) t) in
      (if rows = 0 then Inl ErrNotFound else Inr (),
       map (\<lambda>r. if tok_id r = i then r\<lparr>tok_revoked := Some revokedAt\<rparr> else r) t))"

subsection \<open>Bounds of the series queries\<close>

text \<open>Two's complement arithmetic of \<open>int32\<close>.\<close>

definition int32 :: "int \<Rightarrow> int" where
  "int32 n = (n + 2 ^ 31) mod 2 ^ 32 - 2 ^ 31"

definition seriesQCompleteCaseLimit :: nat where "seriesQCompleteCaseLimit = 64"
definition seriesQRecentCommitMinLimit :: int where "seriesQRecentCommitMinLimit = 320"
definition seriesQRecentCommitMaxLimit :: int where "seriesQRecentCommitMaxLimit = 512"
definition seriesQRecentCommitPageFactor :: int where "seriesQRecentCommitPageFactor = 32"
definition seriesBrowseRecentCommitMinLimit :: int where "seriesBrowseRecentCommitMinLimit = 80"
definition seriesBrowseRecentCommitMaxLimit :: int where "seriesBrowseRecentCommitMaxLimit = 160"
definition seriesBrowseRecentCommitPageFactor :: int where "seriesBrowseRecentCommitPageFactor = 3"
definition seriesBrowseScopedCommitLimit :: int where "seriesBrowseScopedCommitLimit = 512"
definition seriesMembersTailLimit :: int where "seriesMembersTailLimit = 256"

record SeriesListParams =
  slp_Fingerprint :: "string ptr"
  slp_Q :: "string ptr"
  slp_Repository :: "string ptr"
  slp_Hardware :: "string ptr"
  slp_ActiveSince :: "time ptr"
  slp_ActiveUntil :: "time ptr"
  slp_CursorTs :: "time ptr"
  slp_CursorFp :: "string ptr"
  slp_PageSize :: int

definition seriesQNeedsCompleteSearch :: "SeriesListParams \<Rightarrow> bool" where
  "seriesQNeedsCompleteSearch p \<longleftrightarrow> slp_Hardware p \<noteq> None \<or> slp_Repository p \<noteq> None \<or>
     slp_ActiveSince p \<noteq> None \<or> slp_ActiveUntil p \<noteq> None"

definition seriesQRecentCommitLimit :: "int \<Rightarrow> int" where
  "seriesQRecentCommitLimit pageSize =
     (let limit = int32 (pageSize * seriesQRecentCommitPageFactor) in
      if limit < seriesQRecentCommitMinLimit then seriesQRecentCommitMinLimit
      else if limit > seriesQRecentCommitMaxLimit then seriesQRecentCommitMaxLimit
      else limit)"

definition seriesBrowseRecentCommitLimit :: "SeriesListParams \<Rightarrow> int" where
  "seriesBrowseRecentCommitLimit p =
     (let limit = min (max (int32 (slp_PageSize p * seriesBrowseRecentCommitPageFactor))
                        seriesBrowseRecentCommitMinLimit) seriesBrowseRecentCommitMaxLimit in
      if slp_CursorTs p \<noteq> None \<or> slp_Hardware p \<noteq> None then max limit seriesBrowseScopedCommitLimit
      else limit)"

text \<open>Which query answers a series page: the decisions of \<open>SelectSeriesPage\<close>.\<close>

datatype series_query =
  ForFingerprint string
| NoMatch
| ForQCaseIDs "string list"
| ForQRecent "string list" int
| Browse int

definition SelectSeriesPage :: "(string \<Rightarrow> string list) \<Rightarrow> SeriesListParams \<Rightarrow> series_query" where
  "SelectSeriesPage caseIDsForQ p =
     (case slp_Fingerprint p of
        Some fp \<Rightarrow> ForFingerprint fp
      | None \<Rightarrow>
        (case slp_Q p of
           Some q \<Rightarrow>
             (if q \<noteq> [] then
                (let caseIDs = caseIDsForQ q in
                 if caseIDs = [] then NoMatch
                 else if length caseIDs \<le> seriesQCompleteCaseLimit \<or> seriesQNeedsCompleteSearch p
                   then ForQCaseIDs caseIDs
                 else ForQRecent caseIDs (seriesQRecentCommitLimit (slp_PageSize p)))
              else Browse (seriesBrowseRecentCommitLimit p))
         | None \<Rightarrow> Browse (seriesBrowseRecentCommitLimit p)))"

section \<open>Collations\<close>

text \<open>A deterministic collation is a strict total order on text.\<close>

lemma collation_facts:
  assumes "total_weak_order coll"
  shows "\<not> coll x x" "coll x y \<Longrightarrow> coll y z \<Longrightarrow> coll x z" "coll x y \<Longrightarrow> \<not> coll y x" "x \<noteq> y \<Longrightarrow> coll x y \<or> coll y x"
proof -
  have w: "weak_order coll" using assms by (rule total_weak_order.axioms(1))
  show "\<not> coll x x" by (rule weak_order.irrefl [OF w])
  show "coll x y \<Longrightarrow> coll y z \<Longrightarrow> coll x z" by (rule weak_order.trans_less [OF w])
  show "coll x y \<Longrightarrow> \<not> coll y x" by (rule weak_order.asym [OF w])
  show "x \<noteq> y \<Longrightarrow> coll x y \<or> coll y x" by (rule total_weak_order.total [OF assms])
qed

text \<open>Byte-wise comparison is a collation of this kind (the \<^verbatim>\<open>C\<close> locale).\<close>

definition byte_collation :: "string \<Rightarrow> string \<Rightarrow> bool" where
  "byte_collation a b \<longleftrightarrow> a < b"

interpretation byte_order: total_weak_order byte_collation
  by unfold_locales (auto simp: byte_collation_def)

section \<open>Tables with a natural key\<close>

text \<open>
  The contract of the tables that \<open>getOrCreate\<close> works on: a lookup by natural key and an
  insertion that does nothing when the key is taken.
\<close>

locale keyed_table =
  fixes key :: "'r \<Rightarrow> 'k" and rid :: "'r \<Rightarrow> string"
    and sel :: "'k \<Rightarrow> 'r list \<Rightarrow> string result"
    and ins :: "'r \<Rightarrow> 'r list \<Rightarrow> string result \<times> 'r list"
  assumes sel_absent: "(\<forall>r\<in>set t. key r \<noteq> k) \<Longrightarrow> sel k t = Inl ErrNoRows"
    and sel_present: "r \<in> set t \<Longrightarrow> distinct (map key t) \<Longrightarrow> sel (key r) t = Inr (rid r)"
    and ins_taken: "r' \<in> set t \<Longrightarrow> key r' = key r \<Longrightarrow> ins r t = (Inl ErrNoRows, t)"
    and ins_new: "key r \<notin> key ` set t \<Longrightarrow> rid r \<notin> rid ` set t \<Longrightarrow> ins r t = (Inr (rid r), t @ [r])"
begin

definition uniq :: "'r list \<Rightarrow> bool" where
  "uniq t \<longleftrightarrow> distinct (map key t) \<and> distinct (map rid t)"

text \<open>
  What other transactions do: they keep the unique indexes and delete nothing, so that every
  key keeps its id; other columns may change, as when a commit is repaired.
\<close>

definition binds :: "'r list \<Rightarrow> ('k \<times> string) set" where
  "binds t = (\<lambda>r. (key r, rid r)) ` set t"

definition rely :: "('r list \<Rightarrow> 'r list) \<Rightarrow> bool" where
  "rely e \<longleftrightarrow> (\<forall>t. uniq t \<longrightarrow> uniq (e t) \<and> binds t \<subseteq> binds (e t))"

lemma sel_bound: "(k, i) \<in> binds t \<Longrightarrow> uniq t \<Longrightarrow> sel k t = Inr i"
  using sel_present by (auto simp: binds_def uniq_def)

lemma get_or_create:
  assumes "uniq t" "rely e1" "rely e2" "\<And>i. key (mk i) = k \<and> rid (mk i) = i"
    "newID \<notin> rid ` set (e1 t)"
  shows "\<exists>i t'. getOrCreate (sel k) (\<lambda>i. ins (mk i)) e1 e2 (Inr newID) t = (Inr i, t') \<and>
    uniq t' \<and> binds t \<subseteq> binds t' \<and> sel k t' = Inr i \<and> (k, i) \<in> binds t'"
proof (cases "\<exists>i. (k, i) \<in> binds t")
  case True
  then obtain i where "(k, i) \<in> binds t" ..
  then show ?thesis using assms(1) sel_bound by (auto simp: getOrCreate_def)
next
  case False
  then have s: "sel k t = Inl ErrNoRows" by (intro sel_absent) (auto simp: binds_def)
  define t1 where "t1 = e1 t"
  have t1: "uniq t1" "binds t \<subseteq> binds t1" using assms(1,2) by (auto simp: rely_def t1_def)
  show ?thesis
  proof (cases "\<exists>i. (k, i) \<in> binds t1")
    case True
    then obtain i where r: "(k, i) \<in> binds t1" ..
    then have i: "ins (mk newID) t1 = (Inl ErrNoRows, t1)"
      using assms(4) ins_taken by (auto simp: binds_def)
    have t2: "uniq (e2 t1)" "binds t1 \<subseteq> binds (e2 t1)" using t1 assms(3) by (auto simp: rely_def)
    then have "sel k (e2 t1) = Inr i" using r sel_bound by blast
    then show ?thesis using s i t1 t2 r by (auto simp: getOrCreate_def t1_def [symmetric])
  next
    case False
    then have n: "k \<notin> key ` set t1" by (auto simp: binds_def)
    then have i: "ins (mk newID) t1 = (Inr newID, t1 @ [mk newID])"
      using assms(4,5) ins_new [of "mk newID" t1] by (auto simp: t1_def)
    have u: "uniq (t1 @ [mk newID])" using t1 n assms(4,5) by (auto simp: uniq_def t1_def)
    have b: "binds t1 \<subseteq> binds (t1 @ [mk newID])" "(k, newID) \<in> binds (t1 @ [mk newID])"
      using assms(4) by (auto simp: binds_def)
    then show ?thesis using s i t1 u sel_bound by (auto simp: getOrCreate_def t1_def [symmetric])
  qed
qed

end

lemma select_id_absent: "(\<forall>r\<in>set t. key r \<noteq> k) \<Longrightarrow> select_id key rid k t = Inl ErrNoRows"
  by (auto simp: select_id_def find_None_iff split: option.splits)

lemma select_id_present:
  assumes "r \<in> set t" "distinct (map key t)"
  shows "select_id key rid (key r) t = Inr (rid r)"
proof -
  obtain r' where f: "find (\<lambda>x. key x = key r) t = Some r'"
    using assms(1) by (metis (mono_tags, lifting) find_None_iff option.exhaust)
  then have "r' \<in> set t" "key r' = key r" by (auto simp: find_Some_iff)
  then have "r' = r" using assms by (metis (no_types, lifting) distinct_map inj_on_eq_iff)
  then show ?thesis using f by (simp add: select_id_def)
qed

lemma keyed_select: "keyed_table key rid (select_id key rid) (insert_nothing key rid)"
proof unfold_locales
  show "insert_nothing key rid r t = (Inl ErrNoRows, t)" if "r' \<in> set t" "key r' = key r" for r' r :: 'a and t
    using that by (metis imageI insert_nothing_def set_map)
qed (auto simp: select_id_absent select_id_present insert_nothing_def)

interpretation case_table: keyed_table "\<lambda>r. (case_name r, case_tags r)" case_id
    "\<lambda>k. GetCaseByNameTags (fst k) (snd k)" InsertCase
  using keyed_select by (simp add: GetCaseByNameTags_def [abs_def] InsertCase_def [abs_def])

interpretation context_table: keyed_table tags_value tags_id GetContextByTags InsertContext
  using keyed_select by (simp add: GetContextByTags_def [abs_def] InsertContext_def [abs_def])

interpretation user_table: keyed_table user_email user_id GetUserByEmail InsertUser
  using keyed_select by (simp add: GetUserByEmail_def [abs_def] InsertUser_def [abs_def])

interpretation commit_table: keyed_table commit_key c_id "\<lambda>k. GetCommitByShaRepo (fst k) (snd k)" InsertCommit
  using keyed_select by (simp add: GetCommitByShaRepo_def [abs_def] InsertCommit_def [abs_def])

section \<open>Properties\<close>

text \<open>
  C13: Whatever other transactions insert between its statements, get-or-create of a commit
  with a fresh id succeeds: every commit keeps its id, the table keeps one row per commit
  and repository, and the id returned is that of the commit's row, so asking again gives it
  again. The other transactions may also repair commits.
\<close>

theorem GetOrCreateCommit_correct:
  assumes "commit_table.uniq t" "commit_table.rely e1" "commit_table.rely e2" "newID \<notin> c_id ` set (e1 t)"
  shows "\<exists>i t'. GetOrCreateCommit e1 e2 (Inr newID) p t = (Inr i, t') \<and> commit_table.uniq t' \<and>
    commit_table.binds t \<subseteq> commit_table.binds t' \<and> GetCommitID (c_sha p) (c_repository p) t' = Inr i \<and>
    ((c_sha p, c_repository p), i) \<in> commit_table.binds t'"
  using commit_table.get_or_create [OF assms(1-3), of "\<lambda>i. p\<lparr>c_id := i\<rparr>" "(c_sha p, c_repository p)" newID]
    assms(4)
  by (auto simp: GetOrCreateCommit_def GetCommitID_def commit_key_def)

theorem GetOrCreateCommit_correct_witness:
  "\<exists>i t'. GetOrCreateCommit (\<lambda>t. t) (\<lambda>t. t) (Inr ''id1'')
     \<lparr>c_id = [], c_sha = ''abc'', c_parent = None, c_repository = ''r'', c_message = [], c_author_name = [],
      c_author_login = None, c_author_avatar = None, c_timestamp = None, c_branch = None,
      c_fork_point_sha = None\<rparr> [] = (Inr i, t') \<and> GetCommitID ''abc'' ''r'' t' = Inr i"
  using GetOrCreateCommit_correct [of "[]" "\<lambda>t. t" "\<lambda>t. t" "''id1''"
      "\<lparr>c_id = [], c_sha = ''abc'', c_parent = None, c_repository = ''r'', c_message = [], c_author_name = [],
      c_author_login = None, c_author_avatar = None, c_timestamp = None, c_branch = None,
      c_fork_point_sha = None\<rparr>"]
  by (auto simp: commit_table.uniq_def commit_table.rely_def)

text \<open>
  A login code is redeemed at most once and never after it expired: a redemption
  returns the user of an unexpired, unredeemed code with that hash, and the same code is
  refused ever after.
\<close>

theorem RedeemCLILoginCode_once:
  assumes "RedeemCLILoginCode h now t = (Some u, t')"
  shows "(\<exists>c\<in>set t. code_hash c = h \<and> code_user c = u \<and> code_redeemed c = None \<and> now \<le> code_expires c) \<and>
    (distinct (map code_hash t) \<longrightarrow> fst (RedeemCLILoginCode h now' t') = None)"
proof -
  let ?hit = "\<lambda>c. code_hash c = h \<and> code_redeemed c = None \<and> now \<le> code_expires c"
  have t': "t' = map (\<lambda>c. if ?hit c then c\<lparr>code_redeemed := Some now\<rparr> else c) t"
    and f: "\<exists>c. find ?hit t = Some c \<and> code_user c = u"
    using assms by (auto simp: RedeemCLILoginCode_def Let_def)
  then obtain c where c: "c \<in> set t" "?hit c" "code_user c = u"
    unfolding find_Some_iff by (metis nth_mem)
  have "fst (RedeemCLILoginCode h now' t') = None" if d: "distinct (map code_hash t)"
  proof -
    have u: "x = c" if "x \<in> set t" "code_hash x = h" for x
      using that c d by (metis (no_types, lifting) distinct_map inj_on_eq_iff)
    have "code_redeemed y \<noteq> None" if "y \<in> set t'" "code_hash y = h" for y
    proof -
      obtain x where x: "x \<in> set t" "y = (if ?hit x then x\<lparr>code_redeemed := Some now\<rparr> else x)"
        using \<open>y \<in> set t'\<close> t' by auto
      then have "code_hash x = h" using that(2) by (auto split: if_splits)
      then show ?thesis using u [OF x(1)] x(2) c(2) by auto
    qed
    then have "find (\<lambda>c. code_hash c = h \<and> code_redeemed c = None \<and> now' \<le> code_expires c) t' = None"
      by (auto simp: find_None_iff)
    then show ?thesis by (simp add: RedeemCLILoginCode_def Let_def)
  qed
  then show ?thesis using c by blast
qed

theorem RedeemCLILoginCode_once_witness:
  "\<exists>t'. RedeemCLILoginCode ''h'' 5 [\<lparr>code_hash = ''h'', code_user = ''u'', code_created = 0,
      code_expires = 10, code_redeemed = None\<rparr>] = (Some ''u'', t') \<and> fst (RedeemCLILoginCode ''h'' 6 t') = None"
proof -
  let ?t = "[\<lparr>code_hash = ''h'', code_user = ''u'', code_created = 0, code_expires = 10, code_redeemed = None\<rparr>]"
  have "RedeemCLILoginCode ''h'' 5 ?t = (Some ''u'', snd (RedeemCLILoginCode ''h'' 5 ?t))"
    by (simp add: RedeemCLILoginCode_def)
  from RedeemCLILoginCode_once [OF this, of 6] this show ?thesis by auto
qed

text \<open>
  For every 32-bit page size, wrap-around included, the commit window of a broad text
  search holds 320 to 512 commits and that of a browse 80 to 512, at least 512 when a cursor
  or a hardware filter needs the look-ahead.
\<close>

theorem series_limits:
  "320 \<le> seriesQRecentCommitLimit n \<and> seriesQRecentCommitLimit n \<le> 512 \<and>
   80 \<le> seriesBrowseRecentCommitLimit p \<and> seriesBrowseRecentCommitLimit p \<le> 512 \<and>
   ((slp_CursorTs p \<noteq> None \<or> slp_Hardware p \<noteq> None) = (seriesBrowseRecentCommitLimit p = 512))"
  by (auto simp: seriesQRecentCommitLimit_def seriesBrowseRecentCommitLimit_def Let_def
      seriesQRecentCommitMinLimit_def seriesQRecentCommitMaxLimit_def seriesBrowseRecentCommitMinLimit_def
      seriesBrowseRecentCommitMaxLimit_def seriesBrowseScopedCommitLimit_def)

end
