(* ===== verification/Commit.thy ===== *)
theory Commit
  imports Text Store
begin

text \<open>
  \<^verbatim>\<open>internal/commit/commit.go\<close>, \<^verbatim>\<open>local.go\<close>, \<^verbatim>\<open>map.go\<close>, \<^verbatim>\<open>github.go\<close> and the parsing half
  of \<^verbatim>\<open>github_client.go\<close>: how a submitted commit becomes a row of the commit table. The
  GitHub endpoints are a record of functions, one per client method, so the order of the
  calls and the treatment of their errors are those of the code. \<open>time.Parse\<close> with the
  RFC 3339 layout is the argument \<open>parse_rfc3339\<close>.
\<close>

section \<open>Definitions\<close>

subsection \<open>commit.go, local.go, map.go\<close>

record Info =
  Sha :: string
  Repository :: string
  Parent :: "string ptr"
  Message :: string
  AuthorName :: string
  AuthorLogin :: "string ptr"
  AuthorAvatar :: "string ptr"
  Timestamp :: "time ptr"
  Branch :: "string ptr"
  ForkPointSha :: "string ptr"

record Request =
  req_Commit :: string
  req_Repository :: string
  req_ResultTimestamp :: time
  req_Branch :: string
  req_PRNumber :: "int ptr"

definition empty_info :: Info where
  "empty_info = \<lparr>Sha = [], Repository = [], Parent = None, Message = [], AuthorName = [],
     AuthorLogin = None, AuthorAvatar = None, Timestamp = None, Branch = None, ForkPointSha = None\<rparr>"

definition NormalizeRepoURL :: "string \<Rightarrow> string" where
  "NormalizeRepoURL raw =
     (let raw = (case cut_prefix raw ''git@github.com:'' of
                   Some rest \<Rightarrow> ''https://github.com/'' @ rest | None \<Rightarrow> raw)
      in trim_right (\<lambda>c. c = CHR ''/'') raw)"

definition LocalProvider_Resolve :: "Request \<Rightarrow> Info option" where
  "LocalProvider_Resolve req =
     (if req_Commit req = [] then None
      else Some (empty_info\<lparr>Sha := req_Commit req, Repository := NormalizeRepoURL (req_Repository req),
             ForkPointSha := Some (req_Commit req), Timestamp := Some (req_ResultTimestamp req)\<rparr>))"

definition MapProvider_Resolve :: "(string \<rightharpoonup> Info) \<Rightarrow> Request \<Rightarrow> Info option" where
  "MapProvider_Resolve commits req =
     (if req_Commit req = [] then None
      else case commits (req_Commit req) of
        None \<Rightarrow> None
      | Some info \<Rightarrow>
          let out = info\<lparr>Sha := req_Commit req, Repository := NormalizeRepoURL (req_Repository req)\<rparr>
          in Some (if ForkPointSha out = None then out\<lparr>ForkPointSha := Some (req_Commit req)\<rparr> else out))"

subsection \<open>Parsing in github\_client.go\<close>

definition parseTokenEnv :: "string \<Rightarrow> string list" where
  "parseTokenEnv env =
     filter (\<lambda>tok. \<not> (length tok < 5 \<or> length tok > 130)) (map trim_space (str_split (CHR '','') env))"

definition HasUsableGitHubToken :: "string \<Rightarrow> bool" where
  "HasUsableGitHubToken tokenEnv \<longleftrightarrow> length (parseTokenEnv tokenEnv) > 0"

definition FirstUsableGitHubToken :: "string \<Rightarrow> string" where
  "FirstUsableGitHubToken tokenEnv = (case parseTokenEnv tokenEnv of [] \<Rightarrow> [] | t # _ \<Rightarrow> t)"

record parsedCommit =
  p_Parent :: "string ptr"
  p_Timestamp :: time
  p_Message :: string
  p_AuthorName :: string
  p_AuthorLogin :: "string ptr"
  p_AuthorAvatar :: "string ptr"

record commitJSON =
  j_Sha :: string
  j_CommitAuthorName :: string
  j_CommitAuthorDate :: string
  j_Message :: string
  j_Author :: "(string \<times> string) ptr"
  j_Parents :: "string list"

datatype gh_error =
  BuildRequest
| TokenError
| RequestFailed
| ReadFailed
| Unauthorized string
| RateLimited
| QuotaRotated
| QuotaExhausted
| ServerError nat
| UnexpectedStatus nat
| DecodeError
| BudgetExceeded gh_error
| BadAuthorDate string
| UnsupportedRepository string

definition firstLine240 :: "string \<Rightarrow> string" where
  "firstLine240 msg =
     (let line = (case str_cut (CHR 0x0A) msg of Some (a, _) \<Rightarrow> a | None \<Rightarrow> msg);
          r = runes line
      in concat (if length r > 240 then take 240 r else r))"

definition parseCommit :: "(string \<Rightarrow> time option) \<Rightarrow> commitJSON \<Rightarrow> gh_error + parsedCommit" where
  "parseCommit parse_rfc3339 cj =
     (case parse_rfc3339 (j_CommitAuthorDate cj) of
        None \<Rightarrow> Inl (BadAuthorDate (j_CommitAuthorDate cj))
      | Some ts \<Rightarrow> Inr
          \<lparr>p_Parent = (case j_Parents cj of [] \<Rightarrow> None | p # _ \<Rightarrow> Some p),
           p_Timestamp = ts, p_Message = firstLine240 (j_Message cj),
           p_AuthorName = j_CommitAuthorName cj,
           p_AuthorLogin = map_option fst (j_Author cj),
           p_AuthorAvatar = map_option snd (j_Author cj)\<rparr>)"

text \<open>The repository object the API returns and the branch label read from it.\<close>

record repoJSON =
  r_Fork :: bool
  r_DefaultBranch :: string
  r_OwnerLogin :: string
  r_Source :: "(string \<times> string) ptr"

definition defaultBranch_label :: "repoJSON \<Rightarrow> string" where
  "defaultBranch_label repo = (case r_Source repo of
     Some (branch, owner) \<Rightarrow>
       (if r_Fork repo then owner @ '':'' @ branch else r_OwnerLogin repo @ '':'' @ r_DefaultBranch repo)
   | None \<Rightarrow> r_OwnerLogin repo @ '':'' @ r_DefaultBranch repo)"

text \<open>The paging loop of \<open>commitsOnBranch\<close>; it may run forever, so it is partial.\<close>

definition query_branch :: "string \<Rightarrow> string" where
  "query_branch branch = (case str_cut (CHR '':'') branch of Some (_, b) \<Rightarrow> b | None \<Rightarrow> branch)"

partial_function (option) pages_from ::
  "(nat \<Rightarrow> gh_error + commitJSON list) \<Rightarrow> nat \<Rightarrow> commitJSON list \<Rightarrow> (gh_error + commitJSON list) option" where
  "pages_from fetch page acc = (case fetch page of
     Inl e \<Rightarrow> Some (Inl e)
   | Inr batch \<Rightarrow>
       (if length batch < 100 then Some (Inr (acc @ batch)) else pages_from fetch (Suc page) (acc @ batch)))"

definition commitsOnBranch ::
  "(string \<Rightarrow> nat \<Rightarrow> gh_error + commitJSON list) \<Rightarrow> string \<Rightarrow> (gh_error + commitJSON list) option" where
  "commitsOnBranch fetch branch = pages_from (fetch (query_branch branch)) 1 []"

subsection \<open>github.go\<close>

record BackfillJob =
  job_RepoURL :: string
  job_Spec :: string
  job_DefaultBranch :: string
  job_Until :: time

definition repoSpec :: "string \<Rightarrow> string option" where
  "repoSpec repoURL = (case cut_prefix repoURL ''https://github.com/'' of
     Some after \<Rightarrow> (if after = [] then None else Some after) | None \<Rightarrow> None)"

record gh_api =
  api_commitInfo :: "string \<Rightarrow> string \<Rightarrow> gh_error + parsedCommit"
  api_defaultBranch :: "string \<Rightarrow> gh_error + string"
  api_prBranch :: "string \<Rightarrow> int \<Rightarrow> gh_error + string"
  api_mergeBase :: "string \<Rightarrow> string \<Rightarrow> string \<Rightarrow> gh_error + string"

record enrichment =
  enr_info :: Info
  enr_spec :: string
  enr_defaultBranch :: string

definition enrich :: "gh_api \<Rightarrow> string \<Rightarrow> Request \<Rightarrow> gh_error + enrichment" where
  "enrich api repoURL req =
     (case repoSpec repoURL of
        None \<Rightarrow> Inl (UnsupportedRepository repoURL)
      | Some spec \<Rightarrow>
     (case api_commitInfo api spec (req_Commit req) of
        Inl e \<Rightarrow> Inl e
      | Inr meta \<Rightarrow>
     (case api_defaultBranch api spec of
        Inl e \<Rightarrow> Inl e
      | Inr defaultBranch \<Rightarrow>
     (case (case req_PRNumber req of
              Some pr \<Rightarrow> (if req_Branch req = [] then api_prBranch api spec pr else Inr (req_Branch req))
            | None \<Rightarrow> Inr (req_Branch req)) of
        Inl e \<Rightarrow> Inl e
      | Inr branch0 \<Rightarrow>
          let branch = (if branch0 = [] then defaultBranch else branch0) in
     (case api_mergeBase api spec defaultBranch (req_Commit req) of
        Inl e \<Rightarrow> Inl e
      | Inr forkPoint \<Rightarrow> Inr
          \<lparr>enr_info = \<lparr>Sha = req_Commit req, Repository = repoURL, Parent = p_Parent meta,
              Message = p_Message meta, AuthorName = p_AuthorName meta,
              AuthorLogin = p_AuthorLogin meta, AuthorAvatar = p_AuthorAvatar meta,
              Timestamp = Some (p_Timestamp meta), Branch = Some branch,
              ForkPointSha = Some forkPoint\<rparr>,
           enr_spec = spec, enr_defaultBranch = defaultBranch\<rparr>)))))"

definition Enrich :: "gh_api \<Rightarrow> Request \<Rightarrow> gh_error + (Info option \<times> BackfillJob option)" where
  "Enrich api req =
     (if req_Commit req = [] then Inr (None, None)
      else let repoURL = NormalizeRepoURL (req_Repository req) in
        (case enrich api repoURL req of
           Inl e \<Rightarrow> Inl e
         | Inr enr \<Rightarrow>
             let info = enr_info enr in
             Inr (Some info,
               case (Timestamp info, ForkPointSha info) of
                 (Some ts, Some fp) \<Rightarrow>
                   (if fp = Sha info
                    then Some \<lparr>job_RepoURL = repoURL, job_Spec = enr_spec enr,
                           job_DefaultBranch = enr_defaultBranch enr, job_Until = ts\<rparr>
                    else None)
               | _ \<Rightarrow> None)))"

text \<open>The provider's counter of degraded resolves and the jobs it handed to the backfiller.\<close>

record GitHubProvider =
  unknown :: int
  has_backfill :: bool
  enqueued :: "BackfillJob list"

definition GitHubProvider_Resolve :: "gh_api \<Rightarrow> GitHubProvider \<Rightarrow> Request \<Rightarrow> Info option \<times> GitHubProvider" where
  "GitHubProvider_Resolve api p req =
     (case Enrich api req of
        Inl e \<Rightarrow> (Some (empty_info\<lparr>Sha := req_Commit req, Repository := NormalizeRepoURL (req_Repository req)\<rparr>),
                  p\<lparr>unknown := unknown p + 1\<rparr>)
      | Inr (info, job) \<Rightarrow>
          (info, case job of
             Some j \<Rightarrow> (if has_backfill p then p\<lparr>enqueued := enqueued p @ [j]\<rparr> else p)
           | None \<Rightarrow> p))"

section \<open>Lemmas\<close>

lemma pages_from_result:
  assumes "\<And>k. k < n \<Longrightarrow> fetch (page + k) = Inr (bs k) \<and> 100 \<le> length (bs k)"
    "fetch (page + n) = Inr b" "length b < 100"
  shows "pages_from fetch page acc = Some (Inr (acc @ concat (map bs [0..<n]) @ b))"
  using assms
proof (induction n arbitrary: page acc bs)
  case 0
  then show ?case by (simp add: pages_from.simps)
next
  case (Suc n)
  have h: "fetch page = Inr (bs 0)" "100 \<le> length (bs 0)" using Suc.prems(1) [of 0] by auto
  have "pages_from fetch (Suc page) (acc @ bs 0) =
      Some (Inr ((acc @ bs 0) @ concat (map (\<lambda>k. bs (Suc k)) [0..<n]) @ b))"
    using Suc.prems(1) [of "Suc _"] Suc.prems(2,3) by (intro Suc.IH) auto
  then show ?case using h by (simp add: pages_from.simps [of fetch page] map_upt_Suc del: upt_Suc)
qed

lemma pages_from_error:
  assumes "\<And>k. k < n \<Longrightarrow> fetch (page + k) = Inr (bs k) \<and> 100 \<le> length (bs k)" "fetch (page + n) = Inl e"
  shows "pages_from fetch page acc = Some (Inl e)"
  using assms
proof (induction n arbitrary: page acc bs)
  case 0
  then show ?case by (simp add: pages_from.simps)
next
  case (Suc n)
  have "pages_from fetch (Suc page) (acc @ bs 0) = Some (Inl e)"
    using Suc.prems(1) [of "Suc _"] Suc.prems(2) by (intro Suc.IH [of _ "\<lambda>k. bs (Suc k)"]) auto
  then show ?case using Suc.prems(1) [of 0] by (simp add: pages_from.simps [of fetch page])
qed

lemma NormalizeRepoURL_no_slash: "NormalizeRepoURL r \<noteq> [] \<Longrightarrow> last (NormalizeRepoURL r) \<noteq> CHR ''/''"
  using trim_right_last [of "\<lambda>c. c = CHR ''/''"] by (auto simp: NormalizeRepoURL_def Let_def)

lemma trim_right_prefix: "has_prefix (trim_right P s) p \<Longrightarrow> has_prefix s p"
  using trim_right_split [of s P] by (metis append.assoc has_prefix_iff)

lemma NormalizeRepoURL_not_git: "cut_prefix (NormalizeRepoURL r) ''git@github.com:'' = None"
proof (cases "cut_prefix r ''git@github.com:''")
  case None
  then have "\<not> has_prefix r ''git@github.com:''" by (auto simp: cut_prefix_def split: if_splits)
  then show ?thesis using None trim_right_prefix
    by (auto simp: NormalizeRepoURL_def cut_prefix_def split: if_splits)
next
  case (Some rest)
  have "\<not> has_prefix (''https://github.com/'' @ rest) ''git@github.com:''" by (simp add: has_prefix_def)
  then show ?thesis using Some trim_right_prefix
    by (fastforce simp: NormalizeRepoURL_def cut_prefix_def split: if_splits)
qed

lemma NormalizeRepoURL_idem [simp]: "NormalizeRepoURL (NormalizeRepoURL r) = NormalizeRepoURL r"
proof -
  have "NormalizeRepoURL (NormalizeRepoURL r) = trim_right (\<lambda>c. c = CHR ''/'') (NormalizeRepoURL r)"
    using NormalizeRepoURL_not_git [of r] by (simp add: NormalizeRepoURL_def [of "NormalizeRepoURL r"])
  also have "\<dots> = NormalizeRepoURL r" using NormalizeRepoURL_no_slash by (intro trim_right_id) auto
  finally show ?thesis .
qed

section \<open>Properties\<close>

text \<open>
  Normalization of a repository URL is idempotent, leaves no trailing slash, and gives
  the ssh and the https spelling of a GitHub repository the same value.
\<close>

theorem NormalizeRepoURL_canonical:
  "NormalizeRepoURL (NormalizeRepoURL r) = NormalizeRepoURL r \<and>
   \<not> has_suffix (NormalizeRepoURL r) ''/'' \<and>
   NormalizeRepoURL (''git@github.com:'' @ rest) = NormalizeRepoURL (''https://github.com/'' @ rest)"
proof -
  have "cut_prefix (''git@github.com:'' @ rest) ''git@github.com:'' = Some rest" by (rule cut_prefix_append)
  moreover have "cut_prefix (''https://github.com/'' @ rest) ''git@github.com:'' = None"
    by (simp add: cut_prefix_def has_prefix_def)
  ultimately have "NormalizeRepoURL (''git@github.com:'' @ rest) = NormalizeRepoURL (''https://github.com/'' @ rest)"
    by (simp add: NormalizeRepoURL_def)
  moreover have "\<not> has_suffix (NormalizeRepoURL r) ''/''"
    using NormalizeRepoURL_no_slash [of r]
    by (cases "NormalizeRepoURL r" rule: rev_cases) (auto simp: has_suffix_def has_prefix_def)
  ultimately show ?thesis by simp
qed

text \<open>
  Resolving a commit never fails: for every behaviour of the GitHub API a request with a
  sha gets commit data with that sha and the normalized repository. A failed enrichment
  gives the bare row, is counted and enqueues nothing; a successful one takes the explicit
  branch before the pull request's and that before the default branch, and enqueues a
  backfill exactly when the commit is its own fork point.
\<close>

theorem GitHubProvider_Resolve_total:
  assumes "req_Commit req \<noteq> []"
  shows "\<exists>info p'. GitHubProvider_Resolve api p req = (Some info, p') \<and> Sha info = req_Commit req \<and>
    Repository info = NormalizeRepoURL (req_Repository req) \<and>
    (if unknown p' = unknown p
     then (req_Branch req \<noteq> [] \<longrightarrow> Branch info = Some (req_Branch req)) \<and>
       (if has_backfill p \<and> ForkPointSha info = Some (Sha info)
        then \<exists>j. enqueued p' = enqueued p @ [j] \<and> job_RepoURL j = Repository info \<and> Some (job_Until j) = Timestamp info
        else p' = p)
     else info = empty_info\<lparr>Sha := req_Commit req, Repository := NormalizeRepoURL (req_Repository req)\<rparr> \<and>
       p' = p\<lparr>unknown := unknown p + 1\<rparr>)"
proof (cases "Enrich api req")
  case (Inl e)
  then show ?thesis by (simp add: GitHubProvider_Resolve_def)
next
  case (Inr r)
  then obtain enr where enr: "enrich api (NormalizeRepoURL (req_Repository req)) req = Inr enr"
    using assms by (auto simp: Enrich_def Let_def split: sum.splits)
  have e: "Sha (enr_info enr) = req_Commit req"
    "Repository (enr_info enr) = NormalizeRepoURL (req_Repository req)"
    "req_Branch req \<noteq> [] \<longrightarrow> Branch (enr_info enr) = Some (req_Branch req)"
    "\<exists>ts fp. Timestamp (enr_info enr) = Some ts \<and> ForkPointSha (enr_info enr) = Some fp"
    using enr by (auto simp: enrich_def Let_def split: option.splits sum.splits if_splits)
  show ?thesis using assms enr e
    by (auto simp: GitHubProvider_Resolve_def Enrich_def Let_def split: if_splits)
qed

text \<open>An API on which every call succeeds, for the witnesses.\<close>

definition demo_api :: gh_api where
  "demo_api = \<lparr>api_commitInfo = (\<lambda>_ _. Inr \<lparr>p_Parent = None, p_Timestamp = 7, p_Message = ''m'',
      p_AuthorName = ''a'', p_AuthorLogin = None, p_AuthorAvatar = None\<rparr>),
     api_defaultBranch = (\<lambda>_. Inr ''o:main''), api_prBranch = (\<lambda>_ _. Inr ''o:pr''),
     api_mergeBase = (\<lambda>_ _ sha. Inr sha)\<rparr>"

theorem GitHubProvider_Resolve_total_witness:
  "\<exists>info p'. GitHubProvider_Resolve demo_api \<lparr>unknown = 0, has_backfill = True, enqueued = []\<rparr>
     \<lparr>req_Commit = ''abc'', req_Repository = ''git@github.com:o/r/'', req_ResultTimestamp = 0,
      req_Branch = [], req_PRNumber = None\<rparr> = (Some info, p') \<and> Repository info = ''https://github.com/o/r''"
proof -
  have "NormalizeRepoURL ''git@github.com:o/r/'' = ''https://github.com/o/r''" by code_simp
  then show ?thesis
    using GitHubProvider_Resolve_total [of "\<lparr>req_Commit = ''abc'', req_Repository = ''git@github.com:o/r/'',
      req_ResultTimestamp = 0, req_Branch = [], req_PRNumber = None\<rparr>" demo_api
      "\<lparr>unknown = 0, has_backfill = True, enqueued = []\<rparr>"] by auto
qed

text \<open>
  Listing the commits of a branch returns the concatenation of the pages up to the first
  one with fewer than a hundred commits, and the error of the first page that fails.
\<close>

theorem commitsOnBranch_pages:
  assumes "\<And>k. k < n \<Longrightarrow> \<exists>b. fetch (query_branch branch) (Suc k) = Inr b \<and> 100 \<le> length b"
  shows "case fetch (query_branch branch) (Suc n) of
      Inl e \<Rightarrow> commitsOnBranch fetch branch = Some (Inl e)
    | Inr b \<Rightarrow> length b < 100 \<longrightarrow> commitsOnBranch fetch branch =
        Some (Inr (concat (map (\<lambda>k. projr (fetch (query_branch branch) (Suc k))) [0..<Suc n])))"
proof -
  let ?f = "fetch (query_branch branch)"
  have full: "?f (1 + k) = Inr (projr (?f (Suc k))) \<and> 100 \<le> length (projr (?f (Suc k)))" if "k < n" for k
    using assms [OF that] by auto
  show ?thesis
  proof (cases "?f (Suc n)")
    case (Inl e)
    then show ?thesis using pages_from_error [of n ?f 1 "\<lambda>k. projr (?f (Suc k))" e "[]"] full
      by (simp add: commitsOnBranch_def)
  next
    case (Inr b)
    then show ?thesis using pages_from_result [of n ?f 1 "\<lambda>k. projr (?f (Suc k))" b "[]"] full
      by (simp add: commitsOnBranch_def)
  qed
qed

theorem commitsOnBranch_pages_witness:
  "commitsOnBranch (\<lambda>b k. Inr []) ''o:main'' = Some (Inr [])"
  using commitsOnBranch_pages [of 0 "\<lambda>b k. Inr []" "''o:main''"] by simp

end
