(* ===== verification/GitHubClient.thy ===== *)
theory GitHubClient
  imports Commit Float64
begin

text \<open>
  \<^verbatim>\<open>internal/commit/github_client.go\<close>, the request loop: one GET is an \<open>attempt\<close>, and
  \<open>getJSON\<close> repeats it with back-off, a rotating pool of tokens and one refresh of a
  renewable credential. What the network and the clock do in each round is a \<open>net_event\<close>;
  the loop consumes one event per attempt, and \<open>None\<close> means that it is still waiting when
  the given events are over.
\<close>

section \<open>Definitions\<close>

record client =
  tokens :: "string list"
  has_source :: bool
  cur :: nat

record http_response =
  status_code :: nat
  ratelimit_remaining :: string
  resp_body :: string

record net_event =
  ev_request_ok :: bool
  ev_source_token :: "string option"
  ev_response :: "http_response option"
  ev_read_ok :: bool
  ev_deadline :: bool

definition token :: "client \<Rightarrow> string option \<Rightarrow> string option" where
  "token c source =
     (if has_source c then source
      else if tokens c = [] then Some []
      else Some (tokens c ! (cur c mod length (tokens c))))"

definition handle403 :: "client \<Rightarrow> string \<Rightarrow> nat \<Rightarrow> client \<times> nat \<times> bool \<times> gh_error" where
  "handle403 c remaining rotations =
     (if remaining \<noteq> ''0'' then (c, rotations, True, RateLimited)
      else if length (tokens c) > 1 then
        (let c' = c\<lparr>cur := cur c + 1\<rparr>; rotations' = rotations + 1 in
         if rotations' \<le> length (tokens c) then (c', rotations', True, QuotaRotated)
         else (c', rotations', False, QuotaExhausted))
      else (c, rotations, False, QuotaExhausted))"

text \<open>The result of one GET: the body, or whether to try again and the error.\<close>

definition attempt :: "client \<Rightarrow> net_event \<Rightarrow> nat \<Rightarrow> client \<times> nat \<times> (string + bool \<times> gh_error)" where
  "attempt c ev rotations =
     (if \<not> ev_request_ok ev then (c, rotations, Inr (False, BuildRequest))
      else case token c (ev_source_token ev) of
        None \<Rightarrow> (c, rotations, Inr (False, TokenError))
      | Some tok \<Rightarrow>
     (case ev_response ev of
        None \<Rightarrow> (c, rotations, Inr (True, RequestFailed))
      | Some resp \<Rightarrow>
          (if \<not> ev_read_ok ev then (c, rotations, Inr (True, ReadFailed))
           else if status_code resp = 200 then (c, rotations, Inl (resp_body resp))
           else if status_code resp = 401 then (c, rotations, Inr (False, Unauthorized tok))
           else if status_code resp = 403 then
             (case handle403 c (ratelimit_remaining resp) rotations of
                (c', rotations', retryable, e) \<Rightarrow> (c', rotations', Inr (retryable, e)))
           else if status_code resp \<ge> 500 then (c, rotations, Inr (True, ServerError (status_code resp)))
           else (c, rotations, Inr (False, UnexpectedStatus (status_code resp))))))"

text \<open>
  The back-off in nanoseconds:
  \<open>time.Duration(math.Min(math.Exp2(float64(attempt))/3.0, 5.5) * float64(time.Second))\<close>.
\<close>

definition fmin :: "f64 \<Rightarrow> f64 \<Rightarrow> f64" where
  "fmin x y = (if flt y x then y else x)"

definition backoff :: "nat \<Rightarrow> int" where
  "backoff n = f_to_int (fmul (fmin (fdiv (rnd (2 ^ n)) (Fin 3)) (Fin (11/2))) (Fin 1000000000))"

record loop_state =
  lp_client :: client
  lp_rotations :: nat
  lp_refreshed :: bool
  lp_invalidated :: "string list"
  lp_waits :: "int list"

definition is_unauthorized :: "gh_error \<Rightarrow> string option" where
  "is_unauthorized e = (case e of Unauthorized tok \<Rightarrow> Some tok | _ \<Rightarrow> None)"

fun getJSON_loop :: "(string \<Rightarrow> 'a option) \<Rightarrow> loop_state \<Rightarrow> nat \<Rightarrow> net_event list \<Rightarrow>
    ((gh_error + 'a) \<times> loop_state \<times> nat) option" where
  "getJSON_loop unmarshal st n [] = None"
| "getJSON_loop unmarshal st n (ev # evs) =
     (case attempt (lp_client st) ev (lp_rotations st) of (c, rot, res) \<Rightarrow>
        let st1 = st\<lparr>lp_client := c, lp_rotations := rot\<rparr> in
        (case res of
           Inl body \<Rightarrow> (case unmarshal body of
              None \<Rightarrow> Some (Inl DecodeError, st1, n) | Some v \<Rightarrow> Some (Inr v, st1, n))
         | Inr (retryable, e) \<Rightarrow>
             (case (if has_source c \<and> \<not> lp_refreshed st then is_unauthorized e else None) of
                Some tok \<Rightarrow>
                  getJSON_loop unmarshal
                    (st1\<lparr>lp_invalidated := lp_invalidated st @ [tok], lp_refreshed := True\<rparr>) (n + 1) evs
              | None \<Rightarrow>
                  (if \<not> retryable then Some (Inl e, st1, n)
                   else if ev_deadline ev then Some (Inl (BudgetExceeded e), st1, n)
                   else getJSON_loop unmarshal
                          (st1\<lparr>lp_waits := lp_waits st @ [backoff n]\<rparr>) (n + 1) evs))))"

definition getJSON :: "(string \<Rightarrow> 'a option) \<Rightarrow> client \<Rightarrow> net_event list \<Rightarrow>
    ((gh_error + 'a) \<times> loop_state \<times> nat) option" where
  "getJSON unmarshal c evs = getJSON_loop unmarshal
     \<lparr>lp_client = c, lp_rotations = 0, lp_refreshed = False, lp_invalidated = [], lp_waits = []\<rparr> 1 evs"

section \<open>Lemmas\<close>

definition quota_403 :: "net_event \<Rightarrow> bool" where
  "quota_403 ev \<longleftrightarrow> ev_request_ok ev \<and> ev_read_ok ev \<and> \<not> ev_deadline ev \<and>
     (\<exists>r. ev_response ev = Some r \<and> status_code r = 403 \<and> ratelimit_remaining r = ''0'')"

lemma attempt_quota:
  assumes "quota_403 ev" "\<not> has_source c"
  shows "attempt c ev rot = (case handle403 c ''0'' rot of (c', rot', b, e) \<Rightarrow> (c', rot', Inr (b, e)))"
  using assms by (auto simp: attempt_def quota_403_def token_def split: prod.splits)

text \<open>The pool is walked through once: the loop from any number of rotations made.\<close>

lemma quota_loop:
  assumes "1 < length (tokens (lp_client st))" "\<not> has_source (lp_client st)"
    "lp_rotations st \<le> length (tokens (lp_client st))"
    "length evs = length (tokens (lp_client st)) + 1 - lp_rotations st" "\<forall>ev\<in>set evs. quota_403 ev"
  shows "\<exists>st'. getJSON_loop unmarshal st n evs = Some (Inl QuotaExhausted, st', n + length evs - 1) \<and>
    lp_client st' = (lp_client st)\<lparr>cur := cur (lp_client st) + length evs\<rparr> \<and>
    length (lp_waits st') = length (lp_waits st) + length evs - 1"
  using assms
proof (induction "length (tokens (lp_client st)) - lp_rotations st" arbitrary: st n evs)
  case 0
  then have rot: "lp_rotations st = length (tokens (lp_client st))" by simp
  with 0 obtain ev where evs: "evs = [ev]" by (cases evs) auto
  then have "quota_403 ev" using 0 by simp
  then show ?case using 0 rot evs
    by (auto simp: attempt_quota handle403_def is_unauthorized_def Let_def)
next
  case (Suc k)
  obtain ev rest where evs: "evs = ev # rest" using Suc.prems by (cases evs) auto
  define c where "c = (lp_client st)\<lparr>cur := cur (lp_client st) + 1\<rparr>"
  define st1 where "st1 = st\<lparr>lp_client := c, lp_rotations := lp_rotations st + 1,
     lp_waits := lp_waits st @ [backoff n]\<rparr>"
  have ev: "quota_403 ev" using Suc.prems evs by simp
  have lt: "lp_rotations st + 1 \<le> length (tokens (lp_client st))" using Suc.hyps(2) by simp
  have step: "getJSON_loop unmarshal st n evs = getJSON_loop unmarshal st1 (n + 1) rest"
    using Suc.prems lt ev evs
    by (auto simp: attempt_quota handle403_def is_unauthorized_def Let_def quota_403_def st1_def c_def)
  have "\<exists>st'. getJSON_loop unmarshal st1 (n + 1) rest = Some (Inl QuotaExhausted, st', n + 1 + length rest - 1) \<and>
    lp_client st' = (lp_client st1)\<lparr>cur := cur (lp_client st1) + length rest\<rparr> \<and>
    length (lp_waits st') = length (lp_waits st1) + length rest - 1"
    using Suc.prems Suc.hyps(2) evs lt by (intro Suc.hyps(1)) (auto simp: st1_def c_def)
  moreover have "rest \<noteq> []" using Suc.prems(4) evs lt by auto
  ultimately show ?case unfolding step by (auto simp: st1_def c_def evs neq_Nil_conv)
qed

text \<open>A token source is asked to renew at most once.\<close>

lemma refresh_once:
  "getJSON_loop unmarshal st n evs = Some (r, st', m) \<Longrightarrow>
   length (lp_invalidated st) \<le> (if lp_refreshed st then 1 else 0) \<Longrightarrow>
   length (lp_invalidated st') \<le> 1"
proof (induction unmarshal st n evs rule: getJSON_loop.induct)
  case (2 unmarshal st n ev evs)
  then show ?case
    by (auto simp: Let_def split: prod.splits sum.splits option.splits if_splits)
qed simp

lemma fle_Fin_iff: "fle (Fin a) x \<longleftrightarrow> x = PInf \<or> (is_fin x \<and> a \<le> val x)"
  by (cases x) (auto simp: fle_def)

lemma fdiv_three: assumes "fle (Fin 2) x" shows "fle (Fin (66/100)) (fdiv x (Fin 3))"
proof (cases "x = PInf")
  case False
  with assms have x: "is_fin x" "2 \<le> val x" by (auto simp: fle_Fin_iff)
  then have "fdiv x (Fin 3) = rnd (val x / 3)" by (cases x) (auto simp: fdiv_def Let_def)
  moreover have "fle (rnd (2/3)) (rnd (val x / 3))" using x by (intro rnd_mono) simp
  moreover have "fle (Fin (66/100)) (rnd (2/3))" by code_simp
  ultimately show ?thesis using fle_trans by metis
qed (simp add: fdiv_def Let_def finf_def fle_def)

lemma fmul_bounds:
  assumes "fle (Fin a) m" "fle m (Fin b)" "0 < a" "0 < c"
  shows "fle (rnd (a * c)) (fmul m (Fin c)) \<and> fle (fmul m (Fin c)) (rnd (b * c))"
proof -
  obtain v where v: "m = Fin v" "a \<le> v" "v \<le> b"
    using assms by (cases m) (auto simp: fle_def)
  then have "fmul m (Fin c) = rnd (v * c)" using assms by (auto simp: fmul_def Let_def)
  then show ?thesis using v assms(4) by (auto intro!: rnd_mono mult_right_mono)
qed

lemma backoff_bounds: assumes "1 \<le> n" shows "660000000 \<le> backoff n \<and> backoff n \<le> 5500000000"
proof -
  define m where "m = fmin (fdiv (rnd (2 ^ n)) (Fin 3)) (Fin (11/2))"
  have "(2::rat) ^ 1 \<le> 2 ^ n" using assms by (intro power_increasing) auto
  then have "fle (rnd (of_int 2)) (rnd (2 ^ n))" by (intro rnd_mono) simp
  then have "fle (Fin 2) (rnd (2 ^ n))" using rnd_int [of 2] by simp
  then have y: "fle (Fin (66/100)) (fdiv (rnd (2 ^ n)) (Fin 3))" by (rule fdiv_three)
  have lo: "fle (Fin (66/100)) m" using y by (simp add: m_def fmin_def)
  have hi: "fle m (Fin (11/2))"
    using y not_flt_iff_fle [of "Fin (11/2)"] fle_not_NaN [OF y] by (auto simp: m_def fmin_def)
  have "rnd (66/100 * 1000000000) = Fin 660000000" using rnd_int [of 660000000] by simp
  moreover have "rnd (11/2 * 1000000000) = Fin 5500000000" using rnd_int [of 5500000000] by simp
  ultimately have b: "fle (Fin 660000000) (fmul m (Fin 1000000000))" "fle (fmul m (Fin 1000000000)) (Fin 5500000000)"
    using fmul_bounds [OF lo hi, of 1000000000] by simp_all
  then obtain v where "fmul m (Fin 1000000000) = Fin v" "660000000 \<le> v" "v \<le> 5500000000"
    by (cases "fmul m (Fin 1000000000)") (auto simp: fle_def)
  then have "backoff n = \<lfloor>v\<rfloor>" by (simp add: backoff_def m_def f_to_int_def)
  with \<open>660000000 \<le> v\<close> \<open>v \<le> 5500000000\<close> show ?thesis by (simp add: le_floor_iff floor_le_iff)
qed

lemma waits_bounded:
  "getJSON_loop unmarshal st n evs = Some (r, st', m) \<Longrightarrow> 1 \<le> n \<Longrightarrow>
   \<forall>w\<in>set (lp_waits st). 660000000 \<le> w \<and> w \<le> 5500000000 \<Longrightarrow>
   \<forall>w\<in>set (lp_waits st'). 660000000 \<le> w \<and> w \<le> 5500000000"
proof (induction unmarshal st n evs rule: getJSON_loop.induct)
  case (2 unmarshal st n ev evs)
  note b = backoff_bounds [OF 2(4)]
  from 2 b show ?case
    by (auto simp: Let_def split: prod.splits sum.splits option.splits if_splits)
qed simp

section \<open>Properties\<close>

text \<open>
  When every token of a pool has used up its quota the request loop ends: it makes one
  attempt per token and one more, rotating to the next token each time, and reports that
  the quota is exhausted.
\<close>

theorem getJSON_quota_exhausted:
  assumes "1 < length (tokens c)" "\<not> has_source c" "length evs = length (tokens c) + 1"
    "\<forall>ev\<in>set evs. quota_403 ev"
  shows "\<exists>st. getJSON unmarshal c (evs @ later) = Some (Inl QuotaExhausted, st, length (tokens c) + 1) \<and>
    cur (lp_client st) = cur c + length (tokens c) + 1 \<and> length (lp_waits st) = length (tokens c)"
proof -
  have ext: "getJSON_loop unmarshal st n evs = Some x \<Longrightarrow> getJSON_loop unmarshal st n (evs @ later) = Some x"
    for st n and x :: "(gh_error + 'a) \<times> loop_state \<times> nat"
    by (induction unmarshal st n evs rule: getJSON_loop.induct)
       (auto simp: Let_def split: prod.splits sum.splits option.splits if_splits)
  show ?thesis
    using quota_loop [of "\<lparr>lp_client = c, lp_rotations = 0, lp_refreshed = False, lp_invalidated = [],
      lp_waits = []\<rparr>" evs unmarshal 1] assms
    by (auto simp: getJSON_def intro: ext)
qed

definition demo_quota_event :: net_event where
  "demo_quota_event = \<lparr>ev_request_ok = True, ev_source_token = None,
     ev_response = Some \<lparr>status_code = 403, ratelimit_remaining = ''0'', resp_body = []\<rparr>,
     ev_read_ok = True, ev_deadline = False\<rparr>"

theorem getJSON_quota_exhausted_witness:
  "\<exists>st. getJSON Some \<lparr>tokens = [''token1'', ''token2''], has_source = False, cur = 0\<rparr>
      [demo_quota_event, demo_quota_event, demo_quota_event] = Some (Inl QuotaExhausted, st, 3) \<and>
      cur (lp_client st) = 3"
proof -
  have q: "quota_403 demo_quota_event" by (simp add: quota_403_def demo_quota_event_def)
  show ?thesis
    using getJSON_quota_exhausted [of "\<lparr>tokens = [''token1'', ''token2''], has_source = False, cur = 0\<rparr>"
      "[demo_quota_event, demo_quota_event, demo_quota_event]" Some "[]"] q
    by (auto simp: numeral_3_eq_3 numeral_2_eq_2)
qed

text \<open>
  Whatever the network does, a call that ends has asked the token source to renew a
  rejected credential at most once, and every pause between its attempts lasted between
  0.66 and 5.5 seconds.
\<close>

theorem getJSON_bounded_retries:
  assumes "getJSON unmarshal c evs = Some (r, st, n)"
  shows "length (lp_invalidated st) \<le> 1 \<and> (\<forall>w\<in>set (lp_waits st). 660000000 \<le> w \<and> w \<le> 5500000000)"
  using refresh_once [OF assms [unfolded getJSON_def]] waits_bounded [OF assms [unfolded getJSON_def]] by simp

theorem getJSON_bounded_retries_witness:
  "\<exists>st. getJSON Some \<lparr>tokens = [], has_source = True, cur = 0\<rparr>
      [\<lparr>ev_request_ok = True, ev_source_token = Some ''old'', ev_response = Some \<lparr>status_code = 401,
          ratelimit_remaining = [], resp_body = []\<rparr>, ev_read_ok = True, ev_deadline = False\<rparr>,
       \<lparr>ev_request_ok = True, ev_source_token = Some ''new'', ev_response = Some \<lparr>status_code = 200,
          ratelimit_remaining = [], resp_body = ''ok''\<rparr>, ev_read_ok = True, ev_deadline = False\<rparr>]
      = Some (Inr ''ok'', st, 2) \<and> length (lp_invalidated st) \<le> 1 \<and> lp_invalidated st = [''old'']"
proof -
  let ?evs = "[\<lparr>ev_request_ok = True, ev_source_token = Some ''old'', ev_response = Some \<lparr>status_code = 401,
          ratelimit_remaining = [], resp_body = []\<rparr>, ev_read_ok = True, ev_deadline = False\<rparr>,
       \<lparr>ev_request_ok = True, ev_source_token = Some ''new'', ev_response = Some \<lparr>status_code = 200,
          ratelimit_remaining = [], resp_body = ''ok''\<rparr>, ev_read_ok = True, ev_deadline = False\<rparr>]"
  have "\<exists>st. getJSON Some \<lparr>tokens = [], has_source = True, cur = 0\<rparr> ?evs = Some (Inr ''ok'', st, 2) \<and>
      lp_invalidated st = [''old'']"
    by (simp add: getJSON_def attempt_def token_def is_unauthorized_def)
  then obtain st where st: "getJSON Some \<lparr>tokens = [], has_source = True, cur = 0\<rparr> ?evs = Some (Inr ''ok'', st, 2)"
      "lp_invalidated st = [''old'']" by blast
  from getJSON_bounded_retries [OF st(1)] st show ?thesis by blast
qed

end
