(* ===== verification/Backfill.thy ===== *)
theory Backfill
  imports Commit
begin

text \<open>
  \<^verbatim>\<open>internal/commit/backfill.go\<close>: the worker that catches up the ancestry of default
  branches. \<open>runOne\<close> works on the commit table of \<^verbatim>\<open>Store\<close>. The concurrent part is a step
  relation: \<open>Enqueue\<close>, the locked section of \<open>runLoop\<close> and \<open>Shutdown\<close> are atomic under
  the mutex, and a worker goroutine is a record of its repository, its job and whether
  \<open>runOne\<close> has finished with it.
\<close>

section \<open>One job\<close>

definition sinceBound :: "commit_row list \<Rightarrow> BackfillJob \<Rightarrow> time" where
  "sinceBound t job = (case LatestCommitTimestampOnBranch (job_RepoURL job) (job_DefaultBranch job) (job_Until job) t of
     None \<Rightarrow> 0 | Some ts \<Rightarrow> ts)"

definition insertOne ::
  "(string \<Rightarrow> time option) \<Rightarrow> BackfillJob \<Rightarrow> string result \<Rightarrow> commitJSON \<Rightarrow> commit_row list \<Rightarrow> bool \<times> commit_row list" where
  "insertOne parse_rfc3339 job genID cj t =
     (case parseCommit parse_rfc3339 cj of
        Inl e \<Rightarrow> (False, t)
      | Inr parsed \<Rightarrow>
          (case GetOrCreateCommit (\<lambda>t. t) (\<lambda>t. t) genID
             \<lparr>c_id = [], c_sha = j_Sha cj, c_parent = p_Parent parsed, c_repository = job_RepoURL job,
              c_message = p_Message parsed, c_author_name = p_AuthorName parsed,
              c_author_login = p_AuthorLogin parsed, c_author_avatar = p_AuthorAvatar parsed,
              c_timestamp = Some (p_Timestamp parsed), c_branch = Some (job_DefaultBranch job),
              c_fork_point_sha = Some (j_Sha cj)\<rparr> t of
             (Inl e, t') \<Rightarrow> (False, t')
           | (Inr i, t') \<Rightarrow> (True, t')))"

text \<open>The loop over the window; \<open>ids\<close> are the ids the generator hands out.\<close>

fun insert_all ::
  "(string \<Rightarrow> time option) \<Rightarrow> BackfillJob \<Rightarrow> (string result \<times> commitJSON) list \<Rightarrow> nat \<Rightarrow> commit_row list \<Rightarrow> nat \<times> commit_row list" where
  "insert_all parse job [] inserted t = (inserted, t)"
| "insert_all parse job ((g, cj) # cs) inserted t =
     (case insertOne parse job g cj t of (ok, t') \<Rightarrow>
        insert_all parse job cs (if ok then inserted + 1 else inserted) t')"

text \<open>\<open>fetch\<close> is the commit list of the API for the window \<open>since\<close> to \<open>until\<close>.\<close>

definition runOne ::
  "(string \<Rightarrow> time option) \<Rightarrow> (BackfillJob \<Rightarrow> time \<Rightarrow> gh_error + commitJSON list) \<Rightarrow> (nat \<Rightarrow> string result) \<Rightarrow>
   BackfillJob \<Rightarrow> commit_row list \<Rightarrow> nat \<times> commit_row list" where
  "runOne parse fetch genIDs job t =
     (case fetch job (sinceBound t job) of
        Inl e \<Rightarrow> (0, t)
      | Inr commits \<Rightarrow>
          (if length commits \<le> 2 then (0, t)
           else let window = take (length commits - 2) (drop 1 commits)
                in insert_all parse job (zip (map genIDs [0..<length window]) window) 0 t))"

section \<open>The worker\<close>

record repoState =
  running :: bool
  pending :: "BackfillJob list"

record worker =
  w_job :: BackfillJob
  w_done :: bool

record backfiller =
  state :: "string \<Rightarrow> repoState option"
  closed :: bool
  wg :: nat
  cancelled :: bool
  workers :: "worker list"
  accepted :: "BackfillJob list"
  finished :: "BackfillJob list"

definition NewBackfiller :: backfiller where
  "NewBackfiller = \<lparr>state = Map.empty, closed = False, wg = 0, cancelled = False, workers = [],
     accepted = [], finished = []\<rparr>"

definition Enqueue :: "BackfillJob \<Rightarrow> backfiller \<Rightarrow> backfiller" where
  "Enqueue job b =
     (if closed b then b
      else
        let st = (case state b (job_RepoURL job) of
                    None \<Rightarrow> \<lparr>running = False, pending = []\<rparr> | Some st \<Rightarrow> st);
            b = b\<lparr>accepted := accepted b @ [job]\<rparr> in
        if running st
        then b\<lparr>state := (state b)(job_RepoURL job \<mapsto> st\<lparr>pending := pending st @ [job]\<rparr>)\<rparr>
        else b\<lparr>state := (state b)(job_RepoURL job \<mapsto> st\<lparr>running := True\<rparr>), wg := wg b + 1,
               workers := workers b @ [\<lparr>w_job = job, w_done = False\<rparr>]\<rparr>)"

text \<open>A worker finishes \<open>runOne\<close>; then the locked section picks the next job or ends.\<close>

definition finish_job :: "nat \<Rightarrow> backfiller \<Rightarrow> backfiller" where
  "finish_job i b = b\<lparr>workers := (workers b)[i := (workers b ! i)\<lparr>w_done := True\<rparr>],
     finished := finished b @ [w_job (workers b ! i)]\<rparr>"

definition next_job :: "nat \<Rightarrow> backfiller \<Rightarrow> backfiller option" where
  "next_job i b =
     (let w = workers b ! i; repo = job_RepoURL (w_job w) in
      case state b repo of
        None \<Rightarrow> None
      | Some st \<Rightarrow>
          (case pending st of
             [] \<Rightarrow> Some (b\<lparr>state := (state b)(repo := None), wg := wg b - 1,
                        workers := take i (workers b) @ drop (Suc i) (workers b)\<rparr>)
           | job # rest \<Rightarrow> Some (b\<lparr>state := (state b)(repo \<mapsto> st\<lparr>pending := rest\<rparr>),
                                   workers := (workers b)[i := \<lparr>w_job = job, w_done = False\<rparr>]\<rparr>)))"

inductive step :: "backfiller \<Rightarrow> backfiller \<Rightarrow> bool" where
  step_enqueue: "step b (Enqueue job b)"
| step_finish: "i < length (workers b) \<Longrightarrow> \<not> w_done (workers b ! i) \<Longrightarrow> step b (finish_job i b)"
| step_next: "i < length (workers b) \<Longrightarrow> w_done (workers b ! i) \<Longrightarrow> next_job i b = Some b' \<Longrightarrow> step b b'"
| step_close: "step b (b\<lparr>closed := True\<rparr>)"
| step_drained: "closed b \<Longrightarrow> wg b = 0 \<Longrightarrow> step b (b\<lparr>cancelled := True\<rparr>)"
| step_deadline: "closed b \<Longrightarrow> step b (b\<lparr>cancelled := True\<rparr>)"

inductive reachable :: "backfiller \<Rightarrow> bool" where
  reach_init: "reachable NewBackfiller"
| reach_step: "reachable b \<Longrightarrow> step b b' \<Longrightarrow> reachable b'"

inductive_cases step_cases: "step b b'"

section \<open>Invariant\<close>

text \<open>
  The jobs of a repository still to be done, in order: the job of its worker, unless
  \<open>runOne\<close> is through with it, then the queue.
\<close>

definition repo_of :: "worker \<Rightarrow> string" where "repo_of w = job_RepoURL (w_job w)"

definition jobs_of :: "string \<Rightarrow> BackfillJob list \<Rightarrow> BackfillJob list" where
  "jobs_of repo js = filter (\<lambda>j. job_RepoURL j = repo) js"

definition todo :: "backfiller \<Rightarrow> string \<Rightarrow> BackfillJob list" where
  "todo b repo =
     map w_job (filter (\<lambda>w. repo_of w = repo \<and> \<not> w_done w) (workers b)) @
     (case state b repo of None \<Rightarrow> [] | Some st \<Rightarrow> pending st)"

definition bf_inv :: "backfiller \<Rightarrow> bool" where
  "bf_inv b \<longleftrightarrow>
     distinct (map repo_of (workers b)) \<and> wg b = length (workers b) \<and>
     (\<forall>repo. (state b repo \<noteq> None) = (repo \<in> repo_of ` set (workers b))) \<and>
     (\<forall>repo st. state b repo = Some st \<longrightarrow> running st \<and> (\<forall>j\<in>set (pending st). job_RepoURL j = repo)) \<and>
     (\<forall>repo. jobs_of repo (accepted b) = jobs_of repo (finished b) @ todo b repo)"

definition active :: "worker list \<Rightarrow> string \<Rightarrow> worker list" where
  "active ws repo = filter (\<lambda>w. repo_of w = repo \<and> \<not> w_done w) ws"

lemma split_at:
  assumes "distinct (map f ws)" "i < length ws"
  obtains xs ys where "ws = xs @ ws ! i # ys" "\<forall>w. ws[i := w] = xs @ w # ys"
    "take i ws @ drop (Suc i) ws = xs @ ys" "f (ws ! i) \<notin> f ` set (xs @ ys)"
proof (rule that [of "take i ws" "drop (Suc i) ws"])
  show s: "ws = take i ws @ ws ! i # drop (Suc i) ws" using assms(2) by (rule id_take_nth_drop)
  show "\<forall>w. ws[i := w] = take i ws @ w # drop (Suc i) ws" using assms(2) by (simp add: upd_conv_take_nth_drop)
  have "distinct (map f (take i ws @ ws ! i # drop (Suc i) ws))" using assms(1) s by metis
  then show "f (ws ! i) \<notin> f ` set (take i ws @ drop (Suc i) ws)" by auto
qed simp

lemma active_none: "repo \<notin> repo_of ` set ws \<Longrightarrow> active ws repo = []"
  by (auto simp: active_def filter_empty_conv)

lemma active_append: "active (xs @ ys) repo = active xs repo @ active ys repo"
  by (simp add: active_def)

lemma active_single: "active [w] repo = (if repo_of w = repo \<and> \<not> w_done w then [w] else [])"
  by (simp add: active_def)

lemma active_update:
  assumes "distinct (map repo_of ws)" "i < length ws" "repo_of w = repo_of (ws ! i)"
  shows "active (ws[i := w]) repo =
    (if repo = repo_of (ws ! i) then (if w_done w then [] else [w]) else active ws repo)"
    and "active ws (repo_of (ws ! i)) = (if w_done (ws ! i) then [] else [ws ! i])"
    and "active (take i ws @ drop (Suc i) ws) repo = (if repo = repo_of (ws ! i) then [] else active ws repo)"
    and "map repo_of (ws[i := w]) = map repo_of ws"
proof -
  obtain xs ys where s: "ws = xs @ ws ! i # ys" "\<forall>w. ws[i := w] = xs @ w # ys"
    "take i ws @ drop (Suc i) ws = xs @ ys" "repo_of (ws ! i) \<notin> repo_of ` set (xs @ ys)"
    by (rule split_at [OF assms(1,2)]) blast
  have n: "active xs (repo_of (ws ! i)) = []" "active ys (repo_of (ws ! i)) = []"
    using s(4) by (auto intro!: active_none)
  have a: "active (xs @ w # ys) r = active xs r @ active [w] r @ active ys r" for w r
    by (simp add: active_def)
  show "active (ws[i := w]) repo =
    (if repo = repo_of (ws ! i) then (if w_done w then [] else [w]) else active ws repo)"
    unfolding s(2) [rule_format] by (subst (2) s(1)) (auto simp: a n active_single assms(3))
  show "active ws (repo_of (ws ! i)) = (if w_done (ws ! i) then [] else [ws ! i])"
    by (subst s(1)) (auto simp: a n active_single)
  show "active (take i ws @ drop (Suc i) ws) repo = (if repo = repo_of (ws ! i) then [] else active ws repo)"
    unfolding s(3) by (subst (2) s(1)) (auto simp: a n active_single active_append [of xs ys])
  show "map repo_of (ws[i := w]) = map repo_of ws"
    using assms(2,3) by (metis list_update_id map_update)
qed

lemma todo_active: "todo b repo = map w_job (active (workers b) repo) @
    (case state b repo of None \<Rightarrow> [] | Some st \<Rightarrow> pending st)"
  by (simp add: todo_def active_def)

lemma jobs_of_snoc: "jobs_of repo (js @ [j]) = jobs_of repo js @ (if job_RepoURL j = repo then [j] else [])"
  by (simp add: jobs_of_def)

lemma bf_inv_init: "bf_inv NewBackfiller"
  by (simp add: bf_inv_def NewBackfiller_def jobs_of_def todo_def)

lemma bf_invD:
  assumes "bf_inv b"
  shows "distinct (map repo_of (workers b))" "wg b = length (workers b)"
    "(state b repo \<noteq> None) = (repo \<in> repo_of ` set (workers b))"
    "state b repo = Some st \<Longrightarrow> running st \<and> (\<forall>j\<in>set (pending st). job_RepoURL j = repo)"
    "jobs_of repo (accepted b) = jobs_of repo (finished b) @ todo b repo"
  using assms unfolding bf_inv_def by blast+

lemma bf_inv_enqueue:
  assumes inv: "bf_inv b" shows "bf_inv (Enqueue job b)"
proof (cases "closed b")
  case False
  let ?r = "job_RepoURL job"
  note I = bf_invD [OF inv]
  show ?thesis
  proof (cases "state b ?r")
    case None
    then have nw: "?r \<notin> repo_of ` set (workers b)" using I(3) by blast
    have e: "Enqueue job b = b\<lparr>accepted := accepted b @ [job], state := (state b)(?r \<mapsto> \<lparr>running = True, pending = []\<rparr>),
        wg := wg b + 1, workers := workers b @ [\<lparr>w_job = job, w_done = False\<rparr>]\<rparr>"
      using False None by (simp add: Enqueue_def Let_def)
    have td: "todo (Enqueue job b) repo = todo b repo @ (if ?r = repo then [job] else [])" for repo
      using None active_none [OF nw] by (auto simp: e todo_active active_append active_single repo_of_def)
    show ?thesis unfolding bf_inv_def
    proof (intro conjI allI impI)
      fix repo show "jobs_of repo (accepted (Enqueue job b)) = jobs_of repo (finished (Enqueue job b)) @ todo (Enqueue job b) repo"
        using I(5) [of repo] by (simp add: td) (simp add: e jobs_of_snoc)
    qed (use I nw in \<open>auto simp: e repo_of_def split: if_splits\<close>)
  next
    case (Some st)
    have run: "running st" "\<forall>j\<in>set (pending st). job_RepoURL j = ?r" using I(4) [OF Some] by auto
    have e: "Enqueue job b = b\<lparr>accepted := accepted b @ [job],
        state := (state b)(?r \<mapsto> st\<lparr>pending := pending st @ [job]\<rparr>)\<rparr>"
      using False Some run by (simp add: Enqueue_def Let_def)
    have td: "todo (Enqueue job b) repo = todo b repo @ (if ?r = repo then [job] else [])" for repo
      using Some by (auto simp: e todo_active)
    show ?thesis unfolding bf_inv_def
    proof (intro conjI allI impI)
      fix repo show "jobs_of repo (accepted (Enqueue job b)) = jobs_of repo (finished (Enqueue job b)) @ todo (Enqueue job b) repo"
        using I(5) [of repo] by (simp add: td) (simp add: e jobs_of_snoc)
    qed (use I run Some in \<open>auto simp: e split: if_splits\<close>)
  qed
qed (simp add: inv Enqueue_def)

lemma bf_inv_finish:
  assumes inv: "bf_inv b" and i: "i < length (workers b)" "\<not> w_done (workers b ! i)"
  shows "bf_inv (finish_job i b)"
proof -
  note I = bf_invD [OF inv]
  let ?w = "(workers b ! i)\<lparr>w_done := True\<rparr>" and ?r = "repo_of (workers b ! i)"
  have rw: "repo_of ?w = ?r" by (simp add: repo_of_def)
  note A = active_update [OF I(1) i(1) rw]
  have td: "todo b repo = (if repo = ?r then [w_job (workers b ! i)] else []) @ todo (finish_job i b) repo" for repo
    using A(1,2) i(2) by (auto simp: todo_active finish_job_def)
  show ?thesis unfolding bf_inv_def
  proof (intro conjI allI impI)
    fix repo show "jobs_of repo (accepted (finish_job i b)) = jobs_of repo (finished (finish_job i b)) @ todo (finish_job i b) repo"
      using I(5) [of repo] td [of repo] by (auto simp: finish_job_def jobs_of_snoc repo_of_def)
  next
    fix repo
    have "repo_of ` set ((workers b)[i := ?w]) = repo_of ` set (workers b)" using A(4) by (metis set_map)
    then show "(state (finish_job i b) repo \<noteq> None) = (repo \<in> repo_of ` set (workers (finish_job i b)))"
      using I(3) by (simp add: finish_job_def)
  qed (use I A(4) in \<open>auto simp: finish_job_def\<close>)
qed

lemma bf_inv_next:
  assumes inv: "bf_inv b" and i: "i < length (workers b)" "w_done (workers b ! i)" and n: "next_job i b = Some b'"
  shows "bf_inv b'"
proof -
  note I = bf_invD [OF inv]
  let ?r = "repo_of (workers b ! i)"
  obtain st where st: "state b ?r = Some st" using I(3) [of ?r] i(1) by auto
  have pst: "running st" "\<forall>j\<in>set (pending st). job_RepoURL j = ?r" using I(4) [OF st] by auto
  show ?thesis
  proof (cases "pending st")
    case Nil
    then have b': "b' = b\<lparr>state := (state b)(?r := None), wg := wg b - 1,
        workers := take i (workers b) @ drop (Suc i) (workers b)\<rparr>"
      using n st by (simp add: next_job_def Let_def repo_of_def)
    obtain xs ys where s: "workers b = xs @ workers b ! i # ys"
      "take i (workers b) @ drop (Suc i) (workers b) = xs @ ys" "?r \<notin> repo_of ` set (xs @ ys)"
      using split_at [OF I(1) i(1)] by metis
    have ws: "repo_of ` set (workers b) = insert ?r (repo_of ` set (xs @ ys))" by (subst s(1)) auto
    have d: "distinct (map repo_of (xs @ ys))" using I(1) by (subst (asm) s(1)) auto
    have td: "todo b' repo = todo b repo" for repo
      using active_update(3) [OF I(1) i(1) refl] active_update(2) [OF I(1) i(1) refl] i(2) st Nil
      by (auto simp: todo_active b')
    show ?thesis unfolding bf_inv_def
    proof (intro conjI allI impI)
      fix repo
      show "(state b' repo \<noteq> None) = (repo \<in> repo_of ` set (workers b'))"
        using I(3) [of repo] s(2,3) ws by (auto simp: b')
      show "jobs_of repo (accepted b') = jobs_of repo (finished b') @ todo b' repo"
        using I(5) [of repo] by (simp add: td) (simp add: b')
    next
      show "distinct (map repo_of (workers b'))" using d s(2) by (simp add: b')
      show "wg b' = length (workers b')" using I(2) i(1) by (simp add: b')
    qed (use I(4) in \<open>auto simp: b' split: if_splits\<close>)
  next
    case (Cons job rest)
    let ?w = "\<lparr>w_job = job, w_done = False\<rparr>"
    have rw: "repo_of ?w = ?r" using pst(2) Cons by (simp add: repo_of_def)
    have b': "b' = b\<lparr>state := (state b)(?r \<mapsto> st\<lparr>pending := rest\<rparr>), workers := (workers b)[i := ?w]\<rparr>"
      using n st Cons by (simp add: next_job_def Let_def repo_of_def)
    note A = active_update [OF I(1) i(1) rw]
    have td: "todo b' repo = todo b repo" for repo
      using A(1,2) i(2) st Cons by (auto simp: todo_active b')
    have ws: "repo_of ` set ((workers b)[i := ?w]) = repo_of ` set (workers b)" using A(4) by (metis set_map)
    show ?thesis unfolding bf_inv_def
    proof (intro conjI allI impI)
      fix repo
      show "(state b' repo \<noteq> None) = (repo \<in> repo_of ` set (workers b'))"
        using I(3) [of repo] I(3) [of ?r] st ws by (auto simp: b')
      show "jobs_of repo (accepted b') = jobs_of repo (finished b') @ todo b' repo"
        using I(5) [of repo] by (simp add: td) (simp add: b')
    next
      show "distinct (map repo_of (workers b'))" using I(1) A(4) by (simp add: b')
      show "wg b' = length (workers b')" using I(2) by (simp add: b')
    qed (use I(4) pst Cons in \<open>auto simp: b' split: if_splits\<close>)
  qed
qed

lemma bf_inv_flags: "bf_inv b \<Longrightarrow> bf_inv (b\<lparr>closed := c\<rparr>)" "bf_inv b \<Longrightarrow> bf_inv (b\<lparr>cancelled := c\<rparr>)"
  by (simp_all add: bf_inv_def todo_def)

lemma reachable_inv: "reachable b \<Longrightarrow> bf_inv b"
proof (induction rule: reachable.induct)
  case (reach_step b b')
  from reach_step(2) show ?case
    by cases (use reach_step(3) in \<open>auto intro: bf_inv_enqueue bf_inv_finish bf_inv_next bf_inv_flags\<close>)
qed (rule bf_inv_init)

section \<open>Draining\<close>

text \<open>The steps of the worker goroutines, and the work they have left.\<close>

definition worker_step :: "backfiller \<Rightarrow> backfiller \<Rightarrow> bool" where
  "worker_step b b' \<longleftrightarrow> (\<exists>i < length (workers b).
     if w_done (workers b ! i) then next_job i b = Some b' else b' = finish_job i b)"

definition queue_of :: "backfiller \<Rightarrow> worker \<Rightarrow> BackfillJob list" where
  "queue_of b w = (case state b (repo_of w) of None \<Rightarrow> [] | Some st \<Rightarrow> pending st)"

definition work :: "backfiller \<Rightarrow> nat" where
  "work b = sum_list (map (\<lambda>w. (if w_done w then 1 else 2) + 2 * length (queue_of b w)) (workers b))"

lemma worker_step_step: "worker_step b b' \<Longrightarrow> step b b'"
  by (auto simp: worker_step_def split: if_splits intro: step_finish step_next)

lemma worker_step_exists: "bf_inv b \<Longrightarrow> workers b \<noteq> [] \<Longrightarrow> \<exists>b'. worker_step b b'"
proof -
  assume inv: "bf_inv b" "workers b \<noteq> []"
  then have i: "0 < length (workers b)" by simp
  have "state b (repo_of (workers b ! 0)) \<noteq> None" using bf_invD(3) [OF inv(1)] i by force
  then have "w_done (workers b ! 0) \<Longrightarrow> \<exists>b'. next_job 0 b = Some b'"
    by (auto simp: next_job_def Let_def repo_of_def split: option.splits list.splits)
  then show ?thesis unfolding worker_step_def using i
    by (cases "w_done (workers b ! 0)") (metis, metis)
qed

lemma worker_step_work:
  assumes inv: "bf_inv b" and ws: "worker_step b b'"
  shows "work b' < work b"
proof -
  note I = bf_invD [OF inv]
  obtain i where i: "i < length (workers b)"
    "if w_done (workers b ! i) then next_job i b = Some b' else b' = finish_job i b"
    using ws by (auto simp: worker_step_def)
  obtain xs ys where s: "workers b = xs @ workers b ! i # ys" "\<forall>w. (workers b)[i := w] = xs @ w # ys"
    "take i (workers b) @ drop (Suc i) (workers b) = xs @ ys"
    "repo_of (workers b ! i) \<notin> repo_of ` set (xs @ ys)"
    by (rule split_at [OF I(1) i(1)]) blast
  let ?m = "\<lambda>b w. (if w_done w then 1 else 2) + 2 * length (queue_of b w) :: nat"
  have wb: "work b = sum_list (map (?m b) xs) + ?m b (workers b ! i) + sum_list (map (?m b) ys)"
    unfolding work_def by (subst s(1)) simp
  show ?thesis
  proof (cases "w_done (workers b ! i)")
    case False
    then have b': "b' = finish_job i b" using i(2) by simp
    then have "queue_of b' w = queue_of b w" for w by (simp add: queue_of_def finish_job_def)
    moreover have "workers b' = xs @ (workers b ! i)\<lparr>w_done := True\<rparr> # ys"
      using s(2) by (simp add: b' finish_job_def)
    moreover have "queue_of b ((workers b ! i)\<lparr>w_done := True\<rparr>) = queue_of b (workers b ! i)"
      by (simp add: queue_of_def repo_of_def)
    ultimately show ?thesis using False wb by (simp add: work_def)
  next
    case True
    let ?r = "repo_of (workers b ! i)"
    obtain st where st: "state b ?r = Some st" using I(3) [of ?r] i(1) by auto
    have n: "next_job i b = Some b'" using True i(2) by simp
    have q: "sum_list (map (?m b') zs) = sum_list (map (?m b) zs)" if "\<And>r. r \<noteq> ?r \<Longrightarrow> state b' r = state b r" "set zs \<subseteq> set (xs @ ys)" for zs
    proof -
      have "queue_of b' w = queue_of b w" if "w \<in> set zs" for w
      proof -
        have "repo_of w \<noteq> ?r" using that \<open>set zs \<subseteq> set (xs @ ys)\<close> s(4)
          by (metis imageI subsetD)
        then show ?thesis using \<open>\<And>r. r \<noteq> ?r \<Longrightarrow> state b' r = state b r\<close> by (simp add: queue_of_def)
      qed
      then show ?thesis by (intro arg_cong [of _ _ sum_list] map_cong) auto
    qed
    show ?thesis
    proof (cases "pending st")
      case Nil
      then have b': "b' = b\<lparr>state := (state b)(?r := None), wg := wg b - 1,
          workers := take i (workers b) @ drop (Suc i) (workers b)\<rparr>"
        using n st by (simp add: next_job_def Let_def repo_of_def)
      then have "workers b' = xs @ ys" using s(3) by simp
      then have "work b' = sum_list (map (?m b') xs) + sum_list (map (?m b') ys)" by (simp add: work_def)
      moreover have "\<And>r. r \<noteq> ?r \<Longrightarrow> state b' r = state b r" by (simp add: b')
      ultimately show ?thesis using wb q [of xs] q [of ys] True by simp
    next
      case (Cons job rest)
      let ?w = "\<lparr>w_job = job, w_done = False\<rparr>"
      have b': "b' = b\<lparr>state := (state b)(?r \<mapsto> st\<lparr>pending := rest\<rparr>), workers := (workers b)[i := ?w]\<rparr>"
        using n st Cons by (simp add: next_job_def Let_def repo_of_def)
      have "job_RepoURL job = ?r" using I(4) [OF st] Cons by simp
      then have "queue_of b' ?w = rest" "queue_of b (workers b ! i) = job # rest"
        using st Cons by (simp_all add: queue_of_def b' repo_of_def)
      moreover have "workers b' = xs @ ?w # ys" using s(2) by (simp add: b')
      then have "work b' = sum_list (map (?m b') xs) + ?m b' ?w + sum_list (map (?m b') ys)" by (simp add: work_def)
      moreover have "\<And>r. r \<noteq> ?r \<Longrightarrow> state b' r = state b r" by (simp add: b')
      ultimately show ?thesis using wb q [of xs] q [of ys] True by simp
    qed
  qed
qed

lemma worker_step_accepted: "worker_step b b' \<Longrightarrow> accepted b' = accepted b"
  by (auto simp: worker_step_def finish_job_def next_job_def Let_def split: if_splits option.splits list.splits)

lemma drain:
  "reachable b \<Longrightarrow> \<exists>b'. worker_step\<^sup>*\<^sup>* b b' \<and> reachable b' \<and> workers b' = [] \<and> accepted b' = accepted b"
proof (induction "work b" arbitrary: b rule: less_induct)
  case less
  show ?case
  proof (cases "workers b = []")
    case False
    have inv: "bf_inv b" using less(2) by (rule reachable_inv)
    obtain b1 where b1: "worker_step b b1" using worker_step_exists [OF inv False] by blast
    have "reachable b1" using less(2) worker_step_step [OF b1] by (rule reach_step)
    then obtain b' where "worker_step\<^sup>*\<^sup>* b1 b'" "reachable b'" "workers b' = []" "accepted b' = accepted b1"
      using less(1) [OF worker_step_work [OF inv b1]] by blast
    then show ?thesis using b1 worker_step_accepted [OF b1]
      by (metis converse_rtranclp_into_rtranclp)
  qed (use less(2) in auto)
qed

section \<open>Inserting a window\<close>

text \<open>With no other transaction, get-or-create leaves the table alone or appends the row.\<close>

lemma GetOrCreateCommit_alone:
  "GetOrCreateCommit (\<lambda>t. t) (\<lambda>t. t) g p t = (r, t') \<Longrightarrow>
   t' = t \<or> (\<exists>i. t' = t @ [p\<lparr>c_id := i\<rparr>] \<and> i \<notin> c_id ` set t \<and> commit_key p \<notin> commit_key ` set t)"
  by (auto simp: GetOrCreateCommit_def getOrCreate_def InsertCommit_def insert_nothing_def commit_key_def Let_def
      split: sum.splits if_splits prod.splits)

definition backfilled :: "BackfillJob \<Rightarrow> commitJSON list \<Rightarrow> commit_row \<Rightarrow> bool" where
  "backfilled job cs r \<longleftrightarrow> c_repository r = job_RepoURL job \<and> c_branch r = Some (job_DefaultBranch job) \<and>
     c_fork_point_sha r = Some (c_sha r) \<and> c_timestamp r \<noteq> None \<and> c_sha r \<in> j_Sha ` set cs"

lemma insertOne_spec:
  assumes "insertOne parse job g cj t = (ok, t')"
  shows "\<exists>new. t' = t @ new \<and> (\<forall>r\<in>set new. backfilled job [cj] r) \<and> (commit_table.uniq t \<longrightarrow> commit_table.uniq t')"
proof (cases "parseCommit parse cj")
  case (Inr parsed)
  then obtain p r where p: "GetOrCreateCommit (\<lambda>t. t) (\<lambda>t. t) g p t = (r, t')"
    "c_sha p = j_Sha cj" "c_repository p = job_RepoURL job" "c_branch p = Some (job_DefaultBranch job)"
    "c_fork_point_sha p = Some (j_Sha cj)" "c_timestamp p \<noteq> None"
    using assms by (auto simp: insertOne_def split: prod.splits sum.splits)
  from GetOrCreateCommit_alone [OF p(1)] show ?thesis
    using p(2-6) by (auto simp: backfilled_def commit_table.uniq_def commit_key_def image_iff)
qed (use assms in \<open>auto simp: insertOne_def\<close>)

lemma insert_all_spec:
  "insert_all parse job cs n t = (m, t') \<Longrightarrow>
   m \<le> n + length cs \<and> (\<exists>new. t' = t @ new \<and> (\<forall>r\<in>set new. backfilled job (map snd cs) r)) \<and>
   (commit_table.uniq t \<longrightarrow> commit_table.uniq t')"
proof (induction parse job cs n t arbitrary: m t' rule: insert_all.induct)
  case (2 parse job g cj cs n t)
  obtain ok t1 where o: "insertOne parse job g cj t = (ok, t1)" by fastforce
  then have r: "insert_all parse job cs (if ok then n + 1 else n) t1 = (m, t')" using 2(2) by simp
  have m: "m \<le> (if ok then n + 1 else n) + length cs" and u: "commit_table.uniq t1 \<longrightarrow> commit_table.uniq t'"
    and e: "\<exists>new. t' = t1 @ new \<and> (\<forall>r\<in>set new. backfilled job (map snd cs) r)"
    using 2(1) [OF o [symmetric] r] by blast+
  obtain new1 where n1: "t1 = t @ new1" "\<forall>r\<in>set new1. backfilled job [cj] r"
    "commit_table.uniq t \<longrightarrow> commit_table.uniq t1" using insertOne_spec [OF o] by blast
  obtain new2 where n2: "t' = t1 @ new2" "\<forall>r\<in>set new2. backfilled job (map snd cs) r" using e by blast
  have "t' = t @ (new1 @ new2)" "\<forall>r\<in>set (new1 @ new2). backfilled job (map snd ((g, cj) # cs)) r"
    using n1 n2 by (auto simp: backfilled_def)
  then show ?case using m u n1(3) by (auto split: if_splits)
qed auto

section \<open>Properties\<close>

text \<open>
  C3: In every reachable state each repository has at most one worker, the wait group counts
  the workers, a repository has an entry exactly while it has a worker, and its jobs are
  finished in the order they were accepted: accepted are the finished ones, then the
  running one, then the queue.
\<close>

theorem Backfiller_invariant:
  assumes "reachable b"
  shows "distinct (map repo_of (workers b)) \<and> wg b = length (workers b) \<and>
    (\<forall>repo. (state b repo \<noteq> None) = (repo \<in> repo_of ` set (workers b))) \<and>
    (\<forall>repo. jobs_of repo (accepted b) = jobs_of repo (finished b) @ todo b repo)"
  using bf_invD [OF reachable_inv [OF assms]] by blast

text \<open>A state with one job running and one queued.\<close>

definition demo_job :: "time \<Rightarrow> BackfillJob" where
  "demo_job t = \<lparr>job_RepoURL = ''https://github.com/o/r'', job_Spec = ''o/r'',
     job_DefaultBranch = ''o:main'', job_Until = t\<rparr>"

definition demo_backfiller :: backfiller where
  "demo_backfiller = Enqueue (demo_job 2) (Enqueue (demo_job 1) NewBackfiller)"

lemma demo_backfiller_reachable: "reachable demo_backfiller"
  unfolding demo_backfiller_def by (intro reach_step [OF _ step_enqueue] reach_init)

theorem Backfiller_invariant_witness:
  "wg demo_backfiller = 1 \<and> jobs_of ''https://github.com/o/r'' (accepted demo_backfiller) = [demo_job 1, demo_job 2] \<and>
   jobs_of ''https://github.com/o/r'' (accepted demo_backfiller) =
     jobs_of ''https://github.com/o/r'' (finished demo_backfiller) @ todo demo_backfiller ''https://github.com/o/r''"
proof -
  have "wg demo_backfiller = 1" "jobs_of ''https://github.com/o/r'' (accepted demo_backfiller) = [demo_job 1, demo_job 2]"
    by (simp_all add: demo_backfiller_def Enqueue_def NewBackfiller_def demo_job_def jobs_of_def)
  then show ?thesis using Backfiller_invariant [OF demo_backfiller_reachable] by blast
qed

text \<open>
  C29: The backfiller always drains, however its workers are scheduled: as long as the wait
  group is not zero some worker can take a step, every worker step leaves less work, and
  once the wait group is zero every accepted job has been run and no repository has an
  entry left. A job offered after the shutdown began changes nothing.
\<close>

theorem Backfiller_drains:
  assumes "reachable b"
  shows "(0 < wg b \<longrightarrow> (\<exists>b'. worker_step b b')) \<and>
    (\<forall>b'. worker_step b b' \<longrightarrow> work b' < work b \<and> accepted b' = accepted b \<and> reachable b') \<and>
    (wg b = 0 \<longrightarrow> (\<forall>repo. jobs_of repo (finished b) = jobs_of repo (accepted b) \<and> state b repo = None)) \<and>
    (\<exists>b'. worker_step\<^sup>*\<^sup>* b b' \<and> wg b' = 0 \<and> (\<forall>repo. jobs_of repo (finished b') = jobs_of repo (accepted b))) \<and>
    (closed b \<longrightarrow> Enqueue job b = b)"
proof -
  have fin: "jobs_of repo (finished c) = jobs_of repo (accepted c) \<and> state c repo = None"
    if "reachable c" "wg c = 0" for c repo
  proof -
    note I = bf_invD [OF reachable_inv [OF that(1)]]
    have "workers c = []" using I(2) that(2) by simp
    then show ?thesis using I(3) [of repo] I(5) [of repo] by (simp add: todo_def)
  qed
  obtain b' where b': "worker_step\<^sup>*\<^sup>* b b'" "reachable b'" "workers b' = []" "accepted b' = accepted b"
    using drain [OF assms] by blast
  have "wg b' = 0" using bf_invD(2) [OF reachable_inv [OF b'(2)]] b'(3) by simp
  moreover have "wg b = length (workers b)" using bf_invD(2) [OF reachable_inv [OF assms]] .
  moreover have "closed b \<longrightarrow> Enqueue job b = b" by (simp add: Enqueue_def)
  ultimately show ?thesis
    using fin [OF assms] fin [OF b'(2)] b' worker_step_exists [OF reachable_inv [OF assms]]
      worker_step_work [OF reachable_inv [OF assms]] worker_step_accepted [of b]
      reach_step [OF assms worker_step_step] by (metis list.size(3) less_numeral_extra(3))
qed

theorem Backfiller_drains_witness:
  "\<exists>b'. worker_step\<^sup>*\<^sup>* demo_backfiller b' \<and> wg b' = 0 \<and>
     jobs_of ''https://github.com/o/r'' (finished b') = [demo_job 1, demo_job 2]"
proof -
  have "jobs_of ''https://github.com/o/r'' (accepted demo_backfiller) = [demo_job 1, demo_job 2]"
    by (simp add: demo_backfiller_def Enqueue_def NewBackfiller_def demo_job_def jobs_of_def)
  then show ?thesis using Backfiller_drains [OF demo_backfiller_reachable] by metis
qed

text \<open>
  One backfill job only adds rows, at most as many as the fetched window has inside its
  two ends; every new row belongs to the job's repository and default branch, is its own
  fork point and has the sha of a commit strictly inside the window. The table keeps one
  row per commit.
\<close>

theorem runOne_window:
  assumes "runOne parse fetch gens job t = (n, t')"
  shows "\<exists>new. t' = t @ new \<and> (commit_table.uniq t \<longrightarrow> commit_table.uniq t') \<and>
    (case fetch job (sinceBound t job) of
       Inl e \<Rightarrow> new = []
     | Inr cs \<Rightarrow> n \<le> length cs - 2 \<and>
         (\<forall>r\<in>set new. c_repository r = job_RepoURL job \<and> c_branch r = Some (job_DefaultBranch job) \<and>
            c_fork_point_sha r = Some (c_sha r) \<and> (\<exists>k. 0 < k \<and> k < length cs - 1 \<and> c_sha r = j_Sha (cs ! k))))"
proof (cases "fetch job (sinceBound t job)")
  case (Inr cs)
  show ?thesis
  proof (cases "length cs \<le> 2")
    case False
    define win where "win = take (length cs - 2) (drop 1 cs)"
    have lw: "length win = length cs - 2" using False by (simp add: win_def)
    let ?z = "zip (map gens [0..<length win]) win"
    have ia: "insert_all parse job ?z 0 t = (n, t')"
      using assms Inr False by (simp add: runOne_def Let_def win_def)
    have z: "map snd ?z = win" "length ?z = length cs - 2" using lw by simp_all
    obtain new where new: "t' = t @ new" "\<forall>r\<in>set new. backfilled job win r" "n \<le> length cs - 2"
      "commit_table.uniq t \<longrightarrow> commit_table.uniq t'"
      using insert_all_spec [OF ia] unfolding z by auto
    have "\<exists>k. 0 < k \<and> k < length cs - 1 \<and> c_sha r = j_Sha (cs ! k)" if r: "r \<in> set new" for r
    proof -
      have "c_sha r \<in> j_Sha ` set win" using new(2) r by (simp add: backfilled_def)
      then obtain c where "c \<in> set win" "c_sha r = j_Sha c" by blast
      then obtain i where i: "i < length win" "c_sha r = j_Sha (win ! i)" by (metis in_set_conv_nth)
      then have "win ! i = cs ! Suc i" using lw by (simp add: win_def)
      then show ?thesis using i lw by (intro exI [of _ "Suc i"]) auto
    qed
    then show ?thesis using new Inr by (intro exI [of _ new]) (auto simp: backfilled_def)
  qed (use assms Inr in \<open>auto simp: runOne_def\<close>)
qed (use assms in \<open>auto simp: runOne_def\<close>)

theorem runOne_window_witness:
  "\<exists>new. runOne (\<lambda>_. Some 5) (\<lambda>_ _. Inr (map (\<lambda>s. \<lparr>j_Sha = s, j_CommitAuthorName = [], j_CommitAuthorDate = [],
       j_Message = [], j_Author = None, j_Parents = []\<rparr>) [''c3'', ''c2'', ''c1'']))
     (\<lambda>_. Inr ''id1'') (demo_job 9) [] = (1, new) \<and> (\<forall>r\<in>set new. c_sha r = ''c2'')"
proof -
  let ?cs = "map (\<lambda>s. \<lparr>j_Sha = s, j_CommitAuthorName = [], j_CommitAuthorDate = [],
       j_Message = [], j_Author = None, j_Parents = []\<rparr>) [''c3'', ''c2'', ''c1'']"
  let ?r = "runOne (\<lambda>_. Some 5) (\<lambda>_ _. Inr ?cs) (\<lambda>_. Inr ''id1'') (demo_job 9) []"
  have one: "fst ?r = 1"
    by (simp add: runOne_def insertOne_def parseCommit_def GetOrCreateCommit_def getOrCreate_def
        GetCommitByShaRepo_def select_id_def InsertCommit_def insert_nothing_def)
  then have e: "?r = (1, snd ?r)" by (metis prod.collapse)
  have "\<forall>r\<in>set (snd ?r). \<exists>k. 0 < k \<and> k < 2 \<and> c_sha r = j_Sha (?cs ! k)"
    using runOne_window [OF e] by (auto simp: numeral_2_eq_2)
  moreover have "k = 1" if "0 < k" "k < 2" for k :: nat using that by simp
  ultimately have "\<forall>r\<in>set (snd ?r). c_sha r = ''c2''" by force
  then show ?thesis using e by metis
qed

end
