(* ===== verification/Encoding.thy ===== *)
theory Encoding
  imports Text
begin

text \<open>
  The encodings of Go's standard library that the code relies on: \<open>base64.RawURLEncoding\<close>,
  \<open>strconv.ParseInt\<close> against \<open>strconv.FormatInt\<close>, and the base 62 digits of \<open>math/big\<close>,
  each with its round trip.
\<close>

section \<open>Base64, URL alphabet, no padding\<close>

definition b64_alphabet :: string where
  "b64_alphabet = ''ABCDEFGHIJKLMNOPQRSTUVWXYZabcdefghijklmnopqrstuvwxyz0123456789-_''"

definition b64_char :: "nat \<Rightarrow> char" where "b64_char k = b64_alphabet ! k"

fun index_of :: "char \<Rightarrow> string \<Rightarrow> nat option" where
  "index_of c [] = None"
| "index_of c (x # xs) = (if c = x then Some 0 else map_option Suc (index_of c xs))"

definition b64_index :: "char \<Rightarrow> nat option" where "b64_index c = index_of c b64_alphabet"

definition byte :: "char \<Rightarrow> nat" where "byte c = of_char c"
definition chr :: "nat \<Rightarrow> char" where "chr n = char_of n"

fun b64_encode :: "string \<Rightarrow> string" where
  "b64_encode (a # b # c # r) =
     (let n = byte a * 65536 + byte b * 256 + byte c in
      [b64_char (n div 262144), b64_char (n div 4096 mod 64), b64_char (n div 64 mod 64), b64_char (n mod 64)]
      @ b64_encode r)"
| "b64_encode [a, b] =
     (let n = byte a * 65536 + byte b * 256 in
      [b64_char (n div 262144), b64_char (n div 4096 mod 64), b64_char (n div 64 mod 64)])"
| "b64_encode [a] =
     (let n = byte a * 65536 in [b64_char (n div 262144), b64_char (n div 4096 mod 64)])"
| "b64_encode [] = []"

text \<open>The decoder works on the 6-bit values; a lone last character is an error.\<close>

fun b64_groups :: "nat list \<Rightarrow> string option" where
  "b64_groups (p # q # r # s # ks) =
     (let n = p * 262144 + q * 4096 + r * 64 + s in
      map_option (\<lambda>t. [chr (n div 65536), chr (n div 256 mod 256), chr (n mod 256)] @ t) (b64_groups ks))"
| "b64_groups [p, q, r] =
     (let n = p * 262144 + q * 4096 + r * 64 in Some [chr (n div 65536), chr (n div 256 mod 256)])"
| "b64_groups [p, q] = (let n = p * 262144 + q * 4096 in Some [chr (n div 65536)])"
| "b64_groups [p] = None"
| "b64_groups [] = Some []"

text \<open>Line breaks in the input are skipped, as the decoder of the library does.\<close>

definition b64_decode :: "string \<Rightarrow> string option" where
  "b64_decode s =
     (case map_opt b64_index (filter (\<lambda>c. c \<noteq> CHR 0x0A \<and> c \<noteq> CHR 0x0D) s) of
        None \<Rightarrow> None | Some ks \<Rightarrow> b64_groups ks)"

lemma b64_table: "list_all (\<lambda>k. b64_index (b64_char k) = Some k \<and> b64_char k \<noteq> CHR 0x0A \<and>
    b64_char k \<noteq> CHR 0x0D \<and> b64_char k \<noteq> CHR ''.'') [0..<64]"
  by code_simp

lemma b64_index_char: "k < 64 \<Longrightarrow> b64_index (b64_char k) = Some k"
  and b64_char_plain: "k < 64 \<Longrightarrow> b64_char k \<noteq> CHR 0x0A \<and> b64_char k \<noteq> CHR 0x0D \<and> b64_char k \<noteq> CHR ''.''"
  using b64_table by (auto simp: list_all_iff)

lemma byte_less [simp]: "byte c < 256"
  unfolding byte_def by (metis of_char_mod_256 mod_less_divisor zero_less_numeral)

lemma chr_byte [simp]: "chr (byte c) = c"
  by (simp add: chr_def byte_def)

lemma b64_digits_less [simp]:
  "n < 16777216 \<Longrightarrow> n div 262144 < 64" "(n div 4096) mod 64 < (64::nat)" "(n div 64) mod 64 < (64::nat)"
  "n mod 64 < (64::nat)"
  by auto

lemma b64_join_aux:
  "n = a * 64 + x \<Longrightarrow> a = b * 64 + y \<Longrightarrow> b = c * 64 + z \<Longrightarrow> c * 262144 + z * 4096 + y * 64 + x = (n::nat)"
  by simp

lemma b64_join:
  "(n div 262144) * 262144 + (n div 4096 mod 64) * 4096 + (n div 64 mod 64) * 64 + n mod 64 = (n::nat)"
proof -
  have d: "n div 4096 = n div 64 div 64" "n div 262144 = n div 64 div 64 div 64"
    by (simp_all add: div_mult2_eq [symmetric])
  show ?thesis unfolding d
    by (rule b64_join_aux [OF div_mult_mod_eq [symmetric] div_mult_mod_eq [symmetric] div_mult_mod_eq [symmetric]])
qed

lemma b64_bytes:
  assumes "a < 256" "b < 256" "c < (256::nat)"
  shows "(a * 65536 + b * 256 + c) div 65536 = a" "(a * 65536 + b * 256 + c) div 256 mod 256 = b"
    "(a * 65536 + b * 256 + c) mod 256 = c" "a * 65536 + b * 256 + c < 16777216"
proof -
  have e: "a * 65536 + b * 256 + c = 256 * (a * 256 + b) + c" by simp
  show "(a * 65536 + b * 256 + c) div 65536 = a" using assms by (intro div_nat_eqI) auto
  have "(a * 65536 + b * 256 + c) div 256 = a * 256 + b" unfolding e using assms(3) by simp
  then show "(a * 65536 + b * 256 + c) div 256 mod 256 = b" using assms(2) by simp
  show "(a * 65536 + b * 256 + c) mod 256 = c" unfolding e mod_mult_self4 using assms(3) by (rule mod_less)
  show "a * 65536 + b * 256 + c < 16777216" using assms by linarith
qed

lemma low_bits_zero: "(a * 65536) mod 64 = (0::nat)" "(a * 65536) div 64 mod 64 = (0::nat)"
  "(a * 65536 + b * 256) mod 64 = (0::nat)"
proof -
  show "(a * 65536) mod 64 = 0" by (intro dvd_imp_mod_0 dvd_mult) simp
  have "(a * 65536) div 64 = a * 1024" by simp
  then show "(a * 65536) div 64 mod 64 = 0" by (simp only:) (intro dvd_imp_mod_0 dvd_mult, simp)
  show "(a * 65536 + b * 256) mod 64 = 0" by (intro dvd_imp_mod_0 dvd_add dvd_mult) simp_all
qed

text \<open>The encoding as a list of 6-bit values.\<close>

fun b64_values :: "string \<Rightarrow> nat list" where
  "b64_values (a # b # c # r) =
     (let n = byte a * 65536 + byte b * 256 + byte c in
      [n div 262144, n div 4096 mod 64, n div 64 mod 64, n mod 64] @ b64_values r)"
| "b64_values [a, b] =
     (let n = byte a * 65536 + byte b * 256 in [n div 262144, n div 4096 mod 64, n div 64 mod 64])"
| "b64_values [a] = (let n = byte a * 65536 in [n div 262144, n div 4096 mod 64])"
| "b64_values [] = []"

lemma b64_encode_values: "b64_encode s = map b64_char (b64_values s)"
  by (induction s rule: b64_encode.induct) (auto simp: Let_def)

lemma b64_values_less: "k \<in> set (b64_values s) \<Longrightarrow> k < 64"
proof (induction s rule: b64_values.induct)
  case (1 a b c r)
  then show ?case using b64_bytes(4) [of "byte a" "byte b" "byte c"] by (auto simp: Let_def)
next
  case (2 a b)
  then show ?case using b64_bytes(4) [of "byte a" "byte b" 0] by (auto simp: Let_def)
next
  case (3 a)
  have "byte a * 65536 < 16777216" using byte_less [of a] by linarith
  then have "byte a * 65536 div 262144 < 64" by (intro b64_digits_less)
  then show ?case using 3 by (simp only: b64_values.simps Let_def) auto
qed auto

lemma b64_groups_values: "b64_groups (b64_values s) = Some s"
proof (induction s rule: b64_values.induct)
  case (1 a b c r)
  let ?n = "byte a * 65536 + byte b * 256 + byte c"
  note b = b64_bytes [of "byte a" "byte b" "byte c", simplified]
  show ?case using 1 b64_join [of ?n] b(1-3) by (simp add: Let_def)
next
  case (2 a b)
  let ?n = "byte a * 65536 + byte b * 256"
  note b = b64_bytes [of "byte a" "byte b" 0, simplified]
  show ?case using b64_join [of ?n] low_bits_zero(3) [of "byte a" "byte b"] b(1-2) by (simp add: Let_def)
next
  case (3 a)
  let ?n = "byte a * 65536"
  have "?n div 262144 * 262144 + ?n div 4096 mod 64 * 4096 = ?n"
    using b64_join [of ?n] low_bits_zero(1,2) [of "byte a"] by simp
  moreover have "b64_groups (b64_values [a]) = Some [chr ((?n div 262144 * 262144 + ?n div 4096 mod 64 * 4096) div 65536)]"
    by (simp only: b64_values.simps Let_def b64_groups.simps)
  ultimately show ?case by simp
qed simp

lemma b64_decode_encode [simp]: "b64_decode (b64_encode s) = Some s"
proof -
  have "filter (\<lambda>c. c \<noteq> CHR 0x0A \<and> c \<noteq> CHR 0x0D) (b64_encode s) = b64_encode s"
    using b64_values_less b64_char_plain by (auto simp: b64_encode_values filter_id_conv)
  moreover have "map_opt b64_index (b64_encode s) = Some (b64_values s)"
    unfolding b64_encode_values map_opt_Some_iff
    using b64_index_char [OF b64_values_less [OF nth_mem]] by simp
  ultimately show ?thesis by (simp add: b64_decode_def b64_groups_values)
qed

lemma b64_encode_no_dot: "CHR ''.'' \<notin> set (b64_encode s)"
proof
  assume "CHR ''.'' \<in> set (b64_encode s)"
  then obtain k where "k \<in> set (b64_values s)" "b64_char k = CHR ''.''" by (auto simp: b64_encode_values)
  then show False using b64_values_less b64_char_plain by blast
qed

section \<open>Decimal integers\<close>

definition digit_val :: "char \<Rightarrow> nat option" where
  "digit_val c = (if 48 \<le> byte c \<and> byte c \<le> 57 then Some (byte c - 48) else None)"

fun digits_val :: "nat \<Rightarrow> string \<Rightarrow> nat option" where
  "digits_val acc [] = Some acc"
| "digits_val acc (c # cs) = (case digit_val c of None \<Rightarrow> None | Some d \<Rightarrow> digits_val (acc * 10 + d) cs)"

text \<open>\<open>strconv.ParseInt(s, 10, 64)\<close>: an optional sign, at least one digit, 64 bits.\<close>

definition parse_int64 :: "string \<Rightarrow> int option" where
  "parse_int64 s =
     (let (neg, ds) = (case s of c # r \<Rightarrow> (if c = CHR ''-'' then (True, r) else if c = CHR ''+'' then (False, r) else (False, s))
                                | [] \<Rightarrow> (False, [])) in
      if ds = [] then None
      else case digits_val 0 ds of
        None \<Rightarrow> None
      | Some n \<Rightarrow> let v = (if neg then - int n else int n) in
          if - (2 ^ 63) \<le> v \<and> v < 2 ^ 63 then Some v else None)"

lemma byte_chr: "n < 256 \<Longrightarrow> byte (char_of n) = n"
  by (simp add: byte_def)

lemma digit_val_char: "n < 10 \<Longrightarrow> digit_val (char_of (48 + n)) = Some n"
  by (simp add: digit_val_def byte_chr)

lemma digits_val_append:
  "digits_val a (xs @ ys) = (case digits_val a xs of None \<Rightarrow> None | Some b \<Rightarrow> digits_val b ys)"
  by (induction a xs rule: digits_val.induct) (auto split: option.splits)

lemma digits_val_dec: "digits_val 0 (dec_digits n) = Some n"
proof (induction n rule: dec_digits.induct)
  case (1 n)
  show ?case
  proof (cases "n < 10")
    case True
    then show ?thesis by (subst dec_digits.simps) (simp add: digit_val_char)
  next
    case False
    then show ?thesis using 1 by (subst dec_digits.simps) (simp add: digits_val_append digit_val_char)
  qed
qed

lemma dec_digits_hd: "\<exists>k r. dec_digits n = char_of (48 + k) # r \<and> k < (10::nat)"
proof (induction n rule: dec_digits.induct)
  case (1 n)
  show ?case
  proof (cases "n < 10")
    case True
    then have "dec_digits n = char_of (48 + n) # []" by (subst dec_digits.simps) simp
    then show ?thesis using True by blast
  next
    case False
    with 1 obtain k r where "dec_digits (n div 10) = char_of (48 + k) # r" "k < (10::nat)" by blast
    then have "dec_digits n = char_of (48 + k) # (r @ [char_of (48 + n mod 10)])"
      using False by (subst dec_digits.simps) simp
    then show ?thesis using \<open>k < 10\<close> by blast
  qed
qed

lemma parse_int64_itoa:
  assumes "- (2 ^ 63) \<le> n" "n < 2 ^ 63"
  shows "parse_int64 (itoa n) = Some n"
proof -
  obtain k r where d: "dec_digits (nat n) = char_of (48 + k) # r" "k < (10::nat)" using dec_digits_hd by blast
  have "byte (char_of (48 + k)) = 48 + k" using d(2) by (simp add: byte_chr)
  moreover have "byte (CHR ''-'') = 45" "byte (CHR ''+'') = 43" by (simp_all add: byte_def)
  ultimately have "char_of (48 + k) \<noteq> CHR ''-''" "char_of (48 + k) \<noteq> CHR ''+''" by auto
  then show ?thesis using assms d digits_val_dec [of "nat n"] digits_val_dec [of "nat (- n)"] length_dec_digits
    by (auto simp: itoa_def parse_int64_def Let_def)
qed

lemma itoa_no_bar: "CHR ''|'' \<notin> set (itoa n)"
proof -
  have "CHR ''|'' \<notin> set (dec_digits m)" for m
  proof -
    have no: "char_of (48 + k) \<noteq> CHR ''|''" if "k < 10" for k :: nat
    proof
      assume "char_of (48 + k) = CHR ''|''"
      then have "byte (char_of (48 + k)) = byte (CHR ''|'')" by simp
      moreover have "byte (char_of (48 + k)) = 48 + k" using that by (intro byte_chr) simp
      moreover have "byte (CHR ''|'') = 124" by (simp add: byte_def)
      ultimately show False using that by linarith
    qed
    show ?thesis
    proof (induction m rule: dec_digits.induct)
      case (1 n)
      then show ?case using no [of n] no [of "n mod 10"]
        by (subst dec_digits.simps) (auto simp: eq_commute [of "CHR ''|''"])
    qed
  qed
  then show ?thesis by (auto simp: itoa_def)
qed

section \<open>Base 62\<close>

definition b62_alphabet :: string where
  "b62_alphabet = ''0123456789abcdefghijklmnopqrstuvwxyzABCDEFGHIJKLMNOPQRSTUVWXYZ''"

text \<open>\<open>(*big.Int).Text(62)\<close>.\<close>

function b62 :: "nat \<Rightarrow> string" where
  "b62 n = (if n < 62 then [b62_alphabet ! n] else b62 (n div 62) @ [b62_alphabet ! (n mod 62)])"
  by pat_completeness auto
termination by (relation "measure (\<lambda>n. n)") auto

declare b62.simps [simp del]

fun b62_val :: "nat \<Rightarrow> string \<Rightarrow> nat option" where
  "b62_val acc [] = Some acc"
| "b62_val acc (c # cs) = (case index_of c b62_alphabet of None \<Rightarrow> None | Some d \<Rightarrow> b62_val (acc * 62 + d) cs)"

lemma b62_table: "list_all (\<lambda>k. index_of (b62_alphabet ! k) b62_alphabet = Some k) [0..<62]"
  by code_simp

lemma b62_index: "k < 62 \<Longrightarrow> index_of (b62_alphabet ! k) b62_alphabet = Some k"
  using b62_table by (auto simp: list_all_iff)

lemma b62_val_append: "b62_val a (xs @ ys) = (case b62_val a xs of None \<Rightarrow> None | Some b \<Rightarrow> b62_val b ys)"
  by (induction a xs rule: b62_val.induct) (auto split: option.splits)

lemma b62_val_b62: "b62_val 0 (b62 n) = Some n"
proof (induction n rule: b62.induct)
  case (1 n)
  then show ?case by (cases "n < 62"; subst b62.simps) (simp_all add: b62_val_append b62_index)
qed

lemma b62_length: "n < 62 ^ k \<Longrightarrow> 0 < k \<Longrightarrow> 1 \<le> length (b62 n) \<and> length (b62 n) \<le> k"
proof (induction n arbitrary: k rule: b62.induct)
  case (1 n)
  show ?case
  proof (cases "n < 62")
    case True
    then show ?thesis using 1(3) by (subst b62.simps, subst b62.simps) simp
  next
    case False
    then obtain j where j: "k = Suc j" "0 < j" using 1(2,3)
      by (cases k) (auto, metis gr0I mult.right_neutral power_0)
    then have "n div 62 < 62 ^ j" using 1(2) by (simp add: less_mult_imp_div_less mult.commute)
    from 1(1) [OF False this j(2)] show ?thesis using False j by (subst b62.simps, subst b62.simps) simp
  qed
qed

end
