(* ===== verification/CommitRepair.thy ===== *)
theory CommitRepair
  imports Encoding Commit
begin

text \<open>
  \<^verbatim>\<open>internal/commitrepair\<close>: the batch job that fills in the metadata of commit rows stored
  as unknown. The enricher is an argument; an error of it is its text, the HTTP status it
  carries if any, and whether it wraps \<open>ErrUnsupportedRepository\<close>. Other workers may change
  the commit table before each update (\<open>env\<close>), and the context may be cancelled at each of
  the points where the loop looks at it. JSON coding of the cursor is the argument
  \<open>marshal\<close>.
\<close>

section \<open>Definitions\<close>

subsection \<open>cursor.go\<close>

record Cursor =
  cur_Repository :: string
  cur_Sha :: string

datatype repair_error =
  LimitNotPositive
| LimitTooLarge
| CursorRepositoryRequired
| CursorShaRequired
| CursorMismatch
| MissingCollaborator
| CtxCancelled
| CursorDecode

definition validateCursor :: "Cursor \<Rightarrow> repair_error option" where
  "validateCursor c =
     (if cur_Repository c = [] then Some CursorRepositoryRequired
      else if cur_Sha c = [] then Some CursorShaRequired else None)"

definition EncodeCursor :: "(Cursor \<Rightarrow> string) \<Rightarrow> Cursor \<Rightarrow> repair_error + string" where
  "EncodeCursor marshal c =
     (case validateCursor c of Some e \<Rightarrow> Inl e | None \<Rightarrow> Inr (b64_encode (marshal c)))"

definition DecodeCursor :: "(string \<Rightarrow> Cursor option) \<Rightarrow> string \<Rightarrow> repair_error + Cursor" where
  "DecodeCursor unmarshal encoded =
     (case b64_decode encoded of
        None \<Rightarrow> Inl CursorDecode
      | Some data \<Rightarrow>
     (case unmarshal data of
        None \<Rightarrow> Inl CursorDecode
      | Some c \<Rightarrow> (case validateCursor c of Some e \<Rightarrow> Inl e | None \<Rightarrow> Inr c)))"

subsection \<open>repair.go\<close>

definition maxFailureSamples :: nat where "maxFailureSamples = 10"
definition maxInt32 :: int where "maxInt32 = 2 ^ 31 - 1"

record Options =
  opt_Repository :: "string ptr"
  opt_Limit :: int
  opt_Cursor :: "Cursor ptr"
  opt_DryRun :: bool
  opt_Backfill :: bool

record Failure =
  fail_Repository :: string
  fail_Sha :: string
  fail_Error :: string

record Summary =
  Scanned :: nat
  Repaired :: nat
  WouldRepair :: nat
  UnsupportedRepositories :: nat
  Failed :: nat
  AuthOrQuotaFailures :: nat
  AlreadyRepaired :: nat
  BackfillEnqueued :: nat
  WouldBackfill :: nat
  NextCursor :: "string ptr"
  Failures :: "Failure list"

definition empty_summary :: Summary where
  "empty_summary = \<lparr>Scanned = 0, Repaired = 0, WouldRepair = 0, UnsupportedRepositories = 0, Failed = 0,
     AuthOrQuotaFailures = 0, AlreadyRepaired = 0, BackfillEnqueued = 0, WouldBackfill = 0,
     NextCursor = None, Failures = []\<rparr>"

record enrich_error =
  err_text :: string
  err_status :: "nat option"
  err_unsupported :: bool

definition lower_char :: "char \<Rightarrow> char" where
  "lower_char c = (if byte_in 65 90 c then char_of (of_char c + 32 :: nat) else c)"

definition isGitHubAuthOrQuotaFailure :: "enrich_error \<Rightarrow> bool" where
  "isGitHubAuthOrQuotaFailure err =
     (if err_status err = Some 401 \<or> err_status err = Some 403 then True
      else let msg = map lower_char (err_text err) in
        str_contains msg ''unexpected github response 401'' \<or>
        str_contains msg ''unexpected github response 403'' \<or>
        str_contains msg ''github 403'' \<or> str_contains msg ''bad credentials'' \<or>
        str_contains msg ''quota exhausted'')"

definition recordFailure :: "commit_row \<Rightarrow> enrich_error \<Rightarrow> Summary \<Rightarrow> Summary" where
  "recordFailure candidate err summary =
     (let s1 = summary\<lparr>Failed := Failed summary + 1\<rparr>;
          s2 = (if isGitHubAuthOrQuotaFailure err then s1\<lparr>AuthOrQuotaFailures := AuthOrQuotaFailures s1 + 1\<rparr> else s1) in
      if length (Failures s2) \<ge> maxFailureSamples then s2
      else s2\<lparr>Failures := Failures s2 @ [\<lparr>fail_Repository = c_repository candidate, fail_Sha = c_sha candidate,
             fail_Error = err_text err\<rparr>]\<rparr>)"

definition updateParams :: "string \<Rightarrow> Info \<Rightarrow> time \<Rightarrow> commit_row" where
  "updateParams i info ts =
     \<lparr>c_id = i, c_sha = [], c_parent = Parent info, c_repository = [], c_message = Message info,
      c_author_name = AuthorName info, c_author_login = AuthorLogin info,
      c_author_avatar = AuthorAvatar info, c_timestamp = Some ts, c_branch = Branch info,
      c_fork_point_sha = ForkPointSha info\<rparr>"

definition incomplete :: enrich_error where
  "incomplete = \<lparr>err_text = ''enrichment returned incomplete commit metadata'', err_status = None,
     err_unsupported = False\<rparr>"

text \<open>What happens around one candidate besides the enrichment itself.\<close>

record round_env =
  ctx_before :: bool
  ctx_after :: bool
  env_table :: "commit_row list \<Rightarrow> commit_row list"

type_synonym enricher = "Request \<Rightarrow> enrich_error + (Info option \<times> BackfillJob option)"

record repair_state =
  rs_summary :: Summary
  rs_table :: "commit_row list"
  rs_jobs :: "BackfillJob list"

text \<open>The request sent for a candidate; the fields the code leaves out are zero values.\<close>

definition candidate_request :: "commit_row \<Rightarrow> Request" where
  "candidate_request candidate = \<lparr>req_Commit = c_sha candidate, req_Repository = c_repository candidate,
     req_ResultTimestamp = 0, req_Branch = [], req_PRNumber = None\<rparr>"

text \<open>The loop body after the cancellation checks.\<close>

definition repair_one ::
  "enricher \<Rightarrow> bool \<Rightarrow> Options \<Rightarrow> commit_row \<Rightarrow> round_env \<Rightarrow> repair_state \<Rightarrow> repair_state" where
  "repair_one enr bf opts candidate ev st =
     (let s = rs_summary st in
      case enr (candidate_request candidate) of
        Inl err \<Rightarrow>
          (if err_unsupported err
           then st\<lparr>rs_summary := s\<lparr>UnsupportedRepositories := UnsupportedRepositories s + 1\<rparr>\<rparr>
           else st\<lparr>rs_summary := recordFailure candidate err s\<rparr>)
      | Inr (info, job) \<Rightarrow>
          (case info of
             None \<Rightarrow> st\<lparr>rs_summary := recordFailure candidate incomplete s\<rparr>
           | Some info \<Rightarrow>
          (case (Timestamp info, ForkPointSha info) of
             (Some ts, Some _) \<Rightarrow>
               (if opt_DryRun opts then
                  st\<lparr>rs_summary := s\<lparr>WouldRepair := WouldRepair s + 1,
                       WouldBackfill := WouldBackfill s + (if job \<noteq> None then 1 else 0)\<rparr>\<rparr>
                else
                  (case UpdateUnknownCommit (updateParams (c_id candidate) info ts) (env_table ev (rs_table st)) of
                     (rows, t') \<Rightarrow>
                       let st1 = st\<lparr>rs_table := t'\<rparr> in
                       if rows = 0 then st1\<lparr>rs_summary := s\<lparr>AlreadyRepaired := AlreadyRepaired s + 1\<rparr>\<rparr>
                       else let s1 = s\<lparr>Repaired := Repaired s + 1\<rparr> in
                         (case job of
                            None \<Rightarrow> st1\<lparr>rs_summary := s1\<rparr>
                          | Some j \<Rightarrow>
                              (if opt_Backfill opts \<and> bf \<and> rows = 1
                               then st1\<lparr>rs_summary := s1\<lparr>BackfillEnqueued := BackfillEnqueued s1 + 1\<rparr>,
                                        rs_jobs := rs_jobs st @ [j]\<rparr>
                               else st1\<lparr>rs_summary := s1\<lparr>WouldBackfill := WouldBackfill s1 + 1\<rparr>\<rparr>))))
           | _ \<Rightarrow> st\<lparr>rs_summary := recordFailure candidate incomplete s\<rparr>)))"

fun repair_loop ::
  "enricher \<Rightarrow> bool \<Rightarrow> Options \<Rightarrow> (commit_row \<times> round_env) list \<Rightarrow> repair_state \<Rightarrow> repair_error option \<times> repair_state" where
  "repair_loop enr bf opts [] st = (None, st)"
| "repair_loop enr bf opts ((candidate, ev) # rest) st =
     (if ctx_before ev then (Some CtxCancelled, st)
      else
        let st1 = st\<lparr>rs_summary := (rs_summary st)\<lparr>Scanned := Scanned (rs_summary st) + 1\<rparr>\<rparr> in
        if isl (enr (candidate_request candidate)) \<and> ctx_after ev
        then (Some CtxCancelled, st1)
        else repair_loop enr bf opts rest (repair_one enr bf opts candidate ev st1))"

definition check_options :: "Options \<Rightarrow> repair_error option" where
  "check_options opts =
     (if opt_Limit opts \<le> 0 then Some LimitNotPositive
      else if opt_Limit opts \<ge> maxInt32 then Some LimitTooLarge
      else case opt_Cursor opts of
        None \<Rightarrow> None
      | Some c \<Rightarrow>
          (case validateCursor c of
             Some e \<Rightarrow> Some e
           | None \<Rightarrow> (case opt_Repository opts of
                Some r \<Rightarrow> (if r \<noteq> cur_Repository c then Some CursorMismatch else None)
              | None \<Rightarrow> None)))"

definition repair_candidates :: "(string \<Rightarrow> string \<Rightarrow> bool) \<Rightarrow> Options \<Rightarrow> commit_row list \<Rightarrow> commit_row list" where
  "repair_candidates coll opts t =
     SelectUnknownCommitRepairCandidates coll (opt_Repository opts)
       (map_option (\<lambda>c. (cur_Repository c, cur_Sha c)) (opt_Cursor opts)) (nat (opt_Limit opts + 1)) t"

definition Run ::
  "(string \<Rightarrow> string \<Rightarrow> bool) \<Rightarrow> (Cursor \<Rightarrow> string) \<Rightarrow> enricher \<Rightarrow> bool \<Rightarrow> bool \<Rightarrow> (nat \<Rightarrow> round_env) \<Rightarrow>
   Options \<Rightarrow> commit_row list \<Rightarrow> repair_error option \<times> repair_state" where
  "Run coll marshal enr bf ctx_err envs opts t =
     (let st0 = \<lparr>rs_summary = empty_summary, rs_table = t, rs_jobs = []\<rparr> in
      case check_options opts of
        Some e \<Rightarrow> (Some e, st0)
      | None \<Rightarrow>
          (if ctx_err then (Some CtxCancelled, st0)
           else
             let candidates = repair_candidates coll opts t;
                 inspect = take (nat (opt_Limit opts)) candidates;
                 finish = repair_loop enr bf opts (zip inspect (map envs [0..<length inspect])) in
             if length candidates > nat (opt_Limit opts) then
               (case EncodeCursor marshal \<lparr>cur_Repository = c_repository (last inspect), cur_Sha = c_sha (last inspect)\<rparr> of
                  Inl e \<Rightarrow> (Some e, st0)
                | Inr encoded \<Rightarrow> finish (st0\<lparr>rs_summary := (rs_summary st0)\<lparr>NextCursor := Some encoded\<rparr>\<rparr>))
             else finish st0))"

section \<open>Lemmas\<close>

context weak_order
begin

lemma ins_filter_sorted:
  assumes "sorted_wrt (\<lambda>a b. \<not> lt b a) ys"
  shows "filter P (ins_stable lt x ys) = (if P x then ins_stable lt x (filter P ys) else filter P ys)"
  using assms
proof (induction ys)
  case (Cons y ys)
  show ?case
  proof (cases "lt x y")
    case True
    have "ins_stable lt x (filter P (y # ys)) = x # filter P (y # ys)"
    proof (cases "filter P (y # ys)")
      case (Cons z zs)
      then have "z \<in> set (y # ys)" by (metis filter_is_subset list.set_intros(1) subsetD)
      then have "\<not> lt z y" using Cons.prems irrefl by auto
      then have "lt x z" using neg_trans [OF True, of z] by blast
      then show ?thesis using Cons by simp
    qed simp
    then show ?thesis using True by simp
  qed (use Cons in auto)
qed simp

lemma sort_filter: "filter P (stable_sort lt xs) = stable_sort lt (filter P xs)"
  by (induction xs rule: rev_induct) (auto simp: stable_sort_snoc ins_filter_sorted [OF sort_sorted])

end

text \<open>The counters classify every scanned candidate.\<close>

definition classified :: "Summary \<Rightarrow> nat" where
  "classified s = Repaired s + WouldRepair s + UnsupportedRepositories s + Failed s + AlreadyRepaired s"

definition summary_ok :: "repair_state \<Rightarrow> bool" where
  "summary_ok st \<longleftrightarrow> (let s = rs_summary st in
     Scanned s = classified s \<and> length (Failures s) = min 10 (Failed s) \<and> AuthOrQuotaFailures s \<le> Failed s \<and>
     BackfillEnqueued s = length (rs_jobs st) \<and> BackfillEnqueued s + WouldBackfill s \<le> Repaired s + WouldRepair s)"

lemmas summary_simps = summary_ok_def classified_def recordFailure_def maxFailureSamples_def Let_def

lemma repair_one_ok:
  assumes "summary_ok st"
  shows "summary_ok (repair_one enr bf opts c ev
    (st\<lparr>rs_summary := (rs_summary st)\<lparr>Scanned := Scanned (rs_summary st) + 1\<rparr>\<rparr>))"
proof -
  define s where "s = rs_summary st"
  have fail: "summary_ok (st\<lparr>rs_summary := recordFailure c err (s\<lparr>Scanned := Scanned s + 1\<rparr>)\<rparr>)" for err
    using assms by (auto simp: summary_simps s_def)
  show ?thesis
  proof (cases "enr (candidate_request c)")
    case (Inl err)
    then show ?thesis using fail [of err] assms
      by (auto simp: repair_one_def s_def Let_def) (auto simp: summary_simps)
  next
    case (Inr r)
    obtain info job where r: "r = (info, job)" by fastforce
    show ?thesis
    proof (cases "\<exists>i ts fp. info = Some i \<and> Timestamp i = Some ts \<and> ForkPointSha i = Some fp")
      case False
      then show ?thesis using fail [of incomplete] Inr r
        by (auto simp: repair_one_def s_def Let_def split: option.splits)
    next
      case True
      then obtain i ts fp where i: "info = Some i" "Timestamp i = Some ts" "ForkPointSha i = Some fp" by blast
      show ?thesis using assms Inr r i
        by (auto simp: repair_one_def summary_ok_def classified_def Let_def split: option.splits prod.splits)
    qed
  qed
qed

lemma repair_loop_ok:
  "summary_ok st \<Longrightarrow> repair_loop enr bf opts cs st = (e, st') \<Longrightarrow>
   Scanned (rs_summary st') \<le> Scanned (rs_summary st) + length cs \<and>
   (case e of None \<Rightarrow> summary_ok st' \<and> Scanned (rs_summary st') = Scanned (rs_summary st) + length cs
    | Some x \<Rightarrow> x = CtxCancelled \<and> classified (rs_summary st') \<le> Scanned (rs_summary st'))"
proof (induction enr bf opts cs st rule: repair_loop.induct)
  case (2 enr bf opts c ev rest st)
  have sc: "Scanned (rs_summary (repair_one enr bf opts c ev st1)) = Scanned (rs_summary st1)" for st1
    by (auto simp: repair_one_def recordFailure_def Let_def split: option.splits prod.splits sum.splits)
  show ?case
    using 2(1) [OF _ refl] 2(2,3) repair_one_ok [OF 2(2)]
    by (auto simp: Let_def sc split: if_splits option.splits) (auto simp: summary_ok_def classified_def Let_def)
qed auto

lemma dry_run_keeps:
  "opt_DryRun opts \<Longrightarrow> repair_loop enr bf opts cs st = (e, st') \<Longrightarrow>
   rs_table st' = rs_table st \<and> rs_jobs st' = rs_jobs st"
proof (induction enr bf opts cs st rule: repair_loop.induct)
  case (2 enr bf opts c ev rest st)
  have "rs_table (repair_one enr bf opts c ev st1) = rs_table st1 \<and> rs_jobs (repair_one enr bf opts c ev st1) = rs_jobs st1" for st1
    using 2(2) by (auto simp: repair_one_def Let_def split: option.splits prod.splits sum.splits)
  then show ?case using 2 by (auto simp: Let_def split: if_splits)
qed auto

text \<open>A run stops before the loop, or is the loop on at most the limit of candidates.\<close>

lemma Run_cases:
  assumes "Run coll marshal enr bf ctx envs opts t = (e, st)"
  defines "st0 \<equiv> \<lparr>rs_summary = empty_summary, rs_table = t, rs_jobs = []\<rparr>"
  shows "st = st0 \<and> e \<noteq> None \<or>
    (\<exists>cs st1. repair_loop enr bf opts cs st1 = (e, st) \<and> length cs \<le> nat (opt_Limit opts) \<and>
       (st1 = st0 \<or> (\<exists>c. st1 = st0\<lparr>rs_summary := empty_summary\<lparr>NextCursor := c\<rparr>\<rparr>)))"
proof -
  define cands where "cands = repair_candidates coll opts t"
  define ins where "ins = take (nat (opt_Limit opts)) cands"
  define cs where "cs = zip ins (map envs [0..<length ins])"
  have l: "length cs \<le> nat (opt_Limit opts)" by (simp add: cs_def ins_def)
  show ?thesis
  proof (cases "check_options opts = None \<and> \<not> ctx")
    case False
    then have "Run coll marshal enr bf ctx envs opts t = ((case check_options opts of None \<Rightarrow> Some CtxCancelled | x \<Rightarrow> x), st0)"
      by (auto simp: Run_def st0_def Let_def split: option.splits)
    then show ?thesis using assms(1) by (auto split: option.splits)
  next
    case True
    then have r: "Run coll marshal enr bf ctx envs opts t =
      (if length cands > nat (opt_Limit opts) then
         (case EncodeCursor marshal \<lparr>cur_Repository = c_repository (last ins), cur_Sha = c_sha (last ins)\<rparr> of
            Inl e \<Rightarrow> (Some e, st0)
          | Inr encoded \<Rightarrow> repair_loop enr bf opts cs (st0\<lparr>rs_summary := empty_summary\<lparr>NextCursor := Some encoded\<rparr>\<rparr>))
       else repair_loop enr bf opts cs st0)"
      unfolding Run_def cs_def ins_def cands_def st0_def Let_def by (simp split: sum.splits)
    show ?thesis using assms(1) l unfolding r by (auto split: if_splits sum.splits)
  qed
qed

text \<open>The scan order of the candidates under a collation.\<close>

definition row_less :: "(string \<Rightarrow> string \<Rightarrow> bool) \<Rightarrow> commit_row \<Rightarrow> commit_row \<Rightarrow> bool" where
  "row_less coll a b = pair_less coll (c_repository a, c_sha a) (c_repository b, c_sha b)"

lemma pair_less_trans:
  "total_weak_order coll \<Longrightarrow> pair_less coll a b \<Longrightarrow> pair_less coll b c \<Longrightarrow> pair_less coll a c"
  using collation_facts(2) [of coll] by (auto simp: pair_less_def)

lemma pair_less_total: "total_weak_order coll \<Longrightarrow> a \<noteq> b \<Longrightarrow> pair_less coll a b \<or> pair_less coll b a"
  using collation_facts(4) [of coll] by (cases a; cases b) (auto simp: pair_less_def)

lemma row_less_order: assumes "total_weak_order coll" shows "weak_order (row_less coll)"
proof
  note C = collation_facts [OF assms]
  show "row_less coll x y \<Longrightarrow> \<not> row_less coll y x" for x y
    using C(1,3) by (auto simp: row_less_def pair_less_def)
  show "row_less coll x z \<Longrightarrow> row_less coll x y \<or> row_less coll y z" for x y z
    unfolding row_less_def using pair_less_total [OF assms] pair_less_trans [OF assms] by metis
qed

definition candidate :: "(string \<Rightarrow> string \<Rightarrow> bool) \<Rightarrow> string ptr \<Rightarrow> (string \<times> string) ptr \<Rightarrow> commit_row \<Rightarrow> bool" where
  "candidate coll repository after r \<longleftrightarrow> unknown_commit r \<and> c_sha r \<noteq> [] \<and> c_repository r \<noteq> [] \<and>
     (case repository of None \<Rightarrow> True | Some s \<Rightarrow> c_repository r = s) \<and>
     (case after of None \<Rightarrow> True | Some a \<Rightarrow> pair_less coll a (c_repository r, c_sha r))"

lemma Select_eq: "SelectUnknownCommitRepairCandidates coll repo after n t =
    take n (stable_sort (row_less coll) (filter (candidate coll repo after) t))"
  by (simp add: SelectUnknownCommitRepairCandidates_def candidate_def [abs_def] row_less_def [abs_def])

lemma drop_filter_sorted:
  assumes "sorted_wrt R xs" "n < length xs" "\<And>x. \<not> R x x" "\<And>x y. R x y \<Longrightarrow> \<not> R y x"
  shows "filter (R (xs ! n)) xs = drop (Suc n) xs"
proof -
  have "filter (R (xs ! n)) (take (Suc n) xs) = []"
    using assms by (auto simp: filter_empty_conv in_set_conv_nth sorted_wrt_iff_nth_less less_Suc_eq)
  moreover have "filter (R (xs ! n)) (drop (Suc n) xs) = drop (Suc n) xs"
    using assms(1,2) by (auto simp: filter_id_conv in_set_conv_nth sorted_wrt_iff_nth_less)
  ultimately show ?thesis by (metis append_Nil append_take_drop_id filter_append)
qed

lemma candidates_strict:
  assumes "total_weak_order coll" "commit_table.uniq t"
  shows "sorted_wrt (row_less coll) (stable_sort (row_less coll) (filter P t))"
proof -
  let ?s = "stable_sort (row_less coll) (filter P t)"
  note C = collation_facts [OF assms(1)]
  have "distinct (map commit_key (filter P t))" using assms(2) by (auto simp: commit_table.uniq_def distinct_map inj_on_def)
  moreover have "mset (map commit_key ?s) = mset (map commit_key (filter P t))" by simp
  ultimately have d: "distinct (map commit_key ?s)" by (metis mset_eq_imp_distinct_iff)
  have s: "sorted_wrt (\<lambda>a b. \<not> row_less coll b a) ?s" by (rule weak_order.sort_sorted [OF row_less_order [OF assms(1)]])
  have "row_less coll (?s ! i) (?s ! j)" if ij: "i < j" "j < length ?s" for i j
  proof -
    have "\<not> row_less coll (?s ! j) (?s ! i)" using s ij by (simp add: sorted_wrt_iff_nth_less)
    moreover have "map commit_key ?s ! i \<noteq> map commit_key ?s ! j" using d ij nth_eq_iff_index_eq [OF d, of i j] by simp
    then have "commit_key (?s ! i) \<noteq> commit_key (?s ! j)" using ij by simp
    ultimately show ?thesis using C(4) by (auto simp: row_less_def pair_less_def commit_key_def)
  qed
  then show ?thesis by (auto simp: sorted_wrt_iff_nth_less)
qed

lemma select_after:
  fixes repo :: "string ptr" and after :: "(string \<times> string) ptr"
  assumes "total_weak_order coll" "commit_table.uniq t"
  defines "S \<equiv> stable_sort (row_less coll) (filter (candidate coll repo after) t)"
  assumes n: "n < length S"
  shows "stable_sort (row_less coll) (filter (candidate coll repo (Some (c_repository (S ! n), c_sha (S ! n)))) t) =
    drop (Suc n) S"
proof -
  note C = collation_facts [OF assms(1)]
  have "S ! n \<in> set S" using n by simp
  then have cn: "candidate coll repo after (S ! n)" by (simp add: S_def)
  have "candidate coll repo (Some (c_repository (S ! n), c_sha (S ! n))) r \<longleftrightarrow>
      candidate coll repo after r \<and> row_less coll (S ! n) r" for r
    using cn pair_less_trans [OF assms(1)] by (auto simp: candidate_def row_less_def split: option.splits)
  then have "filter (candidate coll repo (Some (c_repository (S ! n), c_sha (S ! n)))) t =
      filter (row_less coll (S ! n)) (filter (candidate coll repo after) t)"
    unfolding filter_filter by (intro filter_cong) auto
  then have "stable_sort (row_less coll) (filter (candidate coll repo (Some (c_repository (S ! n), c_sha (S ! n)))) t) =
      filter (row_less coll (S ! n)) S"
    by (simp add: S_def weak_order.sort_filter [OF row_less_order [OF assms(1)]])
  also have "\<dots> = drop (Suc n) S"
  proof (rule drop_filter_sorted)
    show "sorted_wrt (row_less coll) S" unfolding S_def by (rule candidates_strict [OF assms(1,2)])
  qed (use n C(1,3) in \<open>auto simp: row_less_def pair_less_def\<close>)
  finally show ?thesis .
qed

section \<open>Properties\<close>

text \<open>
  A completed repair run accounts for every candidate it scanned: each one is repaired,
  would be repaired, is unsupported, failed or was already repaired, at most the limit are
  scanned, at most ten failures are sampled, and every job handed over is counted. A run
  that is cancelled classifies no more than it scanned, and a dry run changes neither the
  table nor the backfill queue.
\<close>

theorem Run_accounts:
  assumes "Run coll marshal enr bf ctx envs opts t = (e, st)"
  shows "(let s = rs_summary st in
      Scanned s \<le> nat (opt_Limit opts) \<and> classified s \<le> Scanned s \<and>
      (e = None \<longrightarrow> Scanned s = classified s \<and> length (Failures s) = min 10 (Failed s) \<and>
         AuthOrQuotaFailures s \<le> Failed s \<and> BackfillEnqueued s = length (rs_jobs st) \<and>
         BackfillEnqueued s + WouldBackfill s \<le> Repaired s + WouldRepair s) \<and>
      (opt_DryRun opts \<longrightarrow> rs_table st = t \<and> rs_jobs st = []))"
proof -
  let ?st0 = "\<lparr>rs_summary = empty_summary, rs_table = t, rs_jobs = []\<rparr>"
  have "st = ?st0 \<and> e \<noteq> None \<or>
    (\<exists>cs st1. repair_loop enr bf opts cs st1 = (e, st) \<and> length cs \<le> nat (opt_Limit opts) \<and>
       (st1 = ?st0 \<or> (\<exists>c. st1 = ?st0\<lparr>rs_summary := empty_summary\<lparr>NextCursor := c\<rparr>\<rparr>)))"
    by (rule Run_cases [OF assms])
  then consider "st = ?st0" "e \<noteq> None"
    | cs st1 where "repair_loop enr bf opts cs st1 = (e, st)" "length cs \<le> nat (opt_Limit opts)"
        "st1 = ?st0 \<or> (\<exists>c. st1 = ?st0\<lparr>rs_summary := empty_summary\<lparr>NextCursor := c\<rparr>\<rparr>)" by blast
  then show ?thesis
  proof cases
    case 2
    have st1: "summary_ok st1" "Scanned (rs_summary st1) = 0" "rs_table st1 = t" "rs_jobs st1 = []"
      using 2(3) by (auto simp: summary_ok_def empty_summary_def classified_def)
    show ?thesis using repair_loop_ok [OF st1(1) 2(1)] dry_run_keeps [OF _ 2(1)] st1(2-4) 2(2)
      by (auto simp: summary_ok_def Let_def split: option.splits)
  qed (auto simp: empty_summary_def classified_def)
qed

text \<open>
  Paging with the cursor visits every candidate exactly once: a page is a prefix of the
  candidates in scan order, and the page after the last row of it is the rest of that
  order, for every collation that is a strict total order.
\<close>

theorem SelectUnknown_paging:
  assumes "total_weak_order coll" "commit_table.uniq t" "0 < n"
    "all = SelectUnknownCommitRepairCandidates coll repo after (length t) t" "n \<le> length all"
  shows "SelectUnknownCommitRepairCandidates coll repo after n t = take n all \<and> distinct all \<and>
    set all = {r \<in> set t. unknown_commit r \<and> c_sha r \<noteq> [] \<and> c_repository r \<noteq> [] \<and>
      (\<forall>s. repo = Some s \<longrightarrow> c_repository r = s) \<and>
      (\<forall>a. after = Some a \<longrightarrow> pair_less coll a (c_repository r, c_sha r))} \<and>
    SelectUnknownCommitRepairCandidates coll repo
      (Some (c_repository (all ! (n - 1)), c_sha (all ! (n - 1)))) m t = take m (drop n all)"
proof -
  let ?S = "stable_sort (row_less coll) (filter (candidate coll repo after) t)"
  have all: "all = ?S" unfolding assms(4) Select_eq by (simp add: length_filter_le)
  have "distinct t" using assms(2) by (auto simp: commit_table.uniq_def distinct_map)
  moreover have "n - 1 < length ?S" "Suc (n - 1) = n" using assms(3,5) all by auto
  ultimately show ?thesis
    using select_after [OF assms(1,2), of "n - 1" repo after] unfolding all Select_eq
    by (auto simp: candidate_def split: option.splits)
qed

definition demo_unknown :: "string \<Rightarrow> commit_row" where
  "demo_unknown sha = \<lparr>c_id = sha, c_sha = sha, c_parent = None, c_repository = ''r'', c_message = [],
     c_author_name = [], c_author_login = None, c_author_avatar = None, c_timestamp = None,
     c_branch = None, c_fork_point_sha = None\<rparr>"

theorem SelectUnknown_paging_witness:
  "SelectUnknownCommitRepairCandidates byte_collation None (Some (''r'', ''a'')) 5 [demo_unknown ''b'', demo_unknown ''a'']
     = [demo_unknown ''b'']"
proof -
  let ?t = "[demo_unknown ''b'', demo_unknown ''a'']"
  have u: "commit_table.uniq ?t" by (simp add: commit_table.uniq_def demo_unknown_def commit_key_def)
  have a: "SelectUnknownCommitRepairCandidates byte_collation None None (length ?t) ?t =
      [demo_unknown ''a'', demo_unknown ''b'']"
    by code_simp
  show ?thesis
    using SelectUnknown_paging [OF byte_order.total_weak_order_axioms u, of 1 _ None None 5] a
    by (simp add: demo_unknown_def)
qed

theorem Run_accounts_witness:
  "\<exists>e st. Run byte_collation cur_Sha (\<lambda>_. Inl \<lparr>err_text = ''Bad credentials'', err_status = None, err_unsupported = False\<rparr>)
     False False (\<lambda>_. \<lparr>ctx_before = False, ctx_after = False, env_table = (\<lambda>t. t)\<rparr>)
     \<lparr>opt_Repository = None, opt_Limit = 5, opt_Cursor = None, opt_DryRun = True, opt_Backfill = False\<rparr>
     [demo_unknown ''a''] = (e, st) \<and> rs_table st = [demo_unknown ''a''] \<and> Scanned (rs_summary st) \<le> 5"
proof -
  let ?r = "Run byte_collation cur_Sha (\<lambda>_. Inl \<lparr>err_text = ''Bad credentials'', err_status = None, err_unsupported = False\<rparr>)
     False False (\<lambda>_. \<lparr>ctx_before = False, ctx_after = False, env_table = (\<lambda>t. t)\<rparr>)
     \<lparr>opt_Repository = None, opt_Limit = 5, opt_Cursor = None, opt_DryRun = True, opt_Backfill = False\<rparr>
     [demo_unknown ''a'']"
  obtain e st where r: "?r = (e, st)" by (rule prod.exhaust)
  from Run_accounts [OF r] have "rs_table st = [demo_unknown ''a''] \<and> Scanned (rs_summary st) \<le> 5"
    by (simp add: Let_def)
  with r show ?thesis by blast
qed

text \<open>
  A cursor decodes to the cursor it was encoded from, for every JSON coding that is read
  back as it was written.
\<close>

theorem Cursor_roundtrip:
  assumes "unmarshal (marshal c) = Some c" "EncodeCursor marshal c = Inr encoded"
  shows "DecodeCursor unmarshal encoded = Inr c"
  using assms by (auto simp: EncodeCursor_def DecodeCursor_def split: option.splits)

theorem Cursor_roundtrip_witness:
  "DecodeCursor (\<lambda>s. Some \<lparr>cur_Repository = takeWhile (\<lambda>c. c \<noteq> CHR 0x00) s,
       cur_Sha = tl (dropWhile (\<lambda>c. c \<noteq> CHR 0x00) s)\<rparr>)
     (b64_encode (''r'' @ [CHR 0x00] @ ''abc'')) = Inr \<lparr>cur_Repository = ''r'', cur_Sha = ''abc''\<rparr>"
  by (rule Cursor_roundtrip [where marshal = "\<lambda>c. cur_Repository c @ [CHR 0x00] @ cur_Sha c"])
     (simp_all add: EncodeCursor_def validateCursor_def)

end
