(* ===== verification/Auth.thy ===== *)
theory Auth
  imports Encoding Store
begin

text \<open>
  \<^verbatim>\<open>internal/auth\<close>: signed blobs, session cookies, API tokens and the authenticator, and
  \<^verbatim>\<open>internal/githubapi/app_token_source.go\<close>, the renewable credential of a GitHub App. The
  keyed hash (HMAC-SHA256) and the token hash (SHA-256 in hex) are arguments; nothing is
  assumed of them except where a lemma says so.
\<close>

section \<open>Definitions\<close>

subsection \<open>signed.go\<close>

definition Signer_Sign :: "(string \<Rightarrow> string) \<Rightarrow> string \<Rightarrow> string" where
  "Signer_Sign mac payload =
     (let body = b64_encode payload in body @ ''.'' @ b64_encode (mac body))"

definition Signer_Verify :: "(string \<Rightarrow> string) \<Rightarrow> string \<Rightarrow> string option" where
  "Signer_Verify mac token =
     (case str_cut (CHR ''.'') token of
        None \<Rightarrow> None
      | Some (body, sig) \<Rightarrow>
          (if sig \<noteq> b64_encode (mac body) then None else b64_decode body))"

subsection \<open>session.go\<close>

text \<open>\<open>time.Time.Unix\<close>: whole seconds, rounded towards the past.\<close>

definition Unix :: "time \<Rightarrow> int" where "Unix t = t div 1000000000"

definition SessionMaxAge :: int where "SessionMaxAge = 30 * 24 * 3600 * 1000000000"

definition Session_Sign :: "(string \<Rightarrow> string) \<Rightarrow> string \<Rightarrow> time \<Rightarrow> string" where
  "Session_Sign mac userID expires = Signer_Sign mac (userID @ ''|'' @ itoa (Unix expires))"

definition Session_Verify :: "(string \<Rightarrow> string) \<Rightarrow> string \<Rightarrow> time \<Rightarrow> string option" where
  "Session_Verify mac value now =
     (case Signer_Verify mac value of
        None \<Rightarrow> None
      | Some payload \<Rightarrow>
     (case str_cut (CHR ''|'') payload of
        None \<Rightarrow> None
      | Some (userID, expStr) \<Rightarrow>
          (if userID = [] then None
           else case parse_int64 expStr of
             None \<Rightarrow> None
           | Some e \<Rightarrow> (if now > e * 1000000000 then None else Some userID))))"

subsection \<open>token.go\<close>

definition tokenPrefixLen :: nat where "tokenPrefixLen = 8"
definition secretLen :: nat where "secretLen = 43"

record Token =
  Plaintext :: string
  Hash :: string
  Prefix :: string

text \<open>\<open>new(big.Int).SetBytes\<close>: the bytes as a big-endian number.\<close>

definition big_endian :: "string \<Rightarrow> nat" where
  "big_endian b = foldl (\<lambda>n c. n * 256 + byte c) 0 b"

definition encodeToken :: "string \<Rightarrow> string" where
  "encodeToken b =
     (let secret = b62 (big_endian b)
      in ''cb_'' @ replicate (secretLen - length secret) (CHR ''0'') @ secret)"

definition GenerateToken :: "(string \<Rightarrow> string) \<Rightarrow> string \<Rightarrow> Token" where
  "GenerateToken HashToken b =
     (let plaintext = encodeToken b in
      \<lparr>Plaintext = plaintext, Hash = HashToken plaintext, Prefix = take tokenPrefixLen plaintext\<rparr>)"

subsection \<open>auth.go\<close>

text \<open>
  The authenticator: the static token, whether it is disabled, the token table (\<open>None\<close>: no
  store; \<open>Inl\<close>: a failing lookup) and the key of the session signer.
\<close>

record Authenticator =
  static_token :: string
  auth_disabled :: bool
  token_store :: "(unit + api_token list) option"
  session_mac :: "(string \<Rightarrow> string) option"

definition lastUsedStaleness :: int where "lastUsedStaleness = 5 * 60 * 1000000000"

definition shouldTouchLastUsed :: "time ptr \<Rightarrow> time \<Rightarrow> bool" where
  "shouldTouchLastUsed lastUsed now =
     (case lastUsed of None \<Rightarrow> True | Some l \<Rightarrow> now - l > lastUsedStaleness)"

text \<open>The user on success, with the id of the token whose last use is to be recorded.\<close>

definition resolveDBToken :: "(string \<Rightarrow> string) \<Rightarrow> unit + api_token list \<Rightarrow> time \<Rightarrow> string \<Rightarrow> (string \<times> string option) option" where
  "resolveDBToken HashToken tbl now presented =
     (let h = HashToken presented in
      case tbl of
        Inl _ \<Rightarrow> None
      | Inr t \<Rightarrow>
     (case GetAPITokenByHash h t of
        Inl e \<Rightarrow> None
      | Inr row \<Rightarrow>
          (if h \<noteq> tok_hash row then None
           else if tok_revoked row \<noteq> None then None
           else Some (tok_user row, if shouldTouchLastUsed (tok_last_used row) now then Some (tok_id row) else None))))"

definition resolveBearer ::
  "(string \<Rightarrow> string) \<Rightarrow> Authenticator \<Rightarrow> time \<Rightarrow> string \<Rightarrow> (string \<times> string option) option" where
  "resolveBearer HashToken a now authHeader =
     (case cut_prefix authHeader ''Bearer '' of
        None \<Rightarrow> None
      | Some presented \<Rightarrow>
          (if presented = [] then None
           else if static_token a \<noteq> [] \<and> presented = static_token a then Some ([], None)
           else case token_store a of
             None \<Rightarrow> None
           | Some tbl \<Rightarrow> resolveDBToken HashToken tbl now presented))"

definition resolveSession :: "Authenticator \<Rightarrow> time \<Rightarrow> string \<Rightarrow> string option" where
  "resolveSession a now cookie =
     (case session_mac a of
        None \<Rightarrow> None
      | Some mac \<Rightarrow> (if cookie = [] then None else Session_Verify mac cookie now))"

datatype principal = Principal string | ErrUnauthorized

definition ResolvePrincipal ::
  "(string \<Rightarrow> string) \<Rightarrow> Authenticator \<Rightarrow> time \<Rightarrow> string \<Rightarrow> string \<Rightarrow> principal \<times> string option" where
  "ResolvePrincipal HashToken a now authHeader sessionCookie =
     (if auth_disabled a then (Principal [], None)
      else case resolveBearer HashToken a now authHeader of
        Some (uid, touch) \<Rightarrow> (Principal uid, touch)
      | None \<Rightarrow>
          (case resolveSession a now sessionCookie of
             Some uid \<Rightarrow> (Principal uid, None)
           | None \<Rightarrow> (ErrUnauthorized, None)))"

subsection \<open>githubapi/app\_token\_source.go\<close>

record AppTokenSource =
  src_token :: string
  src_expiresAt :: "time option"

definition appTokenRefreshWindow :: int where "appTokenRefreshWindow = 5 * 60 * 1000000000"

datatype app_error = JWTError | AppRequestFailed | EmptyToken | MissingExpiry

text \<open>
  \<open>mint\<close> is the answer of the token endpoint: the token and its expiry (\<open>None\<close> for the zero
  time), or the error of signing the request or sending it.
\<close>

definition AppTokenSource_Token ::
  "time \<Rightarrow> app_error + (string \<times> time option) \<Rightarrow> AppTokenSource \<Rightarrow> (app_error + string) \<times> AppTokenSource" where
  "AppTokenSource_Token now mint s =
     (if src_token s \<noteq> [] \<and> (case src_expiresAt s of None \<Rightarrow> False | Some e \<Rightarrow> now + appTokenRefreshWindow < e)
      then (Inr (src_token s), s)
      else case mint of
        Inl e \<Rightarrow> (Inl e, s)
      | Inr (tok, expires) \<Rightarrow>
          (if trim_space tok = [] then (Inl EmptyToken, s)
           else case expires of
             None \<Rightarrow> (Inl MissingExpiry, s)
           | Some e \<Rightarrow> (Inr tok, s\<lparr>src_token := tok, src_expiresAt := Some e\<rparr>)))"

definition AppTokenSource_Invalidate :: "string \<Rightarrow> AppTokenSource \<Rightarrow> AppTokenSource" where
  "AppTokenSource_Invalidate rejectedToken s =
     (if src_token s = rejectedToken then s\<lparr>src_token := [], src_expiresAt := None\<rparr> else s)"

section \<open>Lemmas\<close>

lemma Signer_Verify_Sign [simp]: "Signer_Verify mac (Signer_Sign mac p) = Some p"
proof -
  have "str_cut (CHR ''.'') (Signer_Sign mac p) = Some (b64_encode p, b64_encode (mac (b64_encode p)))"
    unfolding str_cut_Some_iff using b64_encode_no_dot by (simp add: Signer_Sign_def Let_def)
  then show ?thesis by (simp add: Signer_Verify_def)
qed

lemma Signer_Verify_authentic:
  "Signer_Verify mac token = Some p \<Longrightarrow> \<exists>body. token = body @ ''.'' @ b64_encode (mac body) \<and> b64_decode body = Some p"
  by (auto simp: Signer_Verify_def str_cut_Some_iff split: option.splits if_splits)

lemma Session_Verify_Sign:
  assumes "uid \<noteq> []" "CHR ''|'' \<notin> set uid" "- (2 ^ 63) \<le> Unix e" "Unix e < 2 ^ 63"
  shows "Session_Verify mac (Session_Sign mac uid e) now = (if now > Unix e * 1000000000 then None else Some uid)"
proof -
  have "str_cut (CHR ''|'') (uid @ ''|'' @ itoa (Unix e)) = Some (uid, itoa (Unix e))"
    using assms(2) by (simp add: str_cut_Some_iff)
  then show ?thesis using assms parse_int64_itoa
    by (simp add: Session_Verify_def Session_Sign_def)
qed

lemma big_endian_bound: "big_endian b < 256 ^ length b"
proof (induction b rule: rev_induct)
  case (snoc c b)
  have "big_endian (b @ [c]) = big_endian b * 256 + byte c" by (simp add: big_endian_def)
  also have "\<dots> < (big_endian b + 1) * 256" using byte_less [of c] by simp
  also have "\<dots> \<le> 256 ^ length b * 256" using snoc by (intro mult_right_mono) auto
  finally show ?case by simp
qed (simp add: big_endian_def)

lemma big_endian_inj:
  "length b = length b' \<Longrightarrow> big_endian b = big_endian b' \<Longrightarrow> b = b'"
proof (induction b arbitrary: b' rule: rev_induct)
  case (snoc c b)
  then obtain b1 c1 where b': "b' = b1 @ [c1]" by (cases b' rule: rev_cases) auto
  have e: "big_endian b * 256 + byte c = big_endian b1 * 256 + byte c1"
    using snoc.prems(2) by (simp add: b' big_endian_def)
  have "(big_endian b * 256 + byte c) div 256 = big_endian b" "(big_endian b * 256 + byte c) mod 256 = byte c"
    "(big_endian b1 * 256 + byte c1) div 256 = big_endian b1" "(big_endian b1 * 256 + byte c1) mod 256 = byte c1"
    by simp_all
  with e have "big_endian b = big_endian b1" "byte c = byte c1" by metis+
  then show ?case using snoc b' chr_byte by (metis append_same_eq length_append_singleton nat.inject)
qed simp

lemma b62_val_zeros: "b62_val 0 (replicate k (CHR ''0'') @ s) = b62_val 0 s"
proof -
  have "index_of (CHR ''0'') b62_alphabet = Some 0" by (simp add: b62_alphabet_def)
  then show ?thesis by (induction k) auto
qed

lemma encodeToken_length: assumes "length b = 32" shows "length (encodeToken b) = 46"
proof -
  have "big_endian b < 256 ^ 32" using big_endian_bound [of b] assms by simp
  also have "(256::nat) ^ 32 < 62 ^ 43" by simp
  finally have "big_endian b < 62 ^ 43" .
  then have "length (b62 (big_endian b)) \<le> 43" using b62_length [of _ 43] by simp
  then show ?thesis by (simp add: encodeToken_def secretLen_def Let_def)
qed

lemma encodeToken_inj:
  assumes "length b = 32" "length b' = 32" "encodeToken b = encodeToken b'"
  shows "b = b'"
proof -
  have "b62_val 0 (drop 3 (encodeToken x)) = Some (big_endian x)" for x
    by (simp add: encodeToken_def Let_def b62_val_zeros b62_val_b62)
  then have "big_endian b = big_endian b'" using assms(3) by (metis option.inject)
  then show ?thesis using assms(1,2) by (intro big_endian_inj) auto
qed

lemma resolveDBToken_Some:
  assumes "resolveDBToken HashToken tbl now presented = Some (uid, touch)"
  shows "\<exists>t row. tbl = Inr t \<and> row \<in> set t \<and> tok_hash row = HashToken presented \<and>
    tok_revoked row = None \<and> tok_user row = uid"
proof -
  obtain t row where t: "tbl = Inr t" "GetAPITokenByHash (HashToken presented) t = Inr row"
    "tok_revoked row = None" "tok_user row = uid"
    using assms by (auto simp: resolveDBToken_def Let_def split: sum.splits if_splits)
  then have "find (\<lambda>r. tok_hash r = HashToken presented) t = Some row"
    by (auto simp: GetAPITokenByHash_def split: option.splits)
  then have "row \<in> set t" "tok_hash row = HashToken presented"
    by (auto simp: find_Some_iff)
  then show ?thesis using t by blast
qed

section \<open>Properties\<close>

text \<open>
  C5: Authentication fails closed. When it is enabled, a request is accepted only with the
  configured static token (and then carries no user), with a bearer token whose hash is
  stored in a row that is not revoked (and then carries that row's user), or with a session
  cookie that bears the signature of its body and has not expired.
\<close>

theorem ResolvePrincipal_sound:
  assumes "\<not> auth_disabled a" "ResolvePrincipal HashToken a now hdr cookie = (Principal uid, touch)"
  shows "(static_token a \<noteq> [] \<and> hdr = ''Bearer '' @ static_token a \<and> uid = []) \<or>
    (\<exists>presented t row. hdr = ''Bearer '' @ presented \<and> token_store a = Some (Inr t) \<and> row \<in> set t \<and>
       tok_hash row = HashToken presented \<and> tok_revoked row = None \<and> tok_user row = uid) \<or>
    (\<exists>mac body expStr e. session_mac a = Some mac \<and> cookie = body @ ''.'' @ b64_encode (mac body) \<and>
       b64_decode body = Some (uid @ ''|'' @ expStr) \<and> uid \<noteq> [] \<and> parse_int64 expStr = Some e \<and>
       now \<le> e * 1000000000)"
proof (cases "resolveBearer HashToken a now hdr")
  case (Some r)
  then have r: "r = (uid, touch)" using assms by (cases r) (auto simp: ResolvePrincipal_def)
  obtain presented where p: "hdr = ''Bearer '' @ presented"
    "static_token a \<noteq> [] \<and> presented = static_token a \<and> uid = [] \<or>
     (\<exists>tbl. token_store a = Some tbl \<and> resolveDBToken HashToken tbl now presented = Some (uid, touch))"
    using Some unfolding r resolveBearer_def
    by (auto simp del: append.simps simp: cut_prefix_Some_iff split: option.splits if_splits)
  then show ?thesis using resolveDBToken_Some by metis
next
  case None
  then have "resolveSession a now cookie = Some uid"
    using assms by (auto simp: ResolvePrincipal_def split: option.splits)
  then obtain mac where mac: "session_mac a = Some mac" "Session_Verify mac cookie now = Some uid"
    by (auto simp: resolveSession_def split: option.splits if_splits)
  then obtain payload expStr e where p: "Signer_Verify mac cookie = Some payload"
    "payload = uid @ ''|'' @ expStr" "uid \<noteq> []" "parse_int64 expStr = Some e" "now \<le> e * 1000000000"
    by (auto simp: Session_Verify_def str_cut_Some_iff split: option.splits if_splits)
  show ?thesis using Signer_Verify_authentic [OF p(1)] mac(1) p(2-5) by auto
qed

theorem ResolvePrincipal_sound_witness:
  "ResolvePrincipal (\<lambda>s. s) \<lparr>static_token = ''op'', auth_disabled = False, token_store = None, session_mac = None\<rparr>
     0 ''Bearer op'' [] = (Principal [], None) \<and> ''Bearer op'' = ''Bearer '' @ ''op''"
proof -
  let ?a = "\<lparr>static_token = ''op'', auth_disabled = False, token_store = None, session_mac = None\<rparr>"
  have e: "ResolvePrincipal (\<lambda>s. s) ?a 0 ''Bearer op'' [] = (Principal [], None)" by code_simp
  have "\<not> auth_disabled ?a" by simp
  from ResolvePrincipal_sound [OF this e] e show ?thesis by simp
qed

text \<open>
  A revoked token is refused: after a successful revocation of its row no request with
  that token as its bearer token is attributed to the row's user, unless a session cookie
  does so.
\<close>

theorem revoked_token_refused:
  assumes "RevokeAPIToken i now0 t = (Inr (), t')" "row \<in> set t" "tok_id row = i" "tok_hash row = HashToken presented"
    "distinct (map tok_hash t)" "presented \<noteq> static_token a" "token_store a = Some (Inr t')"
  shows "resolveBearer HashToken a now (''Bearer '' @ presented) = None"
proof -
  let ?upd = "\<lambda>r. if tok_id r = i then r\<lparr>tok_revoked := Some now0\<rparr> else r"
  have t': "t' = map ?upd t" using assms(1) by (simp add: RevokeAPIToken_def Let_def split: if_splits)
  have "tok_revoked r \<noteq> None" if r: "r \<in> set t'" "tok_hash r = HashToken presented" for r
  proof -
    obtain x where x: "x \<in> set t" "r = ?upd x" using r(1) t' by auto
    then have "tok_hash x = tok_hash row" using r(2) assms(4) by (auto split: if_splits)
    then have "x = row" using x(1) assms(2,5) by (metis (no_types, lifting) distinct_map inj_on_eq_iff)
    then show ?thesis using x(2) assms(3) by simp
  qed
  then have "GetAPITokenByHash (HashToken presented) t' = Inr r \<Longrightarrow> tok_revoked r \<noteq> None" for r
    by (auto simp: GetAPITokenByHash_def find_Some_iff split: option.splits)
  then have "resolveDBToken HashToken (Inr t') now presented = None"
    by (auto simp: resolveDBToken_def Let_def split: sum.splits)
  then show ?thesis using assms(6,7) by (simp add: resolveBearer_def del: append.simps)
qed

theorem revoked_token_refused_witness:
  "resolveBearer (\<lambda>s. s) \<lparr>static_token = [], auth_disabled = False,
     token_store = Some (Inr (snd (RevokeAPIToken ''1'' 7 [\<lparr>tok_id = ''1'', tok_user = ''u'', tok_name = [],
       tok_hash = ''cb_x'', tok_prefix = [], tok_created = 0, tok_last_used = None, tok_revoked = None\<rparr>]))),
     session_mac = None\<rparr> 9 (''Bearer '' @ ''cb_x'') = None"
proof -
  let ?row = "\<lparr>tok_id = ''1'', tok_user = ''u'', tok_name = [], tok_hash = ''cb_x'', tok_prefix = [],
    tok_created = 0, tok_last_used = None, tok_revoked = None\<rparr>"
  have r: "RevokeAPIToken ''1'' 7 [?row] = (Inr (), snd (RevokeAPIToken ''1'' 7 [?row]))"
    by (simp add: RevokeAPIToken_def)
  show ?thesis
    by (rule revoked_token_refused [OF r, where row = ?row]) simp_all
qed

text \<open>
  A session value signed for a user is verified as that user until the second of its
  expiry and refused afterwards.
\<close>

theorem Session_roundtrip:
  assumes "uid \<noteq> []" "CHR ''|'' \<notin> set uid" "0 \<le> e" "e < 2 ^ 62"
  shows "Session_Verify mac (Session_Sign mac uid e) now =
    (if now \<le> e div 1000000000 * 1000000000 then Some uid else None)"
proof -
  have "0 \<le> Unix e" "Unix e \<le> e" 
    using assms(3) zdiv_mono2 [of e 1 1000000000] by (simp_all add: Unix_def pos_imp_zdiv_nonneg_iff)
  then show ?thesis using Session_Verify_Sign [OF assms(1,2), of e mac now] assms(4) by (auto simp: Unix_def)
qed

theorem Session_roundtrip_witness:
  "Session_Verify rev (Session_Sign rev ''user1'' 5000000000) 4000000000 = Some ''user1'' \<and>
   Session_Verify rev (Session_Sign rev ''user1'' 5000000000) 6000000000 = None"
  using Session_roundtrip [of "''user1''" 5000000000 rev 4000000000]
    Session_roundtrip [of "''user1''" 5000000000 rev 6000000000] by simp

text \<open>
  Every minted token is 46 characters long and starts with \<open>cb_\<close>, so the stored prefix
  has its eight characters, and different random bytes give different tokens.
\<close>

theorem GenerateToken_format:
  assumes "length b = 32"
  shows "length (Plaintext (GenerateToken H b)) = 46 \<and> has_prefix (Plaintext (GenerateToken H b)) ''cb_'' \<and>
    length (Prefix (GenerateToken H b)) = 8 \<and> has_prefix (Plaintext (GenerateToken H b)) (Prefix (GenerateToken H b)) \<and>
    (length b' = 32 \<and> Plaintext (GenerateToken H b') = Plaintext (GenerateToken H b) \<longrightarrow> b' = b)"
proof -
  have l: "length (encodeToken b) = 46" using assms by (rule encodeToken_length)
  have "has_prefix (encodeToken b) ''cb_''" by (simp add: encodeToken_def has_prefix_def Let_def)
  moreover have "has_prefix (encodeToken b) (take 8 (encodeToken b))" by (simp add: has_prefix_def l)
  ultimately show ?thesis using l assms encodeToken_inj
    by (auto simp: GenerateToken_def Let_def tokenPrefixLen_def)
qed

theorem GenerateToken_format_witness:
  "length (Plaintext (GenerateToken (\<lambda>s. s) (replicate 32 (CHR 0x00)))) = 46"
  using GenerateToken_format [of "replicate 32 (CHR 0x00)" "\<lambda>s. s" "[]"] by simp

text \<open>
  The App token source hands out a cached token only while it is valid for more than five
  more minutes, otherwise exactly the freshly minted one; a rejected token is dropped from
  the cache, and a late rejection does not evict a newer one.
\<close>

theorem AppTokenSource_fresh:
  "case AppTokenSource_Token now mint s of
     (Inr tok, s') \<Rightarrow>
       src_token s' = tok \<and> tok \<noteq> [] \<and>
       ((s' = s \<and> (\<exists>e. src_expiresAt s = Some e \<and> now + 5 * 60 * 1000000000 < e)) \<or>
        (\<exists>e. mint = Inr (tok, Some e) \<and> src_expiresAt s' = Some e)) \<and>
       src_token (AppTokenSource_Invalidate old s') = (if old = tok then [] else tok) \<and>
       src_expiresAt (AppTokenSource_Invalidate old s') = (if old = tok then None else src_expiresAt s')
   | (Inl err, s') \<Rightarrow> s' = s"
proof -
  have "trim_space [] = []" by code_simp
  then show ?thesis
    by (auto simp: AppTokenSource_Token_def AppTokenSource_Invalidate_def appTokenRefreshWindow_def
        split: option.splits sum.splits prod.splits if_splits)
qed

end
