(* ===== verification/Json.thy ===== *)
theory Json
  imports Float64 Prelude
begin

text \<open>
  JSON columns and Go's decoded values. A \<^verbatim>\<open>jsonb\<close> column holds a \<open>json\<close> value the way the
  database stores it: numbers are exact decimals, the keys of an object are distinct and in
  one fixed order. A SQL NULL is an empty byte slice in Go and \<open>None\<close> here.
  \<open>json.Unmarshal\<close> into \<open>any\<close> rounds numbers to \<open>float64\<close> and fails on one that
  overflows. A Go \<open>map[string]any\<close> is the association list of its entries.
\<close>

section \<open>Values\<close>

datatype json =
  JNull | JBool bool | JNum rat | JStr string | JArr "json list" | JObj "(string \<times> json) list"

datatype any =
  ANil | ABool bool | ANum f64 | AStr string | AArr "any list" | AObj "(string \<times> any) list"

type_synonym any_map = "(string \<times> any) list"

datatype json_error = NotAnObject | NumberRange rat

fun unmarshal :: "json \<Rightarrow> json_error + any"
and unmarshal_list :: "json list \<Rightarrow> json_error + any list"
and unmarshal_fields :: "(string \<times> json) list \<Rightarrow> json_error + any_map" where
  "unmarshal JNull = Inr ANil"
| "unmarshal (JBool b) = Inr (ABool b)"
| "unmarshal (JNum r) = (case rnd r of PInf \<Rightarrow> Inl (NumberRange r) | NInf \<Rightarrow> Inl (NumberRange r) | x \<Rightarrow> Inr (ANum x))"
| "unmarshal (JStr s) = Inr (AStr s)"
| "unmarshal (JArr xs) = (case unmarshal_list xs of Inl e \<Rightarrow> Inl e | Inr ys \<Rightarrow> Inr (AArr ys))"
| "unmarshal (JObj fs) = (case unmarshal_fields fs of Inl e \<Rightarrow> Inl e | Inr ys \<Rightarrow> Inr (AObj ys))"
| "unmarshal_list [] = Inr []"
| "unmarshal_list (x # xs) = (case unmarshal x of Inl e \<Rightarrow> Inl e
     | Inr y \<Rightarrow> (case unmarshal_list xs of Inl e \<Rightarrow> Inl e | Inr ys \<Rightarrow> Inr (y # ys)))"
| "unmarshal_fields [] = Inr []"
| "unmarshal_fields ((k, x) # xs) = (case unmarshal x of Inl e \<Rightarrow> Inl e
     | Inr y \<Rightarrow> (case unmarshal_fields xs of Inl e \<Rightarrow> Inl e | Inr ys \<Rightarrow> Inr ((k, y) # ys)))"

text \<open>
  \<open>json.Unmarshal\<close> into a \<open>map[string]any\<close>: \<open>null\<close> leaves the map nil, any other value
  that is no object is an error.
\<close>

definition unmarshal_map :: "json \<Rightarrow> json_error + any_map option" where
  "unmarshal_map j = (case j of
     JNull \<Rightarrow> Inr None
   | JObj fs \<Rightarrow> (case unmarshal_fields fs of Inl e \<Rightarrow> Inl e | Inr m \<Rightarrow> Inr (Some m))
   | _ \<Rightarrow> Inl NotAnObject)"

text \<open>\<open>m[k] = v\<close> on a map.\<close>

definition map_set :: "string \<Rightarrow> 'a \<Rightarrow> (string \<times> 'a) list \<Rightarrow> (string \<times> 'a) list" where
  "map_set k v m = filter (\<lambda>(k', _). k' \<noteq> k) m @ [(k, v)]"

section \<open>Decoding of columns (read.go)\<close>

definition jsonObject :: "json ptr \<Rightarrow> json_error + any_map option" where
  "jsonObject b = (case b of None \<Rightarrow> Inr None | Some j \<Rightarrow> unmarshal_map j)"

text \<open>A value that is absent or no boolean reads as false.\<close>

definition beginsDistributionChange :: "json ptr \<Rightarrow> json_error + bool" where
  "beginsDistributionChange raw = (case raw of None \<Rightarrow> Inr False
     | Some j \<Rightarrow> (case unmarshal_map j of Inl e \<Rightarrow> Inl e
         | Inr m \<Rightarrow> (case m of None \<Rightarrow> Inr False
             | Some fs \<Rightarrow> (case map_of fs ''begins_distribution_change'' of
                 Some (ABool b) \<Rightarrow> Inr b | _ \<Rightarrow> Inr False))))"

section \<open>Lemmas\<close>

lemma map_of_map_set: "map_of (map_set k v m) = (map_of m)(k \<mapsto> v)"
proof
  fix x
  have "map_of (filter (\<lambda>(k', _). k' \<noteq> k) m) x = (if x = k then None else map_of m x)"
    by (induction m) auto
  then show "map_of (map_set k v m) x = ((map_of m)(k \<mapsto> v)) x"
    by (auto simp: map_set_def map_add_def split: option.splits)
qed

lemma unmarshal_fields_keys: "unmarshal_fields fs = Inr m \<Longrightarrow> map fst m = map fst fs"
proof (induction fs arbitrary: m)
  case (Cons f fs)
  then show ?case by (cases f) (auto split: sum.splits)
qed simp

end
