(* ===== verification/ResultStore.thy ===== *)
theory ResultStore
  imports Store Json
begin

text \<open>
  The read queries over benchmark results that the comparison and the CI report rest on:
  \<^verbatim>\<open>internal/db/ci_report.sql.go\<close>, \<^verbatim>\<open>compare.sql.go\<close>, \<^verbatim>\<open>history.sql.go\<close> and the row
  types of \<^verbatim>\<open>internal/storage/storage.go\<close>. A stored result carries the columns of the case,
  context, info and hardware rows its foreign keys name; its commit is looked up. Text is
  ordered by the database's collation \<open>coll\<close>.
\<close>

section \<open>Tables and row types\<close>

record result_rec =
  br_id :: string
  br_run_id :: string
  br_run_tags :: json
  br_run_reason :: "string ptr"
  br_commit_repo_url :: string
  br_timestamp :: time
  br_fingerprint :: string
  br_case_name :: string
  br_case_tags :: "json ptr"
  br_context_tags :: "json ptr"
  br_info_tags :: "json ptr"
  br_hw_id :: string
  br_hw_type :: string
  br_hw_name :: string
  br_hw_hash :: string
  br_commit_id :: "string ptr"
  br_unit :: "string ptr"
  br_mean :: "f64 ptr"
  br_data :: "f64 ptr list"
  br_error :: "json ptr"
  br_change_annotations :: "json ptr"

record db =
  db_results :: "result_rec list"
  db_commits :: "commit_row list"

record CompareResultRow =
  cr_ID :: string
  cr_RunID :: string
  cr_HistoryFingerprint :: string
  cr_Unit :: "string ptr"
  cr_Data :: "f64 ptr list"
  cr_Error :: "json ptr"
  cr_CommitID :: "string ptr"
  cr_CommitTimestamp :: "time ptr"

record HistoryRow =
  hr_ID :: string
  hr_HistoryFingerprint :: string
  hr_Timestamp :: time
  hr_Unit :: "string ptr"
  hr_Mean :: "f64 ptr"
  hr_Data :: "f64 list"
  hr_RunTags :: "json ptr"
  hr_InfoTags :: "json ptr"
  hr_ChangeAnnotations :: "json ptr"
  hr_HardwareHash :: string
  hr_CommitSha :: string
  hr_CommitRepository :: string
  hr_CommitMessage :: string
  hr_CommitTimestamp :: "time ptr"

record CIReportRunRow =
  ru_RunID :: string
  ru_RunTags :: "json ptr"
  ru_RunReason :: "string ptr"
  ru_CommitRepoURL :: string
  ru_CommitID :: "string ptr"
  ru_CommitSha :: "string ptr"
  ru_CommitRepository :: "string ptr"
  ru_CommitParent :: "string ptr"
  ru_CommitForkPointSha :: "string ptr"
  ru_CommitTimestamp :: "time ptr"

record CIReportRunKey =
  rk_RunID :: string
  rk_CommitID :: string

record CIReportCommitRow =
  cc_CommitID :: string
  cc_CommitSha :: string
  cc_Repository :: string
  cc_Parent :: "string ptr"
  cc_ForkPointSha :: "string ptr"
  cc_Timestamp :: "time ptr"
  cc_Message :: string

record CIReportResultRow =
  rr_ResultID :: string
  rr_RunID :: string
  rr_ResultTimestamp :: time
  rr_HistoryFingerprint :: string
  rr_CaseName :: string
  rr_CaseTags :: "json ptr"
  rr_ContextTags :: "json ptr"
  rr_InfoTags :: "json ptr"
  rr_HardwareID :: string
  rr_HardwareType :: string
  rr_HardwareName :: string
  rr_HardwareHash :: string
  rr_CommitID :: "string ptr"
  rr_CommitSha :: "string ptr"
  rr_CommitRepository :: "string ptr"
  rr_CommitParent :: "string ptr"
  rr_CommitForkPointSha :: "string ptr"
  rr_CommitTimestamp :: "time ptr"
  rr_Unit :: "string ptr"
  rr_Data :: "f64 ptr list"
  rr_Error :: "json ptr"
  rr_ChangeAnnotations :: "json ptr"

section \<open>Queries\<close>

text \<open>\<open>LEFT JOIN commit c ON c.id = br.commit_id\<close>.\<close>

definition commit_of :: "db \<Rightarrow> result_rec \<Rightarrow> commit_row ptr" where
  "commit_of d r = (case br_commit_id r of None \<Rightarrow> None | Some i \<Rightarrow> find (\<lambda>c. c_id c = i) (db_commits d))"

subsection \<open>compare.sql and history.sql\<close>

definition GetResultForCompare :: "db \<Rightarrow> string \<Rightarrow> CompareResultRow result" where
  "GetResultForCompare d i = (case find (\<lambda>r. br_id r = i) (db_results d) of
     None \<Rightarrow> Inl ErrNotFound
   | Some r \<Rightarrow> Inr \<lparr>cr_ID = br_id r, cr_RunID = br_run_id r, cr_HistoryFingerprint = br_fingerprint r,
       cr_Unit = br_unit r, cr_Data = br_data r, cr_Error = br_error r, cr_CommitID = br_commit_id r,
       cr_CommitTimestamp = (case commit_of d r of None \<Rightarrow> None | Some c \<Rightarrow> c_timestamp c)\<rparr>)"

definition denseFloats :: "f64 ptr list \<Rightarrow> f64 list" where
  "denseFloats xs = (if list_ex (\<lambda>x. x = None) xs then [] else map the xs)"

text \<open>Membership of a history: no error, on the default branch, with a commit time.\<close>

definition history_member :: "db \<Rightarrow> string \<Rightarrow> time ptr \<Rightarrow> result_rec \<Rightarrow> bool" where
  "history_member d fingerprint asOf r \<longleftrightarrow> br_error r = None \<and> br_fingerprint r = fingerprint \<and>
     (case commit_of d r of None \<Rightarrow> False
      | Some c \<Rightarrow> c_fork_point_sha c = Some (c_sha c) \<and>
          (case c_timestamp c of None \<Rightarrow> False
           | Some t \<Rightarrow> (case asOf of None \<Rightarrow> True | Some a \<Rightarrow> t \<le> a)))"

definition history_row :: "db \<Rightarrow> result_rec \<Rightarrow> HistoryRow" where
  "history_row d r = (let c = the (commit_of d r) in
     \<lparr>hr_ID = br_id r, hr_HistoryFingerprint = br_fingerprint r, hr_Timestamp = br_timestamp r,
      hr_Unit = br_unit r, hr_Mean = br_mean r, hr_Data = denseFloats (br_data r),
      hr_RunTags = Some (br_run_tags r), hr_InfoTags = br_info_tags r,
      hr_ChangeAnnotations = br_change_annotations r, hr_HardwareHash = br_hw_hash r,
      hr_CommitSha = c_sha c, hr_CommitRepository = c_repository c, hr_CommitMessage = c_message c,
      hr_CommitTimestamp = c_timestamp c\<rparr>)"

definition history_less :: "(string \<Rightarrow> string \<Rightarrow> bool) \<Rightarrow> HistoryRow \<Rightarrow> HistoryRow \<Rightarrow> bool" where
  "history_less coll a b \<longleftrightarrow> the (hr_CommitTimestamp a) < the (hr_CommitTimestamp b) \<or>
     the (hr_CommitTimestamp a) = the (hr_CommitTimestamp b) \<and> coll (hr_ID a) (hr_ID b)"

definition SelectHistoryForFingerprint :: "(string \<Rightarrow> string \<Rightarrow> bool) \<Rightarrow> db \<Rightarrow> string \<Rightarrow> HistoryRow list" where
  "SelectHistoryForFingerprint coll d fingerprint =
     stable_sort (history_less coll) (map (history_row d) (filter (history_member d fingerprint None) (db_results d)))"

definition SelectHistoryForFingerprintAsOf ::
  "(string \<Rightarrow> string \<Rightarrow> bool) \<Rightarrow> db \<Rightarrow> string \<Rightarrow> time \<Rightarrow> HistoryRow list" where
  "SelectHistoryForFingerprintAsOf coll d fingerprint asOf =
     stable_sort (history_less coll)
       (map (history_row d) (filter (history_member d fingerprint (Some asOf)) (db_results d)))"

subsection \<open>ci_report.sql\<close>

definition key_matches :: "CIReportRunKey \<Rightarrow> result_rec \<Rightarrow> bool" where
  "key_matches k r \<longleftrightarrow> br_run_id r = rk_RunID k \<and> br_commit_id r = Some (rk_CommitID k)"

text \<open>A join with the list of keys: one copy of a result for every key it matches.\<close>

definition join_keys :: "db \<Rightarrow> CIReportRunKey list \<Rightarrow> result_rec list" where
  "join_keys d keys = concat (map (\<lambda>r. map (\<lambda>k. r) (filter (\<lambda>k. key_matches k r) keys)) (db_results d))"

definition CountCIReportRows :: "db \<Rightarrow> CIReportRunKey list \<Rightarrow> nat" where
  "CountCIReportRows d keys = length (join_keys d keys)"

definition commit_report_row :: "commit_row \<Rightarrow> CIReportCommitRow" where
  "commit_report_row c = \<lparr>cc_CommitID = c_id c, cc_CommitSha = c_sha c, cc_Repository = c_repository c,
     cc_Parent = c_parent c, cc_ForkPointSha = c_fork_point_sha c, cc_Timestamp = c_timestamp c,
     cc_Message = c_message c\<rparr>"

definition GetCIReportCommit :: "db \<Rightarrow> string \<Rightarrow> string \<Rightarrow> CIReportCommitRow result" where
  "GetCIReportCommit d repository sha =
     (case find (\<lambda>c. c_repository c = repository \<and> c_sha c = sha) (db_commits d) of
        None \<Rightarrow> Inl ErrNotFound | Some c \<Rightarrow> Inr (commit_report_row c))"

definition SelectLatestDefaultCommit ::
  "(string \<Rightarrow> string \<Rightarrow> bool) \<Rightarrow> db \<Rightarrow> string \<Rightarrow> CIReportCommitRow result" where
  "SelectLatestDefaultCommit coll d repository =
     (case stable_sort (\<lambda>a b. the (c_timestamp b) < the (c_timestamp a) \<or>
              the (c_timestamp a) = the (c_timestamp b) \<and> coll (c_sha b) (c_sha a))
            (filter (\<lambda>c. c_repository c = repository \<and> c_fork_point_sha c = Some (c_sha c) \<and>
                c_timestamp c \<noteq> None) (db_commits d)) of
        [] \<Rightarrow> Inl ErrNotFound | c # _ \<Rightarrow> Inr (commit_report_row c))"

text \<open>The recursive query: the rows of one depth, then of the next, at most \<open>limit\<close> deep.\<close>

fun ancestry_from :: "commit_row list \<Rightarrow> nat \<Rightarrow> commit_row list \<Rightarrow> commit_row list" where
  "ancestry_from t 0 cur = []"
| "ancestry_from t (Suc n) cur =
     cur @ ancestry_from t n
       (concat (map (\<lambda>a. filter (\<lambda>c. c_repository c = c_repository a \<and> c_parent a = Some (c_sha c)) t) cur))"

definition SelectCIReportBaselineAncestry :: "db \<Rightarrow> string \<Rightarrow> string \<Rightarrow> nat \<Rightarrow> CIReportCommitRow list" where
  "SelectCIReportBaselineAncestry d repository sha limit =
     map commit_report_row (ancestry_from (db_commits d) limit
       (filter (\<lambda>c. c_repository c = repository \<and> c_sha c = sha) (db_commits d)))"

definition run_row :: "result_rec \<Rightarrow> commit_row ptr \<Rightarrow> CIReportRunRow" where
  "run_row r c =
     \<lparr>ru_RunID = br_run_id r, ru_RunTags = Some (br_run_tags r), ru_RunReason = br_run_reason r,
      ru_CommitRepoURL = br_commit_repo_url r, ru_CommitID = map_option c_id c,
      ru_CommitSha = map_option c_sha c, ru_CommitRepository = map_option c_repository c,
      ru_CommitParent = Option.bind c c_parent, ru_CommitForkPointSha = Option.bind c c_fork_point_sha,
      ru_CommitTimestamp = Option.bind c c_timestamp\<rparr>"

text \<open>\<open>GROUP BY\<close> all columns keeps one of equal rows.\<close>

definition SelectCIReportRunsByCommit ::
  "(string \<Rightarrow> string \<Rightarrow> bool) \<Rightarrow> db \<Rightarrow> string \<Rightarrow> string \<Rightarrow> CIReportRunRow list" where
  "SelectCIReportRunsByCommit coll d repository sha =
     stable_sort (\<lambda>a b. coll (ru_RunID a) (ru_RunID b))
       (remdups (map (\<lambda>r. run_row r (commit_of d r))
          (filter (\<lambda>r. case commit_of d r of None \<Rightarrow> False
                        | Some c \<Rightarrow> c_repository c = repository \<and> c_sha c = sha) (db_results d))))"

definition SelectCIReportRunsByIDs ::
  "(string \<Rightarrow> string \<Rightarrow> bool) \<Rightarrow> db \<Rightarrow> string list \<Rightarrow> CIReportRunRow list" where
  "SelectCIReportRunsByIDs coll d runIDs =
     stable_sort (\<lambda>a b. coll (ru_RunID a) (ru_RunID b))
       (remdups (map (\<lambda>r. run_row r (commit_of d r))
          (filter (\<lambda>r. br_run_id r \<in> set runIDs) (db_results d))))"

definition result_row :: "db \<Rightarrow> result_rec \<Rightarrow> CIReportResultRow" where
  "result_row d r = (let c = commit_of d r in
     \<lparr>rr_ResultID = br_id r, rr_RunID = br_run_id r, rr_ResultTimestamp = br_timestamp r,
      rr_HistoryFingerprint = br_fingerprint r, rr_CaseName = br_case_name r, rr_CaseTags = br_case_tags r,
      rr_ContextTags = br_context_tags r, rr_InfoTags = br_info_tags r, rr_HardwareID = br_hw_id r,
      rr_HardwareType = br_hw_type r, rr_HardwareName = br_hw_name r, rr_HardwareHash = br_hw_hash r,
      rr_CommitID = map_option c_id c, rr_CommitSha = map_option c_sha c,
      rr_CommitRepository = map_option c_repository c, rr_CommitParent = Option.bind c c_parent,
      rr_CommitForkPointSha = Option.bind c c_fork_point_sha, rr_CommitTimestamp = Option.bind c c_timestamp,
      rr_Unit = br_unit r, rr_Data = br_data r, rr_Error = br_error r,
      rr_ChangeAnnotations = br_change_annotations r\<rparr>)"

text \<open>\<open>DISTINCT ON (run_id, commit_id, history_fingerprint)\<close>: the newest result of each group.\<close>

definition newer :: "(string \<Rightarrow> string \<Rightarrow> bool) \<Rightarrow> result_rec \<Rightarrow> result_rec \<Rightarrow> bool" where
  "newer coll a b \<longleftrightarrow> br_timestamp b < br_timestamp a \<or> br_timestamp a = br_timestamp b \<and> coll (br_id b) (br_id a)"

definition same_group :: "result_rec \<Rightarrow> result_rec \<Rightarrow> bool" where
  "same_group a b \<longleftrightarrow> br_run_id a = br_run_id b \<and> br_commit_id a = br_commit_id b \<and>
     br_fingerprint a = br_fingerprint b"

definition distinct_on :: "(string \<Rightarrow> string \<Rightarrow> bool) \<Rightarrow> result_rec list \<Rightarrow> result_rec list" where
  "distinct_on coll rs = remdups (map (\<lambda>r. hd (stable_sort (newer coll) (filter (same_group r) rs))) rs)"

definition row_order :: "(string \<Rightarrow> string \<Rightarrow> bool) \<Rightarrow> result_rec \<Rightarrow> result_rec \<Rightarrow> bool" where
  "row_order coll a b \<longleftrightarrow> coll (br_run_id a) (br_run_id b) \<or> br_run_id a = br_run_id b \<and>
     (coll (br_fingerprint a) (br_fingerprint b) \<or> br_fingerprint a = br_fingerprint b \<and>
      (br_timestamp a < br_timestamp b \<or> br_timestamp a = br_timestamp b \<and> coll (br_id a) (br_id b)))"

text \<open>The contender rows, then the baseline rows whose fingerprint a contender has.\<close>

definition SelectCIReportRows ::
  "(string \<Rightarrow> string \<Rightarrow> bool) \<Rightarrow> db \<Rightarrow> CIReportRunKey list \<Rightarrow> CIReportRunKey list \<Rightarrow> CIReportResultRow list" where
  "SelectCIReportRows coll d runs baselineRuns =
     (let contenders = join_keys d runs;
          baselines = distinct_on coll (filter (\<lambda>r. br_fingerprint r \<in> br_fingerprint ` set contenders)
                        (join_keys d baselineRuns))
      in map (result_row d) (stable_sort (row_order coll) contenders @ stable_sort (row_order coll) baselines))"

section \<open>The read port\<close>

text \<open>
  \<open>storage.Store\<close>, the interface the services read through (the methods used here): any
  call may fail. \<open>db_storage\<close> is its implementation by the queries above.
\<close>

record storage =
  st_GetResultForCompare :: "string \<Rightarrow> CompareResultRow result"
  st_SelectHistory :: "string \<Rightarrow> HistoryRow list result"
  st_SelectHistoryAsOf :: "string \<Rightarrow> time \<Rightarrow> HistoryRow list result"
  st_RunsByCommit :: "string \<Rightarrow> string \<Rightarrow> CIReportRunRow list result"
  st_RunsByIDs :: "string list \<Rightarrow> CIReportRunRow list result"
  st_GetCommit :: "string \<Rightarrow> string \<Rightarrow> CIReportCommitRow result"
  st_LatestDefault :: "string \<Rightarrow> CIReportCommitRow result"
  st_Ancestry :: "string \<Rightarrow> string \<Rightarrow> nat \<Rightarrow> CIReportCommitRow list result"
  st_CountRows :: "CIReportRunKey list \<Rightarrow> nat result"
  st_SelectRows :: "CIReportRunKey list \<Rightarrow> CIReportRunKey list \<Rightarrow> CIReportResultRow list result"

definition db_storage :: "(string \<Rightarrow> string \<Rightarrow> bool) \<Rightarrow> db \<Rightarrow> storage" where
  "db_storage coll d =
     \<lparr>st_GetResultForCompare = GetResultForCompare d,
      st_SelectHistory = (\<lambda>fp. Inr (SelectHistoryForFingerprint coll d fp)),
      st_SelectHistoryAsOf = (\<lambda>fp asOf. Inr (SelectHistoryForFingerprintAsOf coll d fp asOf)),
      st_RunsByCommit = (\<lambda>repository sha. Inr (SelectCIReportRunsByCommit coll d repository sha)),
      st_RunsByIDs = (\<lambda>ids. Inr (SelectCIReportRunsByIDs coll d ids)),
      st_GetCommit = GetCIReportCommit d,
      st_LatestDefault = SelectLatestDefaultCommit coll d,
      st_Ancestry = (\<lambda>repository sha limit. Inr (SelectCIReportBaselineAncestry d repository sha limit)),
      st_CountRows = (\<lambda>keys. Inr (CountCIReportRows d keys)),
      st_SelectRows = (\<lambda>runs baselineRuns. Inr (SelectCIReportRows coll d runs baselineRuns))\<rparr>"

end
