(* ===== verification/Compare.thy ===== *)
theory Compare
  imports ResultStore Stats_Verdict
begin

text \<open>
  \<^verbatim>\<open>internal/service/compare.go\<close> and the part of \<^verbatim>\<open>internal/service/read.go\<close> it rests on:
  single value summaries of stored results, the comparison of two results, and the history
  of a fingerprint with its rolling statistics. Errors are values; \<open>Panicked\<close> is a
  run-time panic inside a called function, which no handler of the service recovers. The
  display rounding calls \<open>math.Log10\<close> and \<open>math.Pow\<close>, whose last bits Go leaves to the
  platform; they are the record \<open>mathlib\<close>.
\<close>

section \<open>Definitions\<close>

datatype not_comparable =
  ResultFailed string | SummaryError svs_error | NoSummary string | UnitsDiffer string string
| DirectionUnknown string | FingerprintsDiffer

datatype svc_error =
  SvcNotFound
| NotComparable not_comparable
| ValidationError string
| SvcStore string db_error
| SvcJson json_error
| SvcSVS svs_error
| EmptyHistorySample
| Panicked

type_synonym 'a svc = "svc_error + 'a"

definition svc_bind :: "'a svc \<Rightarrow> ('a \<Rightarrow> 'b svc) \<Rightarrow> 'b svc" where
  "svc_bind m f = (case m of Inl e \<Rightarrow> Inl e | Inr x \<Rightarrow> f x)"

definition of_store :: "string \<Rightarrow> 'a result \<Rightarrow> 'a svc" where
  "of_store what r = (case r of Inl e \<Rightarrow> Inl (SvcStore what e) | Inr x \<Rightarrow> Inr x)"

definition of_json :: "json_error + 'a \<Rightarrow> 'a svc" where
  "of_json r = (case r of Inl e \<Rightarrow> Inl (SvcJson e) | Inr x \<Rightarrow> Inr x)"

definition of_svs :: "svs_error + 'a \<Rightarrow> 'a svc" where
  "of_svs r = (case r of Inl e \<Rightarrow> Inl (SvcSVS e) | Inr x \<Rightarrow> Inr x)"

definition of_panic :: "'a option \<Rightarrow> 'a svc" where
  "of_panic r = (case r of None \<Rightarrow> Inl Panicked | Some x \<Rightarrow> Inr x)"

subsection \<open>Summaries (read.go, ingest.go)\<close>

definition defaultSVSMode :: string where "defaultSVSMode = SVSModeBest"

text \<open>\<open>None\<close> is the nil slice.\<close>

definition nonNullFloats :: "f64 ptr list \<Rightarrow> f64 list option" where
  "nonNullFloats xs = (if xs = [] then None else if list_ex (\<lambda>x. x = None) xs then None else Some (map the xs))"

definition lessIsBetterPtr :: "string ptr \<Rightarrow> bool ptr" where
  "lessIsBetterPtr unit = (case unit of None \<Rightarrow> None
     | Some u \<Rightarrow> (case LessIsBetter u of Inl _ \<Rightarrow> None | Inr b \<Rightarrow> Some b))"

definition resultSVS :: "string ptr \<Rightarrow> f64 list option \<Rightarrow> bool \<Rightarrow> svs_error + f64 ptr \<times> string" where
  "resultSVS unit data errored =
     (case data of
        None \<Rightarrow> Inr (None, case SVSType unit defaultSVSMode of Inl _ \<Rightarrow> ''n/a'' | Inr t \<Rightarrow> t)
      | Some xs \<Rightarrow>
         (if errored \<or> xs = []
          then Inr (None, case SVSType unit defaultSVSMode of Inl _ \<Rightarrow> ''n/a'' | Inr t \<Rightarrow> t)
          else case SVSType unit defaultSVSMode of
             Inl e \<Rightarrow> Inl e
           | Inr t \<Rightarrow> (case SingleValueSummary xs unit defaultSVSMode of
                Inl e \<Rightarrow> Inl e | Inr v \<Rightarrow> Inr (Some v, t))))"

definition historySVS :: "string ptr \<Rightarrow> f64 list \<Rightarrow> (f64 \<times> string) svc" where
  "historySVS unit data =
     svc_bind (of_svs (SVSType unit defaultSVSMode)) (\<lambda>svsType.
     svc_bind (of_svs (SingleValueSummary data unit defaultSVSMode)) (\<lambda>v.
       if v = NaN then Inl EmptyHistorySample else Inr (v, svsType)))"

definition sameUnitPtr :: "string ptr \<Rightarrow> string ptr \<Rightarrow> bool" where
  "sameUnitPtr a b = (case (a, b) of (Some x, Some y) \<Rightarrow> x = y | _ \<Rightarrow> False)"

text \<open>\<open>time.Time{}\<close>: the first of January of year 1.\<close>

definition zero_time :: time where "zero_time = - 62135596800 * 10 ^ 9"

definition seriesPointFromRow :: "HistoryRow \<Rightarrow> f64 \<Rightarrow> SeriesPoint svc" where
  "seriesPointFromRow row svs =
     svc_bind (of_json (beginsDistributionChange (hr_ChangeAnnotations row))) (\<lambda>begins.
       Inr \<lparr>CommitTimestamp = (case hr_CommitTimestamp row of None \<Rightarrow> zero_time | Some t \<Rightarrow> t),
            ResultTimestamp = hr_Timestamp row, SVS = svs, PointBegins = begins\<rparr>)"

subsection \<open>compare.go\<close>

record mathlib =
  ml_Log10 :: "f64 \<Rightarrow> f64"
  ml_Pow10 :: "int \<Rightarrow> f64"

text \<open>\<open>math.Round\<close>: half away from zero.\<close>

definition fround :: "f64 \<Rightarrow> f64" where
  "fround x = (case x of
     Fin r \<Rightarrow> (if r < 0 then (if -1/2 < r then NZero else Fin (of_int \<lceil>r - 1/2\<rceil>)) else Fin (of_int \<lfloor>r + 1/2\<rfloor>))
   | _ \<Rightarrow> x)"

definition round4SigFigs :: "mathlib \<Rightarrow> f64 \<Rightarrow> f64" where
  "round4SigFigs ml x =
     (if feq x (Fin 0) \<or> x = NaN \<or> x = PInf \<or> x = NInf then x
      else let power = 4 - f_to_int (fceil (ml_Log10 ml (fabs x)));
               mag = ml_Pow10 ml power
           in fdiv (fround (fmul x mag)) mag)"

record CompareSide =
  cs_ID :: string
  cs_SVS :: f64
  cs_RunID :: string

record PairwiseAnalysis =
  pa_PercentChange :: f64
  pa_PercentThreshold :: f64
  pa_RegressionIndicated :: bool
  pa_ImprovementIndicated :: bool

record LookbackAnalysis =
  la_ZScore :: f64
  la_ZThreshold :: f64
  la_RegressionIndicated :: bool
  la_ImprovementIndicated :: bool

record CompareAnalysis =
  an_Pairwise :: "PairwiseAnalysis ptr"
  an_LookbackZScore :: "LookbackAnalysis ptr"

record CompareResult =
  co_Unit :: string
  co_LessIsBetter :: bool
  co_Baseline :: CompareSide
  co_Contender :: CompareSide
  co_Analysis :: CompareAnalysis

definition loadCompareResult :: "storage \<Rightarrow> string \<Rightarrow> CompareResultRow svc" where
  "loadCompareResult st i = (case st_GetResultForCompare st i of
     Inl e \<Rightarrow> Inl (if e = ErrNotFound then SvcNotFound else SvcStore ''load result for compare'' e)
   | Inr r \<Rightarrow> Inr r)"

definition comparableSVS :: "CompareResultRow \<Rightarrow> f64 svc" where
  "comparableSVS row =
     (if cr_Error row \<noteq> None \<or> cr_Unit row = None \<or> cr_Data row = []
      then Inl (NotComparable (ResultFailed (cr_ID row)))
      else case nonNullFloats (cr_Data row) of
         None \<Rightarrow> Inl (NotComparable (ResultFailed (cr_ID row)))
       | Some xs \<Rightarrow> (case SingleValueSummary xs (cr_Unit row) defaultSVSMode of
            Inl e \<Rightarrow> Inl (NotComparable (SummaryError e))
          | Inr svs \<Rightarrow> (if svs = NaN then Inl (NotComparable (NoSummary (cr_ID row))) else Inr svs)))"

definition pairwiseAnalysis :: "mathlib \<Rightarrow> f64 \<Rightarrow> f64 \<Rightarrow> bool \<Rightarrow> f64 \<Rightarrow> PairwiseAnalysis ptr" where
  "pairwiseAnalysis ml baseSVS contSVS lessIsBetter threshold =
     (case PairwiseVerdict baseSVS contSVS lessIsBetter threshold of
        None \<Rightarrow> None
      | Some v \<Rightarrow> Some \<lparr>pa_PercentChange = round4SigFigs ml (PercentChange v),
          pa_PercentThreshold = PercentThreshold v, pa_RegressionIndicated = PairRegression v,
          pa_ImprovementIndicated = PairImprovement v\<rparr>)"

text \<open>
  The loop over the window: \<open>None\<close> is the early return on a row of another unit, before
  later rows are looked at.
\<close>

fun lookback_points :: "string \<Rightarrow> HistoryRow list \<Rightarrow> SeriesPoint list option svc" where
  "lookback_points unit [] = Inr (Some [])"
| "lookback_points unit (row # rows) =
     (if \<not> sameUnitPtr (hr_Unit row) (Some unit) then Inr None
      else svc_bind (historySVS (hr_Unit row) (hr_Data row)) (\<lambda>(svs, _).
           svc_bind (seriesPointFromRow row svs) (\<lambda>point.
           svc_bind (lookback_points unit rows) (\<lambda>rest.
             Inr (case rest of None \<Rightarrow> None | Some ps \<Rightarrow> Some (point # ps))))))"

definition lookbackAnalysis ::
  "mathlib \<Rightarrow> storage \<Rightarrow> CompareResultRow \<Rightarrow> CompareResultRow \<Rightarrow> f64 \<Rightarrow> string \<Rightarrow> bool \<Rightarrow> f64 \<Rightarrow> LookbackAnalysis ptr svc" where
  "lookbackAnalysis ml st contender baseline contSVS unit lessIsBetter thresholdZ =
     (case (cr_CommitID baseline, cr_CommitTimestamp baseline) of
        (Some _, Some asOf) \<Rightarrow>
          svc_bind (of_store ''lookback window'' (st_SelectHistoryAsOf st (cr_HistoryFingerprint contender) asOf)) (\<lambda>rows.
          if rows = [] then Inr None
          else svc_bind (lookback_points unit rows) (\<lambda>points.
            (case points of None \<Rightarrow> Inr None
             | Some ps \<Rightarrow>
                svc_bind (of_panic (BaselineDistribution ps DistributionCommitsDefault)) (\<lambda>(m, sd).
                (case LookbackZVerdict (ZScore (Some contSVS) lessIsBetter m sd) thresholdZ of
                   None \<Rightarrow> Inr None
                 | Some v \<Rightarrow> Inr (Some \<lparr>la_ZScore = round4SigFigs ml (LookbackZ v), la_ZThreshold = ZThreshold v,
                     la_RegressionIndicated = LookRegression v, la_ImprovementIndicated = LookImprovement v\<rparr>))))))
      | _ \<Rightarrow> Inr None)"

definition Compare :: "mathlib \<Rightarrow> storage \<Rightarrow> string \<Rightarrow> string \<Rightarrow> f64 \<Rightarrow> f64 \<Rightarrow> CompareResult svc" where
  "Compare ml st baselineID contenderID threshold thresholdZ =
     svc_bind (loadCompareResult st baselineID) (\<lambda>baseline.
     svc_bind (loadCompareResult st contenderID) (\<lambda>contender.
     svc_bind (comparableSVS baseline) (\<lambda>baseSVS.
     svc_bind (comparableSVS contender) (\<lambda>contSVS.
     let unit = the (cr_Unit contender) in
     if the (cr_Unit baseline) \<noteq> unit
     then Inl (NotComparable (UnitsDiffer (the (cr_Unit baseline)) unit))
     else case LessIsBetter unit of
        Inl _ \<Rightarrow> Inl (NotComparable (DirectionUnknown unit))
      | Inr lessIsBetter \<Rightarrow>
         (if cr_HistoryFingerprint baseline \<noteq> cr_HistoryFingerprint contender
          then Inl (NotComparable FingerprintsDiffer)
          else svc_bind (lookbackAnalysis ml st contender baseline contSVS unit lessIsBetter thresholdZ) (\<lambda>lookback.
            Inr \<lparr>co_Unit = unit, co_LessIsBetter = lessIsBetter,
                 co_Baseline = \<lparr>cs_ID = cr_ID baseline, cs_SVS = baseSVS, cs_RunID = cr_RunID baseline\<rparr>,
                 co_Contender = \<lparr>cs_ID = cr_ID contender, cs_SVS = contSVS, cs_RunID = cr_RunID contender\<rparr>,
                 co_Analysis = \<lparr>an_Pairwise = pairwiseAnalysis ml baseSVS contSVS lessIsBetter threshold,
                                an_LookbackZScore = lookback\<rparr>\<rparr>))))))"

subsection \<open>History (read.go)\<close>

record HistorySample =
  hs_ID :: string
  hs_ResultTimestamp :: time
  hs_Mean :: "f64 ptr"
  hs_Data :: "f64 list"
  hs_SVS :: f64
  hs_SVSType :: string
  hs_Unit :: "string ptr"
  hs_HardwareHash :: string
  hs_CommitHash :: string
  hs_CommitRepository :: string
  hs_CommitMessage :: string
  hs_CommitTimestamp :: "time ptr"
  hs_RunTags :: any_map
  hs_Info :: any_map
  hs_ChangeAnnotations :: any_map
  hs_ZScoreStats :: "RollingStats ptr"

definition or_empty :: "any_map option \<Rightarrow> any_map" where
  "or_empty m = (case m of None \<Rightarrow> [] | Some x \<Rightarrow> x)"

definition history_sample :: "HistoryRow \<Rightarrow> (HistorySample \<times> SeriesPoint) svc" where
  "history_sample row =
     svc_bind (of_json (jsonObject (hr_RunTags row))) (\<lambda>runTags.
     svc_bind (of_json (jsonObject (hr_InfoTags row))) (\<lambda>info.
     svc_bind (of_json (jsonObject (hr_ChangeAnnotations row))) (\<lambda>ca.
     svc_bind (historySVS (hr_Unit row) (hr_Data row)) (\<lambda>(svs, svsType).
     svc_bind (seriesPointFromRow row svs) (\<lambda>point.
       Inr (\<lparr>hs_ID = hr_ID row, hs_ResultTimestamp = hr_Timestamp row, hs_Mean = hr_Mean row,
             hs_Data = hr_Data row, hs_SVS = svs, hs_SVSType = svsType, hs_Unit = hr_Unit row,
             hs_HardwareHash = hr_HardwareHash row, hs_CommitHash = hr_CommitSha row,
             hs_CommitRepository = hr_CommitRepository row, hs_CommitMessage = hr_CommitMessage row,
             hs_CommitTimestamp = hr_CommitTimestamp row, hs_RunTags = or_empty runTags,
             hs_Info = or_empty info, hs_ChangeAnnotations = or_empty ca, hs_ZScoreStats = None\<rparr>, point))))))"

definition History :: "storage \<Rightarrow> string \<Rightarrow> (string \<times> HistorySample list) svc" where
  "History st fingerprint =
     svc_bind (of_store ''select history'' (st_SelectHistory st fingerprint)) (\<lambda>rows.
     svc_bind (map_err history_sample rows) (\<lambda>sps.
       let samples = map fst sps; points = map snd sps;
           singleUnit = list_all (\<lambda>r. sameUnitPtr (hr_Unit (hd rows)) (hr_Unit r)) (tl rows) in
       if singleUnit \<and> samples \<noteq> [] then
         svc_bind (of_panic (RollingStatsForSeries points False DistributionCommitsDefault)) (\<lambda>rolling.
           Inr (fingerprint, map (\<lambda>(s, z). s\<lparr>hs_ZScoreStats := Some z\<rparr>) (zip samples rolling)))
       else Inr (fingerprint, samples)))"

section \<open>Lemmas\<close>

lemma svc_bind_Inr [simp]: "svc_bind (Inr x) f = f x"
  by (simp add: svc_bind_def)

lemma svc_bind_Inl [simp]: "svc_bind (Inl e) f = Inl e"
  by (simp add: svc_bind_def)

lemma svc_bind_Inr_iff: "svc_bind m f = Inr y \<longleftrightarrow> (\<exists>x. m = Inr x \<and> f x = Inr y)"
  by (cases m) auto

lemma svc_bind_Inl_iff: "svc_bind m f = Inl e \<longleftrightarrow> m = Inl e \<or> (\<exists>x. m = Inr x \<and> f x = Inl e)"
  by (cases m) auto

lemmas svc_bind_iff = svc_bind_Inr_iff svc_bind_Inl_iff

lemma of_Inr_iff [simp]:
  "of_store w r = Inr x \<longleftrightarrow> r = Inr x" "of_json j = Inr y \<longleftrightarrow> j = Inr y"
  "of_svs s = Inr z \<longleftrightarrow> s = Inr z" "of_panic p = Inr v \<longleftrightarrow> p = Some v"
  by (auto simp: of_store_def of_json_def of_svs_def of_panic_def split: sum.splits option.splits)

lemma of_not_comparable [simp]:
  "of_store w r \<noteq> Inl (NotComparable n)" "of_json j \<noteq> Inl (NotComparable n)"
  "of_svs s \<noteq> Inl (NotComparable n)" "of_panic p \<noteq> Inl (NotComparable n)"
  by (auto simp: of_store_def of_json_def of_svs_def of_panic_def split: sum.splits option.splits)

text \<open>Only the two sides decide about comparability; the look-back window never does.\<close>

lemma lookback_points_comparable: "lookback_points u rows \<noteq> Inl (NotComparable n)"
  by (induction rows) (auto simp: svc_bind_iff historySVS_def seriesPointFromRow_def split: if_splits)

lemma lookbackAnalysis_comparable: "lookbackAnalysis ml st c b s u lib tz \<noteq> Inl (NotComparable n)"
  by (auto simp: lookbackAnalysis_def svc_bind_iff lookback_points_comparable split: option.splits if_splits)

lemma comparableSVS_Inr:
  assumes "comparableSVS row = Inr v"
  shows "\<exists>u lib xs. cr_Unit row = Some u \<and> LessIsBetter u = Inr lib \<and> cr_Error row = None \<and>
    cr_Data row = map Some xs \<and> xs \<noteq> [] \<and> v = (if lib then minOf xs else maxOf xs) \<and> v \<noteq> NaN"
proof -
  have n: "cr_Error row = None" "cr_Data row \<noteq> []" and "cr_Unit row \<noteq> None"
    using assms by (auto simp: comparableSVS_def split: if_splits)
  then obtain u where u: "cr_Unit row = Some u" by blast
  have d: "\<not> list_ex (\<lambda>x. x = None) (cr_Data row)"
    using assms by (auto simp: comparableSVS_def nonNullFloats_def split: if_splits)
  then have m: "cr_Data row = map Some (map the (cr_Data row))"
    by (auto simp: list_ex_iff intro!: map_idI [symmetric]) (metis option.exhaust_sel)
  show ?thesis
    using assms n u d m
    by (auto simp: comparableSVS_def nonNullFloats_def SingleValueSummary_def defaultSVSMode_def
          SVSModeBest_def SVSModeMean_def split: if_splits sum.splits intro!: exI [of _ "map the (cr_Data row)"])
qed

text \<open>Two loaded results can be compared.\<close>

definition comparable :: "CompareResultRow \<Rightarrow> CompareResultRow \<Rightarrow> bool" where
  "comparable a b \<longleftrightarrow> (\<exists>v. comparableSVS a = Inr v) \<and> (\<exists>v. comparableSVS b = Inr v) \<and>
     cr_Unit a = cr_Unit b \<and> cr_HistoryFingerprint a = cr_HistoryFingerprint b"

lemma comparableSVS_Inl: "comparableSVS row = Inl e \<Longrightarrow> \<exists>n. e = NotComparable n"
  by (auto simp: comparableSVS_def split: if_splits option.splits sum.splits)

lemma Compare_comparable:
  assumes "loadCompareResult st a = Inr ra" "loadCompareResult st b = Inr rb"
  shows "(\<exists>n. Compare ml st a b t tz = Inl (NotComparable n)) \<longleftrightarrow> \<not> comparable ra rb"
proof (cases "(\<exists>v. comparableSVS ra = Inr v) \<and> (\<exists>v. comparableSVS rb = Inr v)")
  case False
  then show ?thesis using assms comparableSVS_Inl [of ra] comparableSVS_Inl [of rb]
    by (cases "comparableSVS ra"; cases "comparableSVS rb") (auto simp: Compare_def comparable_def)
next
  case True
  then obtain va vb where v: "comparableSVS ra = Inr va" "comparableSVS rb = Inr vb" by blast
  obtain ua where ua: "cr_Unit ra = Some ua" using comparableSVS_Inr [OF v(1)] by blast
  obtain ub lib where ub: "cr_Unit rb = Some ub" "LessIsBetter ub = Inr lib" using comparableSVS_Inr [OF v(2)] by blast
  show ?thesis
    using assms v ua ub
    by (auto simp: Compare_def comparable_def svc_bind_iff lookbackAnalysis_comparable Let_def)
qed

lemma Compare_Inr:
  assumes "Compare ml st a b t tz = Inr r"
  obtains ra rb va vb u lib lookback where
    "loadCompareResult st a = Inr ra" "loadCompareResult st b = Inr rb"
    "comparableSVS ra = Inr va" "comparableSVS rb = Inr vb" "cr_Unit ra = Some u" "cr_Unit rb = Some u"
    "LessIsBetter u = Inr lib" "cr_HistoryFingerprint ra = cr_HistoryFingerprint rb"
    "lookbackAnalysis ml st rb ra vb u lib tz = Inr lookback"
    "r = \<lparr>co_Unit = u, co_LessIsBetter = lib,
          co_Baseline = \<lparr>cs_ID = cr_ID ra, cs_SVS = va, cs_RunID = cr_RunID ra\<rparr>,
          co_Contender = \<lparr>cs_ID = cr_ID rb, cs_SVS = vb, cs_RunID = cr_RunID rb\<rparr>,
          co_Analysis = \<lparr>an_Pairwise = pairwiseAnalysis ml va vb lib t, an_LookbackZScore = lookback\<rparr>\<rparr>"
proof -
  obtain ra rb va vb where l: "loadCompareResult st a = Inr ra" "loadCompareResult st b = Inr rb"
    "comparableSVS ra = Inr va" "comparableSVS rb = Inr vb"
    using assms by (auto simp: Compare_def svc_bind_Inr_iff)
  obtain ua where ua: "cr_Unit ra = Some ua" using comparableSVS_Inr [OF l(3)] by blast
  obtain u lib where ub: "cr_Unit rb = Some u" "LessIsBetter u = Inr lib" using comparableSVS_Inr [OF l(4)] by blast
  have "ua = u" "cr_HistoryFingerprint ra = cr_HistoryFingerprint rb"
    using assms l ua ub by (auto simp: Compare_def Let_def split: if_splits)
  moreover obtain lookback where "lookbackAnalysis ml st rb ra vb u lib tz = Inr lookback"
    using assms l ua ub calculation by (auto simp: Compare_def Let_def svc_bind_Inr_iff)
  ultimately show thesis using that l ua ub assms by (auto simp: Compare_def Let_def)
qed

text \<open>A result that is no member of the window leaves it as it is.\<close>

lemma history_unchanged:
  assumes "\<not> history_member d fp (Some asOf) x"
  shows "SelectHistoryForFingerprintAsOf coll (d\<lparr>db_results := db_results d @ [x]\<rparr>) fp asOf =
    SelectHistoryForFingerprintAsOf coll d fp asOf"
proof -
  have c: "commit_of (d\<lparr>db_results := db_results d @ [x]\<rparr>) = commit_of d"
    by (rule ext) (simp add: commit_of_def split: option.splits)
  have m: "history_member (d\<lparr>db_results := db_results d @ [x]\<rparr>) = history_member d"
    by (simp add: history_member_def [abs_def] c)
  have "history_row (d\<lparr>db_results := db_results d @ [x]\<rparr>) = history_row d"
    by (simp add: history_row_def [abs_def] c)
  then show ?thesis using assms by (simp add: SelectHistoryForFingerprintAsOf_def m)
qed

lemma GetResultForCompare_unchanged:
  "br_id x \<noteq> i \<Longrightarrow> GetResultForCompare (d\<lparr>db_results := db_results d @ [x]\<rparr>) i = GetResultForCompare d i"
  by (simp add: GetResultForCompare_def find_snoc commit_of_def split: option.splits)

lemma history_less_order: assumes "total_weak_order coll" shows "weak_order (history_less coll)"
proof
  note C = collation_facts [OF assms]
  show "history_less coll x y \<Longrightarrow> \<not> history_less coll y x" for x y
    using C(3) by (auto simp: history_less_def)
  show "history_less coll x z \<Longrightarrow> history_less coll x y \<or> history_less coll y z" for x y z
    using C(2) [of "hr_ID x" "hr_ID z" "hr_ID y"] C(4) [of "hr_ID x" "hr_ID y"] C(4) [of "hr_ID y" "hr_ID z"]
      C(2) [of "hr_ID x" "hr_ID y" "hr_ID z"]
    by (auto simp: history_less_def not_less_iff_gr_or_eq) (metis C(2))+
qed

lemma history_sorted:
  assumes "total_weak_order coll"
  shows "sorted (map (\<lambda>r. the (hr_CommitTimestamp r)) (SelectHistoryForFingerprint coll d fp))"
proof -
  have "sorted_wrt (\<lambda>a b. \<not> history_less coll b a) (SelectHistoryForFingerprint coll d fp)"
    unfolding SelectHistoryForFingerprint_def by (rule weak_order.sort_sorted [OF history_less_order [OF assms]])
  then show ?thesis
    unfolding sorted_map by (rule sorted_wrt_mono_rel [rotated]) (auto simp: history_less_def)
qed

lemma history_sample_fields:
  assumes "history_sample row = Inr (s, p)"
  shows "hs_ID s = hr_ID row" "hs_CommitTimestamp s = hr_CommitTimestamp row" "hs_ZScoreStats s = None"
    "hs_Unit s = hr_Unit row" "hs_SVS s = SVS p" "SVS p \<noteq> NaN"
  using assms by (auto simp: history_sample_def svc_bind_Inr_iff seriesPointFromRow_def historySVS_def split: if_splits prod.splits)

lemma history_sample_unit: "history_sample row = Inr sp \<Longrightarrow> \<exists>u. hr_Unit row = Some u"
  by (cases "hr_Unit row")
     (auto simp: history_sample_def svc_bind_Inr_iff historySVS_def SingleValueSummary_def
        defaultSVSMode_def SVSModeBest_def SVSModeMean_def split: if_splits prod.splits)

lemma single_unit_iff:
  assumes "rows \<noteq> []" "\<And>r. r \<in> set rows \<Longrightarrow> hr_Unit r \<noteq> None"
  shows "list_all (\<lambda>r. sameUnitPtr (hr_Unit (hd rows)) (hr_Unit r)) (tl rows) \<longleftrightarrow>
    (\<exists>u. \<forall>r\<in>set rows. hr_Unit r = Some u)"
proof (cases rows)
  case (Cons a rs)
  then obtain u where u: "hr_Unit a = Some u" using assms(2) [of a] by auto
  have "sameUnitPtr (Some u) x \<longleftrightarrow> x = Some u" for x by (auto simp: sameUnitPtr_def split: option.splits)
  then show ?thesis using Cons u by (auto simp: list_all_iff)
qed (use assms in simp)

lemma RollingStats_length: "RollingStatsForSeries ps b w = Some rs \<Longrightarrow> length rs = length ps"
  by (auto simp: RollingStatsForSeries_def Let_def bind_eq_Some_conv split: if_splits)

lemma LookbackZVerdict_Some:
  "LookbackZVerdict z tz = Some v \<Longrightarrow>
     LookRegression v = flt tz (fneg (LookbackZ v)) \<and> LookImprovement v = flt tz (LookbackZ v)"
  by (auto simp: LookbackZVerdict_def split: option.splits if_splits)

lemma lookbackAnalysis_Some:
  assumes "lookbackAnalysis ml st c b v u lib tz = Inr (Some l)"
  shows "\<exists>z. la_RegressionIndicated l = flt tz (fneg z) \<and> la_ImprovementIndicated l = flt tz z"
proof -
  obtain asOf rows ps m sd r where "LookbackZVerdict (ZScore (Some v) lib m sd) tz = Some r"
    "la_RegressionIndicated l = LookRegression r" "la_ImprovementIndicated l = LookImprovement r"
    using assms by (auto simp: lookbackAnalysis_def svc_bind_Inr_iff split: option.splits if_splits prod.splits)
  then show ?thesis using LookbackZVerdict_Some by blast
qed

text \<open>What a returned history is made of: the decoded rows, with statistics or without.\<close>

lemma History_Inr:
  assumes "History st fp = Inr (fp', ss)"
  obtains rows sps where "st_SelectHistory st fp = Inr rows" "fp' = fp" "map_err history_sample rows = Inr sps"
    "length ss = length rows"
    "\<And>i. i < length rows \<Longrightarrow> \<exists>z. ss ! i = (fst (sps ! i))\<lparr>hs_ZScoreStats := z\<rparr> \<and>
       (z = None \<longleftrightarrow> \<not> list_all (\<lambda>r. sameUnitPtr (hr_Unit (hd rows)) (hr_Unit r)) (tl rows))"
proof -
  obtain rows sps where rows: "st_SelectHistory st fp = Inr rows" and sps: "map_err history_sample rows = Inr sps"
    using assms by (auto simp: History_def svc_bind_Inr_iff)
  have n: "length sps = length rows" and at: "\<And>i. i < length rows \<Longrightarrow> history_sample (rows ! i) = Inr (sps ! i)"
    using sps by (auto simp: map_err_Inr_iff)
  have z: "hs_ZScoreStats (fst (sps ! i)) = None" if "i < length rows" for i
    using history_sample_fields(3) [of "rows ! i" "fst (sps ! i)" "snd (sps ! i)"] at [OF that] by simp
  show thesis
  proof (cases "list_all (\<lambda>r. sameUnitPtr (hr_Unit (hd rows)) (hr_Unit r)) (tl rows) \<and> map fst sps \<noteq> []")
    case True
    then obtain rolling where ro: "RollingStatsForSeries (map snd sps) False DistributionCommitsDefault = Some rolling"
      and ss: "fp' = fp" "ss = map (\<lambda>(s, z). s\<lparr>hs_ZScoreStats := Some z\<rparr>) (zip (map fst sps) rolling)"
      using assms rows sps by (auto simp: History_def svc_bind_Inr_iff Let_def)
    have r: "length rolling = length rows" using RollingStats_length [OF ro] n by simp
    have "ss ! i = (fst (sps ! i))\<lparr>hs_ZScoreStats := Some (rolling ! i)\<rparr>" if "i < length rows" for i
      unfolding ss(2) using that r n by simp
    moreover have "length ss = length rows" using ss(2) r n by simp
    ultimately show thesis using that [OF rows ss(1) sps] True by blast
  next
    case False
    then have fp: "fp' = fp" and ss: "ss = map fst sps"
      using assms rows sps by (auto simp: History_def svc_bind_Inr_iff Let_def split: if_splits)
    have "ss ! i = (fst (sps ! i))\<lparr>hs_ZScoreStats := None\<rparr>" if "i < length rows" for i
      using that n z [OF that] by (simp add: ss)
    moreover have "length ss = length rows" by (simp add: ss n)
    moreover have "rows \<noteq> [] \<Longrightarrow> \<not> list_all (\<lambda>r. sameUnitPtr (hr_Unit (hd rows)) (hr_Unit r)) (tl rows)"
      using False n by auto
    ultimately show thesis using that [OF rows fp sps] by fastforce
  qed
qed

section \<open>Properties\<close>

text \<open>
  C27: A comparison is refused as not comparable exactly when one of the two results failed
  or has no summary, their units differ or they belong to different histories; exchanging
  the two sides never changes that, whatever the history contains. A comparison that
  succeeds has the summaries of both sides, of one unit, and with thresholds that are not
  negative neither analysis indicates a regression and an improvement at once.
\<close>

theorem Compare_sound:
  assumes "loadCompareResult st a = Inr ra" "loadCompareResult st b = Inr rb"
    "fle (Fin 0) t" "fle (Fin 0) tz"
  shows "((\<exists>n. Compare ml st a b t tz = Inl (NotComparable n)) \<longleftrightarrow> \<not> comparable ra rb) \<and>
    ((\<exists>n. Compare ml st a b t tz = Inl (NotComparable n)) \<longleftrightarrow>
     (\<exists>n. Compare ml st b a t tz = Inl (NotComparable n))) \<and>
    (\<forall>r. Compare ml st a b t tz = Inr r \<longrightarrow>
       cr_Unit ra = Some (co_Unit r) \<and> cr_Unit rb = Some (co_Unit r) \<and>
       comparableSVS ra = Inr (cs_SVS (co_Baseline r)) \<and> comparableSVS rb = Inr (cs_SVS (co_Contender r)) \<and>
       (case an_Pairwise (co_Analysis r) of
          None \<Rightarrow> feq (cs_SVS (co_Baseline r)) (Fin 0)
        | Some p \<Rightarrow> \<not> (pa_RegressionIndicated p \<and> pa_ImprovementIndicated p)) \<and>
       (case an_LookbackZScore (co_Analysis r) of
          None \<Rightarrow> True | Some l \<Rightarrow> \<not> (la_RegressionIndicated l \<and> la_ImprovementIndicated l)))"
proof (intro conjI allI impI)
  show c: "(\<exists>n. Compare ml st a b t tz = Inl (NotComparable n)) \<longleftrightarrow> \<not> comparable ra rb"
    by (rule Compare_comparable [OF assms(1,2)])
  show "(\<exists>n. Compare ml st a b t tz = Inl (NotComparable n)) \<longleftrightarrow>
      (\<exists>n. Compare ml st b a t tz = Inl (NotComparable n))"
    unfolding c Compare_comparable [OF assms(2,1)] by (auto simp: comparable_def)
next
  fix r
  assume "Compare ml st a b t tz = Inr r"
  then obtain va vb u lib lookback where v: "comparableSVS ra = Inr va" "comparableSVS rb = Inr vb"
    "cr_Unit ra = Some u" "cr_Unit rb = Some u" "lookbackAnalysis ml st rb ra vb u lib tz = Inr lookback"
    and r: "co_Unit r = u" "cs_SVS (co_Baseline r) = va" "cs_SVS (co_Contender r) = vb"
      "co_Analysis r = \<lparr>an_Pairwise = pairwiseAnalysis ml va vb lib t, an_LookbackZScore = lookback\<rparr>"
    using assms(1,2) by (elim Compare_Inr) auto
  show "cr_Unit ra = Some (co_Unit r)" "cr_Unit rb = Some (co_Unit r)"
    "comparableSVS ra = Inr (cs_SVS (co_Baseline r))" "comparableSVS rb = Inr (cs_SVS (co_Contender r))"
    using v r by simp_all
  show "case an_Pairwise (co_Analysis r) of
          None \<Rightarrow> feq (cs_SVS (co_Baseline r)) (Fin 0)
        | Some p \<Rightarrow> \<not> (pa_RegressionIndicated p \<and> pa_ImprovementIndicated p)"
    using threshold_exclusive [OF assms(3)]
    by (auto simp: r pairwiseAnalysis_def PairwiseVerdict_def Let_def split: if_splits)
  show "case an_LookbackZScore (co_Analysis r) of
          None \<Rightarrow> True | Some l \<Rightarrow> \<not> (la_RegressionIndicated l \<and> la_ImprovementIndicated l)"
  proof (cases lookback)
    case (Some l)
    then show ?thesis using lookbackAnalysis_Some [of ml st rb ra vb u lib tz l] v(5) threshold_exclusive [OF assms(4)]
      by (auto simp: r)
  qed (simp add: r)
qed

definition demo_math :: mathlib where
  "demo_math = \<lparr>ml_Log10 = (\<lambda>x. Fin 1), ml_Pow10 = (\<lambda>n. Fin (10 powi n))\<rparr>"

definition demo_result :: "string \<Rightarrow> string \<Rightarrow> string \<Rightarrow> f64 list \<Rightarrow> string ptr \<Rightarrow> result_rec" where
  "demo_result i run unit data commit =
     \<lparr>br_id = i, br_run_id = run, br_run_tags = JObj [], br_run_reason = None, br_commit_repo_url = ''r'',
      br_timestamp = 0, br_fingerprint = ''f'', br_case_name = ''bench'', br_case_tags = None,
      br_context_tags = None, br_info_tags = None, br_hw_id = ''h'', br_hw_type = ''machine'',
      br_hw_name = ''m'', br_hw_hash = ''mh'', br_commit_id = commit, br_unit = Some unit, br_mean = None,
      br_data = map Some data, br_error = None, br_change_annotations = None\<rparr>"

definition demo_commit :: "string \<Rightarrow> time \<Rightarrow> commit_row" where
  "demo_commit sha ts = \<lparr>c_id = sha, c_sha = sha, c_parent = None, c_repository = ''r'', c_message = [],
     c_author_name = [], c_author_login = None, c_author_avatar = None, c_timestamp = Some ts,
     c_branch = None, c_fork_point_sha = Some sha\<rparr>"

definition demo_db :: db where
  "demo_db = \<lparr>db_results = [demo_result ''a'' ''1'' ''s'' [Fin 10] None, demo_result ''b'' ''2'' ''s'' [Fin 12] None,
     demo_result ''c'' ''3'' ''ns'' [Fin 12] None], db_commits = []\<rparr>"

theorem Compare_sound_witness:
  "(\<exists>n. Compare demo_math (db_storage byte_collation demo_db) ''c'' ''a'' (Fin 5) (Fin 5) = Inl (NotComparable n)) \<and>
   (\<exists>ra rb. loadCompareResult (db_storage byte_collation demo_db) ''a'' = Inr ra \<and>
      loadCompareResult (db_storage byte_collation demo_db) ''c'' = Inr rb \<and> \<not> comparable ra rb)"
proof -
  let ?st = "db_storage byte_collation demo_db"
  obtain ra where a: "loadCompareResult ?st ''a'' = Inr ra"
    by (simp add: loadCompareResult_def db_storage_def GetResultForCompare_def demo_db_def demo_result_def)
  obtain rb where b: "loadCompareResult ?st ''c'' = Inr rb"
    by (simp add: loadCompareResult_def db_storage_def GetResultForCompare_def demo_db_def demo_result_def)
  have n: "Compare demo_math ?st ''a'' ''c'' (Fin 5) (Fin 5) = Inl (NotComparable (UnitsDiffer ''s'' ''ns''))"
    by code_simp
  have "fle (Fin 0) (Fin 5)" by code_simp
  then show ?thesis
    using Compare_sound [OF a b, of "Fin 5" "Fin 5" demo_math] n a b by blast
qed

text \<open>
  C11: A comparison looks only at its two results and at the default-branch history up to
  the commit of the baseline: storing any other result, of another benchmark, with an error,
  off the default branch or of a commit after the baseline's, changes neither verdict nor
  error.
\<close>

theorem Compare_window:
  assumes "br_id x \<notin> {a, b}" "GetResultForCompare d a = Inr ra"
    "br_error x \<noteq> None \<or> br_fingerprint x \<noteq> cr_HistoryFingerprint ra \<or> commit_of d x = None \<or>
     (\<exists>c. commit_of d x = Some c \<and> (c_fork_point_sha c \<noteq> Some (c_sha c) \<or>
        (\<exists>tx tb. c_timestamp c = Some tx \<and> cr_CommitTimestamp ra = Some tb \<and> tb < tx)))"
  shows "Compare ml (db_storage coll (d\<lparr>db_results := db_results d @ [x]\<rparr>)) a b t tz =
    Compare ml (db_storage coll d) a b t tz"
proof -
  let ?d = "d\<lparr>db_results := db_results d @ [x]\<rparr>"
  have g: "GetResultForCompare ?d a = GetResultForCompare d a" "GetResultForCompare ?d b = GetResultForCompare d b"
    using assms(1) by (auto intro: GetResultForCompare_unchanged)
  have l: "loadCompareResult (db_storage coll ?d) i = loadCompareResult (db_storage coll d) i" if "i \<in> {a, b}" for i
    using that g by (auto simp: loadCompareResult_def db_storage_def)
  have "loadCompareResult (db_storage coll d) a = Inr ra"
    using assms(2) by (simp add: loadCompareResult_def db_storage_def)
  moreover have "lookbackAnalysis ml (db_storage coll ?d) rb ra v u lib tz = lookbackAnalysis ml (db_storage coll d) rb ra v u lib tz"
    if "cr_HistoryFingerprint rb = cr_HistoryFingerprint ra" for rb v u lib
  proof (cases "cr_CommitTimestamp ra")
    case (Some tb)
    have "\<not> history_member d (cr_HistoryFingerprint ra) (Some tb) x"
      using assms(3) Some by (auto simp: history_member_def)
    from history_unchanged [OF this] show ?thesis
      using that Some by (auto simp: lookbackAnalysis_def db_storage_def split: option.splits)
  qed (simp add: lookbackAnalysis_def split: option.splits)
  ultimately show ?thesis
    using l [of a] l [of b] by (auto simp: Compare_def svc_bind_def Let_def split: sum.splits)
qed

theorem Compare_window_witness:
  "let x = demo_result ''z'' ''9'' ''s'' [Fin 99] (Some ''k2'');
       d = \<lparr>db_results = [demo_result ''a'' ''1'' ''s'' [Fin 10] (Some ''k1'')], db_commits = [demo_commit ''k1'' 5, demo_commit ''k2'' 6]\<rparr>
   in Compare demo_math (db_storage byte_collation (d\<lparr>db_results := db_results d @ [x]\<rparr>)) ''a'' ''a'' (Fin 5) (Fin 5) =
      Compare demo_math (db_storage byte_collation d) ''a'' ''a'' (Fin 5) (Fin 5)"
proof -
  let ?d = "\<lparr>db_results = [demo_result ''a'' ''1'' ''s'' [Fin 10] (Some ''k1'')], db_commits = [demo_commit ''k1'' 5, demo_commit ''k2'' 6]\<rparr>"
  have "\<exists>ra. GetResultForCompare ?d ''a'' = Inr ra \<and> cr_CommitTimestamp ra = Some 5"
    by (simp add: GetResultForCompare_def demo_result_def demo_commit_def commit_of_def)
  then obtain ra where ra: "GetResultForCompare ?d ''a'' = Inr ra" "cr_CommitTimestamp ra = Some 5" by blast
  show ?thesis unfolding Let_def
    by (rule Compare_window [OF _ ra(1)]) (auto simp: ra(2) demo_result_def demo_commit_def commit_of_def)
qed

text \<open>
  The history of a fingerprint that is returned has one sample for every member of it,
  in order of commit time; every sample carries rolling statistics when all have the unit
  of the first one, and none does otherwise. No sample has NaN as its value.
\<close>

theorem History_series:
  assumes "total_weak_order coll" "History (db_storage coll d) fp = Inr (fp', ss)"
  shows "fp' = fp \<and> mset (map hs_ID ss) = mset (map br_id (filter (history_member d fp None) (db_results d))) \<and>
    sorted (map (\<lambda>s. the (hs_CommitTimestamp s)) ss) \<and> NaN \<notin> set (map hs_SVS ss) \<and>
    (if \<exists>u. \<forall>s\<in>set ss. hs_Unit s = Some u then None \<notin> set (map hs_ZScoreStats ss)
     else set (map hs_ZScoreStats ss) = {None})"
proof -
  let ?rows = "SelectHistoryForFingerprint coll d fp"
  let ?single = "list_all (\<lambda>r. sameUnitPtr (hr_Unit (hd ?rows)) (hr_Unit r)) (tl ?rows)"
  from assms(2) obtain sps where fp: "fp' = fp" and sps: "map_err history_sample ?rows = Inr sps"
    and n: "length ss = length ?rows"
    and s: "\<And>i. i < length ?rows \<Longrightarrow> \<exists>z. ss ! i = (fst (sps ! i))\<lparr>hs_ZScoreStats := z\<rparr> \<and> (z = None \<longleftrightarrow> \<not> ?single)"
    by (rule History_Inr) (auto simp: db_storage_def)
  have at: "history_sample (?rows ! i) = Inr (fst (sps ! i), snd (sps ! i))" if "i < length ?rows" for i
    using sps that by (auto simp: map_err_Inr_iff)
  have f: "hs_ID (ss ! i) = hr_ID (?rows ! i)" "hs_CommitTimestamp (ss ! i) = hr_CommitTimestamp (?rows ! i)"
    "hs_Unit (ss ! i) = hr_Unit (?rows ! i)" "hs_SVS (ss ! i) \<noteq> NaN" "hr_Unit (?rows ! i) \<noteq> None"
    "hs_ZScoreStats (ss ! i) = None \<longleftrightarrow> \<not> ?single" if "i < length ?rows" for i
    using s [OF that] history_sample_fields [OF at [OF that]] history_sample_unit [OF at [OF that]] by auto
  have ids: "map hs_ID ss = map hr_ID ?rows" and ts: "map hs_CommitTimestamp ss = map hr_CommitTimestamp ?rows"
    and us: "map hs_Unit ss = map hr_Unit ?rows"
    using n f by (auto intro: nth_equalityI)
  have "mset (map hr_ID ?rows) = mset (map br_id (filter (history_member d fp None) (db_results d)))"
  proof -
    have "mset (map hr_ID ?rows) = image_mset hr_ID (mset (map (history_row d) (filter (history_member d fp None) (db_results d))))"
      by (simp add: SelectHistoryForFingerprint_def)
    also have "\<dots> = mset (map (hr_ID \<circ> history_row d) (filter (history_member d fp None) (db_results d)))"
      by (simp only: mset_map [symmetric] map_map)
    finally show ?thesis by (simp add: o_def history_row_def Let_def)
  qed
  moreover have "map (\<lambda>s. the (hs_CommitTimestamp s)) ss = map (\<lambda>r. the (hr_CommitTimestamp r)) ?rows"
    using ts by (metis (no_types, lifting) list.map_comp comp_def map_eq_conv)
  moreover have "NaN \<notin> set (map hs_SVS ss)" using f(4) n by (metis (no_types, lifting) in_set_conv_nth length_map nth_map)
  moreover have "if \<exists>u. \<forall>s\<in>set ss. hs_Unit s = Some u then None \<notin> set (map hs_ZScoreStats ss)
     else set (map hs_ZScoreStats ss) = {None}"
  proof (cases "?rows = []")
    case False
    have "hs_Unit ` set ss = hr_Unit ` set ?rows" using us by (metis list.set_map)
    then have "(\<exists>u. \<forall>s\<in>set ss. hs_Unit s = Some u) \<longleftrightarrow> (\<exists>u. \<forall>r\<in>set ?rows. hr_Unit r = Some u)"
      by (metis (no_types, lifting) imageE image_eqI)
    also have "\<dots> \<longleftrightarrow> ?single"
      by (rule single_unit_iff [OF False, symmetric]) (use f(5) in \<open>auto simp: in_set_conv_nth\<close>)
    finally have e: "(\<exists>u. \<forall>s\<in>set ss. hs_Unit s = Some u) \<longleftrightarrow> ?single" .
    have z: "hs_ZScoreStats x = None \<longleftrightarrow> \<not> ?single" if "x \<in> set ss" for x
      using that f(6) n by (metis in_set_conv_nth)
    have "ss \<noteq> []" using False n by auto
    show ?thesis
    proof (cases ?single)
      case True
      then have "None \<notin> hs_ZScoreStats ` set ss" using z by (metis imageE)
      with True e show ?thesis by simp
    next
      case single: False
      then have "hs_ZScoreStats ` set ss = {None}" using z \<open>ss \<noteq> []\<close> by (force simp: image_constant_conv cong: image_cong)
      with single e show ?thesis by simp
    qed
  qed (use n in simp)
  ultimately show ?thesis
    using fp ids history_sorted [OF assms(1), of d fp] by simp
qed

text \<open>A result of a default-branch commit is the one sample of its history.\<close>

theorem History_series_witness:
  "\<exists>s. History (db_storage byte_collation
        \<lparr>db_results = [demo_result ''a'' ''1'' ''s'' [Fin 10] (Some ''k1'')], db_commits = [demo_commit ''k1'' 5]\<rparr>) ''f''
      = Inr (''f'', [s]) \<and> hs_ZScoreStats s \<noteq> None"
proof -
  let ?d = "\<lparr>db_results = [demo_result ''a'' ''1'' ''s'' [Fin 10] (Some ''k1'')], db_commits = [demo_commit ''k1'' 5]\<rparr>"
  have "map_option (\<lambda>(a, b). (a, map hs_ID b, map hs_Unit b))
     (case History (db_storage byte_collation ?d) ''f'' of Inr x \<Rightarrow> Some x | Inl _ \<Rightarrow> None) = Some (''f'', [''a''], [Some ''s''])"
    by code_simp
  then obtain ss where h: "History (db_storage byte_collation ?d) ''f'' = Inr (''f'', ss)"
    and ss: "map hs_ID ss = [''a'']" "map hs_Unit ss = [Some ''s'']" by (auto split: sum.splits)
  then obtain s where s: "ss = [s]" "hs_Unit s = Some ''s''" by auto
  show ?thesis
    using History_series [OF byte_order.total_weak_order_axioms h] h s by (cases "hs_ZScoreStats s") auto
qed

end
