(* ===== verification/Url.thy ===== *)
theory Url
  imports Float64 Text
begin

text \<open>
  What the code uses of \<open>net/url\<close> and \<open>strconv.FormatFloat\<close> to write links: escaping of
  path segments and query components, the sorted encoding of query values, and the shortest
  decimal form of a \<open>float64\<close>.
\<close>

section \<open>Escaping\<close>

definition hex_digit :: "nat \<Rightarrow> char" where
  "hex_digit n = (if n < 10 then char_of (48 + n) else char_of (55 + n))"

definition pct :: "char \<Rightarrow> string" where
  "pct c = [CHR ''%'', hex_digit (of_char c div 16), hex_digit (of_char c mod 16)]"

definition unreserved :: "char \<Rightarrow> bool" where
  "unreserved c \<longleftrightarrow> (let n = of_char c :: nat in
     48 \<le> n \<and> n \<le> 57 \<or> 65 \<le> n \<and> n \<le> 90 \<or> 97 \<le> n \<and> n \<le> 122 \<or> n \<in> {45, 46, 95, 126})"

text \<open>\<open>url.PathEscape\<close>: a segment also keeps \<open>$ & + = : @\<close>.\<close>

definition path_escape :: "string \<Rightarrow> string" where
  "path_escape s = concat (map (\<lambda>c. if unreserved c \<or> c \<in> set ''$&+=:@'' then [c] else pct c) s)"

definition query_escape :: "string \<Rightarrow> string" where
  "query_escape s = concat (map (\<lambda>c. if unreserved c then [c] else if c = CHR '' '' then ''+'' else pct c) s)"

text \<open>\<open>url.Values\<close> with one value per key, encoded in the order of the keys.\<close>

definition values_encode :: "(string \<times> string) list \<Rightarrow> string" where
  "values_encode vs =
     str_join ''&'' (map (\<lambda>(k, v). query_escape k @ ''='' @ query_escape v) (stable_sort (\<lambda>a b. fst a < fst b) vs))"

section \<open>Shortest decimals\<close>

text \<open>The decimal exponent of a positive number: \<open>10 ^ e \<le> r < 10 ^ (e + 1)\<close>.\<close>

function log10_up :: "rat \<Rightarrow> nat" where
  "log10_up r = (if r < 10 then 0 else Suc (log10_up (r / 10)))"
  by pat_completeness auto
termination
  by (relation "measure (\<lambda>r. nat \<lfloor>r\<rfloor>)") (auto simp: floor_divide_of_int_eq not_less nat_less_iff, linarith)

function log10_down :: "rat \<Rightarrow> nat" where
  "log10_down r = (if r \<le> 0 \<or> 1 \<le> r then 0 else Suc (log10_down (r * 10)))"
  by pat_completeness auto
termination
proof (relation "measure (\<lambda>r. nat \<lceil>1 / r\<rceil>)")
  fix r :: rat
  assume r: "\<not> (r \<le> 0 \<or> 1 \<le> r)"
  then have x: "1 < 1 / r" by simp
  have "\<lceil>(1 / r) / 10\<rceil> < \<lceil>1 / r\<rceil>"
  proof -
    define x where "x = 1 / r"
    have x1: "1 < x" using x by (simp add: x_def)
    have "\<lceil>x / 10\<rceil> < \<lceil>x\<rceil>"
    proof (cases "x < 2")
      case True
      then have "\<lceil>x / 10\<rceil> \<le> 1" by (simp add: ceiling_le_iff)
      moreover have "1 < \<lceil>x\<rceil>" using x1 by (simp add: less_ceiling_iff)
      ultimately show ?thesis by (rule order_le_less_trans)
    next
      case False
      then have "of_int \<lceil>x / 10\<rceil> < x"
        using ceiling_correct [of "x / 10"] by linarith
      also have "x \<le> of_int \<lceil>x\<rceil>" by (rule le_of_int_ceiling)
      finally show ?thesis by (simp only: of_int_less_iff)
    qed
    then show ?thesis by (simp add: x_def)
  qed
  then show "(r * 10, r) \<in> measure (\<lambda>r. nat \<lceil>1 / r\<rceil>)" using x r by simp
qed simp

declare log10_up.simps [simp del] log10_down.simps [simp del]

definition exp10 :: "rat \<Rightarrow> int" where
  "exp10 r = (if 1 \<le> r then int (log10_up r) else - int (log10_down r))"

text \<open>
  The shortest digits of a positive \<open>float64\<close>: the fewest \<open>n\<close> for which truncation to \<open>n\<close>
  digits, or the next number of \<open>n\<close> digits, still rounds to the value; the nearer one when
  both do. The result is the digits as a number and its exponent. 17 digits always suffice.
\<close>

fun shortest_from :: "nat \<Rightarrow> nat \<Rightarrow> rat \<Rightarrow> int \<times> int" where
  "shortest_from n fuel r =
     (let k = exp10 r - int n + 1; t = r / 10 powi k; m = \<lfloor>t\<rfloor>;
          ok = (\<lambda>m. rnd (of_int m * 10 powi k) = Fin r) in
      if ok m \<and> ok (m + 1) then (rhe t, k)
      else if ok m then (m, k)
      else if ok (m + 1) then (m + 1, k)
      else case fuel of 0 \<Rightarrow> (rhe t, k) | Suc f \<Rightarrow> shortest_from (Suc n) f r)"

declare shortest_from.simps [simp del]

text \<open>The digits without trailing zeros and the position of the decimal point.\<close>

definition shortest_digits :: "rat \<Rightarrow> string \<times> int" where
  "shortest_digits r = (let (m, k) = shortest_from 1 16 r; ds = dec_digits (nat m) in
     (trim_right (\<lambda>c. c = CHR ''0'') ds, int (length ds) + k))"

definition exp_part :: "int \<Rightarrow> string" where
  "exp_part e = (if e < 0 then ''e-'' else ''e+'') @ (if \<bar>e\<bar> < 10 then ''0'' else []) @ itoa \<bar>e\<bar>"

definition fmt_pos :: "rat \<Rightarrow> string" where
  "fmt_pos r = (let (ds, dp) = shortest_digits r; e = dp - 1 in
     if e < -4 \<or> 6 \<le> e then
       take 1 ds @ (if length ds = 1 then [] else ''.'' @ drop 1 ds) @ exp_part e
     else if dp \<le> 0 then ''0.'' @ replicate (nat (- dp)) (CHR ''0'') @ ds
     else if int (length ds) \<le> dp then ds @ replicate (nat dp - length ds) (CHR ''0'')
     else take (nat dp) ds @ ''.'' @ drop (nat dp) ds)"

text \<open>\<open>strconv.FormatFloat(x, 'g', -1, 64)\<close>.\<close>

definition format_float :: "f64 \<Rightarrow> string" where
  "format_float x = (case x of
     NaN \<Rightarrow> ''NaN'' | PInf \<Rightarrow> ''+Inf'' | NInf \<Rightarrow> ''-Inf'' | NZero \<Rightarrow> ''-0''
   | Fin r \<Rightarrow> (if r = 0 then ''0'' else if r < 0 then ''-'' @ fmt_pos (- r) else fmt_pos r))"

section \<open>Lemmas\<close>

section \<open>Lemmas\<close>

lemma format_float_samples: "format_float (Fin 5) = ''5''" "format_float (Fin (5 / 2)) = ''2.5''"
  by code_simp+

text \<open>Escaping is a prefix-free code, so it loses nothing.\<close>

lemma hex_digit_inj: "hex_digit a = hex_digit b \<Longrightarrow> a < 16 \<Longrightarrow> b < 16 \<Longrightarrow> a = b"
proof -
  assume "hex_digit a = hex_digit b" "a < 16" "b < 16"
  then have "of_char (hex_digit a) = (of_char (hex_digit b) :: nat)" by simp
  with \<open>a < 16\<close> \<open>b < 16\<close> show ?thesis by (auto simp: hex_digit_def split: if_splits)
qed

lemma pct_inj: "pct c = pct d \<Longrightarrow> c = d"
proof -
  assume e: "pct c = pct d"
  have b: "of_char x < (16 * 16 :: nat)" for x :: char
  proof -
    have "of_char x mod 256 < (256 :: nat)" by (rule mod_less_divisor) simp
    then show ?thesis by (simp only: of_char_mod_256 numeral_times_numeral) simp
  qed
  have l: "of_char x div 16 < (16 :: nat)" "of_char x mod 16 < (16 :: nat)" for x :: char
    using less_mult_imp_div_less [OF b [of x]] by simp_all
  have "of_char c div 16 = (of_char d div 16 :: nat)" "of_char c mod 16 = (of_char d mod 16 :: nat)"
    using e l hex_digit_inj by (auto simp: pct_def)
  then have "of_char c = (of_char d :: nat)" by (metis div_mult_mod_eq)
  then show ?thesis by simp
qed

lemma not_kept_percent: "\<not> (unreserved (CHR ''%'') \<or> CHR ''%'' \<in> set ''$&+=:@'')"
  by code_simp

lemma path_escape_inj: "path_escape s = path_escape t \<longleftrightarrow> s = t"
proof
  define enc where "enc c = (if unreserved c \<or> c \<in> set ''$&+=:@'' then [c] else pct c)" for c
  have pe: "path_escape x = concat (map enc x)" for x by (simp add: path_escape_def enc_def [abs_def])
  have ne: "enc c \<noteq> []" for c by (simp add: enc_def pct_def)
  have cancel: "c = d \<and> x = y" if "enc c @ x = enc d @ y" for c d x y
    using that not_kept_percent pct_inj [of c d] by (auto simp: enc_def pct_def split: if_splits)
  show "s = t" if "path_escape s = path_escape t"
    using that unfolding pe
  proof (induction s arbitrary: t)
    case (Cons c s)
    then obtain d t' where t: "t = d # t'" using ne by (cases t) auto
    then have "enc c @ concat (map enc s) = enc d @ concat (map enc t')" using Cons.prems by simp
    from cancel [OF this] Cons.IH t show ?case by simp
  qed (use ne in \<open>cases t; simp\<close>)
qed simp

end
