(* ===== verification/CIReport.thy ===== *)
theory CIReport
  imports Compare Commit Url
begin

text \<open>
  \<^verbatim>\<open>internal/service/ci_report.go\<close>: the report on the benchmark runs of one commit. Runs are
  selected by commit or by id, a baseline run is chosen for each, every contender result is
  compared with the baseline result of its fingerprint, and the report's status is derived
  from the counted comparisons. A Go map is the list of its entries in order of insertion;
  where the code ranges over a map the order is shown not to matter.
\<close>

section \<open>Data\<close>

definition CIReportMaxComparisonRows :: nat where "CIReportMaxComparisonRows = 5000"
definition CIReportBaselineAncestorLimit :: nat where "CIReportBaselineAncestorLimit = 20"

datatype CIReportStatus = StatusUnset | StatusSuccess | StatusFailure | StatusActionRequired | StatusSkipped

text \<open>A baseline is a string of the request; the empty one selects the default.\<close>

type_synonym CIReportBaseline = string

definition CIReportBaselineForkPoint :: CIReportBaseline where "CIReportBaselineForkPoint = ''fork_point''"
definition CIReportBaselineParent :: CIReportBaseline where "CIReportBaselineParent = ''parent''"
definition CIReportBaselineLatestDefault :: CIReportBaseline where "CIReportBaselineLatestDefault = ''latest_default''"
definition CIReportBaselineExplicitRun :: CIReportBaseline where "CIReportBaselineExplicitRun = ''explicit_run''"

datatype CIReportRowStatus =
  RowUnset | RowRegressed | RowImproved | RowStable | RowInsufficient | RowErrored | RowMissingBaseline | RowNotComparable

datatype baseline_error_code =
  MissingCommitMetadata | NoBaselineRun | UnknownParent | UnknownForkPoint | DefaultBranchRun
| UnknownLatestDefault | UnknownCandidate | ExplicitRunNotFound | AmbiguousBaselineRun

record CIReportQuery =
  q_Repository :: string
  q_CommitSHA :: string
  q_RunIDs :: "string list"
  q_BaselineRunIDs :: "string list"
  q_Baseline :: CIReportBaseline
  q_Threshold :: f64
  q_ThresholdZ :: f64
  q_PublicBaseURL :: string

record CIReportSummary =
  su_Runs :: nat
  su_MissingRuns :: nat
  su_ContenderResults :: nat
  su_Compared :: nat
  su_Analyzed :: nat
  su_Regressions :: nat
  su_Improvements :: nat
  su_BenchmarkErrors :: nat
  su_MissingBaseline :: nat
  su_NotComparable :: nat
  su_commitlessRuns :: nat
  su_baselineErrors :: nat
  su_baselineActionErr :: nat
  su_insufficient :: nat
  su_stable :: nat

definition zero_summary :: CIReportSummary where
  "zero_summary = \<lparr>su_Runs = 0, su_MissingRuns = 0, su_ContenderResults = 0, su_Compared = 0, su_Analyzed = 0,
     su_Regressions = 0, su_Improvements = 0, su_BenchmarkErrors = 0, su_MissingBaseline = 0,
     su_NotComparable = 0, su_commitlessRuns = 0, su_baselineErrors = 0, su_baselineActionErr = 0,
     su_insufficient = 0, su_stable = 0\<rparr>"

record CIReportBaselineError =
  be_Code :: baseline_error_code
  be_Message :: string
  be_RunID :: string
  be_Baseline :: CIReportBaseline
  be_CommitSHA :: "string ptr"
  be_SearchedAncestorLimit :: nat
  be_SearchedCommitSHAs :: "string list"

definition baseline_error ::
  "baseline_error_code \<Rightarrow> string \<Rightarrow> string \<Rightarrow> CIReportBaseline \<Rightarrow> string ptr \<Rightarrow> CIReportBaselineError" where
  "baseline_error code msg runID baseline sha =
     \<lparr>be_Code = code, be_Message = msg, be_RunID = runID, be_Baseline = baseline, be_CommitSHA = sha,
      be_SearchedAncestorLimit = 0, be_SearchedCommitSHAs = []\<rparr>"

record ReadCommit =
  cm_ID :: string
  cm_Sha :: string
  cm_Repository :: string
  cm_Message :: string
  cm_Timestamp :: "time ptr"

record Hardware =
  hd_ID :: string
  hd_Type :: string
  hd_Name :: string
  hd_Hash :: string

record CIReportSide =
  sd_ResultID :: string
  sd_RunID :: string
  sd_ResultTimestamp :: time
  sd_CommitSHA :: "string ptr"
  sd_CommitTimestamp :: "time ptr"
  sd_Error :: "any_map option"
  sd_SVS :: "f64 ptr"
  sd_SVSType :: string
  sd_BeginsDistributionChange :: bool

record CIReportBaselineSide =
  bs_ResultID :: string
  bs_RunID :: string
  bs_ResultTimestamp :: time
  bs_CommitSHA :: "string ptr"
  bs_CommitTimestamp :: "time ptr"
  bs_SVS :: "f64 ptr"
  bs_SVSType :: string

record CIReportRowLinks =
  ln_Result :: string
  ln_Compare :: string
  ln_Series :: string

record CIReportComparison =
  cp_Status :: CIReportRowStatus
  cp_Name :: string
  cp_Tags :: any_map
  cp_Context :: "any_map option"
  cp_Info :: "any_map option"
  cp_Hardware :: Hardware
  cp_HistoryFingerprint :: string
  cp_Unit :: "string ptr"
  cp_LessIsBetter :: "bool ptr"
  cp_Contender :: CIReportSide
  cp_Baseline :: "CIReportBaselineSide ptr"
  cp_Analysis :: "CompareAnalysis ptr"
  cp_Error :: "any_map option"
  cp_Reason :: "not_comparable ptr"
  cp_Links :: CIReportRowLinks

record CIReportRun =
  rn_RunID :: string
  rn_RunTags :: any_map
  rn_RunReason :: "string ptr"
  rn_Commit :: "ReadCommit ptr"
  rn_BaselineRunID :: "string ptr"
  rn_BaselineCommit :: "ReadCommit ptr"
  rn_CommitsSkipped :: "string list"
  rn_BaselineError :: "CIReportBaselineError ptr"
  rn_Comparisons :: "CIReportComparison list"

record CIReport =
  rp_Repository :: string
  rp_CommitSHA :: "string ptr"
  rp_SelectedRunIDs :: "string list"
  rp_MissingRunIDs :: "string list"
  rp_Baseline :: CIReportBaseline
  rp_Status :: CIReportStatus
  rp_StatusReason :: string
  rp_Threshold :: f64
  rp_ThresholdZ :: f64
  rp_Summary :: CIReportSummary
  rp_Runs :: "CIReportRun list"
  rp_ReportURL :: string
  rp_Comparisons :: "CIReportComparison list"

record ciReportRunSelection =
  sl_repository :: string
  sl_commitSHA :: "string ptr"
  sl_runs :: "CIReportRunRow list"
  sl_missingRunIDs :: "string list"
  sl_allCommitless :: bool
  sl_commitSelector :: bool

record ciReportBaselineSelection =
  bl_runID :: string
  bl_contenderCommitID :: string
  bl_baselineRunID :: "string ptr"
  bl_baselineCommitID :: string
  bl_commit :: "CIReportCommitRow ptr"
  bl_commitsSkipped :: "string list"
  bl_baselineError :: "CIReportBaselineError ptr"

definition zero_selection :: ciReportBaselineSelection where
  "zero_selection = \<lparr>bl_runID = [], bl_contenderCommitID = [], bl_baselineRunID = None, bl_baselineCommitID = [],
     bl_commit = None, bl_commitsSkipped = [], bl_baselineError = None\<rparr>"

type_synonym selections = "(string \<times> ciReportBaselineSelection) list"

text \<open>A read of a missing key gives the zero value.\<close>

definition selection_of :: "selections \<Rightarrow> string \<Rightarrow> ciReportBaselineSelection" where
  "selection_of m k = (case map_of m k of None \<Rightarrow> zero_selection | Some s \<Rightarrow> s)"

record ciReportBaselineCandidate =
  cd_runID :: string
  cd_commitID :: string
  cd_runReason :: "string ptr"
  cd_commit :: CIReportCommitRow
  cd_depth :: nat
  cd_resultTimestamp :: time
  cd_sameReason :: bool

section \<open>Links\<close>

text \<open>\<open>value == 0 || value == fallback\<close> leaves the parameter out.\<close>

definition setNonDefaultReportFloat ::
  "(string \<times> string) list \<Rightarrow> string \<Rightarrow> f64 \<Rightarrow> f64 \<Rightarrow> (string \<times> string) list" where
  "setNonDefaultReportFloat values key x fallback =
     (if feq x (Fin 0) \<or> feq x fallback then values else map_set key (format_float x) values)"

definition ciReportURL ::
  "string \<Rightarrow> CIReportQuery \<Rightarrow> string \<Rightarrow> string ptr \<Rightarrow> CIReportBaseline \<Rightarrow> f64 \<Rightarrow> f64 \<Rightarrow> string" where
  "ciReportURL publicBaseURL q repository commitSHA baseline threshold thresholdZ =
     (let v0 = (case commitSHA of Some sha \<Rightarrow> if repository \<noteq> [] then [(''repository'', repository), (''commit_sha'', sha)] else []
                | None \<Rightarrow> []);
          v1 = (if q_RunIDs q \<noteq> [] then map_set ''run_ids'' (str_join '','' (q_RunIDs q)) v0 else v0);
          v2 = (if q_BaselineRunIDs q \<noteq> [] then map_set ''baseline_run_ids'' (str_join '','' (q_BaselineRunIDs q)) v1 else v1);
          v3 = (if q_Baseline q \<noteq> [] then map_set ''baseline'' baseline v2 else v2);
          v4 = setNonDefaultReportFloat v3 ''threshold'' threshold PairwisePercentThresholdDefault;
          v5 = setNonDefaultReportFloat v4 ''threshold_z'' thresholdZ ZScoreThresholdDefault;
          encoded = values_encode v5;
          path = ''/ci/report'' @ (if encoded \<noteq> [] then ''?'' @ encoded else []);
          baseURL = (if q_PublicBaseURL q = [] then publicBaseURL else q_PublicBaseURL q)
      in if baseURL = [] then path else trim_right (\<lambda>c. c = CHR ''/'') baseURL @ path)"

definition ciReportResultLink :: "string \<Rightarrow> string" where
  "ciReportResultLink resultID = ''/results/'' @ path_escape resultID"

definition ciReportCompareLink :: "string \<Rightarrow> string \<Rightarrow> f64 \<Rightarrow> f64 \<Rightarrow> string" where
  "ciReportCompareLink baselineID contenderID threshold thresholdZ =
     ''/compare?'' @ values_encode
       (setNonDefaultReportFloat
         (setNonDefaultReportFloat [(''baseline'', baselineID), (''contender'', contenderID)]
           ''threshold'' threshold PairwisePercentThresholdDefault)
         ''threshold_z'' thresholdZ ZScoreThresholdDefault)"

definition ciReportSeriesLink :: "string \<Rightarrow> string" where
  "ciReportSeriesLink fingerprint = ''/series/'' @ path_escape fingerprint"

section \<open>Selection of the runs\<close>

definition validateExplicitBaselineRunIDs :: "CIReportQuery \<Rightarrow> unit svc" where
  "validateExplicitBaselineRunIDs q =
     (if q_BaselineRunIDs q = [] then Inr ()
      else if q_RunIDs q = [] then Inl (ValidationError ''baseline_run_ids requires run_ids'')
      else if q_Baseline q \<noteq> [] then Inl (ValidationError ''baseline cannot be set with baseline_run_ids'')
      else if length (q_BaselineRunIDs q) \<noteq> length (q_RunIDs q)
        then Inl (ValidationError ''baseline_run_ids must match run_ids count'')
      else Inr ())"

definition ciReportBaseline :: "CIReportBaseline \<Rightarrow> CIReportBaseline" where
  "ciReportBaseline b = (if b = [] then CIReportBaselineForkPoint else b)"

definition validCIReportBaseline :: "CIReportBaseline \<Rightarrow> bool" where
  "validCIReportBaseline b \<longleftrightarrow>
     b = CIReportBaselineForkPoint \<or> b = CIReportBaselineParent \<or> b = CIReportBaselineLatestDefault"

text \<open>The loops with a set of seen keys.\<close>

fun missing_loop :: "string list \<Rightarrow> string list \<Rightarrow> string list \<Rightarrow> string list" where
  "missing_loop found seen [] = []"
| "missing_loop found seen (x # xs) =
     (if x \<in> set found \<or> x \<in> set seen then missing_loop found seen xs
      else x # missing_loop found (x # seen) xs)"

definition ciReportMissingRunIDs :: "string list \<Rightarrow> CIReportRunRow list \<Rightarrow> string list" where
  "ciReportMissingRunIDs explicit rows = missing_loop (map ru_RunID rows) [] explicit"

definition ciReportFilterRunsByIDs :: "CIReportRunRow list \<Rightarrow> string list \<Rightarrow> CIReportRunRow list" where
  "ciReportFilterRunsByIDs rows runIDs = filter (\<lambda>row. ru_RunID row \<in> set runIDs) rows"

definition run_only_mismatch :: svc_error where
  "run_only_mismatch = ValidationError ''run_ids must share the same repository and commit''"

definition run_only_row_ok :: "string \<Rightarrow> bool \<Rightarrow> string ptr \<Rightarrow> CIReportRunRow \<Rightarrow> bool" where
  "run_only_row_ok repository allCommitless commitSHA row \<longleftrightarrow>
     NormalizeRepoURL (ru_CommitRepoURL row) = repository \<and>
     (ru_CommitSha row = None) = allCommitless \<and>
     (allCommitless \<or>
      (case ru_CommitRepository row of None \<Rightarrow> False | Some r \<Rightarrow> NormalizeRepoURL r = repository) \<and>
      ru_CommitSha row = commitSHA)"

text \<open>The caller has checked that there is a first row.\<close>

definition ciReportValidateRunOnlyRows :: "CIReportRunRow list \<Rightarrow> (string \<times> string ptr \<times> bool) svc" where
  "ciReportValidateRunOnlyRows rows =
     (let repository = NormalizeRepoURL (ru_CommitRepoURL (hd rows));
          allCommitless = (ru_CommitSha (hd rows) = None);
          commitSHA = ru_CommitSha (hd rows)
      in if list_all (run_only_row_ok repository allCommitless commitSHA) rows
         then Inr (repository, commitSHA, allCommitless)
         else Inl run_only_mismatch)"

definition selectCommitModeRuns :: "storage \<Rightarrow> CIReportQuery \<Rightarrow> ciReportRunSelection svc" where
  "selectCommitModeRuns st q =
     (let repository = NormalizeRepoURL (q_Repository q); sha = trim_space (q_CommitSHA q) in
      svc_bind (of_store ''select ci report runs by commit'' (st_RunsByCommit st repository sha)) (\<lambda>rows.
        Inr (if q_RunIDs q = []
             then \<lparr>sl_repository = repository, sl_commitSHA = Some sha, sl_runs = rows, sl_missingRunIDs = [],
                   sl_allCommitless = False, sl_commitSelector = True\<rparr>
             else \<lparr>sl_repository = repository, sl_commitSHA = Some sha,
                   sl_runs = ciReportFilterRunsByIDs rows (q_RunIDs q),
                   sl_missingRunIDs = ciReportMissingRunIDs (q_RunIDs q) rows,
                   sl_allCommitless = False, sl_commitSelector = True\<rparr>)))"

definition selectRunOnlyRuns :: "storage \<Rightarrow> string list \<Rightarrow> ciReportRunSelection svc" where
  "selectRunOnlyRuns st runIDs =
     svc_bind (of_store ''select ci report runs by ids'' (st_RunsByIDs st runIDs)) (\<lambda>rows.
     if rows = [] then Inl SvcNotFound
     else svc_bind (ciReportValidateRunOnlyRows rows) (\<lambda>(repository, commitSHA, allCommitless).
       Inr \<lparr>sl_repository = repository, sl_commitSHA = commitSHA, sl_runs = rows,
            sl_missingRunIDs = ciReportMissingRunIDs runIDs rows, sl_allCommitless = allCommitless,
            sl_commitSelector = False\<rparr>))"

definition selectCIReportRuns :: "storage \<Rightarrow> CIReportQuery \<Rightarrow> ciReportRunSelection svc" where
  "selectCIReportRuns st q =
     (let hasRepo = (trim_space (q_Repository q) \<noteq> []); hasCommit = (trim_space (q_CommitSHA q) \<noteq> []);
          hasRunIDs = (q_RunIDs q \<noteq> []) in
      if hasRepo \<noteq> hasCommit then Inl (ValidationError ''repository and commit_sha must be provided together'')
      else if \<not> hasRepo \<and> \<not> hasRunIDs then Inl (ValidationError ''provide repository and commit_sha or run_ids'')
      else if hasRepo then selectCommitModeRuns st q
      else selectRunOnlyRuns st (q_RunIDs q))"

definition deref_string :: "string ptr \<Rightarrow> string" where
  "deref_string s = (case s of None \<Rightarrow> [] | Some x \<Rightarrow> x)"

definition ciReportCommitFromRun :: "CIReportRunRow \<Rightarrow> ReadCommit ptr" where
  "ciReportCommitFromRun row = (case ru_CommitID row of None \<Rightarrow> None
     | Some i \<Rightarrow> Some \<lparr>cm_ID = i, cm_Sha = deref_string (ru_CommitSha row),
         cm_Repository = deref_string (ru_CommitRepository row), cm_Message = [],
         cm_Timestamp = ru_CommitTimestamp row\<rparr>)"

definition ciReportCommitFromCommit :: "CIReportCommitRow \<Rightarrow> ReadCommit" where
  "ciReportCommitFromCommit row = \<lparr>cm_ID = cc_CommitID row, cm_Sha = cc_CommitSha row,
     cm_Repository = cc_Repository row, cm_Message = cc_Message row, cm_Timestamp = cc_Timestamp row\<rparr>"

definition run_from_row :: "CIReportRunRow \<Rightarrow> CIReportRun svc" where
  "run_from_row row = svc_bind (of_json (jsonObject (ru_RunTags row))) (\<lambda>tags.
     Inr \<lparr>rn_RunID = ru_RunID row, rn_RunTags = or_empty tags, rn_RunReason = ru_RunReason row,
          rn_Commit = ciReportCommitFromRun row, rn_BaselineRunID = None, rn_BaselineCommit = None,
          rn_CommitsSkipped = [], rn_BaselineError = None, rn_Comparisons = []\<rparr>)"

definition ciReportRunsFromRows :: "CIReportRunRow list \<Rightarrow> CIReportRun list svc" where
  "ciReportRunsFromRows rows = map_err run_from_row rows"

section \<open>Keys of runs\<close>

definition ciReportSelectedRunIDs :: "CIReportRunRow list \<Rightarrow> string list" where
  "ciReportSelectedRunIDs rows = missing_loop [] [] (map ru_RunID rows)"

definition ciReportRowsByRunID :: "CIReportResultRow list \<Rightarrow> string \<Rightarrow> CIReportResultRow list" where
  "ciReportRowsByRunID rows runID = filter (\<lambda>r. rr_RunID r = runID) rows"

definition ciReportRunKeyString :: "string \<Rightarrow> string \<Rightarrow> string" where
  "ciReportRunKeyString runID commitID = runID @ [CHR 0x00] @ commitID"

definition ciReportResultRunKey :: "CIReportResultRow \<Rightarrow> string option" where
  "ciReportResultRunKey row = (case rr_CommitID row of None \<Rightarrow> None
     | Some c \<Rightarrow> Some (ciReportRunKeyString (rr_RunID row) c))"

definition key_less :: "CIReportRunKey \<Rightarrow> CIReportRunKey \<Rightarrow> bool" where
  "key_less a b = (if rk_RunID a \<noteq> rk_RunID b then rk_RunID a < rk_RunID b else rk_CommitID a < rk_CommitID b)"

fun dedupe_keys :: "string list \<Rightarrow> CIReportRunKey list \<Rightarrow> CIReportRunKey list" where
  "dedupe_keys seen [] = []"
| "dedupe_keys seen (k # ks) =
     (let s = ciReportRunKeyString (rk_RunID k) (rk_CommitID k) in
      if s \<in> set seen then dedupe_keys seen ks else k # dedupe_keys (s # seen) ks)"

definition run_key :: "CIReportRunRow \<Rightarrow> CIReportRunKey option" where
  "run_key row = (case ru_CommitID row of None \<Rightarrow> None | Some c \<Rightarrow> Some \<lparr>rk_RunID = ru_RunID row, rk_CommitID = c\<rparr>)"

definition ciReportRunKeys :: "CIReportRunRow list \<Rightarrow> CIReportRunKey list" where
  "ciReportRunKeys rows = stable_sort key_less (dedupe_keys [] (List.map_filter run_key rows))"

definition baseline_key :: "ciReportBaselineSelection \<Rightarrow> CIReportRunKey option" where
  "baseline_key s = (case bl_baselineRunID s of None \<Rightarrow> None
     | Some r \<Rightarrow> if bl_baselineCommitID s = [] then None
                else Some \<lparr>rk_RunID = r, rk_CommitID = bl_baselineCommitID s\<rparr>)"

definition ciReportBaselineRunKeys :: "selections \<Rightarrow> CIReportRunKey list" where
  "ciReportBaselineRunKeys sels = stable_sort key_less (dedupe_keys [] (List.map_filter (\<lambda>(_, s). baseline_key s) sels))"

definition metaCommitID :: "CIReportRunRow \<Rightarrow> string" where
  "metaCommitID row = deref_string (ru_CommitID row)"

definition ciReportSkippedCommits :: "CIReportCommitRow list \<Rightarrow> nat \<Rightarrow> string list" where
  "ciReportSkippedCommits ancestry selectedDepth = map cc_CommitSha (take selectedDepth ancestry)"

definition ciReportCommitSHAs :: "CIReportCommitRow list \<Rightarrow> string list" where
  "ciReportCommitSHAs commits = map cc_CommitSha commits"

definition sameStringPtr :: "string ptr \<Rightarrow> string ptr \<Rightarrow> bool" where
  "sameStringPtr a b = (if a = None \<or> b = None then a = None \<and> b = None else the a = the b)"

definition sameTimePtr :: "time ptr \<Rightarrow> time ptr \<Rightarrow> bool" where
  "sameTimePtr a b = (if a = None \<or> b = None then a = None \<and> b = None else the a = the b)"

section \<open>Selection of baselines\<close>

text \<open>The left result is the error attached to the run, the right one the candidate's sha.\<close>

definition resolveBaselineCandidate ::
  "storage \<Rightarrow> CIReportBaseline \<Rightarrow> CIReportRunRow \<Rightarrow> (CIReportBaselineError + string) svc" where
  "resolveBaselineCandidate st baseline run =
     (let err = (\<lambda>code msg. Inr (Inl (baseline_error code msg (ru_RunID run) baseline (ru_CommitSha run)))) in
      if baseline = CIReportBaselineParent then
        (case ru_CommitParent run of
           None \<Rightarrow> err UnknownParent ''contender parent commit is unknown''
         | Some p \<Rightarrow> if p = [] then err UnknownParent ''contender parent commit is unknown'' else Inr (Inr p))
      else if baseline = CIReportBaselineForkPoint then
        (case ru_CommitForkPointSha run of
           None \<Rightarrow> err UnknownForkPoint ''contender fork point is unknown''
         | Some f \<Rightarrow>
            (if f = [] then err UnknownForkPoint ''contender fork point is unknown''
             else if ru_CommitSha run = Some f then err DefaultBranchRun ''contender is already on the default branch''
             else Inr (Inr f)))
      else if baseline = CIReportBaselineLatestDefault then
        (case st_LatestDefault st (NormalizeRepoURL (ru_CommitRepoURL run)) of
           Inl e \<Rightarrow> (if e = ErrNotFound then err UnknownLatestDefault ''latest default branch commit is unknown''
                     else Inl (SvcStore ''select latest default commit'' e))
         | Inr row \<Rightarrow> Inr (Inr (cc_CommitSha row)))
      else Inl (ValidationError ''invalid baseline''))"

text \<open>The runs of an ancestor that may serve: with a commit, and not the contender itself.\<close>

definition candidate_runs :: "CIReportRunRow \<Rightarrow> CIReportRunRow list \<Rightarrow> (string \<times> CIReportRunRow) list" where
  "candidate_runs contender runs =
     List.map_filter (\<lambda>run. case ru_CommitID run of None \<Rightarrow> None
       | Some c \<Rightarrow>
          if ru_RunID run = ru_RunID contender \<and> ru_CommitID contender = Some c then None
          else Some (ciReportRunKeyString (ru_RunID run) c, run)) runs"

definition candidate_keys :: "(string \<times> CIReportRunRow) list \<Rightarrow> CIReportRunKey list" where
  "candidate_keys cs = map (\<lambda>(_, run). \<lparr>rk_RunID = ru_RunID run, rk_CommitID = metaCommitID run\<rparr>) cs"

definition zero_run_row :: CIReportRunRow where
  "zero_run_row = \<lparr>ru_RunID = [], ru_RunTags = None, ru_RunReason = None, ru_CommitRepoURL = [],
     ru_CommitID = None, ru_CommitSha = None, ru_CommitRepository = None, ru_CommitParent = None,
     ru_CommitForkPointSha = None, ru_CommitTimestamp = None\<rparr>"

text \<open>\<open>runMeta\<close>: a later run replaces an earlier one of the same key.\<close>

definition run_meta :: "(string \<times> CIReportRunRow) list \<Rightarrow> string \<Rightarrow> CIReportRunRow" where
  "run_meta cs k = (case map_of (rev cs) k of None \<Rightarrow> zero_run_row | Some r \<Rightarrow> r)"

definition latest_step ::
  "string list \<Rightarrow> (string \<times> time) list \<Rightarrow> CIReportResultRow \<Rightarrow> (string \<times> time) list" where
  "latest_step fingerprints m row =
     (if rr_HistoryFingerprint row \<notin> set fingerprints then m
      else case ciReportResultRunKey row of
         None \<Rightarrow> m
       | Some key \<Rightarrow>
          (case map_of m key of
             None \<Rightarrow> map_set key (rr_ResultTimestamp row) m
           | Some ts \<Rightarrow> if ts < rr_ResultTimestamp row then map_set key (rr_ResultTimestamp row) m else m))"

definition latestByRunKey :: "string list \<Rightarrow> CIReportResultRow list \<Rightarrow> (string \<times> time) list" where
  "latestByRunKey fingerprints rows = foldl (latest_step fingerprints) [] rows"

definition depth_candidates ::
  "storage \<Rightarrow> CIReportRunRow \<Rightarrow> string list \<Rightarrow> nat \<Rightarrow> CIReportCommitRow \<Rightarrow> ciReportBaselineCandidate list svc" where
  "depth_candidates st contender fingerprints depth c =
     svc_bind (of_store ''select ci report baseline runs''
       (st_RunsByCommit st (NormalizeRepoURL (ru_CommitRepoURL contender)) (cc_CommitSha c))) (\<lambda>runs.
     let cs = candidate_runs contender runs in
     if cs = [] then Inr []
     else svc_bind (of_store ''select ci report baseline candidate rows'' (st_SelectRows st (candidate_keys cs) [])) (\<lambda>rows.
       Inr (map (\<lambda>(key, ts). let meta = run_meta cs key in
              \<lparr>cd_runID = ru_RunID meta, cd_commitID = metaCommitID meta, cd_runReason = ru_RunReason meta,
               cd_commit = c, cd_depth = depth, cd_resultTimestamp = ts,
               cd_sameReason = sameStringPtr (ru_RunReason contender) (ru_RunReason meta)\<rparr>)
            (latestByRunKey fingerprints rows))))"

fun all_candidates ::
  "storage \<Rightarrow> CIReportRunRow \<Rightarrow> string list \<Rightarrow> nat \<Rightarrow> CIReportCommitRow list \<Rightarrow> ciReportBaselineCandidate list svc" where
  "all_candidates st contender fingerprints depth [] = Inr []"
| "all_candidates st contender fingerprints depth (c # cs) =
     svc_bind (depth_candidates st contender fingerprints depth c) (\<lambda>here.
     svc_bind (all_candidates st contender fingerprints (Suc depth) cs) (\<lambda>rest. Inr (here @ rest)))"

definition candidate_before :: "ciReportBaselineCandidate \<Rightarrow> ciReportBaselineCandidate \<Rightarrow> bool" where
  "candidate_before a b =
     (let ta = cc_Timestamp (cd_commit a); tb = cc_Timestamp (cd_commit b) in
      if cd_sameReason a \<noteq> cd_sameReason b then cd_sameReason a
      else if \<not> sameTimePtr ta tb then
        (case ta of None \<Rightarrow> False | Some x \<Rightarrow> (case tb of None \<Rightarrow> True | Some y \<Rightarrow> y < x))
      else if cd_resultTimestamp a \<noteq> cd_resultTimestamp b then cd_resultTimestamp b < cd_resultTimestamp a
      else if cd_runID a \<noteq> cd_runID b then cd_runID b < cd_runID a
      else cd_commitID b < cd_commitID a)"

definition findBaselineRun ::
  "storage \<Rightarrow> CIReportRunRow \<Rightarrow> CIReportResultRow list \<Rightarrow> CIReportCommitRow list \<Rightarrow> ciReportBaselineCandidate option svc" where
  "findBaselineRun st contender contenderRows ancestry =
     (let fingerprints = map rr_HistoryFingerprint contenderRows in
      if fingerprints = [] then Inr None
      else svc_bind (all_candidates st contender fingerprints 0 ancestry) (\<lambda>candidates.
        Inr (if candidates = [] then None else Some (hd (stable_sort candidate_before candidates)))))"

definition baseline_for_run ::
  "storage \<Rightarrow> CIReportBaseline \<Rightarrow> CIReportRunRow \<Rightarrow> CIReportResultRow list \<Rightarrow> ciReportBaselineSelection svc" where
  "baseline_for_run st baseline run contenderRows =
     (let selection = zero_selection\<lparr>bl_runID := ru_RunID run, bl_contenderCommitID := deref_string (ru_CommitID run)\<rparr> in
      if ru_CommitSha run = None then Inr selection
      else svc_bind (resolveBaselineCandidate st baseline run) (\<lambda>candidate.
        (case candidate of
           Inl e \<Rightarrow> Inr (selection\<lparr>bl_baselineError := Some e\<rparr>)
         | Inr candidateSHA \<Rightarrow>
            svc_bind (of_store ''select ci report baseline ancestry''
              (st_Ancestry st (NormalizeRepoURL (ru_CommitRepoURL run)) candidateSHA CIReportBaselineAncestorLimit)) (\<lambda>ancestry.
            if ancestry = [] then
              Inr (selection\<lparr>bl_baselineError := Some (baseline_error UnknownCandidate
                ''baseline candidate commit metadata not found'' (ru_RunID run) baseline (ru_CommitSha run))\<rparr>)
            else svc_bind (findBaselineRun st run contenderRows ancestry) (\<lambda>found.
              Inr (case found of
                 Some c \<Rightarrow> selection\<lparr>bl_baselineRunID := Some (cd_runID c), bl_baselineCommitID := cd_commitID c,
                     bl_commit := Some (cd_commit c), bl_commitsSkipped := ciReportSkippedCommits ancestry (cd_depth c)\<rparr>
               | None \<Rightarrow> selection\<lparr>bl_baselineError := Some
                     \<lparr>be_Code = NoBaselineRun,
                      be_Message = ''searched '' @ itoa (int CIReportBaselineAncestorLimit) @ '' ancestors, no baseline run found'',
                      be_RunID = ru_RunID run, be_Baseline = baseline, be_CommitSHA = ru_CommitSha run,
                      be_SearchedAncestorLimit = CIReportBaselineAncestorLimit,
                      be_SearchedCommitSHAs = ciReportCommitSHAs ancestry\<rparr>\<rparr>))))))"

text \<open>\<open>selections[run.RunID] = selection\<close> for each run in turn.\<close>

fun select_each ::
  "(CIReportRunRow \<Rightarrow> ciReportBaselineSelection svc) \<Rightarrow> selections \<Rightarrow> CIReportRunRow list \<Rightarrow> selections svc" where
  "select_each f sels [] = Inr sels"
| "select_each f sels (run # runs) =
     svc_bind (f run) (\<lambda>s. select_each f (map_set (ru_RunID run) s sels) runs)"

definition selectBaselineRuns ::
  "storage \<Rightarrow> CIReportBaseline \<Rightarrow> CIReportRunRow list \<Rightarrow> CIReportResultRow list \<Rightarrow> selections svc" where
  "selectBaselineRuns st baseline runs contenderRows =
     select_each (\<lambda>run. baseline_for_run st baseline run (ciReportRowsByRunID contenderRows (ru_RunID run))) [] runs"

text \<open>
  An explicit baseline: \<open>baselineByRunID\<close> takes the last pairing of a run id, and the run
  must name exactly one run of the contender's repository.
\<close>

definition explicit_for_run ::
  "storage \<Rightarrow> CIReportBaseline \<Rightarrow> (string \<times> string) list \<Rightarrow> CIReportRunRow list \<Rightarrow> CIReportRunRow \<Rightarrow> ciReportBaselineSelection svc" where
  "explicit_for_run st baseline pairs baselineRows run =
     (let selection = zero_selection\<lparr>bl_runID := ru_RunID run, bl_contenderCommitID := metaCommitID run\<rparr>;
          baselineRunID = deref_string (map_of (rev pairs) (ru_RunID run));
          err = (\<lambda>code msg. Inr (selection\<lparr>bl_baselineError := Some (baseline_error code msg (ru_RunID run) baseline None)\<rparr>))
      in if baselineRunID = [] then Inr selection
         else case filter (\<lambda>row. ru_RunID row = baselineRunID \<and>
                NormalizeRepoURL (ru_CommitRepoURL row) = NormalizeRepoURL (ru_CommitRepoURL run)) baselineRows of
           [] \<Rightarrow> err ExplicitRunNotFound ''explicit baseline run was not found''
         | [base] \<Rightarrow>
            (case (ru_CommitID base, ru_CommitSha base) of
               (Some i, Some sha) \<Rightarrow>
                 (case st_GetCommit st (NormalizeRepoURL (ru_CommitRepoURL base)) sha of
                    Inl e \<Rightarrow> (if e = ErrNotFound
                       then err MissingCommitMetadata ''explicit baseline commit metadata was not found''
                       else Inl (SvcStore ''get explicit baseline commit'' e))
                  | Inr commitRow \<Rightarrow> Inr (selection\<lparr>bl_baselineRunID := Some baselineRunID, bl_baselineCommitID := i,
                       bl_commit := Some commitRow\<rparr>))
             | _ \<Rightarrow> err MissingCommitMetadata ''explicit baseline run is not connected to commit metadata'')
         | _ \<Rightarrow> err AmbiguousBaselineRun ''explicit baseline run id matched multiple commits or run metadata groups'')"

definition selectExplicitBaselineRuns ::
  "storage \<Rightarrow> CIReportBaseline \<Rightarrow> string list \<Rightarrow> string list \<Rightarrow> CIReportRunRow list \<Rightarrow> selections svc" where
  "selectExplicitBaselineRuns st baseline runIDs baselineRunIDs runs =
     svc_bind (of_store ''select ci report explicit baseline runs'' (st_RunsByIDs st baselineRunIDs)) (\<lambda>baselineRows.
       select_each (explicit_for_run st baseline (zip runIDs baselineRunIDs) baselineRows) [] runs)"

section \<open>Comparisons\<close>

definition ciReportSideFromRow :: "CIReportResultRow \<Rightarrow> CIReportSide" where
  "ciReportSideFromRow row =
     (let (svs, svsType) = (case resultSVS (rr_Unit row) (nonNullFloats (rr_Data row)) (rr_Error row \<noteq> None) of
            Inl _ \<Rightarrow> (None, ''n/a'') | Inr p \<Rightarrow> p)
      in \<lparr>sd_ResultID = rr_ResultID row, sd_RunID = rr_RunID row, sd_ResultTimestamp = rr_ResultTimestamp row,
          sd_CommitSHA = rr_CommitSha row, sd_CommitTimestamp = rr_CommitTimestamp row, sd_Error = None,
          sd_SVS = svs, sd_SVSType = svsType, sd_BeginsDistributionChange = False\<rparr>)"

definition ciReportBaselineSideFromRow :: "CIReportResultRow \<Rightarrow> CIReportBaselineSide" where
  "ciReportBaselineSideFromRow row = (let side = ciReportSideFromRow row in
     \<lparr>bs_ResultID = sd_ResultID side, bs_RunID = sd_RunID side, bs_ResultTimestamp = sd_ResultTimestamp side,
      bs_CommitSHA = sd_CommitSHA side, bs_CommitTimestamp = sd_CommitTimestamp side,
      bs_SVS = sd_SVS side, bs_SVSType = sd_SVSType side\<rparr>)"

definition ciReportComparisonBase :: "CIReportResultRow \<Rightarrow> CIReportComparison svc" where
  "ciReportComparisonBase row =
     svc_bind (of_json (jsonObject (rr_CaseTags row))) (\<lambda>tags.
     svc_bind (of_json (jsonObject (rr_ContextTags row))) (\<lambda>contextTags.
     svc_bind (of_json (jsonObject (rr_InfoTags row))) (\<lambda>infoTags.
     svc_bind (of_json (beginsDistributionChange (rr_ChangeAnnotations row))) (\<lambda>begins.
       Inr \<lparr>cp_Status = RowUnset, cp_Name = rr_CaseName row,
            cp_Tags = map_set ''name'' (AStr (rr_CaseName row)) (or_empty tags),
            cp_Context = contextTags, cp_Info = infoTags,
            cp_Hardware = \<lparr>hd_ID = rr_HardwareID row, hd_Type = rr_HardwareType row, hd_Name = rr_HardwareName row,
              hd_Hash = rr_HardwareHash row\<rparr>,
            cp_HistoryFingerprint = rr_HistoryFingerprint row, cp_Unit = rr_Unit row,
            cp_LessIsBetter = lessIsBetterPtr (rr_Unit row),
            cp_Contender = (ciReportSideFromRow row)\<lparr>sd_BeginsDistributionChange := begins\<rparr>,
            cp_Baseline = None, cp_Analysis = None, cp_Error = None, cp_Reason = None,
            cp_Links = \<lparr>ln_Result = ciReportResultLink (rr_ResultID row), ln_Compare = [],
              ln_Series = ciReportSeriesLink (rr_HistoryFingerprint row)\<rparr>\<rparr>))))"

definition ciReportComparisonStatus :: "LookbackAnalysis ptr \<Rightarrow> CIReportRowStatus" where
  "ciReportComparisonStatus lookback = (case lookback of
     None \<Rightarrow> RowInsufficient
   | Some l \<Rightarrow> (if la_RegressionIndicated l then RowRegressed
       else if la_ImprovementIndicated l then RowImproved else RowStable))"

definition contender_keys :: "selections \<Rightarrow> string list" where
  "contender_keys sels = List.map_filter (\<lambda>(runID, s). if bl_contenderCommitID s = [] then None
     else Some (ciReportRunKeyString runID (bl_contenderCommitID s))) sels"

definition baseline_key_strings :: "selections \<Rightarrow> string list" where
  "baseline_key_strings sels = List.map_filter (\<lambda>(_, s). case bl_baselineRunID s of None \<Rightarrow> None
     | Some r \<Rightarrow> if bl_baselineCommitID s = [] then None
                else Some (ciReportRunKeyString r (bl_baselineCommitID s))) sels"

text \<open>\<open>baselineRows[runKey][fingerprint]\<close>: the last row of a baseline run with that fingerprint.\<close>

definition baseline_row :: "selections \<Rightarrow> CIReportResultRow list \<Rightarrow> string \<Rightarrow> string \<Rightarrow> CIReportResultRow option" where
  "baseline_row sels rows key fingerprint =
     (if key \<notin> set (baseline_key_strings sels) then None
      else find (\<lambda>row. ciReportResultRunKey row = Some key \<and> rr_HistoryFingerprint row = fingerprint) (rev rows))"

definition compare_row ::
  "mathlib \<Rightarrow> storage \<Rightarrow> CIReportResultRow list \<Rightarrow> selections \<Rightarrow> f64 \<Rightarrow> f64 \<Rightarrow> CIReportResultRow \<Rightarrow> CIReportComparison svc" where
  "compare_row ml st rows sels threshold thresholdZ row =
     svc_bind (ciReportComparisonBase row) (\<lambda>comp.
     if rr_Error row \<noteq> None then
       svc_bind (of_json (jsonObject (rr_Error row))) (\<lambda>e.
         Inr (comp\<lparr>cp_Status := RowErrored, cp_Error := e, cp_Contender := (cp_Contender comp)\<lparr>sd_Error := e\<rparr>\<rparr>))
     else let selection = selection_of sels (rr_RunID row) in
       (case bl_baselineRunID selection of
          None \<Rightarrow> Inr (comp\<lparr>cp_Status := RowMissingBaseline\<rparr>)
        | Some b \<Rightarrow>
           (case baseline_row sels rows (ciReportRunKeyString b (bl_baselineCommitID selection)) (rr_HistoryFingerprint row) of
              None \<Rightarrow> Inr (comp\<lparr>cp_Status := RowMissingBaseline\<rparr>)
            | Some baselineRow \<Rightarrow>
               (case Compare ml st (rr_ResultID baselineRow) (rr_ResultID row) threshold thresholdZ of
                  Inl (NotComparable reason) \<Rightarrow>
                    Inr (comp\<lparr>cp_Status := RowNotComparable, cp_Reason := Some reason,
                              cp_Baseline := Some (ciReportBaselineSideFromRow baselineRow)\<rparr>)
                | Inl e \<Rightarrow> Inl e
                | Inr a \<Rightarrow>
                    Inr (comp\<lparr>cp_Analysis := Some (co_Analysis a), cp_Unit := Some (co_Unit a),
                      cp_LessIsBetter := Some (co_LessIsBetter a),
                      cp_Baseline := Some ((ciReportBaselineSideFromRow baselineRow)\<lparr>bs_SVS := Some (cs_SVS (co_Baseline a))\<rparr>),
                      cp_Contender := (cp_Contender comp)\<lparr>sd_SVS := Some (cs_SVS (co_Contender a))\<rparr>,
                      cp_Links := (cp_Links comp)\<lparr>ln_Compare :=
                        ciReportCompareLink (rr_ResultID baselineRow) (rr_ResultID row) threshold thresholdZ\<rparr>,
                      cp_Status := ciReportComparisonStatus (an_LookbackZScore (co_Analysis a))\<rparr>)))))"

definition is_contender :: "selections \<Rightarrow> CIReportResultRow \<Rightarrow> bool" where
  "is_contender sels row = (case ciReportResultRunKey row of None \<Rightarrow> False | Some k \<Rightarrow> k \<in> set (contender_keys sels))"

definition assembleComparisons ::
  "mathlib \<Rightarrow> storage \<Rightarrow> CIReportResultRow list \<Rightarrow> selections \<Rightarrow> f64 \<Rightarrow> f64 \<Rightarrow> CIReportComparison list svc" where
  "assembleComparisons ml st rows sels threshold thresholdZ =
     map_err (compare_row ml st rows sels threshold thresholdZ) (filter (is_contender sels) rows)"

section \<open>The report\<close>

definition apply_selection :: "selections \<Rightarrow> CIReportSummary \<times> CIReportRun list \<Rightarrow> CIReportRun \<Rightarrow> CIReportSummary \<times> CIReportRun list" where
  "apply_selection sels acc run =
     (let selection = selection_of sels (rn_RunID run);
          run1 = (case bl_baselineRunID selection of None \<Rightarrow> run | Some b \<Rightarrow> run\<lparr>rn_BaselineRunID := Some b\<rparr>);
          run2 = (case bl_commit selection of None \<Rightarrow> run1
                  | Some c \<Rightarrow> run1\<lparr>rn_BaselineCommit := Some (ciReportCommitFromCommit c),
                                rn_CommitsSkipped := bl_commitsSkipped selection\<rparr>)
      in case bl_baselineError selection of
           None \<Rightarrow> (fst acc, snd acc @ [run2])
         | Some e \<Rightarrow>
            (let s1 = (fst acc)\<lparr>su_baselineErrors := su_baselineErrors (fst acc) + 1\<rparr>;
                 s2 = (if be_Code e \<noteq> NoBaselineRun then s1\<lparr>su_baselineActionErr := su_baselineActionErr s1 + 1\<rparr> else s1)
             in (s2, snd acc @ [run2\<lparr>rn_BaselineError := Some e\<rparr>])))"

definition applyBaselineSelections :: "selections \<Rightarrow> CIReport \<Rightarrow> CIReport" where
  "applyBaselineSelections sels r =
     (let (s, runs) = foldl (apply_selection sels) (rp_Summary r, []) (rp_Runs r)
      in r\<lparr>rp_Summary := s, rp_Runs := runs\<rparr>)"

fun count_comparison :: "CIReportSummary \<Rightarrow> CIReportRowStatus \<Rightarrow> CIReportSummary" where
  "count_comparison s RowErrored = s\<lparr>su_BenchmarkErrors := su_BenchmarkErrors s + 1\<rparr>"
| "count_comparison s RowMissingBaseline = s\<lparr>su_MissingBaseline := su_MissingBaseline s + 1\<rparr>"
| "count_comparison s RowNotComparable = s\<lparr>su_NotComparable := su_NotComparable s + 1\<rparr>"
| "count_comparison s RowInsufficient = s\<lparr>su_insufficient := su_insufficient s + 1, su_Compared := su_Compared s + 1\<rparr>"
| "count_comparison s RowRegressed =
     s\<lparr>su_Regressions := su_Regressions s + 1, su_Compared := su_Compared s + 1, su_Analyzed := su_Analyzed s + 1\<rparr>"
| "count_comparison s RowImproved =
     s\<lparr>su_Improvements := su_Improvements s + 1, su_Compared := su_Compared s + 1, su_Analyzed := su_Analyzed s + 1\<rparr>"
| "count_comparison s RowStable =
     s\<lparr>su_stable := su_stable s + 1, su_Compared := su_Compared s + 1, su_Analyzed := su_Analyzed s + 1\<rparr>"
| "count_comparison s RowUnset = s"

definition deriveSummaryFromComparisons :: "CIReport \<Rightarrow> CIReport" where
  "deriveSummaryFromComparisons r =
     r\<lparr>rp_Summary := foldl count_comparison (rp_Summary r) (map cp_Status (rp_Comparisons r))\<rparr>"

definition deriveStatus :: "CIReport \<Rightarrow> CIReportStatus" where
  "deriveStatus r = (let s = rp_Summary r in
     if su_MissingRuns s > 0 \<or> su_commitlessRuns s > 0 \<or> su_ContenderResults s = 0 \<or>
        su_BenchmarkErrors s > 0 \<or> su_baselineActionErr s > 0 then StatusActionRequired
     else if su_Regressions s > 0 then StatusFailure
     else if su_Analyzed s = 0 then StatusSkipped
     else StatusSuccess)"

definition deriveStatusReason :: "CIReport \<Rightarrow> string" where
  "deriveStatusReason r = (let s = rp_Summary r in
     case rp_Status r of
       StatusActionRequired \<Rightarrow>
         (if su_MissingRuns s > 0 then ''explicit run IDs were not found''
          else if su_commitlessRuns s > 0 then ''selected runs are not connected to commit metadata''
          else if su_ContenderResults s = 0 then ''selected runs contain no benchmark results''
          else if su_BenchmarkErrors s > 0 then ''benchmark errors require inspection''
          else if su_baselineActionErr s > 0 then ''baseline commit metadata is incomplete''
          else ''action required'')
     | StatusFailure \<Rightarrow> ''lookback regression detected''
     | StatusSkipped \<Rightarrow> ''no row has enough baseline history for z-score analysis''
     | _ \<Rightarrow> ''no regressions'')"

definition applyCommitlessBaselineErrors :: "CIReportBaseline \<Rightarrow> CIReport \<Rightarrow> CIReport" where
  "applyCommitlessBaselineErrors baseline r =
     r\<lparr>rp_Runs := map (\<lambda>run. run\<lparr>rn_BaselineError := Some (baseline_error MissingCommitMetadata
           ''selected run is not connected to commit metadata'' (rn_RunID run) baseline None)\<rparr>) (rp_Runs r),
       rp_Summary := (rp_Summary r)
         \<lparr>su_baselineErrors := su_baselineErrors (rp_Summary r) + length (rp_Runs r),
          su_baselineActionErr := su_baselineActionErr (rp_Summary r) + length (rp_Runs r)\<rparr>\<rparr>"

definition attachComparisonsToRuns :: "CIReport \<Rightarrow> CIReport" where
  "attachComparisonsToRuns r =
     r\<lparr>rp_Runs := map (\<lambda>run. run\<lparr>rn_Comparisons :=
         filter (\<lambda>c. sd_RunID (cp_Contender c) = rn_RunID run) (rp_Comparisons r)\<rparr>) (rp_Runs r)\<rparr>"

definition effective_threshold :: "f64 \<Rightarrow> f64 \<Rightarrow> f64" where
  "effective_threshold x fallback = (if feq x (Fin 0) then fallback else x)"

text \<open>The report of a selection before any comparison.\<close>

definition report_init ::
  "string \<Rightarrow> CIReportQuery \<Rightarrow> CIReportBaseline \<Rightarrow> f64 \<Rightarrow> f64 \<Rightarrow> ciReportRunSelection \<Rightarrow> CIReportRun list \<Rightarrow> CIReport" where
  "report_init publicBaseURL q baseline threshold thresholdZ selection runs =
     \<lparr>rp_Repository = sl_repository selection, rp_CommitSHA = sl_commitSHA selection,
      rp_SelectedRunIDs = ciReportSelectedRunIDs (sl_runs selection), rp_MissingRunIDs = sl_missingRunIDs selection,
      rp_Baseline = baseline, rp_Status = StatusUnset, rp_StatusReason = [], rp_Threshold = threshold,
      rp_ThresholdZ = thresholdZ,
      rp_Summary = zero_summary\<lparr>su_Runs := length runs, su_MissingRuns := length (sl_missingRunIDs selection)\<rparr>,
      rp_Runs = runs,
      rp_ReportURL = ciReportURL publicBaseURL q (sl_repository selection) (sl_commitSHA selection) baseline threshold thresholdZ,
      rp_Comparisons = []\<rparr>"

definition finish_report :: "CIReportComparison list \<Rightarrow> CIReport \<Rightarrow> CIReport" where
  "finish_report comparisons r =
     (let r1 = deriveSummaryFromComparisons (attachComparisonsToRuns (r\<lparr>rp_Comparisons := comparisons\<rparr>));
          r2 = r1\<lparr>rp_Status := deriveStatus r1\<rparr>
      in r2\<lparr>rp_StatusReason := deriveStatusReason r2\<rparr>)"

text \<open>The baselines of the selected runs, explicit or by search.\<close>

definition pick_baselines ::
  "storage \<Rightarrow> CIReportQuery \<Rightarrow> CIReportBaseline \<Rightarrow> ciReportRunSelection \<Rightarrow> CIReportResultRow list \<Rightarrow> selections svc" where
  "pick_baselines st q baseline selection contenderRows =
     (if q_BaselineRunIDs q \<noteq> []
      then selectExplicitBaselineRuns st baseline (q_RunIDs q) (q_BaselineRunIDs q) (sl_runs selection)
      else selectBaselineRuns st baseline (sl_runs selection) contenderRows)"

text \<open>The part of \<open>Report\<close> that reads result rows, once the selection has runs with commits.\<close>

definition report_rows ::
  "mathlib \<Rightarrow> storage \<Rightarrow> CIReportQuery \<Rightarrow> CIReportBaseline \<Rightarrow> f64 \<Rightarrow> f64 \<Rightarrow> ciReportRunSelection \<Rightarrow> CIReport \<Rightarrow> CIReport svc" where
  "report_rows ml st q baseline threshold thresholdZ selection report =
     (let runKeys = ciReportRunKeys (sl_runs selection) in
     svc_bind (of_store ''count ci report rows'' (st_CountRows st runKeys)) (\<lambda>rowCount.
     if rowCount > CIReportMaxComparisonRows then
       Inl (ValidationError (''comparison row limit exceeded: '' @ itoa (int rowCount) @ '' > '' @ itoa (int CIReportMaxComparisonRows)))
     else let report1 = report\<lparr>rp_Summary := (rp_Summary report)\<lparr>su_ContenderResults := rowCount\<rparr>\<rparr> in
     if rowCount = 0 then
       Inr (report1\<lparr>rp_Status := StatusActionRequired, rp_StatusReason := ''selected runs contain no benchmark results''\<rparr>)
     else
     svc_bind (of_store ''select ci report contender rows'' (st_SelectRows st runKeys [])) (\<lambda>contenderRows.
     svc_bind (pick_baselines st q baseline selection contenderRows) (\<lambda>sels.
     let report2 = applyBaselineSelections sels report1 in
     svc_bind (of_store ''select ci report rows'' (st_SelectRows st runKeys (ciReportBaselineRunKeys sels))) (\<lambda>rows.
     svc_bind (assembleComparisons ml st rows sels threshold thresholdZ) (\<lambda>comparisons.
       Inr (finish_report comparisons report2)))))))"

definition effective_baseline :: "CIReportQuery \<Rightarrow> CIReportBaseline" where
  "effective_baseline q =
     (if q_BaselineRunIDs q \<noteq> [] then CIReportBaselineExplicitRun else ciReportBaseline (q_Baseline q))"

definition Report :: "mathlib \<Rightarrow> storage \<Rightarrow> string \<Rightarrow> CIReportQuery \<Rightarrow> CIReport svc" where
  "Report ml st publicBaseURL q =
     svc_bind (validateExplicitBaselineRunIDs q) (\<lambda>_.
     let baseline = effective_baseline q;
         threshold = effective_threshold (q_Threshold q) PairwisePercentThresholdDefault;
         thresholdZ = effective_threshold (q_ThresholdZ q) ZScoreThresholdDefault in
     if q_BaselineRunIDs q = [] \<and> \<not> validCIReportBaseline baseline then Inl (ValidationError ''invalid baseline'')
     else
     svc_bind (selectCIReportRuns st q) (\<lambda>selection.
     svc_bind (ciReportRunsFromRows (sl_runs selection)) (\<lambda>runs.
     let report = report_init publicBaseURL q baseline threshold thresholdZ selection runs in
     if sl_runs selection = [] then
       Inr (report\<lparr>rp_Status := StatusActionRequired, rp_StatusReason := ''no runs found for selected commit''\<rparr>)
     else if sl_allCommitless selection then
       Inr ((applyCommitlessBaselineErrors baseline
              (report\<lparr>rp_Summary := (rp_Summary report)\<lparr>su_commitlessRuns := length (sl_runs selection)\<rparr>\<rparr>))
            \<lparr>rp_Status := StatusActionRequired,
             rp_StatusReason := ''selected runs are not connected to commit metadata''\<rparr>)
     else report_rows ml st q baseline threshold thresholdZ selection report)))"

end
