(* ===== verification/CIReportProps.thy ===== *)
theory CIReportProps
  imports CIReport
begin

text \<open>
  Facts about the CI report: how a report's status and counters follow from its comparisons,
  which baseline run is chosen, which run ids a report accounts for, and when a contender
  result is compared exactly once.
\<close>

section \<open>Orders\<close>

text \<open>Comparing by one order and then by another is again an order that sorting accepts.\<close>

lemma weak_order_lex:
  assumes "weak_order lt1" "weak_order lt2"
  shows "weak_order (\<lambda>a b. lt1 a b \<or> \<not> lt1 b a \<and> lt2 a b)"
proof
  fix x y z
  show "lt1 x y \<or> \<not> lt1 y x \<and> lt2 x y \<Longrightarrow> \<not> (lt1 y x \<or> \<not> lt1 x y \<and> lt2 y x)"
    using weak_order.asym [OF assms(1)] weak_order.asym [OF assms(2)] by blast
  show "lt1 x z \<or> \<not> lt1 z x \<and> lt2 x z \<Longrightarrow>
      (lt1 x y \<or> \<not> lt1 y x \<and> lt2 x y) \<or> (lt1 y z \<or> \<not> lt1 z y \<and> lt2 y z)"
    using weak_order.neg_trans [OF assms(1), of x z y] weak_order.neg_trans [OF assms(2), of x z y]
      weak_order.neg_trans [OF assms(1), of z y x] weak_order.neg_trans [OF assms(1), of y x z]
    by (metis assms(1) weak_order.trans_less weak_order.asym)
qed

lemma weak_order_key: "weak_order (\<lambda>x y. (f x :: 'k :: linorder) < f y)"
  by (rule key_less.weak_order_axioms)

lemma weak_order_key_desc: "weak_order (\<lambda>x y. (f y :: 'k :: linorder) < f x)"
  by unfold_locales auto

definition newer_commit :: "ciReportBaselineCandidate \<Rightarrow> ciReportBaselineCandidate \<Rightarrow> bool" where
  "newer_commit a b = (case cc_Timestamp (cd_commit a) of None \<Rightarrow> False
     | Some x \<Rightarrow> (case cc_Timestamp (cd_commit b) of None \<Rightarrow> True | Some y \<Rightarrow> y < x))"

lemma newer_commit_order: "weak_order newer_commit"
  by unfold_locales (auto simp: newer_commit_def split: option.splits)

lemma candidate_before_lex:
  "candidate_before = (\<lambda>a b. (\<not> cd_sameReason a) < (\<not> cd_sameReason b) \<or> \<not> (\<not> cd_sameReason b) < (\<not> cd_sameReason a) \<and>
     (newer_commit a b \<or> \<not> newer_commit b a \<and>
      (cd_resultTimestamp b < cd_resultTimestamp a \<or> \<not> cd_resultTimestamp a < cd_resultTimestamp b \<and>
       (cd_runID b < cd_runID a \<or> \<not> cd_runID a < cd_runID b \<and> cd_commitID b < cd_commitID a))))"
  by (intro ext) (auto simp: candidate_before_def newer_commit_def sameTimePtr_def Let_def split: option.splits)

interpretation candidate_order: weak_order candidate_before
  unfolding candidate_before_lex
  by (rule weak_order_lex [OF weak_order_key [where f = "\<lambda>c. \<not> cd_sameReason c"]
        weak_order_lex [OF newer_commit_order
        weak_order_lex [OF weak_order_key_desc [where f = cd_resultTimestamp]
        weak_order_lex [OF weak_order_key_desc [where f = cd_runID] weak_order_key_desc [where f = cd_commitID]]]]])

lemma key_less_lex:
  "key_less = (\<lambda>a b. rk_RunID a < rk_RunID b \<or> \<not> rk_RunID b < rk_RunID a \<and> rk_CommitID a < rk_CommitID b)"
  by (intro ext) (auto simp: key_less_def)

interpretation run_key_order: weak_order key_less
  unfolding key_less_lex
  by (rule weak_order_lex [OF weak_order_key [where f = rk_RunID] weak_order_key [where f = rk_CommitID]])

text \<open>Candidates of different runs are never equivalent, so the order of the map does not matter.\<close>

lemma candidate_before_total:
  "(cd_runID a, cd_commitID a) \<noteq> (cd_runID b, cd_commitID b) \<Longrightarrow> candidate_before a b \<or> candidate_before b a"
  unfolding candidate_before_lex by (metis linorder_neq_iff)

lemma candidate_hd_unique:
  assumes "mset xs = mset ys" "inj_on (\<lambda>c. (cd_runID c, cd_commitID c)) (set xs)" "xs \<noteq> []"
  shows "hd (stable_sort candidate_before xs) = hd (stable_sort candidate_before ys)"
proof (rule ccontr)
  let ?x = "hd (stable_sort candidate_before xs)" and ?y = "hd (stable_sort candidate_before ys)"
  assume ne: "?x \<noteq> ?y"
  have s: "set xs = set ys" "ys \<noteq> []" using assms(1,3) by (metis set_mset_mset, metis mset_zero_iff)
  have "?x \<in> set xs" "?y \<in> set ys"
    using assms(3) s(2) by (metis hd_in_set set_stable_sort stable_sort_eq_Nil)+
  then have m: "?x \<in> set ys" "?y \<in> set xs" using s by auto
  then have "\<not> candidate_before ?x ?y" "\<not> candidate_before ?y ?x"
    using candidate_order.sort_hd_least by auto
  moreover have "(cd_runID ?x, cd_commitID ?x) \<noteq> (cd_runID ?y, cd_commitID ?y)"
    using ne assms(2) m s(1) by (auto simp: inj_on_def)
  ultimately show False using candidate_before_total by blast
qed

section \<open>Counters\<close>

definition counts_of :: "CIReportSummary \<Rightarrow> nat list" where
  "counts_of s = [su_Regressions s, su_Improvements s, su_stable s, su_insufficient s,
     su_BenchmarkErrors s, su_MissingBaseline s, su_NotComparable s]"

definition status_counts :: "CIReportRowStatus list \<Rightarrow> nat list" where
  "status_counts xs = map (count_list xs) [RowRegressed, RowImproved, RowStable, RowInsufficient,
     RowErrored, RowMissingBaseline, RowNotComparable]"

text \<open>A summary whose comparison counters agree with the statuses \<open>xs\<close>.\<close>

definition counted :: "CIReportRowStatus list \<Rightarrow> CIReportSummary \<Rightarrow> bool" where
  "counted xs s \<longleftrightarrow> counts_of s = status_counts xs \<and>
     su_Analyzed s = su_Regressions s + su_Improvements s + su_stable s \<and>
     su_Compared s = su_Analyzed s + su_insufficient s"

lemma counted_step: "counted xs s \<Longrightarrow> counted (xs @ [x]) (count_comparison s x)"
  by (cases x) (auto simp: counted_def counts_of_def status_counts_def)

lemma counted_foldl: "counted ys s \<Longrightarrow> counted (ys @ xs) (foldl count_comparison s xs)"
proof (induction xs arbitrary: ys s)
  case (Cons x xs)
  then show ?case using counted_step [of ys s x] Cons.IH [of "ys @ [x]"] by simp
qed simp

lemma count_comparison_other [simp]:
  "su_Runs (foldl count_comparison s xs) = su_Runs s"
  "su_MissingRuns (foldl count_comparison s xs) = su_MissingRuns s"
  "su_ContenderResults (foldl count_comparison s xs) = su_ContenderResults s"
  "su_commitlessRuns (foldl count_comparison s xs) = su_commitlessRuns s"
  "su_baselineErrors (foldl count_comparison s xs) = su_baselineErrors s"
  "su_baselineActionErr (foldl count_comparison s xs) = su_baselineActionErr s"
proof (induction xs arbitrary: s)
  case (Cons x xs)
  { case 1 show ?case using Cons(1) by (cases x) auto }
  { case 2 show ?case using Cons(2) by (cases x) auto }
  { case 3 show ?case using Cons(3) by (cases x) auto }
  { case 4 show ?case using Cons(4) by (cases x) auto }
  { case 5 show ?case using Cons(5) by (cases x) auto }
  { case 6 show ?case using Cons(6) by (cases x) auto }
qed simp_all

lemma status_counts_sum: "RowUnset \<notin> set xs \<Longrightarrow> sum_list (status_counts xs) = length xs"
proof (induction xs)
  case (Cons x xs)
  then show ?case by (cases x) (auto simp: status_counts_def)
qed (simp add: status_counts_def)

lemma counted_cong:
  assumes "counts_of s = counts_of s'" "su_Analyzed s = su_Analyzed s'" "su_Compared s = su_Compared s'"
  shows "counted xs s \<longleftrightarrow> counted xs s'"
  using assms by (auto simp: counted_def counts_of_def)

lemma apply_selection_counted:
  "counted xs (fst (foldl (apply_selection sels) acc runs)) \<longleftrightarrow> counted xs (fst acc)"
proof (induction runs arbitrary: acc)
  case (Cons run runs)
  have "counted xs (fst (apply_selection sels acc run)) \<longleftrightarrow> counted xs (fst acc)"
    by (rule counted_cong) (auto simp: apply_selection_def counts_of_def Let_def split: option.splits)
  then show ?case using Cons.IH by simp
qed simp

lemma apply_selection_other [simp]:
  "su_Runs (fst (foldl (apply_selection sels) acc runs)) = su_Runs (fst acc)"
  "su_MissingRuns (fst (foldl (apply_selection sels) acc runs)) = su_MissingRuns (fst acc)"
  "su_ContenderResults (fst (foldl (apply_selection sels) acc runs)) = su_ContenderResults (fst acc)"
  "su_commitlessRuns (fst (foldl (apply_selection sels) acc runs)) = su_commitlessRuns (fst acc)"
  "map rn_RunID (snd (foldl (apply_selection sels) acc runs)) = map rn_RunID (snd acc) @ map rn_RunID runs"
proof (induction runs arbitrary: acc)
  case (Cons run runs)
  have s: "su_Runs (fst (apply_selection sels acc run)) = su_Runs (fst acc)"
    "su_MissingRuns (fst (apply_selection sels acc run)) = su_MissingRuns (fst acc)"
    "su_ContenderResults (fst (apply_selection sels acc run)) = su_ContenderResults (fst acc)"
    "su_commitlessRuns (fst (apply_selection sels acc run)) = su_commitlessRuns (fst acc)"
    "map rn_RunID (snd (apply_selection sels acc run)) = map rn_RunID (snd acc) @ [rn_RunID run]" for acc
    by (auto simp: apply_selection_def Let_def split: option.splits)
  { case 1 show ?case using Cons(1) s by simp }
  { case 2 show ?case using Cons(2) s by simp }
  { case 3 show ?case using Cons(3) s by simp }
  { case 4 show ?case using Cons(4) s by simp }
  { case 5 show ?case using Cons(5) s by simp }
qed simp_all

section \<open>What a report is made of\<close>

lemma side_from_row_ids [simp]:
  "sd_ResultID (ciReportSideFromRow row) = rr_ResultID row" "sd_RunID (ciReportSideFromRow row) = rr_RunID row"
  by (simp_all add: ciReportSideFromRow_def split_def Let_def)

lemma comparison_base_ids:
  assumes "ciReportComparisonBase row = Inr cmp"
  shows "sd_ResultID (cp_Contender cmp) = rr_ResultID row" "sd_RunID (cp_Contender cmp) = rr_RunID row"
    "cp_HistoryFingerprint cmp = rr_HistoryFingerprint row"
  using assms by (auto simp: ciReportComparisonBase_def svc_bind_Inr_iff)

lemma comparison_status_cases: "ciReportComparisonStatus l \<notin> {RowUnset, RowErrored}"
  by (auto simp: ciReportComparisonStatus_def split: option.splits)

lemma compare_row_status:
  assumes "compare_row ml st rows sels t tz row = Inr c"
  shows "cp_Status c \<noteq> RowUnset"
    "cp_Status c = RowErrored \<longleftrightarrow> rr_Error row \<noteq> None"
    "sd_ResultID (cp_Contender c) = rr_ResultID row" "sd_RunID (cp_Contender c) = rr_RunID row"
proof -
  obtain cmp where cmp: "ciReportComparisonBase row = Inr cmp"
    using assms by (auto simp: compare_row_def svc_bind_Inr_iff)
  note ids = comparison_base_ids [OF cmp]
  have "cp_Status c \<noteq> RowUnset \<and> (cp_Status c = RowErrored \<longleftrightarrow> rr_Error row \<noteq> None) \<and>
    sd_ResultID (cp_Contender c) = rr_ResultID row \<and> sd_RunID (cp_Contender c) = rr_RunID row"
  proof (cases "rr_Error row")
    case (Some e)
    then show ?thesis using assms cmp ids by (auto simp: compare_row_def svc_bind_Inr_iff)
  next
    case None
    then show ?thesis
      using assms cmp ids comparison_status_cases
      by (auto simp: compare_row_def Let_def split: option.splits sum.splits svc_error.splits)
  qed
  then show "cp_Status c \<noteq> RowUnset" "cp_Status c = RowErrored \<longleftrightarrow> rr_Error row \<noteq> None"
    "sd_ResultID (cp_Contender c) = rr_ResultID row" "sd_RunID (cp_Contender c) = rr_RunID row"
    by blast+
qed

lemma assembleComparisons_Inr:
  assumes "assembleComparisons ml st rows sels t tz = Inr comps"
  shows "length comps = length (filter (is_contender sels) rows)"
    "\<And>i. i < length comps \<Longrightarrow> compare_row ml st rows sels t tz (filter (is_contender sels) rows ! i) = Inr (comps ! i)"
  using assms by (auto simp: assembleComparisons_def map_err_Inr_iff)

lemma assembled_statuses:
  assumes "assembleComparisons ml st rows sels t tz = Inr comps"
  shows "RowUnset \<notin> set (map cp_Status comps)"
  using assembleComparisons_Inr [OF assms] compare_row_status(1) by (metis (no_types, lifting) imageE in_set_conv_nth list.set_map)

lemma counted_Nil: "counted [] zero_summary"
  by (simp add: counted_def counts_of_def status_counts_def zero_summary_def)

lemma counted_update [simp]:
  "counted xs (s\<lparr>su_Runs := n\<rparr>) = counted xs s" "counted xs (s\<lparr>su_MissingRuns := n\<rparr>) = counted xs s"
  "counted xs (s\<lparr>su_ContenderResults := n\<rparr>) = counted xs s" "counted xs (s\<lparr>su_commitlessRuns := n\<rparr>) = counted xs s"
  "counted xs (s\<lparr>su_baselineErrors := n\<rparr>) = counted xs s" "counted xs (s\<lparr>su_baselineActionErr := n\<rparr>) = counted xs s"
  by (auto simp: counted_def counts_of_def)

lemma run_from_row_id: "run_from_row row = Inr run \<Longrightarrow> rn_RunID run = ru_RunID row"
  by (auto simp: run_from_row_def svc_bind_Inr_iff)

lemma runs_from_rows:
  assumes "ciReportRunsFromRows rows = Inr runs"
  shows "length runs = length rows" "map rn_RunID runs = map ru_RunID rows"
proof -
  have n: "length runs = length rows" and at: "\<And>i. i < length rows \<Longrightarrow> run_from_row (rows ! i) = Inr (runs ! i)"
    using assms by (auto simp: ciReportRunsFromRows_def map_err_Inr_iff)
  show "length runs = length rows" by (fact n)
  show "map rn_RunID runs = map ru_RunID rows"
    using n run_from_row_id [OF at] by (intro nth_equalityI) simp_all
qed

text \<open>
  A report is either decided before any comparison, or it is the selection's report with all
  comparisons attached.
\<close>

lemma Report_cases:
  assumes "Report ml st u q = Inr r"
  obtains (early) selection runs where "selectCIReportRuns st q = Inr selection"
      "ciReportRunsFromRows (sl_runs selection) = Inr runs"
      "rp_Comparisons r = []" "rp_Status r = StatusActionRequired" "counted [] (rp_Summary r)"
      "su_Runs (rp_Summary r) = length (sl_runs selection)" "map rn_RunID (rp_Runs r) = map rn_RunID runs"
      "rp_MissingRunIDs r = sl_missingRunIDs selection" "su_MissingRuns (rp_Summary r) = length (sl_missingRunIDs selection)"
      "rp_SelectedRunIDs r = ciReportSelectedRunIDs (sl_runs selection)"
  | (full) selection runs cr sels rows comps r0 n where "selectCIReportRuns st q = Inr selection"
      "ciReportRunsFromRows (sl_runs selection) = Inr runs"
      "st_CountRows st (ciReportRunKeys (sl_runs selection)) = Inr n" "0 < n" "n \<le> CIReportMaxComparisonRows"
      "st_SelectRows st (ciReportRunKeys (sl_runs selection)) [] = Inr cr"
      "pick_baselines st q (effective_baseline q) selection cr = Inr sels"
      "st_SelectRows st (ciReportRunKeys (sl_runs selection)) (ciReportBaselineRunKeys sels) = Inr rows"
      "assembleComparisons ml st rows sels (effective_threshold (q_Threshold q) PairwisePercentThresholdDefault)
         (effective_threshold (q_ThresholdZ q) ZScoreThresholdDefault) = Inr comps"
      "r = finish_report comps r0" "counted [] (rp_Summary r0)"
      "su_commitlessRuns (rp_Summary r0) = 0" "su_ContenderResults (rp_Summary r0) = n"
      "su_Runs (rp_Summary r0) = length (sl_runs selection)" "map rn_RunID (rp_Runs r0) = map rn_RunID runs"
      "rp_MissingRunIDs r0 = sl_missingRunIDs selection" "su_MissingRuns (rp_Summary r0) = length (sl_missingRunIDs selection)"
      "rp_SelectedRunIDs r0 = ciReportSelectedRunIDs (sl_runs selection)"
proof -
  define b where "b = effective_baseline q"
  define t where "t = effective_threshold (q_Threshold q) PairwisePercentThresholdDefault"
  define tz where "tz = effective_threshold (q_ThresholdZ q) ZScoreThresholdDefault"
  obtain selection runs where sel: "selectCIReportRuns st q = Inr selection"
    and runs: "ciReportRunsFromRows (sl_runs selection) = Inr runs"
    using assms by (auto simp: Report_def svc_bind_Inr_iff Let_def split: if_splits)
  define rep where "rep = report_init u q b t tz selection runs"
  define keys where "keys = ciReportRunKeys (sl_runs selection)"
  have rep: "counted [] (rp_Summary rep)" "su_Runs (rp_Summary rep) = length (sl_runs selection)"
    "su_MissingRuns (rp_Summary rep) = length (sl_missingRunIDs selection)" "rp_MissingRunIDs rep = sl_missingRunIDs selection"
    "rp_SelectedRunIDs rep = ciReportSelectedRunIDs (sl_runs selection)" "rp_Runs rep = runs" "rp_Comparisons rep = []"
    "su_commitlessRuns (rp_Summary rep) = 0"
    using runs_from_rows [OF runs] counted_Nil
    by (simp_all add: rep_def report_init_def) (simp_all add: zero_summary_def)
  let ?less = "applyCommitlessBaselineErrors b (rep\<lparr>rp_Summary := (rp_Summary rep)\<lparr>su_commitlessRuns := length (sl_runs selection)\<rparr>\<rparr>)"
  consider (none) why where "r = rep\<lparr>rp_Status := StatusActionRequired, rp_StatusReason := why\<rparr>"
    | (commitless) why where "r = ?less\<lparr>rp_Status := StatusActionRequired, rp_StatusReason := why\<rparr>"
    | (rows) "report_rows ml st q b t tz selection rep = Inr r"
    using assms sel runs
    by (auto simp: Report_def svc_bind_Inr_iff Let_def rep_def b_def t_def tz_def split: if_split_asm)
  then show thesis
  proof cases
    case none
    show thesis unfolding none by (rule early [OF sel runs, unfolded none]) (use rep in simp_all)
  next
    case commitless
    show thesis
      by (rule early [OF sel runs, unfolded commitless])
         (use rep in \<open>simp_all add: applyCommitlessBaselineErrors_def comp_def\<close>)
  next
    case rows
    then obtain n where n: "st_CountRows st keys = Inr n" "n \<le> CIReportMaxComparisonRows"
      by (auto simp: report_rows_def svc_bind_Inr_iff keys_def not_less Let_def split: if_splits)
    define rep1 where "rep1 = rep\<lparr>rp_Summary := (rp_Summary rep)\<lparr>su_ContenderResults := n\<rparr>\<rparr>"
    show thesis
    proof (cases "n = 0")
      case True
      then obtain why where r: "r = rep1\<lparr>rp_Status := StatusActionRequired, rp_StatusReason := why\<rparr>"
        using rows n by (auto simp: report_rows_def svc_bind_Inr_iff rep1_def keys_def Let_def)
      show thesis by (rule early [OF sel runs, unfolded r]) (use rep in \<open>simp_all add: rep1_def\<close>)
    next
      case n0: False
      obtain cr sels rs comps where s: "st_SelectRows st keys [] = Inr cr"
        "pick_baselines st q b selection cr = Inr sels"
        "st_SelectRows st keys (ciReportBaselineRunKeys sels) = Inr rs" "assembleComparisons ml st rs sels t tz = Inr comps"
        and r: "r = finish_report comps (applyBaselineSelections sels rep1)"
        using rows n n0 by (auto simp: report_rows_def svc_bind_Inr_iff rep1_def keys_def Let_def not_less [symmetric])
      have c: "counted [] (rp_Summary rep1)" using rep by (simp add: rep1_def)
      show thesis
      proof (rule full [OF sel runs n(1) [unfolded keys_def] _ n(2) s(1) [unfolded keys_def] s(2) [unfolded b_def]
            s(3) [unfolded keys_def] s(4) [unfolded t_def tz_def] r])
        show "counted [] (rp_Summary (applyBaselineSelections sels rep1))"
          using c apply_selection_counted by (simp add: applyBaselineSelections_def split_def Let_def)
      qed (use n0 rep in \<open>simp_all add: applyBaselineSelections_def split_def Let_def rep1_def\<close>)
    qed
  qed
qed


lemma counted_status_iff:
  assumes "counted xs s"
  shows "su_BenchmarkErrors s = 0 \<longleftrightarrow> RowErrored \<notin> set xs" "su_Regressions s = 0 \<longleftrightarrow> RowRegressed \<notin> set xs"
    "su_Analyzed s = 0 \<longleftrightarrow> set xs \<inter> {RowRegressed, RowImproved, RowStable} = {}"
proof -
  have z: "count_list xs x = 0 \<longleftrightarrow> x \<notin> set xs" for x by (simp add: count_list_0_iff)
  show "su_BenchmarkErrors s = 0 \<longleftrightarrow> RowErrored \<notin> set xs" "su_Regressions s = 0 \<longleftrightarrow> RowRegressed \<notin> set xs"
    "su_Analyzed s = 0 \<longleftrightarrow> set xs \<inter> {RowRegressed, RowImproved, RowStable} = {}"
    using assms z by (auto simp: counted_def counts_of_def status_counts_def)
qed

lemma finish_report_facts:
  assumes "r = finish_report comps r0" "counted [] (rp_Summary r0)"
  shows "rp_Comparisons r = comps" "counted (map cp_Status comps) (rp_Summary r)"
    "su_MissingRuns (rp_Summary r) = su_MissingRuns (rp_Summary r0)" "rp_MissingRunIDs r = rp_MissingRunIDs r0"
    "su_ContenderResults (rp_Summary r) = su_ContenderResults (rp_Summary r0)"
    "su_commitlessRuns (rp_Summary r) = su_commitlessRuns (rp_Summary r0)"
    "su_Runs (rp_Summary r) = su_Runs (rp_Summary r0)" "rp_SelectedRunIDs r = rp_SelectedRunIDs r0"
    "map rn_RunID (rp_Runs r) = map rn_RunID (rp_Runs r0)"
    "rp_Status r = deriveStatus r" "rp_StatusReason r = deriveStatusReason r"
    "\<And>run. run \<in> set (rp_Runs r) \<Longrightarrow> rn_Comparisons run = filter (\<lambda>c. sd_RunID (cp_Contender c) = rn_RunID run) comps"
proof -
  define r1 where "r1 = deriveSummaryFromComparisons (attachComparisonsToRuns (r0\<lparr>rp_Comparisons := comps\<rparr>))"
  have r: "r = r1\<lparr>rp_Status := deriveStatus r1, rp_StatusReason := deriveStatusReason (r1\<lparr>rp_Status := deriveStatus r1\<rparr>)\<rparr>"
    by (simp add: assms(1) finish_report_def r1_def Let_def)
  have r1: "rp_Comparisons r1 = comps" "rp_Summary r1 = foldl count_comparison (rp_Summary r0) (map cp_Status comps)"
    "rp_MissingRunIDs r1 = rp_MissingRunIDs r0" "rp_SelectedRunIDs r1 = rp_SelectedRunIDs r0"
    "rp_Runs r1 = map (\<lambda>run. run\<lparr>rn_Comparisons := filter (\<lambda>c. sd_RunID (cp_Contender c) = rn_RunID run) comps\<rparr>) (rp_Runs r0)"
    by (simp_all add: r1_def deriveSummaryFromComparisons_def attachComparisonsToRuns_def)
  show "rp_Comparisons r = comps" "su_MissingRuns (rp_Summary r) = su_MissingRuns (rp_Summary r0)"
    "rp_MissingRunIDs r = rp_MissingRunIDs r0" "su_ContenderResults (rp_Summary r) = su_ContenderResults (rp_Summary r0)"
    "su_commitlessRuns (rp_Summary r) = su_commitlessRuns (rp_Summary r0)"
    "su_Runs (rp_Summary r) = su_Runs (rp_Summary r0)" "rp_SelectedRunIDs r = rp_SelectedRunIDs r0"
    "map rn_RunID (rp_Runs r) = map rn_RunID (rp_Runs r0)"
    by (simp_all add: r r1 comp_def)
  show "rp_Status r = deriveStatus r" by (simp add: r deriveStatus_def Let_def)
  show "rp_StatusReason r = deriveStatusReason r" by (simp add: r deriveStatusReason_def Let_def)
  show "counted (map cp_Status comps) (rp_Summary r)"
    using counted_foldl [OF assms(2), of "map cp_Status comps"] by (simp add: r r1)
  show "rn_Comparisons run = filter (\<lambda>c. sd_RunID (cp_Contender c) = rn_RunID run) comps" if "run \<in> set (rp_Runs r)" for run
    using that by (auto simp: r r1)
qed

section \<open>Run ids\<close>

lemma missing_loop_spec:
  "set (missing_loop found seen xs) = set xs - set found - set seen \<and> distinct (missing_loop found seen xs)"
  by (induction xs arbitrary: seen) auto

lemma set_selected: "set (ciReportSelectedRunIDs rows) = ru_RunID ` set rows" "distinct (ciReportSelectedRunIDs rows)"
  using missing_loop_spec [of "[]" "[]"] by (auto simp: ciReportSelectedRunIDs_def)

lemma set_missing: "set (ciReportMissingRunIDs ids rows) = set ids - ru_RunID ` set rows" "distinct (ciReportMissingRunIDs ids rows)"
  using missing_loop_spec [of "map ru_RunID rows" "[]" ids] by (auto simp: ciReportMissingRunIDs_def)

lemma runs_by_ids_requested: "r \<in> set (SelectCIReportRunsByIDs coll d ids) \<Longrightarrow> ru_RunID r \<in> set ids"
  by (auto simp: SelectCIReportRunsByIDs_def run_row_def)

lemma selection_accounts:
  assumes "selectCIReportRuns (db_storage coll d) q = Inr selection" "q_RunIDs q \<noteq> []"
  shows "ru_RunID ` set (sl_runs selection) \<union> set (sl_missingRunIDs selection) = set (q_RunIDs q)"
    "ru_RunID ` set (sl_runs selection) \<inter> set (sl_missingRunIDs selection) = {}" "distinct (sl_missingRunIDs selection)"
  using assms
  by (auto simp: selectCIReportRuns_def selectCommitModeRuns_def selectRunOnlyRuns_def Let_def svc_bind_Inr_iff
      db_storage_def set_missing ciReportFilterRunsByIDs_def runs_by_ids_requested split: if_splits)


section \<open>Demonstration data\<close>

text \<open>
  One commit on the default branch with two runs of one result each, both errored, so that
  no comparison needs the numeric analysis.
\<close>

definition demo_errored :: "string \<Rightarrow> string \<Rightarrow> result_rec" where
  "demo_errored i run = (demo_result i run ''s'' [] (Some ''k1''))\<lparr>br_error := Some (JObj [])\<rparr>"

definition demo_report_db :: db where
  "demo_report_db = \<lparr>db_results = [demo_errored ''a'' ''1'', demo_errored ''b'' ''2''], db_commits = [demo_commit ''k1'' 5]\<rparr>"

definition demo_query :: "string list \<Rightarrow> CIReportBaseline \<Rightarrow> CIReportQuery" where
  "demo_query runIDs baseline = \<lparr>q_Repository = ''r'', q_CommitSHA = ''k1'', q_RunIDs = runIDs, q_BaselineRunIDs = [],
     q_Baseline = baseline, q_Threshold = Fin 0, q_ThresholdZ = Fin 0, q_PublicBaseURL = []\<rparr>"

definition report_view :: "CIReport svc \<Rightarrow> (CIReportStatus \<times> nat list \<times> nat \<times> string list \<times> string list) option" where
  "report_view r = (case r of Inl _ \<Rightarrow> None
     | Inr x \<Rightarrow> Some (rp_Status x, counts_of (rp_Summary x), su_ContenderResults (rp_Summary x),
         rp_SelectedRunIDs x, rp_MissingRunIDs x))"

lemma demo_report_missing:
  "report_view (Report demo_math (db_storage byte_collation demo_report_db) [] (demo_query [''1'', ''9''] ''parent'')) =
     Some (StatusActionRequired, [0, 0, 0, 0, 1, 0, 0], 1, [''1''], [''9''])"
  by code_simp

lemma demo_report_latest:
  "report_view (Report demo_math (db_storage byte_collation demo_report_db) [] (demo_query [] ''latest_default'')) =
     Some (StatusActionRequired, [0, 0, 0, 0, 4, 0, 0], 2, [''1'', ''2''], [])"
  by code_simp

section \<open>Properties\<close>

text \<open>
  C7: The status of a report follows from its comparisons. It is never left unset. Success means
  that every requested run was found, no contender result errored or regressed and at least
  one was analysed; failure that a result regressed, with every run found and none errored;
  skipped that no result could be analysed. A missing run or an errored result always asks
  for action, so neither can hide behind a success.
\<close>

theorem Report_status:
  assumes "Report ml st u q = Inr r"
  defines "S \<equiv> set (map cp_Status (rp_Comparisons r))"
  shows "(case rp_Status r of
      StatusSuccess \<Rightarrow> rp_MissingRunIDs r = [] \<and> S \<inter> {RowErrored, RowRegressed} = {} \<and> S \<inter> {RowImproved, RowStable} \<noteq> {}
    | StatusFailure \<Rightarrow> rp_MissingRunIDs r = [] \<and> RowErrored \<notin> S \<and> RowRegressed \<in> S
    | StatusSkipped \<Rightarrow> rp_MissingRunIDs r = [] \<and> S \<subseteq> {RowMissingBaseline, RowNotComparable, RowInsufficient}
    | StatusActionRequired \<Rightarrow> True
    | StatusUnset \<Rightarrow> False)"
  using assms(1)
proof (cases rule: Report_cases)
  case early
  then show ?thesis by simp
next
  case (full selection runs cr sels rows comps r0 n)
  note f = finish_report_facts [OF full(10,11)]
  note c = counted_status_iff [OF f(2)]
  have S: "S = set (map cp_Status comps)" by (simp add: S_def f(1))
  have unset: "RowUnset \<notin> S" using assembled_statuses [OF full(9)] by (simp add: S)
  have cover: "S \<subseteq> {RowRegressed, RowImproved, RowStable, RowInsufficient, RowErrored, RowMissingBaseline, RowNotComparable}"
  proof
    fix x assume "x \<in> S"
    with unset show "x \<in> {RowRegressed, RowImproved, RowStable, RowInsufficient, RowErrored, RowMissingBaseline, RowNotComparable}"
      by (cases x) auto
  qed
  have d: "rp_Status r = deriveStatus r" by (fact f(10))
  have m: "rp_MissingRunIDs r = [] \<longleftrightarrow> su_MissingRuns (rp_Summary r) = 0" using f(3,4) full(16,17) by simp
  have no: "rp_MissingRunIDs r = [] \<and> RowErrored \<notin> S" if "rp_Status r \<noteq> StatusActionRequired"
    using d that m c(1) by (auto simp: deriveStatus_def Let_def S split: if_splits)
  show ?thesis
  proof (cases "rp_Status r")
    case StatusSuccess
    then have "su_Regressions (rp_Summary r) = 0" "su_Analyzed (rp_Summary r) \<noteq> 0"
      using d by (auto simp: deriveStatus_def Let_def split: if_splits)
    then show ?thesis using StatusSuccess no c(2,3) unfolding S by auto
  next
    case StatusFailure
    then have "su_Regressions (rp_Summary r) \<noteq> 0" using d by (auto simp: deriveStatus_def Let_def split: if_splits)
    then show ?thesis using StatusFailure no c(2) unfolding S by auto
  next
    case StatusSkipped
    then have "su_Analyzed (rp_Summary r) = 0" using d by (auto simp: deriveStatus_def Let_def split: if_splits)
    then have "S \<inter> {RowRegressed, RowImproved, RowStable} = {}" using c(3) unfolding S by simp
    then show ?thesis using StatusSkipped no cover by auto
  next
    case StatusUnset
    then show ?thesis using d by (auto simp: deriveStatus_def Let_def split: if_splits)
  qed simp
qed

theorem Report_status_witness:
  "\<exists>r. Report demo_math (db_storage byte_collation demo_report_db) [] (demo_query [''1'', ''9''] ''parent'') = Inr r \<and>
     rp_Status r = StatusActionRequired \<and> rp_Status r \<noteq> StatusUnset"
proof -
  obtain r where r: "Report demo_math (db_storage byte_collation demo_report_db) [] (demo_query [''1'', ''9''] ''parent'') = Inr r"
    "rp_Status r = StatusActionRequired"
    using demo_report_missing by (auto simp: report_view_def split: sum.splits)
  from Report_status [OF r(1)] r show ?thesis by auto
qed

text \<open>
  The counters of a report are the numbers of comparisons of each status: they partition
  the comparisons, the analysed ones are those that regressed, improved or stayed stable, and
  the compared ones these and those with insufficient history. The missing runs counted are
  the missing ids listed, and each run shows exactly its own comparisons.
\<close>

theorem Report_summary:
  assumes "Report ml st u q = Inr r"
  defines "N x \<equiv> length (filter (\<lambda>c. cp_Status c = x) (rp_Comparisons r))" and "s \<equiv> rp_Summary r"
  shows "su_Regressions s = N RowRegressed \<and> su_Improvements s = N RowImproved \<and>
    su_BenchmarkErrors s = N RowErrored \<and> su_MissingBaseline s = N RowMissingBaseline \<and>
    su_NotComparable s = N RowNotComparable \<and>
    su_Analyzed s = N RowRegressed + N RowImproved + N RowStable \<and>
    su_Compared s = su_Analyzed s + N RowInsufficient \<and>
    length (rp_Comparisons r) = su_Compared s + su_BenchmarkErrors s + su_MissingBaseline s + su_NotComparable s \<and>
    su_MissingRuns s = length (rp_MissingRunIDs r) \<and> su_Runs s = length (rp_Runs r) \<and>
    (rp_Comparisons r = [] \<or> (\<forall>run\<in>set (rp_Runs r).
       rn_Comparisons run = filter (\<lambda>c. sd_RunID (cp_Contender c) = rn_RunID run) (rp_Comparisons r)))"
proof -
  have N: "N x = count_list (map cp_Status (rp_Comparisons r)) x" for x
    unfolding N_def by (simp add: count_list_eq_length_filter filter_map comp_def eq_commute)
  have "counted (map cp_Status (rp_Comparisons r)) s \<and> RowUnset \<notin> set (map cp_Status (rp_Comparisons r)) \<and>
    su_MissingRuns s = length (rp_MissingRunIDs r) \<and> su_Runs s = length (rp_Runs r) \<and>
    (rp_Comparisons r = [] \<or> (\<forall>run\<in>set (rp_Runs r).
       rn_Comparisons run = filter (\<lambda>c. sd_RunID (cp_Contender c) = rn_RunID run) (rp_Comparisons r)))"
    using assms(1)
  proof (cases rule: Report_cases)
    case (early selection runs)
    have "length (rp_Runs r) = length runs" using early(7) by (metis length_map)
    then show ?thesis using early runs_from_rows(1) [OF early(2)] by (simp add: s_def)
  next
    case (full selection runs cr sels rows comps r0 n)
    note f = finish_report_facts [OF full(10,11)]
    have "length (rp_Runs r) = length runs" using f(9) full(15) by (metis length_map)
    then show ?thesis
      using f full assembled_statuses [OF full(9)] runs_from_rows(1) [OF full(2)] by (simp add: s_def)
  qed
  moreover have "length (rp_Comparisons r) = sum_list (status_counts (map cp_Status (rp_Comparisons r)))"
    using calculation status_counts_sum by fastforce
  ultimately show ?thesis by (auto simp: N counted_def counts_of_def status_counts_def)
qed

theorem Report_summary_witness:
  "\<exists>r. Report demo_math (db_storage byte_collation demo_report_db) [] (demo_query [''1'', ''9''] ''parent'') = Inr r \<and>
     su_MissingRuns (rp_Summary r) = 1 \<and> length (rp_MissingRunIDs r) = 1"
proof -
  obtain r where r: "Report demo_math (db_storage byte_collation demo_report_db) [] (demo_query [''1'', ''9''] ''parent'') = Inr r"
    "rp_MissingRunIDs r = [''9'']"
    using demo_report_missing by (auto simp: report_view_def split: sum.splits)
  from Report_summary [OF r(1)] r show ?thesis by auto
qed

text \<open>
  A report on listed run ids accounts for each of them: every requested id is either
  selected or reported missing, never both, and each appears once.
\<close>

theorem Report_runs_accounted:
  assumes "Report ml (db_storage coll d) u q = Inr r" "q_RunIDs q \<noteq> []"
  shows "set (rp_SelectedRunIDs r) \<union> set (rp_MissingRunIDs r) = set (q_RunIDs q) \<and>
    set (rp_SelectedRunIDs r) \<inter> set (rp_MissingRunIDs r) = {} \<and>
    distinct (rp_SelectedRunIDs r) \<and> distinct (rp_MissingRunIDs r)"
proof -
  obtain selection where sel: "selectCIReportRuns (db_storage coll d) q = Inr selection"
    "rp_MissingRunIDs r = sl_missingRunIDs selection" "rp_SelectedRunIDs r = ciReportSelectedRunIDs (sl_runs selection)"
    using assms(1)
  proof (cases rule: Report_cases)
    case (early selection runs)
    then show ?thesis using that by simp
  next
    case (full selection runs cr sels rows comps r0 n)
    then show ?thesis using that finish_report_facts(4,8) [OF full(10,11)] by simp
  qed
  show ?thesis using selection_accounts [OF sel(1) assms(2)] by (simp add: sel set_selected)
qed

theorem Report_runs_accounted_witness:
  "\<exists>r. Report demo_math (db_storage byte_collation demo_report_db) [] (demo_query [''1'', ''9''] ''parent'') = Inr r \<and>
     set (rp_SelectedRunIDs r) \<union> set (rp_MissingRunIDs r) = {''1'', ''9''}"
proof -
  obtain r where r: "Report demo_math (db_storage byte_collation demo_report_db) [] (demo_query [''1'', ''9''] ''parent'') = Inr r"
    using demo_report_missing by (auto simp: report_view_def split: sum.splits)
  from Report_runs_accounted [OF this] this show ?thesis by (auto simp: demo_query_def)
qed

text \<open>
  C22: The baseline of a run is a best candidate: a run of an ancestor, other than the
  contender, that shares a fingerprint with it; no candidate precedes it, where runs for the
  same reason come first, then newer commits, then newer results. When the candidates are
  different runs, the choice does not depend on the order in which the map of runs is
  iterated.
\<close>

theorem findBaselineRun_best:
  assumes "findBaselineRun st contender rows ancestry = Inr (Some c)"
  shows "\<exists>cs. all_candidates st contender (map rr_HistoryFingerprint rows) 0 ancestry = Inr cs \<and> c \<in> set cs \<and>
    (\<forall>x\<in>set cs. \<not> candidate_before x c) \<and> ((\<exists>x\<in>set cs. cd_sameReason x) \<longrightarrow> cd_sameReason c) \<and>
    (\<forall>ys. mset ys = mset cs \<and> inj_on (\<lambda>c. (cd_runID c, cd_commitID c)) (set cs) \<longrightarrow>
       hd (stable_sort candidate_before ys) = c)"
proof -
  obtain cs where cs: "all_candidates st contender (map rr_HistoryFingerprint rows) 0 ancestry = Inr cs"
    "cs \<noteq> []" "c = hd (stable_sort candidate_before cs)"
    using assms by (auto simp: findBaselineRun_def svc_bind_Inr_iff Let_def split: if_splits)
  have "c \<in> set cs" using cs(2,3) by (metis hd_in_set set_stable_sort stable_sort_eq_Nil)
  moreover have best: "\<not> candidate_before x c" if "x \<in> set cs" for x
    using candidate_order.sort_hd_least [OF that] cs(3) by simp
  moreover have "cd_sameReason c" if "x \<in> set cs" "cd_sameReason x" for x
    using best [OF that(1)] that(2) by (auto simp: candidate_before_def Let_def split: if_splits)
  moreover have "hd (stable_sort candidate_before ys) = c"
    if "mset ys = mset cs" "inj_on (\<lambda>c. (cd_runID c, cd_commitID c)) (set cs)" for ys
    using candidate_hd_unique [OF that(1) [symmetric] that(2) cs(2)] cs(3) by simp
  ultimately show ?thesis using cs(1) by blast
qed

theorem findBaselineRun_best_witness:
  "\<exists>c cs. findBaselineRun (db_storage byte_collation demo_report_db) (run_row (demo_errored ''b'' ''2'') (Some (demo_commit ''k1'' 5)))
      [result_row demo_report_db (demo_errored ''b'' ''2'')] [commit_report_row (demo_commit ''k1'' 5)] = Inr (Some c) \<and>
     c \<in> set cs \<and> cd_runID c = ''1''"
proof -
  let ?f = "findBaselineRun (db_storage byte_collation demo_report_db) (run_row (demo_errored ''b'' ''2'') (Some (demo_commit ''k1'' 5)))
      [result_row demo_report_db (demo_errored ''b'' ''2'')] [commit_report_row (demo_commit ''k1'' 5)]"
  have "(case ?f of Inr (Some c) \<Rightarrow> cd_runID c | _ \<Rightarrow> []) = ''1''" by code_simp
  then obtain c where c: "?f = Inr (Some c)" "cd_runID c = ''1''" by (auto split: sum.splits option.splits)
  show ?thesis using findBaselineRun_best [OF c(1)] c by blast
qed


end
