(* ===== verification/AlertStore.thy ===== *)
theory AlertStore
  imports ResultStore
begin

text \<open>
  The alert tables: the row types of \<^verbatim>\<open>internal/storage/storage.go\<close>, the statements of
  \<^verbatim>\<open>internal/db/alert.sql.go\<close> and the methods of \<^verbatim>\<open>internal/db/store.go\<close> over them. A method
  that issues more than one statement takes what other transactions commit between them as
  the functions \<open>env\<close> of the tables; ids drawn by \<open>genID\<close> are parameters.
\<close>

section \<open>Tables\<close>

definition AlertRuleStateInactive :: string where "AlertRuleStateInactive = ''inactive''"
definition AlertRuleStateOpen :: string where "AlertRuleStateOpen = ''open''"
definition AlertEventKindOpened :: string where "AlertEventKindOpened = ''opened''"
definition AlertEventKindResolved :: string where "AlertEventKindResolved = ''resolved''"

datatype delivery_status = DeliveryPending | DeliveryDelivered | DeliveryFailed

record AlertRule =
  ar_ID :: string
  ar_UserID :: string
  ar_Name :: string
  ar_Repository :: string
  ar_Baseline :: string
  ar_Threshold :: f64
  ar_ThresholdZ :: f64
  ar_RunReason :: "string ptr"
  ar_Enabled :: bool
  ar_State :: string
  ar_CreatedAt :: time
  ar_UpdatedAt :: time
  ar_LastEvaluatedAt :: "time ptr"

record AlertEvent =
  ae_ID :: string
  ae_RuleID :: string
  ae_Kind :: string
  ae_Status :: string
  ae_StatusReason :: string
  ae_RunID :: "string ptr"
  ae_CommitSHA :: "string ptr"
  ae_Repository :: string
  ae_ReportURL :: string
  ae_Summary :: "json ptr"
  ae_CreatedAt :: time

record AlertDelivery =
  ad_ID :: string
  ad_EventID :: string
  ad_Channel :: string
  ad_Target :: string
  ad_Status :: delivery_status
  ad_AttemptCount :: int
  ad_LastAttemptAt :: "time ptr"
  ad_NextAttemptAt :: "time ptr"
  ad_DeliveredAt :: "time ptr"
  ad_LastError :: "string ptr"
  ad_CreatedAt :: time
  ad_UpdatedAt :: time

record alert_db =
  al_rules :: "AlertRule list"
  al_events :: "AlertEvent list"
  al_deliveries :: "AlertDelivery list"

section \<open>Rules\<close>

record InsertAlertRuleParams =
  ip_UserID :: string
  ip_Name :: string
  ip_Repository :: string
  ip_Baseline :: string
  ip_Threshold :: f64
  ip_ThresholdZ :: f64
  ip_RunReason :: "string ptr"
  ip_Enabled :: bool
  ip_CreatedAt :: time

definition new_rule :: "string \<Rightarrow> InsertAlertRuleParams \<Rightarrow> AlertRule" where
  "new_rule i p = \<lparr>ar_ID = i, ar_UserID = ip_UserID p, ar_Name = ip_Name p, ar_Repository = ip_Repository p,
     ar_Baseline = ip_Baseline p, ar_Threshold = ip_Threshold p, ar_ThresholdZ = ip_ThresholdZ p,
     ar_RunReason = ip_RunReason p, ar_Enabled = ip_Enabled p, ar_State = AlertRuleStateInactive,
     ar_CreatedAt = ip_CreatedAt p, ar_UpdatedAt = ip_CreatedAt p, ar_LastEvaluatedAt = None\<rparr>"

text \<open>\<open>users\<close> are the ids of the user table, which the rule's owner references.\<close>

definition CreateAlertRule ::
  "string list \<Rightarrow> string result \<Rightarrow> InsertAlertRuleParams \<Rightarrow> alert_db \<Rightarrow> AlertRule result \<times> alert_db" where
  "CreateAlertRule users genID p d = (case genID of Inl e \<Rightarrow> (Inl e, d)
     | Inr i \<Rightarrow>
        (if i \<in> set (map ar_ID (al_rules d)) then (Inl ErrUniqueKey, d)
         else if ip_UserID p \<notin> set users then (Inl (ErrOther ''alert_rule_user_id_fkey''), d)
         else (Inr (new_rule i p), d\<lparr>al_rules := al_rules d @ [new_rule i p]\<rparr>)))"

definition GetAlertRule :: "string \<Rightarrow> alert_db \<Rightarrow> AlertRule result" where
  "GetAlertRule i d = (case find (\<lambda>r. ar_ID r = i) (al_rules d) of None \<Rightarrow> Inl ErrNotFound | Some r \<Rightarrow> Inr r)"

definition ListAlertRulesByUser :: "(string \<Rightarrow> string \<Rightarrow> bool) \<Rightarrow> string \<Rightarrow> alert_db \<Rightarrow> AlertRule list" where
  "ListAlertRulesByUser coll userID d =
     stable_sort (\<lambda>a b. ar_CreatedAt b < ar_CreatedAt a \<or> ar_CreatedAt a = ar_CreatedAt b \<and> coll (ar_ID b) (ar_ID a))
       (filter (\<lambda>r. ar_UserID r = userID) (al_rules d))"

definition ListEnabledAlertRules :: "(string \<Rightarrow> string \<Rightarrow> bool) \<Rightarrow> alert_db \<Rightarrow> AlertRule list" where
  "ListEnabledAlertRules coll d =
     stable_sort (\<lambda>a b. ar_CreatedAt a < ar_CreatedAt b \<or> ar_CreatedAt a = ar_CreatedAt b \<and> coll (ar_ID a) (ar_ID b))
       (filter ar_Enabled (al_rules d))"

record UpdateAlertRuleParams =
  up_ID :: string
  up_UserID :: string
  up_Name :: string
  up_Repository :: string
  up_Baseline :: string
  up_Threshold :: f64
  up_ThresholdZ :: f64
  up_RunReason :: "string ptr"
  up_Enabled :: bool
  up_UpdatedAt :: time
  up_ResetEvaluation :: bool

text \<open>\<open>UPDATE ... WHERE c RETURNING *\<close> on a table whose primary key is in \<open>c\<close>.\<close>

definition update_rule :: "(AlertRule \<Rightarrow> bool) \<Rightarrow> (AlertRule \<Rightarrow> AlertRule) \<Rightarrow> alert_db \<Rightarrow> AlertRule option \<times> alert_db" where
  "update_rule c f d = (case find c (al_rules d) of
     None \<Rightarrow> (None, d)
   | Some r \<Rightarrow> (Some (f r), d\<lparr>al_rules := map (\<lambda>x. if c x then f x else x) (al_rules d)\<rparr>))"

definition edited_rule :: "UpdateAlertRuleParams \<Rightarrow> AlertRule \<Rightarrow> AlertRule" where
  "edited_rule p r = r\<lparr>ar_Name := up_Name p, ar_Repository := up_Repository p, ar_Baseline := up_Baseline p,
     ar_Threshold := up_Threshold p, ar_ThresholdZ := up_ThresholdZ p, ar_RunReason := up_RunReason p,
     ar_Enabled := up_Enabled p, ar_UpdatedAt := up_UpdatedAt p,
     ar_State := (if up_ResetEvaluation p then AlertRuleStateInactive else ar_State r),
     ar_LastEvaluatedAt := (if up_ResetEvaluation p then None else ar_LastEvaluatedAt r)\<rparr>"

definition UpdateAlertRule :: "UpdateAlertRuleParams \<Rightarrow> alert_db \<Rightarrow> AlertRule result \<times> alert_db" where
  "UpdateAlertRule p d =
     (case update_rule (\<lambda>r. ar_ID r = up_ID p \<and> ar_UserID r = up_UserID p) (edited_rule p) d of
        (None, d') \<Rightarrow> (Inl ErrNotFound, d') | (Some r, d') \<Rightarrow> (Inr r, d'))"

text \<open>The foreign keys of events and deliveries cascade.\<close>

definition DeleteAlertRule :: "string \<Rightarrow> string \<Rightarrow> alert_db \<Rightarrow> unit result \<times> alert_db" where
  "DeleteAlertRule i userID d =
     (let hit = (\<lambda>r. ar_ID r = i \<and> ar_UserID r = userID);
          gone = (\<lambda>e. ae_RuleID e \<in> ar_ID ` set (filter hit (al_rules d))) in
      if filter hit (al_rules d) = [] then (Inl ErrNotFound, d)
      else (Inr (), \<lparr>al_rules = filter (\<lambda>r. \<not> hit r) (al_rules d),
              al_events = filter (\<lambda>e. \<not> gone e) (al_events d),
              al_deliveries = filter (\<lambda>x. ad_EventID x \<notin> ae_ID ` set (filter gone (al_events d))) (al_deliveries d)\<rparr>))"

definition UpdateAlertRuleEvaluation :: "string \<Rightarrow> string \<Rightarrow> time \<Rightarrow> alert_db \<Rightarrow> AlertRule result \<times> alert_db" where
  "UpdateAlertRuleEvaluation i state evaluatedAt d =
     (case update_rule (\<lambda>r. ar_ID r = i)
         (\<lambda>r. r\<lparr>ar_State := state, ar_LastEvaluatedAt := Some evaluatedAt, ar_UpdatedAt := evaluatedAt\<rparr>) d of
        (None, d') \<Rightarrow> (Inl ErrNotFound, d') | (Some r, d') \<Rightarrow> (Inr r, d'))"

text \<open>Equality of \<open>double precision\<close> values: NaN equals itself, and the zeros are equal.\<close>

definition sql_feq :: "f64 \<Rightarrow> f64 \<Rightarrow> bool" where
  "sql_feq x y \<longleftrightarrow> feq x y \<or> (x = NaN \<and> y = NaN)"

record RuleGuard =
  g_ID :: string
  g_State :: string
  g_Repository :: string
  g_Baseline :: string
  g_Threshold :: f64
  g_ThresholdZ :: f64
  g_RunReason :: "string ptr"
  g_EvaluatedAt :: time

text \<open>The condition shared by the touch and the transition statement.\<close>

definition guard_holds :: "'a RuleGuard_scheme \<Rightarrow> AlertRule \<Rightarrow> bool" where
  "guard_holds g r \<longleftrightarrow> ar_ID r = g_ID g \<and> ar_State r = g_State g \<and> ar_Enabled r \<and>
     ar_Repository r = g_Repository g \<and> ar_Baseline r = g_Baseline g \<and>
     sql_feq (ar_Threshold r) (g_Threshold g) \<and> sql_feq (ar_ThresholdZ r) (g_ThresholdZ g) \<and>
     ar_RunReason r = g_RunReason g"

definition TouchAlertRuleEvaluation ::
  "(alert_db \<Rightarrow> alert_db) \<Rightarrow> RuleGuard \<Rightarrow> alert_db \<Rightarrow> (AlertRule \<times> bool) result \<times> alert_db" where
  "TouchAlertRuleEvaluation env p d =
     (case update_rule (guard_holds p)
         (\<lambda>r. r\<lparr>ar_LastEvaluatedAt := Some (g_EvaluatedAt p), ar_UpdatedAt := g_EvaluatedAt p\<rparr>) d of
        (Some r, d') \<Rightarrow> (Inr (r, True), d')
      | (None, d') \<Rightarrow> (case GetAlertRule (g_ID p) (env d') of
          Inl e \<Rightarrow> (Inl e, env d') | Inr r \<Rightarrow> (Inr (r, False), env d')))"

section \<open>Events\<close>

record InsertAlertEventParams =
  ie_RuleID :: string
  ie_Kind :: string
  ie_Status :: string
  ie_StatusReason :: string
  ie_RunID :: "string ptr"
  ie_CommitSHA :: "string ptr"
  ie_ReportURL :: string
  ie_Summary :: "json ptr"
  ie_CreatedAt :: time

text \<open>An event row; its summary column is not null and its id is the primary key.\<close>

definition event_row :: "string \<Rightarrow> InsertAlertEventParams \<Rightarrow> AlertRule \<Rightarrow> AlertEvent" where
  "event_row i p r = \<lparr>ae_ID = i, ae_RuleID = ar_ID r, ae_Kind = ie_Kind p, ae_Status = ie_Status p,
     ae_StatusReason = ie_StatusReason p, ae_RunID = ie_RunID p, ae_CommitSHA = ie_CommitSHA p,
     ae_Repository = ar_Repository r, ae_ReportURL = ie_ReportURL p, ae_Summary = ie_Summary p,
     ae_CreatedAt = ie_CreatedAt p\<rparr>"

definition insert_event :: "AlertEvent \<Rightarrow> alert_db \<Rightarrow> AlertEvent result \<times> alert_db" where
  "insert_event e d =
     (if ae_Summary e = None then (Inl (ErrOther ''alert_event.summary''), d)
      else if ae_ID e \<in> set (map ae_ID (al_events d)) then (Inl ErrUniqueKey, d)
      else (Inr e, d\<lparr>al_events := al_events d @ [e]\<rparr>))"

definition CreateAlertEvent ::
  "string result \<Rightarrow> InsertAlertEventParams \<Rightarrow> alert_db \<Rightarrow> AlertEvent result \<times> alert_db" where
  "CreateAlertEvent genID p d = (case genID of Inl e \<Rightarrow> (Inl e, d)
     | Inr i \<Rightarrow> (case find (\<lambda>r. ar_ID r = ie_RuleID p) (al_rules d) of
         None \<Rightarrow> (Inl ErrNoRows, d)
       | Some r \<Rightarrow> insert_event (event_row i p r) d))"

record TransitionAlertRuleParams = RuleGuard +
  tp_ToState :: string
  tp_EventKind :: string
  tp_Status :: string
  tp_StatusReason :: string
  tp_RunID :: "string ptr"
  tp_CommitSHA :: "string ptr"
  tp_ReportURL :: string
  tp_Summary :: "json ptr"

record AlertRuleTransition =
  tr_Rule :: AlertRule
  tr_Event :: "AlertEvent ptr"
  tr_Transitioned :: bool

definition transition_event :: "TransitionAlertRuleParams \<Rightarrow> InsertAlertEventParams" where
  "transition_event p = \<lparr>ie_RuleID = g_ID p, ie_Kind = tp_EventKind p, ie_Status = tp_Status p,
     ie_StatusReason = tp_StatusReason p, ie_RunID = tp_RunID p, ie_CommitSHA = tp_CommitSHA p,
     ie_ReportURL = tp_ReportURL p, ie_Summary = tp_Summary p, ie_CreatedAt = g_EvaluatedAt p\<rparr>"

text \<open>One statement updates the rule and inserts its event: both happen or neither does.\<close>

definition TransitionAlertRule ::
  "(alert_db \<Rightarrow> alert_db) \<Rightarrow> string result \<Rightarrow> TransitionAlertRuleParams \<Rightarrow> alert_db \<Rightarrow>
   AlertRuleTransition result \<times> alert_db" where
  "TransitionAlertRule env genID p d = (case genID of Inl e \<Rightarrow> (Inl e, d)
     | Inr eventID \<Rightarrow>
        (case update_rule (guard_holds p)
            (\<lambda>r. r\<lparr>ar_State := tp_ToState p, ar_LastEvaluatedAt := Some (g_EvaluatedAt p),
                   ar_UpdatedAt := g_EvaluatedAt p\<rparr>) d of
           (Some r, d') \<Rightarrow>
             (case insert_event (event_row eventID (transition_event p) r) d' of
                (Inl e, _) \<Rightarrow> (Inl e, d)
              | (Inr ev, d'') \<Rightarrow> (Inr \<lparr>tr_Rule = r, tr_Event = Some ev, tr_Transitioned = True\<rparr>, d''))
         | (None, d') \<Rightarrow>
             (case GetAlertRule (g_ID p) (env d') of
                Inl e \<Rightarrow> (Inl e, env d')
              | Inr r \<Rightarrow> (Inr \<lparr>tr_Rule = r, tr_Event = None, tr_Transitioned = False\<rparr>, env d'))))"

text \<open>\<open>LIMIT n\<close>; a negative bound is an error of the statement.\<close>

definition sql_limit :: "int \<Rightarrow> 'a list \<Rightarrow> 'a list result" where
  "sql_limit n xs = (if n < 0 then Inl (ErrOther ''LIMIT must not be negative'') else Inr (take (nat n) xs))"

definition ListAlertEventsByRule ::
  "(string \<Rightarrow> string \<Rightarrow> bool) \<Rightarrow> string \<Rightarrow> int \<Rightarrow> alert_db \<Rightarrow> AlertEvent list result" where
  "ListAlertEventsByRule coll ruleID n d =
     sql_limit n (stable_sort
       (\<lambda>a b. ae_CreatedAt b < ae_CreatedAt a \<or> ae_CreatedAt a = ae_CreatedAt b \<and> coll (ae_ID b) (ae_ID a))
       (filter (\<lambda>e. ae_RuleID e = ruleID) (al_events d)))"

record AlertCandidateRun =
  ca_RunID :: string
  ca_CommitSHA :: string
  ca_LastResultTimestamp :: time

definition SelectLatestAlertRun ::
  "(string \<Rightarrow> string \<Rightarrow> bool) \<Rightarrow> db \<Rightarrow> string \<Rightarrow> string ptr \<Rightarrow> AlertCandidateRun result" where
  "SelectLatestAlertRun coll t repository runReason =
     (case stable_sort (newer coll) (filter (\<lambda>r. commit_of t r \<noteq> None \<and> br_commit_repo_url r = repository \<and>
          (runReason = None \<or> br_run_reason r \<noteq> None \<and> br_run_reason r = runReason)) (db_results t)) of
        [] \<Rightarrow> Inl ErrNotFound
      | r # _ \<Rightarrow> Inr \<lparr>ca_RunID = br_run_id r, ca_CommitSHA = c_sha (the (commit_of t r)),
                      ca_LastResultTimestamp = br_timestamp r\<rparr>)"

section \<open>Deliveries\<close>

definition delivery_key :: "AlertDelivery \<Rightarrow> string \<times> string \<times> string" where
  "delivery_key x = (ad_EventID x, ad_Channel x, ad_Target x)"

definition new_delivery :: "string \<Rightarrow> string \<Rightarrow> string \<Rightarrow> string \<Rightarrow> time \<Rightarrow> AlertDelivery" where
  "new_delivery i eventID channel target createdAt = \<lparr>ad_ID = i, ad_EventID = eventID, ad_Channel = channel,
     ad_Target = target, ad_Status = DeliveryPending, ad_AttemptCount = 0, ad_LastAttemptAt = None,
     ad_NextAttemptAt = None, ad_DeliveredAt = None, ad_LastError = None, ad_CreatedAt = createdAt,
     ad_UpdatedAt = createdAt\<rparr>"

definition InsertAlertDelivery :: "AlertDelivery \<Rightarrow> alert_db \<Rightarrow> AlertDelivery result \<times> alert_db" where
  "InsertAlertDelivery x d =
     (if delivery_key x \<in> set (map delivery_key (al_deliveries d)) then (Inl ErrNoRows, d)
      else if ad_ID x \<in> set (map ad_ID (al_deliveries d)) then (Inl ErrUniqueKey, d)
      else if ad_EventID x \<notin> set (map ae_ID (al_events d)) then (Inl (ErrOther ''alert_delivery_event_id_fkey''), d)
      else (Inr x, d\<lparr>al_deliveries := al_deliveries d @ [x]\<rparr>))"

definition githubChannels :: "string list" where
  "githubChannels = [''github-check'', ''github-comment'']"

definition SelectAlertEventsWithoutDelivery ::
  "(string \<Rightarrow> string \<Rightarrow> bool) \<Rightarrow> string \<Rightarrow> string \<Rightarrow> int \<Rightarrow> alert_db \<Rightarrow> AlertEvent list result" where
  "SelectAlertEventsWithoutDelivery coll channel target n d =
     sql_limit n (stable_sort
       (\<lambda>a b. ae_CreatedAt a < ae_CreatedAt b \<or> ae_CreatedAt a = ae_CreatedAt b \<and> coll (ae_ID a) (ae_ID b))
       (filter (\<lambda>e. (ae_ID e, channel, target) \<notin> set (map delivery_key (al_deliveries d)) \<and>
          (channel \<notin> set githubChannels \<or> ae_Repository e = target)) (al_events d)))"

record EnqueueParams =
  eq_Channel :: string
  eq_Target :: string
  eq_Limit :: int
  eq_CreatedAt :: time

text \<open>The loop over the selected events; before the insert of the \<open>k\<close>-th one other
  transactions change the tables by \<open>env k\<close>.\<close>

fun enqueue_loop ::
  "(nat \<Rightarrow> alert_db \<Rightarrow> alert_db) \<Rightarrow> (nat \<Rightarrow> string result) \<Rightarrow> EnqueueParams \<Rightarrow> nat \<Rightarrow> AlertEvent list \<Rightarrow> nat \<Rightarrow>
   alert_db \<Rightarrow> (nat \<times> db_error option) \<times> alert_db" where
  "enqueue_loop env genID p k [] enqueued d = ((enqueued, None), d)"
| "enqueue_loop env genID p k (row # rows) enqueued d =
     (case genID k of Inl e \<Rightarrow> ((enqueued, Some e), d)
      | Inr i \<Rightarrow>
         (case InsertAlertDelivery (new_delivery i (ae_ID row) (eq_Channel p) (eq_Target p) (eq_CreatedAt p)) (env k d) of
            (Inl e, d') \<Rightarrow> (if e = ErrNoRows then enqueue_loop env genID p (Suc k) rows enqueued d'
                            else ((enqueued, Some e), d'))
          | (Inr _, d') \<Rightarrow> enqueue_loop env genID p (Suc k) rows (enqueued + 1) d'))"

definition EnqueueAlertDeliveries ::
  "(string \<Rightarrow> string \<Rightarrow> bool) \<Rightarrow> (nat \<Rightarrow> alert_db \<Rightarrow> alert_db) \<Rightarrow> (nat \<Rightarrow> string result) \<Rightarrow> EnqueueParams \<Rightarrow>
   alert_db \<Rightarrow> (nat \<times> db_error option) \<times> alert_db" where
  "EnqueueAlertDeliveries coll env genID p d =
     (case SelectAlertEventsWithoutDelivery coll (eq_Channel p) (eq_Target p) (eq_Limit p) d of
        Inl e \<Rightarrow> ((0, Some e), d)
      | Inr rows \<Rightarrow> enqueue_loop env genID p 0 rows 0 d)"

record ClaimParams =
  cl_Channel :: string
  cl_Target :: string
  cl_Now :: time
  cl_LeaseUntil :: time
  cl_Limit :: int

definition due :: "ClaimParams \<Rightarrow> AlertDelivery \<Rightarrow> bool" where
  "due p x \<longleftrightarrow> ad_Channel x = cl_Channel p \<and> ad_Target x = cl_Target p \<and> ad_Status x \<noteq> DeliveryDelivered \<and>
     (case ad_NextAttemptAt x of None \<Rightarrow> True | Some t \<Rightarrow> t \<le> cl_Now p)"

definition delivery_order :: "(string \<Rightarrow> string \<Rightarrow> bool) \<Rightarrow> AlertDelivery \<Rightarrow> AlertDelivery \<Rightarrow> bool" where
  "delivery_order coll a b \<longleftrightarrow>
     ad_CreatedAt a < ad_CreatedAt b \<or> ad_CreatedAt a = ad_CreatedAt b \<and> coll (ad_ID a) (ad_ID b)"

definition lease :: "ClaimParams \<Rightarrow> AlertDelivery \<Rightarrow> AlertDelivery" where
  "lease p x = x\<lparr>ad_AttemptCount := ad_AttemptCount x + 1, ad_LastAttemptAt := Some (cl_Now p),
     ad_NextAttemptAt := Some (cl_LeaseUntil p), ad_UpdatedAt := cl_Now p\<rparr>"

text \<open>
  \<open>locked\<close> are the rows another transaction holds, which \<^verbatim>\<open>SKIP LOCKED\<close> leaves out. The count
  of attempts is an \<^verbatim>\<open>integer\<close> column.
\<close>

definition ClaimPendingAlertDeliveries ::
  "(string \<Rightarrow> string \<Rightarrow> bool) \<Rightarrow> (string \<Rightarrow> bool) \<Rightarrow> ClaimParams \<Rightarrow> alert_db \<Rightarrow>
   (AlertDelivery \<times> AlertEvent) list result \<times> alert_db" where
  "ClaimPendingAlertDeliveries coll locked p d =
     (case sql_limit (cl_Limit p) (stable_sort (delivery_order coll)
             (filter (\<lambda>x. due p x \<and> \<not> locked (ad_ID x)) (al_deliveries d))) of
        Inl e \<Rightarrow> (Inl e, d)
      | Inr eligible \<Rightarrow>
          (if \<exists>x \<in> set eligible. ad_AttemptCount x \<ge> 2 ^ 31 - 1 then (Inl (ErrOther ''integer out of range''), d)
           else (Inr (List.map_filter (\<lambda>x. map_option (Pair (lease p x)) (find (\<lambda>e. ae_ID e = ad_EventID x) (al_events d))) eligible),
                 d\<lparr>al_deliveries := map (\<lambda>x. if ad_ID x \<in> ad_ID ` set eligible then lease p x else x) (al_deliveries d)\<rparr>)))"

definition update_delivery ::
  "(AlertDelivery \<Rightarrow> bool) \<Rightarrow> (AlertDelivery \<Rightarrow> AlertDelivery) \<Rightarrow> alert_db \<Rightarrow> AlertDelivery result \<times> alert_db" where
  "update_delivery c f d = (case find c (al_deliveries d) of
     None \<Rightarrow> (Inl ErrNotFound, d)
   | Some x \<Rightarrow> (Inr (f x), d\<lparr>al_deliveries := map (\<lambda>y. if c y then f y else y) (al_deliveries d)\<rparr>))"

definition MarkAlertDeliveryDelivered :: "string \<Rightarrow> time \<Rightarrow> alert_db \<Rightarrow> AlertDelivery result \<times> alert_db" where
  "MarkAlertDeliveryDelivered i attemptedAt d =
     update_delivery (\<lambda>x. ad_ID x = i)
       (\<lambda>x. x\<lparr>ad_Status := DeliveryDelivered, ad_LastAttemptAt := Some attemptedAt, ad_NextAttemptAt := None,
              ad_DeliveredAt := Some attemptedAt, ad_LastError := None, ad_UpdatedAt := attemptedAt\<rparr>) d"

definition MarkAlertDeliveryFailed ::
  "string \<Rightarrow> string \<Rightarrow> time \<Rightarrow> time \<Rightarrow> alert_db \<Rightarrow> AlertDelivery result \<times> alert_db" where
  "MarkAlertDeliveryFailed i err attemptedAt nextAttemptAt d =
     update_delivery (\<lambda>x. ad_ID x = i \<and> ad_Status x \<noteq> DeliveryDelivered)
       (\<lambda>x. x\<lparr>ad_Status := DeliveryFailed, ad_LastAttemptAt := Some attemptedAt,
              ad_NextAttemptAt := Some nextAttemptAt, ad_LastError := Some err, ad_UpdatedAt := attemptedAt\<rparr>) d"

end
