(* ===== verification/AlertMachine.thy ===== *)
theory AlertMachine
  imports AlertStore
begin

text \<open>
  What the alert tables promise. \<open>alert_step\<close> is one statement of the program on them, with
  the arguments the program uses; \<open>spec_step\<close> is the state machine of alert rules: a rule is
  inactive or open, opens and resolves while it is enabled, and logs every such step. The
  tables refine the machine, and keep their keys and references.
\<close>

section \<open>Well-formed tables\<close>

definition alert_ok :: "alert_db \<Rightarrow> bool" where
  "alert_ok d \<longleftrightarrow>
     distinct (map ar_ID (al_rules d)) \<and> distinct (map ae_ID (al_events d)) \<and>
     distinct (map ad_ID (al_deliveries d)) \<and> distinct (map delivery_key (al_deliveries d)) \<and>
     ae_RuleID ` set (al_events d) \<subseteq> ar_ID ` set (al_rules d) \<and>
     ad_EventID ` set (al_deliveries d) \<subseteq> ae_ID ` set (al_events d) \<and>
     ar_State ` set (al_rules d) \<subseteq> {AlertRuleStateInactive, AlertRuleStateOpen} \<and>
     ae_Kind ` set (al_events d) \<subseteq> {AlertEventKindOpened, AlertEventKindResolved} \<and>
     (\<forall>x \<in> set (al_deliveries d). (ad_Status x = DeliveryDelivered) = (ad_DeliveredAt x \<noteq> None))"

definition no_alerts :: alert_db where
  "no_alerts = \<lparr>al_rules = [], al_events = [], al_deliveries = []\<rparr>"

section \<open>Statements of the program\<close>

text \<open>The two transitions the evaluator asks for.\<close>

definition is_opening :: "TransitionAlertRuleParams \<Rightarrow> bool" where
  "is_opening p \<longleftrightarrow> g_State p = AlertRuleStateInactive \<and> tp_ToState p = AlertRuleStateOpen \<and> tp_EventKind p = AlertEventKindOpened"

definition is_resolving :: "TransitionAlertRuleParams \<Rightarrow> bool" where
  "is_resolving p \<longleftrightarrow> g_State p = AlertRuleStateOpen \<and> tp_ToState p = AlertRuleStateInactive \<and> tp_EventKind p = AlertEventKindResolved"

inductive alert_step :: "alert_db \<Rightarrow> alert_db \<Rightarrow> bool" where
  create: "alert_step d (snd (CreateAlertRule users genID p d))"
| update: "alert_step d (snd (UpdateAlertRule up d))"
| delete: "alert_step d (snd (DeleteAlertRule i u d))"
| touch: "alert_step d (snd (TouchAlertRuleEvaluation id g d))"
| transition: "is_opening tp \<or> is_resolving tp \<Longrightarrow> alert_step d (snd (TransitionAlertRule id genID tp d))"
| enqueue: "ad_Status x = DeliveryPending \<Longrightarrow> ad_DeliveredAt x = None \<Longrightarrow> alert_step d (snd (InsertAlertDelivery x d))"
| claim: "alert_step d (snd (ClaimPendingAlertDeliveries coll locked c d))"
| delivered: "alert_step d (snd (MarkAlertDeliveryDelivered i t d))"
| failed: "alert_step d (snd (MarkAlertDeliveryFailed i err t t' d))"

abbreviation alert_steps :: "alert_db \<Rightarrow> alert_db \<Rightarrow> bool" where
  "alert_steps \<equiv> alert_step\<^sup>*\<^sup>*"

text \<open>Other transactions only issue statements of the program.\<close>

definition alert_env :: "(alert_db \<Rightarrow> alert_db) \<Rightarrow> bool" where
  "alert_env env \<longleftrightarrow> (\<forall>d. alert_steps d (env d))"

lemma alert_env_id [simp]: "alert_env id"
  by (simp add: alert_env_def)

lemma alert_envD: "alert_env env \<Longrightarrow> alert_steps d (env d)"
  by (simp add: alert_env_def)

section \<open>The invariant of the tables\<close>

lemma map_if_none: "find c xs = None \<Longrightarrow> map (\<lambda>x. if c x then f x else x) xs = xs"
  by (auto simp: find_None_iff intro: map_idI)

lemma update_rule_tables:
  "snd (update_rule c f d) = d\<lparr>al_rules := map (\<lambda>x. if c x then f x else x) (al_rules d)\<rparr>"
  by (cases "find c (al_rules d)") (simp_all add: update_rule_def map_if_none)

lemma update_rule_fst: "fst (update_rule c f d) = map_option f (find c (al_rules d))"
  by (simp add: update_rule_def split: option.splits)

lemma update_delivery_tables:
  "snd (update_delivery c f d) = d\<lparr>al_deliveries := map (\<lambda>x. if c x then f x else x) (al_deliveries d)\<rparr>"
  by (cases "find c (al_deliveries d)") (simp_all add: update_delivery_def map_if_none)

lemma image_map_eq: "map (g \<circ> f) xs = map g xs \<Longrightarrow> g ` f ` set xs = g ` set xs"
  by (metis image_comp list.set_map)

lemma alert_ok_rules:
  assumes ok: "alert_ok d" and f: "map (ar_ID \<circ> f) (al_rules d) = map ar_ID (al_rules d)"
    and st: "ar_State ` f ` set (al_rules d) \<subseteq> {AlertRuleStateInactive, AlertRuleStateOpen}"
  shows "alert_ok (d\<lparr>al_rules := map f (al_rules d)\<rparr>)"
proof -
  note ids = image_map_eq [OF f]
  show ?thesis
    using ok st by (simp add: alert_ok_def ids f)
qed

lemma alert_ok_deliveries:
  assumes ok: "alert_ok d"
    and f: "\<And>x. x \<in> set (al_deliveries d) \<Longrightarrow> ad_ID (f x) = ad_ID x \<and> delivery_key (f x) = delivery_key x \<and>
      (ad_Status (f x) = DeliveryDelivered) = (ad_DeliveredAt (f x) \<noteq> None)"
  shows "alert_ok (d\<lparr>al_deliveries := map f (al_deliveries d)\<rparr>)"
proof -
  have ids: "map (ad_ID \<circ> f) (al_deliveries d) = map ad_ID (al_deliveries d)"
    and keys: "map (delivery_key \<circ> f) (al_deliveries d) = map delivery_key (al_deliveries d)"
    and evs: "map (ad_EventID \<circ> f) (al_deliveries d) = map ad_EventID (al_deliveries d)"
    using f by (simp_all add: delivery_key_def)
  show ?thesis
    using ok f by (simp add: alert_ok_def ids keys image_map_eq [OF evs])
qed

lemma alert_okD:
  assumes "alert_ok d"
  shows "distinct (map ar_ID (al_rules d))" "distinct (map ae_ID (al_events d))"
    "distinct (map ad_ID (al_deliveries d))" "distinct (map delivery_key (al_deliveries d))"
    "ae_RuleID ` set (al_events d) \<subseteq> ar_ID ` set (al_rules d)"
    "ad_EventID ` set (al_deliveries d) \<subseteq> ae_ID ` set (al_events d)"
    "\<And>r. r \<in> set (al_rules d) \<Longrightarrow> ar_State r = AlertRuleStateInactive \<or> ar_State r = AlertRuleStateOpen"
    "\<And>x. x \<in> set (al_deliveries d) \<Longrightarrow> (ad_Status x = DeliveryDelivered) = (ad_DeliveredAt x \<noteq> None)"
  using assms by (auto simp: alert_ok_def)

lemma insert_event_cases:
  obtains (fail) e where "insert_event ev d = (Inl e, d)"
  | (ok) "insert_event ev d = (Inr ev, d\<lparr>al_events := al_events d @ [ev]\<rparr>)" "ae_ID ev \<notin> set (map ae_ID (al_events d))"
      "ae_Summary ev \<noteq> None"
proof (cases "ae_Summary ev = None \<or> ae_ID ev \<in> set (map ae_ID (al_events d))")
  case True
  show ?thesis
  proof (cases "ae_Summary ev")
    case None
    then show ?thesis by (intro fail) (simp add: insert_event_def)
  next
    case (Some y)
    with True show ?thesis by (intro fail) (simp add: insert_event_def)
  qed
next
  case False
  then show ?thesis by (intro ok) (simp_all add: insert_event_def)
qed


lemma alert_ok_insert_event:
  assumes ok: "alert_ok d" and r: "ae_RuleID ev \<in> ar_ID ` set (al_rules d)"
    and kind: "ae_Kind ev \<in> {AlertEventKindOpened, AlertEventKindResolved}"
    and fresh: "ae_ID ev \<notin> set (map ae_ID (al_events d))"
  shows "alert_ok (d\<lparr>al_events := al_events d @ [ev]\<rparr>)"
  using ok r kind fresh by (auto simp: alert_ok_def)

lemma find_id:
  assumes "distinct (map g xs)" "x \<in> set xs"
  shows "find (\<lambda>y. g y = g x) xs = Some x"
  using assms by (induction xs) (auto simp: image_iff)

lemma CreateAlertRule_cases:
  obtains (fail) e where "CreateAlertRule users genID p d = (Inl e, d)"
  | (ok) i where "CreateAlertRule users genID p d = (Inr (new_rule i p), d\<lparr>al_rules := al_rules d @ [new_rule i p]\<rparr>)"
      "i \<notin> set (map ar_ID (al_rules d))"
proof (cases genID)
  case (Inl e)
  then show ?thesis by (intro fail) (simp add: CreateAlertRule_def)
next
  case (Inr i)
  consider "i \<in> set (map ar_ID (al_rules d))" | "i \<notin> set (map ar_ID (al_rules d))" "ip_UserID p \<notin> set users"
    | "i \<notin> set (map ar_ID (al_rules d))" "ip_UserID p \<in> set users"
    by blast
  then show ?thesis
  proof cases
    case 1
    with Inr show ?thesis by (intro fail) (simp add: CreateAlertRule_def)
  next
    case 2
    with Inr show ?thesis by (intro fail) (simp add: CreateAlertRule_def)
  next
    case 3
    with Inr show ?thesis by (intro ok) (simp_all add: CreateAlertRule_def)
  qed
qed

lemma TransitionAlertRule_cases:
  obtains (fail) e where "TransitionAlertRule env genID p d = (Inl e, d)"
  | (stale) "find (guard_holds p) (al_rules d) = None"
      "TransitionAlertRule env genID p d =
         (case GetAlertRule (g_ID p) (env d) of Inl e \<Rightarrow> Inl e
          | Inr r \<Rightarrow> Inr \<lparr>tr_Rule = r, tr_Event = None, tr_Transitioned = False\<rparr>, env d)"
  | (moved) r i f where "find (guard_holds p) (al_rules d) = Some r"
      "f = (\<lambda>r. r\<lparr>ar_State := tp_ToState p, ar_LastEvaluatedAt := Some (g_EvaluatedAt p), ar_UpdatedAt := g_EvaluatedAt p\<rparr>)"
      "i \<notin> set (map ae_ID (al_events d))"
      "TransitionAlertRule env genID p d =
         (Inr \<lparr>tr_Rule = f r, tr_Event = Some (event_row i (transition_event p) (f r)), tr_Transitioned = True\<rparr>,
          d\<lparr>al_rules := map (\<lambda>x. if guard_holds p x then f x else x) (al_rules d),
            al_events := al_events d @ [event_row i (transition_event p) (f r)]\<rparr>)"
proof -
  let ?f = "\<lambda>r. r\<lparr>ar_State := tp_ToState p, ar_LastEvaluatedAt := Some (g_EvaluatedAt p), ar_UpdatedAt := g_EvaluatedAt p\<rparr>"
  show thesis
  proof (cases genID)
    case (Inl e)
    then show ?thesis by (intro fail) (simp add: TransitionAlertRule_def)
  next
    case (Inr i)
    show ?thesis
    proof (cases "find (guard_holds p) (al_rules d)")
      case None
      with Inr show ?thesis
        by (intro stale) (simp_all add: TransitionAlertRule_def update_rule_def split: sum.splits)
    next
      case (Some r)
      let ?d = "d\<lparr>al_rules := map (\<lambda>x. if guard_holds p x then ?f x else x) (al_rules d)\<rparr>"
      have u: "update_rule (guard_holds p) ?f d = (Some (?f r), ?d)"
        by (simp add: update_rule_def Some)
      show ?thesis
      proof (cases rule: insert_event_cases [of "event_row i (transition_event p) (?f r)" ?d])
        case (fail e)
        with Inr u show ?thesis by (intro that(1)) (simp add: TransitionAlertRule_def)
      next
        case ok
        with Inr u Some show ?thesis
          by (intro moved [OF Some refl, of i]) (simp_all add: TransitionAlertRule_def event_row_def)
      qed
    qed
  qed
qed

lemma guarded_update_ok:
  assumes ok: "alert_ok d" and f: "\<And>r. ar_ID (f r) = ar_ID r"
    and st: "\<And>r. r \<in> set (al_rules d) \<Longrightarrow> c r \<Longrightarrow> ar_State (f r) \<in> {AlertRuleStateInactive, AlertRuleStateOpen}"
  shows "alert_ok (d\<lparr>al_rules := map (\<lambda>x. if c x then f x else x) (al_rules d)\<rparr>)"
proof (rule alert_ok_rules [OF ok])
  show "map (ar_ID \<circ> (\<lambda>x. if c x then f x else x)) (al_rules d) = map ar_ID (al_rules d)"
    using f by simp
  show "ar_State ` (\<lambda>x. if c x then f x else x) ` set (al_rules d) \<subseteq> {AlertRuleStateInactive, AlertRuleStateOpen}"
    using st alert_okD(7) [OF ok] by auto
qed

lemma create_ok: "alert_ok d \<Longrightarrow> alert_ok (snd (CreateAlertRule users genID p d))"
  by (cases rule: CreateAlertRule_cases [of users genID p d]) (auto simp: alert_ok_def new_rule_def)

lemma UpdateAlertRule_tables:
  "snd (UpdateAlertRule p d) =
     d\<lparr>al_rules := map (\<lambda>r. if ar_ID r = up_ID p \<and> ar_UserID r = up_UserID p then edited_rule p r else r) (al_rules d)\<rparr>"
  using update_rule_tables [of "\<lambda>r. ar_ID r = up_ID p \<and> ar_UserID r = up_UserID p" "edited_rule p" d]
  by (auto simp: UpdateAlertRule_def split: prod.splits option.splits)

lemma update_ok: "alert_ok d \<Longrightarrow> alert_ok (snd (UpdateAlertRule p d))"
  unfolding UpdateAlertRule_tables
  by (rule guarded_update_ok) (auto simp: edited_rule_def dest: alert_okD(7))

lemma TouchAlertRuleEvaluation_tables:
  "snd (TouchAlertRuleEvaluation env p d) =
     (if find (guard_holds p) (al_rules d) = None then env d
      else d\<lparr>al_rules := map (\<lambda>r. if guard_holds p r
        then r\<lparr>ar_LastEvaluatedAt := Some (g_EvaluatedAt p), ar_UpdatedAt := g_EvaluatedAt p\<rparr> else r) (al_rules d)\<rparr>)"
  by (auto simp: TouchAlertRuleEvaluation_def update_rule_def split: option.splits sum.splits)

lemma touch_ok: "alert_ok d \<Longrightarrow> alert_ok (snd (TouchAlertRuleEvaluation id p d))"
  unfolding TouchAlertRuleEvaluation_tables id_apply
  by (cases "find (guard_holds p) (al_rules d) = None")
     (auto intro!: guarded_update_ok dest: alert_okD(7))

lemma transition_ok:
  assumes ok: "alert_ok d" and p: "is_opening p \<or> is_resolving p"
  shows "alert_ok (snd (TransitionAlertRule id genID p d))"
proof (cases rule: TransitionAlertRule_cases [of id genID p d])
  case (moved r i f)
  let ?d = "d\<lparr>al_rules := map (\<lambda>x. if guard_holds p x then f x else x) (al_rules d)\<rparr>"
  have r: "r \<in> set (al_rules d)" "guard_holds p r"
    using moved(1) by (auto simp: find_Some_iff)
  have "alert_ok ?d"
    using p by (intro guarded_update_ok [OF ok]) (auto simp: moved(2) is_opening_def is_resolving_def)
  moreover have "f r \<in> set (al_rules ?d)"
    using r by (auto simp: image_iff)
  then have "ar_ID (f r) \<in> ar_ID ` set (al_rules ?d)"
    by (rule imageI)
  ultimately have "alert_ok (?d\<lparr>al_events := al_events ?d @ [event_row i (transition_event p) (f r)]\<rparr>)"
    using p moved(2,3)
    by (intro alert_ok_insert_event) (auto simp: event_row_def transition_event_def is_opening_def is_resolving_def)
  with moved(4) show ?thesis by simp
qed (simp_all add: ok)

lemma delete_ok:
  assumes ok: "alert_ok d"
  shows "alert_ok (snd (DeleteAlertRule i u d))"
proof (cases "filter (\<lambda>r. ar_ID r = i \<and> ar_UserID r = u) (al_rules d) = []")
  case False
  let ?gone = "\<lambda>e. ae_RuleID e \<in> ar_ID ` set (filter (\<lambda>r. ar_ID r = i \<and> ar_UserID r = u) (al_rules d))"
  have evs: "ae_RuleID ` set (filter (\<lambda>e. \<not> ?gone e) (al_events d)) \<subseteq>
      ar_ID ` set (filter (\<lambda>r. \<not> (ar_ID r = i \<and> ar_UserID r = u)) (al_rules d))"
    using alert_okD(5) [OF ok] by auto
  have dels: "ad_EventID ` set (filter (\<lambda>x. ad_EventID x \<notin> ae_ID ` set (filter ?gone (al_events d))) (al_deliveries d)) \<subseteq>
      ae_ID ` set (filter (\<lambda>e. \<not> ?gone e) (al_events d))"
  proof (rule image_subsetI)
    fix x assume x: "x \<in> set (filter (\<lambda>x. ad_EventID x \<notin> ae_ID ` set (filter ?gone (al_events d))) (al_deliveries d))"
    then obtain e where e: "e \<in> set (al_events d)" "ad_EventID x = ae_ID e"
      using alert_okD(6) [OF ok] by auto
    with x have "\<not> ?gone e" by auto
    with e show "ad_EventID x \<in> ae_ID ` set (filter (\<lambda>e. \<not> ?gone e) (al_events d))" by simp
  qed
  have "alert_ok \<lparr>al_rules = filter (\<lambda>r. \<not> (ar_ID r = i \<and> ar_UserID r = u)) (al_rules d),
      al_events = filter (\<lambda>e. \<not> ?gone e) (al_events d),
      al_deliveries = filter (\<lambda>x. ad_EventID x \<notin> ae_ID ` set (filter ?gone (al_events d))) (al_deliveries d)\<rparr>"
    using ok evs dels unfolding alert_ok_def by (auto simp: distinct_map_filter)
  with False show ?thesis
    by (simp add: DeleteAlertRule_def Let_def)
qed (simp add: DeleteAlertRule_def Let_def ok)

lemma enqueue_ok:
  assumes "alert_ok d" "ad_Status x = DeliveryPending" "ad_DeliveredAt x = None"
  shows "alert_ok (snd (InsertAlertDelivery x d))"
  using assms by (auto simp: InsertAlertDelivery_def alert_ok_def)

lemma ClaimPendingAlertDeliveries_cases:
  obtains (fail) e where "ClaimPendingAlertDeliveries coll locked p d = (Inl e, d)"
  | (ok) xs where "xs = take (nat (cl_Limit p)) (stable_sort (delivery_order coll)
        (filter (\<lambda>x. due p x \<and> \<not> locked (ad_ID x)) (al_deliveries d)))" "cl_Limit p \<ge> 0"
      "\<And>x. x \<in> set xs \<Longrightarrow> ad_AttemptCount x < 2 ^ 31 - 1"
      "ClaimPendingAlertDeliveries coll locked p d =
        (Inr (List.map_filter (\<lambda>x. map_option (Pair (lease p x)) (find (\<lambda>e. ae_ID e = ad_EventID x) (al_events d))) xs),
         d\<lparr>al_deliveries := map (\<lambda>x. if ad_ID x \<in> ad_ID ` set xs then lease p x else x) (al_deliveries d)\<rparr>)"
proof (cases "cl_Limit p < 0")
  case True
  then show ?thesis by (intro fail) (simp add: ClaimPendingAlertDeliveries_def sql_limit_def)
next
  case False
  let ?xs = "take (nat (cl_Limit p)) (stable_sort (delivery_order coll)
        (filter (\<lambda>x. due p x \<and> \<not> locked (ad_ID x)) (al_deliveries d)))"
  show ?thesis
  proof (cases "\<exists>x \<in> set ?xs. ad_AttemptCount x \<ge> 2 ^ 31 - 1")
    case True
    with False show ?thesis by (intro fail) (simp add: ClaimPendingAlertDeliveries_def sql_limit_def)
  next
    case F: False
    with False show ?thesis
      by (intro ok [OF refl]) (simp_all add: ClaimPendingAlertDeliveries_def sql_limit_def not_le)
  qed
qed

lemma lease_simps [simp]:
  "ad_ID (lease p x) = ad_ID x" "ad_EventID (lease p x) = ad_EventID x" "ad_Status (lease p x) = ad_Status x"
  "ad_DeliveredAt (lease p x) = ad_DeliveredAt x" "delivery_key (lease p x) = delivery_key x"
  "ad_NextAttemptAt (lease p x) = Some (cl_LeaseUntil p)" "ad_AttemptCount (lease p x) = ad_AttemptCount x + 1"
  by (simp_all add: lease_def delivery_key_def)

lemma claim_ok:
  assumes "alert_ok d"
  shows "alert_ok (snd (ClaimPendingAlertDeliveries coll locked p d))"
proof (cases rule: ClaimPendingAlertDeliveries_cases [of coll locked p d])
  case (ok xs)
  have "alert_ok (d\<lparr>al_deliveries := map (\<lambda>x. if ad_ID x \<in> ad_ID ` set xs then lease p x else x) (al_deliveries d)\<rparr>)"
    by (rule alert_ok_deliveries [OF assms]) (simp add: alert_okD(8) [OF assms])
  then show ?thesis by (simp add: ok(4))
qed (simp add: assms)

lemma delivered_ok: "alert_ok d \<Longrightarrow> alert_ok (snd (MarkAlertDeliveryDelivered i t d))"
  unfolding MarkAlertDeliveryDelivered_def update_delivery_tables
  by (rule alert_ok_deliveries) (auto simp: delivery_key_def alert_okD(8))

lemma failed_ok: "alert_ok d \<Longrightarrow> alert_ok (snd (MarkAlertDeliveryFailed i err t t' d))"
  unfolding MarkAlertDeliveryFailed_def update_delivery_tables
  by (rule alert_ok_deliveries) (auto simp: delivery_key_def alert_okD(8))

lemma alert_step_ok: "alert_step d d' \<Longrightarrow> alert_ok d \<Longrightarrow> alert_ok d'"
  by (induction rule: alert_step.induct)
     (simp_all add: create_ok update_ok delete_ok touch_ok transition_ok enqueue_ok claim_ok delivered_ok failed_ok)

lemma alert_steps_ok: "alert_steps d d' \<Longrightarrow> alert_ok d \<Longrightarrow> alert_ok d'"
  by (induction rule: rtranclp_induct) (auto intro: alert_step_ok)

lemma no_alerts_ok [simp]: "alert_ok no_alerts"
  by (simp add: alert_ok_def no_alerts_def)

section \<open>The state machine of rules\<close>

type_synonym alert_config = "string \<times> string \<times> f64 \<times> f64 \<times> string ptr"

record abs_rule =
  a_cfg :: alert_config
  a_enabled :: bool
  a_open :: bool
  a_log :: "string list"

inductive spec_step :: "(string \<rightharpoonup> abs_rule) \<Rightarrow> (string \<rightharpoonup> abs_rule) \<Rightarrow> bool" where
  spec_create: "m i = None \<Longrightarrow> spec_step m (m(i \<mapsto> \<lparr>a_cfg = c, a_enabled = b, a_open = False, a_log = []\<rparr>))"
| spec_edit: "m i = Some a \<Longrightarrow> spec_step m (m(i \<mapsto> a\<lparr>a_cfg := c, a_enabled := b, a_open := a_open a \<and> keep\<rparr>))"
| spec_delete: "m i = Some a \<Longrightarrow> spec_step m (m(i := None))"
| spec_open: "m i = Some a \<Longrightarrow> a_enabled a \<Longrightarrow> \<not> a_open a \<Longrightarrow>
    spec_step m (m(i \<mapsto> a\<lparr>a_open := True, a_log := a_log a @ [AlertEventKindOpened]\<rparr>))"
| spec_resolve: "m i = Some a \<Longrightarrow> a_enabled a \<Longrightarrow> a_open a \<Longrightarrow>
    spec_step m (m(i \<mapsto> a\<lparr>a_open := False, a_log := a_log a @ [AlertEventKindResolved]\<rparr>))"

inductive_cases spec_stepE: "spec_step m m'"

definition rule_config :: "AlertRule \<Rightarrow> alert_config" where
  "rule_config r = (ar_Repository r, ar_Baseline r, ar_Threshold r, ar_ThresholdZ r, ar_RunReason r)"

definition event_kinds :: "alert_db \<Rightarrow> string \<Rightarrow> string list" where
  "event_kinds d i = map ae_Kind (filter (\<lambda>e. ae_RuleID e = i) (al_events d))"

definition rule_abs :: "string list \<Rightarrow> AlertRule \<Rightarrow> abs_rule" where
  "rule_abs ks r = \<lparr>a_cfg = rule_config r, a_enabled = ar_Enabled r, a_open = (ar_State r = AlertRuleStateOpen), a_log = ks\<rparr>"

definition alert_abs :: "alert_db \<Rightarrow> string \<rightharpoonup> abs_rule" where
  "alert_abs d i = map_option (rule_abs (event_kinds d i)) (find (\<lambda>r. ar_ID r = i) (al_rules d))"

definition refines_step :: "alert_db \<Rightarrow> alert_db \<Rightarrow> bool" where
  "refines_step d d' \<longleftrightarrow> alert_abs d' = alert_abs d \<or> spec_step (alert_abs d) (alert_abs d')"

lemma states_differ [simp]:
  "AlertRuleStateInactive \<noteq> AlertRuleStateOpen" "AlertRuleStateOpen \<noteq> AlertRuleStateInactive"
  "AlertEventKindOpened \<noteq> AlertEventKindResolved" "AlertEventKindResolved \<noteq> AlertEventKindOpened"
  by (simp_all add: AlertRuleStateInactive_def AlertRuleStateOpen_def AlertEventKindOpened_def AlertEventKindResolved_def)

lemma find_map_id:
  "(\<And>r. ar_ID (f r) = ar_ID r) \<Longrightarrow>
     find (\<lambda>r. ar_ID r = j) (map (\<lambda>x. if c x then f x else x) rs) =
     map_option (\<lambda>x. if c x then f x else x) (find (\<lambda>r. ar_ID r = j) rs)"
  by (induction rs) auto

lemma find_idD: "find (\<lambda>r. ar_ID r = j) rs = Some r \<Longrightarrow> ar_ID r = j \<and> r \<in> set rs"
  by (auto simp: find_Some_iff)

lemma event_kinds_rules [simp]: "event_kinds (d\<lparr>al_rules := rs\<rparr>) i = event_kinds d i"
  by (simp add: event_kinds_def)

lemma alert_abs_deliveries [simp]: "alert_abs (d\<lparr>al_deliveries := xs\<rparr>) = alert_abs d"
  by (rule ext) (simp add: alert_abs_def event_kinds_def)

lemma alert_abs_update:
  assumes f: "\<And>r. ar_ID (f r) = ar_ID r" and c: "\<And>r. c r \<Longrightarrow> ar_ID r = i"
  shows "alert_abs (d\<lparr>al_rules := map (\<lambda>x. if c x then f x else x) (al_rules d)\<rparr>) =
    (case find (\<lambda>r. ar_ID r = i) (al_rules d) of
       Some r \<Rightarrow> if c r then (alert_abs d)(i \<mapsto> rule_abs (event_kinds d i) (f r)) else alert_abs d
     | None \<Rightarrow> alert_abs d)"
proof
  fix j
  let ?g = "\<lambda>x. if c x then f x else x"
  have L: "alert_abs (d\<lparr>al_rules := map ?g (al_rules d)\<rparr>) j =
      map_option (rule_abs (event_kinds d j) \<circ> ?g) (find (\<lambda>r. ar_ID r = j) (al_rules d))"
    by (simp add: alert_abs_def find_map_id [OF f] option.map_comp)
  show "alert_abs (d\<lparr>al_rules := map ?g (al_rules d)\<rparr>) j =
    (case find (\<lambda>r. ar_ID r = i) (al_rules d) of
       Some r \<Rightarrow> if c r then (alert_abs d)(i \<mapsto> rule_abs (event_kinds d i) (f r)) else alert_abs d
     | None \<Rightarrow> alert_abs d) j"
  proof (cases "j = i")
    case True
    then show ?thesis
      unfolding L by (simp add: alert_abs_def split: option.splits)
  next
    case False
    have "\<not> c r" if "find (\<lambda>r. ar_ID r = j) (al_rules d) = Some r" for r
      using c [of r] find_idD [OF that] False by blast
    then have "alert_abs (d\<lparr>al_rules := map ?g (al_rules d)\<rparr>) j = alert_abs d j"
      unfolding L by (cases "find (\<lambda>r. ar_ID r = j) (al_rules d)") (simp_all add: alert_abs_def)
    with False show ?thesis
      by (simp split: option.splits)
  qed
qed

lemma find_guard:
  assumes "distinct (map ar_ID (al_rules d))" "find (guard_holds p) (al_rules d) = Some r"
  shows "find (\<lambda>r. ar_ID r = g_ID p) (al_rules d) = Some r" "guard_holds p r"
  using assms find_id [of ar_ID "al_rules d" r] by (auto simp: find_Some_iff guard_holds_def)

lemma create_refines:
  assumes ok: "alert_ok d"
  shows "refines_step d (snd (CreateAlertRule users genID p d))"
proof (cases rule: CreateAlertRule_cases [of users genID p d])
  case (ok i)
  have none: "find (\<lambda>r. ar_ID r = i) (al_rules d) = None"
    using ok(2) by (auto simp: find_None_iff)
  have kinds: "event_kinds d i = []"
    using ok(2) alert_okD(5) [OF assms] by (auto simp: event_kinds_def filter_empty_conv)
  have "find (\<lambda>r. ar_ID r = j) (al_rules d @ [new_rule i p]) =
      (if j = i then Some (new_rule i p) else find (\<lambda>r. ar_ID r = j) (al_rules d))" for j
    using none by (cases "find (\<lambda>r. ar_ID r = j) (al_rules d)") (auto simp: find_snoc new_rule_def)
  then have "alert_abs (d\<lparr>al_rules := al_rules d @ [new_rule i p]\<rparr>) = (alert_abs d)(i \<mapsto> rule_abs [] (new_rule i p))"
    by (intro ext) (simp add: alert_abs_def kinds)
  moreover have "alert_abs d i = None"
    by (simp add: alert_abs_def none)
  ultimately show ?thesis
    using ok(1) spec_create [of "alert_abs d" i, where c = "rule_config (new_rule i p)" and b = "ip_Enabled p"]
    by (simp add: refines_step_def rule_abs_def) (simp add: new_rule_def)
qed (simp add: refines_step_def)

lemma update_refines: "refines_step d (snd (UpdateAlertRule p d))"
proof -
  let ?c = "\<lambda>r. ar_ID r = up_ID p \<and> ar_UserID r = up_UserID p"
  have abs: "alert_abs (snd (UpdateAlertRule p d)) =
    (case find (\<lambda>r. ar_ID r = up_ID p) (al_rules d) of
       Some r \<Rightarrow> if ?c r then (alert_abs d)(up_ID p \<mapsto> rule_abs (event_kinds d (up_ID p)) (edited_rule p r)) else alert_abs d
     | None \<Rightarrow> alert_abs d)"
    unfolding UpdateAlertRule_tables by (rule alert_abs_update) (auto simp: edited_rule_def)
  show ?thesis
  proof (cases "find (\<lambda>r. ar_ID r = up_ID p) (al_rules d)")
    case (Some r)
    let ?a = "rule_abs (event_kinds d (up_ID p)) r"
    have "alert_abs d (up_ID p) = Some ?a"
      by (simp add: alert_abs_def Some)
    from spec_edit [of "alert_abs d", OF this, where c = "rule_config (edited_rule p r)" and b = "up_Enabled p" and keep = "\<not> up_ResetEvaluation p"]
    show ?thesis
      by (auto simp: refines_step_def abs Some rule_abs_def edited_rule_def)
  qed (simp add: refines_step_def abs)
qed

lemma touch_abs: "alert_abs (snd (TouchAlertRuleEvaluation id p d)) = alert_abs d"
proof -
  let ?f = "\<lambda>r. r\<lparr>ar_LastEvaluatedAt := Some (g_EvaluatedAt p), ar_UpdatedAt := g_EvaluatedAt p\<rparr>"
  have "alert_abs (d\<lparr>al_rules := map (\<lambda>r. if guard_holds p r then ?f r else r) (al_rules d)\<rparr>) = alert_abs d"
    by (subst alert_abs_update [where i = "g_ID p"])
       (auto simp: guard_holds_def rule_abs_def rule_config_def alert_abs_def split: option.splits)
  then show ?thesis
    by (simp add: TouchAlertRuleEvaluation_tables)
qed

lemma touch_refines: "refines_step d (snd (TouchAlertRuleEvaluation id p d))"
  by (simp add: refines_step_def touch_abs)

lemma transition_abs:
  assumes ok: "alert_ok d" and r: "find (guard_holds p) (al_rules d) = Some r"
    and f: "f = (\<lambda>r. r\<lparr>ar_State := tp_ToState p, ar_LastEvaluatedAt := Some (g_EvaluatedAt p), ar_UpdatedAt := g_EvaluatedAt p\<rparr>)"
  shows "alert_abs (d\<lparr>al_rules := map (\<lambda>x. if guard_holds p x then f x else x) (al_rules d),
      al_events := al_events d @ [event_row i (transition_event p) (f r)]\<rparr>) =
    (alert_abs d)(g_ID p \<mapsto> rule_abs (event_kinds d (g_ID p) @ [tp_EventKind p]) (f r))"
    (is "alert_abs ?d' = _")
proof
  fix j
  let ?d = "d\<lparr>al_rules := map (\<lambda>x. if guard_holds p x then f x else x) (al_rules d)\<rparr>"
  have found: "find (\<lambda>r. ar_ID r = g_ID p) (al_rules d) = Some r" "guard_holds p r"
    using find_guard [OF alert_okD(1) [OF ok] r] by auto
  have id_f: "\<And>x. ar_ID (f x) = ar_ID x" by (simp add: f)
  have abs: "alert_abs ?d = (alert_abs d)(g_ID p \<mapsto> rule_abs (event_kinds d (g_ID p)) (f r))"
    by (subst alert_abs_update [where i = "g_ID p", OF id_f]) (simp_all add: guard_holds_def found, use found in \<open>simp add: guard_holds_def\<close>)
  have kinds: "event_kinds ?d' j = event_kinds ?d j @ (if j = g_ID p then [tp_EventKind p] else [])"
    using found(2) by (auto simp: event_kinds_def event_row_def transition_event_def f guard_holds_def)
  have same: "find (\<lambda>r. ar_ID r = j) (al_rules ?d') = find (\<lambda>r. ar_ID r = j) (al_rules ?d)"
    by simp
  show "alert_abs ?d' j = ((alert_abs d)(g_ID p \<mapsto> rule_abs (event_kinds d (g_ID p) @ [tp_EventKind p]) (f r))) j"
  proof (cases "j = g_ID p")
    case True
    have "find (\<lambda>r. ar_ID r = j) (al_rules ?d) = Some (f r)"
      using found by (simp add: True find_map_id [OF id_f])
    then show ?thesis
      unfolding alert_abs_def kinds same by (simp add: True)
  next
    case False
    have "alert_abs ?d' j = alert_abs ?d j"
      unfolding alert_abs_def kinds same using False by simp
    with abs False show ?thesis by simp
  qed
qed

lemma transition_refines:
  assumes ok: "alert_ok d" and p: "is_opening p \<or> is_resolving p"
  shows "refines_step d (snd (TransitionAlertRule id genID p d))"
proof (cases rule: TransitionAlertRule_cases [of id genID p d])
  case (moved r i f)
  let ?a = "rule_abs (event_kinds d (g_ID p)) r"
  have g: "find (\<lambda>r. ar_ID r = g_ID p) (al_rules d) = Some r" "guard_holds p r"
    using find_guard [OF alert_okD(1) [OF ok] moved(1)] by auto
  have a: "alert_abs d (g_ID p) = Some ?a"
    by (simp add: alert_abs_def g)
  have en: "a_enabled ?a" "a_open ?a = (g_State p = AlertRuleStateOpen)"
    using g(2) by (simp_all add: rule_abs_def guard_holds_def)
  have new: "rule_abs (event_kinds d (g_ID p) @ [tp_EventKind p]) (f r) =
      ?a\<lparr>a_open := (tp_ToState p = AlertRuleStateOpen), a_log := a_log ?a @ [tp_EventKind p]\<rparr>"
    by (simp add: rule_abs_def rule_config_def moved(2))
  have "spec_step (alert_abs d) ((alert_abs d)(g_ID p \<mapsto>
      ?a\<lparr>a_open := (tp_ToState p = AlertRuleStateOpen), a_log := a_log ?a @ [tp_EventKind p]\<rparr>))"
    using p
  proof
    assume "is_opening p"
    with spec_open [of "alert_abs d", OF a] en show ?thesis by (simp add: is_opening_def)
  next
    assume "is_resolving p"
    with spec_resolve [of "alert_abs d", OF a] en show ?thesis by (simp add: is_resolving_def)
  qed
  then show ?thesis
    by (simp add: refines_step_def moved(4) transition_abs [OF ok moved(1,2)] new)
qed (simp_all add: refines_step_def)

lemma delete_refines:
  assumes ok: "alert_ok d"
  shows "refines_step d (snd (DeleteAlertRule i u d))"
proof (cases "filter (\<lambda>r. ar_ID r = i \<and> ar_UserID r = u) (al_rules d) = []")
  case False
  let ?hit = "\<lambda>r. ar_ID r = i \<and> ar_UserID r = u"
  let ?d = "snd (DeleteAlertRule i u d)"
  obtain r where r: "r \<in> set (al_rules d)" "?hit r"
    using False by (auto simp: filter_empty_conv)
  have found: "find (\<lambda>x. ar_ID x = i) (al_rules d) = Some r"
    using find_id [OF alert_okD(1) [OF ok] r(1)] r(2) by simp
  have gone: "ae_RuleID e \<in> ar_ID ` set (filter ?hit (al_rules d)) \<longleftrightarrow> ae_RuleID e = i" for e
    using r by auto
  have d': "al_rules ?d = filter (\<lambda>r. \<not> ?hit r) (al_rules d)" "al_events ?d = filter (\<lambda>e. ae_RuleID e \<noteq> i) (al_events d)"
    using False by (simp_all add: DeleteAlertRule_def Let_def gone del: set_filter)
  have hits: "?hit x \<longleftrightarrow> ar_ID x = i" if "x \<in> set (al_rules d)" for x
    using that r alert_okD(1) [OF ok] by (auto simp: distinct_map inj_on_def)
  have rules: "al_rules ?d = filter (\<lambda>r. ar_ID r \<noteq> i) (al_rules d)"
    unfolding d'(1) using hits by (intro filter_cong) auto
  have finds: "find (\<lambda>x. ar_ID x = j) (filter (\<lambda>r. ar_ID r \<noteq> i) xs) = (if j = i then None else find (\<lambda>x. ar_ID x = j) xs)" for j xs
    by (induction xs) auto
  have "event_kinds ?d j = event_kinds d j" if "j \<noteq> i" for j
    using that by (auto simp: event_kinds_def d' intro!: arg_cong [where f = "map ae_Kind"] filter_cong)
  then have "alert_abs ?d = (alert_abs d)(i := None)"
    by (intro ext) (simp add: alert_abs_def rules finds)
  moreover have "alert_abs d i = Some (rule_abs (event_kinds d i) r)"
    by (simp add: alert_abs_def found)
  ultimately show ?thesis
    by (simp add: refines_step_def spec_delete)
qed (simp add: DeleteAlertRule_def Let_def refines_step_def)

lemma delivery_refines:
  "refines_step d (snd (InsertAlertDelivery x d))"
  "refines_step d (snd (MarkAlertDeliveryDelivered i t d))"
  "refines_step d (snd (MarkAlertDeliveryFailed i err t t' d))"
  "refines_step d (snd (ClaimPendingAlertDeliveries coll locked c d))"
proof -
  show "refines_step d (snd (ClaimPendingAlertDeliveries coll locked c d))"
    by (cases rule: ClaimPendingAlertDeliveries_cases [of coll locked c d]) (simp_all add: refines_step_def)
qed (simp_all add: refines_step_def InsertAlertDelivery_def MarkAlertDeliveryDelivered_def
    MarkAlertDeliveryFailed_def update_delivery_tables)

lemma alert_step_refines: "alert_step d d' \<Longrightarrow> alert_ok d \<Longrightarrow> refines_step d d'"
  by (induction rule: alert_step.induct)
     (simp_all add: create_refines update_refines delete_refines touch_refines transition_refines delivery_refines)

lemma alert_steps_refine:
  assumes "alert_steps d d'" "alert_ok d"
  shows "spec_step\<^sup>*\<^sup>* (alert_abs d) (alert_abs d')"
  using assms
proof (induction rule: rtranclp_induct)
  case (step d1 d2)
  then have "refines_step d1 d2"
    using alert_step_refines alert_steps_ok by blast
  with step show ?case
    by (auto simp: refines_step_def intro: rtranclp.rtrancl_into_rtrancl)
qed simp

section \<open>The log of a rule\<close>

definition log_ok :: "abs_rule \<Rightarrow> bool" where
  "log_ok a \<longleftrightarrow> set (a_log a) \<subseteq> {AlertEventKindOpened, AlertEventKindResolved} \<and>
     (a_open a \<longrightarrow> a_log a \<noteq> [] \<and> last (a_log a) = AlertEventKindOpened) \<and>
     (\<forall>n < length (a_log a). a_log a ! n = AlertEventKindResolved \<longrightarrow> 0 < n \<and> a_log a ! (n - 1) = AlertEventKindOpened)"

lemma spec_step_log:
  assumes "spec_step m m'" "\<forall>a \<in> ran m. log_ok a"
  shows "\<forall>a \<in> ran m'. log_ok a"
  using assms
proof (cases rule: spec_step.cases)
  case (spec_edit i a keep b c)
  then have "log_ok a" using assms(2) by (auto simp: ran_def)
  then have "log_ok (a\<lparr>a_cfg := c, a_enabled := b, a_open := a_open a \<and> keep\<rparr>)"
    by (simp add: log_ok_def)
  with spec_edit(1) assms(2) show ?thesis by (auto simp: ran_def)
next
  case (spec_open i a)
  then have "log_ok (a\<lparr>a_open := True, a_log := a_log a @ [AlertEventKindOpened]\<rparr>)"
    using assms(2) by (auto simp: log_ok_def ran_def nth_append)
  with spec_open(1) assms(2) show ?thesis by (auto simp: ran_def)
next
  case (spec_resolve i a)
  then have "log_ok a" using assms(2) by (auto simp: ran_def)
  with spec_resolve have "log_ok (a\<lparr>a_open := False, a_log := a_log a @ [AlertEventKindResolved]\<rparr>)"
    by (auto simp: log_ok_def nth_append last_conv_nth less_Suc_eq)
  with spec_resolve(1) assms(2) show ?thesis by (auto simp: ran_def)
qed (auto simp: log_ok_def ran_def)

lemma spec_steps_log:
  assumes "spec_step\<^sup>*\<^sup>* m m'" "\<forall>a \<in> ran m. log_ok a"
  shows "\<forall>a \<in> ran m'. log_ok a"
  using assms by (induction rule: rtranclp_induct) (auto dest: spec_step_log)

section \<open>Interleavings\<close>

text \<open>A statement of another transaction, and a schedule of them.\<close>

datatype alert_stmt =
  SCreate "string list" "string result" InsertAlertRuleParams
| SUpdate UpdateAlertRuleParams
| SDelete string string
| STouch RuleGuard
| SOpen "string result" TransitionAlertRuleParams
| SResolve "string result" TransitionAlertRuleParams
| SEnqueue string string string string time
| SClaim "string \<Rightarrow> string \<Rightarrow> bool" "string \<Rightarrow> bool" ClaimParams
| SDelivered string time
| SFailed string string time time

fun exec_stmt :: "alert_stmt \<Rightarrow> alert_db \<Rightarrow> alert_db" where
  "exec_stmt (SCreate users genID p) d = snd (CreateAlertRule users genID p d)"
| "exec_stmt (SUpdate p) d = snd (UpdateAlertRule p d)"
| "exec_stmt (SDelete i u) d = snd (DeleteAlertRule i u d)"
| "exec_stmt (STouch g) d = snd (TouchAlertRuleEvaluation id g d)"
| "exec_stmt (SOpen genID p) d = snd (TransitionAlertRule id genID
     (p\<lparr>g_State := AlertRuleStateInactive, tp_ToState := AlertRuleStateOpen, tp_EventKind := AlertEventKindOpened\<rparr>) d)"
| "exec_stmt (SResolve genID p) d = snd (TransitionAlertRule id genID
     (p\<lparr>g_State := AlertRuleStateOpen, tp_ToState := AlertRuleStateInactive, tp_EventKind := AlertEventKindResolved\<rparr>) d)"
| "exec_stmt (SEnqueue i e c t now) d = snd (InsertAlertDelivery (new_delivery i e c t now) d)"
| "exec_stmt (SClaim coll locked c) d = snd (ClaimPendingAlertDeliveries coll locked c d)"
| "exec_stmt (SDelivered i t) d = snd (MarkAlertDeliveryDelivered i t d)"
| "exec_stmt (SFailed i e t t') d = snd (MarkAlertDeliveryFailed i e t t' d)"

lemma exec_stmt_step: "alert_step d (exec_stmt s d)"
  by (cases s) (auto intro!: alert_step.intros simp: new_delivery_def is_opening_def is_resolving_def)

lemma schedule_steps [simp]: "alert_steps d (fold exec_stmt stmts d)"
proof (induction stmts arbitrary: d)
  case (Cons s stmts)
  then show ?case
    using exec_stmt_step [of d s] by (auto intro: converse_rtranclp_into_rtranclp)
qed simp

text \<open>The interface the evaluator relies on.\<close>

locale alert_store =
  fixes touch :: "RuleGuard \<Rightarrow> alert_db \<Rightarrow> (AlertRule \<times> bool) result \<times> alert_db"
    and transition :: "TransitionAlertRuleParams \<Rightarrow> alert_db \<Rightarrow> AlertRuleTransition result \<times> alert_db"
  assumes touch_steps: "alert_steps d (snd (touch g d))"
    and transition_cases: "transition p d = (x, d') \<Longrightarrow>
      (alert_steps d d' \<and> (\<forall>t. x = Inr t \<longrightarrow> \<not> tr_Transitioned t)) \<or>
      (\<exists>d1 i r t. alert_steps d d1 \<and> find (guard_holds p) (al_rules d1) = Some r \<and> x = Inr t \<and>
        tr_Transitioned t \<and> TransitionAlertRule id (Inr i) p d1 = (x, d'))"
begin

lemma transition_steps:
  assumes "is_opening p \<or> is_resolving p"
  shows "alert_steps d (snd (transition p d))"
proof -
  obtain x d' where t: "transition p d = (x, d')" by (cases "transition p d")
  from transition_cases [OF t] have "alert_steps d d'"
  proof (elim disjE exE conjE)
    fix d1 i r tr
    assume "alert_steps d d1" "TransitionAlertRule id (Inr i) p d1 = (x, d')"
    with alert_step.transition [OF assms, of d1 "Inr i"] show ?thesis
      by (auto intro: rtranclp.rtrancl_into_rtrancl)
  qed
  with t show ?thesis by simp
qed

lemma transition_logs:
  assumes "transition p d = (Inr t, d')" "tr_Transitioned t"
  obtains ev where "tr_Event t = Some ev" "ae_Kind ev = tp_EventKind p" "ae_RuleID ev = g_ID p" "ev \<in> set (al_events d')"
proof -
  obtain d1 i r where "find (guard_holds p) (al_rules d1) = Some r" "TransitionAlertRule id (Inr i) p d1 = (Inr t, d')"
    using transition_cases [OF assms(1)] assms(2) by auto
  then show thesis
    using that assms(2)
    by (cases rule: TransitionAlertRule_cases [of id "Inr i" p d1])
       (auto simp: event_row_def transition_event_def find_Some_iff guard_holds_def)
qed

end

text \<open>
  The methods of the store, called when other transactions have run \<open>s1\<close>, with \<open>s2\<close> between
  their two statements. A failing call of the driver is \<open>io\<close>; it leaves the tables as they are.
\<close>

definition db_touch ::
  "db_error option \<Rightarrow> alert_stmt list \<Rightarrow> alert_stmt list \<Rightarrow> RuleGuard \<Rightarrow> alert_db \<Rightarrow> (AlertRule \<times> bool) result \<times> alert_db" where
  "db_touch io s1 s2 g d = (let d1 = fold exec_stmt s1 d in
     case io of Some e \<Rightarrow> (Inl e, d1) | None \<Rightarrow> TouchAlertRuleEvaluation (fold exec_stmt s2) g d1)"

definition db_transition ::
  "db_error option \<Rightarrow> alert_stmt list \<Rightarrow> alert_stmt list \<Rightarrow> string result \<Rightarrow> TransitionAlertRuleParams \<Rightarrow> alert_db \<Rightarrow>
   AlertRuleTransition result \<times> alert_db" where
  "db_transition io s1 s2 genID p d = (let d1 = fold exec_stmt s1 d in
     case io of Some e \<Rightarrow> (Inl e, d1) | None \<Rightarrow> TransitionAlertRule (fold exec_stmt s2) genID p d1)"

lemma touch_env_steps: "alert_steps d (snd (TouchAlertRuleEvaluation (fold exec_stmt s2) g d))"
proof (cases "find (guard_holds g) (al_rules d)")
  case None
  then show ?thesis by (simp add: TouchAlertRuleEvaluation_tables)
next
  case (Some r)
  then have "snd (TouchAlertRuleEvaluation (fold exec_stmt s2) g d) = snd (TouchAlertRuleEvaluation id g d)"
    by (simp add: TouchAlertRuleEvaluation_tables)
  then show ?thesis using alert_step.touch [of d g] by auto
qed

lemma transition_env_cases:
  assumes "TransitionAlertRule (fold exec_stmt s2) genID p d = (x, d')"
  shows "(alert_steps d d' \<and> (\<forall>t. x = Inr t \<longrightarrow> \<not> tr_Transitioned t)) \<or>
    (\<exists>i r t. find (guard_holds p) (al_rules d) = Some r \<and> x = Inr t \<and> tr_Transitioned t \<and>
      TransitionAlertRule id (Inr i) p d = (x, d'))"
proof (cases rule: TransitionAlertRule_cases [of "fold exec_stmt s2" genID p d])
  case (moved r i f)
  obtain j where "genID = Inr j" "TransitionAlertRule (fold exec_stmt s2) genID p d = TransitionAlertRule id (Inr j) p d"
    using moved(1,4) by (cases genID) (auto simp: TransitionAlertRule_def update_rule_def)
  with moved assms show ?thesis by auto
qed (use assms in \<open>auto split: sum.splits\<close>)

interpretation db_alerts: alert_store "db_touch io s1 s2" "db_transition io s1 s2 genID"
  for io s1 s2 genID
proof
  fix d g
  show "alert_steps d (snd (db_touch io s1 s2 g d))"
    using rtranclp_trans [OF schedule_steps touch_env_steps]
    by (auto simp: db_touch_def Let_def split: option.splits)
next
  fix p d x d'
  assume a: "db_transition io s1 s2 genID p d = (x, d')"
  show "(alert_steps d d' \<and> (\<forall>t. x = Inr t \<longrightarrow> \<not> tr_Transitioned t)) \<or>
      (\<exists>d1 i r t. alert_steps d d1 \<and> find (guard_holds p) (al_rules d1) = Some r \<and> x = Inr t \<and>
        tr_Transitioned t \<and> TransitionAlertRule id (Inr i) p d1 = (x, d'))"
  proof (cases io)
    case None
    with a have "TransitionAlertRule (fold exec_stmt s2) genID p (fold exec_stmt s1 d) = (x, d')"
      by (simp add: db_transition_def Let_def)
    from transition_env_cases [OF this] show ?thesis
    proof
      assume "alert_steps (fold exec_stmt s1 d) d' \<and> (\<forall>t. x = Inr t \<longrightarrow> \<not> tr_Transitioned t)"
      then show ?thesis using rtranclp_trans [OF schedule_steps [of d s1]] by blast
    next
      assume "\<exists>i r t. find (guard_holds p) (al_rules (fold exec_stmt s1 d)) = Some r \<and> x = Inr t \<and> tr_Transitioned t \<and>
        TransitionAlertRule id (Inr i) p (fold exec_stmt s1 d) = (x, d')"
      then show ?thesis using schedule_steps [of d s1] by blast
    qed
  next
    case (Some e)
    with a show ?thesis by (auto simp: db_transition_def Let_def)
  qed
qed

section \<open>Properties of the tables\<close>

text \<open>
  C9: The alert tables are well typed in every state the program can bring them to: ids are
  unique, so is the delivery of an event to a channel and target, no event outlives its rule
  and no delivery its event, a rule is inactive or open, an event opens or resolves, and a
  delivery has a delivery time exactly when it is delivered.
\<close>

theorem alert_tables_typed:
  assumes "alert_steps no_alerts d"
  shows "distinct (map ar_ID (al_rules d)) \<and> distinct (map ae_ID (al_events d)) \<and>
     distinct (map ad_ID (al_deliveries d)) \<and> distinct (map delivery_key (al_deliveries d)) \<and>
     ae_RuleID ` set (al_events d) \<subseteq> ar_ID ` set (al_rules d) \<and>
     ad_EventID ` set (al_deliveries d) \<subseteq> ae_ID ` set (al_events d) \<and>
     ar_State ` set (al_rules d) \<subseteq> {AlertRuleStateInactive, AlertRuleStateOpen} \<and>
     ae_Kind ` set (al_events d) \<subseteq> {AlertEventKindOpened, AlertEventKindResolved} \<and>
     (\<forall>x \<in> set (al_deliveries d). (ad_Status x = DeliveryDelivered) = (ad_DeliveredAt x \<noteq> None))"
  using alert_steps_ok [OF assms no_alerts_ok] unfolding alert_ok_def .

definition demo_create :: "string \<Rightarrow> alert_stmt" where
  "demo_create i = SCreate [''u''] (Inr i) \<lparr>ip_UserID = ''u'', ip_Name = ''n'', ip_Repository = ''r'', ip_Baseline = ''parent'',
     ip_Threshold = Fin 5, ip_ThresholdZ = Fin 5, ip_RunReason = None, ip_Enabled = True, ip_CreatedAt = 1\<rparr>"

definition demo_transition :: "string \<Rightarrow> TransitionAlertRuleParams" where
  "demo_transition i = \<lparr>g_ID = i, g_State = [], g_Repository = ''r'', g_Baseline = ''parent'', g_Threshold = Fin 5,
     g_ThresholdZ = Fin 5, g_RunReason = None, g_EvaluatedAt = 2, tp_ToState = [], tp_EventKind = [],
     tp_Status = ''failure'', tp_StatusReason = [], tp_RunID = None, tp_CommitSHA = None, tp_ReportURL = [],
     tp_Summary = Some JNull\<rparr>"

definition demo_schedule :: "alert_stmt list" where
  "demo_schedule = [demo_create ''1'', SOpen (Inr ''e1'') (demo_transition ''1''), SEnqueue ''d1'' ''e1'' ''slack'' ''t'' 3,
     SDelivered ''d1'' 4, SResolve (Inr ''e2'') (demo_transition ''1''), SOpen (Inr ''e3'') (demo_transition ''1'')]"

definition demo_alerts :: alert_db where
  "demo_alerts = fold exec_stmt demo_schedule no_alerts"

lemma demo_alerts_steps: "alert_steps no_alerts demo_alerts"
  by (simp add: demo_alerts_def)

lemma demo_alerts_view:
  "(map ar_State (al_rules demo_alerts), map ae_Kind (al_events demo_alerts), map ad_Status (al_deliveries demo_alerts)) =
     ([''open''], [''opened'', ''resolved'', ''opened''], [DeliveryDelivered])"
  by code_simp

theorem alert_tables_typed_witness:
  "alert_steps no_alerts demo_alerts \<and> distinct (map ae_ID (al_events demo_alerts)) \<and> length (al_events demo_alerts) = 3 \<and>
     (\<exists>x \<in> set (al_deliveries demo_alerts). ad_DeliveredAt x \<noteq> None)"
proof -
  have "length (al_events demo_alerts) = 3" "map ad_Status (al_deliveries demo_alerts) = [DeliveryDelivered]"
    using demo_alerts_view by (auto dest: arg_cong [where f = length])
  then show ?thesis
    using alert_tables_typed [OF demo_alerts_steps] demo_alerts_steps by (auto simp: map_eq_Cons_conv)
qed

text \<open>
  C17: The events of a rule, in the order they were inserted, tell its story: every resolution
  directly follows an opening, and a rule that is open has an opening as its last event. This
  holds in every state the program can reach, through any interleaving of evaluations, edits
  and deletions of rules.
\<close>

theorem alert_log_story:
  assumes "alert_steps no_alerts d" "r \<in> set (al_rules d)"
  defines "ks \<equiv> event_kinds d (ar_ID r)"
  shows "(ar_State r = AlertRuleStateOpen \<longrightarrow> ks \<noteq> [] \<and> last ks = AlertEventKindOpened) \<and>
    (\<forall>n < length ks. ks ! n = AlertEventKindResolved \<longrightarrow> 0 < n \<and> ks ! (n - 1) = AlertEventKindOpened)"
proof -
  have ok: "alert_ok d" by (rule alert_steps_ok [OF assms(1) no_alerts_ok])
  have "\<forall>a \<in> ran (alert_abs no_alerts). log_ok a"
    by (simp add: alert_abs_def no_alerts_def ran_def)
  then have "\<forall>a \<in> ran (alert_abs d). log_ok a"
    using spec_steps_log [OF alert_steps_refine [OF assms(1) no_alerts_ok]] by simp
  moreover have "alert_abs d (ar_ID r) = Some (rule_abs ks r)"
    using find_id [OF alert_okD(1) [OF ok] assms(2)] by (simp add: alert_abs_def ks_def)
  ultimately have "log_ok (rule_abs ks r)"
    by (auto simp: ran_def)
  then show ?thesis
    by (simp add: log_ok_def rule_abs_def)
qed

theorem alert_log_story_witness:
  "\<exists>r \<in> set (al_rules demo_alerts). ar_State r = AlertRuleStateOpen \<and> last (event_kinds demo_alerts (ar_ID r)) = AlertEventKindOpened"
proof -
  obtain r where "r \<in> set (al_rules demo_alerts)" "ar_State r = ''open''"
    using demo_alerts_view by (auto simp: map_eq_Cons_conv)
  then show ?thesis
    using alert_log_story [OF demo_alerts_steps] by (auto simp: AlertRuleStateOpen_def intro!: bexI [of _ r])
qed

end
