(* ===== verification/Alerts.thy ===== *)
theory Alerts
  imports AlertMachine CIReportProps
begin

text \<open>
  \<^verbatim>\<open>internal/service/alerts.go\<close>: the evaluator of alert rules. For every enabled rule it picks
  the newest run, builds its CI report, and opens or resolves the rule. Between any two of its
  statements other transactions change the tables; they are explicit lists of statements.
\<close>

section \<open>The report an alert is decided on\<close>

definition status_string :: "CIReportStatus \<Rightarrow> string" where
  "status_string s = (case s of StatusUnset \<Rightarrow> [] | StatusSuccess \<Rightarrow> ''success'' | StatusFailure \<Rightarrow> ''failure''
     | StatusActionRequired \<Rightarrow> ''action_required'' | StatusSkipped \<Rightarrow> ''skipped'')"

definition at_boundary :: "CIReportComparison \<Rightarrow> bool" where
  "at_boundary c \<longleftrightarrow> sd_BeginsDistributionChange (cp_Contender c)"

definition drop_boundary :: "CIReportComparison list \<Rightarrow> CIReportComparison list" where
  "drop_boundary cs = filter (\<lambda>c. \<not> at_boundary c) cs"

definition automatedAlertReport :: "CIReport \<Rightarrow> CIReport" where
  "automatedAlertReport report =
     (let comparisons = drop_boundary (rp_Comparisons report) in
      if length comparisons = length (rp_Comparisons report) then report
      else
       (let s = rp_Summary report;
            filtered = report\<lparr>rp_Comparisons := comparisons,
              rp_Runs := map (\<lambda>run. run\<lparr>rn_Comparisons := drop_boundary (rn_Comparisons run)\<rparr>) (rp_Runs report),
              rp_Summary := zero_summary\<lparr>su_Runs := su_Runs s, su_MissingRuns := su_MissingRuns s,
                su_ContenderResults := length comparisons, su_commitlessRuns := su_commitlessRuns s,
                su_baselineErrors := su_baselineErrors s, su_baselineActionErr := su_baselineActionErr s\<rparr>\<rparr>
        in if comparisons = [] then
             filtered\<lparr>rp_Status := StatusSkipped, rp_StatusReason := ''all contender rows begin a distribution change''\<rparr>
           else
             (let f1 = deriveSummaryFromComparisons filtered;
                  f2 = f1\<lparr>rp_Status := deriveStatus f1\<rparr>
              in f2\<lparr>rp_StatusReason := deriveStatusReason f2\<rparr>)))"

text \<open>\<open>json.Marshal\<close> of a summary: its exported fields.\<close>

definition marshal_summary :: "CIReportSummary \<Rightarrow> json" where
  "marshal_summary s = JObj (map (\<lambda>(k, n). (k, JNum (of_nat n)))
     [(''runs'', su_Runs s), (''missing_runs'', su_MissingRuns s), (''contender_results'', su_ContenderResults s),
      (''compared'', su_Compared s), (''analyzed'', su_Analyzed s), (''regressions'', su_Regressions s),
      (''improvements'', su_Improvements s), (''benchmark_errors'', su_BenchmarkErrors s),
      (''missing_baseline'', su_MissingBaseline s), (''not_comparable'', su_NotComparable s)])"

section \<open>The evaluator\<close>

datatype alert_error = StoreError db_error | ReportError svc_error | NilReport

record AlertEvaluationSummary =
  ev_Rules :: nat
  ev_Evaluated :: nat
  ev_Opened :: nat
  ev_Resolved :: nat
  ev_Unchanged :: nat
  ev_Skipped :: nat
  ev_NoCandidate :: nat
  ev_Failed :: nat
  ev_Failures :: "(string \<times> alert_error) list"
  ev_Events :: "AlertEvent list"

definition empty_evaluation :: AlertEvaluationSummary where
  "empty_evaluation = \<lparr>ev_Rules = 0, ev_Evaluated = 0, ev_Opened = 0, ev_Resolved = 0, ev_Unchanged = 0,
     ev_Skipped = 0, ev_NoCandidate = 0, ev_Failed = 0, ev_Failures = [], ev_Events = []\<rparr>"

text \<open>
  What the evaluation of one rule calls: the clock, the store (\<open>AlertStore\<close>) and the reporter
  (\<open>AlertReporter\<close>, whose report is a pointer).
\<close>

record alert_port =
  pt_now :: time
  pt_SelectLatestAlertRun :: "string \<Rightarrow> string ptr \<Rightarrow> AlertCandidateRun result"
  pt_Report :: "CIReportQuery \<Rightarrow> CIReport ptr svc"
  pt_TouchAlertRuleEvaluation :: "RuleGuard \<Rightarrow> alert_db \<Rightarrow> (AlertRule \<times> bool) result \<times> alert_db"
  pt_TransitionAlertRule :: "TransitionAlertRuleParams \<Rightarrow> alert_db \<Rightarrow> AlertRuleTransition result \<times> alert_db"

type_synonym eval_state = "AlertEvaluationSummary \<times> alert_db"

definition touchRule :: "alert_port \<Rightarrow> AlertRule \<Rightarrow> eval_state \<Rightarrow> alert_error option \<times> eval_state" where
  "touchRule port rule st =
     (let g = \<lparr>g_ID = ar_ID rule, g_State = ar_State rule, g_Repository = ar_Repository rule,
            g_Baseline = ar_Baseline rule, g_Threshold = ar_Threshold rule, g_ThresholdZ = ar_ThresholdZ rule,
            g_RunReason = ar_RunReason rule, g_EvaluatedAt = pt_now port\<rparr>
      in case pt_TouchAlertRuleEvaluation port g (snd st) of
           (Inl e, d) \<Rightarrow> (Some (StoreError e), fst st, d)
         | (Inr _, d) \<Rightarrow> (None, fst st, d))"

definition transition_params ::
  "time \<Rightarrow> AlertRule \<Rightarrow> AlertCandidateRun \<Rightarrow> CIReport \<Rightarrow> string \<Rightarrow> string \<Rightarrow> string \<Rightarrow> TransitionAlertRuleParams" where
  "transition_params now rule candidate report fromState toState kind =
     \<lparr>g_ID = ar_ID rule, g_State = fromState, g_Repository = ar_Repository rule, g_Baseline = ar_Baseline rule,
      g_Threshold = ar_Threshold rule, g_ThresholdZ = ar_ThresholdZ rule, g_RunReason = ar_RunReason rule,
      g_EvaluatedAt = now, tp_ToState = toState, tp_EventKind = kind,
      tp_Status = status_string (rp_Status report), tp_StatusReason = rp_StatusReason report,
      tp_RunID = Some (ca_RunID candidate), tp_CommitSHA = Some (ca_CommitSHA candidate),
      tp_ReportURL = rp_ReportURL report, tp_Summary = Some (marshal_summary (rp_Summary report))\<rparr>"

definition transitionRule ::
  "alert_port \<Rightarrow> AlertRule \<Rightarrow> AlertCandidateRun \<Rightarrow> CIReport \<Rightarrow> string \<Rightarrow> string \<Rightarrow> string \<Rightarrow> alert_db \<Rightarrow>
   AlertRuleTransition result \<times> alert_db" where
  "transitionRule port rule candidate report fromState toState kind d =
     pt_TransitionAlertRule port (transition_params (pt_now port) rule candidate report fromState toState kind) d"

definition unchanged :: "AlertEvaluationSummary \<Rightarrow> AlertEvaluationSummary" where
  "unchanged s = s\<lparr>ev_Unchanged := ev_Unchanged s + 1\<rparr>"

definition add_event :: "AlertEvent ptr \<Rightarrow> AlertEvaluationSummary \<Rightarrow> AlertEvaluationSummary" where
  "add_event e s = (case e of None \<Rightarrow> s | Some ev \<Rightarrow> s\<lparr>ev_Events := ev_Events s @ [ev]\<rparr>)"

definition openIfNeeded ::
  "alert_port \<Rightarrow> AlertRule \<Rightarrow> AlertCandidateRun \<Rightarrow> CIReport \<Rightarrow> eval_state \<Rightarrow> alert_error option \<times> eval_state" where
  "openIfNeeded port rule candidate report st =
     (if ar_State rule = AlertRuleStateOpen then touchRule port rule (unchanged (fst st), snd st)
      else case transitionRule port rule candidate report AlertRuleStateInactive AlertRuleStateOpen
                 AlertEventKindOpened (snd st) of
        (Inl e, d) \<Rightarrow> (Some (StoreError e), fst st, d)
      | (Inr t, d) \<Rightarrow>
          (if \<not> tr_Transitioned t then (None, unchanged (fst st), d)
           else (None, add_event (tr_Event t) ((fst st)\<lparr>ev_Opened := ev_Opened (fst st) + 1\<rparr>), d)))"

definition resolveIfNeeded ::
  "alert_port \<Rightarrow> AlertRule \<Rightarrow> AlertCandidateRun \<Rightarrow> CIReport \<Rightarrow> eval_state \<Rightarrow> alert_error option \<times> eval_state" where
  "resolveIfNeeded port rule candidate report st =
     (if ar_State rule \<noteq> AlertRuleStateOpen then touchRule port rule (unchanged (fst st), snd st)
      else case transitionRule port rule candidate report AlertRuleStateOpen AlertRuleStateInactive
                 AlertEventKindResolved (snd st) of
        (Inl e, d) \<Rightarrow> (Some (StoreError e), fst st, d)
      | (Inr t, d) \<Rightarrow>
          (if \<not> tr_Transitioned t then (None, unchanged (fst st), d)
           else (None, add_event (tr_Event t) ((fst st)\<lparr>ev_Resolved := ev_Resolved (fst st) + 1\<rparr>), d)))"

definition alert_query :: "AlertRule \<Rightarrow> AlertCandidateRun \<Rightarrow> CIReportQuery" where
  "alert_query rule candidate = \<lparr>q_Repository = ar_Repository rule, q_CommitSHA = ca_CommitSHA candidate,
     q_RunIDs = [ca_RunID candidate], q_BaselineRunIDs = [], q_Baseline = ar_Baseline rule,
     q_Threshold = ar_Threshold rule, q_ThresholdZ = ar_ThresholdZ rule, q_PublicBaseURL = []\<rparr>"

definition evaluateRule :: "alert_port \<Rightarrow> AlertRule \<Rightarrow> eval_state \<Rightarrow> alert_error option \<times> eval_state" where
  "evaluateRule port rule st =
     (case pt_SelectLatestAlertRun port (ar_Repository rule) (ar_RunReason rule) of
        Inl e \<Rightarrow>
          (if e = ErrNotFound
           then touchRule port rule ((fst st)\<lparr>ev_NoCandidate := ev_NoCandidate (fst st) + 1\<rparr>, snd st)
           else (Some (StoreError e), st))
      | Inr candidate \<Rightarrow>
          (case pt_Report port (alert_query rule candidate) of
             Inl e \<Rightarrow> (Some (ReportError e), st)
           | Inr None \<Rightarrow> (Some NilReport, st)
           | Inr (Some report) \<Rightarrow>
               (let st1 = ((fst st)\<lparr>ev_Evaluated := ev_Evaluated (fst st) + 1\<rparr>, snd st);
                    alertReport = automatedAlertReport report
                in case rp_Status alertReport of
                     StatusFailure \<Rightarrow> openIfNeeded port rule candidate alertReport st1
                   | StatusSuccess \<Rightarrow> resolveIfNeeded port rule candidate alertReport st1
                   | _ \<Rightarrow> touchRule port rule ((fst st1)\<lparr>ev_Skipped := ev_Skipped (fst st1) + 1\<rparr>, snd st1))))"

text \<open>The loop of \<open>Evaluate\<close>; \<open>ports k\<close> is what the evaluation of the \<open>k\<close>-th rule calls.\<close>

fun evaluate_loop :: "(nat \<Rightarrow> alert_port) \<Rightarrow> nat \<Rightarrow> AlertRule list \<Rightarrow> eval_state \<Rightarrow> eval_state" where
  "evaluate_loop ports k [] st = st"
| "evaluate_loop ports k (rule # rules) st =
     (case evaluateRule (ports k) rule st of
        (None, st') \<Rightarrow> evaluate_loop ports (Suc k) rules st'
      | (Some e, s', d') \<Rightarrow> evaluate_loop ports (Suc k) rules
          (s'\<lparr>ev_Failed := ev_Failed s' + 1, ev_Failures := ev_Failures s' @ [(ar_ID rule, e)]\<rparr>, d'))"

datatype evaluate_error = ListFailed db_error | SomeRulesFailed

definition Evaluate ::
  "AlertRule list result \<Rightarrow> (nat \<Rightarrow> alert_port) \<Rightarrow> alert_db \<Rightarrow>
   evaluate_error option \<times> AlertEvaluationSummary \<times> alert_db" where
  "Evaluate listed ports d = (case listed of
     Inl e \<Rightarrow> (Some (ListFailed e), empty_evaluation, d)
   | Inr rules \<Rightarrow>
       (let (s, d') = evaluate_loop ports 0 rules (empty_evaluation\<lparr>ev_Rules := length rules\<rparr>, d)
        in (if ev_Failed s > 0 then Some SomeRulesFailed else None, s, d')))"

section \<open>What an evaluation does\<close>

definition decided :: "AlertEvaluationSummary \<Rightarrow> nat" where
  "decided s = ev_NoCandidate s + ev_Skipped s + ev_Unchanged s + ev_Opened s + ev_Resolved s"

text \<open>
  One evaluation decides at most one rule, exactly one when it succeeds, and reports an event
  for every rule it opened or resolved.
\<close>

definition one_rule :: "alert_error option \<Rightarrow> AlertEvaluationSummary \<Rightarrow> AlertEvaluationSummary \<Rightarrow> bool" where
  "one_rule err s s' \<longleftrightarrow>
     decided s \<le> decided s' \<and> decided s' \<le> decided s + 1 \<and> (err = None \<longrightarrow> decided s' = decided s + 1) \<and>
     ev_Rules s' = ev_Rules s \<and> ev_Failed s' = ev_Failed s \<and> ev_Failures s' = ev_Failures s \<and>
     (\<exists>evs. ev_Events s' = ev_Events s @ evs \<and>
        ev_Opened s' = ev_Opened s + length (filter (\<lambda>e. ae_Kind e = AlertEventKindOpened) evs) \<and>
        ev_Resolved s' = ev_Resolved s + length (filter (\<lambda>e. ae_Kind e = AlertEventKindResolved) evs))"

locale alert_evaluator = alert_store "pt_TouchAlertRuleEvaluation port" "pt_TransitionAlertRule port"
  for port :: alert_port
begin

lemma touchRule_state:
  assumes "touchRule port rule (s, d) = (err, s', d')"
  shows "s' = s" "alert_steps d d'"
  using assms touch_steps [of d]
  by (auto simp: touchRule_def Let_def split: prod.splits sum.splits) (metis snd_conv)+

lemma openIfNeeded_state:
  assumes "openIfNeeded port rule candidate report (s, d) = (err, s', d')"
  shows "alert_steps d d' \<and> one_rule err s s'"
proof (cases "ar_State rule = AlertRuleStateOpen")
  case True
  then have "touchRule port rule (unchanged s, d) = (err, s', d')"
    using assms by (simp add: openIfNeeded_def)
  from touchRule_state [OF this] show ?thesis
    by (auto simp: one_rule_def decided_def unchanged_def)
next
  case False
  let ?p = "transition_params (pt_now port) rule candidate report AlertRuleStateInactive AlertRuleStateOpen AlertEventKindOpened"
  have p: "is_opening ?p"
    by (simp add: is_opening_def transition_params_def)
  obtain x d1 where t: "pt_TransitionAlertRule port ?p d = (x, d1)"
    by (cases "pt_TransitionAlertRule port ?p d")
  have d1: "alert_steps d d1"
    using transition_steps [of ?p d] p t by simp
  show ?thesis
  proof (cases x)
    case (Inl e)
    with False assms t d1 show ?thesis
      by (auto simp: openIfNeeded_def transitionRule_def one_rule_def)
  next
    case (Inr tr)
    show ?thesis
    proof (cases "tr_Transitioned tr")
      case True
      obtain ev where "tr_Event tr = Some ev" "ae_Kind ev = AlertEventKindOpened"
        using transition_logs [of ?p d tr d1] t Inr True by (auto simp: transition_params_def)
      with False assms t d1 Inr True show ?thesis
        by (auto simp: openIfNeeded_def transitionRule_def one_rule_def decided_def add_event_def)
    qed (use False assms t d1 Inr in
         \<open>auto simp: openIfNeeded_def transitionRule_def one_rule_def decided_def unchanged_def\<close>)
  qed
qed

lemma resolveIfNeeded_state:
  assumes "resolveIfNeeded port rule candidate report (s, d) = (err, s', d')"
  shows "alert_steps d d' \<and> one_rule err s s'"
proof (cases "ar_State rule = AlertRuleStateOpen")
  case False
  then have "touchRule port rule (unchanged s, d) = (err, s', d')"
    using assms by (simp add: resolveIfNeeded_def)
  from touchRule_state [OF this] show ?thesis
    by (auto simp: one_rule_def decided_def unchanged_def)
next
  case True
  let ?p = "transition_params (pt_now port) rule candidate report AlertRuleStateOpen AlertRuleStateInactive AlertEventKindResolved"
  have p: "is_resolving ?p"
    by (simp add: is_resolving_def transition_params_def)
  obtain x d1 where t: "pt_TransitionAlertRule port ?p d = (x, d1)"
    by (cases "pt_TransitionAlertRule port ?p d")
  have d1: "alert_steps d d1"
    using transition_steps [of ?p d] p t by simp
  show ?thesis
  proof (cases x)
    case (Inl e)
    with True assms t d1 show ?thesis
      by (auto simp: resolveIfNeeded_def transitionRule_def one_rule_def)
  next
    case (Inr tr)
    show ?thesis
    proof (cases "tr_Transitioned tr")
      case moved: True
      obtain ev where "tr_Event tr = Some ev" "ae_Kind ev = AlertEventKindResolved"
        using transition_logs [of ?p d tr d1] t Inr moved by (auto simp: transition_params_def)
      with True assms t d1 Inr moved show ?thesis
        by (auto simp: resolveIfNeeded_def transitionRule_def one_rule_def decided_def add_event_def)
    qed (use True assms t d1 Inr in
         \<open>auto simp: resolveIfNeeded_def transitionRule_def one_rule_def decided_def unchanged_def\<close>)
  qed
qed

lemma one_rule_evaluated: "one_rule err (s\<lparr>ev_Evaluated := n\<rparr>) s' = one_rule err s s'"
  by (simp add: one_rule_def decided_def)

lemma evaluateRule_state:
  assumes "evaluateRule port rule (s, d) = (err, s', d')"
  shows "alert_steps d d' \<and> one_rule err s s'"
proof (cases "pt_SelectLatestAlertRun port (ar_Repository rule) (ar_RunReason rule)")
  case (Inl e)
  show ?thesis
  proof (cases "e = ErrNotFound")
    case True
    with Inl assms have "touchRule port rule (s\<lparr>ev_NoCandidate := ev_NoCandidate s + 1\<rparr>, d) = (err, s', d')"
      by (simp add: evaluateRule_def)
    from touchRule_state [OF this] show ?thesis by (auto simp: one_rule_def decided_def)
  next
    case False
    with Inl assms show ?thesis by (auto simp: evaluateRule_def one_rule_def)
  qed
next
  case (Inr candidate)
  consider "err \<noteq> None" "s' = s" "d' = d"
    | report where "pt_Report port (alert_query rule candidate) = Inr (Some report)"
    using assms Inr
    by (cases "pt_Report port (alert_query rule candidate)") (auto simp: evaluateRule_def split: option.splits)
  then show ?thesis
  proof cases
    case 1
    then show ?thesis by (auto simp: one_rule_def)
  next
    case 2
    let ?s = "s\<lparr>ev_Evaluated := ev_Evaluated s + 1\<rparr>"
    let ?r = "automatedAlertReport report"
    have ev: "(case rp_Status ?r of
        StatusFailure \<Rightarrow> openIfNeeded port rule candidate ?r (?s, d)
      | StatusSuccess \<Rightarrow> resolveIfNeeded port rule candidate ?r (?s, d)
      | _ \<Rightarrow> touchRule port rule (?s\<lparr>ev_Skipped := ev_Skipped ?s + 1\<rparr>, d)) = (err, s', d')"
      using assms 2 by (cases "rp_Status ?r") (simp_all add: evaluateRule_def Inr Let_def)
    show ?thesis
    proof (cases "rp_Status ?r")
      case StatusFailure
      with ev openIfNeeded_state [of rule candidate ?r ?s d err s' d'] show ?thesis
        by (simp add: one_rule_evaluated)
    next
      case StatusSuccess
      with ev resolveIfNeeded_state [of rule candidate ?r ?s d err s' d'] show ?thesis
        by (simp add: one_rule_evaluated)
    qed (use ev touchRule_state [of rule "?s\<lparr>ev_Skipped := ev_Skipped ?s + 1\<rparr>" d err s' d'] in
         \<open>auto simp: one_rule_def decided_def\<close>)
  qed
qed

end

section \<open>Transitions rest on a fresh report\<close>

text \<open>
  The rule \<open>r\<close> of the tables \<open>d1\<close> moves by the event \<open>ev\<close>, which records the newest run and the
  status of the report on it.
\<close>

definition moves_on ::
  "alert_port \<Rightarrow> AlertRule \<Rightarrow> alert_db \<Rightarrow> alert_db \<Rightarrow> AlertRule \<Rightarrow> AlertEvent \<Rightarrow> bool" where
  "moves_on port rule d1 d' r ev \<longleftrightarrow>
     r \<in> set (al_rules d1) \<and> ar_ID r = ar_ID rule \<and> ar_Enabled r \<and> ar_Repository r = ar_Repository rule \<and>
     ar_Baseline r = ar_Baseline rule \<and> sql_feq (ar_Threshold r) (ar_Threshold rule) \<and>
     sql_feq (ar_ThresholdZ r) (ar_ThresholdZ rule) \<and> ar_RunReason r = ar_RunReason rule \<and>
     al_events d' = al_events d1 @ [ev] \<and> ae_RuleID ev = ar_ID rule \<and>
     (\<exists>candidate report.
        pt_SelectLatestAlertRun port (ar_Repository rule) (ar_RunReason rule) = Inr candidate \<and>
        pt_Report port (alert_query rule candidate) = Inr (Some report) \<and>
        ae_RunID ev = Some (ca_RunID candidate) \<and> ae_CommitSHA ev = Some (ca_CommitSHA candidate) \<and>
        ae_Status ev = status_string (rp_Status (automatedAlertReport report)) \<and>
        (rp_Status (automatedAlertReport report) = StatusFailure \<and> ae_Kind ev = AlertEventKindOpened \<and>
           ar_State r = AlertRuleStateInactive \<or>
         rp_Status (automatedAlertReport report) = StatusSuccess \<and> ae_Kind ev = AlertEventKindResolved \<and>
           ar_State r = AlertRuleStateOpen))"

context alert_evaluator
begin

lemma transition_moves:
  assumes t: "transitionRule port rule candidate report fromState toState kind d = (Inr tr, d')" "tr_Transitioned tr"
  shows "\<exists>d1 r i. alert_steps d d1 \<and> r \<in> set (al_rules d1) \<and>
    guard_holds (transition_params (pt_now port) rule candidate report fromState toState kind) r \<and>
    (\<exists>ev. al_events d' = al_events d1 @ [ev] \<and> ae_RuleID ev = ar_ID rule \<and> ae_Kind ev = kind \<and>
       ae_RunID ev = Some (ca_RunID candidate) \<and> ae_CommitSHA ev = Some (ca_CommitSHA candidate) \<and>
       ae_Status ev = status_string (rp_Status report))"
proof -
  let ?p = "transition_params (pt_now port) rule candidate report fromState toState kind"
  obtain d1 i r where d1: "alert_steps d d1" "find (guard_holds ?p) (al_rules d1) = Some r"
      "TransitionAlertRule id (Inr i) ?p d1 = (Inr tr, d')"
    using transition_cases [OF t(1) [unfolded transitionRule_def]] t(2) by auto
  have r: "r \<in> set (al_rules d1)" "guard_holds ?p r"
    using d1(2) by (auto simp: find_Some_iff)
  have "\<exists>ev. al_events d' = al_events d1 @ [ev] \<and> ae_RuleID ev = ar_ID rule \<and> ae_Kind ev = kind \<and>
       ae_RunID ev = Some (ca_RunID candidate) \<and> ae_CommitSHA ev = Some (ca_CommitSHA candidate) \<and>
       ae_Status ev = status_string (rp_Status report)"
  proof (cases rule: TransitionAlertRule_cases [of id "Inr i" ?p d1])
    case (moved r' j f)
    with d1 r show ?thesis
      by (auto simp: event_row_def transition_event_def transition_params_def guard_holds_def)
  qed (use d1 t(2) in \<open>auto split: sum.splits\<close>)
  with d1(1) r show ?thesis by blast
qed

lemma evaluateRule_moves:
  assumes e: "evaluateRule port rule (s, d) = (err, s', d')"
    and n: "ev_Opened s' + ev_Resolved s' \<noteq> ev_Opened s + ev_Resolved s"
  shows "\<exists>d1 r ev. alert_steps d d1 \<and> moves_on port rule d1 d' r ev"
proof -
  have touch: "s' = s0" if "touchRule port rule (s0, d) = (err, s', d')" for s0
    using touchRule_state [OF that] by simp
  obtain candidate where c: "pt_SelectLatestAlertRun port (ar_Repository rule) (ar_RunReason rule) = Inr candidate"
    using e n by (cases "pt_SelectLatestAlertRun port (ar_Repository rule) (ar_RunReason rule)")
      (auto simp: evaluateRule_def split: if_splits dest!: touch)
  obtain report where rep: "pt_Report port (alert_query rule candidate) = Inr (Some report)"
    using e n by (cases "pt_Report port (alert_query rule candidate)")
      (auto simp: evaluateRule_def c split: option.splits)
  let ?r = "automatedAlertReport report"
  let ?s = "s\<lparr>ev_Evaluated := ev_Evaluated s + 1\<rparr>"
  have ev: "(case rp_Status ?r of
      StatusFailure \<Rightarrow> openIfNeeded port rule candidate ?r (?s, d)
    | StatusSuccess \<Rightarrow> resolveIfNeeded port rule candidate ?r (?s, d)
    | _ \<Rightarrow> touchRule port rule (?s\<lparr>ev_Skipped := ev_Skipped ?s + 1\<rparr>, d)) = (err, s', d')"
    using e rep by (cases "rp_Status ?r") (simp_all add: evaluateRule_def c Let_def)
  show ?thesis
  proof (cases "rp_Status ?r")
    case StatusFailure
    with ev have o: "openIfNeeded port rule candidate ?r (?s, d) = (err, s', d')" by simp
    obtain tr where tr: "transitionRule port rule candidate ?r AlertRuleStateInactive AlertRuleStateOpen
        AlertEventKindOpened d = (Inr tr, d')" "tr_Transitioned tr"
      using o n by (auto simp: openIfNeeded_def unchanged_def split: if_splits prod.splits sum.splits dest!: touch)
    from transition_moves [OF tr] StatusFailure c rep show ?thesis
      unfolding moves_on_def guard_holds_def by (auto simp: transition_params_def)
  next
    case StatusSuccess
    with ev have o: "resolveIfNeeded port rule candidate ?r (?s, d) = (err, s', d')" by simp
    obtain tr where tr: "transitionRule port rule candidate ?r AlertRuleStateOpen AlertRuleStateInactive
        AlertEventKindResolved d = (Inr tr, d')" "tr_Transitioned tr"
      using o n by (auto simp: resolveIfNeeded_def unchanged_def split: if_splits prod.splits sum.splits dest!: touch)
    from transition_moves [OF tr] StatusSuccess c rep show ?thesis
      unfolding moves_on_def guard_holds_def by (auto simp: transition_params_def)
  qed (use ev n in \<open>auto dest!: touch\<close>)
qed

end

section \<open>The evaluator on the database\<close>

record rule_schedule =
  sc_now :: time
  sc_io :: "db_error option"
  sc_before :: "alert_stmt list"
  sc_between :: "alert_stmt list"
  sc_genID :: "string result"

text \<open>The store over the result tables \<open>t\<close> and the alert tables, under a schedule.\<close>

definition db_alert_port ::
  "(CIReportQuery \<Rightarrow> CIReport ptr svc) \<Rightarrow> (string \<Rightarrow> string \<Rightarrow> bool) \<Rightarrow> db \<Rightarrow> rule_schedule \<Rightarrow> alert_port" where
  "db_alert_port reporter coll t sc = \<lparr>pt_now = sc_now sc,
     pt_SelectLatestAlertRun = SelectLatestAlertRun coll t, pt_Report = reporter,
     pt_TouchAlertRuleEvaluation = db_touch (sc_io sc) (sc_before sc) (sc_between sc),
     pt_TransitionAlertRule = db_transition (sc_io sc) (sc_before sc) (sc_between sc) (sc_genID sc)\<rparr>"

text \<open>The CI reporter as the evaluator's reporter: it never returns a nil report.\<close>

definition ci_reporter ::
  "mathlib \<Rightarrow> (string \<Rightarrow> string \<Rightarrow> bool) \<Rightarrow> db \<Rightarrow> string \<Rightarrow> CIReportQuery \<Rightarrow> CIReport ptr svc" where
  "ci_reporter ml coll t publicBaseURL q = svc_bind (Report ml (db_storage coll t) publicBaseURL q) (Inr \<circ> Some)"

interpretation db_evaluator: alert_evaluator "db_alert_port reporter coll t sc"
  for reporter coll t sc
  by (simp add: alert_evaluator_def db_alert_port_def db_alerts.alert_store_axioms)

definition rules_counted :: "AlertEvaluationSummary \<Rightarrow> bool" where
  "rules_counted s \<longleftrightarrow> length (ev_Failures s) = ev_Failed s \<and>
     ev_Opened s = length (filter (\<lambda>e. ae_Kind e = AlertEventKindOpened) (ev_Events s)) \<and>
     ev_Resolved s = length (filter (\<lambda>e. ae_Kind e = AlertEventKindResolved) (ev_Events s))"

lemma decided_failed: "decided (s\<lparr>ev_Failed := n, ev_Failures := fs\<rparr>) = decided s"
  by (simp add: decided_def)

lemma rules_counted_step: "one_rule err s s' \<Longrightarrow> rules_counted s \<Longrightarrow> rules_counted s'"
  by (auto simp: one_rule_def rules_counted_def)

lemma evaluate_loop_state:
  assumes "\<And>k. alert_evaluator (ports k)" "evaluate_loop ports k rules (s, d) = (s', d')" "rules_counted s"
  shows "alert_steps d d' \<and> rules_counted s' \<and> ev_Rules s' = ev_Rules s \<and> ev_Failed s \<le> ev_Failed s' \<and>
    ev_Failed s' \<le> ev_Failed s + length rules \<and>
    decided s + length rules \<le> decided s' + (ev_Failed s' - ev_Failed s) \<and> decided s' \<le> decided s + length rules"
  using assms(2,3)
proof (induction rules arbitrary: k s d)
  case (Cons rule rules)
  obtain err s1 d1 where e: "evaluateRule (ports k) rule (s, d) = (err, s1, d1)"
    by (cases "evaluateRule (ports k) rule (s, d)") auto
  have 1: "alert_steps d d1" "one_rule err s s1" "rules_counted s1"
    using alert_evaluator.evaluateRule_state [OF assms(1) e] rules_counted_step Cons.prems(2) by auto
  show ?case
  proof (cases err)
    case None
    with Cons.prems(1) e have "evaluate_loop ports (Suc k) rules (s1, d1) = (s', d')" by simp
    from Cons.IH [OF this 1(3)] 1 None show ?thesis
      by (auto simp: one_rule_def intro: rtranclp_trans)
  next
    case (Some x)
    let ?s = "s1\<lparr>ev_Failed := ev_Failed s1 + 1, ev_Failures := ev_Failures s1 @ [(ar_ID rule, x)]\<rparr>"
    have c: "rules_counted ?s" using 1(3) by (simp add: rules_counted_def)
    from Some Cons.prems(1) e have "evaluate_loop ports (Suc k) rules (?s, d1) = (s', d')" by simp
    from Cons.IH [OF this c] 1 show ?thesis
      by (auto simp: one_rule_def decided_failed intro: rtranclp_trans)
  qed
qed simp

section \<open>Reports without boundary comparisons\<close>

lemma drop_boundary_length: "length (drop_boundary cs) = length cs \<longleftrightarrow> \<not> list_ex at_boundary cs"
proof (induction cs)
  case (Cons c cs)
  have "length (drop_boundary cs) < Suc (length cs)" by (simp add: drop_boundary_def less_Suc_eq_le)
  with Cons show ?case by (auto simp: drop_boundary_def)
qed (simp add: drop_boundary_def)

lemma drop_boundary_id: "\<not> list_ex at_boundary cs \<Longrightarrow> drop_boundary cs = cs"
  by (induction cs) (auto simp: drop_boundary_def)

definition filtered_report :: "CIReport \<Rightarrow> CIReport" where
  "filtered_report r = (let s = rp_Summary r; cs = drop_boundary (rp_Comparisons r) in
     deriveSummaryFromComparisons (r\<lparr>rp_Comparisons := cs,
       rp_Runs := map (\<lambda>run. run\<lparr>rn_Comparisons := drop_boundary (rn_Comparisons run)\<rparr>) (rp_Runs r),
       rp_Summary := zero_summary\<lparr>su_Runs := su_Runs s, su_MissingRuns := su_MissingRuns s,
         su_ContenderResults := length cs, su_commitlessRuns := su_commitlessRuns s,
         su_baselineErrors := su_baselineErrors s, su_baselineActionErr := su_baselineActionErr s\<rparr>\<rparr>))"

lemma filtered_report_other:
  "su_MissingRuns (rp_Summary (filtered_report r)) = su_MissingRuns (rp_Summary r)"
  "su_commitlessRuns (rp_Summary (filtered_report r)) = su_commitlessRuns (rp_Summary r)"
  "su_baselineActionErr (rp_Summary (filtered_report r)) = su_baselineActionErr (rp_Summary r)"
  "su_ContenderResults (rp_Summary (filtered_report r)) = length (drop_boundary (rp_Comparisons r))"
  by (simp_all add: filtered_report_def deriveSummaryFromComparisons_def Let_def)

lemma filtered_report_comparisons: "rp_Comparisons (filtered_report r) = drop_boundary (rp_Comparisons r)"
  by (simp add: filtered_report_def deriveSummaryFromComparisons_def Let_def)

lemma filtered_report_counted:
  "counted (map cp_Status (drop_boundary (rp_Comparisons r))) (rp_Summary (filtered_report r))"
  using counted_foldl [of "[]" "zero_summary\<lparr>su_Runs := su_Runs (rp_Summary r), su_MissingRuns := su_MissingRuns (rp_Summary r),
      su_ContenderResults := length (drop_boundary (rp_Comparisons r)), su_commitlessRuns := su_commitlessRuns (rp_Summary r),
      su_baselineErrors := su_baselineErrors (rp_Summary r), su_baselineActionErr := su_baselineActionErr (rp_Summary r)\<rparr>"]
  by (simp add: filtered_report_def deriveSummaryFromComparisons_def Let_def counted_Nil)

lemma automatedAlertReport_filtered:
  assumes "list_ex at_boundary (rp_Comparisons r)" "drop_boundary (rp_Comparisons r) \<noteq> []"
  shows "automatedAlertReport r = (let f = filtered_report r; f2 = f\<lparr>rp_Status := deriveStatus f\<rparr>
    in f2\<lparr>rp_StatusReason := deriveStatusReason f2\<rparr>)"
  using assms drop_boundary_length [of "rp_Comparisons r"]
  by (simp add: automatedAlertReport_def filtered_report_def Let_def)

section \<open>Properties\<close>

text \<open>
  C8: An evaluation of the alert rules, interleaved with any schedule of other transactions and
  with failing calls of the database, refines the state machine of alert rules: what it does
  to the tables is a run of the machine.
\<close>

theorem Evaluate_refines:
  assumes "alert_ok d"
    and "Evaluate listed (\<lambda>k. db_alert_port (reporters k) coll (ts k) (scs k)) d = (err, s, d')"
  shows "spec_step\<^sup>*\<^sup>* (alert_abs d) (alert_abs d') \<and> alert_ok d'"
proof (cases listed)
  case (Inr rules)
  with assms(2) obtain s' where
    "evaluate_loop (\<lambda>k. db_alert_port (reporters k) coll (ts k) (scs k)) 0 rules (empty_evaluation\<lparr>ev_Rules := length rules\<rparr>, d) = (s', d')"
    by (auto simp: Evaluate_def split: prod.splits)
  from evaluate_loop_state [OF db_evaluator.alert_evaluator_axioms this] have "alert_steps d d'"
    by (simp add: rules_counted_def empty_evaluation_def)
  then show ?thesis
    using alert_steps_refine alert_steps_ok assms(1) by blast
qed (use assms in \<open>simp add: Evaluate_def\<close>)

text \<open>
  The summary of an evaluation accounts for every rule: each enabled rule that did not fail
  was found to have no candidate run, or was skipped, left unchanged, opened or resolved; the
  listed failures are the counted ones, the error is reported exactly when there is one, and
  the listed events are those of the rules opened and resolved.
\<close>

theorem Evaluate_accounts:
  assumes "Evaluate (Inr rules) (\<lambda>k. db_alert_port (reporters k) coll (ts k) (scs k)) d = (err, s, d')"
  shows "ev_Rules s = length rules \<and> (err = None \<longleftrightarrow> ev_Failed s = 0) \<and> ev_Failed s = length (ev_Failures s) \<and>
    decided s \<le> length rules \<and> length rules \<le> decided s + ev_Failed s \<and> (err = None \<longrightarrow> decided s = length rules) \<and>
    ev_Opened s = length (filter (\<lambda>e. ae_Kind e = AlertEventKindOpened) (ev_Events s)) \<and>
    ev_Resolved s = length (filter (\<lambda>e. ae_Kind e = AlertEventKindResolved) (ev_Events s))"
proof -
  let ?s0 = "empty_evaluation\<lparr>ev_Rules := length rules\<rparr>"
  have e: "evaluate_loop (\<lambda>k. db_alert_port (reporters k) coll (ts k) (scs k)) 0 rules (?s0, d) = (s, d')"
    and err: "err = (if ev_Failed s > 0 then Some SomeRulesFailed else None)"
    using assms by (auto simp: Evaluate_def split: prod.splits)
  have s0: "rules_counted ?s0" "ev_Rules ?s0 = length rules" "ev_Failed ?s0 = 0" "decided ?s0 = 0"
    by (simp_all add: rules_counted_def empty_evaluation_def decided_def)
  from evaluate_loop_state [OF db_evaluator.alert_evaluator_axioms e s0(1)] show ?thesis
    unfolding s0 rules_counted_def by (auto simp: err)
qed

text \<open>
  C14: A rule is opened or resolved only on fresh evidence: when the evaluator counts a rule as
  opened or resolved, the stored rule was still enabled, in the state the transition starts
  from, and had the configuration that was evaluated, whatever other transactions did in the
  meantime; exactly one event is appended, for that rule and the newest run of its repository;
  it opens on a failing report and resolves on a successful one.
\<close>

theorem evaluateRule_fresh:
  assumes "evaluateRule (db_alert_port reporter coll t sc) rule (s, d) = (err, s', d')"
    and "ev_Opened s' + ev_Resolved s' \<noteq> ev_Opened s + ev_Resolved s"
  shows "\<exists>d1 r ev. alert_steps d d1 \<and> moves_on (db_alert_port reporter coll t sc) rule d1 d' r ev"
  by (rule db_evaluator.evaluateRule_moves [OF assms])

text \<open>
  C26: Alerts are decided on the comparisons that do not begin a distribution change. The report
  is taken as it is when no comparison does; otherwise its status follows from the others
  alone, and it is skipped when none is left, so that a declared change of distribution never
  opens nor resolves an alert by itself.
\<close>

theorem automatedAlertReport_status:
  fixes r :: CIReport
  defines "cs \<equiv> drop_boundary (rp_Comparisons r)" and "s \<equiv> rp_Summary r"
  defines "S \<equiv> cp_Status ` set (drop_boundary (rp_Comparisons r))"
  shows "rp_Comparisons (automatedAlertReport r) = cs \<and>
    rp_Status (automatedAlertReport r) =
      (if \<not> list_ex at_boundary (rp_Comparisons r) then rp_Status r
       else if cs = [] then StatusSkipped
       else if su_MissingRuns s > 0 \<or> su_commitlessRuns s > 0 \<or> su_baselineActionErr s > 0 \<or> RowErrored \<in> S
         then StatusActionRequired
       else if RowRegressed \<in> S then StatusFailure
       else if S \<inter> {RowImproved, RowStable} = {} then StatusSkipped else StatusSuccess)"
proof (cases "list_ex at_boundary (rp_Comparisons r)")
  case False
  then show ?thesis
    unfolding cs_def by (simp add: automatedAlertReport_def drop_boundary_length drop_boundary_id)
next
  case True
  show ?thesis
  proof (cases "cs = []")
    case Nil: True
    with True show ?thesis
      by (auto simp: automatedAlertReport_def drop_boundary_length cs_def Let_def)
  next
    case Cons: False
    have st: "rp_Comparisons (automatedAlertReport r) = cs"
      "rp_Status (automatedAlertReport r) = deriveStatus (filtered_report r)"
      using True Cons by (simp_all add: automatedAlertReport_filtered cs_def filtered_report_comparisons Let_def)
    note c = counted_status_iff [OF filtered_report_counted [of r], folded cs_def]
    have S: "set (map cp_Status cs) = S" by (simp add: S_def cs_def)
    note f = filtered_report_other [of r, folded cs_def]
    from True Cons show ?thesis
      unfolding st deriveStatus_def Let_def f c [unfolded S] s_def
      using c [unfolded S] by auto
  qed
qed

section \<open>An undisturbed evaluation\<close>

definition quiet :: "rule_schedule \<Rightarrow> bool" where
  "quiet sc \<longleftrightarrow> sc_io sc = None \<and> sc_before sc = [] \<and> sc_between sc = []"

lemma sql_feq_refl [simp]: "sql_feq x x"
  by (cases x) (simp_all add: sql_feq_def feq_def)

lemma guard_self:
  assumes "alert_ok d" "rule \<in> set (al_rules d)" "ar_Enabled rule"
    and g: "g_ID g = ar_ID rule" "g_State g = ar_State rule" "g_Repository g = ar_Repository rule"
      "g_Baseline g = ar_Baseline rule" "g_Threshold g = ar_Threshold rule" "g_ThresholdZ g = ar_ThresholdZ rule"
      "g_RunReason g = ar_RunReason rule"
  shows "find (guard_holds g) (al_rules d) = Some rule"
proof -
  have "find (\<lambda>r. ar_ID r = ar_ID rule) (al_rules d) = Some rule"
    using find_id [OF alert_okD(1) [OF assms(1)] assms(2)] .
  moreover have "guard_holds g x \<longleftrightarrow> ar_ID x = ar_ID rule" if "x \<in> set (al_rules d)" for x
    using that assms alert_okD(1) [OF assms(1)] by (auto simp: guard_holds_def distinct_map inj_on_def)
  ultimately show ?thesis
    by (metis (mono_tags, lifting) find_cong)
qed

lemma evaluateRule_failure:
  assumes "SelectLatestAlertRun coll t (ar_Repository rule) (ar_RunReason rule) = Inr candidate"
    "reporter (alert_query rule candidate) = Inr (Some report)"
    "rp_Status (automatedAlertReport report) = StatusFailure"
  shows "evaluateRule (db_alert_port reporter coll t sc) rule (s, d) =
    openIfNeeded (db_alert_port reporter coll t sc) rule candidate (automatedAlertReport report)
      (s\<lparr>ev_Evaluated := ev_Evaluated s + 1\<rparr>, d)"
  using assms by (simp add: evaluateRule_def db_alert_port_def Let_def)

lemma transition_quiet:
  assumes ok: "alert_ok d" and rule: "rule \<in> set (al_rules d)" "ar_Enabled rule" "ar_State rule = from"
    and sc: "quiet sc" "sc_genID sc = Inr i" "i \<notin> set (map ae_ID (al_events d))"
  shows "\<exists>tr d' ev. transitionRule (db_alert_port reporter coll t sc) rule candidate report from to kind d = (Inr tr, d') \<and>
    tr_Transitioned tr \<and> tr_Event tr = Some ev \<and> al_events d' = al_events d @ [ev] \<and> ae_Kind ev = kind \<and>
    alert_abs d' = (alert_abs d)(ar_ID rule \<mapsto> (rule_abs (event_kinds d (ar_ID rule) @ [kind]) (rule\<lparr>ar_State := to\<rparr>)))"
proof -
  let ?p = "transition_params (sc_now sc) rule candidate report from to kind"
  have g: "find (guard_holds ?p) (al_rules d) = Some rule"
    using rule by (intro guard_self [OF ok]) (simp_all add: transition_params_def)
  have t: "transitionRule (db_alert_port reporter coll t sc) rule candidate report from to kind d =
      TransitionAlertRule id (Inr i) ?p d"
    using sc by (simp add: transitionRule_def db_alert_port_def db_transition_def Let_def quiet_def id_def)
  show ?thesis
  proof (cases rule: TransitionAlertRule_cases [of id "Inr i" ?p d])
    case (fail e)
    with g sc(3) show ?thesis
      by (auto simp: TransitionAlertRule_def update_rule_def insert_event_def event_row_def transition_event_def
          transition_params_def split: if_splits)
  next
    case stale
    with g show ?thesis by simp
  next
    case (moved r j f)
    have r: "r = rule" using moved(1) g by simp
    have abs: "rule_abs ks (f rule) = rule_abs ks (rule\<lparr>ar_State := to\<rparr>)" for ks
      by (simp add: rule_abs_def rule_config_def moved(2) transition_params_def)
    have id: "g_ID ?p = ar_ID rule" "tp_EventKind ?p = kind" by (simp_all add: transition_params_def)
    show ?thesis
      using transition_abs [OF ok moved(1,2), of j] moved(4)
      unfolding t by (simp add: r abs id) (simp add: event_row_def transition_event_def id)
  qed
qed

text \<open>
  A failing report on the newest run opens an inactive, enabled rule that nobody edits
  meanwhile, logging exactly one event; when the next evaluation finds it still failing, the
  rule stays open and no further event is logged.
\<close>

theorem evaluateRule_opens:
  assumes ok: "alert_ok d" and rule: "rule \<in> set (al_rules d)" "ar_Enabled rule" "ar_State rule = AlertRuleStateInactive"
    and run: "SelectLatestAlertRun coll t (ar_Repository rule) (ar_RunReason rule) = Inr candidate"
    and report: "reporter (alert_query rule candidate) = Inr (Some report)"
      "rp_Status (automatedAlertReport report) = StatusFailure"
    and sc: "quiet sc" "sc_genID sc = Inr i" "i \<notin> set (map ae_ID (al_events d))"
    and first: "evaluateRule (db_alert_port reporter coll t sc) rule (s, d) = (err, s', d')"
    and again: "GetAlertRule (ar_ID rule) d' = Inr rule'" "quiet sc'"
      "evaluateRule (db_alert_port reporter coll t sc') rule' (s', d') = (err', s'', d'')"
  shows "err = None \<and> ev_Opened s' = ev_Opened s + 1 \<and> length (al_events d') = length (al_events d) + 1 \<and>
    a_open (the (alert_abs d' (ar_ID rule))) \<and>
    err' = None \<and> ev_Opened s'' = ev_Opened s' \<and> al_events d'' = al_events d' \<and> alert_abs d'' = alert_abs d'"
proof -
  let ?r = "automatedAlertReport report"
  note f = evaluateRule_failure [of coll t rule candidate reporter report, OF run report]
  obtain tr ev where tr: "transitionRule (db_alert_port reporter coll t sc) rule candidate ?r
      AlertRuleStateInactive AlertRuleStateOpen AlertEventKindOpened d = (Inr tr, d')"
    "tr_Transitioned tr" "tr_Event tr = Some ev" "al_events d' = al_events d @ [ev]"
    and abs: "alert_abs d' = (alert_abs d)(ar_ID rule \<mapsto>
      rule_abs (event_kinds d (ar_ID rule) @ [AlertEventKindOpened]) (rule\<lparr>ar_State := AlertRuleStateOpen\<rparr>))"
    and s': "err = None" "s' = add_event (Some ev) (s\<lparr>ev_Evaluated := ev_Evaluated s + 1, ev_Opened := ev_Opened s + 1\<rparr>)"
    using transition_quiet [OF ok rule sc, of reporter coll t candidate ?r AlertRuleStateOpen AlertEventKindOpened]
      first rule(3) by (auto simp: f openIfNeeded_def)
  have d': "alert_steps d d'"
    using db_evaluator.evaluateRule_state [OF first] by blast
  have ok': "alert_ok d'" using alert_steps_ok [OF d' ok] .
  have found: "find (\<lambda>r. ar_ID r = ar_ID rule) (al_rules d') = Some rule'"
    using again(1) by (auto simp: GetAlertRule_def split: option.splits)
  have rule': "rule_config rule' = rule_config rule" "ar_Enabled rule'" "ar_State rule' = AlertRuleStateOpen"
      "rule' \<in> set (al_rules d')"
    using fun_cong [OF abs, of "ar_ID rule"] rule(2) find_idD [OF found]
    by (auto simp: alert_abs_def found rule_abs_def rule_config_def)
  have same: "alert_query rule' = alert_query rule" "ar_Repository rule' = ar_Repository rule" "ar_RunReason rule' = ar_RunReason rule"
    using rule'(1) by (auto simp: rule_config_def alert_query_def fun_eq_iff)
  have e2: "evaluateRule (db_alert_port reporter coll t sc') rule' (s', d') =
      touchRule (db_alert_port reporter coll t sc') rule' (unchanged (s'\<lparr>ev_Evaluated := ev_Evaluated s' + 1\<rparr>), d')"
    using evaluateRule_failure [of coll t rule' candidate reporter report] run report rule'(3)
    by (simp add: same openIfNeeded_def)
  let ?g = "\<lparr>g_ID = ar_ID rule', g_State = ar_State rule', g_Repository = ar_Repository rule',
            g_Baseline = ar_Baseline rule', g_Threshold = ar_Threshold rule', g_ThresholdZ = ar_ThresholdZ rule',
            g_RunReason = ar_RunReason rule', g_EvaluatedAt = sc_now sc'\<rparr>"
  have "find (guard_holds ?g) (al_rules d') = Some rule'"
    using rule' by (intro guard_self [OF ok']) simp_all
  then have "err' = None" "s'' = unchanged (s'\<lparr>ev_Evaluated := ev_Evaluated s' + 1\<rparr>)"
    "d'' = snd (TouchAlertRuleEvaluation id ?g d')"
    using again(2,3) unfolding e2
    by (auto simp: touchRule_def db_alert_port_def db_touch_def quiet_def TouchAlertRuleEvaluation_def update_rule_def Let_def id_def)
  moreover have "al_events (snd (TouchAlertRuleEvaluation id ?g d')) = al_events d'"
    by (simp add: TouchAlertRuleEvaluation_tables)
  moreover have "alert_abs (snd (TouchAlertRuleEvaluation id ?g d')) = alert_abs d'"
    by (rule touch_abs)
  ultimately show ?thesis
    using tr s' by (simp add: abs rule_abs_def add_event_def unchanged_def)
qed

section \<open>Witnesses\<close>

text \<open>One enabled rule; the reporter finds the status \<open>st\<close>.\<close>

definition demo_rules :: alert_db where
  "demo_rules = exec_stmt (demo_create ''1'') no_alerts"

definition demo_alert_report :: "CIReportStatus \<Rightarrow> CIReport" where
  "demo_alert_report st = \<lparr>rp_Repository = ''r'', rp_CommitSHA = None, rp_SelectedRunIDs = [], rp_MissingRunIDs = [],
     rp_Baseline = ''parent'', rp_Status = st, rp_StatusReason = [], rp_Threshold = Fin 5, rp_ThresholdZ = Fin 5,
     rp_Summary = zero_summary, rp_Runs = [], rp_ReportURL = [], rp_Comparisons = []\<rparr>"

definition demo_sc :: "string \<Rightarrow> rule_schedule" where
  "demo_sc i = \<lparr>sc_now = 7, sc_io = None, sc_before = [], sc_between = [], sc_genID = Inr i\<rparr>"

definition demo_port :: "CIReportStatus \<Rightarrow> string \<Rightarrow> alert_port" where
  "demo_port st i = db_alert_port (\<lambda>_. Inr (Some (demo_alert_report st))) byte_collation demo_report_db (demo_sc i)"

definition demo_rule :: AlertRule where
  "demo_rule = hd (al_rules demo_rules)"

definition demo_eval :: "evaluate_error option \<times> AlertEvaluationSummary \<times> alert_db" where
  "demo_eval = Evaluate (Inr [demo_rule]) (\<lambda>_. demo_port StatusFailure ''e'') demo_rules"

lemma demo_rules_steps: "alert_steps no_alerts demo_rules"
  using exec_stmt_step by (auto simp: demo_rules_def)

lemma demo_rules_ok: "alert_ok demo_rules"
  using alert_steps_ok [OF demo_rules_steps] by simp

lemma demo_eval_view:
  "(case demo_eval of (err, s, d) \<Rightarrow> (err, ev_Opened s, length (al_events d), map ar_State (al_rules d))) =
     (None, 1, 1, [''open''])"
  by code_simp

theorem Evaluate_refines_witness:
  "\<exists>err s d. Evaluate (Inr [demo_rule]) (\<lambda>k. demo_port StatusFailure ''e'') demo_rules = (err, s, d) \<and>
     map ar_State (al_rules d) = [''open''] \<and> spec_step\<^sup>*\<^sup>* (alert_abs demo_rules) (alert_abs d)"
proof -
  obtain err s d where e: "Evaluate (Inr [demo_rule]) (\<lambda>k. demo_port StatusFailure ''e'') demo_rules = (err, s, d)"
    by (cases "Evaluate (Inr [demo_rule]) (\<lambda>k. demo_port StatusFailure ''e'') demo_rules")
  have "map ar_State (al_rules d) = [''open'']"
    using demo_eval_view e by (simp add: demo_eval_def)
  moreover have "spec_step\<^sup>*\<^sup>* (alert_abs demo_rules) (alert_abs d)"
    using Evaluate_refines [OF demo_rules_ok e [unfolded demo_port_def]] ..
  ultimately show ?thesis using e by (intro exI conjI)
qed

theorem Evaluate_accounts_witness:
  "\<exists>err s d. Evaluate (Inr [demo_rule]) (\<lambda>k. demo_port StatusFailure ''e'') demo_rules = (err, s, d) \<and>
     err = None \<and> decided s = 1 \<and> ev_Opened s = 1"
proof -
  obtain err s d where e: "Evaluate (Inr [demo_rule]) (\<lambda>k. demo_port StatusFailure ''e'') demo_rules = (err, s, d)"
    by (cases "Evaluate (Inr [demo_rule]) (\<lambda>k. demo_port StatusFailure ''e'') demo_rules")
  have "err = None" "ev_Opened s = 1"
    using demo_eval_view e by (simp_all add: demo_eval_def)
  with e Evaluate_accounts [OF e [unfolded demo_port_def]] show ?thesis by auto
qed

lemma demo_evaluateRule_view:
  "(case evaluateRule (demo_port StatusFailure ''e'') demo_rule (empty_evaluation, demo_rules) of (err, s, d) \<Rightarrow>
     (ev_Opened s, ev_Resolved s)) = (1, 0)"
  by code_simp

theorem evaluateRule_fresh_witness:
  "\<exists>d1 d' r ev. alert_steps demo_rules d1 \<and> moves_on (demo_port StatusFailure ''e'') demo_rule d1 d' r ev"
proof -
  obtain err s d where e: "evaluateRule (demo_port StatusFailure ''e'') demo_rule (empty_evaluation, demo_rules) = (err, s, d)"
    by (cases "evaluateRule (demo_port StatusFailure ''e'') demo_rule (empty_evaluation, demo_rules)")
  have "ev_Opened s + ev_Resolved s \<noteq> ev_Opened empty_evaluation + ev_Resolved empty_evaluation"
    using demo_evaluateRule_view e by (simp add: empty_evaluation_def)
  from evaluateRule_fresh [OF e [unfolded demo_port_def] this] show ?thesis
    by (auto simp: demo_port_def)
qed

lemma demo_rule_facts:
  "al_rules demo_rules = [demo_rule]" "ar_Enabled demo_rule" "ar_State demo_rule = AlertRuleStateInactive"
  "al_events demo_rules = []"
  by code_simp+

lemma demo_candidate:
  "\<exists>c. SelectLatestAlertRun byte_collation demo_report_db (ar_Repository demo_rule) (ar_RunReason demo_rule) = Inr c"
proof -
  have "(case SelectLatestAlertRun byte_collation demo_report_db (ar_Repository demo_rule) (ar_RunReason demo_rule) of
      Inl _ \<Rightarrow> False | Inr _ \<Rightarrow> True)"
    by code_simp
  then show ?thesis by (auto split: sum.splits)
qed

lemma demo_refound:
  "(case evaluateRule (demo_port StatusFailure ''e'') demo_rule (empty_evaluation, demo_rules) of (err, s, d) \<Rightarrow>
     (case GetAlertRule (ar_ID demo_rule) d of Inl _ \<Rightarrow> False | Inr _ \<Rightarrow> True))"
  by code_simp

theorem evaluateRule_opens_witness:
  "\<exists>s' d'. evaluateRule (demo_port StatusFailure ''e'') demo_rule (empty_evaluation, demo_rules) = (None, s', d') \<and>
     length (al_events d') = 1 \<and> a_open (the (alert_abs d' (ar_ID demo_rule)))"
proof -
  obtain err s d where e: "evaluateRule (demo_port StatusFailure ''e'') demo_rule (empty_evaluation, demo_rules) = (err, s, d)"
    by (cases "evaluateRule (demo_port StatusFailure ''e'') demo_rule (empty_evaluation, demo_rules)")
  obtain r where r: "GetAlertRule (ar_ID demo_rule) d = Inr r"
    using demo_refound e by (auto split: sum.splits)
  obtain err' s' d' where e': "evaluateRule (demo_port StatusFailure ''e'') r (s, d) = (err', s', d')"
    by (cases "evaluateRule (demo_port StatusFailure ''e'') r (s, d)")
  obtain c where c: "SelectLatestAlertRun byte_collation demo_report_db (ar_Repository demo_rule) (ar_RunReason demo_rule) = Inr c"
    using demo_candidate ..
  have q: "quiet (demo_sc ''e'')" by (simp add: quiet_def demo_sc_def)
  have st: "rp_Status (automatedAlertReport (demo_alert_report StatusFailure)) = StatusFailure"
    by (simp add: automatedAlertReport_def demo_alert_report_def drop_boundary_def)
  have "err = None \<and> length (al_events d) = length (al_events demo_rules) + 1 \<and> a_open (the (alert_abs d (ar_ID demo_rule)))"
    using evaluateRule_opens [OF demo_rules_ok _ demo_rule_facts(2,3) c _ st q _ _ e [unfolded demo_port_def] r q
        e' [unfolded demo_port_def]]
    by (simp add: demo_rule_facts demo_sc_def)
  with e show ?thesis by (simp add: demo_rule_facts)
qed

end
