(* ===== verification/AlertDelivery.thy ===== *)
theory AlertDelivery
  imports AlertMachine
begin

text \<open>
  \<^verbatim>\<open>internal/service/alert_delivery.go\<close>: the dispatcher that enqueues the missing deliveries of
  stored events, claims due ones one at a time, sends them and records the outcome, and the
  parts of the senders that are plain functions of the event. What a sender does on the network
  is a parameter; its error is a string.
\<close>

section \<open>The dispatcher\<close>

definition AlertDeliveryChannelWebhook :: string where "AlertDeliveryChannelWebhook = ''webhook''"
definition AlertDeliveryChannelSlack :: string where "AlertDeliveryChannelSlack = ''slack''"
definition AlertDeliveryChannelGitHubCheck :: string where "AlertDeliveryChannelGitHubCheck = ''github-check''"
definition AlertDeliveryChannelGitHubComment :: string where "AlertDeliveryChannelGitHubComment = ''github-comment''"
definition AlertDeliveryChannelEmail :: string where "AlertDeliveryChannelEmail = ''email''"

record AlertDeliveryOptions =
  do_Channel :: string
  do_Target :: string
  do_Limit :: int
  do_RetryAfter :: int

record AlertDeliveryFailure =
  df_DeliveryID :: string
  df_EventID :: string
  df_Error :: string

record AlertDeliverySummary =
  ds_Enqueued :: nat
  ds_Attempted :: nat
  ds_Delivered :: nat
  ds_Failed :: nat
  ds_Failures :: "AlertDeliveryFailure list"

record AlertDeliveryEvent =
  dv_ID :: string
  dv_RuleID :: string
  dv_Kind :: string
  dv_Status :: string
  dv_StatusReason :: string
  dv_RunID :: "string ptr"
  dv_CommitSHA :: "string ptr"
  dv_Repository :: string
  dv_ReportURL :: string
  dv_Summary :: json
  dv_CreatedAt :: time

record AlertDeliveryPayload =
  pl_DeliveryID :: string
  pl_Channel :: string
  pl_Target :: string
  pl_Event :: AlertDeliveryEvent

definition rawJSONOrNull :: "json ptr \<Rightarrow> json" where
  "rawJSONOrNull b = (case b of None \<Rightarrow> JNull | Some j \<Rightarrow> j)"

definition alertDeliveryEventOf :: "AlertEvent \<Rightarrow> AlertDeliveryEvent" where
  "alertDeliveryEventOf e = \<lparr>dv_ID = ae_ID e, dv_RuleID = ae_RuleID e, dv_Kind = ae_Kind e, dv_Status = ae_Status e,
     dv_StatusReason = ae_StatusReason e, dv_RunID = ae_RunID e, dv_CommitSHA = ae_CommitSHA e,
     dv_Repository = ae_Repository e, dv_ReportURL = ae_ReportURL e, dv_Summary = rawJSONOrNull (ae_Summary e),
     dv_CreatedAt = ae_CreatedAt e\<rparr>"

text \<open>What one round of the loop calls: the clock at the claim and at the outcome, the store and
  the sender.\<close>

record delivery_port =
  dp_claimAt :: time
  dp_attemptedAt :: time
  dp_Claim :: "ClaimParams \<Rightarrow> alert_db \<Rightarrow> (AlertDelivery \<times> AlertEvent) list result \<times> alert_db"
  dp_MarkFailed :: "string \<Rightarrow> string \<Rightarrow> time \<Rightarrow> time \<Rightarrow> alert_db \<Rightarrow> AlertDelivery result \<times> alert_db"
  dp_MarkDelivered :: "string \<Rightarrow> time \<Rightarrow> alert_db \<Rightarrow> AlertDelivery result \<times> alert_db"
  dp_Send :: "AlertDeliveryPayload \<Rightarrow> string option"

definition payload_of :: "AlertDelivery \<times> AlertEvent \<Rightarrow> AlertDeliveryPayload" where
  "payload_of x = \<lparr>pl_DeliveryID = ad_ID (fst x), pl_Channel = ad_Channel (fst x), pl_Target = ad_Target (fst x),
     pl_Event = alertDeliveryEventOf (snd x)\<rparr>"

datatype deliver_error = DeliverStore db_error | SomeDeliveriesFailed

text \<open>The loop; \<open>remaining\<close> counts down from the limit.\<close>

fun deliver_loop ::
  "AlertDeliveryOptions \<Rightarrow> (nat \<Rightarrow> delivery_port) \<Rightarrow> nat \<Rightarrow> AlertDeliverySummary \<Rightarrow> alert_db \<Rightarrow>
   (AlertDeliverySummary \<times> db_error option) \<times> alert_db" where
  "deliver_loop opts ports 0 s d = ((s, None), d)"
| "deliver_loop opts ports (Suc remaining) s d =
     (let port = ports remaining;
          params = \<lparr>cl_Channel = do_Channel opts, cl_Target = do_Target opts, cl_Now = dp_claimAt port,
            cl_LeaseUntil = dp_claimAt port + do_RetryAfter opts, cl_Limit = 1\<rparr>
      in case dp_Claim port params d of
           (Inl e, d1) \<Rightarrow> ((s, Some e), d1)
         | (Inr [], d1) \<Rightarrow> ((s, None), d1)
         | (Inr (x # _), d1) \<Rightarrow>
             (let s1 = s\<lparr>ds_Attempted := ds_Attempted s + 1\<rparr> in
              case dp_Send port (payload_of x) of
                Some err \<Rightarrow>
                  (let s2 = s1\<lparr>ds_Failed := ds_Failed s1 + 1,
                         ds_Failures := ds_Failures s1 @ [\<lparr>df_DeliveryID = ad_ID (fst x), df_EventID = ad_EventID (fst x), df_Error = err\<rparr>]\<rparr>
                   in case dp_MarkFailed port (ad_ID (fst x)) err (dp_attemptedAt port)
                             (dp_attemptedAt port + do_RetryAfter opts) d1 of
                        (Inl e, d2) \<Rightarrow> ((s2, Some e), d2)
                      | (Inr _, d2) \<Rightarrow> deliver_loop opts ports remaining s2 d2)
              | None \<Rightarrow>
                  (case dp_MarkDelivered port (ad_ID (fst x)) (dp_attemptedAt port) d1 of
                     (Inl e, d2) \<Rightarrow> ((s1, Some e), d2)
                   | (Inr _, d2) \<Rightarrow> deliver_loop opts ports remaining (s1\<lparr>ds_Delivered := ds_Delivered s1 + 1\<rparr>) d2)))"

definition empty_delivery_summary :: AlertDeliverySummary where
  "empty_delivery_summary = \<lparr>ds_Enqueued = 0, ds_Attempted = 0, ds_Delivered = 0, ds_Failed = 0, ds_Failures = []\<rparr>"

definition Deliver ::
  "(EnqueueParams \<Rightarrow> alert_db \<Rightarrow> (nat \<times> db_error option) \<times> alert_db) \<Rightarrow> time \<Rightarrow> (nat \<Rightarrow> delivery_port) \<Rightarrow>
   AlertDeliveryOptions \<Rightarrow> alert_db \<Rightarrow> (AlertDeliverySummary \<times> deliver_error option) \<times> alert_db" where
  "Deliver enqueue now ports opts d =
     (case enqueue \<lparr>eq_Channel = do_Channel opts, eq_Target = do_Target opts, eq_Limit = do_Limit opts, eq_CreatedAt = now\<rparr> d of
        ((_, Some e), d1) \<Rightarrow> ((empty_delivery_summary, Some (DeliverStore e)), d1)
      | ((n, None), d1) \<Rightarrow>
          (case deliver_loop opts ports (nat (do_Limit opts)) (empty_delivery_summary\<lparr>ds_Enqueued := n\<rparr>) d1 of
             ((s, Some e), d2) \<Rightarrow> ((s, Some (DeliverStore e)), d2)
           | ((s, None), d2) \<Rightarrow> ((s, if ds_Failed s > 0 then Some SomeDeliveriesFailed else None), d2)))"

section \<open>Senders\<close>

definition githubCheckConclusion :: "string \<Rightarrow> string" where
  "githubCheckConclusion status =
     (if status = ''success'' then ''success'' else if status = ''failure'' then ''failure'' else ''neutral'')"

definition githubCheckSummary :: "AlertDeliveryEvent \<Rightarrow> string" where
  "githubCheckSummary e =
     dv_StatusReason e @
     (if dv_ReportURL e \<noteq> [] then [CHR 0x0A, CHR 0x0A] @ ''Report: '' @ dv_ReportURL e else []) @
     (case dv_RunID e of None \<Rightarrow> [] | Some r \<Rightarrow> if r \<noteq> [] then [CHR 0x0A] @ ''Run: '' @ r else [])"

definition sanitizeEmailHeader :: "string \<Rightarrow> string" where
  "sanitizeEmailHeader s = map (\<lambda>c. if c = CHR 0x0D \<or> c = CHR 0x0A then CHR '' '' else c) s"

text \<open>A context deadline is \<open>None\<close> when there is none; a timeout that is not positive is no timeout.\<close>

definition emailAlertDeliveryDeadline :: "time option \<Rightarrow> int \<Rightarrow> time \<Rightarrow> time option" where
  "emailAlertDeliveryDeadline deadline timeout now =
     (if timeout \<le> 0 then deadline
      else case deadline of None \<Rightarrow> Some (now + timeout)
      | Some t \<Rightarrow> (if now + timeout < t then Some (now + timeout) else Some t))"

definition smtpAuth :: "string \<Rightarrow> string \<Rightarrow> string + (string \<times> string) option" where
  "smtpAuth username password =
     (if username = [] \<and> password = [] then Inr None
      else if username = [] \<or> password = [] then Inl ''email username and password must be set together''
      else Inr (Some (username, password)))"

section \<open>Leases\<close>

text \<open>A delivery is held until \<open>L\<close> when it is delivered or not to be attempted before.\<close>

definition held :: "string \<Rightarrow> time \<Rightarrow> alert_db \<Rightarrow> bool" where
  "held i L d \<longleftrightarrow> (\<forall>x \<in> set (al_deliveries d). ad_ID x = i \<longrightarrow>
     ad_Status x = DeliveryDelivered \<or> (\<exists>t. ad_NextAttemptAt x = Some t \<and> L \<le> t))"

text \<open>The statements another process may issue: it records no outcome of this delivery, draws
  fresh ids and leases for a time that is not negative.\<close>

fun leaves_alone :: "string \<Rightarrow> alert_stmt \<Rightarrow> bool" where
  "leaves_alone i (SFailed j _ _ _) = (j \<noteq> i)"
| "leaves_alone i (SEnqueue j _ _ _ _) = (j \<noteq> i)"
| "leaves_alone i (SClaim _ _ c) = (cl_Now c \<le> cl_LeaseUntil c)"
| "leaves_alone i _ = True"

lemma held_map:
  assumes "held i L d" and "\<And>x. x \<in> set (al_deliveries d) \<Longrightarrow> ad_ID (f x) = ad_ID x"
    and "\<And>x t. x \<in> set (al_deliveries d) \<Longrightarrow> ad_ID x = i \<Longrightarrow> ad_Status x = DeliveryDelivered \<or> ad_NextAttemptAt x = Some t \<and> L \<le> t \<Longrightarrow>
      ad_Status (f x) = DeliveryDelivered \<or> (\<exists>t. ad_NextAttemptAt (f x) = Some t \<and> L \<le> t)"
  shows "held i L (d\<lparr>al_deliveries := map f (al_deliveries d)\<rparr>)"
  using assms unfolding held_def by (auto; metis)

lemma held_same: "al_deliveries d' = al_deliveries d \<Longrightarrow> held i L d' = held i L d"
  by (simp add: held_def)

lemma held_subset: "set (al_deliveries d') \<subseteq> set (al_deliveries d) \<Longrightarrow> held i L d \<Longrightarrow> held i L d'"
  by (auto simp: held_def)

lemma rules_keep_deliveries:
  "al_deliveries (snd (CreateAlertRule users genID p d)) = al_deliveries d"
  "al_deliveries (snd (UpdateAlertRule up d)) = al_deliveries d"
  "al_deliveries (snd (TouchAlertRuleEvaluation id g d)) = al_deliveries d"
  "al_deliveries (snd (TransitionAlertRule id genID tp d)) = al_deliveries d"
proof -
  show "al_deliveries (snd (CreateAlertRule users genID p d)) = al_deliveries d"
    by (cases rule: CreateAlertRule_cases [of users genID p d]) simp_all
  show "al_deliveries (snd (TransitionAlertRule id genID tp d)) = al_deliveries d"
    by (cases rule: TransitionAlertRule_cases [of id genID tp d]) simp_all
qed (simp_all add: UpdateAlertRule_tables TouchAlertRuleEvaluation_tables)

lemma exec_stmt_held:
  assumes "held i L d" "leaves_alone i s"
  shows "held i L (exec_stmt s d)"
proof (cases s)
  case (SDelete j u)
  have "set (al_deliveries (snd (DeleteAlertRule j u d))) \<subseteq> set (al_deliveries d)"
    by (auto simp: DeleteAlertRule_def Let_def)
  with SDelete assms(1) show ?thesis by (auto intro: held_subset)
next
  case (SEnqueue j e c t now)
  with assms show ?thesis
    by (auto simp: InsertAlertDelivery_def held_def new_delivery_def)
next
  case (SClaim coll locked c)
  show ?thesis
  proof (cases rule: ClaimPendingAlertDeliveries_cases [of coll locked c d])
    case (fail e)
    with SClaim assms(1) show ?thesis by simp
  next
    case (ok xs)
    have "held i L (d\<lparr>al_deliveries := map (\<lambda>x. if ad_ID x \<in> ad_ID ` set xs then lease c x else x) (al_deliveries d)\<rparr>)"
    proof (rule held_map [OF assms(1)])
      fix x :: AlertDelivery and t
      assume x: "ad_ID x = i" and h: "ad_Status x = DeliveryDelivered \<or> ad_NextAttemptAt x = Some t \<and> L \<le> t"
      show "ad_Status (if ad_ID x \<in> ad_ID ` set xs then lease c x else x) = DeliveryDelivered \<or>
        (\<exists>t. ad_NextAttemptAt (if ad_ID x \<in> ad_ID ` set xs then lease c x else x) = Some t \<and> L \<le> t)"
      proof (cases "ad_ID x \<in> ad_ID ` set xs")
        case True
        then obtain y where y: "y \<in> set xs" "ad_ID y = i" using x by auto
        then have "y \<in> set (al_deliveries d)" "due c y"
          by (auto simp: ok(1) dest!: in_set_takeD)
        with assms(1) y(2) have "L \<le> cl_Now c"
          by (auto simp: held_def due_def split: option.splits)
        with assms(2) SClaim True show ?thesis by simp
      qed (use h in auto)
    qed simp
    with SClaim ok(4) show ?thesis by simp
  qed
next
  case (SDelivered j t)
  then show ?thesis
    unfolding SDelivered exec_stmt.simps MarkAlertDeliveryDelivered_def update_delivery_tables
    by (intro held_map [OF assms(1)]) auto
next
  case (SFailed j e t t')
  with assms(2) show ?thesis
    unfolding SFailed exec_stmt.simps MarkAlertDeliveryFailed_def update_delivery_tables
    by (intro held_map [OF assms(1)]) auto
qed (use assms(1) in \<open>simp_all add: held_def rules_keep_deliveries\<close>)

lemma schedule_held:
  "held i L d \<Longrightarrow> (\<And>s. s \<in> set stmts \<Longrightarrow> leaves_alone i s) \<Longrightarrow> held i L (fold exec_stmt stmts d)"
  by (induction stmts arbitrary: d) (auto intro: exec_stmt_held)

lemma in_map_filter: "y \<in> set (List.map_filter f xs) \<longleftrightarrow> (\<exists>x \<in> set xs. f x = Some y)"
  by (force simp: List.map_filter_def)

lemma claimed_due:
  assumes "ClaimPendingAlertDeliveries coll locked p d = (Inr rows, d')" "(x, e) \<in> set rows"
  obtains y where "y \<in> set (al_deliveries d)" "due p y" "\<not> locked (ad_ID y)" "x = lease p y"
proof (cases rule: ClaimPendingAlertDeliveries_cases [of coll locked p d])
  case (ok xs)
  with assms obtain y where "y \<in> set xs" "x = lease p y"
    by (auto simp: in_map_filter)
  then show ?thesis
    using that by (auto simp: ok(1) dest!: in_set_takeD)
qed (use assms in simp)

lemma held_not_due: "held i L d \<Longrightarrow> y \<in> set (al_deliveries d) \<Longrightarrow> ad_ID y = i \<Longrightarrow> cl_Now p < L \<Longrightarrow> \<not> due p y"
  by (auto simp: held_def due_def split: option.splits)

lemma claim_holds:
  assumes "alert_ok d" "ClaimPendingAlertDeliveries coll locked p d = (Inr rows, d')" "(x, e) \<in> set rows"
  shows "held (ad_ID x) (cl_LeaseUntil p) d'"
proof (cases rule: ClaimPendingAlertDeliveries_cases [of coll locked p d])
  case (ok xs)
  with assms obtain y where y: "y \<in> set xs" "x = lease p y"
    by (auto simp: in_map_filter)
  then have "ad_ID x \<in> ad_ID ` set xs" by auto
  with ok assms(2) show ?thesis by (auto simp: held_def)
qed (use assms in simp)
definition finished :: "string \<Rightarrow> alert_db \<Rightarrow> bool" where
  "finished i d \<longleftrightarrow> (\<forall>x \<in> set (al_deliveries d). ad_ID x = i \<longrightarrow> ad_Status x = DeliveryDelivered)"

lemma finished_map:
  assumes "\<And>x. ad_ID x = i \<Longrightarrow> ad_Status (f x) = DeliveryDelivered" "\<And>x. ad_ID (f x) = ad_ID x"
  shows "finished i (d\<lparr>al_deliveries := map f (al_deliveries d)\<rparr>)"
  unfolding finished_def
proof (intro ballI impI)
  fix x assume "x \<in> set (al_deliveries (d\<lparr>al_deliveries := map f (al_deliveries d)\<rparr>))" and i: "ad_ID x = i"
  then obtain y where "x = f y" by auto
  with assms i show "ad_Status x = DeliveryDelivered" by metis
qed

fun enqueues :: "string \<Rightarrow> alert_stmt \<Rightarrow> bool" where
  "enqueues i (SEnqueue j _ _ _ _) = (j = i)"
| "enqueues i _ = False"

lemma exec_stmt_finished:
  assumes "finished i d" "\<not> enqueues i s"
  shows "finished i (exec_stmt s d)"
proof (cases s)
  case (SDelete j u)
  have "set (al_deliveries (snd (DeleteAlertRule j u d))) \<subseteq> set (al_deliveries d)"
    by (auto simp: DeleteAlertRule_def Let_def)
  with SDelete assms(1) show ?thesis by (auto simp: finished_def)
next
  case (SEnqueue j e c t now)
  with assms show ?thesis
    by (auto simp: InsertAlertDelivery_def finished_def new_delivery_def)
next
  case (SClaim coll locked c)
  show ?thesis
  proof (cases rule: ClaimPendingAlertDeliveries_cases [of coll locked c d])
    case (ok xs)
    with SClaim assms(1) show ?thesis by (auto simp: finished_def)
  qed (use SClaim assms(1) in simp)
next
  case (SDelivered j t)
  with assms(1) show ?thesis
    by (auto simp: MarkAlertDeliveryDelivered_def update_delivery_tables finished_def)
next
  case (SFailed j e t t')
  with assms(1) show ?thesis
    by (auto simp: MarkAlertDeliveryFailed_def update_delivery_tables finished_def)
qed (use assms(1) in \<open>simp_all add: finished_def rules_keep_deliveries\<close>)

lemma schedule_finished:
  "finished i d \<Longrightarrow> (\<And>s. s \<in> set stmts \<Longrightarrow> \<not> enqueues i s) \<Longrightarrow> finished i (fold exec_stmt stmts d)"
  by (induction stmts arbitrary: d) (auto intro: exec_stmt_finished)

section \<open>The interface of the dispatcher\<close>

text \<open>A store of deliveries: a claimed delivery is not claimed again before its lease ends.\<close>

locale delivery_store =
  fixes claim :: "ClaimParams \<Rightarrow> 'st \<Rightarrow> (AlertDelivery \<times> AlertEvent) list result \<times> 'st"
    and held_until :: "string \<Rightarrow> time \<Rightarrow> 'st \<Rightarrow> bool" and ok :: "'st \<Rightarrow> bool"
  assumes claim_held: "ok d \<Longrightarrow> claim p d = (Inr rows, d') \<Longrightarrow> (x, e) \<in> set rows \<Longrightarrow> held_until (ad_ID x) (cl_LeaseUntil p) d'"
    and held_hidden: "held_until i L d \<Longrightarrow> claim p d = (Inr rows, d') \<Longrightarrow> (x, e) \<in> set rows \<Longrightarrow> cl_Now p < L \<Longrightarrow> ad_ID x \<noteq> i"
begin

lemma claims_disjoint:
  assumes "ok d" "claim p d = (Inr rows, d1)" "\<And>i. held_until i (cl_LeaseUntil p) d1 \<Longrightarrow> held_until i (cl_LeaseUntil p) d2"
    and "claim p2 d2 = (Inr rows2, d3)" "cl_Now p2 < cl_LeaseUntil p"
  shows "(ad_ID \<circ> fst) ` set rows \<inter> (ad_ID \<circ> fst) ` set rows2 = {}"
  using assms(1,2,4,5) claim_held held_hidden assms(3) by fastforce

end

interpretation db_deliveries: delivery_store "ClaimPendingAlertDeliveries coll locked" held alert_ok
  for coll locked
proof
  fix d p rows d' x e i L
  assume "held i L d" "ClaimPendingAlertDeliveries coll locked p d = (Inr rows, d')" "(x, e) \<in> set rows" "cl_Now p < L"
  then show "ad_ID x \<noteq> i"
    using claimed_due [of coll locked p d rows d' x e] held_not_due by (metis lease_simps(1))
qed (rule claim_holds)

lemma deliver_loop_counts:
  assumes "deliver_loop opts ports n s d = ((s', err), d')" "ds_Failed s = length (ds_Failures s)"
    "ds_Attempted s = ds_Delivered s + ds_Failed s"
  shows "ds_Enqueued s' = ds_Enqueued s \<and> ds_Failed s' = length (ds_Failures s') \<and> ds_Attempted s' \<le> ds_Attempted s + n \<and>
    ds_Delivered s' + ds_Failed s' \<le> ds_Attempted s' \<and> ds_Attempted s' \<le> ds_Delivered s' + ds_Failed s' + 1 \<and>
    (err = None \<longrightarrow> ds_Attempted s' = ds_Delivered s' + ds_Failed s')"
  using assms
proof (induction n arbitrary: s d)
  case (Suc n)
  let ?p = "\<lparr>cl_Channel = do_Channel opts, cl_Target = do_Target opts, cl_Now = dp_claimAt (ports n),
            cl_LeaseUntil = dp_claimAt (ports n) + do_RetryAfter opts, cl_Limit = 1\<rparr>"
  obtain r d1 where c: "dp_Claim (ports n) ?p d = (r, d1)" by (cases "dp_Claim (ports n) ?p d")
  show ?case
  proof (cases r)
    case (Inl e)
    with Suc.prems c show ?thesis by auto
  next
    case (Inr rows)
    show ?thesis
    proof (cases rows)
      case Nil
      with Suc.prems c Inr show ?thesis by auto
    next
      case (Cons x xs)
      show ?thesis
      proof (cases "dp_Send (ports n) (payload_of x)")
        case None
        obtain m d2 where m: "dp_MarkDelivered (ports n) (ad_ID (fst x)) (dp_attemptedAt (ports n)) d1 = (m, d2)"
          by (cases "dp_MarkDelivered (ports n) (ad_ID (fst x)) (dp_attemptedAt (ports n)) d1")
        show ?thesis
        proof (cases m)
          case (Inl e)
          with Suc.prems c Inr Cons None m show ?thesis by auto
        next
          case Inr': (Inr u)
          let ?s = "s\<lparr>ds_Attempted := ds_Attempted s + 1, ds_Delivered := ds_Delivered s + 1\<rparr>"
          have "deliver_loop opts ports n ?s d2 = ((s', err), d')"
            using Suc.prems(1) c Inr Cons None m Inr' by simp
          from Suc.IH [OF this] Suc.prems(2,3) show ?thesis by auto
        qed
      next
        case (Some er)
        let ?t = "dp_attemptedAt (ports n)"
        obtain m d2 where m: "dp_MarkFailed (ports n) (ad_ID (fst x)) er ?t (?t + do_RetryAfter opts) d1 = (m, d2)"
          by (cases "dp_MarkFailed (ports n) (ad_ID (fst x)) er ?t (?t + do_RetryAfter opts) d1")
        show ?thesis
        proof (cases m)
          case (Inl e)
          with Suc.prems c Inr Cons Some m show ?thesis by auto
        next
          case Inr': (Inr u)
          let ?s = "s\<lparr>ds_Attempted := ds_Attempted s + 1, ds_Failed := ds_Failed s + 1,
            ds_Failures := ds_Failures s @ [\<lparr>df_DeliveryID = ad_ID (fst x), df_EventID = ad_EventID (fst x), df_Error = er\<rparr>]\<rparr>"
          have "deliver_loop opts ports n ?s d2 = ((s', err), d')"
            using Suc.prems(1) c Inr Cons Some m Inr' by simp
          from Suc.IH [OF this] Suc.prems(2,3) show ?thesis by auto
        qed
      qed
    qed
  qed
qed simp

section \<open>Properties\<close>

text \<open>
  C15: A claimed delivery is exclusive: whatever other processes do to the alert tables before
  the lease ends, no claim in that time returns a delivery of the first claim again, so that
  overlapping runs never send the same notification; they may claim, enqueue, edit rules, and
  record outcomes of other deliveries.
\<close>

theorem claim_exclusive:
  assumes "alert_ok d" "ClaimPendingAlertDeliveries coll locked p d = (Inr rows, d1)"
    and "\<And>s i. s \<in> set stmts \<Longrightarrow> i \<in> (ad_ID \<circ> fst) ` set rows \<Longrightarrow> leaves_alone i s"
    and "ClaimPendingAlertDeliveries coll locked p2 (fold exec_stmt stmts d1) = (Inr rows2, d3)"
    and "cl_Now p2 < cl_LeaseUntil p"
  shows "(ad_ID \<circ> fst) ` set rows \<inter> (ad_ID \<circ> fst) ` set rows2 = {}"
proof (rule ccontr)
  assume "\<not> ?thesis"
  then obtain x e y e2 where x: "(x, e) \<in> set rows" and y: "(y, e2) \<in> set rows2" and eq: "ad_ID x = ad_ID y"
    by auto
  have "held (ad_ID x) (cl_LeaseUntil p) (fold exec_stmt stmts d1)"
    using x assms(3) by (intro schedule_held db_deliveries.claim_held [OF assms(1,2) x]) force
  with db_deliveries.held_hidden [OF this assms(4) y assms(5)] eq show False by simp
qed

definition demo_pending :: alert_db where
  "demo_pending = fold exec_stmt [demo_create ''1'', SOpen (Inr ''e1'') (demo_transition ''1''),
     SEnqueue ''d1'' ''e1'' ''slack'' ''t'' 3] no_alerts"

definition demo_claim :: "time \<Rightarrow> ClaimParams" where
  "demo_claim now = \<lparr>cl_Channel = ''slack'', cl_Target = ''t'', cl_Now = now, cl_LeaseUntil = now + 10, cl_Limit = 1\<rparr>"

lemma demo_pending_ok: "alert_ok demo_pending"
  unfolding demo_pending_def by (rule alert_steps_ok [OF schedule_steps no_alerts_ok])

lemma demo_claim_view:
  "(case ClaimPendingAlertDeliveries byte_collation (\<lambda>_. False) (demo_claim 5) demo_pending of
     (Inl _, _) \<Rightarrow> None | (Inr rows, _) \<Rightarrow> Some (map (ad_ID \<circ> fst) rows)) = Some [''d1'']"
  by code_simp

lemma demo_claim_later:
  "(case ClaimPendingAlertDeliveries byte_collation (\<lambda>_. False) (demo_claim 5) demo_pending of (_, d) \<Rightarrow>
    (case ClaimPendingAlertDeliveries byte_collation (\<lambda>_. False) (demo_claim 9) (fold exec_stmt [demo_create ''2''] d) of
       (Inl _, _) \<Rightarrow> False | (Inr rows, _) \<Rightarrow> True))"
  by code_simp

theorem claim_exclusive_witness:
  "\<exists>rows d1 rows2 d3. ClaimPendingAlertDeliveries byte_collation (\<lambda>_. False) (demo_claim 5) demo_pending = (Inr rows, d1) \<and>
     map (ad_ID \<circ> fst) rows = [''d1''] \<and>
     ClaimPendingAlertDeliveries byte_collation (\<lambda>_. False) (demo_claim 9) (fold exec_stmt [demo_create ''2''] d1) = (Inr rows2, d3) \<and>
     ''d1'' \<notin> (ad_ID \<circ> fst) ` set rows2"
proof -
  obtain rows d1 where 1: "ClaimPendingAlertDeliveries byte_collation (\<lambda>_. False) (demo_claim 5) demo_pending = (Inr rows, d1)"
    "map (ad_ID \<circ> fst) rows = [''d1'']"
    using demo_claim_view by (auto split: prod.splits sum.splits)
  obtain rows2 d3 where 2: "ClaimPendingAlertDeliveries byte_collation (\<lambda>_. False) (demo_claim 9)
      (fold exec_stmt [demo_create ''2''] d1) = (Inr rows2, d3)"
    using demo_claim_later 1 by (auto split: prod.splits sum.splits)
  have "''d1'' \<in> (ad_ID \<circ> fst) ` set rows"
    using arg_cong [OF 1(2), of set] by simp
  moreover have "leaves_alone i s" if "s \<in> set [demo_create ''2'']" for i s
    using that by (simp add: demo_create_def)
  ultimately have "''d1'' \<notin> (ad_ID \<circ> fst) ` set rows2"
    using claim_exclusive [OF demo_pending_ok 1(1) _ 2] by (auto simp: demo_claim_def)
  with 1 2 show ?thesis by (intro exI conjI)
qed

text \<open>
  C19: Delivered is final: once a delivery is recorded as delivered, no schedule of statements
  changes that, no claim at any time returns it, and recording a failure for it is refused and
  changes nothing.
\<close>

theorem delivered_final:
  assumes "MarkAlertDeliveryDelivered i t d0 = (Inr x, d1)"
    and "\<And>s. s \<in> set stmts \<Longrightarrow> \<not> enqueues i s"
  defines "d \<equiv> fold exec_stmt stmts d1"
  shows "(\<forall>y \<in> set (al_deliveries d). ad_ID y = i \<longrightarrow> ad_Status y = DeliveryDelivered) \<and>
    (\<forall>coll locked p rows d'. ClaimPendingAlertDeliveries coll locked p d = (Inr rows, d') \<longrightarrow> i \<notin> (ad_ID \<circ> fst) ` set rows) \<and>
    MarkAlertDeliveryFailed i err t1 t2 d = (Inl ErrNotFound, d)"
proof -
  have "finished i (snd (MarkAlertDeliveryDelivered i t d0))"
    unfolding MarkAlertDeliveryDelivered_def update_delivery_tables by (rule finished_map) simp_all
  then have "finished i d1" by (simp add: assms(1))
  then have f: "finished i d"
    unfolding d_def using assms(2) by (rule schedule_finished)
  have "i \<notin> (ad_ID \<circ> fst) ` set rows"
    if c: "ClaimPendingAlertDeliveries coll locked p d = (Inr rows, d')" for coll locked p rows d'
  proof
    assume "i \<in> (ad_ID \<circ> fst) ` set rows"
    then obtain y e where "(y, e) \<in> set rows" "ad_ID y = i" by auto
    from claimed_due [OF c this(1)] this(2) f show False
      by (metis due_def finished_def lease_simps(1))
  qed
  moreover have "find (\<lambda>x. ad_ID x = i \<and> ad_Status x \<noteq> DeliveryDelivered) (al_deliveries d) = None"
    using f by (auto simp: find_None_iff finished_def)
  then have "MarkAlertDeliveryFailed i err t1 t2 d = (Inl ErrNotFound, d)"
    by (simp add: MarkAlertDeliveryFailed_def update_delivery_def)
  ultimately show ?thesis using f by (auto simp: finished_def)
qed

lemma demo_delivered:
  "(case MarkAlertDeliveryDelivered ''d1'' 4 demo_pending of (Inl _, _) \<Rightarrow> False | (Inr _, _) \<Rightarrow> True)"
  by code_simp

theorem delivered_final_witness:
  "\<exists>x d. MarkAlertDeliveryDelivered ''d1'' 4 demo_pending = (Inr x, d) \<and>
     MarkAlertDeliveryFailed ''d1'' ''late'' 9 19 (fold exec_stmt [SFailed ''d1'' ''e'' 7 8] d) =
       (Inl ErrNotFound, fold exec_stmt [SFailed ''d1'' ''e'' 7 8] d)"
proof -
  obtain x d where d: "MarkAlertDeliveryDelivered ''d1'' 4 demo_pending = (Inr x, d)"
    using demo_delivered by (auto split: prod.splits sum.splits)
  with delivered_final [OF d, of "[SFailed ''d1'' ''e'' 7 8]" "''late''" 9 19] show ?thesis by auto
qed

text \<open>
  C37: A delivery run ends after at most as many attempts as its limit, and its summary accounts
  for them: every attempt was delivered or failed, except one whose outcome the store refused
  to record, which ends the run with the store's error; the listed failures are the counted
  ones, and the run reports them as an error exactly when there are some.
\<close>

theorem Deliver_accounts:
  assumes "Deliver enqueue now ports opts d = ((s, err), d')"
  shows "ds_Attempted s \<le> nat (do_Limit opts) \<and> ds_Failed s = length (ds_Failures s) \<and>
    ds_Delivered s + ds_Failed s \<le> ds_Attempted s \<and> ds_Attempted s \<le> ds_Delivered s + ds_Failed s + 1 \<and>
    (case err of None \<Rightarrow> ds_Failed s = 0 \<and> ds_Attempted s = ds_Delivered s
     | Some SomeDeliveriesFailed \<Rightarrow> ds_Failed s > 0 \<and> ds_Attempted s = ds_Delivered s + ds_Failed s
     | Some (DeliverStore e) \<Rightarrow> True)"
proof -
  let ?q = "\<lparr>eq_Channel = do_Channel opts, eq_Target = do_Target opts, eq_Limit = do_Limit opts, eq_CreatedAt = now\<rparr>"
  obtain n x d1 where e: "enqueue ?q d = ((n, x), d1)"
    by (cases "enqueue ?q d") auto
  show ?thesis
  proof (cases x)
    case (Some e')
    with e assms show ?thesis by (auto simp: Deliver_def empty_delivery_summary_def)
  next
    case None
    let ?s = "empty_delivery_summary\<lparr>ds_Enqueued := n\<rparr>"
    obtain s1 e1 d2 where l: "deliver_loop opts ports (nat (do_Limit opts)) ?s d1 = ((s1, e1), d2)"
      by (cases "deliver_loop opts ports (nat (do_Limit opts)) ?s d1") auto
    have c: "ds_Failed s1 = length (ds_Failures s1) \<and> ds_Attempted s1 \<le> nat (do_Limit opts) \<and>
      ds_Delivered s1 + ds_Failed s1 \<le> ds_Attempted s1 \<and> ds_Attempted s1 \<le> ds_Delivered s1 + ds_Failed s1 + 1 \<and>
      (e1 = None \<longrightarrow> ds_Attempted s1 = ds_Delivered s1 + ds_Failed s1)"
      using deliver_loop_counts [OF l] by (simp add: empty_delivery_summary_def)
    show ?thesis
      using assms c by (cases e1) (auto simp: Deliver_def e None l)
  qed
qed

text \<open>One pending delivery whose sender fails.\<close>

definition demo_delivery_port :: "string option \<Rightarrow> delivery_port" where
  "demo_delivery_port err = \<lparr>dp_claimAt = 5, dp_attemptedAt = 6,
     dp_Claim = ClaimPendingAlertDeliveries byte_collation (\<lambda>_. False), dp_MarkFailed = MarkAlertDeliveryFailed,
     dp_MarkDelivered = MarkAlertDeliveryDelivered, dp_Send = (\<lambda>_. err)\<rparr>"

definition demo_options :: AlertDeliveryOptions where
  "demo_options = \<lparr>do_Channel = ''slack'', do_Target = ''t'', do_Limit = 3, do_RetryAfter = 10\<rparr>"

lemma demo_deliver_view:
  "(case Deliver (EnqueueAlertDeliveries byte_collation (\<lambda>_. id) (\<lambda>_. Inr ''d2'')) 4 (\<lambda>_. demo_delivery_port (Some ''down''))
      demo_options demo_pending of ((s, _), _) \<Rightarrow> (ds_Attempted s, ds_Failed s)) = (1, 1)"
  by code_simp

theorem Deliver_accounts_witness:
  "\<exists>s err d. Deliver (EnqueueAlertDeliveries byte_collation (\<lambda>_. id) (\<lambda>_. Inr ''d2'')) 4 (\<lambda>_. demo_delivery_port (Some ''down''))
      demo_options demo_pending = ((s, err), d) \<and> ds_Attempted s = 1 \<and> length (ds_Failures s) = 1"
proof -
  obtain s err d where e: "Deliver (EnqueueAlertDeliveries byte_collation (\<lambda>_. id) (\<lambda>_. Inr ''d2'')) 4
      (\<lambda>_. demo_delivery_port (Some ''down'')) demo_options demo_pending = ((s, err), d)"
    by (metis surj_pair)
  with demo_deliver_view Deliver_accounts [OF e] show ?thesis by auto
qed

end
