(* ===== verification/Api.thy ===== *)
theory Api
  imports Auth Alerts
begin

text \<open>
  The HTTP handlers that own user data: \<^verbatim>\<open>internal/api/alerts.go\<close>, \<^verbatim>\<open>tokens.go\<close> and the stores
  of one-time login codes of \<^verbatim>\<open>codestore.go\<close> with the exchange of \<^verbatim>\<open>auth.go\<close>. A handler is a
  function of the caller's credentials and the request to the response and the changed
  tables. The clock and the drawn ids and secrets are parameters.
\<close>

section \<open>Responses and principals\<close>

datatype api_error =
  Error400 string | Error401 string | Error403 string | Error404 string | Error422 string | Error500 db_error |
  Error409 string | Error501 string | Panicked

type_synonym 'a api = "api_error + 'a"

record credentials =
  cred_HashToken :: "string \<Rightarrow> string"
  cred_auth :: Authenticator
  cred_now :: time
  cred_header :: string
  cred_session :: string

definition IsUser :: "string \<Rightarrow> bool" where
  "IsUser userID \<longleftrightarrow> userID \<noteq> []"

definition user_principal :: "credentials \<Rightarrow> string api" where
  "user_principal c = (case fst (ResolvePrincipal (cred_HashToken c) (cred_auth c) (cred_now c) (cred_header c) (cred_session c)) of
     ErrUnauthorized \<Rightarrow> Inl (Error401 ''authentication required'')
   | Principal userID \<Rightarrow> (if IsUser userID then Inr userID else Inl (Error403 ''user-attributed authentication required'')))"

section \<open>Alert rules\<close>

record alertRuleBody =
  ab_Name :: string
  ab_Repository :: string
  ab_Baseline :: string
  ab_Threshold :: "f64 ptr"
  ab_ThresholdZ :: "f64 ptr"
  ab_RunReason :: "string ptr"
  ab_Enabled :: "bool ptr"

record normalizedAlertRuleBody =
  nb_Name :: string
  nb_Repository :: string
  nb_Baseline :: string
  nb_Threshold :: f64
  nb_ThresholdZ :: f64
  nb_RunReason :: "string ptr"
  nb_Enabled :: bool

definition validAlertBaseline :: "string \<Rightarrow> bool" where
  "validAlertBaseline v \<longleftrightarrow>
     v = CIReportBaselineForkPoint \<or> v = CIReportBaselineParent \<or> v = CIReportBaselineLatestDefault"

definition bad_threshold :: "f64 \<Rightarrow> bool" where
  "bad_threshold x \<longleftrightarrow> x = NaN \<or> x = PInf \<or> x = NInf \<or> fle x (Fin 0)"

definition or_default :: "'a ptr \<Rightarrow> 'a \<Rightarrow> 'a" where
  "or_default p x = (case p of None \<Rightarrow> x | Some v \<Rightarrow> v)"

definition validateAlertRuleBody :: "alertRuleBody \<Rightarrow> normalizedAlertRuleBody api" where
  "validateAlertRuleBody b =
     (let name = trim_space (ab_Name b); repository = trim_space (ab_Repository b);
          baseline = (if ab_Baseline b = [] then CIReportBaselineForkPoint else ab_Baseline b);
          threshold = or_default (ab_Threshold b) PairwisePercentThresholdDefault;
          thresholdZ = or_default (ab_ThresholdZ b) ZScoreThresholdDefault in
      if name = [] then Inl (Error422 ''name is required'')
      else if repository = [] then Inl (Error422 ''repository is required'')
      else if \<not> validAlertBaseline baseline then Inl (Error422 ''invalid baseline'')
      else if bad_threshold threshold then Inl (Error422 ''threshold must be greater than zero'')
      else if bad_threshold thresholdZ then Inl (Error422 ''threshold_z must be greater than zero'')
      else Inr \<lparr>nb_Name = name, nb_Repository = NormalizeRepoURL repository, nb_Baseline = baseline,
        nb_Threshold = threshold, nb_ThresholdZ = thresholdZ,
        nb_RunReason = (case ab_RunReason b of None \<Rightarrow> None
          | Some s \<Rightarrow> if trim_space s = [] then None else Some (trim_space s)),
        nb_Enabled = or_default (ab_Enabled b) True\<rparr>)"

definition alertRuleEvaluationConfigChanged :: "AlertRule \<Rightarrow> normalizedAlertRuleBody \<Rightarrow> bool" where
  "alertRuleEvaluationConfigChanged rule body \<longleftrightarrow>
     ar_Repository rule \<noteq> nb_Repository body \<or> ar_Baseline rule \<noteq> nb_Baseline body \<or>
     \<not> feq (ar_Threshold rule) (nb_Threshold body) \<or> \<not> feq (ar_ThresholdZ rule) (nb_ThresholdZ body) \<or>
     \<not> sameStringPtr (ar_RunReason rule) (nb_RunReason body)"

text \<open>The views copy every column of the row.\<close>

definition create_alert ::
  "string list \<Rightarrow> string result \<Rightarrow> time \<Rightarrow> credentials \<Rightarrow> alertRuleBody \<Rightarrow> alert_db \<Rightarrow> AlertRule api \<times> alert_db" where
  "create_alert users genID now c b d = (case user_principal c of Inl e \<Rightarrow> (Inl e, d)
     | Inr userID \<Rightarrow> (case validateAlertRuleBody b of Inl e \<Rightarrow> (Inl e, d)
        | Inr body \<Rightarrow>
           (case CreateAlertRule users genID \<lparr>ip_UserID = userID, ip_Name = nb_Name body,
               ip_Repository = nb_Repository body, ip_Baseline = nb_Baseline body, ip_Threshold = nb_Threshold body,
               ip_ThresholdZ = nb_ThresholdZ body, ip_RunReason = nb_RunReason body, ip_Enabled = nb_Enabled body,
               ip_CreatedAt = now\<rparr> d of
              (Inl e, d') \<Rightarrow> (Inl (Error500 e), d') | (Inr r, d') \<Rightarrow> (Inr r, d'))))"

definition list_alerts :: "(string \<Rightarrow> string \<Rightarrow> bool) \<Rightarrow> credentials \<Rightarrow> alert_db \<Rightarrow> AlertRule list api" where
  "list_alerts coll c d = (case user_principal c of Inl e \<Rightarrow> Inl e | Inr userID \<Rightarrow> Inr (ListAlertRulesByUser coll userID d))"

definition ownedRuleForPrincipal :: "string \<Rightarrow> string \<Rightarrow> alert_db \<Rightarrow> AlertRule api" where
  "ownedRuleForPrincipal userID i d = (case GetAlertRule i d of
     Inl e \<Rightarrow> (if e = ErrNotFound then Inl (Error404 ''alert rule not found'') else Inl (Error500 e))
   | Inr rule \<Rightarrow> (if ar_UserID rule \<noteq> userID then Inl (Error404 ''alert rule not found'') else Inr rule))"

definition ownedRule :: "credentials \<Rightarrow> string \<Rightarrow> alert_db \<Rightarrow> AlertRule api" where
  "ownedRule c i d = (case user_principal c of Inl e \<Rightarrow> Inl e | Inr userID \<Rightarrow> ownedRuleForPrincipal userID i d)"

text \<open>\<open>env\<close> is what other transactions do between the read of the rule and its update.\<close>

definition update_alert ::
  "(alert_db \<Rightarrow> alert_db) \<Rightarrow> time \<Rightarrow> credentials \<Rightarrow> string \<Rightarrow> alertRuleBody \<Rightarrow> alert_db \<Rightarrow> AlertRule api \<times> alert_db" where
  "update_alert env now c i b d = (case user_principal c of Inl e \<Rightarrow> (Inl e, d)
     | Inr userID \<Rightarrow> (case ownedRuleForPrincipal userID i d of Inl e \<Rightarrow> (Inl e, d)
     | Inr existing \<Rightarrow> (case validateAlertRuleBody b of Inl e \<Rightarrow> (Inl e, d)
     | Inr body \<Rightarrow>
        (case UpdateAlertRule \<lparr>up_ID = i, up_UserID = userID, up_Name = nb_Name body,
            up_Repository = nb_Repository body, up_Baseline = nb_Baseline body, up_Threshold = nb_Threshold body,
            up_ThresholdZ = nb_ThresholdZ body, up_RunReason = nb_RunReason body, up_Enabled = nb_Enabled body,
            up_UpdatedAt = now, up_ResetEvaluation = alertRuleEvaluationConfigChanged existing body\<rparr> (env d) of
           (Inl e, d') \<Rightarrow> (Inl (if e = ErrNotFound then Error404 ''alert rule not found'' else Error500 e), d')
         | (Inr r, d') \<Rightarrow> (Inr r, d')))))"

definition delete_alert :: "credentials \<Rightarrow> string \<Rightarrow> alert_db \<Rightarrow> unit api \<times> alert_db" where
  "delete_alert c i d = (case user_principal c of Inl e \<Rightarrow> (Inl e, d)
     | Inr userID \<Rightarrow> (case DeleteAlertRule i userID d of
         (Inl e, d') \<Rightarrow> (Inl (if e = ErrNotFound then Error404 ''alert rule not found'' else Error500 e), d')
       | (Inr _, d') \<Rightarrow> (Inr (), d')))"

definition alert_events ::
  "(string \<Rightarrow> string \<Rightarrow> bool) \<Rightarrow> credentials \<Rightarrow> string \<Rightarrow> int \<Rightarrow> alert_db \<Rightarrow> AlertEvent list api" where
  "alert_events coll c i n d =
     (if n \<le> 0 \<or> n > 500 then Inl (Error422 ''limit must be between 1 and 500'')
      else case ownedRule c i d of Inl e \<Rightarrow> Inl e
      | Inr _ \<Rightarrow> (case ListAlertEventsByRule coll i n d of Inl e \<Rightarrow> Inl (Error500 e) | Inr rows \<Rightarrow> Inr rows))"

section \<open>API tokens\<close>

record tokenView =
  tv_ID :: string
  tv_Name :: string
  tv_Prefix :: string
  tv_CreatedAt :: time
  tv_LastUsedAt :: "time ptr"
  tv_RevokedAt :: "time ptr"

definition viewOf :: "api_token \<Rightarrow> tokenView" where
  "viewOf r = \<lparr>tv_ID = tok_id r, tv_Name = tok_name r, tv_Prefix = tok_prefix r, tv_CreatedAt = tok_created r,
     tv_LastUsedAt = tok_last_used r, tv_RevokedAt = tok_revoked r\<rparr>"

record mintedToken =
  mt_ID :: string
  mt_Name :: string
  mt_Token :: string
  mt_Prefix :: string
  mt_CreatedAt :: time

text \<open>\<open>random\<close> are the random bytes of the drawn secret.\<close>

definition create_token ::
  "string \<Rightarrow> string result \<Rightarrow> time \<Rightarrow> credentials \<Rightarrow> string \<Rightarrow> api_token list \<Rightarrow> mintedToken api \<times> api_token list" where
  "create_token random genID now c name t = (case user_principal c of Inl e \<Rightarrow> (Inl e, t)
     | Inr userID \<Rightarrow>
        (if name = [] then (Inl (Error422 ''name is required''), t)
         else let tok = GenerateToken (cred_HashToken c) random in
           (case CreateAPIToken genID userID name (Hash tok) (Prefix tok) now t of
              (Inl e, t') \<Rightarrow> (Inl (Error500 e), t')
            | (Inr i, t') \<Rightarrow> (Inr \<lparr>mt_ID = i, mt_Name = name, mt_Token = Plaintext tok,
                                  mt_Prefix = Prefix tok, mt_CreatedAt = now\<rparr>, t'))))"

definition list_tokens :: "credentials \<Rightarrow> api_token list \<Rightarrow> tokenView list api" where
  "list_tokens c t = (case user_principal c of Inl e \<Rightarrow> Inl e | Inr userID \<Rightarrow> Inr (map viewOf (ListAPITokensByUser userID t)))"

text \<open>The token table has no other writer that changes owners, so \<open>env\<close> stays as it is given.\<close>

definition delete_token ::
  "(api_token list \<Rightarrow> api_token list) \<Rightarrow> time \<Rightarrow> credentials \<Rightarrow> string \<Rightarrow> api_token list \<Rightarrow> unit api \<times> api_token list" where
  "delete_token env now c i t = (case user_principal c of Inl e \<Rightarrow> (Inl e, t)
     | Inr userID \<Rightarrow> (case GetAPITokenByID i t of
         Inl e \<Rightarrow> (Inl (if e = ErrNotFound then Error404 ''token not found'' else Error500 e), t)
       | Inr row \<Rightarrow>
          (if tok_user row \<noteq> userID then (Inl (Error404 ''token not found''), t)
           else case RevokeAPIToken i now (env t) of
             (Inl e, t') \<Rightarrow> (if e = ErrNotFound then Inr () else Inl (Error500 e), t')
           | (Inr _, t') \<Rightarrow> (Inr (), t'))))"

section \<open>One-time login codes\<close>

definition codeTTL :: int where "codeTTL = 60 * 1000000000"

record codeEntry =
  ce_userID :: string
  ce_expires :: time

type_synonym code_map = "(string \<times> codeEntry) list"

definition sweepLocked :: "time \<Rightarrow> code_map \<Rightarrow> code_map" where
  "sweepLocked now m = filter (\<lambda>(_, e). \<not> now > ce_expires e) m"

text \<open>\<open>code\<close> is the drawn random token.\<close>

definition issueAt :: "string \<Rightarrow> string \<Rightarrow> time \<Rightarrow> code_map \<Rightarrow> string \<times> code_map" where
  "issueAt code userID now m = (code, map_set code \<lparr>ce_userID = userID, ce_expires = now + codeTTL\<rparr> (sweepLocked now m))"

definition redeemAt :: "string \<Rightarrow> time \<Rightarrow> code_map \<Rightarrow> string option \<times> code_map" where
  "redeemAt code now m = (case map_of m code of None \<Rightarrow> (None, m)
     | Some e \<Rightarrow> (if now > ce_expires e then None else Some (ce_userID e), filter (\<lambda>(k, _). k \<noteq> code) m))"

text \<open>The codes of the database store are kept by their hash.\<close>

definition DBCodeStore_Issue ::
  "(string \<Rightarrow> string) \<Rightarrow> string \<Rightarrow> time \<Rightarrow> string \<Rightarrow> login_code list \<Rightarrow> string result \<times> login_code list" where
  "DBCodeStore_Issue HashToken code now userID t =
     (case InsertCLILoginCode (HashToken code) userID now (now + codeTTL) (DeleteExpiredCLILoginCodes now t) of
        (Inl e, t') \<Rightarrow> (Inl e, t') | (Inr _, t') \<Rightarrow> (Inr code, t'))"

definition DBCodeStore_Redeem ::
  "(string \<Rightarrow> string) \<Rightarrow> string \<Rightarrow> time \<Rightarrow> login_code list \<Rightarrow> string option \<times> login_code list" where
  "DBCodeStore_Redeem HashToken code now t = RedeemCLILoginCode (HashToken code) now t"

text \<open>The exchange of a code for a token; the code is spent even when the token cannot be stored.\<close>

definition cliExchange ::
  "(string \<Rightarrow> string) \<Rightarrow> string \<Rightarrow> string result \<Rightarrow> time \<Rightarrow> string \<Rightarrow> string \<Rightarrow> login_code list \<times> api_token list \<Rightarrow>
   mintedToken api \<times> login_code list \<times> api_token list" where
  "cliExchange HashToken random genID now code name st =
     (case DBCodeStore_Redeem HashToken code now (fst st) of
        (None, codes) \<Rightarrow> (Inl (Error400 ''invalid or expired code''), codes, snd st)
      | (Some userID, codes) \<Rightarrow>
          (let tokenName = (if name = [] then ''cli token'' else name);
               tok = GenerateToken HashToken random
           in case CreateAPIToken genID userID tokenName (Hash tok) (Prefix tok) now (snd st) of
                (Inl e, t') \<Rightarrow> (Inl (Error500 e), codes, t')
              | (Inr i, t') \<Rightarrow> (Inr \<lparr>mt_ID = i, mt_Name = tokenName, mt_Token = Plaintext tok,
                    mt_Prefix = Prefix tok, mt_CreatedAt = now\<rparr>, codes, t')))"

section \<open>Ownership\<close>

definition others :: "string \<Rightarrow> alert_db \<Rightarrow> AlertRule list" where
  "others userID d = filter (\<lambda>r. ar_UserID r \<noteq> userID) (al_rules d)"

definition events_of_others :: "string \<Rightarrow> alert_db \<Rightarrow> AlertEvent list" where
  "events_of_others userID d = filter (\<lambda>e. ae_RuleID e \<in> ar_ID ` set (others userID d)) (al_events d)"

lemma filter_map_same:
  assumes "\<And>x. x \<in> set xs \<Longrightarrow> P (f x) = P x" "\<And>x. x \<in> set xs \<Longrightarrow> P x \<Longrightarrow> f x = x"
  shows "filter P (map f xs) = filter P xs"
  using assms by (induction xs) auto

lemma CreateAlertRule_others:
  "ip_UserID p = userID \<Longrightarrow> others userID (snd (CreateAlertRule users genID p d)) = others userID d"
  by (cases rule: CreateAlertRule_cases [of users genID p d]) (simp_all add: others_def new_rule_def)

lemma UpdateAlertRule_others: "others (up_UserID p) (snd (UpdateAlertRule p d)) = others (up_UserID p) d"
  unfolding UpdateAlertRule_tables others_def
  by (auto intro!: filter_map_same simp: edited_rule_def split: if_splits)

lemma DeleteAlertRule_others:
  assumes "alert_ok d"
  shows "others userID (snd (DeleteAlertRule i userID d)) = others userID d \<and>
    events_of_others userID (snd (DeleteAlertRule i userID d)) = events_of_others userID d"
proof (cases "filter (\<lambda>r. ar_ID r = i \<and> ar_UserID r = userID) (al_rules d) = []")
  case False
  let ?d = "snd (DeleteAlertRule i userID d)"
  obtain r where r: "r \<in> set (al_rules d)" "ar_ID r = i" "ar_UserID r = userID"
    using False by (auto simp: filter_empty_conv)
  have o: "others userID ?d = others userID d"
    using False by (auto simp: DeleteAlertRule_def Let_def others_def intro!: filter_cong)
  have "ar_ID x \<noteq> i" if "x \<in> set (others userID d)" for x
    using that r alert_okD(1) [OF assms] by (auto simp: others_def distinct_map inj_on_def)
  then have "filter (\<lambda>e. ae_RuleID e \<in> ar_ID ` set (others userID d)) (al_events ?d) =
      filter (\<lambda>e. ae_RuleID e \<in> ar_ID ` set (others userID d)) (al_events d)"
    using False by (auto simp: DeleteAlertRule_def Let_def intro!: filter_cong) blast
  with o show ?thesis by (simp add: events_of_others_def)
qed (simp add: DeleteAlertRule_def Let_def)

lemma CreateAlertRule_events: "al_events (snd (CreateAlertRule users genID p d)) = al_events d"
  by (cases rule: CreateAlertRule_cases [of users genID p d]) simp_all

lemma UpdateAlertRule_events: "al_events (snd (UpdateAlertRule p d)) = al_events d"
  by (simp add: UpdateAlertRule_tables)

lemma create_alert_snd:
  obtains "snd (create_alert users genID now c b d) = d"
  | p where "user_principal c = Inr (ip_UserID p)" "snd (create_alert users genID now c b d) = snd (CreateAlertRule users genID p d)"
proof (cases "user_principal c")
  case (Inl e)
  then show ?thesis by (intro that(1)) (simp add: create_alert_def)
next
  case (Inr userID)
  show ?thesis
  proof (cases "validateAlertRuleBody b")
    case Inl': (Inl e)
    with Inr show ?thesis by (intro that(1)) (simp add: create_alert_def)
  next
    case Inr': (Inr body)
    show ?thesis
      by (rule that(2) [of "\<lparr>ip_UserID = userID, ip_Name = nb_Name body,
          ip_Repository = nb_Repository body, ip_Baseline = nb_Baseline body, ip_Threshold = nb_Threshold body,
          ip_ThresholdZ = nb_ThresholdZ body, ip_RunReason = nb_RunReason body, ip_Enabled = nb_Enabled body,
          ip_CreatedAt = now\<rparr>"])
         (auto simp: create_alert_def Inr Inr' split: prod.splits sum.splits)
  qed
qed

lemma update_alert_snd:
  obtains "snd (update_alert env now c i b d) = d"
  | p where "user_principal c = Inr (up_UserID p)" "snd (update_alert env now c i b d) = snd (UpdateAlertRule p (env d))"
proof (cases "user_principal c")
  case (Inl e)
  then show ?thesis by (intro that(1)) (simp add: update_alert_def)
next
  case (Inr userID)
  show ?thesis
  proof (cases "ownedRuleForPrincipal userID i d")
    case Inl': (Inl e)
    with Inr show ?thesis by (intro that(1)) (simp add: update_alert_def)
  next
    case own: (Inr existing)
    show ?thesis
    proof (cases "validateAlertRuleBody b")
      case Inl': (Inl e)
      with Inr own show ?thesis by (intro that(1)) (simp add: update_alert_def)
    next
      case Inr': (Inr body)
      show ?thesis
        by (rule that(2) [of "\<lparr>up_ID = i, up_UserID = userID, up_Name = nb_Name body,
            up_Repository = nb_Repository body, up_Baseline = nb_Baseline body, up_Threshold = nb_Threshold body,
            up_ThresholdZ = nb_ThresholdZ body, up_RunReason = nb_RunReason body, up_Enabled = nb_Enabled body,
            up_UpdatedAt = now, up_ResetEvaluation = alertRuleEvaluationConfigChanged existing body\<rparr>"])
           (auto simp: update_alert_def Inr own Inr' split: prod.splits sum.splits)
    qed
  qed
qed

lemma delete_alert_snd:
  obtains "snd (delete_alert c i d) = d"
  | userID where "user_principal c = Inr userID" "snd (delete_alert c i d) = snd (DeleteAlertRule i userID d)"
proof (cases "user_principal c")
  case (Inl e)
  then show ?thesis by (intro that(1)) (simp add: delete_alert_def)
next
  case (Inr userID)
  then show ?thesis
    by (intro that(2) [of userID]) (auto simp: delete_alert_def split: prod.splits sum.splits)
qed

lemma find_conj: "find P xs = Some x \<Longrightarrow> Q x \<Longrightarrow> find (\<lambda>y. P y \<and> Q y) xs = Some x"
  by (induction xs) (auto split: if_splits)

lemma ownedRule_owner:
  assumes "ownedRuleForPrincipal userID i d = Inr r"
  shows "r \<in> set (al_rules d) \<and> ar_ID r = i \<and> ar_UserID r = userID"
  using assms by (auto simp: ownedRuleForPrincipal_def GetAlertRule_def find_Some_iff split: sum.splits option.splits if_splits)

lemma events_of_others_cong:
  "others u d' = others u d \<Longrightarrow> al_events d' = al_events d \<Longrightarrow> events_of_others u d' = events_of_others u d"
  by (simp add: events_of_others_def)

lemma alert_events_owner:
  assumes "user_principal c = Inr userID" "alert_events coll c i n d = Inr evs"
  shows "(\<exists>r \<in> set (al_rules d). ar_ID r = i \<and> ar_UserID r = userID) \<and> (\<forall>e \<in> set evs. e \<in> set (al_events d) \<and> ae_RuleID e = i)"
proof -
  obtain r where r: "ownedRuleForPrincipal userID i d = Inr r" and rows: "ListAlertEventsByRule coll i n d = Inr evs"
    using assms by (auto simp: alert_events_def ownedRule_def split: if_splits sum.splits)
  have "set evs \<subseteq> set (filter (\<lambda>e. ae_RuleID e = i) (al_events d))"
    using rows by (auto simp: ListAlertEventsByRule_def sql_limit_def split: if_splits dest!: in_set_takeD)
  with ownedRule_owner [OF r] show ?thesis by auto
qed

section \<open>Properties\<close>

text \<open>
  C23: The alert API is scoped to its caller. Without a user identity every handler refuses and
  changes nothing. With one, creating, editing and deleting rules leaves the rules of all
  other users and their events as they are, a rule that is read belongs to the caller, the
  listing holds the caller's rules only, and events are shown of the caller's own rule only.
\<close>

theorem alert_api_owner:
  assumes "alert_ok d"
  shows "case user_principal c of
    Inl e \<Rightarrow> create_alert users genID now c b d = (Inl e, d) \<and> update_alert id now c i b d = (Inl e, d) \<and>
      delete_alert c i d = (Inl e, d) \<and> ownedRule c i d = Inl e \<and> list_alerts coll c d = Inl e
  | Inr userID \<Rightarrow>
      (\<forall>d' \<in> {snd (create_alert users genID now c b d), snd (update_alert id now c i b d), snd (delete_alert c i d)}.
         others userID d' = others userID d \<and> events_of_others userID d' = events_of_others userID d) \<and>
      (\<forall>r. ownedRule c i d = Inr r \<longrightarrow> r \<in> set (al_rules d) \<and> ar_ID r = i \<and> ar_UserID r = userID) \<and>
      (\<forall>rs. list_alerts coll c d = Inr rs \<longrightarrow> set rs = {r \<in> set (al_rules d). ar_UserID r = userID}) \<and>
      (\<forall>evs. alert_events coll c i n d = Inr evs \<longrightarrow>
         (\<exists>r \<in> set (al_rules d). ar_ID r = i \<and> ar_UserID r = userID) \<and> (\<forall>e \<in> set evs. ae_RuleID e = i))"
proof (cases "user_principal c")
  case (Inl e)
  then show ?thesis
    by (simp add: create_alert_def update_alert_def delete_alert_def ownedRule_def list_alerts_def)
next
  case (Inr userID)
  let ?same = "\<lambda>d'. others userID d' = others userID d \<and> events_of_others userID d' = events_of_others userID d"
  have 1: "?same (snd (create_alert users genID now c b d))"
    by (cases rule: create_alert_snd [of users genID now c b d])
       (use Inr in \<open>auto simp: CreateAlertRule_others CreateAlertRule_events intro!: events_of_others_cong\<close>)
  have 2: "?same (snd (update_alert id now c i b d))"
    by (cases rule: update_alert_snd [of id now c i b d])
       (use Inr in \<open>auto simp: UpdateAlertRule_others UpdateAlertRule_events intro!: events_of_others_cong\<close>)
  have 3: "?same (snd (delete_alert c i d))"
    by (cases rule: delete_alert_snd [of c i d]) (use Inr DeleteAlertRule_others [OF assms] in auto)
  have 4: "\<forall>r. ownedRule c i d = Inr r \<longrightarrow> r \<in> set (al_rules d) \<and> ar_ID r = i \<and> ar_UserID r = userID"
    using Inr ownedRule_owner by (auto simp: ownedRule_def)
  have 5: "\<forall>rs. list_alerts coll c d = Inr rs \<longrightarrow> set rs = {r \<in> set (al_rules d). ar_UserID r = userID}"
    using Inr by (auto simp: list_alerts_def ListAlertRulesByUser_def)
  have 6: "\<forall>evs. alert_events coll c i n d = Inr evs \<longrightarrow>
      (\<exists>r \<in> set (al_rules d). ar_ID r = i \<and> ar_UserID r = userID) \<and> (\<forall>e \<in> set evs. ae_RuleID e = i)"
    using alert_events_owner [OF Inr] by blast
  from 1 2 3 4 5 6 show ?thesis
    by (simp only: Inr sum.case ball_simps)
qed

definition demo_cred :: "string \<Rightarrow> credentials" where
  "demo_cred header = \<lparr>cred_HashToken = (\<lambda>s. s),
     cred_auth = \<lparr>static_token = [], auth_disabled = False,
       token_store = Some (Inr [\<lparr>tok_id = ''t'', tok_user = ''u'', tok_name = ''n'', tok_hash = ''h'', tok_prefix = [],
         tok_created = 0, tok_last_used = None, tok_revoked = None\<rparr>]), session_mac = None\<rparr>,
     cred_now = 5, cred_header = header, cred_session = []\<rparr>"

lemma demo_principal: "user_principal (demo_cred ''Bearer h'') = Inr ''u''"
  by code_simp

theorem alert_api_owner_witness:
  "alert_ok demo_rules \<and> user_principal (demo_cred ''Bearer h'') = Inr ''u'' \<and>
     others ''u'' (snd (delete_alert (demo_cred ''Bearer h'') ''1'' demo_rules)) = others ''u'' demo_rules"
  using alert_api_owner [OF demo_rules_ok, where c = "demo_cred ''Bearer h''" and i = "''1''"] demo_rules_ok
  by (simp add: demo_principal)

text \<open>
  A rule body that passes validation is canonical: its name is not blank and trimmed, its
  repository a normalized URL, the baseline one of the three supported ones, and both
  thresholds are positive finite numbers, so that no stored threshold is zero, which the CI
  report would read as its default. A run reason is absent or not blank.
\<close>

theorem validateAlertRuleBody_canonical:
  assumes "validateAlertRuleBody b = Inr n"
  shows "nb_Name n \<noteq> [] \<and> trim_space (nb_Name n) = nb_Name n \<and>
    NormalizeRepoURL (nb_Repository n) = nb_Repository n \<and> validCIReportBaseline (nb_Baseline n) \<and>
    (\<exists>q > 0. nb_Threshold n = Fin q) \<and> (\<exists>q > 0. nb_ThresholdZ n = Fin q) \<and>
    effective_threshold (nb_Threshold n) fallback = nb_Threshold n \<and>
    effective_threshold (nb_ThresholdZ n) fallback = nb_ThresholdZ n \<and> nb_RunReason n \<noteq> Some []"
proof -
  have pos: "\<exists>q > 0. x = Fin q" if "\<not> bad_threshold x" for x
    using that by (cases x) (auto simp: bad_threshold_def fle_def flt_def feq_def)
  have eff: "effective_threshold x fallback = x" if "\<not> bad_threshold x" for x
    using pos [OF that] by (auto simp: effective_threshold_def feq_def)
  from assms show ?thesis
    unfolding validateAlertRuleBody_def Let_def
    by (auto simp: pos eff validAlertBaseline_def validCIReportBaseline_def split: if_splits option.splits)
qed

definition demo_body :: alertRuleBody where
  "demo_body = \<lparr>ab_Name = '' n '', ab_Repository = ''r/'', ab_Baseline = ''parent'', ab_Threshold = Some (Fin 5),
     ab_ThresholdZ = Some (Fin 5), ab_RunReason = None, ab_Enabled = None\<rparr>"

lemma demo_body_valid:
  "validateAlertRuleBody demo_body = Inr \<lparr>nb_Name = ''n'', nb_Repository = ''r'', nb_Baseline = ''parent'',
     nb_Threshold = Fin 5, nb_ThresholdZ = Fin 5, nb_RunReason = None, nb_Enabled = True\<rparr>"
  by code_simp

theorem validateAlertRuleBody_canonical_witness:
  "\<exists>n. validateAlertRuleBody demo_body = Inr n \<and> nb_Name n = ''n'' \<and> (\<exists>q > 0. nb_Threshold n = Fin q)"
  using validateAlertRuleBody_canonical [OF demo_body_valid] demo_body_valid by simp

text \<open>
  An edit that changes what a rule evaluates resets it: after an undisturbed update the rule
  keeps its state only if repository, baseline, thresholds and run reason are what they were;
  otherwise it is inactive and not evaluated.
\<close>

theorem update_alert_resets:
  assumes "alert_ok d" "update_alert id now c i b d = (Inr r, d')" "GetAlertRule i d = Inr r0"
  shows "r \<in> set (al_rules d') \<and> ar_ID r = i \<and>
    (if ar_Repository r = ar_Repository r0 \<and> ar_Baseline r = ar_Baseline r0 \<and> feq (ar_Threshold r0) (ar_Threshold r) \<and>
        feq (ar_ThresholdZ r0) (ar_ThresholdZ r) \<and> ar_RunReason r = ar_RunReason r0
     then ar_State r = ar_State r0 \<and> ar_LastEvaluatedAt r = ar_LastEvaluatedAt r0
     else ar_State r = AlertRuleStateInactive \<and> ar_LastEvaluatedAt r = None)"
proof -
  obtain userID n where p: "user_principal c = Inr userID" and own: "ownedRuleForPrincipal userID i d = Inr r0"
    and n: "validateAlertRuleBody b = Inr n"
    using assms(2,3) by (auto simp: update_alert_def ownedRuleForPrincipal_def split: sum.splits if_splits)
  let ?p = "\<lparr>up_ID = i, up_UserID = userID, up_Name = nb_Name n,
            up_Repository = nb_Repository n, up_Baseline = nb_Baseline n, up_Threshold = nb_Threshold n,
            up_ThresholdZ = nb_ThresholdZ n, up_RunReason = nb_RunReason n, up_Enabled = nb_Enabled n,
            up_UpdatedAt = now, up_ResetEvaluation = alertRuleEvaluationConfigChanged r0 n\<rparr>"
  have r0: "r0 \<in> set (al_rules d)" "ar_ID r0 = i" "ar_UserID r0 = userID"
    using ownedRule_owner [OF own] by auto
  have u: "UpdateAlertRule ?p d = (Inr r, d')"
    using assms(2) by (auto simp: update_alert_def p own n split: sum.splits prod.splits)
  have "find (\<lambda>x. ar_ID x = i) (al_rules d) = Some r0"
    using assms(3) by (auto simp: GetAlertRule_def split: option.splits)
  then have "find (\<lambda>x. ar_ID x = i \<and> ar_UserID x = userID) (al_rules d) = Some r0"
    using r0(3) by (intro find_conj) simp_all
  then have r: "r = edited_rule ?p r0"
    using u by (auto simp: UpdateAlertRule_def update_rule_def)
  have d': "d' = snd (UpdateAlertRule ?p d)" by (simp add: u)
  have "r \<in> set (al_rules d')"
    unfolding d' UpdateAlertRule_tables r using r0 by (auto simp: image_iff intro!: bexI [of _ r0])
  moreover have fields: "ar_ID r = i" "ar_Repository r = nb_Repository n" "ar_Baseline r = nb_Baseline n"
      "ar_Threshold r = nb_Threshold n" "ar_ThresholdZ r = nb_ThresholdZ n" "ar_RunReason r = nb_RunReason n"
      "ar_State r = (if alertRuleEvaluationConfigChanged r0 n then AlertRuleStateInactive else ar_State r0)"
      "ar_LastEvaluatedAt r = (if alertRuleEvaluationConfigChanged r0 n then None else ar_LastEvaluatedAt r0)"
    by (simp_all add: r edited_rule_def r0)
  moreover have same: "sameStringPtr x y \<longleftrightarrow> x = y" for x y
    by (cases x; cases y) (simp_all add: sameStringPtr_def)
  have "alertRuleEvaluationConfigChanged r0 n \<longleftrightarrow>
      \<not> (ar_Repository r = ar_Repository r0 \<and> ar_Baseline r = ar_Baseline r0 \<and> feq (ar_Threshold r0) (ar_Threshold r) \<and>
        feq (ar_ThresholdZ r0) (ar_ThresholdZ r) \<and> ar_RunReason r = ar_RunReason r0)"
    unfolding fields alertRuleEvaluationConfigChanged_def same by auto
  ultimately show ?thesis by (simp split del: if_split) simp
qed

lemma demo_update:
  "(case update_alert id 9 (demo_cred ''Bearer h'') ''1'' (demo_body\<lparr>ab_Threshold := Some (Fin 7)\<rparr>) demo_alerts of
      (Inl _, _) \<Rightarrow> None | (Inr r, _) \<Rightarrow> Some (ar_State r)) = Some ''inactive''"
  "(case GetAlertRule ''1'' demo_alerts of Inl _ \<Rightarrow> None | Inr r \<Rightarrow> Some (ar_State r)) = Some ''open''"
  by code_simp+

theorem update_alert_resets_witness:
  "\<exists>r0 r d'. GetAlertRule ''1'' demo_alerts = Inr r0 \<and> ar_State r0 = AlertRuleStateOpen \<and>
     update_alert id 9 (demo_cred ''Bearer h'') ''1'' (demo_body\<lparr>ab_Threshold := Some (Fin 7)\<rparr>) demo_alerts = (Inr r, d') \<and>
     ar_State r = AlertRuleStateInactive \<and> r \<in> set (al_rules d')"
proof -
  obtain r0 where r0: "GetAlertRule ''1'' demo_alerts = Inr r0" "ar_State r0 = ''open''"
    using demo_update(2) by (auto split: sum.splits)
  obtain r d' where r: "update_alert id 9 (demo_cred ''Bearer h'') ''1'' (demo_body\<lparr>ab_Threshold := Some (Fin 7)\<rparr>) demo_alerts = (Inr r, d')"
    "ar_State r = ''inactive''"
    using demo_update(1) by (auto split: sum.splits prod.splits)
  from update_alert_resets [OF alert_steps_ok [OF demo_alerts_steps no_alerts_ok] r(1) r0(1)] r r0 show ?thesis
    by (intro exI [of _ r0] exI [of _ r] exI [of _ d']) (simp add: AlertRuleStateOpen_def AlertRuleStateInactive_def)
qed


end
