(* ===== verification/ResultTable.thy ===== *)
theory ResultTable
  imports ResultStore
begin

text \<open>
  The tables a submission writes to: hardware (\<^verbatim>\<open>internal/db/hardware.sql.go\<close>) and benchmark
  results (\<^verbatim>\<open>internal/db/benchmark_result.sql.go\<close>), with the statements of
  \<^verbatim>\<open>internal/db/store.go\<close> on them and the constraints of the schema they rest on; the
  other tables are those of \<open>Store\<close>. \<open>joined\<close> is what the read queries see of them.
\<close>

section \<open>Tables\<close>

record InsertHardwareParams =
  hw_Type :: string
  hw_Name :: string
  hw_Hash :: string
  hw_ArchitectureName :: "string ptr"
  hw_KernelName :: "string ptr"
  hw_OsName :: "string ptr"
  hw_OsVersion :: "string ptr"
  hw_CpuModelName :: "string ptr"
  hw_CpuL1dCacheBytes :: "int ptr"
  hw_CpuL1iCacheBytes :: "int ptr"
  hw_CpuL2CacheBytes :: "int ptr"
  hw_CpuL3CacheBytes :: "int ptr"
  hw_CpuCoreCount :: "int ptr"
  hw_CpuThreadCount :: "int ptr"
  hw_CpuFrequencyMaxHz :: "int ptr"
  hw_MemoryBytes :: "int ptr"
  hw_GpuCount :: "int ptr"
  hw_GpuProductNames :: "string list ptr"
  hw_Info :: "json ptr"
  hw_OptionalInfo :: "json ptr"

record hardware_row = InsertHardwareParams +
  hw_ID :: string

text \<open>The eight aggregate columns.\<close>

record aggCols =
  ac_Mean :: "f64 ptr"
  ac_Min :: "f64 ptr"
  ac_Max :: "f64 ptr"
  ac_Median :: "f64 ptr"
  ac_Q1 :: "f64 ptr"
  ac_Q3 :: "f64 ptr"
  ac_Stdev :: "f64 ptr"
  ac_Iqr :: "f64 ptr"

record InsertBenchmarkResultParams =
  ir_CaseID :: string
  ir_ContextID :: string
  ir_InfoID :: string
  ir_HardwareID :: string
  ir_RunID :: string
  ir_RunTags :: json
  ir_RunReason :: "string ptr"
  ir_CommitID :: "string ptr"
  ir_CommitRepoUrl :: string
  ir_HistoryFingerprint :: string
  ir_Timestamp :: time
  ir_Unit :: "string ptr"
  ir_TimeUnit :: "string ptr"
  ir_BatchID :: "string ptr"
  ir_Iterations :: "int ptr"
  ir_Error :: "json ptr"
  ir_Data :: "f64 ptr list ptr"
  ir_Times :: "f64 ptr list ptr"
  ir_Aggs :: aggCols
  ir_Validation :: "json ptr"
  ir_OptionalBenchmarkInfo :: "json ptr"
  ir_ChangeAnnotations :: "json ptr"
  ir_SubmissionKey :: "string ptr"
  ir_SubmissionPayloadSHA256 :: "string ptr"

record BenchmarkResult = InsertBenchmarkResultParams +
  ir_ID :: string

record SubmissionResult =
  sb_ID :: string
  sb_RunID :: string
  sb_HistoryFingerprint :: string
  sb_PayloadSHA256 :: string

record ingest_db =
  in_cases :: "json case_row list"
  in_contexts :: "json tags_row list"
  in_infos :: "json tags_row list"
  in_hardware :: "hardware_row list"
  in_commits :: "commit_row list"
  in_results :: "BenchmarkResult list"

section \<open>Hardware\<close>

text \<open>All columns but the id and the hash; \<^verbatim>\<open>IS NOT DISTINCT FROM\<close> is equality with NULL a value.\<close>

definition hardware_key :: "'a InsertHardwareParams_scheme \<Rightarrow> InsertHardwareParams" where
  "hardware_key h = InsertHardwareParams.truncate h\<lparr>hw_Hash := []\<rparr>"

definition GetHardwareByNaturalKey :: "InsertHardwareParams \<Rightarrow> hardware_row list \<Rightarrow> string result" where
  "GetHardwareByNaturalKey p t = select_id hardware_key hw_ID (hardware_key p) t"

text \<open>
  The unique index on the columns of a machine: two rows are in conflict when all of these
  columns are set and equal, since NULLs are distinct there.
\<close>

definition machine_tuple ::
  "'a InsertHardwareParams_scheme \<Rightarrow> string \<times> string ptr list \<times> int ptr list \<times> string list ptr" where
  "machine_tuple h = (hw_Name h,
     [hw_ArchitectureName h, hw_KernelName h, hw_OsName h, hw_OsVersion h, hw_CpuModelName h],
     [hw_CpuL1dCacheBytes h, hw_CpuL1iCacheBytes h, hw_CpuL2CacheBytes h, hw_CpuL3CacheBytes h,
      hw_CpuCoreCount h, hw_CpuThreadCount h, hw_CpuFrequencyMaxHz h, hw_MemoryBytes h, hw_GpuCount h],
     hw_GpuProductNames h)"

definition full_tuple :: "'a InsertHardwareParams_scheme \<Rightarrow> bool" where
  "full_tuple h = (case machine_tuple h of (_, ss, ns, gs) \<Rightarrow> None \<notin> set ss \<and> None \<notin> set ns \<and> gs \<noteq> None)"

definition same_machine :: "'a InsertHardwareParams_scheme \<Rightarrow> 'b InsertHardwareParams_scheme \<Rightarrow> bool" where
  "same_machine g h \<longleftrightarrow> full_tuple g \<and> machine_tuple g = machine_tuple h"

definition InsertHardware :: "hardware_row \<Rightarrow> hardware_row list \<Rightarrow> string result \<times> hardware_row list" where
  "InsertHardware h t =
     (if list_ex (same_machine h) t then (Inl ErrNoRows, t)
      else if hw_ID h \<in> set (map hw_ID t) then (Inl ErrUniqueKey, t)
      else (Inr (hw_ID h), t @ [h]))"

definition hardware_of :: "string \<Rightarrow> InsertHardwareParams \<Rightarrow> hardware_row" where
  "hardware_of i p = InsertHardwareParams.extend p \<lparr>hw_ID = i\<rparr>"

definition GetOrCreateHardware where
  "GetOrCreateHardware e1 e2 genID p t =
     getOrCreate (GetHardwareByNaturalKey p) (\<lambda>i. InsertHardware (hardware_of i p)) e1 e2 genID t"

section \<open>Results\<close>

definition result_of :: "string \<Rightarrow> InsertBenchmarkResultParams \<Rightarrow> BenchmarkResult" where
  "result_of i p = InsertBenchmarkResultParams.extend p \<lparr>ir_ID = i\<rparr>"

text \<open>\<^verbatim>\<open>benchmark_result_submission_idempotency_check\<close> of the second migration.\<close>

definition submission_check :: "'a InsertBenchmarkResultParams_scheme \<Rightarrow> bool" where
  "submission_check p = (case (ir_SubmissionKey p, ir_SubmissionPayloadSHA256 p) of
     (None, None) \<Rightarrow> True
   | (Some _, Some h) \<Rightarrow> length h = 64 \<and> set h \<subseteq> set ''0123456789abcdef''
   | _ \<Rightarrow> False)"

text \<open>The foreign keys of a result.\<close>

definition references :: "'a InsertBenchmarkResultParams_scheme \<Rightarrow> ingest_db \<Rightarrow> bool" where
  "references p d \<longleftrightarrow> ir_CaseID p \<in> case_id ` set (in_cases d) \<and> ir_ContextID p \<in> tags_id ` set (in_contexts d) \<and>
     ir_InfoID p \<in> tags_id ` set (in_infos d) \<and> ir_HardwareID p \<in> hw_ID ` set (in_hardware d) \<and>
     (case ir_CommitID p of None \<Rightarrow> True | Some i \<Rightarrow> i \<in> c_id ` set (in_commits d))"

definition InsertBenchmarkResult ::
  "string result \<Rightarrow> InsertBenchmarkResultParams \<Rightarrow> ingest_db \<Rightarrow> string result \<times> ingest_db" where
  "InsertBenchmarkResult genID p d = (case genID of Inl e \<Rightarrow> (Inl e, d)
     | Inr i \<Rightarrow>
        (if \<not> submission_check p then (Inl (ErrOther ''check constraint''), d)
         else if i \<in> set (map ir_ID (in_results d)) then (Inl ErrUniqueKey, d)
         else if ir_SubmissionKey p \<noteq> None \<and> ir_SubmissionKey p \<in> set (map ir_SubmissionKey (in_results d))
         then (Inl ErrConflict, d)
         else if \<not> references p d then (Inl (ErrOther ''foreign key''), d)
         else (Inr i, d\<lparr>in_results := in_results d @ [result_of i p]\<rparr>)))"

definition GetBenchmarkResultBySubmissionKey :: "string \<Rightarrow> ingest_db \<Rightarrow> SubmissionResult result" where
  "GetBenchmarkResultBySubmissionKey key d =
     (case find (\<lambda>r. ir_SubmissionKey r = Some key) (in_results d) of
        None \<Rightarrow> Inl ErrNotFound
      | Some r \<Rightarrow> (case ir_SubmissionPayloadSHA256 r of
           None \<Rightarrow> Inl ErrMissingHash
         | Some h \<Rightarrow> Inr \<lparr>sb_ID = ir_ID r, sb_RunID = ir_RunID r,
             sb_HistoryFingerprint = ir_HistoryFingerprint r, sb_PayloadSHA256 = h\<rparr>))"

definition UpdateBenchmarkResultChangeAnnotations :: "string \<Rightarrow> json \<Rightarrow> ingest_db \<Rightarrow> unit result \<times> ingest_db" where
  "UpdateBenchmarkResultChangeAnnotations i ca d =
     (if i \<in> set (map ir_ID (in_results d))
      then (Inr (), d\<lparr>in_results := map (\<lambda>r. if ir_ID r = i then r\<lparr>ir_ChangeAnnotations := Some ca\<rparr> else r) (in_results d)\<rparr>)
      else (Inl ErrNotFound, d))"

definition DeleteBenchmarkResult :: "string \<Rightarrow> ingest_db \<Rightarrow> unit result \<times> ingest_db" where
  "DeleteBenchmarkResult i d =
     (if i \<in> set (map ir_ID (in_results d))
      then (Inr (), d\<lparr>in_results := filter (\<lambda>r. ir_ID r \<noteq> i) (in_results d)\<rparr>)
      else (Inl ErrNotFound, d))"

definition GetBenchmarkResultByID :: "string \<Rightarrow> ingest_db \<Rightarrow> BenchmarkResult result" where
  "GetBenchmarkResultByID i d = (case find (\<lambda>r. ir_ID r = i) (in_results d) of None \<Rightarrow> Inl ErrNotFound | Some r \<Rightarrow> Inr r)"

definition CountBenchmarkResults :: "ingest_db \<Rightarrow> nat" where
  "CountBenchmarkResults d = length (in_results d)"

section \<open>What the read queries see\<close>

text \<open>A result joined to the rows its foreign keys name.\<close>

definition by_id :: "('r \<Rightarrow> string) \<Rightarrow> string \<Rightarrow> 'r list \<Rightarrow> 'r option" where
  "by_id rid i t = find (\<lambda>r. rid r = i) t"

definition join_row :: "ingest_db \<Rightarrow> BenchmarkResult \<Rightarrow> result_rec option" where
  "join_row d r =
     (case (by_id case_id (ir_CaseID r) (in_cases d), by_id tags_id (ir_ContextID r) (in_contexts d),
            by_id tags_id (ir_InfoID r) (in_infos d), by_id hw_ID (ir_HardwareID r) (in_hardware d)) of
        (Some cs, Some ctx, Some info, Some hw) \<Rightarrow>
          Some \<lparr>br_id = ir_ID r, br_run_id = ir_RunID r, br_run_tags = ir_RunTags r, br_run_reason = ir_RunReason r,
            br_commit_repo_url = ir_CommitRepoUrl r, br_timestamp = ir_Timestamp r,
            br_fingerprint = ir_HistoryFingerprint r, br_case_name = case_name cs, br_case_tags = Some (case_tags cs),
            br_context_tags = Some (tags_value ctx), br_info_tags = Some (tags_value info), br_hw_id = hw_ID hw,
            br_hw_type = hw_Type hw, br_hw_name = hw_Name hw, br_hw_hash = hw_Hash hw, br_commit_id = ir_CommitID r,
            br_unit = ir_Unit r, br_mean = ac_Mean (ir_Aggs r),
            br_data = (case ir_Data r of None \<Rightarrow> [] | Some xs \<Rightarrow> xs), br_error = ir_Error r,
            br_change_annotations = ir_ChangeAnnotations r\<rparr>
      | _ \<Rightarrow> None)"

definition joined :: "ingest_db \<Rightarrow> db" where
  "joined d = \<lparr>db_results = List.map_filter (join_row d) (in_results d), db_commits = in_commits d\<rparr>"

end
