(* ===== verification/JsonText.thy ===== *)
theory JsonText
  imports Json Url
begin

text \<open>
  \<^verbatim>\<open>encoding/json\<close> as the ingestion uses it: decoded values written to a \<^verbatim>\<open>jsonb\<close> column,
  the text of a value as \<^verbatim>\<open>json.Marshal\<close> writes it, and \<^verbatim>\<open>time.Time\<close> in RFC 3339.
\<close>

section \<open>Values for columns\<close>

text \<open>
  A number is written with the shortest digits that read back as the same \<open>float64\<close>; its
  value as a decimal is what a \<^verbatim>\<open>jsonb\<close> column keeps.
\<close>

definition decimal_pos :: "rat \<Rightarrow> rat" where
  "decimal_pos r = (let (m, k) = shortest_from 1 16 r in of_int m * 10 powi k)"

definition decimal :: "rat \<Rightarrow> rat" where
  "decimal r = (if r = 0 then 0 else if r < 0 then - decimal_pos (- r) else decimal_pos r)"

text \<open>
  The keys of an object come out sorted, bytes that are no UTF-8 as U+FFFD; a number that is
  not finite is an error.
\<close>

definition utf8 :: "string \<Rightarrow> string" where
  "utf8 s = concat (runes s)"

definition sort_fields :: "(string \<times> 'a) list \<Rightarrow> (string \<times> 'a) list" where
  "sort_fields = stable_sort (\<lambda>a b. fst a < fst b)"

fun marshal :: "any \<Rightarrow> json option"
and marshal_list :: "any list \<Rightarrow> json list option"
and marshal_fields :: "(string \<times> any) list \<Rightarrow> (string \<times> json) list option" where
  "marshal ANil = Some JNull"
| "marshal (ABool b) = Some (JBool b)"
| "marshal (ANum x) = (case x of Fin r \<Rightarrow> Some (JNum (decimal r)) | NZero \<Rightarrow> Some (JNum 0) | _ \<Rightarrow> None)"
| "marshal (AStr s) = Some (JStr (utf8 s))"
| "marshal (AArr xs) = map_option JArr (marshal_list xs)"
| "marshal (AObj fs) = map_option (JObj \<circ> sort_fields) (marshal_fields fs)"
| "marshal_list [] = Some []"
| "marshal_list (x # xs) = (case marshal x of None \<Rightarrow> None
     | Some y \<Rightarrow> map_option (Cons y) (marshal_list xs))"
| "marshal_fields [] = Some []"
| "marshal_fields ((k, x) # xs) = (case marshal x of None \<Rightarrow> None
     | Some y \<Rightarrow> map_option (Cons (utf8 k, y)) (marshal_fields xs))"

section \<open>Numbers and times as text\<close>

text \<open>A \<open>float64\<close>: an exponent only far from one, and not padded to two digits.\<close>

definition fmt_fixed :: "string \<Rightarrow> int \<Rightarrow> string" where
  "fmt_fixed ds dp =
     (if dp \<le> 0 then ''0.'' @ replicate (nat (- dp)) (CHR ''0'') @ ds
      else if int (length ds) \<le> dp then ds @ replicate (nat dp - length ds) (CHR ''0'')
      else take (nat dp) ds @ ''.'' @ drop (nat dp) ds)"

definition json_float_pos :: "rat \<Rightarrow> string" where
  "json_float_pos r = (let (ds, dp) = shortest_digits r in
     if r < val (rnd (1 / 10 ^ 6)) \<or> 10 ^ 21 \<le> r then
       take 1 ds @ (if length ds = 1 then [] else ''.'' @ drop 1 ds) @
       (if dp - 1 < 0 then ''e-'' else ''e+'') @ itoa \<bar>dp - 1\<bar>
     else fmt_fixed ds dp)"

definition json_float :: "f64 \<Rightarrow> string option" where
  "json_float x = (case x of
     Fin r \<Rightarrow> Some (if r = 0 then ''0'' else if r < 0 then ''-'' @ json_float_pos (- r) else json_float_pos r)
   | NZero \<Rightarrow> Some ''-0'' | _ \<Rightarrow> None)"

text \<open>
  \<open>time.Time.MarshalJSON\<close> of an instant shown at an offset from UTC in seconds: the civil
  date of a day number, RFC 3339 with the nanoseconds that are not zero, an error outside
  the years 0 to 9999 and for offsets of a day or more.
\<close>

definition civil :: "int \<Rightarrow> int \<times> int \<times> int" where
  "civil days = (let z = days + 719468; era = z div 146097; doe = z mod 146097;
     yoe = (doe - doe div 1460 + doe div 36524 - doe div 146096) div 365;
     doy = doe - (365 * yoe + yoe div 4 - yoe div 100); mp = (5 * doy + 2) div 153;
     m = (if mp < 10 then mp + 3 else mp - 9) in
     (yoe + era * 400 + (if m \<le> 2 then 1 else 0), m, doy - (153 * mp + 2) div 5 + 1))"

definition pad_left :: "nat \<Rightarrow> string \<Rightarrow> string" where
  "pad_left n s = replicate (n - length s) (CHR ''0'') @ s"

definition time_text :: "time \<Rightarrow> int \<Rightarrow> string option" where
  "time_text t offset =
     (let l = t + offset * 10 ^ 9; secs = l div 10 ^ 9; ns = l mod 10 ^ 9;
          (y, m, d) = civil (secs div 86400); s = secs mod 86400;
          two = (\<lambda>k. pad_left 2 (itoa k)); off = \<bar>offset\<bar> div 60 in
      if y < 0 \<or> 9999 < y \<or> 24 * 60 \<le> off then None
      else Some (pad_left 4 (itoa y) @ ''-'' @ two m @ ''-'' @ two d @ ''T'' @
        two (s div 3600) @ '':'' @ two (s div 60 mod 60) @ '':'' @ two (s mod 60) @
        (if ns = 0 then [] else ''.'' @ trim_right (\<lambda>c. c = CHR ''0'') (pad_left 9 (itoa ns))) @
        (if offset = 0 then ''Z''
         else (if offset < 0 then ''-'' else ''+'') @ two (off div 60) @ '':'' @ two (off mod 60))))"

section \<open>Text of a document\<close>

text \<open>A document with its numbers as written (\<open>json.Number\<close>).\<close>

datatype doc = DNull | DBool bool | DNum string | DStr string | DArr "doc list" | DObj "(string \<times> doc) list"

text \<open>
  \<open>json.Marshal\<close> followed by decoding with \<open>UseNumber\<close>: numbers keep their digits, strings
  are UTF-8.
\<close>

fun doc_of :: "any \<Rightarrow> doc option"
and doc_list :: "any list \<Rightarrow> doc list option"
and doc_fields :: "(string \<times> any) list \<Rightarrow> (string \<times> doc) list option" where
  "doc_of ANil = Some DNull"
| "doc_of (ABool b) = Some (DBool b)"
| "doc_of (ANum x) = map_option DNum (json_float x)"
| "doc_of (AStr s) = Some (DStr (utf8 s))"
| "doc_of (AArr xs) = map_option DArr (doc_list xs)"
| "doc_of (AObj fs) = map_option (DObj \<circ> sort_fields) (doc_fields fs)"
| "doc_list [] = Some []"
| "doc_list (x # xs) = (case doc_of x of None \<Rightarrow> None | Some y \<Rightarrow> map_option (Cons y) (doc_list xs))"
| "doc_fields [] = Some []"
| "doc_fields ((k, x) # xs) = (case doc_of x of None \<Rightarrow> None
     | Some y \<Rightarrow> map_option (Cons (utf8 k, y)) (doc_fields xs))"

text \<open>
  Strings are escaped for HTML too: \<^verbatim>\<open><\<close>, \<^verbatim>\<open>>\<close>, \<^verbatim>\<open>&\<close> and the two line separators of Unicode,
  like the control characters without a short form, are written as \<^verbatim>\<open>\u\<close> and four digits.
\<close>

definition hex4 :: "nat \<Rightarrow> string" where
  "hex4 n = map (\<lambda>d. ''0123456789abcdef'' ! (n div d mod 16)) [4096, 256, 16, 1]"

definition unicode_escape :: "nat \<Rightarrow> string" where
  "unicode_escape n = [CHR 0x5C, CHR ''u''] @ hex4 n"

definition escape_rune :: "string \<Rightarrow> string" where
  "escape_rune s = (case s of
     [c] \<Rightarrow> (let n = of_char c :: nat in
       if n = 0x22 \<or> n = 0x5C then [CHR 0x5C, c]
       else if n = 0x08 then [CHR 0x5C, CHR ''b''] else if n = 0x0C then [CHR 0x5C, CHR ''f'']
       else if n = 0x0A then [CHR 0x5C, CHR ''n''] else if n = 0x0D then [CHR 0x5C, CHR ''r'']
       else if n = 0x09 then [CHR 0x5C, CHR ''t'']
       else if n < 0x20 \<or> n = 0x3C \<or> n = 0x3E \<or> n = 0x26 then unicode_escape n
       else [c])
   | _ \<Rightarrow> if s = [CHR 0xE2, CHR 0x80, CHR 0xA8] then unicode_escape 0x2028
          else if s = [CHR 0xE2, CHR 0x80, CHR 0xA9] then unicode_escape 0x2029 else s)"

definition string_text :: "string \<Rightarrow> string" where
  "string_text s = [CHR 0x22] @ concat (map escape_rune (runes s)) @ [CHR 0x22]"

fun doc_text :: "doc \<Rightarrow> string"
and list_texts :: "doc list \<Rightarrow> string list"
and field_texts :: "(string \<times> doc) list \<Rightarrow> string list" where
  "doc_text DNull = ''null''"
| "doc_text (DBool b) = (if b then ''true'' else ''false'')"
| "doc_text (DNum s) = s"
| "doc_text (DStr s) = string_text s"
| "doc_text (DArr xs) = ''['' @ str_join '','' (list_texts xs) @ '']''"
| "doc_text (DObj fs) = ''{'' @ str_join '','' (field_texts fs) @ ''}''"
| "list_texts [] = []"
| "list_texts (x # xs) = doc_text x # list_texts xs"
| "field_texts [] = []"
| "field_texts ((k, x) # xs) = (string_text k @ '':'' @ doc_text x) # field_texts xs"

end
