(* ===== verification/Hardware.thy ===== *)
theory Hardware
  imports JsonText
begin

text \<open>
  \<^verbatim>\<open>internal/hardware/hash.go\<close> and \<^verbatim>\<open>internal/stats/fingerprint.go\<close>: the identity hashes of
  machines and clusters and the fingerprint of a history. \<open>md5\<close>, as hexadecimal digits, is a parameter.
\<close>

section \<open>Python's rendering of JSON\<close>

definition contains_any :: "string \<Rightarrow> string \<Rightarrow> bool" where
  "contains_any s chars \<longleftrightarrow> list_ex (\<lambda>c. c \<in> set chars) s"

text \<open>A number is given by its value; \<open>json_float\<close> is how it was written.\<close>

definition pyNumber :: "f64 \<Rightarrow> string" where
  "pyNumber x = (let s = the (json_float x) in
     if \<not> contains_any s ''.eE'' then s
     else let out = format_float x in if contains_any out ''.eEnN'' then out else out @ ''.0'')"

text \<open>The code point of a rune given by its encoding.\<close>

fun rune_val :: "string \<Rightarrow> nat" where
  "rune_val [a] = of_char a"
| "rune_val [a, b] = (of_char a mod 32) * 64 + of_char b mod 64"
| "rune_val [a, b, c] = (of_char a mod 16) * 4096 + (of_char b mod 64) * 64 + of_char c mod 64"
| "rune_val (a # b # c # d # _) = (of_char a mod 8) * 262144 + (of_char b mod 64) * 4096 + (of_char c mod 64) * 64 + of_char d mod 64"
| "rune_val [] = 0"

definition writeUnicodeEscape :: "nat \<Rightarrow> string" where
  "writeUnicodeEscape r = [CHR 0x5C, CHR ''u''] @ hex4 r"

definition py_rune :: "string \<Rightarrow> string" where
  "py_rune s = (let r = rune_val s in
     if r = 0x22 then [CHR 0x5C, CHR 0x22] else if r = 0x5C then [CHR 0x5C, CHR 0x5C]
     else if r = 0x0A then [CHR 0x5C, CHR ''n''] else if r = 0x0D then [CHR 0x5C, CHR ''r'']
     else if r = 0x09 then [CHR 0x5C, CHR ''t''] else if r = 0x08 then [CHR 0x5C, CHR ''b'']
     else if r = 0x0C then [CHR 0x5C, CHR ''f'']
     else if 0x20 \<le> r \<and> r < 0x7F then s
     else if r > 0xFFFF then
       writeUnicodeEscape (0xD800 + (r - 0x10000) div 1024) @ writeUnicodeEscape (0xDC00 + (r - 0x10000) mod 1024)
     else writeUnicodeEscape r)"

definition writePythonString :: "string \<Rightarrow> string" where
  "writePythonString s = [CHR 0x22] @ concat (map py_rune (runes s)) @ [CHR 0x22]"

fun writePythonJSON :: "any \<Rightarrow> string"
and py_list :: "any list \<Rightarrow> string list"
and py_fields :: "(string \<times> any) list \<Rightarrow> (string \<times> string) list" where
  "writePythonJSON ANil = ''null''"
| "writePythonJSON (ABool b) = (if b then ''true'' else ''false'')"
| "writePythonJSON (AStr s) = writePythonString s"
| "writePythonJSON (ANum x) = pyNumber x"
| "writePythonJSON (AArr xs) = ''['' @ str_join '', '' (py_list xs) @ '']''"
| "writePythonJSON (AObj fs) = ''{'' @ str_join '', ''
     (map (\<lambda>(k, v). writePythonString k @ '': '' @ v) (sort_fields (py_fields fs))) @ ''}''"
| "py_list [] = []"
| "py_list (x # xs) = writePythonJSON x # py_list xs"
| "py_fields [] = []"
| "py_fields ((k, x) # xs) = (k, writePythonJSON x) # py_fields xs"

section \<open>Hashes\<close>

definition pyInt :: "int ptr \<Rightarrow> string" where
  "pyInt n = (case n of None \<Rightarrow> ''None'' | Some k \<Rightarrow> itoa k)"

definition MachineHash :: "string \<Rightarrow> int ptr \<Rightarrow> int ptr \<Rightarrow> int ptr \<Rightarrow> int ptr \<Rightarrow> string" where
  "MachineHash name gpuCount cpuCoreCount cpuThreadCount memoryBytes =
     name @ ''-'' @ pyInt gpuCount @ ''-'' @ pyInt cpuCoreCount @ ''-'' @ pyInt cpuThreadCount @ ''-'' @ pyInt memoryBytes"

text \<open>
  The cluster's info arrives as the text \<open>json.Marshal\<close> made of a decoded map: its strings
  are UTF-8 and its numbers those of the map.
\<close>

fun utf8_any :: "any \<Rightarrow> any"
and utf8_list :: "any list \<Rightarrow> any list"
and utf8_fields :: "(string \<times> any) list \<Rightarrow> (string \<times> any) list" where
  "utf8_any (AStr s) = AStr (utf8 s)"
| "utf8_any (AArr xs) = AArr (utf8_list xs)"
| "utf8_any (AObj fs) = AObj (utf8_fields fs)"
| "utf8_any ANil = ANil"
| "utf8_any (ABool b) = ABool b"
| "utf8_any (ANum x) = ANum x"
| "utf8_list [] = []"
| "utf8_list (x # xs) = utf8_any x # utf8_list xs"
| "utf8_fields [] = []"
| "utf8_fields ((k, x) # xs) = (utf8 k, utf8_any x) # utf8_fields xs"

definition pythonJSONString :: "any_map \<Rightarrow> string" where
  "pythonJSONString info = writePythonJSON (utf8_any (AObj info))"

definition ClusterHash :: "(string \<Rightarrow> string) \<Rightarrow> string \<Rightarrow> any_map \<Rightarrow> string" where
  "ClusterHash md5 name info = name @ ''-'' @ md5 (pythonJSONString info)"

definition HistoryFingerprint :: "(string \<Rightarrow> string) \<Rightarrow> string \<Rightarrow> string \<Rightarrow> string \<Rightarrow> string \<Rightarrow> string" where
  "HistoryFingerprint md5 caseID contextID hardwareHash repoURL = md5 (caseID @ contextID @ hardwareHash @ repoURL)"

end
