(* ===== verification/Ingest.thy ===== *)
theory Ingest
  imports ResultTable Hardware Commit Compare
begin

text \<open>
  \<^verbatim>\<open>internal/service/ingest.go\<close>, \<^verbatim>\<open>request.go\<close> and \<^verbatim>\<open>update.go\<close>: the submission of one
  benchmark result, from the request to the rows of the database, and the two other write
  operations on results. A submission is a sequence of calls of the store with the work of
  other transactions between and inside them, which a \<open>script\<close> supplies together with the
  ids drawn and the calls that fail. The commit provider, \<open>md5\<close> and \<open>sha256\<close> (as hexadecimal
  digits) are arguments.
\<close>

section \<open>Requests\<close>

record MachineInfo =
  mi_Name :: string
  mi_ArchitectureName :: "string ptr"
  mi_KernelName :: "string ptr"
  mi_OsName :: "string ptr"
  mi_OsVersion :: "string ptr"
  mi_CpuModelName :: "string ptr"
  mi_CpuL1dCacheBytes :: "int ptr"
  mi_CpuL1iCacheBytes :: "int ptr"
  mi_CpuL2CacheBytes :: "int ptr"
  mi_CpuL3CacheBytes :: "int ptr"
  mi_CpuCoreCount :: "int ptr"
  mi_CpuThreadCount :: "int ptr"
  mi_CpuFrequencyMaxHz :: "int ptr"
  mi_MemoryBytes :: "int ptr"
  mi_GpuCount :: "int ptr"
  mi_GpuProductNames :: "string list ptr"

record ClusterInfo =
  ci_Name :: string
  ci_Info :: "any_map ptr"
  ci_OptionalInfo :: "any_map ptr"

record GitHubInfo =
  gi_Commit :: string
  gi_Repository :: string
  gi_Branch :: "string ptr"
  gi_PRNumber :: "int ptr"

text \<open>The aggregates the client gives are a record of the eight columns.\<close>

record StatsInput =
  si_Data :: "f64 ptr list ptr"
  si_Times :: "f64 ptr list ptr"
  si_Unit :: string
  si_TimeUnit :: string
  si_Iterations :: "int ptr"
  si_Aggs :: aggCols

record JSONObject =
  jo_Present :: bool
  jo_Null :: bool
  jo_Value :: "any_map ptr"

text \<open>A nil map or slice is \<open>None\<close>; the timestamp is an instant and the offset it was given at.\<close>

record SubmitRequest =
  rq_SubmissionKey :: string
  rq_Tags :: "any_map ptr"
  rq_Context :: "any_map ptr"
  rq_Info :: "any_map ptr"
  rq_MachineInfo :: "MachineInfo ptr"
  rq_ClusterInfo :: "ClusterInfo ptr"
  rq_GitHub :: GitHubInfo
  rq_RunID :: string
  rq_RunName :: "string ptr"
  rq_RunTags :: "any_map ptr"
  rq_RunReason :: string
  rq_BatchID :: string
  rq_Timestamp :: time
  rq_Offset :: int
  rq_Stats :: "StatsInput ptr"
  rq_Error :: JSONObject
  rq_OptionalBenchmarkInfo :: "any_map ptr"
  rq_Validation :: "any_map ptr"
  rq_ChangeAnnotations :: "any_map ptr"

text \<open>\<open>UnmarshalJSON\<close> of a field that is present: null, an object, or an error.\<close>

definition JSONObject_Unmarshal :: "json \<Rightarrow> json_error + JSONObject" where
  "JSONObject_Unmarshal j = (if j = JNull then Inr \<lparr>jo_Present = True, jo_Null = True, jo_Value = None\<rparr>
     else case unmarshal_map j of Inl e \<Rightarrow> Inl e | Inr m \<Rightarrow> Inr \<lparr>jo_Present = True, jo_Null = False, jo_Value = m\<rparr>)"

definition any_obj :: "any_map ptr \<Rightarrow> any" where
  "any_obj m = (case m of None \<Rightarrow> ANil | Some fs \<Rightarrow> AObj fs)"

definition JSONObject_Marshal :: "JSONObject \<Rightarrow> any" where
  "JSONObject_Marshal v = (if \<not> jo_Present v \<or> jo_Null v then ANil else any_obj (jo_Value v))"

text \<open>The first two are validation errors; the second carries the error of the units package.\<close>

datatype submit_error =
  ValidationFailed string | UnitRejected unit_error | SubmissionConflict | SubmitStore string db_error | SubmitMarshal string
| SubmitResolve string | SubmitNotFound | SubmitJson json_error | SubmitPanic

fun is_validation :: "submit_error \<Rightarrow> bool" where
  "is_validation (ValidationFailed _) = True"
| "is_validation (UnitRejected _) = True"
| "is_validation _ = False"

type_synonym 'a sub = "submit_error + 'a"

section \<open>Pure steps\<close>

definition strOrNil :: "string \<Rightarrow> string ptr" where
  "strOrNil s = (if s = [] then None else Some s)"

subsection \<open>Tags\<close>

text \<open>\<open>math.Abs(f) < 1e15\<close> for a whole number.\<close>

definition formatNumber :: "f64 \<Rightarrow> string" where
  "formatNumber f = (case f of
     NZero \<Rightarrow> ''0''
   | Fin r \<Rightarrow> (if r = of_int \<lfloor>r\<rfloor> \<and> \<bar>r\<bar> < 10 ^ 15 then itoa \<lfloor>r\<rfloor> else format_float f)
   | _ \<Rightarrow> format_float f)"

definition ticks :: "string \<Rightarrow> string" where
  "ticks s = [CHR 0x60] @ s @ [CHR 0x60]"

definition bad_tag_value :: "string \<Rightarrow> string" where
  "bad_tag_value key = ''tags: bad value type for key '' @ ticks key @ '', JSON object and array is not allowed''"

text \<open>\<open>None\<close> drops the tag. Decoded values have no other types of numbers.\<close>

definition stringifyTagValue :: "string \<Rightarrow> any \<Rightarrow> string option sub" where
  "stringifyTagValue key v = (case v of
     ANil \<Rightarrow> Inr None
   | AStr x \<Rightarrow> Inr (if x = [] then None else Some x)
   | ABool b \<Rightarrow> Inr (Some (if b then ''True'' else ''False''))
   | ANum x \<Rightarrow> Inr (Some (formatNumber x))
   | _ \<Rightarrow> Inl (ValidationFailed (bad_tag_value key)))"

text \<open>The entries come in the order the map is iterated in.\<close>

fun tag_loop :: "any_map \<Rightarrow> (string \<times> string) list sub" where
  "tag_loop [] = Inr []"
| "tag_loop ((k, v) # tags) =
     (if k = [] then Inl (ValidationFailed ''tags: zero-length string as key is not allowed'')
      else case stringifyTagValue k v of Inl e \<Rightarrow> Inl e
        | Inr s \<Rightarrow> (case tag_loop tags of Inl e \<Rightarrow> Inl e
            | Inr out \<Rightarrow> Inr (case s of None \<Rightarrow> out | Some x \<Rightarrow> (k, x) # out)))"

definition splitTags :: "any_map ptr \<Rightarrow> (string \<times> (string \<times> string) list) sub" where
  "splitTags tags = (case tags of
     None \<Rightarrow> Inl (ValidationFailed (ticks ''name'' @ '' property must be present in '' @ ticks ''tags''))
   | Some fs \<Rightarrow>
      (if map_of fs ''name'' = None then Inl (ValidationFailed (ticks ''name'' @ '' property must be present in '' @ ticks ''tags''))
       else case tag_loop fs of Inl e \<Rightarrow> Inl e
         | Inr out \<Rightarrow> (case map_of out ''name'' of
             None \<Rightarrow> Inl (ValidationFailed (ticks ''name'' @ '' tag must be a non-empty value''))
           | Some name \<Rightarrow> Inr (name, filter (\<lambda>(k, _). k \<noteq> ''name'') out))))"

subsection \<open>Statistics\<close>

definition partialErrorStatus :: string where
  "partialErrorStatus = ''Partial result: not all iterations completed''"

record resolved =
  rs_errorJSON :: "json ptr"
  rs_unit :: "string ptr"
  rs_timeUnit :: "string ptr"
  rs_iterations :: "int ptr"
  rs_data :: "f64 ptr list ptr"
  rs_times :: "f64 ptr list ptr"
  rs_aggs :: aggCols

definition no_aggs :: aggCols where
  "no_aggs = \<lparr>ac_Mean = None, ac_Min = None, ac_Max = None, ac_Median = None, ac_Q1 = None, ac_Q3 = None,
     ac_Stdev = None, ac_Iqr = None\<rparr>"

definition userAggCols :: "StatsInput ptr \<Rightarrow> aggCols" where
  "userAggCols s = (case s of None \<Rightarrow> no_aggs | Some x \<Rightarrow> si_Aggs x)"

definition computedAggCols :: "Aggregates \<Rightarrow> aggCols" where
  "computedAggCols agg = \<lparr>ac_Mean = Some (Mean agg), ac_Min = Min agg, ac_Max = Max agg, ac_Median = Median agg,
     ac_Q1 = Q1 agg, ac_Q3 = Q3 agg, ac_Stdev = Stdev agg, ac_Iqr = Iqr agg\<rparr>"

definition looksLikeError :: "f64 ptr list ptr \<Rightarrow> bool" where
  "looksLikeError data = (case data of None \<Rightarrow> True | Some xs \<Rightarrow> xs = [] \<or> list_ex (\<lambda>x. x = None) xs)"

definition rawUnit :: "StatsInput ptr \<Rightarrow> string ptr" where
  "rawUnit s = (case s of None \<Rightarrow> None | Some x \<Rightarrow> strOrNil (si_Unit x))"

definition resolveStats :: "SubmitRequest \<Rightarrow> resolved sub" where
  "resolveStats req =
     (let r0 = (case rq_Stats req of
          None \<Rightarrow> \<lparr>rs_errorJSON = None, rs_unit = None, rs_timeUnit = None, rs_iterations = None, rs_data = None,
             rs_times = None, rs_aggs = no_aggs\<rparr>
        | Some s \<Rightarrow> \<lparr>rs_errorJSON = None, rs_unit = None, rs_timeUnit = strOrNil (si_TimeUnit s),
             rs_iterations = si_Iterations s, rs_data = si_Data s, rs_times = si_Times s, rs_aggs = no_aggs\<rparr>);
          raw = (\<lambda>j. r0\<lparr>rs_errorJSON := Some j, rs_unit := rawUnit (rq_Stats req), rs_aggs := userAggCols (rq_Stats req)\<rparr>) in
      if jo_Present (rq_Error req) then
        (case marshal (any_obj (jo_Value (rq_Error req))) of None \<Rightarrow> Inl (SubmitMarshal ''error'') | Some j \<Rightarrow> Inr (raw j))
      else case rq_Stats req of
        None \<Rightarrow> Inl SubmitPanic
      | Some s \<Rightarrow>
          (if looksLikeError (si_Data s) then Inr (raw (JObj [(''status'', JStr partialErrorStatus)]))
           else case LegacyConvert (si_Unit s) of
             Inl e \<Rightarrow> Inl (UnitRejected e)
           | Inr unit \<Rightarrow> (case Aggregate (map the (the (si_Data s))) of
                None \<Rightarrow> Inl SubmitPanic
              | Some agg \<Rightarrow> Inr (r0\<lparr>rs_unit := Some unit, rs_aggs := computedAggCols agg\<rparr>))))"

subsection \<open>Columns\<close>

definition marshalMapOrEmpty :: "any_map ptr \<Rightarrow> json option" where
  "marshalMapOrEmpty m = marshal (AObj (case m of None \<Rightarrow> [] | Some fs \<Rightarrow> fs))"

definition marshalMapOrNil :: "any_map ptr \<Rightarrow> json ptr option" where
  "marshalMapOrNil m = (case m of None \<Rightarrow> Some None | Some fs \<Rightarrow> map_option Some (marshal (AObj fs)))"

definition filterNullValues :: "any_map \<Rightarrow> any_map" where
  "filterNullValues m = filter (\<lambda>(_, v). v \<noteq> ANil) m"

definition entries :: "any_map ptr \<Rightarrow> any_map" where
  "entries m = (case m of None \<Rightarrow> [] | Some fs \<Rightarrow> fs)"

definition buildRunTags :: "SubmitRequest \<Rightarrow> json option" where
  "buildRunTags req = (let rt = entries (rq_RunTags req) in
     marshal (AObj (case rq_RunName req of None \<Rightarrow> rt
       | Some n \<Rightarrow> (if map_of rt ''name'' = None then map_set ''name'' (AStr n) rt else rt))))"

definition validateHardware :: "SubmitRequest \<Rightarrow> unit sub" where
  "validateHardware req =
     (if rq_MachineInfo req = None \<and> rq_ClusterInfo req = None
      then Inl (ValidationFailed ''either machine_info or cluster_info field is required'')
      else if rq_MachineInfo req \<noteq> None \<and> rq_ClusterInfo req \<noteq> None
      then Inl (ValidationFailed ''machine_info and cluster_info fields can not be used at the same time'')
      else Inr ())"

definition machine_params :: "MachineInfo \<Rightarrow> string \<Rightarrow> InsertHardwareParams" where
  "machine_params m hash = \<lparr>hw_Type = ''machine'', hw_Name = mi_Name m, hw_Hash = hash,
     hw_ArchitectureName = mi_ArchitectureName m, hw_KernelName = mi_KernelName m, hw_OsName = mi_OsName m,
     hw_OsVersion = mi_OsVersion m, hw_CpuModelName = mi_CpuModelName m, hw_CpuL1dCacheBytes = mi_CpuL1dCacheBytes m,
     hw_CpuL1iCacheBytes = mi_CpuL1iCacheBytes m, hw_CpuL2CacheBytes = mi_CpuL2CacheBytes m,
     hw_CpuL3CacheBytes = mi_CpuL3CacheBytes m, hw_CpuCoreCount = mi_CpuCoreCount m,
     hw_CpuThreadCount = mi_CpuThreadCount m, hw_CpuFrequencyMaxHz = mi_CpuFrequencyMaxHz m,
     hw_MemoryBytes = mi_MemoryBytes m, hw_GpuCount = mi_GpuCount m,
     hw_GpuProductNames = Some (case mi_GpuProductNames m of None \<Rightarrow> [] | Some gs \<Rightarrow> gs),
     hw_Info = None, hw_OptionalInfo = None\<rparr>"

definition cluster_params :: "string \<Rightarrow> string \<Rightarrow> json \<Rightarrow> json ptr \<Rightarrow> InsertHardwareParams" where
  "cluster_params name hash info opt = \<lparr>hw_Type = ''cluster'', hw_Name = name, hw_Hash = hash,
     hw_ArchitectureName = None, hw_KernelName = None, hw_OsName = None,
     hw_OsVersion = None, hw_CpuModelName = None, hw_CpuL1dCacheBytes = None,
     hw_CpuL1iCacheBytes = None, hw_CpuL2CacheBytes = None, hw_CpuL3CacheBytes = None, hw_CpuCoreCount = None,
     hw_CpuThreadCount = None, hw_CpuFrequencyMaxHz = None, hw_MemoryBytes = None, hw_GpuCount = None,
     hw_GpuProductNames = None, hw_Info = Some info, hw_OptionalInfo = opt\<rparr>"

definition buildHardware :: "(string \<Rightarrow> string) \<Rightarrow> SubmitRequest \<Rightarrow> (InsertHardwareParams \<times> string) sub" where
  "buildHardware md5 req = (case rq_MachineInfo req of
     Some m \<Rightarrow>
       (let hash = MachineHash (mi_Name m) (mi_GpuCount m) (mi_CpuCoreCount m) (mi_CpuThreadCount m) (mi_MemoryBytes m) in
        Inr (machine_params m hash, hash))
   | None \<Rightarrow> (case rq_ClusterInfo req of None \<Rightarrow> Inl SubmitPanic
     | Some c \<Rightarrow>
        (case marshalMapOrEmpty (ci_Info c) of None \<Rightarrow> Inl (SubmitMarshal ''cluster info'')
         | Some info \<Rightarrow>
            (case marshalMapOrNil (ci_OptionalInfo c) of None \<Rightarrow> Inl (SubmitMarshal ''cluster optional_info'')
             | Some opt \<Rightarrow> (let hash = ClusterHash md5 (ci_Name c) (entries (ci_Info c)) in
                 Inr (cluster_params (ci_Name c) hash info opt, hash))))))"

record insertRefs =
  rf_caseID :: string
  rf_contextID :: string
  rf_infoID :: string
  rf_hardwareID :: string
  rf_commitID :: "string ptr"
  rf_repoURL :: string
  rf_fingerprint :: string

definition or_marshal :: "string \<Rightarrow> 'a option \<Rightarrow> 'a sub" where
  "or_marshal what x = (case x of None \<Rightarrow> Inl (SubmitMarshal what) | Some y \<Rightarrow> Inr y)"

definition sub_bind :: "'a sub \<Rightarrow> ('a \<Rightarrow> 'b sub) \<Rightarrow> 'b sub" where
  "sub_bind m f = (case m of Inl e \<Rightarrow> Inl e | Inr x \<Rightarrow> f x)"

definition buildInsertParams ::
  "SubmitRequest \<Rightarrow> resolved \<Rightarrow> insertRefs \<Rightarrow> string \<Rightarrow> InsertBenchmarkResultParams sub" where
  "buildInsertParams req rs refs payloadHash =
     sub_bind (or_marshal ''run tags'' (buildRunTags req)) (\<lambda>runTags.
     sub_bind (or_marshal ''validation'' (marshalMapOrNil (rq_Validation req))) (\<lambda>validation.
     sub_bind (or_marshal ''optional_benchmark_info'' (marshalMapOrNil (rq_OptionalBenchmarkInfo req))) (\<lambda>obi.
     sub_bind (or_marshal ''change_annotations''
         (marshal (AObj (filterNullValues (entries (rq_ChangeAnnotations req)))))) (\<lambda>ca.
     Inr \<lparr>ir_CaseID = rf_caseID refs, ir_ContextID = rf_contextID refs, ir_InfoID = rf_infoID refs,
          ir_HardwareID = rf_hardwareID refs, ir_RunID = rq_RunID req, ir_RunTags = runTags,
          ir_RunReason = strOrNil (rq_RunReason req), ir_CommitID = rf_commitID refs,
          ir_CommitRepoUrl = rf_repoURL refs, ir_HistoryFingerprint = rf_fingerprint refs,
          ir_Timestamp = rq_Timestamp req, ir_Unit = rs_unit rs, ir_TimeUnit = rs_timeUnit rs,
          ir_BatchID = strOrNil (rq_BatchID req), ir_Iterations = rs_iterations rs, ir_Error = rs_errorJSON rs,
          ir_Data = rs_data rs, ir_Times = rs_times rs, ir_Aggs = rs_aggs rs, ir_Validation = validation,
          ir_OptionalBenchmarkInfo = obi, ir_ChangeAnnotations = Some ca,
          ir_SubmissionKey = strOrNil (rq_SubmissionKey req),
          ir_SubmissionPayloadSHA256 = strOrNil payloadHash\<rparr>))))"

section \<open>The digest of a submission\<close>

text \<open>
  Fields in the order of the struct; \<open>omitempty\<close> leaves out the empty string, the nil
  pointer and the empty map or slice, \<open>omitzero\<close> the zero struct. Marshalled and decoded
  into a map, the fields come out sorted. The strings of a decoded request are UTF-8.
\<close>

definition omit_string :: "string \<Rightarrow> string \<Rightarrow> (string \<times> doc option) list" where
  "omit_string k s = (if s = [] then [] else [(k, Some (DStr (utf8 s)))])"

definition omit_ptr :: "string \<Rightarrow> ('a \<Rightarrow> doc option) \<Rightarrow> 'a ptr \<Rightarrow> (string \<times> doc option) list" where
  "omit_ptr k f p = (case p of None \<Rightarrow> [] | Some x \<Rightarrow> [(k, f x)])"

definition omit_map :: "string \<Rightarrow> any_map ptr \<Rightarrow> (string \<times> doc option) list" where
  "omit_map k m = (if entries m = [] then [] else [(k, doc_of (AObj (entries m)))])"

definition doc_string :: "string \<Rightarrow> doc option" where "doc_string s = Some (DStr (utf8 s))"
definition doc_int :: "int \<Rightarrow> doc option" where "doc_int n = Some (DNum (itoa n))"

definition doc_float :: "f64 ptr \<Rightarrow> doc option" where
  "doc_float x = (case x of None \<Rightarrow> Some DNull | Some f \<Rightarrow> map_option DNum (json_float f))"

text \<open>An object or a list is an error as soon as one of its parts is.\<close>

definition doc_obj :: "(string \<times> doc option) list \<Rightarrow> doc option" where
  "doc_obj fs = map_option (DObj \<circ> sort_fields) (map_opt (\<lambda>(k, v). map_option (Pair k) v) fs)"

definition doc_arr :: "('a \<Rightarrow> doc option) \<Rightarrow> 'a list \<Rightarrow> doc option" where
  "doc_arr f xs = map_option DArr (map_opt f xs)"

definition floats_doc :: "f64 ptr list ptr \<Rightarrow> doc option" where
  "floats_doc xs = (case xs of None \<Rightarrow> Some DNull | Some ys \<Rightarrow> doc_arr doc_float ys)"

definition omit_list :: "string \<Rightarrow> ('a \<Rightarrow> doc option) \<Rightarrow> 'a list ptr \<Rightarrow> (string \<times> doc option) list" where
  "omit_list k f xs = (case xs of None \<Rightarrow> [] | Some ys \<Rightarrow> (if ys = [] then [] else [(k, doc_arr f ys)]))"

definition stats_doc :: "StatsInput \<Rightarrow> doc option" where
  "stats_doc s = (let a = si_Aggs s; fl = (\<lambda>k x. omit_ptr k (\<lambda>v. doc_float (Some v)) x) in
     doc_obj ([(''data'', floats_doc (si_Data s))] @ omit_list ''times'' doc_float (si_Times s) @
       omit_string ''unit'' (si_Unit s) @ omit_string ''time_unit'' (si_TimeUnit s) @
       omit_ptr ''iterations'' doc_int (si_Iterations s) @
       fl ''min'' (ac_Min a) @ fl ''max'' (ac_Max a) @ fl ''mean'' (ac_Mean a) @ fl ''median'' (ac_Median a) @
       fl ''stdev'' (ac_Stdev a) @ fl ''q1'' (ac_Q1 a) @ fl ''q3'' (ac_Q3 a) @ fl ''iqr'' (ac_Iqr a)))"

definition machine_doc :: "MachineInfo \<Rightarrow> doc option" where
  "machine_doc m = doc_obj ([(''name'', doc_string (mi_Name m))] @
     omit_ptr ''architecture_name'' doc_string (mi_ArchitectureName m) @
     omit_ptr ''kernel_name'' doc_string (mi_KernelName m) @ omit_ptr ''os_name'' doc_string (mi_OsName m) @
     omit_ptr ''os_version'' doc_string (mi_OsVersion m) @ omit_ptr ''cpu_model_name'' doc_string (mi_CpuModelName m) @
     omit_ptr ''cpu_l1d_cache_bytes'' doc_int (mi_CpuL1dCacheBytes m) @
     omit_ptr ''cpu_l1i_cache_bytes'' doc_int (mi_CpuL1iCacheBytes m) @
     omit_ptr ''cpu_l2_cache_bytes'' doc_int (mi_CpuL2CacheBytes m) @
     omit_ptr ''cpu_l3_cache_bytes'' doc_int (mi_CpuL3CacheBytes m) @
     omit_ptr ''cpu_core_count'' doc_int (mi_CpuCoreCount m) @
     omit_ptr ''cpu_thread_count'' doc_int (mi_CpuThreadCount m) @
     omit_ptr ''cpu_frequency_max_hz'' doc_int (mi_CpuFrequencyMaxHz m) @
     omit_ptr ''memory_bytes'' doc_int (mi_MemoryBytes m) @ omit_ptr ''gpu_count'' doc_int (mi_GpuCount m) @
     omit_list ''gpu_product_names'' doc_string (mi_GpuProductNames m))"

definition cluster_doc :: "ClusterInfo \<Rightarrow> doc option" where
  "cluster_doc c = doc_obj ([(''name'', doc_string (ci_Name c)), (''info'', doc_of (any_obj (ci_Info c)))] @
     omit_map ''optional_info'' (ci_OptionalInfo c))"

definition github_doc :: "GitHubInfo \<Rightarrow> doc option" where
  "github_doc g = doc_obj (omit_string ''commit'' (gi_Commit g) @ [(''repository'', doc_string (gi_Repository g))] @
     omit_ptr ''branch'' doc_string (gi_Branch g) @ omit_ptr ''pr_number'' doc_int (gi_PRNumber g))"

text \<open>Every field but the submission key, which the code deletes from the map.\<close>

definition request_doc :: "SubmitRequest \<Rightarrow> doc option" where
  "request_doc req = doc_obj (
     [(''tags'', doc_of (any_obj (rq_Tags req))), (''context'', doc_of (any_obj (rq_Context req)))] @
     omit_map ''info'' (rq_Info req) @ omit_ptr ''machine_info'' machine_doc (rq_MachineInfo req) @
     omit_ptr ''cluster_info'' cluster_doc (rq_ClusterInfo req) @ [(''github'', github_doc (rq_GitHub req)),
      (''run_id'', doc_string (rq_RunID req))] @ omit_ptr ''run_name'' doc_string (rq_RunName req) @
     omit_map ''run_tags'' (rq_RunTags req) @ omit_string ''run_reason'' (rq_RunReason req) @
     omit_string ''batch_id'' (rq_BatchID req) @
     [(''timestamp'', map_option DStr (time_text (rq_Timestamp req) (rq_Offset req)))] @
     omit_ptr ''stats'' stats_doc (rq_Stats req) @
     (if rq_Error req = \<lparr>jo_Present = False, jo_Null = False, jo_Value = None\<rparr> then []
      else [(''error'', doc_of (JSONObject_Marshal (rq_Error req)))]) @
     omit_map ''optional_benchmark_info'' (rq_OptionalBenchmarkInfo req) @
     omit_map ''validation'' (rq_Validation req) @ omit_map ''change_annotations'' (rq_ChangeAnnotations req))"

text \<open>
  Then the collections that are not nil are set again, so that an empty one is present.
  A type assertion that fails is a panic.
\<close>

definition set_doc :: "string \<Rightarrow> ('a \<Rightarrow> doc option) \<Rightarrow> 'a ptr \<Rightarrow> doc \<Rightarrow> doc option" where
  "set_doc k f p payload = (case p of None \<Rightarrow> Some payload
     | Some x \<Rightarrow> (case payload of DObj fs \<Rightarrow> map_option (\<lambda>v. DObj (sort_fields (map_set k v fs))) (f x) | _ \<Rightarrow> None))"

definition set_in :: "string \<Rightarrow> string \<Rightarrow> ('a \<Rightarrow> doc option) \<Rightarrow> 'a ptr \<Rightarrow> doc \<Rightarrow> doc option" where
  "set_in outer k f p payload = (case p of None \<Rightarrow> Some payload
     | Some x \<Rightarrow> (case payload of
          DObj fs \<Rightarrow> (case map_of fs outer of
             Some d \<Rightarrow> Option.bind (set_doc k f p d) (\<lambda>v. Some (DObj (sort_fields (map_set outer v fs))))
           | None \<Rightarrow> None)
        | _ \<Rightarrow> None))"

definition preserveEmptyCollectionPresence :: "SubmitRequest \<Rightarrow> doc \<Rightarrow> doc option" where
  "preserveEmptyCollectionPresence req payload =
     (let m = (\<lambda>fs. doc_of (AObj fs)) in
      Option.bind (set_doc ''info'' m (rq_Info req) payload) (\<lambda>p.
      Option.bind (set_doc ''run_tags'' m (rq_RunTags req) p) (\<lambda>p.
      Option.bind (set_doc ''optional_benchmark_info'' m (rq_OptionalBenchmarkInfo req) p) (\<lambda>p.
      Option.bind (set_doc ''validation'' m (rq_Validation req) p) (\<lambda>p.
      Option.bind (set_doc ''change_annotations'' m (rq_ChangeAnnotations req) p) (\<lambda>p.
      Option.bind (set_in ''stats'' ''times'' (doc_arr doc_float) (Option.bind (rq_Stats req) si_Times) p) (\<lambda>p.
      Option.bind (set_in ''machine_info'' ''gpu_product_names'' (doc_arr doc_string)
          (Option.bind (rq_MachineInfo req) mi_GpuProductNames) p) (\<lambda>p.
      set_in ''cluster_info'' ''optional_info'' m (Option.bind (rq_ClusterInfo req) ci_OptionalInfo) p))))))))"

definition canonical_payload :: "SubmitRequest \<Rightarrow> doc option" where
  "canonical_payload req = Option.bind (request_doc req) (preserveEmptyCollectionPresence req)"

definition canonicalSubmissionPayloadSHA256 :: "(string \<Rightarrow> string) \<Rightarrow> SubmitRequest \<Rightarrow> string sub" where
  "canonicalSubmissionPayloadSHA256 sha256 req = (case canonical_payload req of
     None \<Rightarrow> Inl (SubmitMarshal ''submission payload'') | Some d \<Rightarrow> Inr (sha256 (doc_text d)))"

record SubmitResult =
  sr_ID :: string
  sr_RunID :: string
  sr_HistoryFingerprint :: string

definition replaySubmission :: "SubmissionResult \<Rightarrow> string \<Rightarrow> SubmitResult sub" where
  "replaySubmission existing canonicalHash =
     (if sb_PayloadSHA256 existing \<noteq> canonicalHash then Inl SubmissionConflict
      else Inr \<lparr>sr_ID = sb_ID existing, sr_RunID = sb_RunID existing,
                sr_HistoryFingerprint = sb_HistoryFingerprint existing\<rparr>)"

section \<open>The submission\<close>

text \<open>
  What happens around the calls of one submission: \<open>sx_env k\<close> is what other transactions
  commit before the \<open>k\<close>-th call, \<open>sx_cases k\<close> and so on what they commit to the table a
  get-or-create works on before its second and third statement, \<open>sx_gen k\<close> the id drawn in
  the \<open>k\<close>-th call, and \<open>sx_fail k\<close> an error of the connection in the \<open>k\<close>-th call, after its
  statements took effect or before.
\<close>

record script =
  sx_env :: "nat \<Rightarrow> ingest_db \<Rightarrow> ingest_db"
  sx_cases :: "bool \<Rightarrow> json case_row list \<Rightarrow> json case_row list"
  sx_contexts :: "bool \<Rightarrow> json tags_row list \<Rightarrow> json tags_row list"
  sx_infos :: "bool \<Rightarrow> json tags_row list \<Rightarrow> json tags_row list"
  sx_hardware :: "bool \<Rightarrow> hardware_row list \<Rightarrow> hardware_row list"
  sx_commits :: "bool \<Rightarrow> commit_row list \<Rightarrow> commit_row list"
  sx_gen :: "nat \<Rightarrow> string result"
  sx_fail :: "nat \<Rightarrow> (string \<times> bool) option"

definition call :: "script \<Rightarrow> nat \<Rightarrow> (ingest_db \<Rightarrow> 'a result \<times> ingest_db) \<Rightarrow> ingest_db \<Rightarrow> 'a result \<times> ingest_db" where
  "call sx k f d = (let d1 = sx_env sx k d in
     case sx_fail sx k of None \<Rightarrow> f d1
     | Some (e, effect) \<Rightarrow> (Inl (ErrOther e), if effect then snd (f d1) else d1))"

text \<open>A statement on one table, and a query, as calls on the database.\<close>

definition at_table :: "('d \<Rightarrow> 't) \<Rightarrow> ('t \<Rightarrow> 'd \<Rightarrow> 'd) \<Rightarrow> ('t \<Rightarrow> 'a \<times> 't) \<Rightarrow> 'd \<Rightarrow> 'a \<times> 'd" where
  "at_table get put f d = (case f (get d) of (x, t) \<Rightarrow> (x, put t d))"

definition query :: "('d \<Rightarrow> 'a) \<Rightarrow> 'd \<Rightarrow> 'a \<times> 'd" where
  "query f d = (f d, d)"

type_synonym 'a ing = "ingest_db \<Rightarrow> 'a sub \<times> ingest_db"

definition ing_bind :: "'a ing \<Rightarrow> ('a \<Rightarrow> 'b ing) \<Rightarrow> 'b ing" where
  "ing_bind m f d = (case m d of (Inl e, d') \<Rightarrow> (Inl e, d') | (Inr x, d') \<Rightarrow> f x d')"

definition pure :: "'a sub \<Rightarrow> 'a ing" where
  "pure x d = (x, d)"

definition stored :: "string \<Rightarrow> (ingest_db \<Rightarrow> 'a result \<times> ingest_db) \<Rightarrow> 'a ing" where
  "stored what f d = (case f d of (Inl e, d') \<Rightarrow> (Inl (SubmitStore what e), d') | (Inr x, d') \<Rightarrow> (Inr x, d'))"

definition put_cases where "put_cases t d = d\<lparr>in_cases := t\<rparr>"
definition put_contexts where "put_contexts t d = d\<lparr>in_contexts := t\<rparr>"
definition put_infos where "put_infos t d = d\<lparr>in_infos := t\<rparr>"
definition put_hardware where "put_hardware t d = d\<lparr>in_hardware := t\<rparr>"
definition put_commits where "put_commits t d = d\<lparr>in_commits := t\<rparr>"

definition commit_params :: "Info \<Rightarrow> commit_row" where
  "commit_params i = \<lparr>c_id = [], c_sha = Sha i, c_parent = Parent i, c_repository = Repository i,
     c_message = Message i, c_author_name = AuthorName i, c_author_login = AuthorLogin i,
     c_author_avatar = AuthorAvatar i, c_timestamp = Timestamp i, c_branch = Branch i, c_fork_point_sha = ForkPointSha i\<rparr>"

definition commit_request :: "SubmitRequest \<Rightarrow> Request" where
  "commit_request req = (let g = rq_GitHub req in
     \<lparr>req_Commit = gi_Commit g, req_Repository = gi_Repository g, req_ResultTimestamp = rq_Timestamp req,
      req_Branch = (case gi_Branch g of None \<Rightarrow> [] | Some b \<Rightarrow> b), req_PRNumber = gi_PRNumber g\<rparr>)"

definition resolveCommit ::
  "script \<Rightarrow> (Request \<Rightarrow> string + Info option) \<Rightarrow> SubmitRequest \<Rightarrow> string ptr ing" where
  "resolveCommit sx resolve req d =
     (if gi_Commit (rq_GitHub req) = [] then (Inr None, d)
      else case call sx 5 (query (\<lambda>d. GetCommitID (gi_Commit (rq_GitHub req))
                (NormalizeRepoURL (gi_Repository (rq_GitHub req))) (in_commits d))) d of
        (Inr i, d) \<Rightarrow> (Inr (Some i), d)
      | (Inl e, d) \<Rightarrow>
         (if e \<noteq> ErrNotFound then (Inl (SubmitStore ''look up commit'' e), d)
          else case resolve (commit_request req) of
            Inl e \<Rightarrow> (Inl (SubmitResolve e), d)
          | Inr None \<Rightarrow> (Inr None, d)
          | Inr (Some info) \<Rightarrow>
              ing_bind (stored ''get-or-create commit'' (call sx 6 (at_table in_commits put_commits
                  (GetOrCreateCommit (sx_commits sx False) (sx_commits sx True) (sx_gen sx 6) (commit_params info)))))
                (\<lambda>i. pure (Inr (Some i))) d))"

text \<open>The lookup of the key before anything else; \<open>Some\<close> ends the submission.\<close>

definition replay_check ::
  "script \<Rightarrow> (string \<Rightarrow> string) \<Rightarrow> SubmitRequest \<Rightarrow> ingest_db \<Rightarrow> (string + SubmitResult sub) \<times> ingest_db" where
  "replay_check sx sha256 req d =
     (if rq_SubmissionKey req = [] then (Inl [], d)
      else if 255 < length (runes (rq_SubmissionKey req))
      then (Inr (Inl (ValidationFailed ''submission_key must be at most 255 characters'')), d)
      else case canonicalSubmissionPayloadSHA256 sha256 req of
        Inl e \<Rightarrow> (Inr (Inl e), d)
      | Inr h \<Rightarrow>
         (case call sx 0 (query (GetBenchmarkResultBySubmissionKey (rq_SubmissionKey req))) d of
            (Inr existing, d) \<Rightarrow> (Inr (replaySubmission existing h), d)
          | (Inl e, d) \<Rightarrow>
              (if e = ErrNotFound then (Inl h, d) else (Inr (Inl (SubmitStore ''look up submission key'' e)), d))))"

text \<open>What is decided before the first write: the case, the tags and the statistics.\<close>

definition validated ::
  "SubmitRequest \<Rightarrow> (string \<times> json \<times> json \<times> json \<times> resolved) sub" where
  "validated req =
     sub_bind (validateHardware req) (\<lambda>_.
     if jo_Present (rq_Error req) \<and> jo_Null (rq_Error req)
     then Inl (ValidationFailed ''error: null is not allowed; omit the field or send an object'')
     else if rq_Stats req = None \<and> \<not> jo_Present (rq_Error req)
     then Inl (ValidationFailed ''either stats or error field is required'')
     else
     sub_bind (splitTags (rq_Tags req)) (\<lambda>(name, caseTags).
     sub_bind (resolveStats req) (\<lambda>rs.
     sub_bind (or_marshal ''case tags'' (marshal (AObj (map (\<lambda>(k, s). (k, AStr s)) caseTags)))) (\<lambda>caseTagsJSON.
     sub_bind (or_marshal ''context'' (marshalMapOrEmpty (rq_Context req))) (\<lambda>contextJSON.
     sub_bind (or_marshal ''info'' (marshalMapOrEmpty (rq_Info req))) (\<lambda>infoJSON.
     Inr (name, caseTagsJSON, contextJSON, infoJSON, rs)))))))"

text \<open>The insertion, and the replay of a submission that won the race for the key.\<close>

definition insert_result ::
  "script \<Rightarrow> SubmitRequest \<Rightarrow> string \<Rightarrow> InsertBenchmarkResultParams \<Rightarrow> SubmitResult ing" where
  "insert_result sx req canonicalHash ins d =
     (case call sx 7 (InsertBenchmarkResult (sx_gen sx 7) ins) d of
        (Inr i, d) \<Rightarrow> (Inr \<lparr>sr_ID = i, sr_RunID = rq_RunID req, sr_HistoryFingerprint = ir_HistoryFingerprint ins\<rparr>, d)
      | (Inl e, d) \<Rightarrow>
         (if e = ErrConflict \<and> rq_SubmissionKey req \<noteq> [] then
            (case call sx 8 (query (GetBenchmarkResultBySubmissionKey (rq_SubmissionKey req))) d of
               (Inl e, d) \<Rightarrow> (Inl (SubmitStore ''resolve concurrent submission replay'' e), d)
             | (Inr existing, d) \<Rightarrow> (replaySubmission existing canonicalHash, d))
          else (Inl (SubmitStore ''insert benchmark result'' e), d)))"

definition Submit ::
  "script \<Rightarrow> (string \<Rightarrow> string) \<Rightarrow> (string \<Rightarrow> string) \<Rightarrow> (Request \<Rightarrow> string + Info option) \<Rightarrow> SubmitRequest \<Rightarrow> SubmitResult ing" where
  "Submit sx md5 sha256 resolve req d =
     (case replay_check sx sha256 req d of
        (Inr r, d) \<Rightarrow> (r, d)
      | (Inl canonicalHash, d) \<Rightarrow>
         ing_bind (pure (validated req)) (\<lambda>(name, caseTagsJSON, contextJSON, infoJSON, rs).
         ing_bind (stored ''get-or-create case'' (call sx 1 (at_table in_cases put_cases
             (GetOrCreateCase (sx_cases sx False) (sx_cases sx True) (sx_gen sx 1) name caseTagsJSON)))) (\<lambda>caseID.
         ing_bind (stored ''get-or-create context'' (call sx 2 (at_table in_contexts put_contexts
             (GetOrCreateContext (sx_contexts sx False) (sx_contexts sx True) (sx_gen sx 2) contextJSON)))) (\<lambda>contextID.
         ing_bind (stored ''get-or-create info'' (call sx 3 (at_table in_infos put_infos
             (GetOrCreateInfo (sx_infos sx False) (sx_infos sx True) (sx_gen sx 3) infoJSON)))) (\<lambda>infoID.
         ing_bind (pure (buildHardware md5 req)) (\<lambda>(hwParams, hwHash).
         ing_bind (stored ''get-or-create hardware'' (call sx 4 (at_table in_hardware put_hardware
             (GetOrCreateHardware (sx_hardware sx False) (sx_hardware sx True) (sx_gen sx 4) hwParams)))) (\<lambda>hardwareID.
         ing_bind (resolveCommit sx resolve req) (\<lambda>commitID.
         (let repoURL = NormalizeRepoURL (gi_Repository (rq_GitHub req)) in
         ing_bind (pure (buildInsertParams req rs
             \<lparr>rf_caseID = caseID, rf_contextID = contextID, rf_infoID = infoID, rf_hardwareID = hardwareID,
              rf_commitID = commitID, rf_repoURL = repoURL,
              rf_fingerprint = HistoryFingerprint md5 caseID contextID hwHash repoURL\<rparr> canonicalHash)) (\<lambda>ins.
         insert_result sx req canonicalHash ins))))))))) d)"

section \<open>Updates\<close>

definition update_value :: "any_map ptr \<Rightarrow> any_map ptr \<Rightarrow> json option" where
  "update_value old given =
     marshal (AObj (filterNullValues (foldl (\<lambda>m (k, v). map_set k v m) (entries old) (entries given))))"

definition UpdateChangeAnnotations :: "(ingest_db \<Rightarrow> ingest_db) \<Rightarrow> string \<Rightarrow> any_map ptr \<Rightarrow> unit ing" where
  "UpdateChangeAnnotations env i given d = (case GetBenchmarkResultByID i d of
     Inl e \<Rightarrow> (Inl (if e = ErrNotFound then SubmitNotFound else SubmitStore ''load result for update'' e), d)
   | Inr row \<Rightarrow> (case jsonObject (ir_ChangeAnnotations row) of
       Inl e \<Rightarrow> (Inl (SubmitJson e), d)
     | Inr old \<Rightarrow> (case update_value old given of
         None \<Rightarrow> (Inl (SubmitMarshal ''change_annotations''), d)
       | Some ca \<Rightarrow> (case UpdateBenchmarkResultChangeAnnotations i ca (env d) of
           (Inl e, d) \<Rightarrow> (Inl (if e = ErrNotFound then SubmitNotFound else SubmitStore ''update change_annotations'' e), d)
         | (Inr _, d) \<Rightarrow> (Inr (), d)))))"

definition DeleteResult :: "string \<Rightarrow> unit ing" where
  "DeleteResult i d = (case DeleteBenchmarkResult i d of
     (Inl e, d) \<Rightarrow> (Inl (if e = ErrNotFound then SubmitNotFound else SubmitStore ''delete result'' e), d)
   | (Inr _, d) \<Rightarrow> (Inr (), d))"

end
