(* ===== verification/IngestMachine.thy ===== *)
theory IngestMachine
  imports Ingest
begin

text \<open>
  The tables behind the ingestion as a machine: \<open>ing_step\<close> is one statement that changes
  them, from a submission, an update or deletion of a result, or the repair of a commit.
  Every operation of \<open>Ingest\<close> runs as steps of it, whatever other transactions do between
  its own, so that the invariant \<open>ingest_ok\<close> of the schema holds in all reachable states.
\<close>

section \<open>The machine\<close>

inductive ing_step :: "ingest_db \<Rightarrow> ingest_db \<Rightarrow> bool" where
  st_case: "ing_step d (put_cases (snd (InsertCase r (in_cases d))) d)"
| st_context: "ing_step d (put_contexts (snd (InsertContext c (in_contexts d))) d)"
| st_info: "ing_step d (put_infos (snd (InsertInfo c (in_infos d))) d)"
| st_hardware: "ing_step d (put_hardware (snd (InsertHardware h (in_hardware d))) d)"
| st_commit: "ing_step d (put_commits (snd (InsertCommit m (in_commits d))) d)"
| st_repair: "ing_step d (put_commits (snd (UpdateUnknownCommit m (in_commits d))) d)"
| st_result: "ing_step d (snd (InsertBenchmarkResult g p d))"
| st_annotate: "ing_step d (snd (UpdateBenchmarkResultChangeAnnotations i ca d))"
| st_delete: "ing_step d (snd (DeleteBenchmarkResult i d))"

abbreviation ing_steps :: "ingest_db \<Rightarrow> ingest_db \<Rightarrow> bool" where
  "ing_steps \<equiv> ing_step\<^sup>*\<^sup>*"

definition no_rows :: ingest_db where
  "no_rows = \<lparr>in_cases = [], in_contexts = [], in_infos = [], in_hardware = [], in_commits = [], in_results = []\<rparr>"

text \<open>The indexes, checks and foreign keys of the schema.\<close>

definition keys_ok :: "BenchmarkResult list \<Rightarrow> bool" where
  "keys_ok rs \<longleftrightarrow> distinct (map ir_ID rs) \<and> distinct (filter (\<lambda>k. k \<noteq> None) (map ir_SubmissionKey rs))"

definition ingest_ok :: "ingest_db \<Rightarrow> bool" where
  "ingest_ok d \<longleftrightarrow> case_table.uniq (in_cases d) \<and> context_table.uniq (in_contexts d) \<and>
     distinct (map tags_id (in_infos d)) \<and> distinct (map hw_ID (in_hardware d)) \<and>
     sorted_wrt (\<lambda>g h. \<not> same_machine g h) (in_hardware d) \<and> commit_table.uniq (in_commits d) \<and>
     keys_ok (in_results d) \<and> (\<forall>r \<in> set (in_results d). submission_check r \<and> references r d)"

text \<open>What every step keeps: the ids of the related rows and what they stand for.\<close>

definition info_binds :: "json tags_row list \<Rightarrow> (json \<times> string) set" where
  "info_binds t = (\<lambda>r. (tags_value r, tags_id r)) ` set t"

definition hardware_binds :: "hardware_row list \<Rightarrow> (string \<times> InsertHardwareParams \<times> string) set" where
  "hardware_binds t = (\<lambda>h. (hw_Hash h, hardware_key h, hw_ID h)) ` set t"

definition grows :: "ingest_db \<Rightarrow> ingest_db \<Rightarrow> bool" where
  "grows d d' \<longleftrightarrow> case_table.binds (in_cases d) \<subseteq> case_table.binds (in_cases d') \<and>
     context_table.binds (in_contexts d) \<subseteq> context_table.binds (in_contexts d') \<and>
     info_binds (in_infos d) \<subseteq> info_binds (in_infos d') \<and>
     hardware_binds (in_hardware d) \<subseteq> hardware_binds (in_hardware d') \<and>
     commit_table.binds (in_commits d) \<subseteq> commit_table.binds (in_commits d')"

section \<open>Steps keep the invariant\<close>

lemmas puts = put_cases_def put_contexts_def put_infos_def put_hardware_def put_commits_def

lemma grows_refl [simp]: "grows d d"
  by (simp add: grows_def)

lemma grows_trans: "grows a b \<Longrightarrow> grows b c \<Longrightarrow> grows a c"
  by (auto simp: grows_def)

lemma insert_nothing_cases:
  obtains "snd (insert_nothing key rid r t) = t"
  | "snd (insert_nothing key rid r t) = t @ [r]" "key r \<notin> key ` set t" "rid r \<notin> rid ` set t"
  by (cases "key r \<in> key ` set t"; cases "rid r \<in> rid ` set t") (auto simp: insert_nothing_def)

lemma insert_nothing_binds: "(\<lambda>r. (key r, rid r)) ` set t \<subseteq> (\<lambda>r. (key r, rid r)) ` set (snd (insert_nothing key rid r t))"
  by (auto simp: insert_nothing_def)

lemma insert_nothing_distinct:
  "distinct (map key t) \<and> distinct (map rid t) \<Longrightarrow>
   distinct (map key (snd (insert_nothing key rid r t))) \<and> distinct (map rid (snd (insert_nothing key rid r t)))"
  by (auto simp: insert_nothing_def)

text \<open>References survive the growth of the other tables.\<close>

lemma ids_mono:
  assumes "(\<lambda>r. (f r, rid r)) ` set t \<subseteq> (\<lambda>r. (f r, rid r)) ` set t'"
  shows "rid ` set t \<subseteq> rid ` set t'"
proof -
  have "rid ` set u = snd ` (\<lambda>r. (f r, rid r)) ` set u" for u by (simp add: image_image)
  with image_mono [OF assms] show ?thesis by metis
qed

lemma hardware_ids_mono:
  assumes "hardware_binds t \<subseteq> hardware_binds t'"
  shows "hw_ID ` set t \<subseteq> hw_ID ` set t'"
proof -
  have "hw_ID ` set u = (snd \<circ> snd) ` hardware_binds u" for u by (simp add: hardware_binds_def image_image)
  with image_mono [OF assms] show ?thesis by metis
qed

lemma grows_ids:
  assumes "grows d d'"
  shows "case_id ` set (in_cases d) \<subseteq> case_id ` set (in_cases d')"
    "tags_id ` set (in_contexts d) \<subseteq> tags_id ` set (in_contexts d')"
    "tags_id ` set (in_infos d) \<subseteq> tags_id ` set (in_infos d')"
    "hw_ID ` set (in_hardware d) \<subseteq> hw_ID ` set (in_hardware d')"
    "c_id ` set (in_commits d) \<subseteq> c_id ` set (in_commits d')"
proof -
  note g = assms [unfolded grows_def case_table.binds_def context_table.binds_def info_binds_def commit_table.binds_def]
  from g show "case_id ` set (in_cases d) \<subseteq> case_id ` set (in_cases d')" by (elim conjE) (rule ids_mono)
  from g show "tags_id ` set (in_contexts d) \<subseteq> tags_id ` set (in_contexts d')" by (elim conjE) (rule ids_mono)
  from g show "tags_id ` set (in_infos d) \<subseteq> tags_id ` set (in_infos d')" by (elim conjE) (rule ids_mono)
  from g show "hw_ID ` set (in_hardware d) \<subseteq> hw_ID ` set (in_hardware d')" by (elim conjE) (rule hardware_ids_mono)
  from g show "c_id ` set (in_commits d) \<subseteq> c_id ` set (in_commits d')" by (elim conjE) (rule ids_mono)
qed

lemma references_grow: "grows d d' \<Longrightarrow> references p d \<Longrightarrow> references p d'"
  using grows_ids [of d d'] by (auto simp: references_def split: option.splits)


text \<open>One table at a time.\<close>

lemma InsertInfo_info:
  "info_binds t \<subseteq> info_binds (snd (InsertInfo c t))"
  "distinct (map tags_id t) \<Longrightarrow> distinct (map tags_id (snd (InsertInfo c t)))"
  by (auto simp: InsertInfo_def info_binds_def)

lemma InsertHardware_hardware:
  "hardware_binds t \<subseteq> hardware_binds (snd (InsertHardware h t))"
  "distinct (map hw_ID t) \<Longrightarrow> distinct (map hw_ID (snd (InsertHardware h t)))"
  "sorted_wrt (\<lambda>g h. \<not> same_machine g h) t \<Longrightarrow> sorted_wrt (\<lambda>g h. \<not> same_machine g h) (snd (InsertHardware h t))"
  by (auto simp: InsertHardware_def hardware_binds_def list_ex_iff sorted_wrt_append same_machine_def full_tuple_def)

lemma repaired_commit:
  "commit_table.binds (snd (UpdateUnknownCommit m t)) = commit_table.binds t"
  "map commit_key (snd (UpdateUnknownCommit m t)) = map commit_key t"
  "map c_id (snd (UpdateUnknownCommit m t)) = map c_id t"
proof -
  show "commit_table.binds (snd (UpdateUnknownCommit m t)) = commit_table.binds t"
    unfolding commit_table.binds_def UpdateUnknownCommit_def Let_def snd_conv set_map image_image
    by (rule image_cong) (auto simp: commit_key_def)
qed (auto simp: UpdateUnknownCommit_def commit_key_def Let_def)

lemma inserted_rows:
  "case_table.binds t \<subseteq> case_table.binds (snd (InsertCase r t))"
  "case_table.uniq t \<Longrightarrow> case_table.uniq (snd (InsertCase r t))"
  "context_table.binds u \<subseteq> context_table.binds (snd (InsertContext c u))"
  "context_table.uniq u \<Longrightarrow> context_table.uniq (snd (InsertContext c u))"
  "commit_table.binds w \<subseteq> commit_table.binds (snd (InsertCommit m w))"
  "commit_table.uniq w \<Longrightarrow> commit_table.uniq (snd (InsertCommit m w))"
  unfolding InsertCase_def InsertContext_def InsertCommit_def case_table.binds_def context_table.binds_def
    commit_table.binds_def case_table.uniq_def context_table.uniq_def commit_table.uniq_def
  by (rule insert_nothing_binds insert_nothing_distinct | assumption)+

lemma ing_step_grows: "ing_step d d' \<Longrightarrow> grows d d'"
  by (induction rule: ing_step.induct)
     (simp_all add: grows_def puts inserted_rows InsertInfo_info InsertHardware_hardware repaired_commit
        InsertBenchmarkResult_def UpdateBenchmarkResultChangeAnnotations_def DeleteBenchmarkResult_def split: sum.split)

lemma ing_steps_grows: "ing_steps d d' \<Longrightarrow> grows d d'"
  by (induction rule: rtranclp_induct) (auto dest: ing_step_grows intro: grows_trans)

text \<open>The results: unique ids and keys, checked, with their references.\<close>

lemma keys_ok_snoc: "keys_ok (rs @ [r]) \<longleftrightarrow> keys_ok rs \<and> ir_ID r \<notin> ir_ID ` set rs \<and>
    (ir_SubmissionKey r = None \<or> ir_SubmissionKey r \<notin> ir_SubmissionKey ` set rs)"
  by (auto simp: keys_ok_def)

lemma keys_ok_map:
  assumes "\<And>r. ir_ID (f r) = ir_ID r" "\<And>r. ir_SubmissionKey (f r) = ir_SubmissionKey r"
  shows "keys_ok (map f rs) = keys_ok rs"
  by (simp add: keys_ok_def comp_def assms)

lemma keys_ok_filter: "keys_ok rs \<Longrightarrow> keys_ok (filter P rs)"
proof -
  have "distinct (filter Q (map f (filter P xs)))" if "distinct (filter Q (map f xs))" for Q xs and f :: "BenchmarkResult \<Rightarrow> string ptr"
    using that by (induction xs) auto
  then show "keys_ok rs \<Longrightarrow> keys_ok (filter P rs)"
    by (simp add: keys_ok_def distinct_map_filter)
qed

lemma result_of_simps [simp]:
  "ir_ID (result_of i p) = i" "ir_SubmissionKey (result_of i p) = ir_SubmissionKey p"
  "submission_check (result_of i p) = submission_check p" "references (result_of i p) d = references p d"
  by (simp_all add: result_of_def InsertBenchmarkResultParams.defs submission_check_def references_def)

lemma references_results [simp]: "references p (d\<lparr>in_results := rs\<rparr>) = references p d"
  by (simp add: references_def split: option.split)

lemma annotated_row [simp]:
  "submission_check (r\<lparr>ir_ChangeAnnotations := c\<rparr>) = submission_check r"
  "references (r\<lparr>ir_ChangeAnnotations := c\<rparr>) d = references r d"
  by (simp_all add: submission_check_def references_def)

lemma InsertBenchmarkResult_ok:
  "ingest_ok d \<Longrightarrow> ingest_ok (snd (InsertBenchmarkResult g p d))"
  by (auto simp: InsertBenchmarkResult_def ingest_ok_def keys_ok_snoc split: sum.split)

lemma UpdateBenchmarkResultChangeAnnotations_ok:
  "ingest_ok d \<Longrightarrow> ingest_ok (snd (UpdateBenchmarkResultChangeAnnotations i ca d))"
  by (auto simp: UpdateBenchmarkResultChangeAnnotations_def ingest_ok_def keys_ok_map)

lemma DeleteBenchmarkResult_ok: "ingest_ok d \<Longrightarrow> ingest_ok (snd (DeleteBenchmarkResult i d))"
  by (auto simp: DeleteBenchmarkResult_def ingest_ok_def keys_ok_filter)

lemma ingest_ok_related:
  assumes "ingest_ok d" "grows d d'" "in_results d' = in_results d"
    "case_table.uniq (in_cases d')" "context_table.uniq (in_contexts d')" "distinct (map tags_id (in_infos d'))"
    "distinct (map hw_ID (in_hardware d'))" "sorted_wrt (\<lambda>g h. \<not> same_machine g h) (in_hardware d')"
    "commit_table.uniq (in_commits d')"
  shows "ingest_ok d'"
  using assms references_grow [OF assms(2)] by (auto simp: ingest_ok_def)

lemma ing_step_ok:
  assumes "ing_step d d'" "ingest_ok d"
  shows "ingest_ok d'"
proof -
  note related = ingest_ok_related [OF assms(2) ing_step_grows [OF assms(1)]]
    and ok = assms(2) [unfolded ingest_ok_def]
  from assms(1) show ?thesis
  proof cases
    case (st_repair m)
    then show ?thesis by (intro related) (use ok in \<open>simp_all add: puts commit_table.uniq_def repaired_commit\<close>)
  next
    case (st_case r)
    then show ?thesis by (intro related) (use ok in \<open>simp_all add: puts inserted_rows\<close>)
  next
    case (st_context c)
    then show ?thesis by (intro related) (use ok in \<open>simp_all add: puts inserted_rows\<close>)
  next
    case (st_info c)
    then show ?thesis by (intro related) (use ok in \<open>simp_all add: puts InsertInfo_info\<close>)
  next
    case (st_hardware h)
    then show ?thesis by (intro related) (use ok in \<open>simp_all add: puts InsertHardware_hardware\<close>)
  next
    case (st_commit m)
    then show ?thesis by (intro related) (use ok in \<open>simp_all add: puts inserted_rows\<close>)
  qed (simp_all add: InsertBenchmarkResult_ok UpdateBenchmarkResultChangeAnnotations_ok DeleteBenchmarkResult_ok assms(2))
qed

lemma ing_steps_ok: "ing_steps d d' \<Longrightarrow> ingest_ok d \<Longrightarrow> ingest_ok d'"
  by (induction rule: rtranclp_induct) (auto intro: ing_step_ok)

lemma no_rows_ok: "ingest_ok no_rows"
  by (simp add: ingest_ok_def no_rows_def case_table.uniq_def context_table.uniq_def commit_table.uniq_def keys_ok_def)

section \<open>The operations run as steps\<close>

text \<open>Other transactions do steps of the machine too, between the calls and inside them.\<close>

definition script_ok :: "script \<Rightarrow> bool" where
  "script_ok sx \<longleftrightarrow> (\<forall>k d. ing_steps d (sx_env sx k d)) \<and>
     (\<forall>b d. ing_steps d (put_cases (sx_cases sx b (in_cases d)) d)) \<and>
     (\<forall>b d. ing_steps d (put_contexts (sx_contexts sx b (in_contexts d)) d)) \<and>
     (\<forall>b d. ing_steps d (put_infos (sx_infos sx b (in_infos d)) d)) \<and>
     (\<forall>b d. ing_steps d (put_hardware (sx_hardware sx b (in_hardware d)) d)) \<and>
     (\<forall>b d. ing_steps d (put_commits (sx_commits sx b (in_commits d)) d))"

text \<open>A relation on tables that is reflexive and transitive and holds of every statement holds of the whole.\<close>

lemma getOrCreate_related:
  assumes "\<And>t. R t t" "\<And>t u v. R t u \<Longrightarrow> R u v \<Longrightarrow> R t v"
    "\<And>t. R t (e1 t)" "\<And>t. R t (e2 t)" "\<And>i t. R t (snd (ins i t))"
  shows "R t (snd (getOrCreate sel ins e1 e2 g t))"
proof -
  have i: "R t u" if "ins j (e1 t) = (x, u)" for j x u
    using assms(2) [OF assms(3) assms(5) [of "e1 t" j]] that by simp
  then show ?thesis
    by (auto simp: getOrCreate_def Let_def assms(1) split: sum.split prod.split intro: assms(2) [OF _ assms(4)])
qed

lemma getOrCreate_result:
  assumes "getOrCreate sel ins e1 e2 g t = (Inr i, t')"
    and "\<And>t i. sel t = Inr i \<Longrightarrow> Q t i" "\<And>j t i t'. ins j t = (Inr i, t') \<Longrightarrow> Q t' i"
  shows "Q t' i"
  using assms(1) by (auto simp: getOrCreate_def Let_def split: sum.splits prod.splits if_splits intro: assms(2,3))

text \<open>Binding of monadic code.\<close>

named_theorems stepping \<open>code that only takes steps of the machine\<close>

lemma stepping_bind [stepping]:
  assumes "\<And>d. ing_steps d (snd (m d))" "\<And>x d. ing_steps d (snd (f x d))"
  shows "ing_steps d (snd (ing_bind m f d))"
proof (cases "m d")
  case (Pair x d')
  then have "ing_steps d d'" using assms(1) [of d] by simp
  then show ?thesis using Pair assms(2) by (auto simp: ing_bind_def split: sum.split intro: rtranclp_trans)
qed

lemma stepping_simple [stepping]:
  "ing_steps d (snd (pure x d))"
  "(\<And>d. ing_steps d (snd (f d))) \<Longrightarrow> ing_steps d (snd (stored what f d))"
  "ing_steps d (snd (query g d))"
proof -
  show "ing_steps d (snd (stored what f d))" if "\<And>d. ing_steps d (snd (f d))"
    using that [of d] by (auto simp: stored_def split: prod.split sum.split)
qed (simp_all add: pure_def query_def)

lemma stepping_call [stepping]:
  assumes "script_ok sx" "\<And>d. ing_steps d (snd (f d))"
  shows "ing_steps d (snd (call sx k f d))"
proof -
  have "ing_steps d (sx_env sx k d)" using assms(1) by (simp add: script_ok_def)
  then show ?thesis
    using assms(2) by (auto simp: call_def Let_def split: option.split intro: rtranclp_trans)
qed

text \<open>A get-or-create on one table of the database.\<close>

lemma put_get [simp]:
  "put_cases (in_cases d) d = d" "put_contexts (in_contexts d) d = d" "put_infos (in_infos d) d = d"
  "put_hardware (in_hardware d) d = d" "put_commits (in_commits d) d = d"
  "in_cases (put_cases t d) = t" "in_contexts (put_contexts u d) = u" "in_infos (put_infos u d) = u"
  "in_hardware (put_hardware h d) = h" "in_commits (put_commits c d) = c"
  "put_cases t (put_cases t' d) = put_cases t d" "put_contexts u (put_contexts u' d) = put_contexts u d"
  "put_infos u (put_infos u' d) = put_infos u d" "put_hardware h (put_hardware h' d) = put_hardware h d"
  "put_commits c (put_commits c' d) = put_commits c d"
  by (simp_all add: puts)

lemma stepping_getOrCreate:
  assumes "\<And>d. put (get d) d = d" "\<And>t d. get (put t d) = t" "\<And>t t' d. put t (put t' d) = put t d"
    and "\<And>d. ing_steps d (put (e1 (get d)) d)" "\<And>d. ing_steps d (put (e2 (get d)) d)"
    and "\<And>i d. ing_steps d (put (snd (ins i (get d))) d)"
  shows "ing_steps d (snd (at_table get put (getOrCreate sel ins e1 e2 g) d))"
proof -
  have s: "(\<forall>d. ing_steps (put t d) (put (f t) d))" if "\<And>d. ing_steps d (put (f (get d)) d)" for f t
    using that [of "put t d" for d] assms(2,3) by metis
  have "\<forall>d. ing_steps (put t d) (put (snd (getOrCreate sel ins e1 e2 g t)) d)" for t
    by (rule getOrCreate_related [where R = "\<lambda>t t'. \<forall>d. ing_steps (put t d) (put t' d)"])
       (auto intro: rtranclp_trans s [rule_format] assms(4-6))
  from this [of "get d"] assms(1) have "ing_steps d (put (snd (getOrCreate sel ins e1 e2 g (get d))) d)" by metis
  then show ?thesis by (auto simp: at_table_def split: prod.split)
qed

lemma stepping_tables [stepping]:
  assumes "script_ok sx"
  shows "ing_steps d (snd (at_table in_cases put_cases (GetOrCreateCase (sx_cases sx a) (sx_cases sx b) g name tags) d))"
    "ing_steps d (snd (at_table in_contexts put_contexts (GetOrCreateContext (sx_contexts sx a) (sx_contexts sx b) g ctags) d))"
    "ing_steps d (snd (at_table in_infos put_infos (GetOrCreateInfo (sx_infos sx a) (sx_infos sx b) g itags) d))"
    "ing_steps d (snd (at_table in_hardware put_hardware (GetOrCreateHardware (sx_hardware sx a) (sx_hardware sx b) g hp) d))"
    "ing_steps d (snd (at_table in_commits put_commits (GetOrCreateCommit (sx_commits sx a) (sx_commits sx b) g cp) d))"
  unfolding GetOrCreateCase_def [abs_def] GetOrCreateContext_def [abs_def] GetOrCreateInfo_def [abs_def]
    GetOrCreateHardware_def [abs_def] GetOrCreateCommit_def [abs_def]
  by ((rule stepping_getOrCreate; use assms in \<open>auto simp: script_ok_def intro: ing_step.intros\<close>)+)

lemma stepping_statements [stepping]:
  "ing_steps d (snd (InsertBenchmarkResult g p d))"
  "ing_steps d (snd (UpdateBenchmarkResultChangeAnnotations i ca d))"
  "ing_steps d (snd (DeleteBenchmarkResult i d))"
  by (rule r_into_rtranclp, rule ing_step.intros)+

lemma stepping_resolveCommit [stepping]:
  assumes ok: "script_ok sx"
  shows "ing_steps d (snd (resolveCommit sx resolve req d))"
proof -
  let ?q = "call sx 5 (query (\<lambda>d. GetCommitID (gi_Commit (rq_GitHub req))
      (NormalizeRepoURL (gi_Repository (rq_GitHub req))) (in_commits d)))"
  obtain x d1 where q: "?q d = (x, d1)" by fastforce
  have "ing_steps d (snd (?q d))" by (intro stepping ok)
  then have d1: "ing_steps d d1" by (simp add: q)
  have "ing_steps d1 (snd (ing_bind (stored ''get-or-create commit'' (call sx 6 (at_table in_commits put_commits
      (GetOrCreateCommit (sx_commits sx False) (sx_commits sx True) (sx_gen sx 6) cp)))) (\<lambda>i. pure (Inr (Some i))) d1))"
    for cp by (intro stepping ok)
  then show ?thesis
    using rtranclp_trans [OF d1] d1
    by (cases x) (auto simp: resolveCommit_def q split: sum.split option.split)
qed

lemma stepping_insert_result [stepping]:
  assumes ok: "script_ok sx"
  shows "ing_steps d (snd (insert_result sx req h ins d))"
proof -
  obtain x d1 where q: "call sx 7 (InsertBenchmarkResult (sx_gen sx 7) ins) d = (x, d1)" by fastforce
  have "ing_steps d (snd (call sx 7 (InsertBenchmarkResult (sx_gen sx 7) ins) d))" by (intro stepping ok)
  then have d1: "ing_steps d d1" by (simp add: q)
  let ?r = "call sx 8 (query (GetBenchmarkResultBySubmissionKey (rq_SubmissionKey req)))"
  have "ing_steps d (snd (?r d1))" by (rule rtranclp_trans [OF d1]) (intro stepping ok)
  then show ?thesis using d1 by (cases x) (auto simp: insert_result_def q split: sum.split prod.split)
qed

lemma stepping_replay_check [stepping]:
  assumes ok: "script_ok sx"
  shows "ing_steps d (snd (replay_check sx sha256 req d))"
proof -
  let ?q = "call sx 0 (query (GetBenchmarkResultBySubmissionKey (rq_SubmissionKey req)))"
  have "ing_steps d (snd (?q d))" by (intro stepping ok)
  then show ?thesis by (auto simp: replay_check_def split: sum.split prod.split)
qed

lemma stepping_Submit:
  assumes ok: "script_ok sx"
  shows "ing_steps d (snd (Submit sx md5 sha256 resolve req d))"
proof -
  obtain x d1 where q: "replay_check sx sha256 req d = (x, d1)" by fastforce
  have "ing_steps d (snd (replay_check sx sha256 req d))" by (intro stepping ok)
  then have d1: "ing_steps d d1" by (simp add: q)
  show ?thesis
  proof (cases x)
    case (Inl h)
    show ?thesis
      unfolding Submit_def q prod.case sum.case Inl Let_def
      by (rule rtranclp_trans [OF d1]) (auto intro!: stepping ok split: prod.split)
  qed (use d1 q in \<open>simp add: Submit_def\<close>)
qed

lemma stepping_UpdateChangeAnnotations:
  assumes "ing_steps d (env d)"
  shows "ing_steps d (snd (UpdateChangeAnnotations env i given d))"
proof -
  have "ing_steps d (snd (UpdateBenchmarkResultChangeAnnotations i ca (env d)))" for ca
    by (rule rtranclp_trans [OF assms]) (intro stepping)
  then show ?thesis
    by (auto simp: UpdateChangeAnnotations_def split: sum.split option.split prod.split)
       (metis snd_conv)+
qed

lemma stepping_DeleteResult: "ing_steps d (snd (DeleteResult i d))"
  using stepping_statements(3) [of d i] by (auto simp: DeleteResult_def split: prod.split sum.split)

end
