(* ===== verification/IngestProps.thy ===== *)
theory IngestProps
  imports IngestMachine
begin

text \<open>
  What a submission guarantees: replays by key, the row it records and how the read queries
  see it, and what refused requests leave behind. The commit provider is used through the
  locale \<open>commit_provider\<close>.
\<close>

section \<open>Outcomes of the calls\<close>

lemma call_Inr: "call sx k f d = (Inr x, d') \<Longrightarrow> f (sx_env sx k d) = (Inr x, d')"
  by (auto simp: call_def Let_def split: option.splits)

lemma stored_Inr: "stored what f d = (Inr x, d') \<longleftrightarrow> f d = (Inr x, d')"
  by (auto simp: stored_def split: prod.splits sum.splits)

lemma ing_bind_Inr: "ing_bind m f d = (Inr y, d') \<longleftrightarrow> (\<exists>x d1. m d = (Inr x, d1) \<and> f x d1 = (Inr y, d'))"
  by (auto simp: ing_bind_def split: prod.splits sum.splits)

lemma pure_Inr: "pure x d = (Inr y, d') \<longleftrightarrow> x = Inr y \<and> d' = d"
  by (auto simp: pure_def)

lemmas ing_Inr = stored_Inr ing_bind_Inr pure_Inr

lemma at_table_result:
  assumes "at_table get put f d = (Inr i, d')" "\<And>t d. get (put t d) = t"
  obtains t where "f (get d) = (Inr i, t)" "get d' = t"
  using assms by (auto simp: at_table_def split: prod.splits)

lemma select_id_binds: "select_id key rid k t = Inr i \<Longrightarrow> (k, i) \<in> (\<lambda>r. (key r, rid r)) ` set t"
  by (auto simp: select_id_def find_Some_iff split: option.splits)

lemma insert_nothing_row: "insert_nothing key rid r t = (Inr i, t') \<Longrightarrow>
    i = rid r \<and> (key r, rid r) \<in> (\<lambda>r. (key r, rid r)) ` set t'"
  by (auto simp: insert_nothing_def split: if_splits)

text \<open>The id returned is that of a row with the key asked for.\<close>

lemma GetOrCreateCase_row:
  "GetOrCreateCase e1 e2 g name tags t = (Inr i, t') \<Longrightarrow> ((name, tags), i) \<in> case_table.binds t'"
  unfolding GetOrCreateCase_def case_table.binds_def
  by (erule getOrCreate_result) (auto simp: GetCaseByNameTags_def InsertCase_def dest!: select_id_binds insert_nothing_row)

lemma GetOrCreateContext_row:
  "GetOrCreateContext e1 e2 g tags t = (Inr i, t') \<Longrightarrow> (tags, i) \<in> context_table.binds t'"
  unfolding GetOrCreateContext_def context_table.binds_def
  by (erule getOrCreate_result) (auto simp: GetContextByTags_def InsertContext_def dest!: select_id_binds insert_nothing_row)

lemma GetOrCreateInfo_row: "GetOrCreateInfo e1 e2 g tags t = (Inr i, t') \<Longrightarrow> (tags, i) \<in> info_binds t'"
  unfolding GetOrCreateInfo_def info_binds_def
  by (erule getOrCreate_result) (auto simp: GetInfoByTags_def InsertInfo_def dest!: select_id_binds split: if_splits)

lemma hardware_of_simps [simp]: "hw_ID (hardware_of i p) = i" "hardware_key (hardware_of i p) = hardware_key p"
  by (simp_all add: hardware_of_def hardware_key_def InsertHardwareParams.defs)

lemma GetOrCreateHardware_row:
  "GetOrCreateHardware e1 e2 g p t = (Inr i, t') \<Longrightarrow> \<exists>h. (h, hardware_key p, i) \<in> hardware_binds t'"
  unfolding GetOrCreateHardware_def hardware_binds_def
  by (erule getOrCreate_result)
     (force simp: GetHardwareByNaturalKey_def InsertHardware_def dest!: select_id_binds split: if_splits)+

lemma GetOrCreateCommit_row:
  "GetOrCreateCommit e1 e2 g p t = (Inr i, t') \<Longrightarrow> ((c_sha p, c_repository p), i) \<in> commit_table.binds t'"
  unfolding GetOrCreateCommit_def commit_table.binds_def
  by (erule getOrCreate_result)
     (auto simp: GetCommitByShaRepo_def InsertCommit_def commit_key_def dest!: select_id_binds insert_nothing_row)

lemma GetCommitID_row: "GetCommitID sha repo t = Inr i \<Longrightarrow> ((sha, repo), i) \<in> commit_table.binds t"
  by (auto simp: GetCommitID_def GetCommitByShaRepo_def commit_table.binds_def dest!: select_id_binds
      split: sum.splits db_error.splits)

section \<open>Replays\<close>

definition replay_row :: "SubmitResult \<Rightarrow> string \<Rightarrow> SubmissionResult" where
  "replay_row res h = \<lparr>sb_ID = sr_ID res, sb_RunID = sr_RunID res,
     sb_HistoryFingerprint = sr_HistoryFingerprint res, sb_PayloadSHA256 = h\<rparr>"

lemma replaySubmission_Inr: "replaySubmission x h = Inr res \<longleftrightarrow> x = replay_row res h"
  by (cases x; cases res) (auto simp: replaySubmission_def replay_row_def)

lemma replay_check_new:
  "replay_check sx sha256 req d = (Inl h, d1) \<Longrightarrow> rq_SubmissionKey req \<noteq> [] \<Longrightarrow>
     canonicalSubmissionPayloadSHA256 sha256 req = Inr h"
  by (auto simp: replay_check_def split: if_splits sum.splits prod.splits)

lemma replay_check_found:
  assumes "replay_check sx sha256 req d = (Inr (Inr res), d1)"
  shows "\<exists>h. canonicalSubmissionPayloadSHA256 sha256 req = Inr h \<and>
    GetBenchmarkResultBySubmissionKey (rq_SubmissionKey req) d1 = Inr (replay_row res h)"
  using assms
  by (auto simp: replay_check_def replaySubmission_Inr query_def dest!: call_Inr split: if_splits sum.splits prod.splits)

lemma InsertBenchmarkResult_row:
  assumes "InsertBenchmarkResult g p d = (Inr i, d')"
  shows "g = Inr i" "in_results d' = in_results d @ [result_of i p]" "d' = d\<lparr>in_results := in_results d'\<rparr>"
    "submission_check p" "references p d" "i \<notin> ir_ID ` set (in_results d)"
    "ir_SubmissionKey p \<noteq> None \<Longrightarrow> ir_SubmissionKey p \<notin> ir_SubmissionKey ` set (in_results d)"
  using assms by (auto simp: InsertBenchmarkResult_def split: sum.splits if_splits)

lemma inserted_key:
  assumes "InsertBenchmarkResult g p d = (Inr i, d')" "ir_SubmissionKey p = Some k"
  shows "\<exists>h. ir_SubmissionPayloadSHA256 p = Some h \<and> GetBenchmarkResultBySubmissionKey k d' =
    Inr \<lparr>sb_ID = i, sb_RunID = ir_RunID p, sb_HistoryFingerprint = ir_HistoryFingerprint p, sb_PayloadSHA256 = h\<rparr>"
proof -
  note r = InsertBenchmarkResult_row [OF assms(1)]
  have "find (\<lambda>r. ir_SubmissionKey r = Some k) (in_results d) = None"
    using r(7) assms(2) by (fastforce simp: find_None_iff intro: rev_image_eqI)
  moreover obtain h where "ir_SubmissionPayloadSHA256 p = Some h"
    using r(4) assms(2) by (auto simp: submission_check_def split: option.splits)
  ultimately show ?thesis
    using assms(2) by (simp add: GetBenchmarkResultBySubmissionKey_def r(2) find_snoc result_of_def InsertBenchmarkResultParams.defs)
qed

lemma insert_result_key:
  assumes "insert_result sx req h ins d = (Inr res, d')" "rq_SubmissionKey req \<noteq> []"
    "ir_SubmissionKey ins = Some (rq_SubmissionKey req)" "ir_SubmissionPayloadSHA256 ins = strOrNil h"
    "ir_RunID ins = rq_RunID req"
  shows "GetBenchmarkResultBySubmissionKey (rq_SubmissionKey req) d' = Inr (replay_row res h)"
proof (cases "call sx 7 (InsertBenchmarkResult (sx_gen sx 7) ins) d")
  case (Pair x d1)
  show ?thesis
  proof (cases x)
    case (Inr i)
    with Pair have "call sx 7 (InsertBenchmarkResult (sx_gen sx 7) ins) d = (Inr i, d1)" by simp
    from inserted_key [OF call_Inr [OF this] assms(3)] assms(1,4,5) Pair Inr show ?thesis
      by (auto simp: insert_result_def replay_row_def strOrNil_def split: if_splits)
  next
    case (Inl e)
    with assms(1,2) Pair show ?thesis
      by (auto simp: insert_result_def replaySubmission_Inr query_def dest!: call_Inr split: if_splits sum.splits prod.splits)
  qed
qed

lemma buildInsertParams_fields:
  assumes "buildInsertParams req rs refs h = Inr ins"
  shows "ir_SubmissionKey ins = strOrNil (rq_SubmissionKey req)" "ir_SubmissionPayloadSHA256 ins = strOrNil h"
    "ir_RunID ins = rq_RunID req" "ir_CaseID ins = rf_caseID refs" "ir_ContextID ins = rf_contextID refs"
    "ir_InfoID ins = rf_infoID refs" "ir_HardwareID ins = rf_hardwareID refs" "ir_CommitID ins = rf_commitID refs"
    "ir_HistoryFingerprint ins = rf_fingerprint refs" "ir_Unit ins = rs_unit rs" "ir_Data ins = rs_data rs"
    "ir_Error ins = rs_errorJSON rs" "ir_Aggs ins = rs_aggs rs" "ir_Timestamp ins = rq_Timestamp req"
    "ir_CommitRepoUrl ins = rf_repoURL refs"
  using assms by (auto simp: buildInsertParams_def sub_bind_def split: sum.splits)

text \<open>A submission that succeeds was replayed, or inserted after all the other calls.\<close>

lemma Submit_cases [consumes 1, case_names replayed inserted]:
  assumes "Submit sx md5 sha256 resolve req d = (Inr res, d')"
  obtains "replay_check sx sha256 req d = (Inr (Inr res), d')"
  | h d1 name tags ctx info rs caseID d2 contextID d3 infoID d4 hp hash hardwareID d5 commitID d6 ins
  where "replay_check sx sha256 req d = (Inl h, d1)" "validated req = Inr (name, tags, ctx, info, rs)"
    "call sx 1 (at_table in_cases put_cases
       (GetOrCreateCase (sx_cases sx False) (sx_cases sx True) (sx_gen sx 1) name tags)) d1 = (Inr caseID, d2)"
    "call sx 2 (at_table in_contexts put_contexts
       (GetOrCreateContext (sx_contexts sx False) (sx_contexts sx True) (sx_gen sx 2) ctx)) d2 = (Inr contextID, d3)"
    "call sx 3 (at_table in_infos put_infos
       (GetOrCreateInfo (sx_infos sx False) (sx_infos sx True) (sx_gen sx 3) info)) d3 = (Inr infoID, d4)"
    "buildHardware md5 req = Inr (hp, hash)"
    "call sx 4 (at_table in_hardware put_hardware
       (GetOrCreateHardware (sx_hardware sx False) (sx_hardware sx True) (sx_gen sx 4) hp)) d4 = (Inr hardwareID, d5)"
    "resolveCommit sx resolve req d5 = (Inr commitID, d6)"
    "buildInsertParams req rs \<lparr>rf_caseID = caseID, rf_contextID = contextID, rf_infoID = infoID,
        rf_hardwareID = hardwareID, rf_commitID = commitID,
        rf_repoURL = NormalizeRepoURL (gi_Repository (rq_GitHub req)),
        rf_fingerprint = HistoryFingerprint md5 caseID contextID hash (NormalizeRepoURL (gi_Repository (rq_GitHub req)))\<rparr> h
      = Inr ins"
    "insert_result sx req h ins d6 = (Inr res, d')"
proof (cases "replay_check sx sha256 req d")
  case (Pair x d1)
  show thesis
  proof (cases x)
    case (Inr r)
    with Pair assms that(1) show thesis by (simp add: Submit_def)
  next
    case (Inl h)
    with Pair assms show thesis
      by (auto simp: Submit_def ing_Inr Let_def split: prod.splits intro: that(2))
  qed
qed

lemma Submit_key:
  assumes "Submit sx md5 sha256 resolve req d = (Inr res, d')" "rq_SubmissionKey req \<noteq> []"
  shows "\<exists>h. canonicalSubmissionPayloadSHA256 sha256 req = Inr h \<and>
    GetBenchmarkResultBySubmissionKey (rq_SubmissionKey req) d' = Inr (replay_row res h)"
  using assms(1)
proof (cases rule: Submit_cases)
  case replayed
  then show ?thesis by (rule replay_check_found)
next
  case (inserted h d1 name tags ctx info rs caseID d2 contextID d3 infoID d4 hp hash hardwareID d5 commitID d6 ins)
  from buildInsertParams_fields [OF inserted(9)] insert_result_key [OF inserted(10) assms(2)]
    replay_check_new [OF inserted(1) assms(2)] assms(2)
  show ?thesis by (simp add: strOrNil_def)
qed

lemma replay_check_length:
  assumes "replay_check sx sha256 req d = (x, d1)" "rq_SubmissionKey req \<noteq> []" "x = Inl h \<or> x = Inr (Inr res)"
  shows "length (runes (rq_SubmissionKey req)) \<le> 255"
  using assms by (auto simp: replay_check_def split: if_splits)

lemma Submit_length:
  assumes "Submit sx md5 sha256 resolve req d = (Inr res, d')" "rq_SubmissionKey req \<noteq> []"
  shows "length (runes (rq_SubmissionKey req)) \<le> 255"
  using assms(1) by (cases rule: Submit_cases) (auto dest: replay_check_length [OF _ assms(2)])

lemma one_row:
  assumes "keys_ok rs" "find (\<lambda>r. ir_SubmissionKey r = Some k) rs \<noteq> None"
  shows "length (filter (\<lambda>r. ir_SubmissionKey r = Some k) rs) = 1"
proof -
  let ?xs = "filter (\<lambda>r. ir_SubmissionKey r = Some k) rs"
  have d: "distinct (map ir_SubmissionKey ?xs)"
    using assms(1) by (auto simp: keys_ok_def filter_map distinct_map comp_def inj_on_def)
  have e: "ir_SubmissionKey r = Some k" if "r \<in> set ?xs" for r using that by simp
  obtain a ys where a: "?xs = a # ys"
    using assms(2) by (cases ?xs) (auto simp: find_None_iff filter_empty_conv)
  moreover have "ys = []"
  proof (cases ys)
    case (Cons b zs)
    with a d e [of a] e [of b] show ?thesis by (metis distinct_length_2_or_more list.set_intros list.simps(9))
  qed
  ultimately show ?thesis by simp
qed

lemma replay_at:
  assumes "GetBenchmarkResultBySubmissionKey (rq_SubmissionKey req) d = Inr x" "rq_SubmissionKey req \<noteq> []"
    "length (runes (rq_SubmissionKey req)) \<le> 255" "canonicalSubmissionPayloadSHA256 sha256 req = Inr h"
    "sx_env sx 0 d = d" "sx_fail sx 0 = None"
  shows "Submit sx md5 sha256 resolve req d = (replaySubmission x h, d)"
  using assms by (simp add: Submit_def replay_check_def call_def query_def)

section \<open>The recorded row\<close>

text \<open>What the ingestion relies on of a commit provider: the commit it describes is the one asked for.\<close>

locale commit_provider =
  fixes resolve :: "Request \<Rightarrow> string + Info option"
  assumes resolved: "resolve req = Inr (Some info) \<Longrightarrow>
    Sha info = req_Commit req \<and> Repository info = NormalizeRepoURL (req_Repository req)"
begin

lemma resolveCommit_row:
  assumes "resolveCommit sx resolve req d = (Inr (Some i), d')"
  shows "((gi_Commit (rq_GitHub req), NormalizeRepoURL (gi_Repository (rq_GitHub req))), i) \<in> commit_table.binds (in_commits d')"
proof -
  let ?q = "call sx 5 (query (\<lambda>d. GetCommitID (gi_Commit (rq_GitHub req))
      (NormalizeRepoURL (gi_Repository (rq_GitHub req))) (in_commits d))) d"
  obtain y d1 where q: "?q = (y, d1)" by fastforce
  show ?thesis
  proof (cases y)
    case (Inr j)
    with q have "?q = (Inr j, d1)" by simp
    from call_Inr [OF this]
    have "GetCommitID (gi_Commit (rq_GitHub req)) (NormalizeRepoURL (gi_Repository (rq_GitHub req))) (in_commits d1) = Inr j"
      by (auto simp: query_def)
    with GetCommitID_row assms Inr q show ?thesis
      by (auto simp: resolveCommit_def split: if_splits)
  next
    case (Inl e)
    with assms q obtain info where info: "resolve (commit_request req) = Inr (Some info)"
      and c: "call sx 6 (at_table in_commits put_commits (GetOrCreateCommit (sx_commits sx False) (sx_commits sx True)
          (sx_gen sx 6) (commit_params info))) d1 = (Inr i, d')"
      by (auto simp: resolveCommit_def ing_Inr split: if_splits sum.splits option.splits)
    from at_table_result [OF call_Inr [OF c]] GetOrCreateCommit_row
    have "((c_sha (commit_params info), c_repository (commit_params info)), i) \<in> commit_table.binds (in_commits d')"
      by (metis put_get(10))
    with resolved [OF info] show ?thesis by (simp add: commit_params_def commit_request_def Let_def)
  qed
qed

end

lemma resolveCommit_Some: "resolveCommit sx resolve req d = (Inr (Some i), d') \<Longrightarrow> gi_Commit (rq_GitHub req) \<noteq> []"
  by (auto simp: resolveCommit_def)

lemma resolveCommit_None:
  "resolveCommit sx resolve req d = (Inr None, d') \<Longrightarrow>
     gi_Commit (rq_GitHub req) = [] \<or> resolve (commit_request req) = Inr None"
  by (auto simp: resolveCommit_def ing_Inr split: if_splits sum.splits prod.splits option.splits)

text \<open>The providers of the program keep the contract.\<close>

interpretation local_provider: commit_provider "\<lambda>req. Inr (LocalProvider_Resolve req)"
  by unfold_locales (auto simp: LocalProvider_Resolve_def split: if_splits)

interpretation map_provider: commit_provider "\<lambda>req. Inr (MapProvider_Resolve commits req)"
  by unfold_locales (auto simp: MapProvider_Resolve_def Let_def split: if_splits option.splits)

definition github_resolve :: "gh_api \<Rightarrow> GitHubProvider \<Rightarrow> Request \<Rightarrow> string + Info option" where
  "github_resolve api p req = Inr (fst (GitHubProvider_Resolve api p req))"

lemma enrich_names:
  "enrich api repo req = Inr x \<Longrightarrow> Sha (enr_info x) = req_Commit req \<and> Repository (enr_info x) = repo"
  by (auto simp: enrich_def Let_def split: option.splits sum.splits if_splits)

lemma github_resolve_Some:
  "github_resolve api p req = Inr (Some info) \<Longrightarrow>
     Sha info = req_Commit req \<and> Repository info = NormalizeRepoURL (req_Repository req)"
  by (auto simp: github_resolve_def GitHubProvider_Resolve_def Enrich_def Let_def dest: enrich_names
      split: sum.splits if_splits)

lemma github_resolve_None: "github_resolve api p req = Inr None \<Longrightarrow> req_Commit req = []"
  by (auto simp: github_resolve_def GitHubProvider_Resolve_def Enrich_def Let_def split: sum.splits if_splits)

interpretation github_provider: commit_provider "github_resolve api p"
  by unfold_locales (rule github_resolve_Some)

text \<open>The columns of the recorded row, and what its references stand for.\<close>

definition recorded :: "(string \<Rightarrow> string) \<Rightarrow> SubmitRequest \<Rightarrow> ingest_db \<Rightarrow> BenchmarkResult \<Rightarrow> bool" where
  "recorded md5 req d r \<longleftrightarrow> r \<in> set (in_results d) \<and>
     (let repo = NormalizeRepoURL (gi_Repository (rq_GitHub req)) in
      \<exists>name tags ctx info rs hp hash g.
        validated req = Inr (name, tags, ctx, info, rs) \<and> buildHardware md5 req = Inr (hp, hash) \<and>
        ((name, tags), ir_CaseID r) \<in> case_table.binds (in_cases d) \<and>
        (ctx, ir_ContextID r) \<in> context_table.binds (in_contexts d) \<and>
        (info, ir_InfoID r) \<in> info_binds (in_infos d) \<and>
        (g, hardware_key hp, ir_HardwareID r) \<in> hardware_binds (in_hardware d) \<and>
        (\<forall>i. ir_CommitID r = Some i \<longrightarrow> gi_Commit (rq_GitHub req) \<noteq> [] \<and>
           ((gi_Commit (rq_GitHub req), repo), i) \<in> commit_table.binds (in_commits d)) \<and>
        ir_HistoryFingerprint r = HistoryFingerprint md5 (ir_CaseID r) (ir_ContextID r) hash repo \<and>
        ir_RunID r = rq_RunID req \<and> ir_Timestamp r = rq_Timestamp req \<and>
        ir_Unit r = rs_unit rs \<and> ir_Data r = rs_data rs \<and> ir_Error r = rs_errorJSON rs \<and> ir_Aggs r = rs_aggs rs)"

lemma call_steps: "script_ok sx \<Longrightarrow> call sx k f d = (x, d') \<Longrightarrow> (\<And>d. ing_steps d (snd (f d))) \<Longrightarrow> ing_steps d d'"
  using stepping_call [of sx f d k] by simp

lemma insert_result_new:
  assumes "insert_result sx req h ins d = (Inr res, d')" "rq_SubmissionKey req = []"
  shows "\<exists>d0. InsertBenchmarkResult (sx_gen sx 7) ins d0 = (Inr (sr_ID res), d') \<and>
    res = \<lparr>sr_ID = sr_ID res, sr_RunID = rq_RunID req, sr_HistoryFingerprint = ir_HistoryFingerprint ins\<rparr>"
proof (cases "call sx 7 (InsertBenchmarkResult (sx_gen sx 7) ins) d")
  case (Pair x d1)
  with assms have "x = Inr (sr_ID res)" "d1 = d'"
    "res = \<lparr>sr_ID = sr_ID res, sr_RunID = rq_RunID req, sr_HistoryFingerprint = ir_HistoryFingerprint ins\<rparr>"
    by (auto simp: insert_result_def split: sum.splits)
  with Pair have "InsertBenchmarkResult (sx_gen sx 7) ins (sx_env sx 7 d) = (Inr (sr_ID res), d')"
    by (intro call_Inr [of sx 7 "InsertBenchmarkResult (sx_gen sx 7) ins" d]) simp
  with \<open>res = _\<close> show ?thesis by blast
qed

text \<open>A get-or-create call: the row it names, in a database that has only grown.\<close>

lemma call_known:
  assumes "script_ok sx" "call sx k (at_table get put f) d = (Inr i, d')"
    and "\<And>d. ing_steps d (snd (at_table get put f d))" "\<And>t d. get (put t d) = t"
    and "\<And>t t'. f t = (Inr i, t') \<Longrightarrow> P t'"
  shows "grows d d' \<and> P (get d')"
proof
  show "grows d d'" using call_steps [OF assms(1-3)] by (rule ing_steps_grows)
  from at_table_result [OF call_Inr [OF assms(2)] assms(4)] assms(5) show "P (get d')" by metis
qed

lemma entity_calls:
  assumes ok: "script_ok sx"
  shows "call sx k (at_table in_cases put_cases (GetOrCreateCase (sx_cases sx a) (sx_cases sx b) j name tags)) d = (Inr i, d')
      \<Longrightarrow> grows d d' \<and> ((name, tags), i) \<in> case_table.binds (in_cases d')"
    "call sx k (at_table in_contexts put_contexts (GetOrCreateContext (sx_contexts sx a) (sx_contexts sx b) j ctags)) d = (Inr i, d')
      \<Longrightarrow> grows d d' \<and> (ctags, i) \<in> context_table.binds (in_contexts d')"
    "call sx k (at_table in_infos put_infos (GetOrCreateInfo (sx_infos sx a) (sx_infos sx b) j itags)) d = (Inr i, d')
      \<Longrightarrow> grows d d' \<and> (itags, i) \<in> info_binds (in_infos d')"
    "call sx k (at_table in_hardware put_hardware (GetOrCreateHardware (sx_hardware sx a) (sx_hardware sx b) j hp)) d = (Inr i, d')
      \<Longrightarrow> grows d d' \<and> (\<exists>g. (g, hardware_key hp, i) \<in> hardware_binds (in_hardware d'))"
proof -
  show "grows d d' \<and> ((name, tags), i) \<in> case_table.binds (in_cases d')"
    if "call sx k (at_table in_cases put_cases (GetOrCreateCase (sx_cases sx a) (sx_cases sx b) j name tags)) d = (Inr i, d')"
    by (rule call_known [where P = "\<lambda>t. ((name, tags), i) \<in> case_table.binds t", OF ok that stepping_tables(1) [OF ok]]) (simp_all add: GetOrCreateCase_row)
  show "grows d d' \<and> (ctags, i) \<in> context_table.binds (in_contexts d')"
    if "call sx k (at_table in_contexts put_contexts (GetOrCreateContext (sx_contexts sx a) (sx_contexts sx b) j ctags)) d = (Inr i, d')"
    by (rule call_known [where P = "\<lambda>t. (ctags, i) \<in> context_table.binds t", OF ok that stepping_tables(2) [OF ok]]) (simp_all add: GetOrCreateContext_row)
  show "grows d d' \<and> (itags, i) \<in> info_binds (in_infos d')"
    if "call sx k (at_table in_infos put_infos (GetOrCreateInfo (sx_infos sx a) (sx_infos sx b) j itags)) d = (Inr i, d')"
    by (rule call_known [where P = "\<lambda>t. (itags, i) \<in> info_binds t", OF ok that stepping_tables(3) [OF ok]]) (simp_all add: GetOrCreateInfo_row)
  show "grows d d' \<and> (\<exists>g. (g, hardware_key hp, i) \<in> hardware_binds (in_hardware d'))"
    if "call sx k (at_table in_hardware put_hardware (GetOrCreateHardware (sx_hardware sx a) (sx_hardware sx b) j hp)) d = (Inr i, d')"
    by (rule call_known [where P = "\<lambda>t. \<exists>g. (g, hardware_key hp, i) \<in> hardware_binds t", OF ok that stepping_tables(4) [OF ok]]) (simp_all add: GetOrCreateHardware_row)
qed

lemma result_of_columns [simp]:
  "ir_CaseID (result_of i p) = ir_CaseID p" "ir_ContextID (result_of i p) = ir_ContextID p"
  "ir_InfoID (result_of i p) = ir_InfoID p" "ir_HardwareID (result_of i p) = ir_HardwareID p"
  "ir_CommitID (result_of i p) = ir_CommitID p" "ir_HistoryFingerprint (result_of i p) = ir_HistoryFingerprint p"
  "ir_RunID (result_of i p) = ir_RunID p" "ir_Timestamp (result_of i p) = ir_Timestamp p"
  "ir_Unit (result_of i p) = ir_Unit p" "ir_Data (result_of i p) = ir_Data p" "ir_Error (result_of i p) = ir_Error p"
  "ir_Aggs (result_of i p) = ir_Aggs p"
  by (simp_all add: result_of_def InsertBenchmarkResultParams.defs)

context commit_provider
begin

lemma Submit_recorded:
  assumes ok: "script_ok sx" and key: "rq_SubmissionKey req = []"
    and submit: "Submit sx md5 sha256 resolve req d = (Inr res, d')"
  obtains r where "recorded md5 req d' r" "ir_ID r = sr_ID res" "ir_HistoryFingerprint r = sr_HistoryFingerprint res"
    "ir_CommitID r = None \<Longrightarrow> gi_Commit (rq_GitHub req) = [] \<or> resolve (commit_request req) = Inr None"
  using submit
proof (cases rule: Submit_cases)
  case replayed
  then show thesis using key by (simp add: replay_check_def)
next
  case (inserted h d1 name tags ctx info rs caseID d2 contextID d3 infoID d4 hp hash hardwareID d5 commitID d6 ins)
  obtain d0 where ins: "InsertBenchmarkResult (sx_gen sx 7) ins d0 = (Inr (sr_ID res), d')"
    and res: "res = \<lparr>sr_ID = sr_ID res, sr_RunID = rq_RunID req, sr_HistoryFingerprint = ir_HistoryFingerprint ins\<rparr>"
    using insert_result_new [OF inserted(10) key] by blast
  define r where "r = result_of (sr_ID res) ins"
  have r: "r \<in> set (in_results d')" using InsertBenchmarkResult_row [OF ins] by (simp add: r_def)
  have s6: "grows d6 d'" using stepping_insert_result [OF ok, of d6 req h ins] inserted(10) by (auto dest: ing_steps_grows)
  have s5: "grows d5 d'" using stepping_resolveCommit [OF ok, of d5 resolve req] inserted(8) s6
    by (auto dest: ing_steps_grows intro: grows_trans)
  note c4 = entity_calls(4) [OF ok inserted(7)] and c3 = entity_calls(3) [OF ok inserted(5)]
    and c2 = entity_calls(2) [OF ok inserted(4)] and c1 = entity_calls(1) [OF ok inserted(3)]
  have s4: "grows d4 d'" using c4 s5 grows_trans by blast
  have s3: "grows d3 d'" using c3 s4 grows_trans by blast
  have s2: "grows d2 d'" using c2 s3 grows_trans by blast
  obtain g where c4g: "(g, hardware_key hp, hardwareID) \<in> hardware_binds (in_hardware d5)" using c4 by blast
  note f = buildInsertParams_fields [OF inserted(9)]
  have cols: "ir_CaseID r = caseID" "ir_ContextID r = contextID" "ir_InfoID r = infoID" "ir_HardwareID r = hardwareID"
    "ir_CommitID r = commitID"
    by (simp_all add: r_def f)
  have "recorded md5 req d' r"
    unfolding recorded_def Let_def cols
  proof (intro conjI exI allI impI)
    show "((name, tags), caseID) \<in> case_table.binds (in_cases d')" using c1 s2 by (auto simp: grows_def)
    show "(ctx, contextID) \<in> context_table.binds (in_contexts d')" using c2 s3 by (auto simp: grows_def)
    show "(info, infoID) \<in> info_binds (in_infos d')" using c3 s4 by (auto simp: grows_def)
    show "(g, hardware_key hp, hardwareID) \<in> hardware_binds (in_hardware d')" using c4g s5 by (auto simp: grows_def)
    show "((gi_Commit (rq_GitHub req), NormalizeRepoURL (gi_Repository (rq_GitHub req))), i)
        \<in> commit_table.binds (in_commits d')" "gi_Commit (rq_GitHub req) \<noteq> []" if "commitID = Some i" for i
      using resolveCommit_Some resolveCommit_row inserted(8) that s6 by (auto simp: grows_def)
  qed (use inserted(2,6) r in \<open>simp_all add: r_def f\<close>)
  moreover have "ir_ID r = sr_ID res" by (simp add: r_def)
  moreover have "ir_HistoryFingerprint r = sr_HistoryFingerprint res" by (subst res) (simp add: r_def)
  moreover have "gi_Commit (rq_GitHub req) = [] \<or> resolve (commit_request req) = Inr None" if "ir_CommitID r = None"
    using resolveCommit_None [of sx resolve req d5 d6] inserted(8) cols(5) that by simp
  ultimately show thesis by (rule that)
qed

end

text \<open>How the read queries see the recorded row.\<close>

lemma by_id_binds:
  assumes "(k, i) \<in> (\<lambda>r. (key r, rid r)) ` set t" "distinct (map rid t)"
  obtains r where "by_id rid i t = Some r" "key r = k" "rid r = i"
proof -
  from assms(1) obtain r where r: "r \<in> set t" "key r = k" "rid r = i" by auto
  have "by_id rid i t \<noteq> None" using r by (auto simp: by_id_def find_None_iff)
  then obtain r' where r': "by_id rid i t = Some r'" by blast
  then have "r' \<in> set t" "rid r' = i" by (auto simp: by_id_def find_Some_iff)
  with r assms(2) have "r' = r" by (metis distinct_map inj_on_eq_iff)
  with r' r show thesis by (intro that) auto
qed

lemma hardware_by_id:
  assumes "(g, hardware_key hp, i) \<in> hardware_binds t" "distinct (map hw_ID t)"
  obtains h where "by_id hw_ID i t = Some h" "hw_Type h = hw_Type hp" "hw_Name h = hw_Name hp"
proof -
  from assms(1) have "((g, hardware_key hp), i) \<in> (\<lambda>h. ((hw_Hash h, hardware_key h), hw_ID h)) ` set t"
    by (auto simp: hardware_binds_def)
  from by_id_binds [OF this assms(2)] obtain h where h: "by_id hw_ID i t = Some h" "hardware_key h = hardware_key hp"
    by auto
  then have "hw_Type h = hw_Type hp" "hw_Name h = hw_Name hp"
    by (simp_all add: hardware_key_def InsertHardwareParams.defs)
  with h(1) show thesis by (rule that)
qed

lemma joined_member: "r \<in> set (in_results d) \<Longrightarrow> join_row d r = Some x \<Longrightarrow> x \<in> set (db_results (joined d))"
  by (force simp: joined_def List.map_filter_def)

lemma join_row_of:
  assumes "x \<in> set (db_results (joined d))"
  obtains r where "r \<in> set (in_results d)" "join_row d r = Some x"
  using assms by (auto simp: joined_def List.map_filter_def)

lemma join_row_id: "join_row d r = Some x \<Longrightarrow> br_id x = ir_ID r"
  by (auto simp: join_row_def split: option.splits)

lemma recorded_joined:
  assumes "recorded md5 req d r" "ingest_ok d"
  obtains x name tags ctx info rs hp hash where "join_row d r = Some x"
    "validated req = Inr (name, tags, ctx, info, rs)" "buildHardware md5 req = Inr (hp, hash)"
    "br_id x = ir_ID r" "br_run_id x = rq_RunID req" "br_timestamp x = rq_Timestamp req"
    "br_fingerprint x = ir_HistoryFingerprint r" "br_commit_id x = ir_CommitID r"
    "br_case_name x = name" "br_case_tags x = Some tags" "br_context_tags x = Some ctx" "br_info_tags x = Some info"
    "br_hw_type x = hw_Type hp" "br_hw_name x = hw_Name hp" "br_unit x = rs_unit rs" "br_mean x = ac_Mean (rs_aggs rs)"
    "br_data x = (case rs_data rs of None \<Rightarrow> [] | Some xs \<Rightarrow> xs)" "br_error x = rs_errorJSON rs"
proof -
  note u = assms(2) [unfolded ingest_ok_def case_table.uniq_def context_table.uniq_def]
  from assms(1) obtain name tags ctx info rs hp hash g where
    v: "validated req = Inr (name, tags, ctx, info, rs)" "buildHardware md5 req = Inr (hp, hash)"
    and b: "((name, tags), ir_CaseID r) \<in> case_table.binds (in_cases d)"
      "(ctx, ir_ContextID r) \<in> context_table.binds (in_contexts d)" "(info, ir_InfoID r) \<in> info_binds (in_infos d)"
      "(g, hardware_key hp, ir_HardwareID r) \<in> hardware_binds (in_hardware d)"
    and c: "ir_RunID r = rq_RunID req" "ir_Timestamp r = rq_Timestamp req" "ir_Unit r = rs_unit rs"
      "ir_Data r = rs_data rs" "ir_Error r = rs_errorJSON rs" "ir_Aggs r = rs_aggs rs"
    unfolding recorded_def Let_def by blast
  obtain cs where cs: "by_id case_id (ir_CaseID r) (in_cases d) = Some cs" "(case_name cs, case_tags cs) = (name, tags)"
    using by_id_binds [OF b(1) [unfolded case_table.binds_def]] u by blast
  obtain cx where cx: "by_id tags_id (ir_ContextID r) (in_contexts d) = Some cx" "tags_value cx = ctx"
    using by_id_binds [OF b(2) [unfolded context_table.binds_def]] u by blast
  obtain nf where nf: "by_id tags_id (ir_InfoID r) (in_infos d) = Some nf" "tags_value nf = info"
    using by_id_binds [OF b(3) [unfolded info_binds_def]] u by blast
  obtain h where h: "by_id hw_ID (ir_HardwareID r) (in_hardware d) = Some h" "hw_Type h = hw_Type hp" "hw_Name h = hw_Name hp"
    using hardware_by_id [OF b(4)] u by blast
  obtain x where x: "join_row d r = Some x" by (simp add: join_row_def cs(1) cx(1) nf(1) h(1))
  show thesis
    by (rule that [OF x v]) (use x cs(2) in \<open>auto simp: join_row_def cs(1) cx nf h c\<close>)
qed

lemma recorded_commit:
  assumes "recorded md5 req d r" "ingest_ok d" "join_row d r = Some x"
  shows "case ir_CommitID r of None \<Rightarrow> commit_of (joined d) x = None
    | Some i \<Rightarrow> \<exists>c. commit_of (joined d) x = Some c \<and> c_sha c = gi_Commit (rq_GitHub req) \<and>
        c_repository c = NormalizeRepoURL (gi_Repository (rq_GitHub req))"
proof -
  have x: "br_commit_id x = ir_CommitID r" using assms(3) by (auto simp: join_row_def split: option.splits)
  show ?thesis
  proof (cases "ir_CommitID r")
    case (Some i)
    then have "((gi_Commit (rq_GitHub req), NormalizeRepoURL (gi_Repository (rq_GitHub req))), i) \<in> commit_table.binds (in_commits d)"
      using assms(1) by (auto simp: recorded_def Let_def)
    from by_id_binds [OF this [unfolded commit_table.binds_def]] assms(2) obtain c
      where "by_id c_id i (in_commits d) = Some c" "commit_key c = (gi_Commit (rq_GitHub req), NormalizeRepoURL (gi_Repository (rq_GitHub req)))"
      by (auto simp: ingest_ok_def commit_table.uniq_def)
    then show ?thesis by (simp add: Some x commit_of_def joined_def by_id_def commit_key_def)
  qed (simp add: x commit_of_def)
qed

lemma history_ids:
  "i \<in> hr_ID ` set (SelectHistoryForFingerprint coll d fp) \<longleftrightarrow>
     (\<exists>x \<in> set (db_results d). br_id x = i \<and> history_member d fp None x)"
  by (auto simp: SelectHistoryForFingerprint_def history_row_def Let_def image_iff)

lemma joined_unique:
  assumes "ingest_ok d" "r \<in> set (in_results d)" "join_row d r = Some x" "y \<in> set (db_results (joined d))" "br_id y = br_id x"
  shows "y = x"
proof -
  obtain s where s: "s \<in> set (in_results d)" "join_row d s = Some y" using join_row_of [OF assms(4)] by blast
  then have "ir_ID s = ir_ID r" using assms(3,5) join_row_id by metis
  moreover have "inj_on ir_ID (set (in_results d))" using assms(1) by (simp add: ingest_ok_def keys_ok_def distinct_map)
  ultimately have "s = r" using assms(2) s(1) by (simp add: inj_on_eq_iff)
  with s(2) assms(3) show ?thesis by simp
qed

lemma commit_unique:
  assumes "ingest_ok d" "c \<in> set (in_commits d)" "c' \<in> set (in_commits d)" "c_sha c = c_sha c'" "c_repository c = c_repository c'"
  shows "c = c'"
proof -
  have "inj_on commit_key (set (in_commits d))" using assms(1) by (simp add: ingest_ok_def commit_table.uniq_def distinct_map)
  then show ?thesis using assms(2-5) by (simp add: inj_on_def commit_key_def)
qed

text \<open>Where validation errors come from.\<close>

lemma replay_check_state: "replay_check sx sha256 req d = (x, d1) \<Longrightarrow> d1 \<in> {d, sx_env sx 0 d}"
  by (auto simp: replay_check_def call_def query_def Let_def split: if_splits sum.splits prod.splits option.splits)

lemma canonical_error: "canonicalSubmissionPayloadSHA256 sha256 req = Inl e \<Longrightarrow> \<not> is_validation e"
  by (auto simp: canonicalSubmissionPayloadSHA256_def split: option.splits)

lemma replay_check_invalid:
  assumes "replay_check sx sha256 req d = (Inr (Inl e), d1)" "is_validation e"
  shows "255 < length (runes (rq_SubmissionKey req))"
  using assms by (auto simp: replay_check_def replaySubmission_def dest: canonical_error
      split: if_splits sum.splits prod.splits)

definition never_invalid :: "'a ing \<Rightarrow> bool" where
  "never_invalid m \<longleftrightarrow> (\<forall>d e d'. m d = (Inl e, d') \<longrightarrow> \<not> is_validation e)"

lemma never_invalidD: "never_invalid m \<Longrightarrow> m d = (Inl e, d') \<Longrightarrow> \<not> is_validation e"
  by (auto simp: never_invalid_def)

lemma never_invalid_bind: "never_invalid m \<Longrightarrow> (\<And>x. never_invalid (f x)) \<Longrightarrow> never_invalid (ing_bind m f)"
  by (auto simp: never_invalid_def ing_bind_def split: prod.splits sum.splits)

lemma never_invalid_stored: "never_invalid (stored what f)"
  by (auto simp: never_invalid_def stored_def split: prod.splits sum.splits)

lemma never_invalid_pure: "(\<And>e. x = Inl e \<Longrightarrow> \<not> is_validation e) \<Longrightarrow> never_invalid (pure x)"
  by (auto simp: never_invalid_def pure_def)

lemma never_invalid_prod: "(\<And>a b. never_invalid (f a b)) \<Longrightarrow> never_invalid (case x of (a, b) \<Rightarrow> f a b)"
  by (cases x) simp

lemma buildHardware_error: "buildHardware md5 req = Inl e \<Longrightarrow> \<not> is_validation e"
  by (auto simp: buildHardware_def Let_def split: option.splits)

lemma buildInsertParams_error: "buildInsertParams req rs refs h = Inl e \<Longrightarrow> \<not> is_validation e"
  by (auto simp: buildInsertParams_def sub_bind_def or_marshal_def split: sum.splits option.splits)

lemma never_invalid_resolveCommit: "never_invalid (resolveCommit sx resolve req)"
  by (auto simp: never_invalid_def resolveCommit_def ing_bind_def stored_def pure_def
      split: if_splits prod.splits sum.splits option.splits)

lemma never_invalid_insert_result: "never_invalid (insert_result sx req h ins)"
  by (auto simp: never_invalid_def insert_result_def replaySubmission_def split: if_splits prod.splits sum.splits)

lemmas never_invalid = never_invalid_bind never_invalid_prod never_invalid_stored never_invalid_pure never_invalid_resolveCommit
  never_invalid_insert_result

section \<open>Properties\<close>

text \<open>
  C2: Submissions are idempotent. When a submission with a key has succeeded, whatever other
  transactions did around its calls, exactly one result has the key; the same submission
  again returns the same result and changes nothing, and a submission of other content under
  the key is refused as a conflict and changes nothing.
\<close>

theorem Submit_idempotent:
  assumes "script_ok sx" "ingest_ok d" "rq_SubmissionKey req \<noteq> []"
    and submit: "Submit sx md5 sha256 resolve req d = (Inr res, d')"
    and calm: "sx_env sx2 0 d' = d'" "sx_fail sx2 0 = None"
  shows "length (filter (\<lambda>r. ir_SubmissionKey r = Some (rq_SubmissionKey req)) (in_results d')) = 1 \<and>
    Submit sx2 md5 sha256 resolve2 req d' = (Inr res, d') \<and>
    (\<forall>req2 h2. rq_SubmissionKey req2 = rq_SubmissionKey req \<longrightarrow>
       canonicalSubmissionPayloadSHA256 sha256 req2 = Inr h2 \<longrightarrow>
       canonicalSubmissionPayloadSHA256 sha256 req \<noteq> Inr h2 \<longrightarrow>
       Submit sx2 md5 sha256 resolve2 req2 d' = (Inl SubmissionConflict, d'))"
proof -
  obtain h where h: "canonicalSubmissionPayloadSHA256 sha256 req = Inr h"
    and row: "GetBenchmarkResultBySubmissionKey (rq_SubmissionKey req) d' = Inr (replay_row res h)"
    using Submit_key [OF submit assms(3)] by blast
  have len: "length (runes (rq_SubmissionKey req)) \<le> 255" by (rule Submit_length [OF submit assms(3)])
  have "ingest_ok d'" using stepping_Submit [OF assms(1)] ing_steps_ok [OF _ assms(2)] submit by (metis snd_conv)
  then have "keys_ok (in_results d')" by (simp add: ingest_ok_def)
  moreover have "find (\<lambda>r. ir_SubmissionKey r = Some (rq_SubmissionKey req)) (in_results d') \<noteq> None"
    using row by (auto simp: GetBenchmarkResultBySubmissionKey_def split: option.splits)
  ultimately have one: "length (filter (\<lambda>r. ir_SubmissionKey r = Some (rq_SubmissionKey req)) (in_results d')) = 1"
    by (rule one_row)
  have again: "Submit sx2 md5 sha256 resolve2 req d' = (Inr res, d')"
    using replay_at [OF row assms(3) len h calm] by (simp add: replaySubmission_Inr)
  have other: "Submit sx2 md5 sha256 resolve2 req2 d' = (Inl SubmissionConflict, d')"
    if "rq_SubmissionKey req2 = rq_SubmissionKey req" "canonicalSubmissionPayloadSHA256 sha256 req2 = Inr h2" "h \<noteq> h2"
    for req2 h2
    using replay_at [of req2, unfolded that(1), OF row assms(3) len that(2) calm] that(3)
    by (simp add: replaySubmission_def replay_row_def)
  show ?thesis using one again other h by simp
qed






text \<open>
  Results of the same benchmark join one series: two successful submissions whose case
  name and tags, context, hardware hash and repository agree get the same fingerprint,
  whatever happened to the tables before, between and during them.
\<close>

theorem Submit_same_series:
  assumes "script_ok sx" "ingest_ok d" "rq_SubmissionKey req = []"
    and first: "Submit sx md5 sha256 (github_resolve api p) req d = (Inr res, d')"
    and "ing_steps d' e" "script_ok sx2" "rq_SubmissionKey req2 = []"
    and second: "Submit sx2 md5 sha256 (github_resolve api p2) req2 e = (Inr res2, e')"
    and valid: "validated req = Inr (name, tags, ctx, info, rs)" "validated req2 = Inr (name, tags, ctx, info2, rs2)"
    and hw: "buildHardware md5 req = Inr (hp, hash)" "buildHardware md5 req2 = Inr (hp2, hash)"
    and repo: "NormalizeRepoURL (gi_Repository (rq_GitHub req)) = NormalizeRepoURL (gi_Repository (rq_GitHub req2))"
  shows "sr_HistoryFingerprint res = sr_HistoryFingerprint res2"
proof -
  obtain r where r: "recorded md5 req d' r" "ir_HistoryFingerprint r = sr_HistoryFingerprint res"
    using github_provider.Submit_recorded [OF assms(1,3) first] by blast
  obtain r2 where r2: "recorded md5 req2 e' r2" "ir_HistoryFingerprint r2 = sr_HistoryFingerprint res2"
    using github_provider.Submit_recorded [OF assms(6,7) second] by blast
  have steps: "ing_steps d' e'" using stepping_Submit [OF assms(6)] second assms(5) by (metis rtranclp_trans snd_conv)
  have "ing_steps d d'" using stepping_Submit [OF assms(1)] first by (metis snd_conv)
  then have ok: "ingest_ok e'" using steps assms(2) ing_steps_ok by blast
  have "grows d' e'" by (rule ing_steps_grows [OF steps])
  then have b: "((name, tags), ir_CaseID r) \<in> case_table.binds (in_cases e')"
      "(ctx, ir_ContextID r) \<in> context_table.binds (in_contexts e')"
    using r(1) valid(1) by (auto simp: recorded_def Let_def grows_def)
  have b2: "((name, tags), ir_CaseID r2) \<in> case_table.binds (in_cases e')"
      "(ctx, ir_ContextID r2) \<in> context_table.binds (in_contexts e')"
    using r2(1) valid(2) by (auto simp: recorded_def Let_def)
  have "ir_CaseID r = ir_CaseID r2"
    using case_table.sel_bound [OF b(1)] case_table.sel_bound [OF b2(1)] ok by (simp add: ingest_ok_def)
  moreover have "ir_ContextID r = ir_ContextID r2"
    using context_table.sel_bound [OF b(2)] context_table.sel_bound [OF b2(2)] ok by (simp add: ingest_ok_def)
  moreover have "ir_HistoryFingerprint r = HistoryFingerprint md5 (ir_CaseID r) (ir_ContextID r) hash
      (NormalizeRepoURL (gi_Repository (rq_GitHub req)))"
    using r(1) hw(1) by (auto simp: recorded_def Let_def)
  moreover have "ir_HistoryFingerprint r2 = HistoryFingerprint md5 (ir_CaseID r2) (ir_ContextID r2) hash
      (NormalizeRepoURL (gi_Repository (rq_GitHub req2)))"
    using r2(1) hw(2) by (auto simp: recorded_def Let_def)
  ultimately show ?thesis using r(2) r2(2) repo by simp
qed

text \<open>
  C31: A request that fails validation leaves no trace: nothing but the lookup of its key
  has happened, and it fails in the same way whenever the key is new.
\<close>

theorem Submit_refused:
  assumes "Submit sx md5 sha256 resolve req d = (Inl e, d')" "is_validation e"
  shows "d' \<in> {d, sx_env sx 0 d} \<and> (validated req = Inl e \<or> 255 < length (runes (rq_SubmissionKey req)))"
proof (cases "replay_check sx sha256 req d")
  case (Pair x d1)
  note lookup = replay_check_state [OF Pair]
  show ?thesis
  proof (cases x)
    case (Inr y)
    with Pair assms(1) have "y = Inl e" "d1 = d'" by (auto simp: Submit_def)
    with lookup Pair Inr assms(2) show ?thesis by (auto dest: replay_check_invalid)
  next
    case (Inl h)
    show ?thesis
    proof (cases "validated req")
      case (Inl v)
      with Pair \<open>x = _\<close> assms(1) lookup show ?thesis by (auto simp: Submit_def ing_bind_def pure_def)
    next
      case (Inr v)
      have "\<not> is_validation e"
        using assms(1) unfolding Submit_def Pair \<open>x = _\<close> prod.case sum.case Inr Let_def
        by (rule never_invalidD [rotated])
           (intro never_invalid; auto dest: buildHardware_error buildInsertParams_error)
      with assms(2) show ?thesis by simp
    qed
  qed
qed



section \<open>Examples\<close>

definition calm_script :: script where
  "calm_script = \<lparr>sx_env = (\<lambda>k d. d), sx_cases = (\<lambda>b t. t), sx_contexts = (\<lambda>b t. t), sx_infos = (\<lambda>b t. t),
     sx_hardware = (\<lambda>b t. t), sx_commits = (\<lambda>b t. t), sx_gen = (\<lambda>k. Inr (''id'' @ itoa (int k))), sx_fail = (\<lambda>k. None)\<rparr>"

lemma calm_script_ok: "script_ok calm_script"
  by (simp add: script_ok_def calm_script_def)

definition demo_machine :: MachineInfo where
  "demo_machine = \<lparr>mi_Name = ''m'', mi_ArchitectureName = None, mi_KernelName = None, mi_OsName = None,
     mi_OsVersion = None, mi_CpuModelName = None, mi_CpuL1dCacheBytes = None, mi_CpuL1iCacheBytes = None,
     mi_CpuL2CacheBytes = None, mi_CpuL3CacheBytes = None, mi_CpuCoreCount = Some 4, mi_CpuThreadCount = None,
     mi_CpuFrequencyMaxHz = None, mi_MemoryBytes = None, mi_GpuCount = None, mi_GpuProductNames = None\<rparr>"

definition demo_submission :: "string \<Rightarrow> string \<Rightarrow> SubmitRequest" where
  "demo_submission key run = \<lparr>rq_SubmissionKey = key, rq_Tags = Some [(''name'', AStr ''b''), (''n'', ANum (Fin 2))],
     rq_Context = Some [(''lang'', AStr ''go'')], rq_Info = None, rq_MachineInfo = Some demo_machine, rq_ClusterInfo = None,
     rq_GitHub = \<lparr>gi_Commit = ''abc'', gi_Repository = ''git@github.com:o/r'', gi_Branch = None, gi_PRNumber = None\<rparr>,
     rq_RunID = run, rq_RunName = None, rq_RunTags = None, rq_RunReason = [], rq_BatchID = [], rq_Timestamp = 0,
     rq_Offset = 0, rq_Stats = Some \<lparr>si_Data = Some [Some (Fin 5)], si_Times = None, si_Unit = ''s'', si_TimeUnit = [],
       si_Iterations = None, si_Aggs = no_aggs\<rparr>,
     rq_Error = \<lparr>jo_Present = False, jo_Null = False, jo_Value = None\<rparr>, rq_OptionalBenchmarkInfo = None,
     rq_Validation = None, rq_ChangeAnnotations = None\<rparr>"

definition demo_sha :: "string \<Rightarrow> string" where
  "demo_sha s = replicate 64 (if even (length s) then CHR ''0'' else CHR ''1'')"

definition demo_provider :: GitHubProvider where
  "demo_provider = \<lparr>unknown = 0, has_backfill = False, enqueued = []\<rparr>"

definition demo_submit :: "string \<Rightarrow> string \<Rightarrow> ingest_db \<Rightarrow> SubmitResult sub \<times> ingest_db" where
  "demo_submit key run d = Submit calm_script (\<lambda>s. ''f'') demo_sha (github_resolve demo_api demo_provider)
     (demo_submission key run) d"

definition demo_result :: "string \<Rightarrow> SubmitResult" where
  "demo_result run = \<lparr>sr_ID = ''id7'', sr_RunID = run, sr_HistoryFingerprint = ''f''\<rparr>"

lemma demo_keyed: "fst (demo_submit ''k'' ''run'' no_rows) = Inr (demo_result ''run'')"
  by code_simp

lemma demo_plain: "fst (demo_submit [] ''run'' no_rows) = Inr (demo_result ''run'')"
  by code_simp

lemma demo_digests:
  "canonicalSubmissionPayloadSHA256 demo_sha (demo_submission ''k'' ''run'') = Inr (replicate 64 (CHR ''0'')) \<and>
   canonicalSubmissionPayloadSHA256 demo_sha (demo_submission ''k'' ''run2'') = Inr (replicate 64 (CHR ''1''))"
  by code_simp

lemma demo_valid: "validated (demo_submission key run) = validated (demo_submission [] [])"
  by (simp add: validated_def validateHardware_def resolveStats_def demo_submission_def)

lemma demo_validates:
  obtains name tags ctx info rs where "validated (demo_submission [] []) = Inr (name, tags, ctx, info, rs)" "rs_errorJSON rs = None"
proof -
  have "(case validated (demo_submission [] []) of Inr (name, tags, ctx, info, rs) \<Rightarrow> rs_errorJSON rs = None | _ \<Rightarrow> False)"
    by code_simp
  then show thesis by (auto split: sum.splits intro: that)
qed

lemma demo_submission_fields [simp]:
  "rq_SubmissionKey (demo_submission key run) = key" "rq_RunID (demo_submission key run) = run"
  "gi_Commit (rq_GitHub (demo_submission key run)) = ''abc''"
  "gi_Repository (rq_GitHub (demo_submission key run)) = ''git@github.com:o/r''"
  "rq_MachineInfo (demo_submission key run) = Some demo_machine"
  by (simp_all add: demo_submission_def)

lemma demo_commit: "NormalizeRepoURL ''git@github.com:o/r'' = ''https://github.com/o/r''"
  by code_simp

theorem Submit_idempotent_witness:
  "(let d = snd (demo_submit ''k'' ''run'' no_rows) in
      length (filter (\<lambda>r. ir_SubmissionKey r = Some ''k'') (in_results d)) = 1 \<and>
      demo_submit ''k'' ''run'' d = (Inr (demo_result ''run''), d) \<and>
      demo_submit ''k'' ''run2'' d = (Inl SubmissionConflict, d))"
proof -
  obtain d where d: "demo_submit ''k'' ''run'' no_rows = (Inr (demo_result ''run''), d)"
    using demo_keyed by (metis prod.collapse)
  have "sx_env calm_script 0 d = d" "sx_fail calm_script 0 = None" by (simp_all add: calm_script_def)
  from Submit_idempotent [OF calm_script_ok no_rows_ok _ d [unfolded demo_submit_def] this] demo_digests show ?thesis
    unfolding Let_def d snd_conv unfolding demo_submit_def by simp
qed


lemma demo_commits: "map (\<lambda>c. (c_sha c, c_repository c, c_fork_point_sha c, c_timestamp c \<noteq> None))
    (in_commits (snd (demo_submit [] ''run'' no_rows))) = [(''abc'', ''https://github.com/o/r'', Some ''abc'', True)]"
  by code_simp


definition later_script :: script where
  "later_script = calm_script\<lparr>sx_gen := (\<lambda>k. Inr (''jd'' @ itoa (int k)))\<rparr>"

lemma later_script_ok: "script_ok later_script"
  by (simp add: script_ok_def calm_script_def later_script_def)

definition demo_later :: "ingest_db \<Rightarrow> SubmitResult sub \<times> ingest_db" where
  "demo_later d = Submit later_script (\<lambda>s. ''f'') demo_sha (github_resolve demo_api demo_provider) (demo_submission [] ''run2'') d"

lemma demo_second: "(case fst (demo_later (snd (demo_submit [] ''run'' no_rows))) of Inr res \<Rightarrow> sr_ID res = ''jd7'' | Inl _ \<Rightarrow> False)"
  by code_simp

theorem Submit_same_series_witness:
  "(case (fst (demo_submit [] ''run'' no_rows), fst (demo_later (snd (demo_submit [] ''run'' no_rows)))) of
     (Inr res, Inr res2) \<Rightarrow> sr_HistoryFingerprint res = sr_HistoryFingerprint res2 | _ \<Rightarrow> False)"
proof -
  obtain d where d: "demo_submit [] ''run'' no_rows = (Inr (demo_result ''run''), d)"
    using demo_plain by (metis prod.collapse)
  obtain res2 e where e: "demo_later d = (Inr res2, e)"
    using demo_second unfolding d snd_conv by (cases "demo_later d") (auto split: sum.splits)
  obtain name tags ctx info rs where v: "validated (demo_submission [] []) = Inr (name, tags, ctx, info, rs)" using demo_validates .
  have v1: "validated (demo_submission [] ''run'') = Inr (name, tags, ctx, info, rs)"
    and v2: "validated (demo_submission [] ''run2'') = Inr (name, tags, ctx, info, rs)" using v demo_valid by metis+
  have "sr_HistoryFingerprint (demo_result ''run'') = sr_HistoryFingerprint res2"
    by (rule Submit_same_series [OF calm_script_ok no_rows_ok _ d [unfolded demo_submit_def] rtranclp.rtrancl_refl
       later_script_ok _ e [unfolded demo_later_def] v1 v2]) (simp_all add: buildHardware_def Let_def)
  then show ?thesis unfolding d snd_conv fst_conv e by simp
qed

theorem Submit_refused_witness:
  "(let req = (demo_submission [] ''run'')\<lparr>rq_MachineInfo := None\<rparr>;
        e = ValidationFailed ''either machine_info or cluster_info field is required'' in
    Submit calm_script (\<lambda>s. ''f'') demo_sha (github_resolve demo_api demo_provider) req no_rows = (Inl e, no_rows) \<and>
    is_validation e \<and> no_rows \<in> {no_rows, sx_env calm_script 0 no_rows} \<and>
    (validated req = Inl e \<or> 255 < length (runes (rq_SubmissionKey req))))"
proof -
  define req where "req = (demo_submission [] ''run'')\<lparr>rq_MachineInfo := None\<rparr>"
  define e where "e = ValidationFailed ''either machine_info or cluster_info field is required''"
  have s: "Submit calm_script (\<lambda>s. ''f'') demo_sha (github_resolve demo_api demo_provider) req no_rows = (Inl e, no_rows)"
    by (simp add: req_def e_def Submit_def replay_check_def ing_bind_def pure_def validated_def validateHardware_def
        sub_bind_def demo_submission_def)
  have v: "is_validation e" by (simp add: e_def)
  show ?thesis unfolding Let_def req_def [symmetric] e_def [symmetric]
    using s v Submit_refused [OF s v] by blast
qed


end
