(* ===== verification/IngestValues.thy ===== *)
theory IngestValues
  imports Ingest
begin

text \<open>
  The values an ingestion computes: what an update makes of the stored annotations, alone and
  beside another update, and how the tags of a request become the name and tags of a case.
\<close>

section \<open>Annotations\<close>

lemma map_of_foldl_set:
  "map_of (foldl (\<lambda>m (k, v). map_set k v m) m gs) = map_of m ++ map_of (rev gs)"
  by (induction gs arbitrary: m) (auto simp: map_of_map_set map_add_def split: option.splits)

lemma map_of_filterNull:
  assumes "distinct (map fst m)"
  shows "map_of (filterNullValues m) k = (case map_of m k of None \<Rightarrow> None | Some v \<Rightarrow> if v = ANil then None else Some v)"
  using assms by (induction m) (auto simp: filterNullValues_def map_of_eq_None_iff split: option.splits)

lemma map_set_distinct: "distinct (map fst m) \<Longrightarrow> distinct (map fst (map_set k v m))"
  by (auto simp: map_set_def distinct_map_filter split_beta intro: distinct_map_filter)

lemma foldl_set_distinct: "distinct (map fst m) \<Longrightarrow> distinct (map fst (foldl (\<lambda>m (k, v). map_set k v m) m gs))"
  by (induction gs arbitrary: m) (auto simp: map_set_distinct)

text \<open>
  An update that nothing interferes with merges: keys given win over stored ones, null
  deletes a key, and nothing else of the tables changes.
\<close>

theorem UpdateChangeAnnotations_merge:
  assumes "find (\<lambda>r. ir_ID r = i) (in_results d) = Some r" "jsonObject (ir_ChangeAnnotations r) = Inr old"
    "distinct (map fst (entries old))" "distinct (map fst (entries given))"
    "UpdateChangeAnnotations (\<lambda>d. d) i given d = (Inr (), d')"
  shows "\<exists>m ca. marshal (AObj m) = Some ca \<and>
    (\<forall>k. map_of m k = (case (map_of (entries old) ++ map_of (entries given)) k of
        None \<Rightarrow> None | Some v \<Rightarrow> if v = ANil then None else Some v)) \<and>
    d' = d\<lparr>in_results := map (\<lambda>x. if ir_ID x = i then x\<lparr>ir_ChangeAnnotations := Some ca\<rparr> else x) (in_results d)\<rparr>"
proof -
  define m where "m = filterNullValues (foldl (\<lambda>m (k, v). map_set k v m) (entries old) (entries given))"
  have "map_of (rev (entries given)) = map_of (entries given)"
    using assms(4) by (simp add: map_of_inject_set flip: rev_map)
  then have "map_of m k = (case (map_of (entries old) ++ map_of (entries given)) k of
        None \<Rightarrow> None | Some v \<Rightarrow> if v = ANil then None else Some v)" for k
    unfolding m_def by (subst map_of_filterNull) (simp_all add: foldl_set_distinct [OF assms(3)] map_of_foldl_set)
  moreover obtain ca where "marshal (AObj m) = Some ca"
    and "d' = d\<lparr>in_results := map (\<lambda>x. if ir_ID x = i then x\<lparr>ir_ChangeAnnotations := Some ca\<rparr> else x) (in_results d)\<rparr>"
    using assms(1,2,5)
    by (auto simp: UpdateChangeAnnotations_def GetBenchmarkResultByID_def UpdateBenchmarkResultChangeAnnotations_def
        update_value_def m_def split: option.splits if_splits)
  ultimately show ?thesis by blast
qed

lemma annotate_twice:
  assumes "UpdateBenchmarkResultChangeAnnotations i a d = (Inr (), d')"
  shows "UpdateBenchmarkResultChangeAnnotations i b d' = UpdateBenchmarkResultChangeAnnotations i b d"
proof -
  let ?f = "\<lambda>a x. if ir_ID x = i then x\<lparr>ir_ChangeAnnotations := Some a\<rparr> else x"
  have i: "i \<in> set (map ir_ID (in_results d))" and d': "d' = d\<lparr>in_results := map (?f a) (in_results d)\<rparr>"
    using assms by (auto simp: UpdateBenchmarkResultChangeAnnotations_def split: if_splits)
  have ids: "map ir_ID (in_results d') = map ir_ID (in_results d)" by (auto simp: d')
  have "map (?f b) (in_results d') = map (?f b) (in_results d)" by (auto simp: d')
  then have "d'\<lparr>in_results := map (?f b) (in_results d')\<rparr> = d\<lparr>in_results := map (?f b) (in_results d)\<rparr>"
    by (simp add: d' del: map_map map_eq_conv)
  with i show ?thesis unfolding UpdateBenchmarkResultChangeAnnotations_def ids by simp
qed

lemma update_annotates:
  "snd (UpdateChangeAnnotations (\<lambda>d. d) i given d) = d \<or>
   (\<exists>ca. UpdateBenchmarkResultChangeAnnotations i ca d = (Inr (), snd (UpdateChangeAnnotations (\<lambda>d. d) i given d)))"
proof (cases "UpdateChangeAnnotations (\<lambda>d. d) i given d")
  case (Pair x d')
  then show ?thesis
    by (auto simp: UpdateChangeAnnotations_def UpdateBenchmarkResultChangeAnnotations_def split: sum.splits option.splits if_splits)
qed

text \<open>
  Two updates of one result: the one that runs between the load and the write of the
  other is lost, keys it alone gave included, although it returned success.
\<close>

theorem UpdateChangeAnnotations_lost_update:
  "UpdateChangeAnnotations (\<lambda>d. snd (UpdateChangeAnnotations (\<lambda>d. d) i theirs d)) i given d =
   UpdateChangeAnnotations (\<lambda>d. d) i given d"
  using update_annotates [of i theirs d] annotate_twice [of i _ d]
  by (auto simp: UpdateChangeAnnotations_def [of _ i given] split: sum.splits option.splits)

section \<open>Tags\<close>

lemma tag_loop_Cons: "tag_loop ((k, v) # fs) = Inr out \<longleftrightarrow> k \<noteq> [] \<and>
    (\<exists>s rest. stringifyTagValue k v = Inr s \<and> tag_loop fs = Inr rest \<and>
       out = (case s of None \<Rightarrow> rest | Some x \<Rightarrow> (k, x) # rest))"
  by (auto split: sum.splits)

definition tag_of :: "string \<times> any \<Rightarrow> (string \<times> string) option" where
  "tag_of p = (case stringifyTagValue (fst p) (snd p) of Inr (Some x) \<Rightarrow> Some (fst p, x) | _ \<Rightarrow> None)"

definition tag_ok :: "string \<times> any \<Rightarrow> bool" where
  "tag_ok p \<longleftrightarrow> fst p \<noteq> [] \<and> (\<exists>s. stringifyTagValue (fst p) (snd p) = Inr s)"

lemma tag_loop_iff: "tag_loop fs = Inr out \<longleftrightarrow> (\<forall>p \<in> set fs. tag_ok p) \<and> out = List.map_filter tag_of fs"
proof (induction fs arbitrary: out)
  case (Cons p fs)
  show ?case
    by (cases p) (auto simp: tag_loop_Cons Cons.IH tag_ok_def tag_of_def map_filter_simps simp del: tag_loop.simps split: option.splits)
qed (auto simp: map_filter_simps)

lemma mset_map_filter: "mset xs = mset ys \<Longrightarrow> mset (List.map_filter f xs) = mset (List.map_filter f ys)"
  by (simp add: List.map_filter_def mset_map mset_filter)

lemma map_filter_keys:
  assumes "distinct (map fst fs)" "\<And>p y. f p = Some y \<Longrightarrow> fst y = fst p"
  shows "distinct (map fst (List.map_filter f fs))"
  using assms(1)
proof (induction fs)
  case (Cons p fs)
  have "fst y \<in> fst ` set fs" if "y \<in> set (List.map_filter f fs)" for y
    using that assms(2) by (force simp: List.map_filter_def)
  with Cons show ?case using assms(2) [of p] by (auto simp: map_filter_simps split: option.splits)
qed (simp add: map_filter_simps)

lemma sort_fields_perm:
  assumes "mset xs = mset ys" "distinct (map fst xs)"
  shows "sort_fields xs = sort_fields ys"
proof -
  have "sorted (map fst (sort_fields zs))" for zs :: "(string \<times> 'a) list"
    unfolding sort_fields_def sorted_map using key_less.sort_sorted [of fst zs] by (simp add: not_less)
  moreover have "distinct (map fst (sort_fields zs))" if "distinct (map fst zs)" for zs :: "(string \<times> 'a) list"
    using that unfolding sort_fields_def distinct_map by simp
  moreover have "distinct (map fst ys)" using assms by (metis mset_map mset_eq_imp_distinct_iff)
  moreover have "set (sort_fields xs) = set (sort_fields ys)" using mset_eq_setD [OF assms(1)] unfolding sort_fields_def by simp
  moreover have "inj_on fst (set (sort_fields xs) \<union> set (sort_fields ys))"
    using assms(2) mset_eq_setD [OF assms(1)] unfolding sort_fields_def distinct_map by simp
  ultimately show ?thesis using assms(2) by (intro map_sorted_distinct_set_unique [of fst]) auto
qed

lemma marshal_tags: "marshal_fields (map (\<lambda>(k, s). (k, AStr s)) ts) = Some (map (\<lambda>(k, s). (utf8 k, JStr (utf8 s))) ts)"
  by (induction ts) auto

text \<open>
  The case of a result does not depend on the order in which Go iterates over the map of
  its tags: a permutation of the entries is split into the same name and the same JSON of
  the remaining tags.
\<close>

theorem splitTags_order:
  assumes "mset fs = mset fs'" "distinct (map fst fs)" "\<And>k. k \<in> fst ` set fs \<Longrightarrow> utf8 k = k"
    and "splitTags (Some fs) = Inr (name, out)"
  shows "\<exists>out'. splitTags (Some fs') = Inr (name, out') \<and>
    marshal (AObj (map (\<lambda>(k, s). (k, AStr s)) out')) = marshal (AObj (map (\<lambda>(k, s). (k, AStr s)) out))"
proof -
  define tags where "tags = List.map_filter tag_of fs"
  define tags' where "tags' = List.map_filter tag_of fs'"
  have key: "tag_of p = Some y \<Longrightarrow> fst y = fst p" for p y by (auto simp: tag_of_def split: sum.splits option.splits)
  have set: "set fs' = set fs" and d': "distinct (map fst fs')"
    using assms(1,2) mset_eq_setD by (metis, metis mset_map mset_eq_imp_distinct_iff)
  have perm: "mset tags = mset tags'" using assms(1) mset_map_filter unfolding tags_def tags'_def by blast
  have dt: "distinct (map fst tags)" "distinct (map fst tags')"
    using map_filter_keys [OF assms(2) key] map_filter_keys [OF d' key] by (simp_all add: tags_def tags'_def)
  have same: "map_of tags' k = map_of tags k" for k
    using map_of_inject_set [OF dt] mset_eq_setD [OF perm] by simp
  from assms(4) have split: "map_of fs ''name'' \<noteq> None" "tag_loop fs = Inr tags" "map_of tags ''name'' = Some name"
      "out = filter (\<lambda>(k, _). k \<noteq> ''name'') tags"
    by (auto simp: splitTags_def tag_loop_iff tags_def split: if_splits sum.splits option.splits)
  then have l': "tag_loop fs' = Inr tags'" using set by (simp add: tag_loop_iff tags'_def)
  define out' where "out' = filter (\<lambda>(k, _). k \<noteq> ''name'') tags'"
  have "map_of fs' ''name'' \<noteq> None" using split(1) set by (auto simp: map_of_eq_None_iff)
  with split same l' have s': "splitTags (Some fs') = Inr (name, out')" by (auto simp: splitTags_def out'_def)
  have "utf8 k = k" if "k \<in> fst ` set out" for k
    using that assms(3) key by (force simp: split(4) tags_def List.map_filter_def)
  then have keys: "map fst (map (\<lambda>(k, s). (utf8 k, JStr (utf8 s))) out) = map fst out" by (force simp: case_prod_beta)
  have "distinct (map fst out)" using dt(1) by (simp add: split(4) distinct_map_filter)
  moreover have "mset (map (\<lambda>(k, s). (utf8 k, JStr (utf8 s))) out) = mset (map (\<lambda>(k, s). (utf8 k, JStr (utf8 s))) out')"
    using perm by (simp add: split(4) out'_def)
  ultimately have "sort_fields (map (\<lambda>(k, s). (utf8 k, JStr (utf8 s))) out) = sort_fields (map (\<lambda>(k, s). (utf8 k, JStr (utf8 s))) out')"
    using keys sort_fields_perm by metis
  with s' show ?thesis by (simp add: marshal_tags)
qed

theorem splitTags_order_witness:
  "\<exists>out. splitTags (Some [(''n'', ANum (Fin 2)), (''name'', AStr ''b'')]) = Inr (''b'', out)"
proof -
  let ?fs = "[(''name'', AStr ''b''), (''n'', ANum (Fin 2))]" and ?fs' = "[(''n'', ANum (Fin 2)), (''name'', AStr ''b'')]"
  have split: "splitTags (Some ?fs) = Inr (''b'', [(''n'', ''2'')])" by code_simp
  have u: "utf8 ''name'' = ''name''" "utf8 ''n'' = ''n''" by code_simp+
  have "mset ?fs = mset ?fs'" "distinct (map fst ?fs)" by simp_all
  moreover have "utf8 k = k" if "k \<in> fst ` set ?fs" for k using that u by auto
  ultimately show ?thesis using splitTags_order [OF _ _ _ split] by blast
qed

lemma shortest_exponent: "shortest_from 1 16 (2469135 / 2) = (12345675, -1)"
  by code_simp

lemma formatNumber_exponent: "formatNumber (Fin (2469135 / 2)) = ''1.2345675e+06''"
proof -
  have "dec_digits 12345675 = ''12345675''" by (simp add: dec_digits.simps char_of_def bit_0)
  then have "shortest_digits (2469135 / 2) = (''12345675'', 7)"
    unfolding shortest_digits_def shortest_exponent by (simp add: trim_right_def)
  moreover have "exp_part 6 = ''e+06''" by code_simp
  moreover have "\<lfloor>2469135 / 2 :: rat\<rfloor> = 1234567" by (simp add: floor_eq_iff)
  ultimately show ?thesis by (simp add: formatNumber_def format_float_def fmt_pos_def)
qed

end
