(* ===== verification/Listing.thy ===== *)
theory Listing
  imports ResultTable CIReport
begin

text \<open>
  The lists the dashboard is made of: one result in detail (\<^verbatim>\<open>internal/service/read.go\<close>), the
  paged list of results (\<^verbatim>\<open>list.go\<close>) and the most recent runs with their attention marks
  (\<^verbatim>\<open>runs.go\<close>), with the queries of \<^verbatim>\<open>internal/db/benchmark_result.sql.go\<close> they read.
  Text is ordered by the collation \<open>coll\<close>.
\<close>

fun svc_map :: "('a \<Rightarrow> 'b svc) \<Rightarrow> 'a list \<Rightarrow> 'b list svc" where
  "svc_map f [] = Inr []"
| "svc_map f (x # xs) = svc_bind (f x) (\<lambda>y. svc_bind (svc_map f xs) (\<lambda>ys. Inr (y # ys)))"

text \<open>\<open>LEFT JOIN commit c\<close>.\<close>

definition left_commit :: "ingest_db \<Rightarrow> string ptr \<Rightarrow> commit_row ptr" where
  "left_commit d i = (case i of None \<Rightarrow> None | Some k \<Rightarrow> by_id c_id k (in_commits d))"

section \<open>One result\<close>

record ResultDetailRow =
  rd_result :: BenchmarkResult
  rd_CaseName :: string
  rd_CaseTags :: json
  rd_ContextTags :: json
  rd_InfoTags :: json
  rd_hardware :: hardware_row
  rd_commit :: "commit_row ptr"

text \<open>The row is the joined rows; a result whose references dangle is not found.\<close>

definition GetBenchmarkResultDetail :: "ingest_db \<Rightarrow> string \<Rightarrow> ResultDetailRow result" where
  "GetBenchmarkResultDetail d i =
     (case GetBenchmarkResultByID i d of Inl e \<Rightarrow> Inl e
      | Inr r \<Rightarrow>
         (case (by_id case_id (ir_CaseID r) (in_cases d), by_id tags_id (ir_ContextID r) (in_contexts d),
                by_id tags_id (ir_InfoID r) (in_infos d), by_id hw_ID (ir_HardwareID r) (in_hardware d)) of
            (Some cs, Some ctx, Some info, Some hw) \<Rightarrow>
              Inr \<lparr>rd_result = r, rd_CaseName = case_name cs, rd_CaseTags = case_tags cs,
                   rd_ContextTags = tags_value ctx, rd_InfoTags = tags_value info, rd_hardware = hw,
                   rd_commit = left_commit d (ir_CommitID r)\<rparr>
          | _ \<Rightarrow> Inl ErrNotFound))"

record ResultDetail =
  de_ID :: string
  de_RunID :: string
  de_RunTags :: "any_map ptr"
  de_RunReason :: "string ptr"
  de_BatchID :: "string ptr"
  de_Timestamp :: time
  de_CommitRepoURL :: string
  de_HistoryFingerprint :: string
  de_Tags :: any_map
  de_Context :: "any_map ptr"
  de_Info :: "any_map ptr"
  de_Hardware :: Hardware
  de_Commit :: "ReadCommit ptr"
  de_Unit :: "string ptr"
  de_LessIsBetter :: "bool ptr"
  de_TimeUnit :: "string ptr"
  de_Iterations :: "int ptr"
  de_Data :: "f64 ptr list ptr"
  de_Times :: "f64 ptr list ptr"
  de_Stats :: aggCols
  de_Error :: "any_map ptr"
  de_OptionalBenchmarkInfo :: "any_map ptr"
  de_Validation :: "any_map ptr"
  de_ChangeAnnotations :: any_map
  de_SVS :: "f64 ptr"
  de_SVSType :: string

definition commitFromRow :: "ResultDetailRow \<Rightarrow> ReadCommit ptr" where
  "commitFromRow row = map_option (\<lambda>c. \<lparr>cm_ID = c_id c, cm_Sha = c_sha c, cm_Repository = c_repository c,
     cm_Message = c_message c, cm_Timestamp = c_timestamp c\<rparr>) (rd_commit row)"

definition float_slice :: "f64 ptr list ptr \<Rightarrow> f64 ptr list" where
  "float_slice xs = (case xs of None \<Rightarrow> [] | Some ys \<Rightarrow> ys)"

definition Reader_ResultDetail :: "(string \<Rightarrow> ResultDetailRow result) \<Rightarrow> string \<Rightarrow> ResultDetail svc" where
  "Reader_ResultDetail get i = (case get i of
     Inl e \<Rightarrow> Inl (if e = ErrNotFound then SvcNotFound else SvcStore ''load result detail'' e)
   | Inr row \<Rightarrow> (let r = rd_result row; h = rd_hardware row in
       svc_bind (of_json (jsonObject (Some (rd_CaseTags row)))) (\<lambda>tags.
       svc_bind (of_json (jsonObject (Some (rd_ContextTags row)))) (\<lambda>contextTags.
       svc_bind (of_json (jsonObject (Some (rd_InfoTags row)))) (\<lambda>infoTags.
       svc_bind (of_json (jsonObject (Some (ir_RunTags r)))) (\<lambda>runTags.
       svc_bind (of_json (jsonObject (ir_Error r))) (\<lambda>errObj.
       svc_bind (of_json (jsonObject (ir_OptionalBenchmarkInfo r))) (\<lambda>obi.
       svc_bind (of_json (jsonObject (ir_Validation r))) (\<lambda>validation.
       svc_bind (of_json (jsonObject (ir_ChangeAnnotations r))) (\<lambda>ca.
       svc_bind (of_svs (resultSVS (ir_Unit r) (nonNullFloats (float_slice (ir_Data r))) (ir_Error r \<noteq> None))) (\<lambda>(svs, svsType).
       Inr \<lparr>de_ID = ir_ID r, de_RunID = ir_RunID r, de_RunTags = runTags, de_RunReason = ir_RunReason r,
            de_BatchID = ir_BatchID r, de_Timestamp = ir_Timestamp r, de_CommitRepoURL = ir_CommitRepoUrl r,
            de_HistoryFingerprint = ir_HistoryFingerprint r,
            de_Tags = map_set ''name'' (AStr (rd_CaseName row)) (or_empty tags),
            de_Context = contextTags, de_Info = infoTags,
            de_Hardware = \<lparr>hd_ID = hw_ID h, hd_Type = hw_Type h, hd_Name = hw_Name h, hd_Hash = hw_Hash h\<rparr>,
            de_Commit = commitFromRow row, de_Unit = ir_Unit r, de_LessIsBetter = lessIsBetterPtr (ir_Unit r),
            de_TimeUnit = ir_TimeUnit r, de_Iterations = ir_Iterations r, de_Data = ir_Data r, de_Times = ir_Times r,
            de_Stats = ir_Aggs r, de_Error = errObj, de_OptionalBenchmarkInfo = obi, de_Validation = validation,
            de_ChangeAnnotations = or_empty ca, de_SVS = svs, de_SVSType = svsType\<rparr>)))))))))))"

section \<open>The list of results\<close>

record ListResultsParams =
  lp_RunID :: "string ptr"
  lp_BatchID :: "string ptr"
  lp_RunReason :: "string ptr"
  lp_Earliest :: "time ptr"
  lp_Latest :: "time ptr"
  lp_Cursor :: "string ptr"
  lp_PageSize :: int

record ResultListRow =
  lr_ID :: string
  lr_RunID :: string
  lr_RunReason :: "string ptr"
  lr_RunTags :: json
  lr_BatchID :: "string ptr"
  lr_Timestamp :: time
  lr_Unit :: "string ptr"
  lr_Data :: "f64 ptr list"
  lr_Error :: "json ptr"
  lr_HistoryFingerprint :: string
  lr_CaseName :: string
  lr_CaseTags :: json
  lr_Commit :: "commit_row ptr"

text \<open>The filters of the query but the cursor; a comparison with NULL is not true.\<close>

definition list_filter :: "ListResultsParams \<Rightarrow> BenchmarkResult \<Rightarrow> bool" where
  "list_filter p r \<longleftrightarrow>
     (case lp_RunID p of None \<Rightarrow> True | Some x \<Rightarrow> ir_RunID r = x) \<and>
     (case lp_BatchID p of None \<Rightarrow> True | Some x \<Rightarrow> ir_BatchID r = Some x) \<and>
     (case lp_RunReason p of None \<Rightarrow> True | Some x \<Rightarrow> ir_RunReason r = Some x) \<and>
     (case lp_Earliest p of None \<Rightarrow> True | Some t \<Rightarrow> t \<le> ir_Timestamp r) \<and>
     (case lp_Latest p of None \<Rightarrow> True | Some t \<Rightarrow> ir_Timestamp r \<le> t)"

definition after_cursor :: "(string \<Rightarrow> string \<Rightarrow> bool) \<Rightarrow> ListResultsParams \<Rightarrow> BenchmarkResult \<Rightarrow> bool" where
  "after_cursor coll p r \<longleftrightarrow> (case lp_Cursor p of None \<Rightarrow> True | Some c \<Rightarrow> coll (ir_ID r) c)"

definition list_row :: "ingest_db \<Rightarrow> BenchmarkResult \<Rightarrow> ResultListRow option" where
  "list_row d r = map_option (\<lambda>cs.
     \<lparr>lr_ID = ir_ID r, lr_RunID = ir_RunID r, lr_RunReason = ir_RunReason r, lr_RunTags = ir_RunTags r,
      lr_BatchID = ir_BatchID r, lr_Timestamp = ir_Timestamp r, lr_Unit = ir_Unit r,
      lr_Data = float_slice (ir_Data r), lr_Error = ir_Error r, lr_HistoryFingerprint = ir_HistoryFingerprint r,
      lr_CaseName = case_name cs, lr_CaseTags = case_tags cs, lr_Commit = left_commit d (ir_CommitID r)\<rparr>)
     (by_id case_id (ir_CaseID r) (in_cases d))"

definition SelectBenchmarkResults ::
  "(string \<Rightarrow> string \<Rightarrow> bool) \<Rightarrow> ingest_db \<Rightarrow> ListResultsParams \<Rightarrow> ResultListRow list" where
  "SelectBenchmarkResults coll d p =
     take (nat (lp_PageSize p)) (stable_sort (\<lambda>a b. coll (lr_ID b) (lr_ID a))
       (List.map_filter (list_row d) (filter (\<lambda>r. list_filter p r \<and> after_cursor coll p r) (in_results d))))"

definition listPageSizeDefault :: int where "listPageSizeDefault = 100"
definition listPageSizeMax :: int where "listPageSizeMax = 1000"

record ListQuery =
  lq_RunID :: string
  lq_BatchID :: string
  lq_RunReason :: string
  lq_Earliest :: "time ptr"
  lq_Latest :: "time ptr"
  lq_Cursor :: string
  lq_PageSize :: int

record ListCommit =
  lc_Hash :: string
  lc_Repository :: string
  lc_Message :: string
  lc_AuthorName :: string
  lc_AuthorLogin :: "string ptr"
  lc_AuthorAvatar :: "string ptr"
  lc_Timestamp :: "time ptr"

record ResultListItem =
  li_ID :: string
  li_RunID :: string
  li_RunReason :: "string ptr"
  li_RunTags :: "any_map ptr"
  li_BatchID :: "string ptr"
  li_Timestamp :: time
  li_Unit :: "string ptr"
  li_SVS :: "f64 ptr"
  li_SVSType :: string
  li_HistoryFingerprint :: string
  li_CaseName :: string
  li_CaseTags :: "any_map ptr"
  li_Commit :: "ListCommit ptr"
  li_HasError :: bool

record ResultPage =
  pg_Results :: "ResultListItem list"
  pg_NextPageCursor :: "string ptr"

definition listCommit :: "commit_row ptr \<Rightarrow> ListCommit ptr" where
  "listCommit c = map_option (\<lambda>c. \<lparr>lc_Hash = c_sha c, lc_Repository = c_repository c, lc_Message = c_message c,
     lc_AuthorName = c_author_name c, lc_AuthorLogin = c_author_login c, lc_AuthorAvatar = c_author_avatar c,
     lc_Timestamp = c_timestamp c\<rparr>) c"

definition clamp_page :: "int \<Rightarrow> int \<Rightarrow> int \<Rightarrow> int" where
  "clamp_page dflt most n = (let m = (if n \<le> 0 then dflt else n) in if m > most then most else m)"

definition list_params :: "ListQuery \<Rightarrow> ListResultsParams" where
  "list_params q = (let f = (\<lambda>s. if s = [] then None else Some s) in
     \<lparr>lp_RunID = f (lq_RunID q), lp_BatchID = f (lq_BatchID q), lp_RunReason = f (lq_RunReason q),
      lp_Earliest = lq_Earliest q, lp_Latest = lq_Latest q,
      lp_Cursor = (if lq_Cursor q \<noteq> [] \<and> lq_Cursor q \<noteq> ''null'' then Some (lq_Cursor q) else None),
      lp_PageSize = clamp_page listPageSizeDefault listPageSizeMax (lq_PageSize q)\<rparr>)"

definition list_item :: "ResultListRow \<Rightarrow> ResultListItem svc" where
  "list_item row =
     svc_bind (of_svs (resultSVS (lr_Unit row) (nonNullFloats (lr_Data row)) (lr_Error row \<noteq> None))) (\<lambda>(svs, svsType).
     svc_bind (of_json (jsonObject (Some (lr_RunTags row)))) (\<lambda>runTags.
     svc_bind (of_json (jsonObject (Some (lr_CaseTags row)))) (\<lambda>caseTags.
     Inr \<lparr>li_ID = lr_ID row, li_RunID = lr_RunID row, li_RunReason = lr_RunReason row, li_RunTags = runTags,
          li_BatchID = lr_BatchID row, li_Timestamp = lr_Timestamp row, li_Unit = lr_Unit row, li_SVS = svs,
          li_SVSType = svsType, li_HistoryFingerprint = lr_HistoryFingerprint row, li_CaseName = lr_CaseName row,
          li_CaseTags = caseTags, li_Commit = listCommit (lr_Commit row), li_HasError = (lr_Error row \<noteq> None)\<rparr>)))"

definition ListResults :: "(ListResultsParams \<Rightarrow> ResultListRow list result) \<Rightarrow> ListQuery \<Rightarrow> ResultPage svc" where
  "ListResults select q =
     svc_bind (of_store ''list results'' (select (list_params q))) (\<lambda>rows.
     svc_bind (svc_map list_item rows) (\<lambda>items.
       Inr \<lparr>pg_Results = items,
            pg_NextPageCursor = (if int (length items) = lp_PageSize (list_params q) then Some (li_ID (last items)) else None)\<rparr>))"

text \<open>
  A client that follows the cursors: the \<open>k\<close>-th page is read from the \<open>k\<close>-th of the given
  database states; the flag tells whether the last page had no cursor.
\<close>

fun pages :: "(string \<Rightarrow> string \<Rightarrow> bool) \<Rightarrow> ListQuery \<Rightarrow> ingest_db list \<Rightarrow> (ResultListItem list \<times> bool) svc" where
  "pages coll q [] = Inr ([], False)"
| "pages coll q (d # ds) =
     svc_bind (ListResults (\<lambda>p. Inr (SelectBenchmarkResults coll d p)) q) (\<lambda>page.
       case pg_NextPageCursor page of
         None \<Rightarrow> Inr (pg_Results page, True)
       | Some c \<Rightarrow> svc_bind (pages coll (q\<lparr>lq_Cursor := c\<rparr>) ds) (\<lambda>(items, done). Inr (pg_Results page @ items, done)))"

section \<open>Recent runs\<close>

record RecentRunsParams =
  np_CandidateResultCount :: int
  np_PageSize :: int
  np_Repository :: "string ptr"

record RecentRunRow =
  nr_RunID :: string
  nr_FirstResultAt :: time
  nr_LastResultAt :: time
  nr_ResultCount :: nat
  nr_ErrorCount :: nat
  nr_SeriesCount :: nat
  nr_BatchCount :: nat
  nr_LatestResultID :: string
  nr_RunReason :: "string ptr"
  nr_RunTags :: json
  nr_LatestBatchID :: "string ptr"
  nr_Repository :: string
  nr_Commit :: "commit_row ptr"

text \<open>\<open>ORDER BY timestamp DESC, key DESC\<close>.\<close>

definition latest_first ::
  "(string \<Rightarrow> string \<Rightarrow> bool) \<Rightarrow> ('a \<Rightarrow> time) \<Rightarrow> ('a \<Rightarrow> string) \<Rightarrow> 'a \<Rightarrow> 'a \<Rightarrow> bool" where
  "latest_first coll t k a b \<longleftrightarrow> t b < t a \<or> t a = t b \<and> coll (k b) (k a)"

definition in_repository :: "string ptr \<Rightarrow> BenchmarkResult \<Rightarrow> bool" where
  "in_repository repo r \<longleftrightarrow> (case repo of None \<Rightarrow> True | Some x \<Rightarrow> ir_CommitRepoUrl r = x)"

text \<open>The three common table expressions of the query.\<close>

definition candidate_rows :: "(string \<Rightarrow> string \<Rightarrow> bool) \<Rightarrow> ingest_db \<Rightarrow> RecentRunsParams \<Rightarrow> BenchmarkResult list" where
  "candidate_rows coll d p =
     take (nat (np_CandidateResultCount p)) (stable_sort (latest_first coll ir_Timestamp ir_ID) (in_results d))"

definition max_time :: "BenchmarkResult list \<Rightarrow> time" where
  "max_time rs = linorder_class.Max (ir_Timestamp ` set rs)"

definition min_time :: "BenchmarkResult list \<Rightarrow> time" where
  "min_time rs = linorder_class.Min (ir_Timestamp ` set rs)"

definition selected_runs :: "(string \<Rightarrow> string \<Rightarrow> bool) \<Rightarrow> ingest_db \<Rightarrow> RecentRunsParams \<Rightarrow> (string \<times> time) list" where
  "selected_runs coll d p =
     (let cs = filter (in_repository (np_Repository p)) (candidate_rows coll d p) in
      take (nat (np_PageSize p)) (stable_sort (latest_first coll snd fst)
        (map (\<lambda>run. (run, max_time (filter (\<lambda>r. ir_RunID r = run) cs))) (remdups (map ir_RunID cs)))))"

definition run_results :: "ingest_db \<Rightarrow> string ptr \<Rightarrow> string \<Rightarrow> BenchmarkResult list" where
  "run_results d repo run = filter (\<lambda>r. ir_RunID r = run \<and> in_repository repo r) (in_results d)"

definition recent_row :: "(string \<Rightarrow> string \<Rightarrow> bool) \<Rightarrow> ingest_db \<Rightarrow> string ptr \<Rightarrow> string \<Rightarrow> RecentRunRow" where
  "recent_row coll d repo run =
     (let rs = run_results d repo run; latest = hd (stable_sort (latest_first coll ir_Timestamp ir_ID) rs) in
      \<lparr>nr_RunID = run, nr_FirstResultAt = min_time rs, nr_LastResultAt = max_time rs, nr_ResultCount = length rs,
       nr_ErrorCount = length (filter (\<lambda>r. ir_Error r \<noteq> None) rs),
       nr_SeriesCount = length (remdups (map ir_HistoryFingerprint rs)),
       nr_BatchCount = length (remdups (filter (\<lambda>b. b \<noteq> None) (map ir_BatchID rs))),
       nr_LatestResultID = ir_ID latest, nr_RunReason = ir_RunReason latest, nr_RunTags = ir_RunTags latest,
       nr_LatestBatchID = ir_BatchID latest, nr_Repository = ir_CommitRepoUrl latest,
       nr_Commit = left_commit d (ir_CommitID latest)\<rparr>)"

definition SelectRecentRuns :: "(string \<Rightarrow> string \<Rightarrow> bool) \<Rightarrow> ingest_db \<Rightarrow> RecentRunsParams \<Rightarrow> RecentRunRow list" where
  "SelectRecentRuns coll d p =
     stable_sort (latest_first coll nr_LastResultAt nr_RunID)
       (map (\<lambda>(run, _). recent_row coll d (np_Repository p) run) (selected_runs coll d p))"

text \<open>The newest commit first, repositories of commits without a time last.\<close>

definition newest_commit :: "ingest_db \<Rightarrow> string \<Rightarrow> time ptr" where
  "newest_commit d repo = (case List.map_filter c_timestamp (filter (\<lambda>c. c_repository c = repo) (in_commits d)) of
     [] \<Rightarrow> None | ts \<Rightarrow> Some (linorder_class.Max (set ts)))"

definition SelectRecentRunRepositories :: "(string \<Rightarrow> string \<Rightarrow> bool) \<Rightarrow> ingest_db \<Rightarrow> string list" where
  "SelectRecentRunRepositories coll d =
     stable_sort (\<lambda>a b. case (newest_commit d a, newest_commit d b) of
         (Some t, Some u) \<Rightarrow> u < t \<or> t = u \<and> coll a b
       | (Some _, None) \<Rightarrow> True | (None, Some _) \<Rightarrow> False | (None, None) \<Rightarrow> coll a b)
       (remdups (filter (\<lambda>r. r \<noteq> []) (map c_repository (in_commits d))))"

definition recentRunsPageSizeDefault :: int where "recentRunsPageSizeDefault = 25"
definition recentRunsPageSizeMax :: int where "recentRunsPageSizeMax = 100"
definition recentRunsCandidateMin :: int where "recentRunsCandidateMin = 50000"
definition recentRunsCandidateMax :: int where "recentRunsCandidateMax = 250000"
definition recentRunsCandidateFactor :: int where "recentRunsCandidateFactor = 5000"
definition recentRunsAttentionLimit :: nat where "recentRunsAttentionLimit = 5"

record RecentRunsQuery =
  nq_PageSize :: int
  nq_IncludeAttention :: bool
  nq_Repository :: "string ptr"

record RecentRunAttentionSummary =
  as_Compared :: nat
  as_Regressions :: nat
  as_BenchmarkErrors :: nat
  as_MissingBaseline :: nat
  as_NotComparable :: nat

record RecentRunAttention =
  at_Status :: CIReportStatus
  at_StatusReason :: string
  at_ReportURL :: string
  at_Summary :: RecentRunAttentionSummary

record RecentRunListItem =
  it_RunID :: string
  it_RunReason :: "string ptr"
  it_RunTags :: "any_map ptr"
  it_BatchCount :: nat
  it_LatestBatchID :: "string ptr"
  it_ResultCount :: nat
  it_ErrorCount :: nat
  it_SeriesCount :: nat
  it_LatestResult :: string
  it_Repository :: string
  it_CommitSHA :: "string ptr"
  it_FirstResultAt :: time
  it_LastResultAt :: time
  it_Commit :: "ListCommit ptr"
  it_Attention :: "RecentRunAttention ptr"

record RecentRunsPage =
  np_Runs :: "RecentRunListItem list"
  np_Repositories :: "string list"

definition recentRunsCandidateCount :: "int \<Rightarrow> string ptr \<Rightarrow> int" where
  "recentRunsCandidateCount pageSize repository =
     (if repository \<noteq> None then recentRunsCandidateMax
      else let limit = pageSize * recentRunsCandidateFactor in
        if limit < recentRunsCandidateMin then recentRunsCandidateMin
        else if limit > recentRunsCandidateMax then recentRunsCandidateMax else limit)"

definition recentRunListItem :: "RecentRunRow \<Rightarrow> RecentRunListItem svc" where
  "recentRunListItem row =
     svc_bind (of_json (jsonObject (Some (nr_RunTags row)))) (\<lambda>runTags.
     Inr \<lparr>it_RunID = nr_RunID row, it_RunReason = nr_RunReason row, it_RunTags = runTags,
          it_BatchCount = nr_BatchCount row, it_LatestBatchID = nr_LatestBatchID row,
          it_ResultCount = nr_ResultCount row, it_ErrorCount = nr_ErrorCount row, it_SeriesCount = nr_SeriesCount row,
          it_LatestResult = nr_LatestResultID row, it_Repository = nr_Repository row,
          it_CommitSHA = map_option c_sha (nr_Commit row), it_FirstResultAt = nr_FirstResultAt row,
          it_LastResultAt = nr_LastResultAt row, it_Commit = listCommit (nr_Commit row), it_Attention = None\<rparr>)"

definition ciReportIsDefaultBranchOnly :: "CIReport \<Rightarrow> bool" where
  "ciReportIsDefaultBranchOnly report \<longleftrightarrow> rp_Status report = StatusActionRequired \<and> rp_Runs report \<noteq> [] \<and>
     list_all (\<lambda>run. case rn_BaselineError run of None \<Rightarrow> False | Some e \<Rightarrow> be_Code e = DefaultBranchRun) (rp_Runs report)"

definition recentRunAttentionFromReport :: "CIReport \<Rightarrow> RecentRunAttention ptr" where
  "recentRunAttentionFromReport report =
     (if rp_Status report = StatusSuccess \<or> rp_Status report = StatusSkipped then None
      else if ciReportIsDefaultBranchOnly report then None
      else let s = rp_Summary report in
        Some \<lparr>at_Status = rp_Status report, at_StatusReason = rp_StatusReason report, at_ReportURL = rp_ReportURL report,
          at_Summary = \<lparr>as_Compared = su_Compared s, as_Regressions = su_Regressions s,
            as_BenchmarkErrors = su_BenchmarkErrors s, as_MissingBaseline = su_MissingBaseline s,
            as_NotComparable = su_NotComparable s\<rparr>\<rparr>)"

definition attention_query :: "RecentRunListItem \<Rightarrow> CIReportQuery" where
  "attention_query item =
     (let known = it_Repository item \<noteq> [] \<and> it_CommitSHA item \<noteq> None \<and> it_CommitSHA item \<noteq> Some [] in
      \<lparr>q_Repository = (if known then it_Repository item else []),
       q_CommitSHA = (if known then the (it_CommitSHA item) else []), q_RunIDs = [it_RunID item],
       q_BaselineRunIDs = [], q_Baseline = CIReportBaselineForkPoint, q_Threshold = Fin 0, q_ThresholdZ = Fin 0,
       q_PublicBaseURL = []\<rparr>)"

text \<open>The reporter has no public URL. A panic of the report is not recovered.\<close>

definition recentRunAttention :: "mathlib \<Rightarrow> storage \<Rightarrow> RecentRunListItem \<Rightarrow> RecentRunAttention ptr svc" where
  "recentRunAttention ml st item =
     (let q = attention_query item in
      case Report ml st [] q of
        Inr report \<Rightarrow> Inr (recentRunAttentionFromReport report)
      | Inl e \<Rightarrow>
          (if e = Panicked then Inl Panicked else if e = SvcNotFound then Inr None
           else Inr (Some \<lparr>at_Status = StatusActionRequired, at_StatusReason = ''CI report could not be evaluated'',
             at_ReportURL = ciReportURL [] q (it_Repository item) (it_CommitSHA item) CIReportBaselineForkPoint (Fin 0) (Fin 0),
             at_Summary = \<lparr>as_Compared = 0, as_Regressions = 0, as_BenchmarkErrors = 0, as_MissingBaseline = 0,
               as_NotComparable = 0\<rparr>\<rparr>)))"

fun attach_attention :: "nat \<Rightarrow> (RecentRunListItem \<Rightarrow> RecentRunAttention ptr svc) \<Rightarrow> RecentRunListItem list \<Rightarrow> RecentRunListItem list svc" where
  "attach_attention (Suc n) f (item # items) =
     svc_bind (f item) (\<lambda>a. svc_bind (attach_attention n f items) (\<lambda>rest. Inr (item\<lparr>it_Attention := a\<rparr> # rest)))"
| "attach_attention _ f items = Inr items"

definition attachRecentRunAttention :: "mathlib \<Rightarrow> storage \<Rightarrow> RecentRunListItem list \<Rightarrow> RecentRunListItem list svc" where
  "attachRecentRunAttention ml st items = attach_attention recentRunsAttentionLimit (recentRunAttention ml st) items"

text \<open>The two queries are arguments, so that each may fail.\<close>

definition ListRecentRuns ::
  "mathlib \<Rightarrow> storage \<Rightarrow> (RecentRunsParams \<Rightarrow> RecentRunRow list result) \<Rightarrow> string list result \<Rightarrow> RecentRunsQuery \<Rightarrow> RecentRunsPage svc" where
  "ListRecentRuns ml st select repositories q =
     (let pageSize = clamp_page recentRunsPageSizeDefault recentRunsPageSizeMax (nq_PageSize q) in
      svc_bind (of_store ''list recent runs'' (select \<lparr>np_CandidateResultCount = recentRunsCandidateCount pageSize (nq_Repository q),
         np_PageSize = pageSize, np_Repository = nq_Repository q\<rparr>)) (\<lambda>rows.
      svc_bind (of_store ''list recent run repositories'' repositories) (\<lambda>repos.
      svc_bind (svc_map recentRunListItem rows) (\<lambda>items.
      svc_bind (if nq_IncludeAttention q then attachRecentRunAttention ml st items else Inr items) (\<lambda>items.
        Inr \<lparr>np_Runs = items, np_Repositories = repos\<rparr>)))))"

end
