(* ===== verification/SeriesList.thy ===== *)
theory SeriesList
  imports Listing
begin

text \<open>
  The list of series: \<^verbatim>\<open>internal/service/series.go\<close> and the queries of
  \<^verbatim>\<open>internal/db/series.sql.go\<close> over the tables of the ingestion. Case-insensitive matching
  (\<^verbatim>\<open>ILIKE\<close>) and the text of a \<^verbatim>\<open>jsonb\<close> value belong to the database and are the
  record \<open>pg_text\<close>; text is ordered by \<open>coll\<close>.
\<close>

section \<open>Queries\<close>

record pg_text =
  pg_ILIKE :: "string \<Rightarrow> string \<Rightarrow> bool"
  pg_jsonb_text :: "json \<Rightarrow> string"

record SeriesPageRow =
  sw_HistoryFingerprint :: string
  sw_LatestResultID :: string
  sw_LatestResultTimestamp :: time
  sw_LatestCommitSha :: string
  sw_LatestCommitTimestamp :: time
  sw_CommitRepoUrl :: string
  sw_LatestUnit :: "string ptr"
  sw_LatestData :: "f64 ptr list"
  sw_PointCount :: nat
  sw_CaseName :: string
  sw_CaseTags :: json
  sw_ContextTags :: json
  sw_HardwareID :: string
  sw_HardwareName :: string
  sw_HardwareType :: string
  sw_HardwareHash :: string

text \<open>A result without error on a dated commit of the default branch, with that commit.\<close>

type_synonym member = "BenchmarkResult \<times> commit_row"

definition default_commit :: "commit_row \<Rightarrow> bool" where
  "default_commit c \<longleftrightarrow> c_fork_point_sha c = Some (c_sha c) \<and> c_timestamp c \<noteq> None"

definition commit_ts :: "commit_row \<Rightarrow> time" where "commit_ts c = the (c_timestamp c)"

definition member_row :: "ingest_db \<Rightarrow> BenchmarkResult \<Rightarrow> member option" where
  "member_row d r = (case left_commit d (ir_CommitID r) of
     None \<Rightarrow> None | Some c \<Rightarrow> (if ir_Error r = None \<and> default_commit c then Some (r, c) else None))"

definition all_members :: "ingest_db \<Rightarrow> member list" where
  "all_members d = List.map_filter (member_row d) (in_results d)"

abbreviation m_fp :: "member \<Rightarrow> string" where "m_fp m \<equiv> ir_HistoryFingerprint (fst m)"
abbreviation m_ts :: "member \<Rightarrow> time" where "m_ts m \<equiv> commit_ts (snd m)"
abbreviation m_id :: "member \<Rightarrow> string" where "m_id m \<equiv> ir_ID (fst m)"

text \<open>The optional conditions of the queries.\<close>

definition active_between :: "time ptr \<Rightarrow> time ptr \<Rightarrow> time \<Rightarrow> bool" where
  "active_between since until t \<longleftrightarrow> (case since of None \<Rightarrow> True | Some s \<Rightarrow> s \<le> t) \<and> (case until of None \<Rightarrow> True | Some u \<Rightarrow> t \<le> u)"

definition on_hardware :: "ingest_db \<Rightarrow> string ptr \<Rightarrow> BenchmarkResult \<Rightarrow> bool" where
  "on_hardware d hardware r \<longleftrightarrow> (case hardware of None \<Rightarrow> True
     | Some n \<Rightarrow> (case by_id hw_ID (ir_HardwareID r) (in_hardware d) of None \<Rightarrow> False | Some h \<Rightarrow> hw_Name h = n))"

text \<open>\<open>(t, fp) < (cursor_ts, cursor_fp)\<close> and \<open>\<ge>\<close>; a NULL in the second place is only reached on equal times.\<close>

definition row_below :: "(string \<Rightarrow> string \<Rightarrow> bool) \<Rightarrow> time \<times> string \<Rightarrow> time \<Rightarrow> string ptr \<Rightarrow> bool" where
  "row_below coll k t fp \<longleftrightarrow> fst k < t \<or> fst k = t \<and> (case fp of None \<Rightarrow> False | Some f \<Rightarrow> coll (snd k) f)"

definition row_from :: "(string \<Rightarrow> string \<Rightarrow> bool) \<Rightarrow> time \<times> string \<Rightarrow> time \<Rightarrow> string ptr \<Rightarrow> bool" where
  "row_from coll k t fp \<longleftrightarrow> t < fst k \<or> fst k = t \<and> (case fp of None \<Rightarrow> False | Some f \<Rightarrow> \<not> coll (snd k) f)"

definition below_cursor :: "(string \<Rightarrow> string \<Rightarrow> bool) \<Rightarrow> SeriesListParams \<Rightarrow> time \<times> string \<Rightarrow> bool" where
  "below_cursor coll p k \<longleftrightarrow> (case slp_CursorTs p of None \<Rightarrow> True | Some t \<Rightarrow> row_below coll k t (slp_CursorFp p))"

text \<open>\<open>DISTINCT ON (history_fingerprint)\<close>, the newest commit first, then the larger id.\<close>

definition latest_members :: "(string \<Rightarrow> string \<Rightarrow> bool) \<Rightarrow> member list \<Rightarrow> member list" where
  "latest_members coll ms = map (\<lambda>fp. hd (stable_sort (latest_first coll m_ts m_id) (filter (\<lambda>m. m_fp m = fp) ms)))
     (remdups (map m_fp ms))"

definition series_row :: "ingest_db \<Rightarrow> member \<Rightarrow> SeriesPageRow option" where
  "series_row d m = (let r = fst m; c = snd m in
     case (by_id case_id (ir_CaseID r) (in_cases d), by_id tags_id (ir_ContextID r) (in_contexts d),
           by_id hw_ID (ir_HardwareID r) (in_hardware d)) of
       (Some cs, Some ctx, Some hw) \<Rightarrow>
         Some \<lparr>sw_HistoryFingerprint = m_fp m, sw_LatestResultID = ir_ID r, sw_LatestResultTimestamp = ir_Timestamp r,
           sw_LatestCommitSha = c_sha c, sw_LatestCommitTimestamp = commit_ts c, sw_CommitRepoUrl = ir_CommitRepoUrl r,
           sw_LatestUnit = ir_Unit r, sw_LatestData = float_slice (ir_Data r),
           sw_PointCount = length (filter (\<lambda>m'. m_fp m' = m_fp m) (all_members d)),
           sw_CaseName = case_name cs, sw_CaseTags = case_tags cs, sw_ContextTags = tags_value ctx,
           sw_HardwareID = hw_ID hw, sw_HardwareName = hw_Name hw, sw_HardwareType = hw_Type hw, sw_HardwareHash = hw_Hash hw\<rparr>
     | _ \<Rightarrow> None)"

text \<open>
  The end all page queries share: the rows in the order of the list, at most a page of them.
  A NULL among the samples of the latest result cannot be scanned into a \<^verbatim>\<open>[]float64\<close>.
\<close>

definition scan_rows :: "('a \<Rightarrow> f64 ptr list) \<Rightarrow> 'a list \<Rightarrow> 'a list result" where
  "scan_rows f rows = (if list_ex (\<lambda>r. None \<in> set (f r)) rows then Inl (ErrOther ''cannot scan NULL into *float64'') else Inr rows)"

definition page_of :: "(string \<Rightarrow> string \<Rightarrow> bool) \<Rightarrow> int \<Rightarrow> SeriesPageRow list \<Rightarrow> SeriesPageRow list result" where
  "page_of coll n rows = scan_rows sw_LatestData
     (take (nat n) (stable_sort (latest_first coll sw_LatestCommitTimestamp sw_HistoryFingerprint) rows))"

definition SelectSeriesPageForFingerprint ::
  "pg_text \<Rightarrow> (string \<Rightarrow> string \<Rightarrow> bool) \<Rightarrow> ingest_db \<Rightarrow> SeriesListParams \<Rightarrow> string \<Rightarrow> SeriesPageRow list result" where
  "SelectSeriesPageForFingerprint pg coll d p fp =
     (let ms = filter (\<lambda>m. m_fp m = fp \<and> active_between (slp_ActiveSince p) (slp_ActiveUntil p) (m_ts m) \<and>
                 below_cursor coll p (m_ts m, m_fp m)) (all_members d) in
      page_of coll (slp_PageSize p)
        (filter (\<lambda>row. (case slp_Q p of None \<Rightarrow> True
               | Some q \<Rightarrow> pg_ILIKE pg (sw_CaseName row) q \<or> pg_ILIKE pg (pg_jsonb_text pg (sw_CaseTags row)) q) \<and>
             (case slp_Hardware p of None \<Rightarrow> True | Some n \<Rightarrow> sw_HardwareName row = n) \<and>
             (case slp_Repository p of None \<Rightarrow> True | Some x \<Rightarrow> sw_CommitRepoUrl row = x))
          (List.map_filter (series_row d) (latest_members coll ms))))"

definition SelectSeriesCaseIDsForQ ::
  "pg_text \<Rightarrow> (string \<Rightarrow> string \<Rightarrow> bool) \<Rightarrow> ingest_db \<Rightarrow> string \<Rightarrow> string list" where
  "SelectSeriesCaseIDsForQ pg coll d q = map case_id (stable_sort (\<lambda>a b. coll (case_id a) (case_id b))
     (filter (\<lambda>cs. pg_ILIKE pg (case_name cs) q \<or> pg_ILIKE pg (pg_jsonb_text pg (case_tags cs)) q) (in_cases d)))"

definition q_members :: "ingest_db \<Rightarrow> SeriesListParams \<Rightarrow> string list \<Rightarrow> member list" where
  "q_members d p ids = filter (\<lambda>m. ir_CaseID (fst m) \<in> set ids \<and> in_repository (slp_Repository p) (fst m) \<and>
     on_hardware d (slp_Hardware p) (fst m) \<and> active_between (slp_ActiveSince p) (slp_ActiveUntil p) (m_ts m)) (all_members d)"

definition SelectSeriesPageForQCaseIDs ::
  "(string \<Rightarrow> string \<Rightarrow> bool) \<Rightarrow> ingest_db \<Rightarrow> SeriesListParams \<Rightarrow> string list \<Rightarrow> SeriesPageRow list result" where
  "SelectSeriesPageForQCaseIDs coll d p ids =
     page_of coll (slp_PageSize p)
       (filter (\<lambda>row. below_cursor coll p (sw_LatestCommitTimestamp row, sw_HistoryFingerprint row))
         (List.map_filter (series_row d) (latest_members coll (q_members d p ids))))"

text \<open>The commits a bounded search looks at: a seed of the newest ones, with all that share the time of its oldest.\<close>

definition recent_commits ::
  "(string \<Rightarrow> string \<Rightarrow> bool) \<Rightarrow> (commit_row \<Rightarrow> bool) \<Rightarrow> bool \<Rightarrow> SeriesListParams \<Rightarrow> int \<Rightarrow> commit_row list \<Rightarrow> commit_row list" where
  "recent_commits coll ok empty_all p limit cs =
     (let older = (\<lambda>c. case slp_CursorTs p of None \<Rightarrow> True | Some t \<Rightarrow> commit_ts c < t);
          base = filter (\<lambda>c. default_commit c \<and> ok c) cs;
          seed = take (nat limit) (stable_sort (latest_first coll commit_ts c_id) (filter older base))
      in filter (\<lambda>c. slp_CursorTs p = Some (commit_ts c) \<or>
            older c \<and> (if seed = [] then empty_all else linorder_class.Min (commit_ts ` set seed) \<le> commit_ts c)) base)"

text \<open>A series whose latest measurement is at or above the cursor was listed on an earlier page.\<close>

definition listed_before ::
  "(string \<Rightarrow> string \<Rightarrow> bool) \<Rightarrow> ingest_db \<Rightarrow> (member \<Rightarrow> bool) \<Rightarrow> SeriesListParams \<Rightarrow> string \<Rightarrow> bool" where
  "listed_before coll d ok p fp = (case slp_CursorTs p of None \<Rightarrow> False
     | Some t \<Rightarrow> list_ex (\<lambda>m. m_fp m = fp \<and> ok m \<and> row_from coll (m_ts m, m_fp m) t (slp_CursorFp p)) (all_members d))"

definition SelectSeriesPageForQRecent ::
  "(string \<Rightarrow> string \<Rightarrow> bool) \<Rightarrow> ingest_db \<Rightarrow> SeriesListParams \<Rightarrow> string list \<Rightarrow> int \<Rightarrow> SeriesPageRow list result" where
  "SelectSeriesPageForQRecent coll d p ids limit =
     (let rcs = recent_commits coll (\<lambda>c. active_between None (slp_ActiveUntil p) (commit_ts c)) True p limit (in_commits d);
          ms = filter (\<lambda>m. snd m \<in> set rcs \<and> ir_CaseID (fst m) \<in> set ids \<and> on_hardware d (slp_Hardware p) (fst m) \<and>
                 in_repository (slp_Repository p) (fst m) \<and> active_between (slp_ActiveSince p) None (m_ts m) \<and>
                 \<not> listed_before coll d (\<lambda>_. True) p (m_fp m)) (all_members d)
      in page_of coll (slp_PageSize p)
           (filter (\<lambda>row. below_cursor coll p (sw_LatestCommitTimestamp row, sw_HistoryFingerprint row))
             (List.map_filter (series_row d) (latest_members coll ms))))"

definition SelectSeriesPageBrowse ::
  "(string \<Rightarrow> string \<Rightarrow> bool) \<Rightarrow> ingest_db \<Rightarrow> SeriesListParams \<Rightarrow> int \<Rightarrow> SeriesPageRow list result" where
  "SelectSeriesPageBrowse coll d p limit =
     (let wanted = (\<lambda>r. in_repository (slp_Repository p) r \<and> on_hardware d (slp_Hardware p) r);
          act = active_between (slp_ActiveSince p) (slp_ActiveUntil p);
          rcs = recent_commits coll (\<lambda>c. act (commit_ts c) \<and>
                  list_ex (\<lambda>r. ir_CommitID r = Some (c_id c) \<and> ir_Error r = None \<and> wanted r) (in_results d)) False p limit (in_commits d);
          ms = filter (\<lambda>m. snd m \<in> set rcs \<and> wanted (fst m) \<and>
                 \<not> listed_before coll d (\<lambda>m. wanted (fst m) \<and> act (m_ts m)) p (m_fp m)) (all_members d)
      in page_of coll (slp_PageSize p)
           (filter (\<lambda>row. below_cursor coll p (sw_LatestCommitTimestamp row, sw_HistoryFingerprint row) \<and>
                act (sw_LatestCommitTimestamp row))
             (List.map_filter (series_row d) (latest_members coll ms))))"

definition SeriesPage :: "pg_text \<Rightarrow> (string \<Rightarrow> string \<Rightarrow> bool) \<Rightarrow> ingest_db \<Rightarrow> SeriesListParams \<Rightarrow> SeriesPageRow list result" where
  "SeriesPage pg coll d p = (case SelectSeriesPage (SelectSeriesCaseIDsForQ pg coll d) p of
     ForFingerprint fp \<Rightarrow> SelectSeriesPageForFingerprint pg coll d p fp
   | NoMatch \<Rightarrow> Inr []
   | ForQCaseIDs ids \<Rightarrow> SelectSeriesPageForQCaseIDs coll d p ids
   | ForQRecent ids limit \<Rightarrow> SelectSeriesPageForQRecent coll d p ids limit
   | Browse limit \<Rightarrow> SelectSeriesPageBrowse coll d p limit)"

text \<open>The newest members of each series asked for, then in the order of time.\<close>

definition series_history_row :: "ingest_db \<Rightarrow> member \<Rightarrow> HistoryRow option" where
  "series_history_row d m = (let r = fst m; c = snd m in
     map_option (\<lambda>h. \<lparr>hr_ID = ir_ID r, hr_HistoryFingerprint = m_fp m, hr_Timestamp = ir_Timestamp r, hr_Unit = ir_Unit r,
       hr_Mean = ac_Mean (ir_Aggs r), hr_Data = map the (float_slice (ir_Data r)), hr_RunTags = None, hr_InfoTags = None,
       hr_ChangeAnnotations = ir_ChangeAnnotations r, hr_HardwareHash = hw_Hash h, hr_CommitSha = c_sha c,
       hr_CommitRepository = c_repository c, hr_CommitMessage = c_message c, hr_CommitTimestamp = c_timestamp c\<rparr>)
       (by_id hw_ID (ir_HardwareID r) (in_hardware d)))"

definition member_order :: "(string \<Rightarrow> string \<Rightarrow> bool) \<Rightarrow> HistoryRow \<Rightarrow> HistoryRow \<Rightarrow> bool" where
  "member_order coll a b \<longleftrightarrow> coll (hr_HistoryFingerprint a) (hr_HistoryFingerprint b) \<or>
     hr_HistoryFingerprint a = hr_HistoryFingerprint b \<and> history_less coll a b"

definition series_tail :: "(string \<Rightarrow> string \<Rightarrow> bool) \<Rightarrow> ingest_db \<Rightarrow> int \<Rightarrow> string \<Rightarrow> member list" where
  "series_tail coll d limit fp = take (nat limit) (stable_sort (latest_first coll m_ts m_id)
     (filter (\<lambda>m. m_fp m = fp \<and> by_id hw_ID (ir_HardwareID (fst m)) (in_hardware d) \<noteq> None) (all_members d)))"

definition SelectSeriesMembers ::
  "(string \<Rightarrow> string \<Rightarrow> bool) \<Rightarrow> ingest_db \<Rightarrow> string list \<Rightarrow> HistoryRow list result" where
  "SelectSeriesMembers coll d fingerprints =
     (let ms = concat (map (series_tail coll d seriesMembersTailLimit) fingerprints) in
      case scan_rows (\<lambda>m. float_slice (ir_Data (fst m))) ms of Inl e \<Rightarrow> Inl e
      | Inr ms \<Rightarrow> Inr (stable_sort (member_order coll) (List.map_filter (series_history_row d) ms)))"

section \<open>Status of a series\<close>

definition statusRegressed :: string where "statusRegressed = ''regressed''"
definition statusImproved :: string where "statusImproved = ''improved''"
definition statusStable :: string where "statusStable = ''stable''"
definition statusInsufficient :: string where "statusInsufficient = ''insufficient''"
definition seriesSparklineLen :: nat where "seriesSparklineLen = 20"

definition seriesUnit :: "HistoryRow list \<Rightarrow> string ptr" where
  "seriesUnit members = (case members of [] \<Rightarrow> None
     | m # _ \<Rightarrow> (if list_all (\<lambda>x. sameUnitPtr (hr_Unit m) (hr_Unit x)) members then hr_Unit m else None))"

definition seriesIdentityUnit :: "HistoryRow list \<Rightarrow> string ptr \<times> bool ptr" where
  "seriesIdentityUnit members =
     (let unit = seriesUnit members; lessIsBetter = lessIsBetterPtr unit in
      if lessIsBetter = None then (None, None) else (unit, lessIsBetter))"

definition baseline_point :: "HistoryRow \<Rightarrow> SeriesPoint svc" where
  "baseline_point m = svc_bind (historySVS (hr_Unit m) (hr_Data m)) (\<lambda>(svs, _). seriesPointFromRow m svs)"

text \<open>The only error is a panic of the rolling statistics.\<close>

definition seriesStatus :: "HistoryRow list \<Rightarrow> string ptr \<Rightarrow> bool ptr \<Rightarrow> string svc" where
  "seriesStatus members unit lessIsBetter =
     (case (unit, lessIsBetter) of
        (Some _, Some lower) \<Rightarrow>
          (if length members < 2 then Inr statusInsufficient
           else case historySVS (hr_Unit (last members)) (hr_Data (last members)) of
             Inl _ \<Rightarrow> Inr statusInsufficient
           | Inr (latestSVS, _) \<Rightarrow>
               (case svc_map baseline_point (butlast members) of
                  Inl _ \<Rightarrow> Inr statusInsufficient
                | Inr points \<Rightarrow>
                    svc_bind (of_panic (BaselineDistribution points DistributionCommitsDefault)) (\<lambda>(mean, stddev).
                    Inr (case LookbackZVerdict (ZScore (Some latestSVS) lower mean stddev) ZScoreThresholdDefault of
                           None \<Rightarrow> statusInsufficient
                         | Some v \<Rightarrow> (if LookRegression v then statusRegressed
                             else if LookImprovement v then statusImproved else statusStable)))))
      | _ \<Rightarrow> Inr statusInsufficient)"

definition seriesSparkline :: "HistoryRow list \<Rightarrow> f64 list" where
  "seriesSparkline members =
     List.map_filter (\<lambda>m. case historySVS (hr_Unit m) (hr_Data m) of Inl _ \<Rightarrow> None | Inr (svs, _) \<Rightarrow> Some svs)
       (drop (length members - seriesSparklineLen) members)"

section \<open>The list\<close>

record SeriesListItem =
  se_HistoryFingerprint :: string
  se_Name :: string
  se_Tags :: any_map
  se_Context :: "any_map ptr"
  se_Hardware :: Hardware
  se_Repository :: string
  se_Unit :: "string ptr"
  se_LessIsBetter :: "bool ptr"
  se_Status :: string
  se_LatestResultID :: string
  se_LatestSVS :: "f64 ptr"
  se_LatestSVSType :: "string ptr"
  se_LatestCommitSha :: string
  se_LatestCommitTimestamp :: time
  se_LatestResultTimestamp :: time
  se_PointCount :: nat
  se_Sparkline :: "f64 list"

record SeriesCursor =
  sc_Ts :: time
  sc_Fp :: string

record SeriesResult =
  sl_Series :: "SeriesListItem list"
  sl_NextCursor :: "SeriesCursor ptr"

definition latestSeriesSVS :: "string ptr \<Rightarrow> f64 ptr list \<Rightarrow> f64 ptr \<times> string ptr" where
  "latestSeriesSVS unit data =
     (if unit = None \<or> data = [] then (None, None)
      else case historySVS unit (map the data) of Inl _ \<Rightarrow> (None, None) | Inr (v, t) \<Rightarrow> (Some v, Some t))"

definition seriesListItem :: "SeriesPageRow \<Rightarrow> HistoryRow list \<Rightarrow> SeriesListItem svc" where
  "seriesListItem row members =
     (let (unit, lessIsBetter) = seriesIdentityUnit members in
      svc_bind (of_json (jsonObject (Some (sw_CaseTags row)))) (\<lambda>tags.
      svc_bind (of_json (jsonObject (Some (sw_ContextTags row)))) (\<lambda>contextTags.
      svc_bind (seriesStatus members unit lessIsBetter) (\<lambda>status.
      let (latestSVS, latestSVSType) = latestSeriesSVS (sw_LatestUnit row) (sw_LatestData row) in
      Inr \<lparr>se_HistoryFingerprint = sw_HistoryFingerprint row, se_Name = sw_CaseName row,
           se_Tags = map_set ''name'' (AStr (sw_CaseName row)) (or_empty tags), se_Context = contextTags,
           se_Hardware = \<lparr>hd_ID = sw_HardwareID row, hd_Type = sw_HardwareType row, hd_Name = sw_HardwareName row,
             hd_Hash = sw_HardwareHash row\<rparr>,
           se_Repository = sw_CommitRepoUrl row, se_Unit = unit, se_LessIsBetter = lessIsBetter, se_Status = status,
           se_LatestResultID = sw_LatestResultID row, se_LatestSVS = latestSVS, se_LatestSVSType = latestSVSType,
           se_LatestCommitSha = sw_LatestCommitSha row, se_LatestCommitTimestamp = sw_LatestCommitTimestamp row,
           se_LatestResultTimestamp = sw_LatestResultTimestamp row, se_PointCount = sw_PointCount row,
           se_Sparkline = seriesSparkline members\<rparr>))))"

text \<open>\<open>groupMembersByFingerprint\<close>, as the function from a fingerprint to its members.\<close>

definition groupMembersByFingerprint :: "HistoryRow list \<Rightarrow> string \<Rightarrow> HistoryRow list" where
  "groupMembersByFingerprint members fp = filter (\<lambda>m. hr_HistoryFingerprint m = fp) members"

definition with_page_size :: "SeriesListParams \<Rightarrow> SeriesListParams" where
  "with_page_size q = q\<lparr>slp_PageSize := clamp_page listPageSizeDefault listPageSizeMax (slp_PageSize q)\<rparr>"

text \<open>The query has the fields of the parameters; the two reads are arguments.\<close>

definition ListSeries ::
  "(SeriesListParams \<Rightarrow> SeriesPageRow list result) \<Rightarrow> (string list \<Rightarrow> HistoryRow list result) \<Rightarrow> SeriesListParams \<Rightarrow> SeriesResult svc" where
  "ListSeries page members q =
     svc_bind (of_store ''list series'' (page (with_page_size q))) (\<lambda>rows.
     svc_bind (of_store ''list series members'' (members (map sw_HistoryFingerprint rows))) (\<lambda>ms.
     svc_bind (svc_map (\<lambda>row. seriesListItem row (groupMembersByFingerprint ms (sw_HistoryFingerprint row))) rows) (\<lambda>items.
     Inr \<lparr>sl_Series = items,
          sl_NextCursor = (if int (length items) = slp_PageSize (with_page_size q)
            then Some \<lparr>sc_Ts = sw_LatestCommitTimestamp (last rows), sc_Fp = sw_HistoryFingerprint (last rows)\<rparr> else None)\<rparr>)))"

end
