(* ===== verification/ListingProps.thy ===== *)
theory ListingProps
  imports Listing IngestMachine
begin

text \<open>
  What a client sees of the lists: the walk over the pages of the result list, while other
  transactions change the tables and while they do not, and the runs the landing page shows.
\<close>

section \<open>Loops and orders\<close>

lemma svc_map_Inr: "svc_map f xs = Inr ys \<longleftrightarrow> list_all2 (\<lambda>x y. f x = Inr y) xs ys"
  by (induction xs arbitrary: ys) (auto simp: svc_bind_Inr_iff list_all2_Cons1)

lemma svc_bind_assoc: "svc_bind (svc_bind m f) g = svc_bind m (\<lambda>x. svc_bind (f x) g)"
  by (simp add: svc_bind_def split: sum.splits)

lemma svc_bind_simps [simp]: "svc_bind (Inr x) f = f x" "svc_bind (Inl e) f = Inl e"
  by (simp_all add: svc_bind_def)

lemma svc_map_append: "svc_map f (xs @ ys) = svc_bind (svc_map f xs) (\<lambda>us. svc_bind (svc_map f ys) (\<lambda>vs. Inr (us @ vs)))"
  by (induction xs) (auto simp: svc_bind_assoc svc_bind_def split: sum.splits)

lemma strict_sorted_unique:
  assumes "sorted_wrt P xs" "sorted_wrt P ys" "set xs = set ys" "\<And>x y. P x y \<Longrightarrow> \<not> P y x"
  shows "xs = ys"
  using assms(1-3)
proof (induction xs arbitrary: ys)
  case (Cons x xs)
  then obtain y ys' where ys: "ys = y # ys'" by (cases ys) auto
  have irr: "\<not> P z z" for z using assms(4) by blast
  have "x = y"
  proof (rule ccontr)
    assume "x \<noteq> y"
    with Cons.prems(3) ys have "y \<in> set xs" "x \<in> set ys'" by auto
    with Cons.prems(1,2) ys have "P x y" "P y x" by auto
    with assms(4) show False by blast
  qed
  moreover have "x \<notin> set xs" "x \<notin> set ys'" using Cons.prems(1,2) ys irr \<open>x = y\<close> by auto
  then have "set xs = set ys'" using Cons.prems(3) ys \<open>x = y\<close> by (metis insert_ident list.simps(15))
  ultimately show ?case using Cons ys by auto
qed simp

context total_weak_order
begin

lemma rev_weak: "weak_order (\<lambda>a b. lt (f b) (f a))"
  by unfold_locales (auto dest: asym neg_trans)

lemma strict_sort:
  assumes "distinct (map f xs)"
  shows "sorted_wrt (\<lambda>a b. lt (f b) (f a)) (stable_sort (\<lambda>a b. lt (f b) (f a)) xs)"
proof -
  let ?ys = "stable_sort (\<lambda>a b. lt (f b) (f a)) xs"
  have d: "distinct (map f ?ys)" using assms unfolding distinct_map by simp
  have "sorted_wrt (\<lambda>a b. \<not> lt (f a) (f b)) ?ys" by (rule weak_order.sort_sorted [OF rev_weak])
  moreover have "sorted_wrt (\<lambda>a b. lt (f b) (f a)) ys"
    if "sorted_wrt (\<lambda>a b. \<not> lt (f a) (f b)) ys" "distinct (map f ys)" for ys
    using that
  proof (induction ys)
    case (Cons y ys)
    have "lt (f z) (f y)" if "z \<in> set ys" for z
      using Cons.prems that total [of "f y" "f z"] by (force intro: rev_image_eqI)
    with Cons show ?case by simp
  qed simp
  ultimately show ?thesis using d by blast
qed

lemma sorted_last:
  assumes "sorted_wrt (\<lambda>a b. lt (f b) (f a)) (xs @ [z])" "x \<in> set xs"
  shows "lt (f z) (f x)"
  using assms by (auto simp: sorted_wrt_append)

lemma sorted_take_drop:
  assumes "sorted_wrt (\<lambda>a b. lt (f b) (f a)) xs" "0 < n" "n \<le> length xs"
  shows "drop n xs = filter (\<lambda>a. lt (f a) (f (last (take n xs)))) xs"
proof -
  obtain ys z where ts: "take n xs = ys @ [z]" using assms(2,3) by (cases "take n xs" rule: rev_cases) auto
  have xs: "xs = (ys @ [z]) @ drop n xs" using ts by (metis append_take_drop_id)
  have s: "sorted_wrt (\<lambda>a b. lt (f b) (f a)) ((ys @ [z]) @ drop n xs)" using assms(1) xs by simp
  have "filter (\<lambda>a. lt (f a) (f z)) (ys @ [z]) = []"
    using s asym irrefl by (auto simp: filter_empty_conv sorted_wrt_append)
  moreover have "filter (\<lambda>a. lt (f a) (f z)) (drop n xs) = drop n xs"
    using s by (auto simp: filter_id_conv sorted_wrt_append)
  ultimately have "filter (\<lambda>a. lt (f a) (f z)) ((ys @ [z]) @ drop n xs) = drop n xs" by (simp only: filter_append append_Nil)
  then show ?thesis using xs ts by (metis last_snoc)
qed

end

section \<open>Pages\<close>

lemma clamp_page_bounds: "0 < dflt \<Longrightarrow> dflt \<le> most \<Longrightarrow> 0 < clamp_page dflt most n \<and> clamp_page dflt most n \<le> most"
  by (auto simp: clamp_page_def Let_def)

lemma list_size: "0 < lp_PageSize (list_params q)"
  using clamp_page_bounds [of listPageSizeDefault listPageSizeMax "lq_PageSize q"]
  by (simp add: list_params_def listPageSizeDefault_def listPageSizeMax_def)

lemma list_params_cursor:
  "list_filter (list_params (q\<lparr>lq_Cursor := c\<rparr>)) = list_filter (list_params q)"
  "lp_PageSize (list_params (q\<lparr>lq_Cursor := c\<rparr>)) = lp_PageSize (list_params q)"
  "c \<notin> {[], ''null''} \<Longrightarrow> lp_Cursor (list_params (q\<lparr>lq_Cursor := c\<rparr>)) = Some c"
  by (auto simp: list_params_def list_filter_def fun_eq_iff Let_def)

lemma list_item_ID: "list_item row = Inr i \<Longrightarrow> li_ID i = lr_ID row"
  by (auto simp: list_item_def svc_bind_Inr_iff)

text \<open>All rows a query asks for, newest first, and those of them past the cursor.\<close>

definition all_rows :: "(string \<Rightarrow> string \<Rightarrow> bool) \<Rightarrow> ingest_db \<Rightarrow> ListResultsParams \<Rightarrow> ResultListRow list" where
  "all_rows coll d p = stable_sort (\<lambda>a b. coll (lr_ID b) (lr_ID a)) (List.map_filter (list_row d) (filter (list_filter p) (in_results d)))"

definition rest_rows :: "(string \<Rightarrow> string \<Rightarrow> bool) \<Rightarrow> ingest_db \<Rightarrow> ListResultsParams \<Rightarrow> ResultListRow list" where
  "rest_rows coll d p = stable_sort (\<lambda>a b. coll (lr_ID b) (lr_ID a))
     (List.map_filter (list_row d) (filter (\<lambda>r. list_filter p r \<and> after_cursor coll p r) (in_results d)))"

lemma select_rest: "SelectBenchmarkResults coll d p = take (nat (lp_PageSize p)) (rest_rows coll d p)"
  by (simp add: SelectBenchmarkResults_def rest_rows_def)

lemma list_row_Some:
  assumes "ingest_ok d" "r \<in> set (in_results d)"
  obtains row where "list_row d r = Some row" "lr_ID row = ir_ID r"
proof -
  have "references r d" using assms by (simp add: ingest_ok_def)
  then obtain cs where "by_id case_id (ir_CaseID r) (in_cases d) = Some cs"
    by (cases "by_id case_id (ir_CaseID r) (in_cases d)") (auto simp: references_def by_id_def find_None_iff)
  then show thesis by (intro that) (auto simp: list_row_def)
qed

lemma list_row_ID: "list_row d r = Some row \<Longrightarrow> lr_ID row = ir_ID r"
  by (auto simp: list_row_def)

lemma map_filter_ids:
  assumes "ingest_ok d" "set rs \<subseteq> set (in_results d)"
  shows "map lr_ID (List.map_filter (list_row d) rs) = map ir_ID rs"
  using assms(2)
proof (induction rs)
  case (Cons r rs)
  then obtain row where "list_row d r = Some row" "lr_ID row = ir_ID r" using list_row_Some [OF assms(1)] by auto
  with Cons show ?case by (simp add: map_filter_simps)
qed (simp add: map_filter_simps)

lemma rest_ids:
  assumes "ingest_ok d"
  shows "lr_ID ` set (rest_rows coll d p) = ir_ID ` {r \<in> set (in_results d). list_filter p r \<and> after_cursor coll p r}"
proof -
  let ?rs = "filter (\<lambda>r. list_filter p r \<and> after_cursor coll p r) (in_results d)"
  have "map lr_ID (List.map_filter (list_row d) ?rs) = map ir_ID ?rs" by (rule map_filter_ids [OF assms]) auto
  then have "lr_ID ` set (List.map_filter (list_row d) ?rs) = ir_ID ` set ?rs" by (metis set_map)
  then show ?thesis by (simp add: rest_rows_def)
qed

lemma rest_distinct:
  assumes "ingest_ok d"
  shows "distinct (map lr_ID (List.map_filter (list_row d) (filter P (in_results d))))"
proof -
  have "distinct (map ir_ID (in_results d))" using assms by (simp add: ingest_ok_def keys_ok_def)
  then show ?thesis using map_filter_ids [OF assms, of "filter P (in_results d)"] by (simp add: distinct_map_filter)
qed

lemma rest_sorted:
  assumes "total_weak_order coll" "ingest_ok d"
  shows "sorted_wrt (\<lambda>a b. coll (lr_ID b) (lr_ID a)) (rest_rows coll d p)"
  unfolding rest_rows_def by (rule total_weak_order.strict_sort [OF assms(1) rest_distinct [OF assms(2)]])

lemma list_item_IDs: "list_all2 (\<lambda>row i. list_item row = Inr i) rows items \<Longrightarrow> map li_ID items = map lr_ID rows"
  by (induction rows items rule: list_all2_induct) (auto dest: list_item_ID)

text \<open>One page: the first rows past the cursor, and a cursor when it is full.\<close>

lemma page_rows:
  assumes "ListResults (\<lambda>p. Inr (SelectBenchmarkResults coll d p)) q = Inr page"
  defines "n \<equiv> nat (lp_PageSize (list_params q))" and "rest \<equiv> rest_rows coll d (list_params q)"
  shows "map li_ID (pg_Results page) = map lr_ID (take n rest)"
    "pg_NextPageCursor page = (if n \<le> length rest then Some (lr_ID (last (take n rest))) else None)" "0 < n"
proof -
  show n: "0 < n" using list_size [of q] by (simp add: n_def)
  from assms(1) obtain items where items: "list_all2 (\<lambda>row i. list_item row = Inr i) (take n rest) items"
    and page: "page = \<lparr>pg_Results = items,
       pg_NextPageCursor = (if int (length items) = lp_PageSize (list_params q) then Some (li_ID (last items)) else None)\<rparr>"
    by (auto simp: ListResults_def svc_bind_Inr_iff svc_map_Inr of_store_def select_rest n_def rest_def)
  note ids = list_item_IDs [OF items]
  show "map li_ID (pg_Results page) = map lr_ID (take n rest)" using ids by (simp add: page)
  have len: "length items = min n (length rest)" using list_all2_lengthD [OF items] by simp
  have full: "int (length items) = lp_PageSize (list_params q) \<longleftrightarrow> n \<le> length rest"
    using list_size [of q] len by (auto simp: n_def)
  have "li_ID (last items) = lr_ID (last (take n rest))" if "n \<le> length rest"
    using ids len n that by (metis last_map length_greater_0_conv length_map min.absorb1 take_eq_Nil less_nat_zero_code)
  then show "pg_NextPageCursor page = (if n \<le> length rest then Some (lr_ID (last (take n rest))) else None)"
    using full by (simp add: page)
qed

text \<open>A result id the query asks for.\<close>

definition asked :: "ListQuery \<Rightarrow> ingest_db \<Rightarrow> string \<Rightarrow> bool" where
  "asked q d i \<longleftrightarrow> (\<exists>r \<in> set (in_results d). ir_ID r = i \<and> list_filter (list_params q) r)"

definition past :: "(string \<Rightarrow> string \<Rightarrow> bool) \<Rightarrow> ListQuery \<Rightarrow> string \<Rightarrow> bool" where
  "past coll q i \<longleftrightarrow> (case lp_Cursor (list_params q) of None \<Rightarrow> True | Some c \<Rightarrow> coll i c)"

lemma rest_asked:
  assumes "ingest_ok d"
  shows "i \<in> lr_ID ` set (rest_rows coll d (list_params q)) \<longleftrightarrow> asked q d i \<and> past coll q i"
  unfolding rest_ids [OF assms] asked_def past_def after_cursor_def by blast

lemma page_spec:
  assumes ord: "total_weak_order coll" and ok: "ingest_ok d"
    and page: "ListResults (\<lambda>p. Inr (SelectBenchmarkResults coll d p)) q = Inr page"
  shows "sorted_wrt (\<lambda>a b. coll b a) (map li_ID (pg_Results page))"
    "i \<in> li_ID ` set (pg_Results page) \<Longrightarrow> asked q d i \<and> past coll q i"
    "pg_NextPageCursor page = None \<Longrightarrow> asked q d i \<Longrightarrow> past coll q i \<Longrightarrow> i \<in> li_ID ` set (pg_Results page)"
    "pg_NextPageCursor page = Some c \<Longrightarrow> c \<in> li_ID ` set (pg_Results page) \<and>
       (\<forall>j \<in> li_ID ` set (pg_Results page). j = c \<or> coll c j) \<and>
       (asked q d i \<longrightarrow> past coll q i \<longrightarrow> coll i c \<or> i \<in> li_ID ` set (pg_Results page))"
proof -
  define n where "n = nat (lp_PageSize (list_params q))"
  define rest where "rest = rest_rows coll d (list_params q)"
  note p = page_rows [OF page, folded n_def rest_def]
  have ids: "li_ID ` set (pg_Results page) = lr_ID ` set (take n rest)" using p(1) by (metis set_map)
  have s: "sorted_wrt (\<lambda>a b. coll (lr_ID b) (lr_ID a)) rest" unfolding rest_def by (rule rest_sorted [OF ord ok])
  show "sorted_wrt (\<lambda>a b. coll b a) (map li_ID (pg_Results page))"
    unfolding p(1) using sorted_wrt_take [OF s] by (simp add: sorted_wrt_map)
  show "asked q d i \<and> past coll q i" if "i \<in> li_ID ` set (pg_Results page)"
    using that rest_asked [OF ok] unfolding ids rest_def by (metis (no_types, lifting) image_iff in_set_takeD)
  show "i \<in> li_ID ` set (pg_Results page)" if "pg_NextPageCursor page = None" "asked q d i" "past coll q i"
    using that rest_asked [OF ok, of i coll q, folded rest_def] p(2) unfolding ids by (auto split: if_splits)
  show "c \<in> li_ID ` set (pg_Results page) \<and> (\<forall>j \<in> li_ID ` set (pg_Results page). j = c \<or> coll c j) \<and>
       (asked q d i \<longrightarrow> past coll q i \<longrightarrow> coll i c \<or> i \<in> li_ID ` set (pg_Results page))"
    if "pg_NextPageCursor page = Some c"
  proof -
    from that p(2) have n: "n \<le> length rest" and c: "c = lr_ID (last (take n rest))" by (auto split: if_splits)
    obtain ys z where ts: "take n rest = ys @ [z]" using n p(3) by (cases "take n rest" rule: rev_cases) auto
    have "sorted_wrt (\<lambda>a b. coll (lr_ID b) (lr_ID a)) (ys @ [z])" using sorted_wrt_take [OF s, of n] ts by simp
    then have "\<forall>j \<in> lr_ID ` set (take n rest). j = c \<or> coll c j" using ts c by (auto simp: sorted_wrt_append)
    moreover have "coll i c \<or> i \<in> lr_ID ` set (take n rest)" if "asked q d i" "past coll q i"
    proof -
      have "i \<in> lr_ID ` set rest" using that rest_asked [OF ok] by (simp add: rest_def)
      then obtain row where row: "row \<in> set (take n rest @ drop n rest)" "lr_ID row = i" by auto
      show ?thesis using row total_weak_order.sorted_take_drop [OF ord s p(3) n] c by auto
    qed
    ultimately show ?thesis using ts c unfolding ids by auto
  qed
qed

lemma pages_Cons:
  "pages coll q (d # ds) = Inr (items, done) \<longleftrightarrow>
     (\<exists>page. ListResults (\<lambda>p. Inr (SelectBenchmarkResults coll d p)) q = Inr page \<and>
        (case pg_NextPageCursor page of None \<Rightarrow> items = pg_Results page \<and> done
         | Some c \<Rightarrow> \<exists>rest. pages coll (q\<lparr>lq_Cursor := c\<rparr>) ds = Inr (rest, done) \<and> items = pg_Results page @ rest))"
  unfolding pages.simps svc_bind_Inr_iff
  by (intro ex_cong1 conj_cong refl) (auto simp: svc_bind_Inr_iff split: option.splits)

definition plain_ids :: "ingest_db \<Rightarrow> bool" where
  "plain_ids d \<longleftrightarrow> (\<forall>r \<in> set (in_results d). ir_ID r \<noteq> [] \<and> ir_ID r \<noteq> ''null'')"

lemma asked_cursor: "asked (q\<lparr>lq_Cursor := c\<rparr>) = asked q"
  by (simp add: asked_def fun_eq_iff list_params_cursor)

lemma pages_spec:
  assumes ord: "total_weak_order coll" and "\<forall>d \<in> set ds. ingest_ok d \<and> plain_ids d"
    and "pages coll q ds = Inr (items, done)"
  shows "sorted_wrt (\<lambda>a b. coll b a) (map li_ID items) \<and>
    (\<forall>i \<in> li_ID ` set items. past coll q i \<and> (\<exists>d \<in> set ds. asked q d i)) \<and>
    (done \<longrightarrow> (\<forall>i. (\<forall>d \<in> set ds. asked q d i) \<longrightarrow> past coll q i \<longrightarrow> i \<in> li_ID ` set items))"
  using assms(2,3)
proof (induction ds arbitrary: q items)
  case (Cons d ds)
  have ok: "ingest_ok d" and plain: "plain_ids d" using Cons.prems(1) by auto
  obtain page where page: "ListResults (\<lambda>p. Inr (SelectBenchmarkResults coll d p)) q = Inr page"
    and nxt: "case pg_NextPageCursor page of None \<Rightarrow> items = pg_Results page \<and> done
         | Some c \<Rightarrow> \<exists>rest. pages coll (q\<lparr>lq_Cursor := c\<rparr>) ds = Inr (rest, done) \<and> items = pg_Results page @ rest"
    using Cons.prems(2) unfolding pages_Cons by blast
  note p = page_spec [OF ord ok page]
  show ?case
  proof (cases "pg_NextPageCursor page")
    case None
    with nxt have "items = pg_Results page" "done" by simp_all
    with p(1) p(2) p(3) [OF None] show ?thesis by (intro conjI) (simp, (meson list.set_intros(1))+)
  next
    case (Some c)
    then obtain rest where rest: "pages coll (q\<lparr>lq_Cursor := c\<rparr>) ds = Inr (rest, done)" "items = pg_Results page @ rest"
      using nxt by auto
    note c = p(4) [OF Some]
    have pc: "asked q d c" "past coll q c" using c p(2) by blast+
    then obtain r where "r \<in> set (in_results d)" "ir_ID r = c" by (auto simp: asked_def)
    then have "c \<notin> {[], ''null''}" using plain by (auto simp: plain_ids_def)
    then have past: "past coll (q\<lparr>lq_Cursor := c\<rparr>) i = coll i c" for i by (simp add: past_def list_params_cursor)
    have IH: "sorted_wrt (\<lambda>a b. coll b a) (map li_ID rest) \<and>
      (\<forall>i \<in> li_ID ` set rest. coll i c \<and> (\<exists>d \<in> set ds. asked q d i)) \<and>
      (done \<longrightarrow> (\<forall>i. (\<forall>d \<in> set ds. asked q d i) \<longrightarrow> coll i c \<longrightarrow> i \<in> li_ID ` set rest))"
      using Cons.IH [OF _ rest(1)] Cons.prems(1) unfolding past asked_cursor by simp
    note w = total_weak_order.axioms(1) [OF ord]
    have trans: "coll i j" if "coll i c" "j = c \<or> coll c j" for i j
      using that weak_order.trans_less [OF w, of i c j] by blast
    have past_q: "past coll q i" if "coll i c" for i
      using pc that weak_order.trans_less [OF w, of i c] by (auto simp: past_def split: option.splits)
    have "sorted_wrt (\<lambda>a b. coll b a) (map li_ID items)"
      using p(1) IH c trans by (auto simp: rest(2) sorted_wrt_append)
    moreover have "\<forall>i \<in> li_ID ` set items. past coll q i \<and> (\<exists>d \<in> set (d # ds). asked q d i)"
      using p(2) IH past_q by (auto simp: rest(2))
    moreover have "done \<longrightarrow> (\<forall>i. (\<forall>d \<in> set (d # ds). asked q d i) \<longrightarrow> past coll q i \<longrightarrow> i \<in> li_ID ` set items)"
      using IH p(4) [OF Some] unfolding rest(2) set_append image_Un list.set by blast
    ultimately show ?thesis by blast
  qed
qed simp

text \<open>
  C12: A client that walks the list of results by its cursors, while other transactions add,
  change and delete results between the pages, sees no result twice and the newest id first;
  what it sees matched the query when its page was read, and once a page comes without a
  cursor it has seen every result that matched throughout.
\<close>

theorem ListResults_walk:
  assumes "total_weak_order coll" "\<forall>d \<in> set ds. ingest_ok d \<and> plain_ids d" "lq_Cursor q = []"
    and "pages coll q ds = Inr (items, done)"
  shows "distinct (map li_ID items) \<and> sorted_wrt (\<lambda>a b. coll b a) (map li_ID items) \<and>
    (\<forall>i \<in> li_ID ` set items. \<exists>d \<in> set ds. asked q d i) \<and>
    (done \<longrightarrow> (\<forall>i. (\<forall>d \<in> set ds. asked q d i) \<longrightarrow> i \<in> li_ID ` set items))"
proof -
  have past: "past coll q i" for i using assms(3) by (simp add: past_def list_params_def Let_def)
  note spec = pages_spec [OF assms(1,2,4)]
  have irr: "\<not> coll i i" for i by (rule weak_order.irrefl [OF total_weak_order.axioms(1) [OF assms(1)]])
  have "distinct xs" if "sorted_wrt (\<lambda>a b. coll b a) xs" for xs :: "string list"
    using that by (induction xs) (use irr in auto)
  from this [OF conjunct1 [OF spec]] spec past show ?thesis by blast
qed

lemma rest_set: "set (rest_rows coll d p) =
    {row. \<exists>r \<in> set (in_results d). list_row d r = Some row \<and> list_filter p r \<and> after_cursor coll p r}"
  by (auto simp: rest_rows_def List.map_filter_def image_iff) force

text \<open>Past the last row of a full page come the rows that page left out.\<close>

lemma rest_next:
  fixes q :: ListQuery
  assumes ord: "total_weak_order coll" and ok: "ingest_ok d" "plain_ids d"
  defines "n \<equiv> nat (lp_PageSize (list_params q))" and "rest \<equiv> rest_rows coll d (list_params q)"
  assumes full: "n \<le> length rest"
  shows "rest_rows coll d (list_params (q\<lparr>lq_Cursor := lr_ID (last (take n rest))\<rparr>)) = drop n rest"
proof -
  define c where "c = lr_ID (last (take n rest))"
  let ?q = "q\<lparr>lq_Cursor := c\<rparr>"
  have n: "0 < n" using list_size [of q] by (simp add: n_def)
  have s: "sorted_wrt (\<lambda>a b. coll (lr_ID b) (lr_ID a)) (rest_rows coll d p)" for p by (rule rest_sorted [OF ord ok(1)])
  have drop: "drop n rest = filter (\<lambda>a. coll (lr_ID a) c) rest"
    unfolding rest_def c_def by (rule total_weak_order.sorted_take_drop [OF ord s n full [unfolded rest_def]])
  have "last (take n rest) \<in> set rest" using n full by (metis in_set_takeD last_in_set length_greater_0_conv length_take min.absorb2 take_eq_Nil not_le)
  then have pc: "asked q d c" "past coll q c" using rest_asked [OF ok(1), of c coll q] unfolding rest_def c_def by blast+
  then have cursor: "lp_Cursor (list_params ?q) = Some c"
    using ok(2) by (intro list_params_cursor(3)) (auto simp: asked_def plain_ids_def)
  have past: "after_cursor coll (list_params ?q) r \<longleftrightarrow> after_cursor coll (list_params q) r \<and> coll (ir_ID r) c" for r
    using pc(2) weak_order.trans_less [OF total_weak_order.axioms(1) [OF ord], of "ir_ID r" c]
    by (auto simp: after_cursor_def cursor past_def split: option.splits)
  have key: "coll (lr_ID row) c = coll (ir_ID r) c" if "list_row d r = Some row" for r row
    using list_row_ID [OF that] by simp
  have "set (rest_rows coll d (list_params ?q)) = set (drop n rest)"
    unfolding drop unfolding rest_def rest_set set_filter past list_params_cursor(1) using key by blast
  moreover have "\<not> coll i j" if "coll j i" for i j using weak_order.asym [OF total_weak_order.axioms(1) [OF ord] that] .
  ultimately show ?thesis
    unfolding c_def [symmetric] unfolding rest_def
    by (intro strict_sorted_unique [OF s sorted_wrt_drop [OF s]]) auto
qed

lemma page_eq:
  fixes q :: ListQuery and coll :: "string \<Rightarrow> string \<Rightarrow> bool"
  assumes "ingest_ok d"
  defines "n \<equiv> nat (lp_PageSize (list_params q))" and "rest \<equiv> rest_rows coll d (list_params q)"
  shows "ListResults (\<lambda>p. Inr (SelectBenchmarkResults coll d p)) q =
    svc_bind (svc_map list_item (take n rest)) (\<lambda>items. Inr \<lparr>pg_Results = items,
       pg_NextPageCursor = (if n \<le> length rest then Some (lr_ID (last (take n rest))) else None)\<rparr>)"
proof (cases "svc_map list_item (take n rest)")
  case (Inl e)
  then show ?thesis by (simp add: ListResults_def of_store_def select_rest n_def rest_def)
next
  case (Inr items)
  then obtain page where page: "ListResults (\<lambda>p. Inr (SelectBenchmarkResults coll d p)) q = Inr page" "pg_Results page = items"
    by (simp add: ListResults_def of_store_def select_rest n_def rest_def)
  from page_rows(2) [OF page(1)] page Inr show ?thesis by (simp add: n_def rest_def)
qed

lemma pages_unchanged:
  assumes ord: "total_weak_order coll" and ok: "ingest_ok d" "plain_ids d"
    and "length (rest_rows coll d (list_params q)) < k * nat (lp_PageSize (list_params q))"
  shows "pages coll q (replicate k d) =
    svc_bind (svc_map list_item (rest_rows coll d (list_params q))) (\<lambda>items. Inr (items, True))"
  using assms(4)
proof (induction k arbitrary: q)
  case (Suc k)
  define n where "n = nat (lp_PageSize (list_params q))"
  define rest where "rest = rest_rows coll d (list_params q)"
  note page = page_eq [OF ok(1), of coll q, folded n_def rest_def]
  show ?case
  proof (cases "n \<le> length rest")
    case False
    then show ?thesis unfolding rest_def [symmetric] by (simp add: page svc_bind_assoc)
  next
    case True
    define q' where "q' = q\<lparr>lq_Cursor := lr_ID (last (take n rest))\<rparr>"
    have rest': "rest_rows coll d (list_params q') = drop n rest"
      unfolding q'_def n_def rest_def by (rule rest_next [OF ord ok True [unfolded n_def rest_def]])
    have size: "nat (lp_PageSize (list_params q')) = n" by (simp add: q'_def n_def list_params_cursor)
    have "length (drop n rest) < k * n" using Suc.prems True by (simp add: n_def rest_def)
    then have IH: "pages coll q' (replicate k d) = svc_bind (svc_map list_item (drop n rest)) (\<lambda>items. Inr (items, True))"
      using Suc.IH [of q'] unfolding rest' size by simp
    have "svc_map list_item rest = svc_bind (svc_map list_item (take n rest)) (\<lambda>us.
        svc_bind (svc_map list_item (drop n rest)) (\<lambda>vs. Inr (us @ vs)))"
      by (metis append_take_drop_id svc_map_append)
    then show ?thesis
      unfolding rest_def [symmetric] using True
      by (simp add: page svc_bind_assoc q'_def [symmetric] IH)
  qed
qed simp

text \<open>
  Paging loses nothing: on a database nobody changes, a client that follows the cursors
  gets, after at most one page more than there are full ones, exactly the list an unlimited
  query would give, or the error of the first row that cannot be shown.
\<close>

theorem ListResults_all:
  assumes "total_weak_order coll" "ingest_ok d" "plain_ids d" "lq_Cursor q = []"
    and "length (filter (list_filter (list_params q)) (in_results d)) < k * nat (lp_PageSize (list_params q))"
  shows "pages coll q (replicate k d) =
    svc_bind (svc_map list_item (all_rows coll d (list_params q))) (\<lambda>items. Inr (items, True))"
proof -
  have "after_cursor coll (list_params q) r" for r using assms(4) by (simp add: after_cursor_def list_params_def Let_def)
  then have rest: "rest_rows coll d (list_params q) = all_rows coll d (list_params q)" by (simp add: rest_rows_def all_rows_def)
  have "length (all_rows coll d (list_params q)) = length (filter (list_filter (list_params q)) (in_results d))"
    using map_filter_ids [OF assms(2), of "filter (list_filter (list_params q)) (in_results d)"]
    by (simp add: all_rows_def) (metis filter_is_subset length_map)
  then show ?thesis using pages_unchanged [OF assms(1-3), of q k] assms(5) by (simp add: rest)
qed

section \<open>Recent runs\<close>

lemma take_sorted_newest:
  assumes "weak_order lt" "x \<in> set xs" "x \<notin> set (take n (stable_sort lt xs))"
  shows "length (take n (stable_sort lt xs)) = n" "y \<in> set (take n (stable_sort lt xs)) \<Longrightarrow> \<not> lt x y"
proof -
  let ?s = "stable_sort lt xs"
  have "x \<in> set ?s" using assms(2) by simp
  then have x: "x \<in> set (drop n ?s)" using assms(3) by (metis Un_iff append_take_drop_id set_append)
  then show "length (take n ?s) = n" by (cases "n \<le> length ?s") auto
  have "sorted_wrt (\<lambda>a b. \<not> lt b a) (take n ?s @ drop n ?s)"
    using weak_order.sort_sorted [OF assms(1), of xs] by simp
  then show "\<not> lt x y" if "y \<in> set (take n ?s)" using x that by (simp only: sorted_wrt_append) blast
qed

lemma latest_first_weak: "total_weak_order coll \<Longrightarrow> weak_order (latest_first coll t k)"
  unfolding total_weak_order_def weak_order_def latest_first_def by (metis less_asym less_linear order.strict_trans)

definition repo_runs :: "ingest_db \<Rightarrow> string ptr \<Rightarrow> string set" where
  "repo_runs d repo = ir_RunID ` {r \<in> set (in_results d). in_repository repo r}"

lemma run_results_nonempty: "run \<in> repo_runs d repo \<longleftrightarrow> run_results d repo run \<noteq> []"
  by (auto simp: repo_runs_def run_results_def filter_empty_conv)

lemma candidate_all:
  assumes "int (length (in_results d)) \<le> np_CandidateResultCount p"
  shows "set (candidate_rows coll d p) = set (in_results d)"
  using assms by (simp add: candidate_rows_def)

text \<open>The run and its last time, for every run of the query's candidates.\<close>

lemma selected_runs_eq:
  assumes "int (length (in_results d)) \<le> np_CandidateResultCount p"
  obtains xs where "selected_runs coll d p = take (nat (np_PageSize p)) (stable_sort (latest_first coll snd fst) xs)"
    "set xs = (\<lambda>run. (run, max_time (run_results d (np_Repository p) run))) ` repo_runs d (np_Repository p)"
proof -
  define cs where "cs = filter (in_repository (np_Repository p)) (candidate_rows coll d p)"
  have cs: "set cs = {r \<in> set (in_results d). in_repository (np_Repository p) r}"
    using candidate_all [OF assms, of coll] by (auto simp: cs_def)
  have "max_time (filter (\<lambda>r. ir_RunID r = run) cs) = max_time (run_results d (np_Repository p) run)" for run
    unfolding max_time_def run_results_def using cs by (intro arg_cong [where f = "\<lambda>A. linorder_class.Max (ir_Timestamp ` A)"]) auto
  then show thesis
    using cs by (intro that [of "map (\<lambda>run. (run, max_time (filter (\<lambda>r. ir_RunID r = run) cs))) (remdups (map ir_RunID cs))"])
      (auto simp: selected_runs_def cs_def [symmetric] Let_def repo_runs_def)
qed

lemma recent_row_simps:
  "nr_RunID (recent_row coll d repo run) = run"
  "nr_LastResultAt (recent_row coll d repo run) = max_time (run_results d repo run)"
  "nr_FirstResultAt (recent_row coll d repo run) = min_time (run_results d repo run)"
  "nr_ResultCount (recent_row coll d repo run) = length (run_results d repo run)"
  "nr_ErrorCount (recent_row coll d repo run) = length (filter (\<lambda>r. ir_Error r \<noteq> None) (run_results d repo run))"
  by (simp_all add: recent_row_def Let_def)

lemma max_time_in: "rs \<noteq> [] \<Longrightarrow> r \<in> set rs \<Longrightarrow> ir_Timestamp r \<le> max_time rs"
  by (simp add: max_time_def)

lemma latest_result:
  assumes ord: "total_weak_order coll" and "run_results d repo run \<noteq> []"
  obtains r where "r \<in> set (run_results d repo run)" "ir_ID r = nr_LatestResultID (recent_row coll d repo run)"
    "ir_Timestamp r = max_time (run_results d repo run)"
proof -
  let ?rs = "run_results d repo run"
  note w = latest_first_weak [OF ord, of ir_Timestamp ir_ID]
  define r where "r = hd (stable_sort (latest_first coll ir_Timestamp ir_ID) ?rs)"
  have r: "r \<in> set ?rs" unfolding r_def using assms(2) by (metis hd_in_set set_stable_sort stable_sort_eq_Nil)
  moreover have "ir_Timestamp s \<le> ir_Timestamp r" if "s \<in> set ?rs" for s
    using weak_order.sort_hd_least [OF w that] by (simp add: r_def latest_first_def not_less)
  then have "ir_Timestamp r = max_time ?rs"
    unfolding max_time_def using r by (intro Max_eqI [symmetric]) auto
  moreover have "ir_ID r = nr_LatestResultID (recent_row coll d repo run)" by (simp add: recent_row_def Let_def r_def)
  ultimately show thesis by (intro that)
qed


section \<open>Examples\<close>

definition demo_listed :: "string \<Rightarrow> string \<Rightarrow> time \<Rightarrow> BenchmarkResult" where
  "demo_listed i run t = result_of i
     \<lparr>ir_CaseID = ''case'', ir_ContextID = ''ctx'', ir_InfoID = ''info'', ir_HardwareID = ''hw'', ir_RunID = run,
      ir_RunTags = JObj [], ir_RunReason = None, ir_CommitID = None, ir_CommitRepoUrl = ''r'', ir_HistoryFingerprint = ''f'',
      ir_Timestamp = t, ir_Unit = Some ''s'', ir_TimeUnit = None, ir_BatchID = None, ir_Iterations = None, ir_Error = None,
      ir_Data = Some [Some (Fin 1)], ir_Times = None,
      ir_Aggs = \<lparr>ac_Mean = None, ac_Min = None, ac_Max = None, ac_Median = None, ac_Q1 = None, ac_Q3 = None,
        ac_Stdev = None, ac_Iqr = None\<rparr>,
      ir_Validation = None, ir_OptionalBenchmarkInfo = None, ir_ChangeAnnotations = None, ir_SubmissionKey = None,
      ir_SubmissionPayloadSHA256 = None\<rparr>"

definition demo_lists :: "BenchmarkResult list \<Rightarrow> ingest_db" where
  "demo_lists rs = \<lparr>in_cases = [\<lparr>case_id = ''case'', case_name = ''n'', case_tags = JObj []\<rparr>],
     in_contexts = [\<lparr>tags_id = ''ctx'', tags_value = JObj []\<rparr>], in_infos = [\<lparr>tags_id = ''info'', tags_value = JObj []\<rparr>],
     in_hardware = [hardware_of ''hw'' \<lparr>hw_Type = ''machine'', hw_Name = ''m'', hw_Hash = ''h'', hw_ArchitectureName = None,
       hw_KernelName = None, hw_OsName = None, hw_OsVersion = None, hw_CpuModelName = None, hw_CpuL1dCacheBytes = None,
       hw_CpuL1iCacheBytes = None, hw_CpuL2CacheBytes = None, hw_CpuL3CacheBytes = None, hw_CpuCoreCount = None,
       hw_CpuThreadCount = None, hw_CpuFrequencyMaxHz = None, hw_MemoryBytes = None, hw_GpuCount = None,
       hw_GpuProductNames = None, hw_Info = None, hw_OptionalInfo = None\<rparr>],
     in_commits = [], in_results = rs\<rparr>"

definition demo_three :: ingest_db where
  "demo_three = demo_lists [demo_listed ''a'' ''r1'' 1, demo_listed ''b'' ''r1'' 2, demo_listed ''c'' ''r2'' 5]"

definition demo_one :: ingest_db where
  "demo_one = demo_lists [demo_listed ''b'' ''r1'' 2]"

definition demo_list_query :: ListQuery where
  "demo_list_query = \<lparr>lq_RunID = [], lq_BatchID = [], lq_RunReason = [], lq_Earliest = None, lq_Latest = None,
     lq_Cursor = [], lq_PageSize = 1\<rparr>"

lemma demo_lists_ok: "ingest_ok demo_three \<and> plain_ids demo_three" "ingest_ok demo_one \<and> plain_ids demo_one"
  by (simp_all add: demo_three_def demo_one_def demo_lists_def demo_listed_def ingest_ok_def case_table.uniq_def
      context_table.uniq_def commit_table.uniq_def keys_ok_def plain_ids_def submission_check_def references_def
      result_of_def hardware_of_def InsertBenchmarkResultParams.defs InsertHardwareParams.defs)

lemma demo_walk: "(case pages byte_collation demo_list_query [demo_three, demo_one, demo_one] of
    Inr (items, done) \<Rightarrow> map li_ID items = [''c'', ''b''] \<and> done | Inl _ \<Rightarrow> False)"
  by code_simp

theorem ListResults_walk_witness:
  "\<exists>items. pages byte_collation demo_list_query [demo_three, demo_one, demo_one] = Inr (items, True) \<and>
     distinct (map li_ID items) \<and> ''b'' \<in> li_ID ` set items"
proof -
  obtain items where items: "pages byte_collation demo_list_query [demo_three, demo_one, demo_one] = Inr (items, True)"
    using demo_walk by (auto split: sum.splits)
  have "asked demo_list_query d ''b''" if "d \<in> {demo_three, demo_one}" for d
    using that by (auto simp: asked_def demo_three_def demo_one_def demo_lists_def demo_listed_def result_of_def
        InsertBenchmarkResultParams.defs list_filter_def list_params_def demo_list_query_def)
  with ListResults_walk [OF byte_order.total_weak_order_axioms _ _ items] demo_lists_ok show ?thesis
    using items by (auto simp: demo_list_query_def)
qed

theorem ListResults_all_witness:
  "(case pages byte_collation demo_list_query (replicate 4 demo_three) of
     Inr (items, done) \<Rightarrow> map li_ID items = [''c'', ''b'', ''a''] \<and> done | Inl _ \<Rightarrow> False)"
proof -
  have all: "(case svc_map list_item (all_rows byte_collation demo_three (list_params demo_list_query)) of
      Inr items \<Rightarrow> map li_ID items = [''c'', ''b'', ''a''] | Inl _ \<Rightarrow> False)" by code_simp
  have "length (filter (list_filter (list_params demo_list_query)) (in_results demo_three)) < 4 * nat (lp_PageSize (list_params demo_list_query))"
    by code_simp
  then have "pages byte_collation demo_list_query (replicate 4 demo_three) =
      svc_bind (svc_map list_item (all_rows byte_collation demo_three (list_params demo_list_query))) (\<lambda>items. Inr (items, True))"
    using ListResults_all [OF byte_order.total_weak_order_axioms, of demo_three demo_list_query 4] demo_lists_ok(1)
    by (simp add: demo_list_query_def)
  with all show ?thesis by (auto split: sum.splits)
qed


end
