(* ===== verification/SeriesProps.thy ===== *)
theory SeriesProps
  imports SeriesList ListingProps
begin

text \<open>
  The pages of the series list. A page query that applies the cursor to the finished rows
  keeps the contract \<open>keyset_query\<close>: walking its pages lists every row once. The complete
  search keeps it; the query for one fingerprint does not.
\<close>

section \<open>The contract of a page query\<close>

definition row_key :: "SeriesPageRow \<Rightarrow> time \<times> string" where
  "row_key row = (sw_LatestCommitTimestamp row, sw_HistoryFingerprint row)"

definition key_below :: "(string \<Rightarrow> string \<Rightarrow> bool) \<Rightarrow> time \<times> string \<Rightarrow> time \<times> string \<Rightarrow> bool" where
  "key_below coll a b \<longleftrightarrow> fst a < fst b \<or> fst a = fst b \<and> coll (snd a) (snd b)"

lemma key_below_order: "total_weak_order coll \<Longrightarrow> total_weak_order (key_below coll)"
  unfolding total_weak_order_def total_weak_order_axioms_def weak_order_def key_below_def
  by (auto simp: prod_eq_iff) (metis less_linear | meson order.strict_trans less_asym)+

lemma row_order: "latest_first coll sw_LatestCommitTimestamp sw_HistoryFingerprint = (\<lambda>a b. key_below coll (row_key b) (row_key a))"
  by (simp add: latest_first_def key_below_def row_key_def fun_eq_iff) metis

text \<open>The filters of a request: all of it but the cursor and the page size.\<close>

definition filters :: "SeriesListParams \<Rightarrow> SeriesListParams" where
  "filters p = p\<lparr>slp_CursorTs := None, slp_CursorFp := None, slp_PageSize := 0\<rparr>"

definition at_cursor :: "SeriesListParams \<Rightarrow> SeriesCursor \<Rightarrow> SeriesListParams" where
  "at_cursor q c = q\<lparr>slp_CursorTs := Some (sc_Ts c), slp_CursorFp := Some (sc_Fp c)\<rparr>"

lemma filters_simps [simp]: "filters (at_cursor q c) = filters q" "filters (with_page_size q) = filters q"
  "slp_PageSize (with_page_size (at_cursor q c)) = slp_PageSize (with_page_size q)"
  by (simp_all add: filters_def at_cursor_def with_page_size_def)

text \<open>A client that follows the cursors of the list.\<close>

fun series_pages ::
  "(SeriesListParams \<Rightarrow> SeriesPageRow list result) \<Rightarrow> (string list \<Rightarrow> HistoryRow list result) \<Rightarrow> SeriesListParams \<Rightarrow> nat \<Rightarrow>
   (SeriesListItem list \<times> bool) svc" where
  "series_pages page members q 0 = Inr ([], False)"
| "series_pages page members q (Suc k) =
     svc_bind (ListSeries page members q) (\<lambda>r. case sl_NextCursor r of
        None \<Rightarrow> Inr (sl_Series r, True)
      | Some c \<Rightarrow> svc_bind (series_pages page members (at_cursor q c) k) (\<lambda>(items, fin). Inr (sl_Series r @ items, fin)))"

definition item_key :: "SeriesListItem \<Rightarrow> time \<times> string" where
  "item_key i = (se_LatestCommitTimestamp i, se_HistoryFingerprint i)"

lemma seriesListItem_key: "seriesListItem row ms = Inr i \<Longrightarrow> item_key i = row_key row \<and> se_LatestResultID i = sw_LatestResultID row"
  by (cases "seriesIdentityUnit ms"; cases "latestSeriesSVS (sw_LatestUnit row) (sw_LatestData row)")
     (auto simp: seriesListItem_def svc_bind_Inr_iff item_key_def row_key_def Let_def)

lemma series_size: "0 < slp_PageSize (with_page_size q)"
  using clamp_page_bounds [of listPageSizeDefault listPageSizeMax "slp_PageSize q"]
  by (simp add: with_page_size_def listPageSizeDefault_def listPageSizeMax_def)

lemma scan_rows_Inr: "scan_rows f rows = Inr rows' \<Longrightarrow> rows' = rows"
  by (simp add: scan_rows_def split: if_splits)

text \<open>The rows a request has not listed yet, in the order of the list.\<close>

definition remaining_rows :: "(string \<Rightarrow> string \<Rightarrow> bool) \<Rightarrow> SeriesPageRow list \<Rightarrow> SeriesListParams \<Rightarrow> SeriesPageRow list" where
  "remaining_rows coll rows q = stable_sort (\<lambda>a b. key_below coll (row_key b) (row_key a))
     (filter (\<lambda>row. below_cursor coll q (row_key row)) rows)"

locale keyset_query =
  fixes coll :: "string \<Rightarrow> string \<Rightarrow> bool" and page :: "SeriesListParams \<Rightarrow> SeriesPageRow list result"
    and f :: SeriesListParams and rows :: "SeriesPageRow list"
  assumes keys: "distinct (map sw_HistoryFingerprint rows)"
    and page: "filters p = f \<Longrightarrow>
      page p = page_of coll (slp_PageSize p) (filter (\<lambda>row. below_cursor coll p (row_key row)) rows)"
begin

lemma remaining_sorted:
  assumes "total_weak_order coll"
  shows "sorted_wrt (\<lambda>a b. key_below coll (row_key b) (row_key a)) (remaining_rows coll rows q)"
proof -
  have "distinct (map row_key rows)" using keys by (simp add: distinct_map inj_on_def row_key_def)
  then have "distinct (map row_key (filter (\<lambda>row. below_cursor coll q (row_key row)) rows))" by (rule distinct_map_filter)
  then show ?thesis unfolding remaining_rows_def by (rule total_weak_order.strict_sort [OF key_below_order [OF assms]])
qed

lemma page_result:
  assumes "filters q = f" "ListSeries page members q = Inr r"
  defines "n \<equiv> nat (slp_PageSize (with_page_size q))"
  shows "map (\<lambda>i. (item_key i, se_LatestResultID i)) (sl_Series r) = map (\<lambda>row. (row_key row, sw_LatestResultID row)) (take n (remaining_rows coll rows q))"
    "sl_NextCursor r = (if n \<le> length (remaining_rows coll rows q) then
       (let row = last (take n (remaining_rows coll rows q)) in Some \<lparr>sc_Ts = sw_LatestCommitTimestamp row, sc_Fp = sw_HistoryFingerprint row\<rparr>) else None)"
proof -
  have below: "below_cursor coll (with_page_size q) = below_cursor coll q"
    by (simp add: below_cursor_def with_page_size_def fun_eq_iff split: option.split)
  have "page (with_page_size q) = scan_rows sw_LatestData (take n (remaining_rows coll rows q))"
    using assms(1) by (simp add: page page_of_def row_order remaining_rows_def below n_def)
  with assms(2) obtain rs ms where rs: "rs = take n (remaining_rows coll rows q)"
    and items: "svc_map (\<lambda>row. seriesListItem row (groupMembersByFingerprint ms (sw_HistoryFingerprint row))) rs = Inr (sl_Series r)"
    and cursor: "sl_NextCursor r = (if int (length (sl_Series r)) = slp_PageSize (with_page_size q)
            then Some \<lparr>sc_Ts = sw_LatestCommitTimestamp (last rs), sc_Fp = sw_HistoryFingerprint (last rs)\<rparr> else None)"
    by (auto simp: ListSeries_def svc_bind_Inr_iff of_store_def dest!: scan_rows_Inr split: sum.splits)
  have all: "list_all2 (\<lambda>row i. item_key i = row_key row \<and> se_LatestResultID i = sw_LatestResultID row) rs (sl_Series r)"
    using items [unfolded svc_map_Inr] by (rule list_all2_mono) (rule seriesListItem_key)
  then show "map (\<lambda>i. (item_key i, se_LatestResultID i)) (sl_Series r) = map (\<lambda>row. (row_key row, sw_LatestResultID row)) (take n (remaining_rows coll rows q))"
    unfolding rs [symmetric] by (induction rule: list_all2_induct) auto
  have "length (sl_Series r) = min n (length (remaining_rows coll rows q))" using list_all2_lengthD [OF all] by (simp add: rs)
  then have "int (length (sl_Series r)) = slp_PageSize (with_page_size q) \<longleftrightarrow> n \<le> length (remaining_rows coll rows q)"
    using series_size [of q] by (auto simp: n_def)
  with cursor show "sl_NextCursor r = (if n \<le> length (remaining_rows coll rows q) then
       (let row = last (take n (remaining_rows coll rows q)) in Some \<lparr>sc_Ts = sw_LatestCommitTimestamp row, sc_Fp = sw_HistoryFingerprint row\<rparr>) else None)"
    by (simp add: rs Let_def)
qed

lemma remaining_next:
  assumes ord: "total_weak_order coll" and "0 < n" "n \<le> length (remaining_rows coll rows q)"
  shows "remaining_rows coll rows (at_cursor q \<lparr>sc_Ts = sw_LatestCommitTimestamp (last (take n (remaining_rows coll rows q))),
      sc_Fp = sw_HistoryFingerprint (last (take n (remaining_rows coll rows q)))\<rparr>) = drop n (remaining_rows coll rows q)"
proof -
  define z where "z = last (take n (remaining_rows coll rows q))"
  let ?q = "at_cursor q \<lparr>sc_Ts = sw_LatestCommitTimestamp z, sc_Fp = sw_HistoryFingerprint z\<rparr>"
  note o = key_below_order [OF ord]
  have "z \<in> set (remaining_rows coll rows q)" unfolding z_def using assms(2,3) by (metis in_set_takeD last_in_set length_greater_0_conv length_take min.absorb2 take_eq_Nil not_le)
  then have z: "below_cursor coll q (row_key z)" by (simp add: remaining_rows_def)
  have cursor: "below_cursor coll ?q k \<longleftrightarrow> key_below coll k (row_key z)" for k
    by (simp add: below_cursor_def at_cursor_def row_below_def key_below_def row_key_def)
  have past: "below_cursor coll q k" if "key_below coll k (row_key z)" for k
    using z that collation_facts(2) [OF ord, of "snd k" "snd (row_key z)"]
    by (cases "slp_CursorTs q"; cases "slp_CursorFp q") (auto simp: below_cursor_def row_below_def key_below_def)
  have drop: "drop n (remaining_rows coll rows q) = filter (\<lambda>a. key_below coll (row_key a) (row_key z)) (remaining_rows coll rows q)"
    unfolding z_def by (rule total_weak_order.sorted_take_drop [OF o remaining_sorted [OF ord] assms(2,3)])
  have "set (remaining_rows coll rows ?q) = set (drop n (remaining_rows coll rows q))"
    unfolding drop unfolding remaining_rows_def cursor set_stable_sort set_filter using past by blast
  moreover have "\<not> key_below coll (row_key b) (row_key a)" if "key_below coll (row_key a) (row_key b)" for a b
    by (rule weak_order.asym [OF total_weak_order.axioms(1) [OF o] that])
  ultimately show ?thesis
    unfolding z_def [symmetric]
    by (intro strict_sorted_unique [OF remaining_sorted [OF ord] sorted_wrt_drop [OF remaining_sorted [OF ord]]]) auto
qed

text \<open>Walking \<open>k\<close> pages lists the first \<open>k\<close> pages of the rows, and ends when they are all listed.\<close>

lemma walk:
  assumes ord: "total_weak_order coll" and "filters q = f" "series_pages page members q k = Inr (items, fin)"
  defines "n \<equiv> nat (slp_PageSize (with_page_size q))"
  shows "map (\<lambda>i. (item_key i, se_LatestResultID i)) items = map (\<lambda>row. (row_key row, sw_LatestResultID row)) (take (k * n) (remaining_rows coll rows q)) \<and>
    (fin \<longleftrightarrow> length (remaining_rows coll rows q) < k * n)"
  using assms(2,3) unfolding n_def
proof (induction k arbitrary: q items)
  case (Suc k)
  define n where "n = nat (slp_PageSize (with_page_size q))"
  have n: "0 < n" using series_size [of q] by (simp add: n_def)
  obtain r where r: "ListSeries page members q = Inr r"
    and rest: "(case sl_NextCursor r of None \<Rightarrow> Inr (sl_Series r, True)
      | Some c \<Rightarrow> svc_bind (series_pages page members (at_cursor q c) k) (\<lambda>(items, fin). Inr (sl_Series r @ items, fin))) = Inr (items, fin)"
    using Suc.prems(2) by (auto simp: svc_bind_Inr_iff)
  note p = page_result [OF Suc.prems(1) r, folded n_def]
  show ?case
  proof (cases "n \<le> length (remaining_rows coll rows q)")
    case False
    with p rest show ?thesis by (simp add: n_def [symmetric])
  next
    case True
    define c where "c = \<lparr>sc_Ts = sw_LatestCommitTimestamp (last (take n (remaining_rows coll rows q))),
      sc_Fp = sw_HistoryFingerprint (last (take n (remaining_rows coll rows q)))\<rparr>"
    have next_rows: "remaining_rows coll rows (at_cursor q c) = drop n (remaining_rows coll rows q)" unfolding c_def by (rule remaining_next [OF ord n True])
    obtain more where more: "series_pages page members (at_cursor q c) k = Inr (more, fin)" "items = sl_Series r @ more"
      using rest p(2) True by (auto simp: Let_def c_def svc_bind_Inr_iff)
    have IH: "map (\<lambda>i. (item_key i, se_LatestResultID i)) more =
        map (\<lambda>row. (row_key row, sw_LatestResultID row)) (take (k * n) (drop n (remaining_rows coll rows q))) \<and>
        (fin \<longleftrightarrow> length (remaining_rows coll rows q) - n < k * n)"
      using Suc.IH [OF _ more(1)] Suc.prems(1) next_rows by (simp add: n_def)
    have "take (n + k * n) (remaining_rows coll rows q) = take n (remaining_rows coll rows q) @ take (k * n) (drop n (remaining_rows coll rows q))" by (rule take_add)
    with IH p(1) True show ?thesis by (auto simp: more(2) n_def [symmetric])
  qed
qed simp

end

section \<open>The complete search\<close>

definition search_rows :: "(string \<Rightarrow> string \<Rightarrow> bool) \<Rightarrow> ingest_db \<Rightarrow> SeriesListParams \<Rightarrow> string list \<Rightarrow> SeriesPageRow list" where
  "search_rows coll d p ids = List.map_filter (series_row d) (latest_members coll (q_members d p ids))"

lemma filters_eqD:
  assumes "filters p = filters q"
  shows "slp_Fingerprint p = slp_Fingerprint q" "slp_Q p = slp_Q q" "slp_Repository p = slp_Repository q"
    "slp_Hardware p = slp_Hardware q" "slp_ActiveSince p = slp_ActiveSince q" "slp_ActiveUntil p = slp_ActiveUntil q"
  using arg_cong [OF assms, of slp_Fingerprint] arg_cong [OF assms, of slp_Q] arg_cong [OF assms, of slp_Repository]
    arg_cong [OF assms, of slp_Hardware] arg_cong [OF assms, of slp_ActiveSince] arg_cong [OF assms, of slp_ActiveUntil]
  by (simp_all add: filters_def)

lemma hd_sort_in: "xs \<noteq> [] \<Longrightarrow> hd (stable_sort lt xs) \<in> set xs"
  by (metis hd_in_set set_stable_sort stable_sort_eq_Nil)

lemma latest_members_fp: "map m_fp (latest_members coll ms) = remdups (map m_fp ms)"
proof -
  have "m_fp (hd (stable_sort (latest_first coll m_ts m_id) (filter (\<lambda>m. m_fp m = fp) ms))) = fp" if "fp \<in> set (map m_fp ms)" for fp
  proof -
    have "filter (\<lambda>m. m_fp m = fp) ms \<noteq> []" using that by (auto simp: filter_empty_conv)
    from hd_sort_in [OF this] show ?thesis by simp
  qed
  then have "map (\<lambda>fp. m_fp (hd (stable_sort (latest_first coll m_ts m_id) (filter (\<lambda>m. m_fp m = fp) ms)))) (remdups (map m_fp ms)) =
      remdups (map m_fp ms)" by (intro map_idI) (simp only: set_remdups)
  then show ?thesis by (simp add: latest_members_def comp_def)
qed

lemma latest_members_latest:
  assumes "total_weak_order coll" "m \<in> set (latest_members coll ms)"
  shows "m \<in> set ms \<and> (\<forall>m' \<in> set ms. m_fp m' = m_fp m \<longrightarrow> m_ts m' \<le> m_ts m)"
proof -
  from assms(2) obtain fp where fp: "fp \<in> set (map m_fp ms)"
    and m: "m = hd (stable_sort (latest_first coll m_ts m_id) (filter (\<lambda>m. m_fp m = fp) ms))"
    by (auto simp: latest_members_def)
  let ?g = "filter (\<lambda>m. m_fp m = fp) ms"
  have "?g \<noteq> []" using fp by (auto simp: filter_empty_conv)
  from hd_sort_in [OF this] have g: "m \<in> set ms" "m_fp m = fp" by (auto simp: m)
  have "m_ts m' \<le> m_ts m" if "m' \<in> set ms" "m_fp m' = fp" for m'
    using weak_order.sort_hd_least [OF latest_first_weak [OF assms(1)], of m' ?g m_ts m_id] that
    by (auto simp: m [symmetric] latest_first_def)
  with g show ?thesis by auto
qed

lemma series_row_simps:
  "series_row d m = Some row \<Longrightarrow> sw_HistoryFingerprint row = m_fp m \<and> sw_LatestResultID row = m_id m \<and> sw_LatestCommitTimestamp row = m_ts m"
  by (auto simp: series_row_def Let_def split: option.splits)

lemma search_rows_distinct: "distinct (map sw_HistoryFingerprint (search_rows coll d p ids))"
proof -
  have "distinct (map sw_HistoryFingerprint (List.map_filter (series_row d) ms))" if "distinct (map m_fp ms)" for ms
    using that
  proof (induction ms)
    case (Cons m ms)
    have later: "sw_HistoryFingerprint y \<in> m_fp ` set ms" if "y \<in> set (List.map_filter (series_row d) ms)" for y
    proof -
      from that obtain m' where "m' \<in> set ms" "series_row d m' = Some y" by (auto simp: List.map_filter_def)
      with series_row_simps [of d m' y] show ?thesis by (intro rev_image_eqI [of m']) auto
    qed
    show ?case
    proof (cases "series_row d m")
      case (Some row)
      have "sw_HistoryFingerprint row \<notin> m_fp ` set ms" using Cons.prems series_row_simps [OF Some] by simp
      then have "sw_HistoryFingerprint row \<notin> set (map sw_HistoryFingerprint (List.map_filter (series_row d) ms))"
        using later by (metis (no_types, lifting) imageE set_map)
      then show ?thesis using Cons by (simp add: map_filter_simps Some)
    qed (use Cons in \<open>simp add: map_filter_simps\<close>)
  qed (simp add: map_filter_simps)
  then show ?thesis by (simp add: search_rows_def latest_members_fp)
qed

interpretation q_search: keyset_query coll "\<lambda>p. SelectSeriesPageForQCaseIDs coll d p ids" "filters q" "search_rows coll d q ids"
  for coll d ids q
proof
  show "distinct (map sw_HistoryFingerprint (search_rows coll d q ids))" by (rule search_rows_distinct)
  show "SelectSeriesPageForQCaseIDs coll d p ids =
      page_of coll (slp_PageSize p) (filter (\<lambda>row. below_cursor coll p (row_key row)) (search_rows coll d q ids))"
    if "filters p = filters q" for p
  proof -
    have "q_members d p ids = q_members d q ids" using filters_eqD [OF that] by (simp add: q_members_def)
    then show ?thesis by (simp add: SelectSeriesPageForQCaseIDs_def search_rows_def row_key_def)
  qed
qed

lemma series_pages_cong:
  assumes "\<And>p. filters p = filters q \<Longrightarrow> page p = page' p"
  shows "series_pages page members q k = series_pages page' members q k"
  using assms
proof (induction k arbitrary: q)
  case (Suc k)
  have "ListSeries page members q = ListSeries page' members q" by (simp add: ListSeries_def Suc.prems)
  moreover have "series_pages page members (at_cursor q c) k = series_pages page' members (at_cursor q c) k" for c
    by (rule Suc.IH) (simp add: Suc.prems)
  ultimately show ?case by (simp cong: option.case_cong)
qed simp

text \<open>In a store that keeps its references every member is a row of the list.\<close>

lemma by_id_found: "i \<in> rid ` set t \<Longrightarrow> by_id rid i t \<noteq> None"
  unfolding by_id_def find_None_iff by auto

lemma q_members_all: "m \<in> set (q_members d q ids) \<Longrightarrow> fst m \<in> set (in_results d)"
  by (auto simp: q_members_def all_members_def List.map_filter_def member_row_def split: option.splits if_splits)

lemma series_row_found:
  assumes "ingest_ok d" "fst m \<in> set (in_results d)"
  shows "series_row d m \<noteq> None"
proof -
  have "references (fst m) d" using assms by (simp add: ingest_ok_def)
  then have "by_id case_id (ir_CaseID (fst m)) (in_cases d) \<noteq> None" "by_id tags_id (ir_ContextID (fst m)) (in_contexts d) \<noteq> None"
    "by_id hw_ID (ir_HardwareID (fst m)) (in_hardware d) \<noteq> None"
    unfolding references_def by (simp_all add: by_id_found)
  then show ?thesis by (auto simp: series_row_def Let_def)
qed

lemma search_rows_all:
  assumes "ingest_ok d"
  shows "search_rows coll d q ids = map (\<lambda>m. the (series_row d m)) (latest_members coll (q_members d q ids))"
proof -
  have found: "series_row d m \<noteq> None" if "m \<in> set (latest_members coll (q_members d q ids))" for m
  proof -
    have "m_fp m \<in> set (map m_fp (latest_members coll (q_members d q ids)))" using that by simp
    have "m \<in> set (q_members d q ids)"
      using that hd_sort_in [of "filter (\<lambda>m. m_fp m = _) (q_members d q ids)"]
      by (fastforce simp: latest_members_def filter_empty_conv)
    with series_row_found [OF assms] q_members_all show ?thesis by blast
  qed
  have "List.map_filter (series_row d) xs = map (\<lambda>m. the (series_row d m)) xs" if "\<forall>m \<in> set xs. series_row d m \<noteq> None" for xs
    using that by (induction xs) (auto simp: map_filter_simps)
  with found show ?thesis by (simp add: search_rows_def)
qed

text \<open>
  C33: Complete search (ListSeries, SelectSeriesPageForQCaseIDs): a client that walks the cursors of a
  text search whose case ids are searched completely gets every matching series at most once, newest
  first, each with its latest matching result; the walk ends exactly when the pages asked for exceed
  the number of matching series, and then has listed all of them.
\<close>

theorem ListSeries_search:
  assumes ord: "total_weak_order coll" and ok: "ingest_ok d"
    and q: "slp_Fingerprint q = None" "slp_Q q = Some s" "s \<noteq> []" "slp_CursorTs q = None"
    and ids: "ids = SelectSeriesCaseIDsForQ pg coll d s" "ids \<noteq> []"
      "length ids \<le> seriesQCompleteCaseLimit \<or> seriesQNeedsCompleteSearch q"
    and walk: "series_pages (SeriesPage pg coll d) members q k = Inr (items, fin)"
  shows "distinct (map se_HistoryFingerprint items) \<and>
    sorted_wrt (\<lambda>a b. key_below coll (item_key b) (item_key a)) items \<and>
    (\<forall>i \<in> set items. \<exists>m \<in> set (q_members d q ids). m_fp m = se_HistoryFingerprint i \<and> m_id m = se_LatestResultID i \<and>
       m_ts m = se_LatestCommitTimestamp i \<and> (\<forall>m' \<in> set (q_members d q ids). m_fp m' = m_fp m \<longrightarrow> m_ts m' \<le> m_ts m)) \<and>
    fin = (card (m_fp ` set (q_members d q ids)) < k * nat (slp_PageSize (with_page_size q))) \<and>
    (fin \<longrightarrow> se_HistoryFingerprint ` set items = m_fp ` set (q_members d q ids))"
proof -
  let ?n = "nat (slp_PageSize (with_page_size q))" and ?ms = "q_members d q ids"
  let ?rows = "search_rows coll d q ids"
  let ?rem = "remaining_rows coll ?rows q"
  have page: "SeriesPage pg coll d p = SelectSeriesPageForQCaseIDs coll d p ids" if "filters p = filters q" for p
  proof -
    have "seriesQNeedsCompleteSearch p = seriesQNeedsCompleteSearch q"
      using filters_eqD [OF that] by (simp add: seriesQNeedsCompleteSearch_def)
    then show ?thesis using filters_eqD [OF that] q ids by (simp add: SeriesPage_def SelectSeriesPage_def Let_def)
  qed
  have "series_pages (\<lambda>p. SelectSeriesPageForQCaseIDs coll d p ids) members q k = Inr (items, fin)"
    using walk series_pages_cong [of q "SeriesPage pg coll d", OF page, of members k] by simp
  from q_search.walk [OF ord refl this]
  have keys: "map (\<lambda>i. (item_key i, se_LatestResultID i)) items = map (\<lambda>row. (row_key row, sw_LatestResultID row)) (take (k * ?n) ?rem)"
    and fin: "fin \<longleftrightarrow> length ?rem < k * ?n" by auto
  have rem: "set ?rem = set ?rows" and len: "length ?rem = length ?rows"
    using q(4) by (simp_all add: remaining_rows_def below_cursor_def)
  have map_key: "map (g \<circ> item_key) items = map (g \<circ> row_key) (take (k * ?n) ?rem)" for g :: "_ \<Rightarrow> 'z"
    using arg_cong [OF keys, of "map (g \<circ> fst)"] by (simp add: comp_def)
  have fps: "map se_HistoryFingerprint items = map sw_HistoryFingerprint (take (k * ?n) ?rem)"
    using map_key [of snd] by (simp add: comp_def item_key_def row_key_def)
  have rows_fp: "map sw_HistoryFingerprint ?rows = remdups (map m_fp ?ms)"
  proof -
    have "map sw_HistoryFingerprint ?rows = map m_fp (latest_members coll ?ms)"
      unfolding search_rows_all [OF ok] map_map
    proof (rule map_cong [OF refl])
      fix m assume "m \<in> set (latest_members coll ?ms)"
      then have "fst m \<in> set (in_results d)" using latest_members_latest [OF ord] q_members_all by blast
      with series_row_found [OF ok] obtain row where "series_row d m = Some row" by blast
      with series_row_simps [OF this] show "(sw_HistoryFingerprint \<circ> (\<lambda>m. the (series_row d m))) m = m_fp m" by simp
    qed
    then show ?thesis by (simp add: latest_members_fp)
  qed
  have count: "length ?rows = card (m_fp ` set ?ms)"
    using arg_cong [OF rows_fp, of length] by (simp add: length_remdups_card_conv)
  have all: "sw_HistoryFingerprint ` set ?rows = m_fp ` set ?ms" using arg_cong [OF rows_fp, of set] by simp
  have sorted: "sorted_wrt (\<lambda>a b. key_below coll b a) (map row_key (take (k * ?n) ?rem))"
    using sorted_wrt_take [OF q_search.remaining_sorted [OF ord]] by (simp add: sorted_wrt_map)
  then have "sorted_wrt (\<lambda>a b. key_below coll b a) (map item_key items)"
    using map_key [of "\<lambda>x. x"] by (simp add: comp_def)
  moreover have "distinct (map se_HistoryFingerprint items)"
  proof -
    have "distinct (map sw_HistoryFingerprint ?rem)"
      using search_rows_distinct [of coll d q ids] rem len
      by (metis card_distinct distinct_card length_map set_map)
    then show ?thesis unfolding fps by (simp add: take_map [symmetric])
  qed
  moreover have "\<exists>m \<in> set ?ms. m_fp m = se_HistoryFingerprint i \<and> m_id m = se_LatestResultID i \<and>
       m_ts m = se_LatestCommitTimestamp i \<and> (\<forall>m' \<in> set ?ms. m_fp m' = m_fp m \<longrightarrow> m_ts m' \<le> m_ts m)" if "i \<in> set items" for i
  proof -
    have "(item_key i, se_LatestResultID i) \<in> set (map (\<lambda>row. (row_key row, sw_LatestResultID row)) (take (k * ?n) ?rem))"
      unfolding keys [symmetric] using that by simp
    then obtain row where row: "row \<in> set ?rows" "row_key row = item_key i" "sw_LatestResultID row = se_LatestResultID i"
      using in_set_takeD rem by fastforce
    from row(1) obtain m where m: "m \<in> set (latest_members coll ?ms)" "series_row d m = Some row"
      by (auto simp: search_rows_def List.map_filter_def)
    from latest_members_latest [OF ord m(1)] series_row_simps [OF m(2)] row(2,3) show ?thesis
      by (intro bexI [of _ m]) (auto simp: row_key_def item_key_def)
  qed
  moreover have "se_HistoryFingerprint ` set items = m_fp ` set ?ms" if fin
  proof -
    have "take (k * ?n) ?rem = ?rem" using that fin by simp
    with arg_cong [OF fps, of set] rem all show ?thesis by simp
  qed
  ultimately show ?thesis using fin len count by (auto simp: sorted_wrt_map)
qed


text \<open>Two series on two commits, searched by the name of their case, one row a page.\<close>

definition demo_pg :: pg_text where
  "demo_pg = \<lparr>pg_ILIKE = \<lambda>t q. take (length q) t = q, pg_jsonb_text = \<lambda>_. ''{}''\<rparr>"

definition demo_dated :: "string \<Rightarrow> time \<Rightarrow> commit_row" where
  "demo_dated i t = \<lparr>c_id = i, c_sha = i, c_parent = None, c_repository = ''r'', c_message = [], c_author_name = [],
     c_author_login = None, c_author_avatar = None, c_timestamp = Some t, c_branch = None, c_fork_point_sha = Some i\<rparr>"

definition demo_point :: "string \<Rightarrow> string \<Rightarrow> string \<Rightarrow> BenchmarkResult" where
  "demo_point i c fp = (demo_listed i ''run'' 1)\<lparr>ir_CommitID := Some c, ir_HistoryFingerprint := fp\<rparr>"

definition demo_series :: ingest_db where
  "demo_series = (demo_lists [demo_point ''a'' ''c1'' ''f1'', demo_point ''b'' ''c1'' ''f2'', demo_point ''c'' ''c2'' ''f1''])
     \<lparr>in_commits := [demo_dated ''c1'' 1, demo_dated ''c2'' 2]\<rparr>"

definition demo_series_query :: SeriesListParams where
  "demo_series_query = \<lparr>slp_Fingerprint = None, slp_Q = Some ''n'', slp_Repository = None, slp_Hardware = None,
     slp_ActiveSince = None, slp_ActiveUntil = None, slp_CursorTs = None, slp_CursorFp = None, slp_PageSize = 1\<rparr>"

abbreviation demo_series_pages :: "SeriesListParams \<Rightarrow> nat \<Rightarrow> (SeriesListItem list \<times> bool) svc" where
  "demo_series_pages \<equiv> series_pages (SeriesPage demo_pg byte_collation demo_series) (SelectSeriesMembers byte_collation demo_series)"

lemma demo_series_ok: "ingest_ok demo_series"
  by (simp add: demo_series_def demo_point_def demo_dated_def demo_lists_def demo_listed_def ingest_ok_def case_table.uniq_def
      context_table.uniq_def commit_table.uniq_def keys_ok_def submission_check_def references_def
      result_of_def hardware_of_def InsertBenchmarkResultParams.defs InsertHardwareParams.defs commit_key_def)

lemma demo_series_walk: "(case demo_series_pages demo_series_query 3 of
    Inr (items, fin) \<Rightarrow> map (\<lambda>i. (se_HistoryFingerprint i, se_LatestResultID i)) items = [(''f1'', ''c''), (''f2'', ''b'')] \<and> fin
  | Inl _ \<Rightarrow> False)"
  by code_simp

theorem ListSeries_search_witness:
  "\<exists>items. demo_series_pages demo_series_query 3 = Inr (items, True) \<and>
     distinct (map se_HistoryFingerprint items) \<and>
     se_HistoryFingerprint ` set items = m_fp ` set (q_members demo_series demo_series_query [''case''])"
proof -
  obtain items where items: "demo_series_pages demo_series_query 3 = Inr (items, True)"
    using demo_series_walk by (auto split: sum.splits)
  have "SelectSeriesCaseIDsForQ demo_pg byte_collation demo_series ''n'' = [''case'']" by code_simp
  with ListSeries_search [OF byte_order.total_weak_order_axioms demo_series_ok _ _ _ _ _ _ _ items, of "''n''" "[''case'']"] items
  show ?thesis by (simp add: demo_series_query_def seriesQCompleteCaseLimit_def)
qed


end
