(* ===== verification/UrlParse.thy ===== *)
theory UrlParse
  imports Url Encoding
begin

text \<open>
  \<^verbatim>\<open>net/url\<close> as the code uses it: \<^verbatim>\<open>url.Parse\<close>, \<^verbatim>\<open>URL.String\<close>, \<^verbatim>\<open>URL.Hostname\<close>, \<^verbatim>\<open>URL.Query\<close> and
  \<^verbatim>\<open>Values.Encode\<close>. An error is \<open>None\<close>: the callers only ask whether there is one.
\<close>

section \<open>Escaping\<close>

datatype mode = MPath | MSegment | MHost | MZone | MUser | MQuery | MFragment

text \<open>The characters a component may hold as they are (the negation of \<open>shouldEscape\<close>).\<close>

definition marks :: "mode \<Rightarrow> string" where
  "marks m = (case m of
     MHost \<Rightarrow> CHR 0x22 # CHR 0x27 # ''!$&()*+,;=:[]<>''
   | MZone \<Rightarrow> CHR 0x22 # CHR 0x27 # ''!$&()*+,;=:[]<>''
   | MPath \<Rightarrow> ''$&+,/:;=@''
   | MSegment \<Rightarrow> ''$&+:=@''
   | MUser \<Rightarrow> ''$&+,;=''
   | MQuery \<Rightarrow> []
   | MFragment \<Rightarrow> ''$&+,/:;=?@!()*'')"

definition keep :: "mode \<Rightarrow> char \<Rightarrow> bool" where
  "keep m c \<longleftrightarrow> unreserved c \<or> c \<in> set (marks m)"

definition escape :: "mode \<Rightarrow> string \<Rightarrow> string" where
  "escape m s = concat (map (\<lambda>c. if keep m c then [c] else if m = MQuery \<and> c = CHR '' '' then ''+'' else pct c) s)"

definition unhex :: "char \<Rightarrow> nat option" where
  "unhex c = (let n = byte c in
     if 48 \<le> n \<and> n \<le> 57 then Some (n - 48) else if 97 \<le> n \<and> n \<le> 102 then Some (n - 87)
     else if 65 \<le> n \<and> n \<le> 70 then Some (n - 55) else None)"

fun unescape :: "mode \<Rightarrow> string \<Rightarrow> string option" where
  "unescape m [] = Some []"
| "unescape m (c # s) =
     (if c = CHR ''%'' then
        (case s of a # b # r \<Rightarrow>
           (case (unhex a, unhex b) of
              (Some x, Some y) \<Rightarrow>
                (if m = MHost \<and> x < 8 \<and> \<not> (a = CHR ''2'' \<and> b = CHR ''5'') then None
                 else if m = MZone \<and> \<not> (a = CHR ''2'' \<and> b = CHR ''5'') \<and> x * 16 + y \<noteq> 32 \<and> \<not> keep MHost (chr (x * 16 + y)) then None
                 else map_option (Cons (chr (x * 16 + y))) (unescape m r))
            | _ \<Rightarrow> None)
         | _ \<Rightarrow> None)
      else if (m = MHost \<or> m = MZone) \<and> byte c < 0x80 \<and> \<not> keep m c then None
      else map_option (Cons (if m = MQuery \<and> c = CHR ''+'' then CHR '' '' else c)) (unescape m s))"

section \<open>IP literals\<close>

definition is_digit :: "char \<Rightarrow> bool" where "is_digit c \<longleftrightarrow> 48 \<le> byte c \<and> byte c \<le> 57"
definition is_letter :: "char \<Rightarrow> bool" where
  "is_letter c \<longleftrightarrow> 65 \<le> byte c \<and> byte c \<le> 90 \<or> 97 \<le> byte c \<and> byte c \<le> 122"

text \<open>Four decimal fields up to 255 without leading zeros (\<open>netip.parseIPv4Fields\<close>).\<close>

definition ip4_field :: "string \<Rightarrow> bool" where
  "ip4_field f \<longleftrightarrow> f \<noteq> [] \<and> length f \<le> 3 \<and> list_all is_digit f \<and> (hd f = CHR ''0'' \<longrightarrow> length f = 1) \<and>
     foldl (\<lambda>n c. n * 10 + (byte c - 48)) 0 f \<le> 255"

definition valid_ip4 :: "string \<Rightarrow> bool" where
  "valid_ip4 s \<longleftrightarrow> length (str_split (CHR ''.'') s) = 4 \<and> list_all ip4_field (str_split (CHR ''.'') s)"

text \<open>
  The loop of \<open>netip.parseIPv6\<close> over the 16 bytes: \<open>i\<close> bytes are read and \<open>ell\<close> tells whether
  a \<open>::\<close> was seen.
\<close>

fun ip6_loop :: "nat \<Rightarrow> nat \<Rightarrow> bool \<Rightarrow> string \<Rightarrow> bool" where
  "ip6_loop 0 i ell s \<longleftrightarrow> s = [] \<and> (if i < 16 then ell else \<not> ell)"
| "ip6_loop (Suc k) i ell s =
     (if 16 \<le> i then s = [] \<and> \<not> ell
      else
       (let d = takeWhile (\<lambda>c. unhex c \<noteq> None) s; r = dropWhile (\<lambda>c. unhex c \<noteq> None) s in
        if d = [] \<or> 4 < length d then False
        else (case r of
            [] \<Rightarrow> if i + 2 < 16 then ell else \<not> ell
          | c # r' \<Rightarrow>
             (if c = CHR ''.'' then (ell \<or> i = 12) \<and> i + 4 \<le> 16 \<and> valid_ip4 s \<and> (if i + 4 < 16 then ell else \<not> ell)
              else if c \<noteq> CHR '':'' then False
              else (case r' of
                  [] \<Rightarrow> False
                | e # r'' \<Rightarrow>
                   (if e = CHR '':'' then
                      (if ell then False else if r'' = [] then i + 2 < 16 else ip6_loop k (i + 2) True r'')
                    else ip6_loop k (i + 2) ell r'))))))"

text \<open>What \<open>netip.ParseAddr\<close> accepts as an address that is no plain IPv4 address.\<close>

definition valid_ip6 :: "string \<Rightarrow> bool" where
  "valid_ip6 s \<longleftrightarrow>
     (case find (\<lambda>c. c \<in> set ''.:%'') s of Some c \<Rightarrow> c = CHR '':'' | None \<Rightarrow> False) \<and>
     (let (a, zone_ok) = (case str_cut (CHR ''%'') s of None \<Rightarrow> (s, True) | Some (a, zone) \<Rightarrow> (a, zone \<noteq> [])) in
      zone_ok \<and>
      (case cut_prefix a ''::'' of
         Some r \<Rightarrow> r = [] \<or> ip6_loop 9 0 True r
       | None \<Rightarrow> ip6_loop 9 0 False a))"

section \<open>Parse\<close>

record url =
  u_Scheme :: string
  u_Opaque :: string
  u_User :: "(string \<times> string option) option"
  u_Host :: string
  u_Path :: string
  u_RawPath :: string
  u_OmitHost :: bool
  u_ForceQuery :: bool
  u_RawQuery :: string
  u_Fragment :: string
  u_RawFragment :: string

definition no_url :: url where
  "no_url = \<lparr>u_Scheme = [], u_Opaque = [], u_User = None, u_Host = [], u_Path = [], u_RawPath = [], u_OmitHost = False,
     u_ForceQuery = False, u_RawQuery = [], u_Fragment = [], u_RawFragment = []\<rparr>"

text \<open>The characters before a colon, when they make a scheme; a colon at the start is an error.\<close>

fun scheme_from :: "string \<Rightarrow> string \<Rightarrow> string \<Rightarrow> (string \<times> string) option" where
  "scheme_from whole acc [] = Some ([], whole)"
| "scheme_from whole acc (c # r) =
     (if is_letter c then scheme_from whole (acc @ [c]) r
      else if is_digit c \<or> c \<in> set ''+-.'' then (if acc = [] then Some ([], whole) else scheme_from whole (acc @ [c]) r)
      else if c = CHR '':'' then (if acc = [] then None else Some (acc, r))
      else Some ([], whole))"

definition get_scheme :: "string \<Rightarrow> (string \<times> string) option" where
  "get_scheme s = scheme_from s [] s"

definition ascii_lower :: "string \<Rightarrow> string" where
  "ascii_lower s = map (\<lambda>c. if 65 \<le> byte c \<and> byte c \<le> 90 then chr (byte c + 32) else c) s"

text \<open>Cut at the last occurrence.\<close>

definition cut_last :: "char \<Rightarrow> string \<Rightarrow> (string \<times> string) option" where
  "cut_last c s = (case str_cut c (rev s) of None \<Rightarrow> None | Some (b, a) \<Rightarrow> Some (rev a, rev b))"

definition valid_port :: "string \<Rightarrow> bool" where
  "valid_port p \<longleftrightarrow> p = [] \<or> hd p = CHR '':'' \<and> list_all is_digit (tl p)"

text \<open>Cut before \<open>%25\<close>, the start of a zone.\<close>

fun cut_zone :: "string \<Rightarrow> string \<times> string" where
  "cut_zone [] = ([], [])"
| "cut_zone (c # s) = (if has_prefix (c # s) ''%25'' then ([], c # s) else (case cut_zone s of (a, b) \<Rightarrow> (c # a, b)))"

definition parse_host :: "string \<Rightarrow> string \<Rightarrow> string option" where
  "parse_host scheme host =
     (case cut_last (CHR ''['') host of
        Some ([], rest) \<Rightarrow>
          (case cut_last (CHR '']'') rest of
             None \<Rightarrow> None
           | Some (name, port) \<Rightarrow>
               (if \<not> valid_port port then None
                else case (unescape MHost port, unescape MHost (fst (cut_zone name)), unescape MZone (snd (cut_zone name))) of
                  (Some port', Some a, Some z) \<Rightarrow>
                    (if valid_ip6 (a @ z) then Some (''['' @ a @ z @ '']'' @ port') else None)
                | _ \<Rightarrow> None))
      | Some _ \<Rightarrow> None
      | None \<Rightarrow>
          (case str_cut (CHR '':'') host of
             None \<Rightarrow> unescape MHost host
           | Some (_, port) \<Rightarrow>
               (let last_port = (case cut_last (CHR '':'') host of None \<Rightarrow> [] | Some (_, p) \<Rightarrow> p);
                    port = (if scheme = ''http'' \<or> scheme = ''https'' then port else last_port) in
                if valid_port ('':'' @ port) then unescape MHost host else None)))"

definition valid_userinfo :: "string \<Rightarrow> bool" where
  "valid_userinfo s \<longleftrightarrow> list_all (\<lambda>c. is_letter c \<or> is_digit c \<or> c \<in> set (CHR 0x27 # ''-._:~!$&()*+,;=%@'')) s"

definition parse_authority :: "string \<Rightarrow> string \<Rightarrow> ((string \<times> string option) option \<times> string) option" where
  "parse_authority scheme authority =
     (case cut_last (CHR ''@'') authority of
        None \<Rightarrow> map_option (Pair None) (parse_host scheme authority)
      | Some (userinfo, host) \<Rightarrow>
          (case parse_host scheme host of
             None \<Rightarrow> None
           | Some h \<Rightarrow>
               (if \<not> valid_userinfo userinfo then None
                else case str_cut (CHR '':'') userinfo of
                  None \<Rightarrow> map_option (\<lambda>n. (Some (n, None), h)) (unescape MUser userinfo)
                | Some (n, p) \<Rightarrow>
                    (case (unescape MUser n, unescape MUser p) of
                       (Some n', Some p') \<Rightarrow> Some (Some (n', Some p'), h)
                     | _ \<Rightarrow> None))))"

definition set_path :: "string \<Rightarrow> url \<Rightarrow> url option" where
  "set_path p u = map_option (\<lambda>q. u\<lparr>u_Path := q, u_RawPath := (if p = escape MPath q then [] else p)\<rparr>) (unescape MPath p)"

definition set_fragment :: "string \<Rightarrow> url \<Rightarrow> url option" where
  "set_fragment f u = map_option (\<lambda>g. u\<lparr>u_Fragment := g, u_RawFragment := (if f = escape MFragment g then [] else f)\<rparr>)
     (unescape MFragment f)"

definition cut_or :: "char \<Rightarrow> string \<Rightarrow> string \<times> string" where
  "cut_or c s = (case str_cut c s of None \<Rightarrow> (s, []) | Some p \<Rightarrow> p)"

text \<open>A lone question mark at the end is kept as \<open>ForceQuery\<close>.\<close>

definition cut_query :: "string \<Rightarrow> string \<times> bool \<times> string" where
  "cut_query s = (let (a, q) = cut_or (CHR ''?'') s in (a, CHR ''?'' \<in> set s \<and> q = [], q))"

definition parse_rest :: "string \<Rightarrow> string \<Rightarrow> url \<Rightarrow> url option" where
  "parse_rest scheme rest u =
     (if \<not> has_prefix rest ''/'' \<and> scheme \<noteq> [] then Some (u\<lparr>u_Opaque := rest\<rparr>)
      else if \<not> has_prefix rest ''/'' \<and> CHR '':'' \<in> set (fst (cut_or (CHR ''/'') rest)) then None
      else if (scheme \<noteq> [] \<or> \<not> has_prefix rest ''///'') \<and> has_prefix rest ''//'' then
        (let authority = takeWhile (\<lambda>c. c \<noteq> CHR ''/'') (drop 2 rest); path = dropWhile (\<lambda>c. c \<noteq> CHR ''/'') (drop 2 rest) in
         case parse_authority scheme authority of
           None \<Rightarrow> None
         | Some (user, host) \<Rightarrow> set_path path (u\<lparr>u_User := user, u_Host := host\<rparr>))
      else set_path rest (u\<lparr>u_OmitHost := (scheme \<noteq> [] \<and> has_prefix rest ''/'')\<rparr>))"

definition control :: "char \<Rightarrow> bool" where "control c \<longleftrightarrow> byte c < 32 \<or> byte c = 127"

definition parse_url :: "string \<Rightarrow> url option" where
  "parse_url s =
     (if list_ex control s then None
      else if s = ''*'' then Some (no_url\<lparr>u_Path := ''*''\<rparr>)
      else case get_scheme s of
        None \<Rightarrow> None
      | Some (scheme, rest) \<Rightarrow>
          (case cut_query rest of (rest, force, query) \<Rightarrow>
             parse_rest (ascii_lower scheme) rest
               (no_url\<lparr>u_Scheme := ascii_lower scheme, u_ForceQuery := force, u_RawQuery := query\<rparr>)))"

definition url_parse :: "string \<Rightarrow> url option" where
  "url_parse s = (case cut_or (CHR ''#'') s of (a, frag) \<Rightarrow>
     (case parse_url a of None \<Rightarrow> None | Some u \<Rightarrow> if frag = [] then Some u else set_fragment frag u))"

section \<open>Parts of a URL\<close>

definition valid_encoded :: "mode \<Rightarrow> string \<Rightarrow> bool" where
  "valid_encoded m s \<longleftrightarrow> list_all (\<lambda>c. c \<in> set (CHR 0x27 # ''!$&()*+,;=:@[]%'') \<or> keep m c) s"

definition escaped_part :: "mode \<Rightarrow> string \<Rightarrow> string \<Rightarrow> string" where
  "escaped_part m raw s = (if raw \<noteq> [] \<and> valid_encoded m raw \<and> unescape m raw = Some s then raw else escape m s)"

definition EscapedPath :: "url \<Rightarrow> string" where
  "EscapedPath u =
     (if u_RawPath u \<noteq> [] \<and> valid_encoded MPath (u_RawPath u) \<and> unescape MPath (u_RawPath u) = Some (u_Path u) then u_RawPath u
      else if u_Path u = ''*'' then ''*'' else escape MPath (u_Path u))"

definition Hostname :: "url \<Rightarrow> string" where
  "Hostname u = (let h = (case cut_last (CHR '':'') (u_Host u) of
       None \<Rightarrow> u_Host u | Some (a, p) \<Rightarrow> if list_all is_digit p then a else u_Host u) in
     if has_prefix h ''['' \<and> has_suffix h '']'' then butlast (tl h) else h)"

definition user_text :: "string \<times> string option \<Rightarrow> string" where
  "user_text ui = escape MUser (fst ui) @ (case snd ui of None \<Rightarrow> [] | Some p \<Rightarrow> '':'' @ escape MUser p)"

definition url_string :: "url \<Rightarrow> string" where
  "url_string u =
     (let scheme = (if u_Scheme u = [] then [] else u_Scheme u @ '':'');
          authority =
            (if (u_Scheme u = [] \<and> u_Host u = [] \<and> u_User u = None) \<or> (u_OmitHost u \<and> u_Host u = [] \<and> u_User u = None) then []
             else (if u_Host u \<noteq> [] \<or> u_Path u \<noteq> [] \<or> u_User u \<noteq> None then ''//'' else []) @
                  (case u_User u of None \<Rightarrow> [] | Some ui \<Rightarrow> user_text ui @ ''@'') @ escape MHost (u_Host u));
          path = EscapedPath u;
          slash = (if path \<noteq> [] \<and> \<not> has_prefix path ''/'' \<and> u_Host u \<noteq> [] then ''/'' else []);
          dot = (if scheme @ authority @ slash = [] \<and> CHR '':'' \<in> set (fst (cut_or (CHR ''/'') path)) then ''./'' else []);
          body = (if u_Opaque u \<noteq> [] then u_Opaque u else authority @ slash @ dot @ path)
      in scheme @ body @
         (if u_ForceQuery u \<or> u_RawQuery u \<noteq> [] then ''?'' @ u_RawQuery u else []) @
         (if u_Fragment u \<noteq> [] then ''#'' @ escaped_part MFragment (u_RawFragment u) (u_Fragment u) else []))"

text \<open>
  The query as its pairs in order; pairs that do not decode are left out, and a query of
  more than 10000 pairs is an error that leaves none.
\<close>

definition query_pair :: "string \<Rightarrow> (string \<times> string) option" where
  "query_pair part =
     (if CHR '';'' \<in> set part \<or> part = [] then None
      else case cut_or (CHR ''='') part of (k, v) \<Rightarrow>
        (case (unescape MQuery k, unescape MQuery v) of (Some k', Some v') \<Rightarrow> Some (k', v') | _ \<Rightarrow> None))"

definition parse_query :: "string \<Rightarrow> (string \<times> string) list" where
  "parse_query q = (let parts = str_split (CHR ''&'') q in if 10000 < length parts then [] else List.map_filter query_pair parts)"

definition values_set :: "string \<Rightarrow> string \<Rightarrow> (string \<times> string) list \<Rightarrow> (string \<times> string) list" where
  "values_set k v vs = filter (\<lambda>kv. fst kv \<noteq> k) vs @ [(k, v)]"

definition values_get :: "string \<Rightarrow> (string \<times> string) list \<Rightarrow> string" where
  "values_get k vs = (case map_of vs k of None \<Rightarrow> [] | Some v \<Rightarrow> v)"

section \<open>Lemmas\<close>

lemma all_chars: "list_all P (map char_of [0..<n]) \<Longrightarrow> n = 256 \<Longrightarrow> P c"
proof -
  assume p: "list_all P (map char_of [0..<n])" "n = (256::nat)"
  have "c \<in> char_of ` {0..<n}" using byte_less [of c] by (intro image_eqI [of _ _ "of_char c"]) (simp_all add: p(2) byte_def)
  with p(1) show "P c" by (auto simp: list_all_iff)
qed

text \<open>What an escaped component may contain.\<close>

definition plain :: "mode \<Rightarrow> char \<Rightarrow> bool" where
  "plain m c \<longleftrightarrow> keep m c \<or> c = CHR ''%'' \<or> m = MQuery \<and> c = CHR ''+''"

lemma pct_char: "c \<in> set (pct d) \<Longrightarrow> c = CHR ''%'' \<or> unreserved c"
proof -
  have h: "unreserved (hex_digit n)" if "n < 16" for n
    using that by (simp add: unreserved_def hex_digit_def Let_def)
  have "of_char d div 16 < (16::nat)" "of_char d mod 16 < (16::nat)"
    using less_mult_imp_div_less [of "of_char d" 16 16] byte_less [of d] by (simp_all add: byte_def)
  then show "c \<in> set (pct d) \<Longrightarrow> c = CHR ''%'' \<or> unreserved c" using h by (auto simp: pct_def)
qed

lemma escape_plain: "c \<in> set (escape m s) \<Longrightarrow> plain m c"
  by (auto simp: escape_def plain_def keep_def dest!: pct_char split: if_splits)

lemma escape_simps [simp]: "escape m [] = []"
  "escape m (c # s) = (if keep m c then [c] else if m = MQuery \<and> c = CHR '' '' then ''+'' else pct c) @ escape m s"
  by (simp_all add: escape_def)

lemma escape_id: "list_all (keep m) s \<Longrightarrow> escape m s = s"
  by (induction s) auto

lemma unhex_hex: assumes "n < 16" shows "unhex (hex_digit n) = Some n"
  using assms by (simp add: unhex_def hex_digit_def byte_chr Let_def)

lemma keep_not_percent [simp]: "\<not> keep m (CHR ''%'')"
  by (cases m) (simp_all add: keep_def marks_def unreserved_def)

lemma keep_not_plus [simp]: "\<not> keep MQuery (CHR ''+'')"
  by (simp add: keep_def marks_def unreserved_def)

lemma unescape_escape: "m \<noteq> MHost \<Longrightarrow> m \<noteq> MZone \<Longrightarrow> unescape m (escape m s) = Some s"
proof (induction s)
  case (Cons c s)
  have "byte c div 16 < 16" "byte c mod 16 < 16"
    using less_mult_imp_div_less [of "byte c" 16 16] byte_less [of c] by simp_all
  then have u: "unhex (hex_digit (of_char c div 16)) = Some (byte c div 16)"
    "unhex (hex_digit (of_char c mod 16)) = Some (byte c mod 16)"
    by (simp_all add: unhex_hex byte_def)
  have "chr (byte c div 16 * 16 + byte c mod 16) = c" by simp
  then have "unescape m (pct c @ escape m s) = Some (c # s)"
    using Cons u by (simp add: pct_def)
  moreover have "c \<noteq> CHR ''%''" "m = MQuery \<Longrightarrow> c \<noteq> CHR ''+''" if "keep m c" using that by auto
  ultimately show ?case using Cons by auto
qed simp

lemma unescape_kept: "list_all (keep m) s \<Longrightarrow> m \<noteq> MQuery \<Longrightarrow> unescape m s = Some s"
  by (induction s) auto

end
