(* ===== verification/UrlProps.thy ===== *)
theory UrlProps
  imports UrlParse
begin

text \<open>
  Facts about parsed URLs: what a URL with a host was parsed from, that a URL put together
  from well-formed parts parses to these parts, and that the encoding of query values is
  read back.
\<close>

section \<open>Cuts\<close>

lemma cut_or_cases: "cut_or c s = (a, b) \<longleftrightarrow> (c \<notin> set s \<and> a = s \<and> b = []) \<or> (c \<notin> set a \<and> s = a @ c # b)"
proof -
  have "cut_or c s = (a, b) \<longleftrightarrow> str_cut c s = None \<and> a = s \<and> b = [] \<or> str_cut c s = Some (a, b)"
    by (cases "str_cut c s") (auto simp: cut_or_def)
  then show ?thesis by (auto simp: str_cut_None_iff str_cut_Some_iff)
qed

lemma cut_or_absent: "c \<notin> set a \<Longrightarrow> cut_or c a = (a, [])"
  by (simp add: cut_or_cases)

lemma cut_or_present: "c \<notin> set a \<Longrightarrow> cut_or c (a @ c # b) = (a, b)"
  by (simp add: cut_or_cases)

lemma cut_last_Some: "cut_last c s = Some (a, b) \<longleftrightarrow> s = a @ c # b \<and> c \<notin> set b"
proof -
  have "cut_last c s = Some (a, b) \<longleftrightarrow> str_cut c (rev s) = Some (rev b, rev a)"
    by (cases "str_cut c (rev s)") (auto simp: cut_last_def)
  also have "\<dots> \<longleftrightarrow> rev s = rev b @ c # rev a \<and> c \<notin> set b" by (simp add: str_cut_Some_iff)
  also have "\<dots> \<longleftrightarrow> s = a @ c # b \<and> c \<notin> set b" by (metis append_assoc append_Cons append_Nil rev.simps(2) rev_append rev_rev_ident)
  finally show ?thesis .
qed

lemma cut_last_None: "cut_last c s = None \<longleftrightarrow> c \<notin> set s"
proof -
  have "cut_last c s = None \<longleftrightarrow> str_cut c (rev s) = None"
    by (cases "str_cut c (rev s)") (auto simp: cut_last_def)
  then show ?thesis by (simp add: str_cut_None_iff)
qed

section \<open>Unescaped hosts\<close>

text \<open>An ASCII character that is no part of an escape stands for itself in a host.\<close>

lemma chr_percent: "chr 37 = CHR ''%''"
  by code_simp

lemma unhex_less: "unhex a = Some x \<Longrightarrow> x < 16"
  by (auto simp: unhex_def Let_def split: if_splits)

lemma unescape_percent:
  assumes "unescape m (CHR ''%'' # s) = Some t"
  obtains a b r x y t' where "s = a # b # r" "unhex a = Some x" "unhex b = Some y" "unescape m r = Some t'"
    "t = chr (x * 16 + y) # t'" "m = MHost \<Longrightarrow> x < 8 \<Longrightarrow> a = CHR ''2'' \<and> b = CHR ''5''"
  using assms by (auto split: list.splits option.splits if_splits)

lemma unescape_host_char:
  "unescape MHost s = Some t \<Longrightarrow> byte c < 0x80 \<Longrightarrow> c \<noteq> CHR ''%'' \<Longrightarrow> unhex c = None \<Longrightarrow>
   filter (\<lambda>x. x = c) t = filter (\<lambda>x. x = c) s"
proof (induction "length s" arbitrary: s t rule: less_induct)
  case less
  show ?case
  proof (cases s)
    case (Cons d r)
    show ?thesis
    proof (cases "d = CHR ''%''")
      case False
      with less.prems Cons obtain t' where "t = d # t'" "unescape MHost r = Some t'" by (auto split: if_splits)
      with less Cons show ?thesis by simp
    next
      case True
      with less.prems(1) Cons obtain a b q x y t' where
        q: "r = a # b # q" "unhex a = Some x" "unhex b = Some y" "unescape MHost q = Some t'" "t = chr (x * 16 + y) # t'"
        and low: "x < 8 \<Longrightarrow> a = CHR ''2'' \<and> b = CHR ''5''"
        by (metis unescape_percent)
      have "chr (x * 16 + y) \<noteq> c"
      proof (cases "x < 8")
        case False
        then have "0x80 \<le> byte (chr (x * 16 + y))"
          using unhex_less [OF q(2)] unhex_less [OF q(3)] by (simp add: chr_def byte_chr)
        with less.prems(2) show ?thesis by auto
      next
        case True
        with low q(2,3) have "x = 2" "y = 5" by (auto simp: unhex_def byte_def)
        with less.prems(3) show ?thesis by (auto simp: chr_percent)
      qed
      moreover have "a \<noteq> c" "b \<noteq> c" using q(2,3) less.prems(4) by auto
      moreover have "filter (\<lambda>x. x = c) t' = filter (\<lambda>x. x = c) q"
        using less.hyps [of q t'] less.prems q(1,4) Cons by simp
      ultimately show ?thesis using q Cons True less.prems(3) by simp
    qed
  qed (use less in simp)
qed

lemma host_char_in:
  assumes "unescape MHost s = Some t" "byte c < 0x80" "c \<noteq> CHR ''%''" "unhex c = None"
  shows "c \<in> set t \<longleftrightarrow> c \<in> set s"
  using arg_cong [OF unescape_host_char [OF assms], of set] by auto

lemma unescape_host_kept: "unescape MHost s = Some t \<Longrightarrow> c \<in> set t \<Longrightarrow> byte c < 0x80 \<Longrightarrow> c = CHR ''%'' \<or> keep MHost c"
proof (induction "length s" arbitrary: s t rule: less_induct)
  case less
  show ?case
  proof (cases s)
    case (Cons d r)
    show ?thesis
    proof (cases "d = CHR ''%''")
      case False
      with less.prems(1) Cons obtain t' where t': "t = d # t'" "unescape MHost r = Some t'" "byte d < 0x80 \<longrightarrow> keep MHost d"
        by (auto split: if_splits)
      with less.hyps [of r t'] less.prems(2,3) Cons show ?thesis by auto
    next
      case True
      with less.prems(1) Cons obtain a b q x y t' where
        q: "r = a # b # q" "unhex a = Some x" "unhex b = Some y" "unescape MHost q = Some t'" "t = chr (x * 16 + y) # t'"
        and low: "x < 8 \<Longrightarrow> a = CHR ''2'' \<and> b = CHR ''5''"
        by (metis unescape_percent)
      show ?thesis
      proof (cases "c \<in> set t'")
        case True
        with less.hyps [of q t'] less.prems(3) q Cons show ?thesis by auto
      next
        case False
        with less.prems(2) q(5) have c: "c = chr (x * 16 + y)" by simp
        have "x < 8"
        proof (rule ccontr)
          assume "\<not> x < 8"
          then have "0x80 \<le> byte c" using unhex_less [OF q(2)] unhex_less [OF q(3)] by (simp add: c chr_def byte_chr)
          with less.prems(3) show False by simp
        qed
        with low q(2,3) have "x = 2" "y = 5" by (auto simp: unhex_def byte_def)
        then show ?thesis by (simp add: c chr_percent)
      qed
    qed
  qed (use less in simp)
qed

section \<open>Loopback hosts\<close>

text \<open>A literal loopback address with an optional port.\<close>

definition loopback_host :: "string \<Rightarrow> bool" where
  "loopback_host h \<longleftrightarrow> (\<exists>name port. h = name @ port \<and> name \<in> {''127.0.0.1'', ''[::1]''} \<and> valid_port port)"

lemma keep_digit: "is_digit c \<Longrightarrow> keep m c"
  by (simp add: keep_def unreserved_def is_digit_def byte_def Let_def)

lemma keep_host_marks [simp]: "keep MHost (CHR '':'')" "keep MHost (CHR ''['')" "keep MHost (CHR '']'')" "keep MHost (CHR ''.'')"
  by (simp_all add: keep_def marks_def unreserved_def)

lemma valid_port_cases [consumes 1, case_names none some]: "valid_port p \<Longrightarrow> (p = [] \<Longrightarrow> P) \<Longrightarrow> (\<And>ds. p = CHR '':'' # ds \<Longrightarrow> list_all is_digit ds \<Longrightarrow> P) \<Longrightarrow> P"
  by (cases p) (auto simp: valid_port_def)

lemma kept_port: "valid_port p \<Longrightarrow> list_all (keep MHost) p"
  by (erule valid_port_cases) (auto simp: list_all_iff keep_digit)

lemma loopback_kept: "loopback_host h \<Longrightarrow> list_all (keep MHost) h"
proof -
  have "list_all (keep MHost) ''127.0.0.1'' \<and> list_all (keep MHost) ''[::1]''" by (simp add: keep_digit is_digit_def byte_def)
  then show "loopback_host h \<Longrightarrow> list_all (keep MHost) h" by (auto simp: loopback_host_def kept_port)
qed

lemma digit_marks: "list_all is_digit ds \<Longrightarrow> CHR '':'' \<notin> set ds \<and> CHR '']'' \<notin> set ds \<and> CHR ''['' \<notin> set ds \<and> CHR ''@'' \<notin> set ds"
  by (auto simp: list_all_iff is_digit_def byte_def)

lemma loopback_parse: assumes "loopback_host h" shows "parse_host scheme h = Some h"
proof -
  from assms obtain name port where h: "h = name @ port" "valid_port port" and name: "name = ''127.0.0.1'' \<or> name = ''[::1]''"
    by (auto simp: loopback_host_def)
  have ip: "valid_ip6 ''::1''" by code_simp
  have kept: "unescape MHost h = Some h" "unescape MHost port = Some port"
    using loopback_kept [OF assms] kept_port [OF h(2)] by (simp_all add: unescape_kept)
  have inner: "cut_zone ''::1'' = (''::1'', [])" "unescape MHost ''::1'' = Some ''::1''"
    by code_simp+
  from h(2) show ?thesis
  proof (cases rule: valid_port_cases)
    case none
    from name show ?thesis
    proof
      assume "name = ''127.0.0.1''"
      with h(1) none have "h = ''127.0.0.1''" by simp
      then have "cut_last (CHR ''['') h = None" "str_cut (CHR '':'') h = None" by (simp_all add: cut_last_None str_cut_None_iff)
      with kept show ?thesis by (simp add: parse_host_def)
    next
      assume "name = ''[::1]''"
      with h(1) none have b: "h = ''[::1]''" by simp
      then have "cut_last (CHR ''['') h = Some ([], ''::1]'')" "cut_last (CHR '']'') ''::1]'' = Some (''::1'', [])"
        by (simp_all add: cut_last_Some)
      with h(2) none kept ip inner b show ?thesis by (simp add: parse_host_def)
    qed
  next
    case (some ds)
    from name show ?thesis
    proof
      assume "name = ''127.0.0.1''"
      with h(1) some have "h = ''127.0.0.1'' @ CHR '':'' # ds" by simp
      with some digit_marks have "cut_last (CHR ''['') h = None" "str_cut (CHR '':'') h = Some (''127.0.0.1'', ds)"
        "cut_last (CHR '':'') h = Some (''127.0.0.1'', ds)"
        by (auto simp: cut_last_None str_cut_Some_iff cut_last_Some)
      with some kept show ?thesis by (simp add: parse_host_def valid_port_def)
    next
      assume "name = ''[::1]''"
      with h(1) some have b: "h = ''[::1]'' @ port" by simp
      with some digit_marks have "cut_last (CHR ''['') h = Some ([], ''::1]'' @ port)" "cut_last (CHR '']'') (''::1]'' @ port) = Some (''::1'', port)"
        by (auto simp: cut_last_Some)
      with h(2) kept ip inner b show ?thesis by (simp add: parse_host_def)
    qed
  qed
qed

text \<open>A host of an \<open>http\<close> URL whose name is a loopback address is one of these.\<close>

lemma Hostname_loopback:
  assumes "parse_host ''http'' h0 = Some (u_Host u)" "Hostname u \<in> {''127.0.0.1'', ''::1''}"
  shows "loopback_host (u_Host u)"
proof (cases "cut_last (CHR ''['') h0")
  case (Some ab)
  with assms(1) obtain rest name port port' a z where
    p: "cut_last (CHR '']'') rest = Some (name, port)" "valid_port port" "unescape MHost port = Some port'"
      "valid_ip6 (a @ z)" "u_Host u = ''['' @ (a @ z) @ '']'' @ port'"
    by (auto simp: parse_host_def split: prod.splits list.splits option.splits if_splits)
  have port: "port' = port" using p(2,3) unescape_kept [OF kept_port [OF p(2)]] by simp
  have host: "u_Host u = (''['' @ (a @ z) @ '']'') @ port" using p(5) port by simp
  have "Hostname u = a @ z"
    using p(2)
  proof (cases rule: valid_port_cases)
    case none
    have strip: "(if has_prefix h ''['' \<and> has_suffix h '']'' then butlast (tl h) else h) = a @ z" if "h = ''['' @ (a @ z) @ '']''" for h
      using that by (simp add: has_prefix_def has_suffix_def butlast_append)
    show ?thesis
    proof (cases "cut_last (CHR '':'') (u_Host u)")
      case None
      with none host strip show ?thesis by (simp add: Hostname_def)
    next
      case (Some bp)
      then obtain b q where bp: "bp = (b, q)" "u_Host u = b @ CHR '':'' # q" by (cases bp) (auto simp: cut_last_Some)
      then have "last (u_Host u) = last (CHR '':'' # q)" by simp
      moreover have "last (u_Host u) = CHR '']''" using host none by simp
      ultimately have "q \<noteq> [] \<and> last q = CHR '']''" by (auto split: if_splits)
      then have "CHR '']'' \<in> set q" using last_in_set by metis
      then have "\<not> list_all is_digit q" using digit_marks by blast
      with Some bp host strip none show ?thesis by (simp add: Hostname_def)
    qed
  next
    case (some ds)
    then have "cut_last (CHR '':'') (u_Host u) = Some (''['' @ (a @ z) @ '']'', ds)"
      using host digit_marks by (simp add: cut_last_Some)
    with some show ?thesis by (simp add: Hostname_def has_prefix_def has_suffix_def butlast_append)
  qed
  moreover have "\<not> valid_ip6 ''127.0.0.1''" by code_simp
  ultimately have "a @ z = ''::1''" using assms(2) p(4) by auto
  with host have "u_Host u = ''[::1]'' @ port" by simp
  with p(2) show ?thesis unfolding loopback_host_def by blast
next
  case None
  have un: "unescape MHost h0 = Some (u_Host u)"
    and port: "\<And>a p. str_cut (CHR '':'') h0 = Some (a, p) \<Longrightarrow> list_all is_digit p"
    using assms(1) None by (auto simp: parse_host_def valid_port_def Let_def split: option.splits prod.splits if_splits)
  have colon: "filter (\<lambda>x. x = CHR '':'') (u_Host u) = filter (\<lambda>x. x = CHR '':'') h0"
    by (rule unescape_host_char [OF un]) (simp_all add: unhex_def byte_def)
  have one: "length (filter (\<lambda>x. x = CHR '':'') (u_Host u)) \<le> 1"
  proof (cases "str_cut (CHR '':'') h0")
    case None
    then have "filter (\<lambda>x. x = CHR '':'') h0 = []" by (auto simp: str_cut_None_iff filter_empty_conv)
    then show ?thesis unfolding colon by simp
  next
    case (Some ap)
    then obtain a p where ap: "h0 = a @ CHR '':'' # p" "CHR '':'' \<notin> set a" "list_all is_digit p"
      using port by (cases ap) (auto simp: str_cut_Some_iff)
    then have "CHR '':'' \<notin> set p" using digit_marks by blast
    with ap show ?thesis unfolding colon by (auto simp: filter_empty_conv)
  qed
  have "CHR ''['' \<notin> set (u_Host u)"
    using None host_char_in [OF un, of "CHR ''[''"] by (simp add: cut_last_None unhex_def byte_def)
  then have br: "\<not> has_prefix h ''['' " if "set h \<subseteq> set (u_Host u)" for h
    using that by (cases h) (auto simp: has_prefix_def)
  show ?thesis
  proof (cases "cut_last (CHR '':'') (u_Host u)")
    case None
    then have "Hostname u = u_Host u" using br [of "u_Host u"] by (simp add: Hostname_def)
    moreover have "CHR '':'' \<notin> set (u_Host u)" using None by (simp add: cut_last_None)
    ultimately have "u_Host u = ''127.0.0.1'' @ []" using assms(2) by auto
    then show ?thesis unfolding loopback_host_def valid_port_def by blast
  next
    case (Some bq)
    then obtain b q where bq: "bq = (b, q)" "u_Host u = b @ CHR '':'' # q" by (cases bq) (auto simp: cut_last_Some)
    have noc: "CHR '':'' \<notin> set b" using one bq by (auto simp: filter_empty_conv)
    show ?thesis
    proof (cases "list_all is_digit q")
      case True
      moreover have "\<not> has_prefix b ''[''" using br [of b] bq by auto
      ultimately have "Hostname u = b" using Some bq by (simp add: Hostname_def)
      then have "b \<in> {''127.0.0.1'', ''::1''}" using assms(2) by simp
      with noc have "b = ''127.0.0.1''" by auto
      with bq True have "u_Host u = ''127.0.0.1'' @ (CHR '':'' # q)" "valid_port (CHR '':'' # q)" by (simp_all add: valid_port_def)
      then show ?thesis unfolding loopback_host_def by blast
    next
      case False
      then have "Hostname u = u_Host u" using br [of "u_Host u"] Some bq by (simp add: Hostname_def)
      then have "u_Host u = ''127.0.0.1'' \<or> u_Host u = ''::1''" using assms(2) by simp
      moreover have "CHR '':'' \<in> set (u_Host u)" using bq by simp
      ultimately have "u_Host u = ''::1''" by auto
      with one show ?thesis by simp
    qed
  qed
qed

section \<open>What a URL with a host was parsed from\<close>

lemma set_path_fields:
  assumes "set_path p u = Some v"
  shows "unescape MPath p = Some (u_Path v)" "u_RawPath v = (if p = escape MPath (u_Path v) then [] else p)"
    "u_Host v = u_Host u" "u_User v = u_User u" "u_Opaque v = u_Opaque u" "u_Scheme v = u_Scheme u"
    "u_OmitHost v = u_OmitHost u" "u_Fragment v = u_Fragment u" "u_RawFragment v = u_RawFragment u"
    "u_ForceQuery v = u_ForceQuery u" "u_RawQuery v = u_RawQuery u"
  using assms by (auto simp: set_path_def)

lemma parse_rest_host:
  assumes "parse_rest scheme rest u = Some v" "u_Host v \<noteq> []" "u_Host u = []" "u_Opaque u = []"
  obtains auth path where "parse_authority scheme auth = Some (u_User v, u_Host v)"
    "path = [] \<or> (\<exists>r. path = CHR ''/'' # r)" "unescape MPath path = Some (u_Path v)"
    "u_RawPath v = (if path = escape MPath (u_Path v) then [] else path)" "u_Opaque v = []"
    "u_Scheme v = u_Scheme u" "u_Fragment v = u_Fragment u" "u_RawFragment v = u_RawFragment u"
proof -
  have no_host: False if "set_path rest (u\<lparr>u_OmitHost := b\<rparr>) = Some v" for b
    using set_path_fields(3) [OF that] assms(2,3) by simp
  define auth where "auth = takeWhile (\<lambda>c. c \<noteq> CHR ''/'') (drop 2 rest)"
  define path where "path = dropWhile (\<lambda>c. c \<noteq> CHR ''/'') (drop 2 rest)"
  obtain user host where a: "parse_authority scheme auth = Some (user, host)" "set_path path (u\<lparr>u_User := user, u_Host := host\<rparr>) = Some v"
    using assms no_host by (auto simp: parse_rest_def auth_def path_def Let_def split: if_splits option.splits)
  note f = set_path_fields [OF a(2)]
  have path: "path = [] \<or> (\<exists>r. path = CHR ''/'' # r)"
  proof (cases path)
    case (Cons c r)
    then have "\<not> c \<noteq> CHR ''/''" unfolding path_def by (simp add: dropWhile_eq_Cons_conv)
    with Cons show ?thesis by simp
  qed simp
  show ?thesis by (rule that [of auth path]) (use a(1) f path assms(4) in auto)
qed

lemma url_parse_host:
  assumes "url_parse s = Some u" "u_Host u \<noteq> []"
  obtains auth path frag where "parse_authority (u_Scheme u) auth = Some (u_User u, u_Host u)"
    "path = [] \<or> (\<exists>r. path = CHR ''/'' # r)" "unescape MPath path = Some (u_Path u)"
    "u_RawPath u = (if path = escape MPath (u_Path u) then [] else path)" "u_Opaque u = []"
    "unescape MFragment frag = Some (u_Fragment u)" "u_RawFragment u = (if frag = escape MFragment (u_Fragment u) then [] else frag)"
proof -
  obtain a frag where af: "cut_or (CHR ''#'') s = (a, frag)" by (cases "cut_or (CHR ''#'') s")
  with assms(1) obtain v where a: "parse_url a = Some v" and v: "(if frag = [] then u = v else set_fragment frag v = Some u)"
    by (auto simp: url_parse_def split: option.splits if_splits)
  have same: "u_Host v = u_Host u" "u_Scheme v = u_Scheme u" "u_User v = u_User u" "u_Path v = u_Path u"
    "u_RawPath v = u_RawPath u" "u_Opaque v = u_Opaque u"
    using v by (auto simp: set_fragment_def split: if_splits)
  obtain scheme rest force query where r: "parse_rest (ascii_lower scheme) rest
      (no_url\<lparr>u_Scheme := ascii_lower scheme, u_ForceQuery := force, u_RawQuery := query\<rparr>) = Some v"
    using a assms(2) same(1) by (auto simp: parse_url_def no_url_def split: if_splits option.splits prod.splits)
  obtain auth path where p: "parse_authority (ascii_lower scheme) auth = Some (u_User v, u_Host v)"
    "path = [] \<or> (\<exists>r. path = CHR ''/'' # r)" "unescape MPath path = Some (u_Path v)"
    "u_RawPath v = (if path = escape MPath (u_Path v) then [] else path)" "u_Opaque v = []"
    "u_Scheme v = ascii_lower scheme" "u_Fragment v = []" "u_RawFragment v = []"
    using parse_rest_host [OF r] assms(2) same by (auto simp: no_url_def)
  have s: "ascii_lower scheme = u_Scheme u" using p(6) same(2) by simp
  have f: "unescape MFragment frag = Some (u_Fragment u) \<and> u_RawFragment u = (if frag = escape MFragment (u_Fragment u) then [] else frag)"
    using v p(7,8) by (cases "frag = []") (auto simp: set_fragment_def)
  show ?thesis
    by (rule that [OF p(1) [unfolded s same] p(2) p(3,4,5) [unfolded same] f [THEN conjunct1] f [THEN conjunct2]])
qed

section \<open>Building an \<open>http\<close> URL\<close>

lemma url_parse_http:
  assumes auth: "parse_authority ''http'' auth = Some (user, host)" "CHR ''/'' \<notin> set auth"
    and path: "path = [] \<or> (\<exists>r. path = CHR ''/'' # r)" "unescape MPath path = Some p"
    and query: "query \<noteq> []"
    and clean: "\<forall>c \<in> set (auth @ path @ query). \<not> control c \<and> c \<noteq> CHR ''#''" "CHR ''?'' \<notin> set (auth @ path)"
    and frag: "tail = [] \<and> g = [] \<or> (\<exists>f. tail = CHR ''#'' # f \<and> f \<noteq> [] \<and> unescape MFragment f = Some g)"
  obtains v where "url_parse (''http://'' @ auth @ path @ ''?'' @ query @ tail) = Some v"
    "u_Scheme v = ''http''" "u_User v = user" "u_Host v = host" "u_Path v = p" "u_RawQuery v = query" "u_Fragment v = g"
proof -
  let ?b = "''http://'' @ auth @ path @ ''?'' @ query"
  have nb: "CHR ''#'' \<notin> set ?b" using clean(1) by auto
  have "list_ex control ?b = False" using clean(1) by (auto simp: list_ex_iff control_def byte_def)
  moreover have "get_scheme ?b = Some (''http'', ''//'' @ auth @ path @ ''?'' @ query)"
    by (simp add: get_scheme_def is_letter_def is_digit_def byte_def)
  moreover have "cut_or (CHR ''?'') (''//'' @ auth @ path @ ''?'' @ query) = (''//'' @ auth @ path, query)"
    using clean(2) cut_or_present [of "CHR ''?''" "''//'' @ auth @ path" query] by simp
  then have "cut_query (''//'' @ auth @ path @ ''?'' @ query) = (''//'' @ auth @ path, False, query)"
    using query by (simp add: cut_query_def)
  moreover have "takeWhile (\<lambda>c. c \<noteq> CHR ''/'') (auth @ path) = auth" "dropWhile (\<lambda>c. c \<noteq> CHR ''/'') (auth @ path) = path"
  proof -
    have "takeWhile (\<lambda>c. c \<noteq> CHR ''/'') (auth @ path) = auth @ takeWhile (\<lambda>c. c \<noteq> CHR ''/'') path"
      "dropWhile (\<lambda>c. c \<noteq> CHR ''/'') (auth @ path) = dropWhile (\<lambda>c. c \<noteq> CHR ''/'') path"
      using auth(2) by (auto intro: takeWhile_append2 dropWhile_append2)
    with path(1) show "takeWhile (\<lambda>c. c \<noteq> CHR ''/'') (auth @ path) = auth" "dropWhile (\<lambda>c. c \<noteq> CHR ''/'') (auth @ path) = path" by auto
  qed
  moreover have "ascii_lower ''http'' = ''http''" by (simp add: ascii_lower_def byte_def)
  moreover obtain w where w: "set_path path (no_url\<lparr>u_Scheme := ''http'', u_ForceQuery := False, u_RawQuery := query, u_User := user, u_Host := host\<rparr>) = Some w"
    using path(2) by (auto simp: set_path_def)
  ultimately have parse: "parse_url ?b = Some w"
    using auth(1) by (simp add: parse_url_def parse_rest_def has_prefix_def)
  note f = set_path_fields [OF w]
  have w': "u_Scheme w = ''http''" "u_User w = user" "u_Host w = host" "u_Path w = p" "u_RawQuery w = query" "u_Fragment w = []"
    using f path(2) by (simp_all add: no_url_def)
  from frag show ?thesis
  proof
    assume t: "tail = [] \<and> g = []"
    then have "url_parse (''http://'' @ auth @ path @ ''?'' @ query @ tail) = Some w"
      using parse cut_or_absent [OF nb] by (simp add: url_parse_def)
    with w' t show ?thesis by (intro that [of w]) auto
  next
    assume "\<exists>f. tail = CHR ''#'' # f \<and> f \<noteq> [] \<and> unescape MFragment f = Some g"
    then obtain f where t: "tail = CHR ''#'' # f" "f \<noteq> []" "unescape MFragment f = Some g" by blast
    obtain v where v: "set_fragment f w = Some v" using t(3) by (auto simp: set_fragment_def)
    have "url_parse (''http://'' @ auth @ path @ ''?'' @ query @ tail) = Some v"
      using parse cut_or_present [OF nb, of f] t(1,2) v by (simp add: url_parse_def)
    with w' v t(3) show ?thesis by (intro that [of v]) (auto simp: set_fragment_def)
  qed
qed

section \<open>What the parts are written as\<close>

lemma chr_marks: "chr 45 = CHR ''-''" "chr 46 = CHR ''.''" "chr 95 = CHR ''_''" "chr 126 = CHR ''~''"
  by code_simp+

lemma unreserved_byte:
  assumes "unreserved c"
  shows "45 \<le> byte c \<and> byte c \<le> 126 \<and> byte c \<noteq> 47 \<and> byte c \<noteq> 58 \<and> byte c \<noteq> 63 \<and> byte c \<noteq> 64"
    "is_letter c \<or> is_digit c \<or> c \<in> set ''-._~''"
proof -
  show "45 \<le> byte c \<and> byte c \<le> 126 \<and> byte c \<noteq> 47 \<and> byte c \<noteq> 58 \<and> byte c \<noteq> 63 \<and> byte c \<noteq> 64"
    using assms unfolding unreserved_def byte_def Let_def by (elim disjE conjE insertE emptyE) simp_all
  have chars: "byte c = 45 \<Longrightarrow> c = CHR ''-''" "byte c = 46 \<Longrightarrow> c = CHR ''.''" "byte c = 95 \<Longrightarrow> c = CHR ''_''" "byte c = 126 \<Longrightarrow> c = CHR ''~''"
    using chr_byte [of c] by (auto simp: chr_marks)
  show "is_letter c \<or> is_digit c \<or> c \<in> set ''-._~''"
    using assms unfolding unreserved_def is_letter_def is_digit_def byte_def [symmetric] Let_def
    by (elim disjE conjE insertE emptyE) (use chars in auto)
qed

lemma byte_simps [simp]: "byte (CHR ''#'') = 35" "byte (CHR ''?'') = 63" "byte (CHR ''@'') = 64" "byte (CHR '':'') = 58" "byte (CHR ''/'') = 47"
  by (simp_all add: byte_def)

lemma unreserved_clean: "unreserved c \<Longrightarrow> \<not> control c \<and> c \<noteq> CHR ''#'' \<and> c \<noteq> CHR ''?'' \<and> c \<noteq> CHR ''@'' \<and> c \<noteq> CHR '':'' \<and> c \<noteq> CHR ''/''"
  using unreserved_byte(1) [of c] by (auto simp: control_def)

lemma marks_clean: "\<forall>c \<in> set (marks m). \<not> control c \<and> (m \<noteq> MFragment \<longrightarrow> c \<noteq> CHR ''#'' \<and> c \<noteq> CHR ''?'')"
  by (induct m) (simp_all add: marks_def control_def byte_def)

lemma keep_clean: "keep m c \<Longrightarrow> \<not> control c \<and> (m \<noteq> MFragment \<longrightarrow> c \<noteq> CHR ''#'' \<and> c \<noteq> CHR ''?'')"
  using unreserved_clean [of c] marks_clean [of m] by (auto simp: keep_def)

lemma plain_clean: "plain m c \<Longrightarrow> m \<noteq> MFragment \<Longrightarrow> \<not> control c \<and> c \<noteq> CHR ''#'' \<and> c \<noteq> CHR ''?''"
  using keep_clean [of m c] by (auto simp: plain_def control_def byte_def)

lemma valid_encoded_clean: "valid_encoded MPath s \<Longrightarrow> c \<in> set s \<Longrightarrow> \<not> control c \<and> c \<noteq> CHR ''#'' \<and> c \<noteq> CHR ''?''"
proof -
  assume "valid_encoded MPath s" "c \<in> set s"
  then have "c \<in> set (CHR 0x27 # ''!$&()*+,;=:@[]%'') \<or> keep MPath c" unfolding valid_encoded_def list_all_iff by blast
  moreover have "\<forall>c \<in> set (CHR 0x27 # ''!$&()*+,;=:@[]%''). \<not> control c \<and> c \<noteq> CHR ''#'' \<and> c \<noteq> CHR ''?''"
    by (simp add: control_def byte_def)
  ultimately show "\<not> control c \<and> c \<noteq> CHR ''#'' \<and> c \<noteq> CHR ''?''" using keep_clean [of MPath c] by blast
qed

lemma escape_Nil [simp]: "escape m s = [] \<longleftrightarrow> s = []"
  by (cases s) (auto simp: pct_def)

lemma keep_slash [simp]: "keep MPath (CHR ''/'')"
  by (simp add: keep_def marks_def)

lemma unescape_slash: "unescape MPath (CHR ''/'' # r) = map_option (Cons (CHR ''/'')) (unescape MPath r)"
  by simp

lemma EscapedPath_facts:
  assumes "path = [] \<or> (\<exists>r. path = CHR ''/'' # r)" "unescape MPath path = Some (u_Path u)"
    "u_RawPath u = (if path = escape MPath (u_Path u) then [] else path)"
  shows "unescape MPath (EscapedPath u) = Some (u_Path u)" "EscapedPath u = [] \<or> (\<exists>r. EscapedPath u = CHR ''/'' # r)"
    "\<forall>c \<in> set (EscapedPath u). \<not> control c \<and> c \<noteq> CHR ''#'' \<and> c \<noteq> CHR ''?''"
proof -
  have root: "u_Path u = [] \<or> (\<exists>r. u_Path u = CHR ''/'' # r)"
    using assms(1,2) by (metis option.sel unescape.simps(1) map_option_eq_Some unescape_slash)
  then have star: "u_Path u \<noteq> ''*''" by auto
  show "unescape MPath (EscapedPath u) = Some (u_Path u)" using star by (simp add: EscapedPath_def unescape_escape)
  show "EscapedPath u = [] \<or> (\<exists>r. EscapedPath u = CHR ''/'' # r)"
    using root star assms(1,3) by (auto simp: EscapedPath_def simp del: unescape.simps)
  show "\<forall>c \<in> set (EscapedPath u). \<not> control c \<and> c \<noteq> CHR ''#'' \<and> c \<noteq> CHR ''?''"
    using star valid_encoded_clean [of "u_RawPath u"] escape_plain [of _ MPath "u_Path u"] plain_clean [of MPath]
    by (auto simp: EscapedPath_def)
qed

lemma escaped_part_facts:
  assumes "unescape m f = Some s" "raw = (if f = escape m s then [] else f)" "m \<noteq> MHost" "m \<noteq> MZone"
  shows "unescape m (escaped_part m raw s) = Some s" "s \<noteq> [] \<Longrightarrow> escaped_part m raw s \<noteq> []"
  using assms by (auto simp: escaped_part_def unescape_escape)

text \<open>The user information is written so that it is read back.\<close>

lemma plain_user:
  assumes "plain MUser c"
  shows "c \<noteq> CHR ''@'' \<and> c \<noteq> CHR '':'' \<and> c \<noteq> CHR ''/''"
    "is_letter c \<or> is_digit c \<or> c \<in> set (CHR 0x27 # ''-._:~!$&()*+,;=%@'')"
proof -
  have c: "unreserved c \<or> c \<in> set (marks MUser) \<or> c = CHR ''%''" using assms unfolding plain_def keep_def by blast
  have "\<forall>c \<in> set (marks MUser). c \<noteq> CHR ''@'' \<and> c \<noteq> CHR '':'' \<and> c \<noteq> CHR ''/''" by (simp add: marks_def)
  then show "c \<noteq> CHR ''@'' \<and> c \<noteq> CHR '':'' \<and> c \<noteq> CHR ''/''" using c unreserved_clean [of c] by fastforce
  have "set (marks MUser) \<union> set ''-._~'' \<union> {CHR ''%''} \<subseteq> set (CHR 0x27 # ''-._:~!$&()*+,;=%@'')" by (simp add: marks_def)
  then show "is_letter c \<or> is_digit c \<or> c \<in> set (CHR 0x27 # ''-._:~!$&()*+,;=%@'')"
    using c unreserved_byte(2) [of c] by blast
qed

definition authority_text :: "(string \<times> string option) option \<Rightarrow> string \<Rightarrow> string" where
  "authority_text user h = (case user of None \<Rightarrow> [] | Some ui \<Rightarrow> user_text ui @ ''@'') @ h"

lemma user_text_chars: "c \<in> set (user_text ui) \<Longrightarrow> plain MUser c \<or> c = CHR '':''"
  by (cases ui) (auto simp: user_text_def dest: escape_plain split: option.splits)

lemma loopback_chars:
  assumes "loopback_host h" "c \<in> set h"
  shows "c \<noteq> CHR ''@'' \<and> c \<noteq> CHR ''/'' \<and> c \<noteq> CHR ''#'' \<and> c \<noteq> CHR ''?'' \<and> \<not> control c"
proof -
  have "keep MHost c" using loopback_kept [OF assms(1)] assms(2) by (simp add: list_all_iff)
  moreover have "\<forall>c \<in> set (marks MHost). c \<noteq> CHR ''@'' \<and> c \<noteq> CHR ''/''" by (simp add: marks_def)
  ultimately show ?thesis using keep_clean [of MHost c] unreserved_clean [of c] by (auto simp: keep_def)
qed

lemma authority_written:
  assumes h: "loopback_host h"
  shows "parse_authority ''http'' (authority_text user h) = Some (user, h)" "CHR ''/'' \<notin> set (authority_text user h)"
    "\<forall>c \<in> set (authority_text user h). \<not> control c \<and> c \<noteq> CHR ''#'' \<and> c \<noteq> CHR ''?''"
proof -
  have colon: "\<not> control (CHR '':'')" by (simp add: control_def)
  have uc: "c \<noteq> CHR ''@'' \<and> c \<noteq> CHR ''/'' \<and> c \<noteq> CHR ''#'' \<and> c \<noteq> CHR ''?'' \<and> \<not> control c" if "c \<in> set (user_text ui)" for c ui
    using user_text_chars [OF that] plain_user(1) [of c] plain_clean [of MUser c] colon by auto
  have sep: "\<not> control (CHR ''@'')" by (simp add: control_def)
  show "CHR ''/'' \<notin> set (authority_text user h)"
    using loopback_chars [OF h] uc by (fastforce simp: authority_text_def split: option.splits)
  show "\<forall>c \<in> set (authority_text user h). \<not> control c \<and> c \<noteq> CHR ''#'' \<and> c \<noteq> CHR ''?''"
    using loopback_chars [OF h] uc sep by (fastforce simp: authority_text_def split: option.splits)
  have at: "CHR ''@'' \<notin> set h" using loopback_chars [OF h] by blast
  show "parse_authority ''http'' (authority_text user h) = Some (user, h)"
  proof (cases user)
    case None
    have "cut_last (CHR ''@'') h = None" using at by (simp add: cut_last_None)
    with None show ?thesis using loopback_parse [OF h] by (simp add: parse_authority_def authority_text_def)
  next
    case (Some ui)
    then have cut: "cut_last (CHR ''@'') (authority_text user h) = Some (user_text ui, h)"
      using at by (simp add: authority_text_def cut_last_Some)
    have valid: "valid_userinfo (user_text ui)"
      unfolding valid_userinfo_def list_all_iff using user_text_chars plain_user(2) by fastforce
    obtain n p where ui: "ui = (n, p)" by (cases ui)
    have nocolon: "CHR '':'' \<notin> set (escape MUser n)" using escape_plain plain_user(1) by blast
    show ?thesis
    proof (cases p)
      case None
      then have "user_text ui = escape MUser n" "str_cut (CHR '':'') (escape MUser n) = None"
        using nocolon by (simp_all add: ui user_text_def str_cut_None_iff)
      with cut valid show ?thesis using loopback_parse [OF h] None Some ui
        by (simp add: parse_authority_def unescape_escape)
    next
      case (Some q)
      then have "user_text ui = escape MUser n @ '':'' @ escape MUser q" by (simp add: ui user_text_def)
      moreover have "str_cut (CHR '':'') (escape MUser n @ '':'' @ escape MUser q) = Some (escape MUser n, escape MUser q)"
        using nocolon by (simp add: str_cut_Some_iff)
      ultimately show ?thesis using cut valid loopback_parse [OF h] Some \<open>user = Some ui\<close> ui
        by (simp add: parse_authority_def unescape_escape)
    qed
  qed
qed

section \<open>Query values\<close>

lemma query_escape_mode: "query_escape s = escape MQuery s"
  unfolding query_escape_def escape_def by (simp add: keep_def marks_def cong: if_cong)

lemma plain_query: "plain MQuery c \<Longrightarrow> c \<noteq> CHR '';'' \<and> c \<noteq> CHR ''='' \<and> c \<noteq> CHR ''&'' \<and> c \<noteq> CHR ''#'' \<and> \<not> control c"
proof -
  assume "plain MQuery c"
  then consider "unreserved c" | "c = CHR ''%''" | "c = CHR ''+''" by (auto simp: plain_def keep_def marks_def)
  then show ?thesis
  proof cases
    case 1
    have "byte (CHR '';'') = 59" "byte (CHR ''='') = 61" "byte (CHR ''&'') = 38" by (simp_all add: byte_def)
    moreover have "byte c \<noteq> 59 \<and> byte c \<noteq> 61 \<and> byte c \<noteq> 38"
      using 1 unfolding unreserved_def byte_def Let_def by (elim disjE conjE insertE emptyE) simp_all
    ultimately show ?thesis using unreserved_clean [OF 1] by auto
  qed (simp_all add: control_def byte_def)
qed

lemma escaped_query: "c \<in> set (query_escape s) \<Longrightarrow> c \<noteq> CHR '';'' \<and> c \<noteq> CHR ''='' \<and> c \<noteq> CHR ''&'' \<and> c \<noteq> CHR ''#'' \<and> \<not> control c"
  unfolding query_escape_mode using escape_plain plain_query by blast

definition pair_text :: "string \<times> string \<Rightarrow> string" where
  "pair_text kv = query_escape (fst kv) @ ''='' @ query_escape (snd kv)"

lemma pair_text_chars: "c \<in> set (pair_text kv) \<Longrightarrow> c \<noteq> CHR '';'' \<and> c \<noteq> CHR ''&'' \<and> c \<noteq> CHR ''#'' \<and> \<not> control c"
  using escaped_query [of c "fst kv"] escaped_query [of c "snd kv"] by (auto simp: pair_text_def control_def byte_def)

lemma query_pair_text: "query_pair (pair_text kv) = Some kv"
proof -
  have "cut_or (CHR ''='') (pair_text kv) = (query_escape (fst kv), query_escape (snd kv))"
    unfolding pair_text_def using escaped_query cut_or_present [of "CHR ''=''" "query_escape (fst kv)" "query_escape (snd kv)"] by auto
  moreover have "CHR '';'' \<notin> set (pair_text kv)" using pair_text_chars by blast
  moreover have "pair_text kv \<noteq> []" by (simp add: pair_text_def)
  ultimately show ?thesis by (simp add: query_pair_def) (simp add: query_escape_mode unescape_escape)
qed

lemma str_split_no: "c \<notin> set x \<Longrightarrow> str_split c x = [x]"
  by (induction x) auto

lemma str_split_append: "c \<notin> set x \<Longrightarrow> str_split c (x @ c # s) = x # str_split c s"
  by (induction x) auto

lemma str_split_join: "\<forall>x \<in> set xs. c \<notin> set x \<Longrightarrow> xs \<noteq> [] \<Longrightarrow> str_split c (str_join [c] xs) = xs"
  by (induction "[c]" xs rule: str_join.induct) (auto simp: str_split_no str_split_append)

lemma values_encode_pairs: "values_encode vs = str_join ''&'' (map pair_text (stable_sort (\<lambda>a b. fst a < fst b) vs))"
  unfolding values_encode_def by (intro arg_cong [where f = "str_join _"] map_cong refl) (simp add: pair_text_def split: prod.splits)

lemma parse_query_encode:
  assumes len: "length vs \<le> 10000"
  shows "parse_query (values_encode vs) = stable_sort (\<lambda>a b. fst a < fst b) vs"
proof (cases "vs = []")
  case True
  then show ?thesis by (simp add: values_encode_def parse_query_def List.map_filter_def query_pair_def)
next
  case False
  let ?ps = "stable_sort (\<lambda>a b. fst a < fst b) vs"
  have "str_split (CHR ''&'') (str_join ''&'' (map pair_text ?ps)) = map pair_text ?ps"
    using False pair_text_chars by (intro str_split_join) auto
  then have "parse_query (values_encode vs) = List.map_filter query_pair (map pair_text ?ps)"
    using len by (simp add: parse_query_def values_encode_pairs)
  also have "\<dots> = ?ps" by (simp add: List.map_filter_def query_pair_text comp_def)
  finally show ?thesis .
qed

lemma str_join_chars: "c \<in> set (str_join sep xs) \<Longrightarrow> c \<in> set sep \<or> (\<exists>x \<in> set xs. c \<in> set x)"
  by (induction sep xs rule: str_join.induct) auto

lemma values_encode_clean: "c \<in> set (values_encode vs) \<Longrightarrow> \<not> control c \<and> c \<noteq> CHR ''#''"
  unfolding values_encode_pairs
  by (drule str_join_chars) (auto simp: control_def byte_def dest: pair_text_chars)

end
