(* ===== verification/JsonParse.thy ===== *)
theory JsonParse
  imports JsonText UrlParse
begin

text \<open>
  Reading JSON text the way \<^verbatim>\<open>encoding/json\<close> does: the grammar with white space and every
  escape, bytes that are no UTF-8 as U+FFFD, unpaired surrogates likewise, at most 10000
  levels of nesting. What \<open>doc_text\<close> writes is read back.
\<close>

section \<open>Strings\<close>

text \<open>Four hexadecimal digits.\<close>

definition read_hex4 :: "string \<Rightarrow> (nat \<times> string) option" where
  "read_hex4 s = (case s of
     a # b # c # d # r \<Rightarrow>
       (case (unhex a, unhex b, unhex c, unhex d) of
          (Some w, Some x, Some y, Some z) \<Rightarrow> Some (((w * 16 + x) * 16 + y) * 16 + z, r)
        | _ \<Rightarrow> None)
   | _ \<Rightarrow> None)"

text \<open>\<open>utf8.AppendRune\<close>; a surrogate is written as U+FFFD.\<close>

definition rune_bytes :: "nat \<Rightarrow> string" where
  "rune_bytes n =
     (if n < 0x80 then [chr n]
      else if n < 0x800 then [chr (0xC0 + n div 64), chr (0x80 + n mod 64)]
      else if 0xD800 \<le> n \<and> n < 0xE000 \<or> 0x10FFFF < n then rune_error
      else if n < 0x10000 then [chr (0xE0 + n div 4096), chr (0x80 + n div 64 mod 64), chr (0x80 + n mod 64)]
      else [chr (0xF0 + n div 262144), chr (0x80 + n div 4096 mod 64), chr (0x80 + n div 64 mod 64), chr (0x80 + n mod 64)])"

text \<open>An escape after its backslash: the bytes it stands for and the rest.\<close>

definition unicode_escape_at :: "string \<Rightarrow> (string \<times> string) option" where
  "unicode_escape_at s = (case read_hex4 s of
     None \<Rightarrow> None
   | Some (n, r) \<Rightarrow>
      (if 0xD800 \<le> n \<and> n < 0xE000 then
         (case cut_prefix r [CHR 0x5C, CHR ''u''] of
            None \<Rightarrow> Some (rune_error, r)
          | Some r1 \<Rightarrow>
             (case read_hex4 r1 of
                None \<Rightarrow> Some (rune_error, r)
              | Some (m, r2) \<Rightarrow>
                 (if n < 0xDC00 \<and> 0xDC00 \<le> m \<and> m < 0xE000
                  then Some (rune_bytes ((n - 0xD800) * 1024 + (m - 0xDC00) + 0x10000), r2)
                  else Some (rune_error, r))))
       else Some (rune_bytes n, r)))"

definition escape_at :: "string \<Rightarrow> (string \<times> string) option" where
  "escape_at s = (case s of
     [] \<Rightarrow> None
   | c # r \<Rightarrow>
      (if c = CHR ''u'' then unicode_escape_at r
       else if c = CHR 0x22 \<or> c = CHR 0x5C \<or> c = CHR ''/'' then Some ([c], r)
       else if c = CHR ''b'' then Some ([CHR 0x08], r) else if c = CHR ''f'' then Some ([CHR 0x0C], r)
       else if c = CHR ''n'' then Some ([CHR 0x0A], r) else if c = CHR ''r'' then Some ([CHR 0x0D], r)
       else if c = CHR ''t'' then Some ([CHR 0x09], r) else None))"

lemma read_hex4_less: "read_hex4 s = Some (n, r) \<Longrightarrow> length r < length s"
  by (auto simp: read_hex4_def split: list.splits option.splits)

lemma unicode_escape_less: "unicode_escape_at s = Some (b, r) \<Longrightarrow> length r < length s"
  by (auto simp: unicode_escape_at_def cut_prefix_Some_iff dest!: read_hex4_less split: option.splits if_splits)

lemma escape_at_less: "escape_at s = Some (b, r) \<Longrightarrow> length r < length s"
  by (auto simp: escape_at_def dest: unicode_escape_less split: list.splits if_splits)

text \<open>The characters after the opening quote: the string and the rest behind the closing one.\<close>

function read_string :: "string \<Rightarrow> (string \<times> string) option" where
  "read_string [] = None"
| "read_string (c # s) =
     (if c = CHR 0x22 then Some ([], s)
      else if c = CHR 0x5C then
        (case escape_at s of None \<Rightarrow> None
         | Some (b, r) \<Rightarrow> map_option (apfst (append b)) (read_string r))
      else if byte c < 0x20 then None
      else if rune_len (c # s) = 0 then map_option (apfst (append rune_error)) (read_string s)
      else map_option (apfst (append (take (rune_len (c # s)) (c # s)))) (read_string (drop (rune_len (c # s) - 1) s)))"
  by pat_completeness auto
termination by (relation "measure length") (auto dest: escape_at_less)

declare read_string.simps [simp del]

section \<open>Values\<close>

definition json_space :: "char \<Rightarrow> bool" where
  "json_space c \<longleftrightarrow> c = CHR '' '' \<or> c = CHR 0x09 \<or> c = CHR 0x0A \<or> c = CHR 0x0D"

definition skip_space :: "string \<Rightarrow> string" where "skip_space s = dropWhile json_space s"

definition read_digits :: "string \<Rightarrow> (string \<times> string) option" where
  "read_digits s = (let d = takeWhile is_digit s in if d = [] then None else Some (d, dropWhile is_digit s))"

definition read_integer :: "string \<Rightarrow> (string \<times> string) option" where
  "read_integer s = (case s of c # r \<Rightarrow> if c = CHR ''0'' then Some ([c], r) else read_digits s | [] \<Rightarrow> None)"

definition read_fraction :: "string \<Rightarrow> (string \<times> string) option" where
  "read_fraction s = (case s of
     c # r \<Rightarrow> if c = CHR ''.'' then map_option (apfst (Cons c)) (read_digits r) else Some ([], s)
   | [] \<Rightarrow> Some ([], []))"

definition read_exponent :: "string \<Rightarrow> (string \<times> string) option" where
  "read_exponent s = (case s of
     c # r \<Rightarrow> if c = CHR ''e'' \<or> c = CHR ''E'' then
         (case r of
            d # q \<Rightarrow> if d = CHR ''+'' \<or> d = CHR ''-'' then map_option (apfst (\<lambda>x. c # d # x)) (read_digits q)
                      else map_option (apfst (Cons c)) (read_digits r)
          | [] \<Rightarrow> None)
       else Some ([], s)
   | [] \<Rightarrow> Some ([], []))"

definition read_number :: "string \<Rightarrow> (string \<times> string) option" where
  "read_number s =
     (let (sign, s) = (case s of c # r \<Rightarrow> if c = CHR ''-'' then ([c], r) else ([], s) | [] \<Rightarrow> ([], [])) in
      case read_integer s of None \<Rightarrow> None
      | Some (a, r) \<Rightarrow> (case read_fraction r of None \<Rightarrow> None
      | Some (b, r) \<Rightarrow> (case read_exponent r of None \<Rightarrow> None
      | Some (c, r) \<Rightarrow> Some (sign @ a @ b @ c, r))))"

text \<open>The first character after white space, with the rest.\<close>

definition next_char :: "string \<Rightarrow> (char \<times> string) option" where
  "next_char s = (case skip_space s of [] \<Rightarrow> None | c # r \<Rightarrow> Some (c, r))"

definition max_depth :: nat where "max_depth = 10000"

definition read_literal :: "string \<Rightarrow> (doc \<times> string) option" where
  "read_literal s =
     (case cut_prefix s ''null'' of Some r \<Rightarrow> Some (DNull, r) | None \<Rightarrow>
     (case cut_prefix s ''true'' of Some r \<Rightarrow> Some (DBool True, r) | None \<Rightarrow>
     (case cut_prefix s ''false'' of Some r \<Rightarrow> Some (DBool False, r) | None \<Rightarrow>
        map_option (apfst DNum) (read_number s))))"

text \<open>Fuel is spent on every value and every member; \<open>level\<close> is the nesting so far.\<close>

fun read_value :: "nat \<Rightarrow> nat \<Rightarrow> string \<Rightarrow> (doc \<times> string) option"
and read_list :: "nat \<Rightarrow> nat \<Rightarrow> string \<Rightarrow> (doc list \<times> string) option"
and read_fields :: "nat \<Rightarrow> nat \<Rightarrow> string \<Rightarrow> ((string \<times> doc) list \<times> string) option" where
  "read_value 0 level s = None"
| "read_value (Suc k) level s =
     (case next_char s of
        None \<Rightarrow> None
      | Some (c, r) \<Rightarrow>
         (if c = CHR 0x22 then map_option (apfst DStr) (read_string r)
          else if c = CHR ''['' then
            (if max_depth \<le> level then None
             else if map_option fst (next_char r) = Some (CHR '']'') then map_option (\<lambda>x. (DArr [], snd x)) (next_char r)
             else map_option (apfst DArr) (read_list k (Suc level) r))
          else if c = CHR ''{'' then
            (if max_depth \<le> level then None
             else if map_option fst (next_char r) = Some (CHR ''}'') then map_option (\<lambda>x. (DObj [], snd x)) (next_char r)
             else map_option (apfst DObj) (read_fields k (Suc level) r))
          else read_literal (c # r)))"
| "read_list 0 level s = None"
| "read_list (Suc k) level s =
     (case read_value k level s of
        None \<Rightarrow> None
      | Some (v, r) \<Rightarrow>
         (case next_char r of
            Some (c, r') \<Rightarrow> (if c = CHR '','' then map_option (apfst (Cons v)) (read_list k level r')
                             else if c = CHR '']'' then Some ([v], r') else None)
          | None \<Rightarrow> None))"
| "read_fields 0 level s = None"
| "read_fields (Suc k) level s =
     (case next_char s of
        None \<Rightarrow> None
      | Some (q, r) \<Rightarrow>
         (if q \<noteq> CHR 0x22 then None
          else case read_string r of None \<Rightarrow> None
          | Some (key, r) \<Rightarrow>
             (case next_char r of None \<Rightarrow> None
              | Some (colon, r) \<Rightarrow>
                 (if colon \<noteq> CHR '':'' then None
                  else case read_value k level r of None \<Rightarrow> None
                  | Some (v, r) \<Rightarrow>
                     (case next_char r of
                        Some (c, r') \<Rightarrow> (if c = CHR '','' then map_option (apfst (Cons (key, v))) (read_fields k level r')
                                         else if c = CHR ''}'' then Some ([(key, v)], r') else None)
                      | None \<Rightarrow> None)))))"

text \<open>A whole text; each character of it costs at most two steps.\<close>

definition read_doc :: "string \<Rightarrow> doc option" where
  "read_doc s = (case read_value (2 * length s + 1) 0 s of
     Some (d, r) \<Rightarrow> if skip_space r = [] then Some d else None
   | None \<Rightarrow> None)"

section \<open>Strings are read back\<close>

text \<open>A rune as \<open>runes\<close> yields it: a well-formed encoding, whatever follows.\<close>

definition good_rune :: "string \<Rightarrow> bool" where
  "good_rune u \<longleftrightarrow> u \<noteq> [] \<and> (\<forall>x. rune_len (u @ x) = length u)"

lemma rune_len_prefix: "0 < rune_len (a # r) \<Longrightarrow> rune_len (take (rune_len (a # r)) (a # r) @ x) = rune_len (a # r)"
proof -
  assume pos: "0 < rune_len (a # r)"
  show ?thesis
  proof (cases "byte_in 0 0x7F a")
    case True
    then show ?thesis by (simp add: rune_len_def)
  next
    case one: False
    show ?thesis
    proof (cases "byte_in 0xC2 0xDF a")
      case True
      with pos one obtain b q where "r = b # q" "byte_in 0x80 0xBF b" by (auto simp: rune_len_def split: list.splits if_splits)
      with True one show ?thesis by (simp add: rune_len_def)
    next
      case two: False
      show ?thesis
      proof (cases "byte_in 0xE0 0xEF a")
        case True
        with pos one two obtain b c q where "r = b # c # q" by (cases r; cases "tl r") (auto simp: rune_len_def)
        with pos one two True show ?thesis by (simp add: rune_len_def split: if_splits)
      next
        case three: False
        with pos one two have "byte_in 0xF0 0xF4 a" by (simp add: rune_len_def split: if_splits)
        moreover from this pos one two three obtain b c d q where "r = b # c # d # q"
          by (cases r; cases "tl r"; cases "tl (tl r)") (auto simp: rune_len_def)
        ultimately show ?thesis using pos one two three by (simp add: rune_len_def split: if_splits)
      qed
    qed
  qed
qed

lemma good_rune_error: "good_rune rune_error"
  by (simp add: good_rune_def rune_error_def rune_len_def byte_in_def)

lemma runes_good: "u \<in> set (runes s) \<Longrightarrow> good_rune u"
proof (induction s rule: runes.induct)
  case (2 a r)
  show ?case
  proof (cases "rune_len (a # r) = 0")
    case True
    with 2 show ?thesis using good_rune_error by auto
  next
    case False
    then have "good_rune (take (rune_len (a # r)) (a # r))"
      using rune_len_prefix [of a r] rune_len_le [of "a # r"] by (auto simp: good_rune_def)
    with 2 False show ?thesis by (auto simp: Let_def)
  qed
qed simp

lemma read_string_other:
  assumes "good_rune u" "byte (hd u) \<ge> 0x20" "hd u \<noteq> CHR 0x22" "hd u \<noteq> CHR 0x5C"
  shows "read_string (u @ x) = map_option (apfst (append u)) (read_string x)"
proof -
  obtain c v where u: "u = c # v" using assms(1) by (cases u) (auto simp: good_rune_def)
  have n: "rune_len (c # v @ x) = length u" using assms(1) u by (auto simp: good_rune_def)
  then show ?thesis using assms u by (simp add: read_string.simps(2) n)
qed

lemma unhex_digit: assumes "n < 16" shows "unhex (''0123456789abcdef'' ! n) = Some n"
proof -
  have "n = 0 \<or> n = 1 \<or> n = 2 \<or> n = 3 \<or> n = 4 \<or> n = 5 \<or> n = 6 \<or> n = 7 \<or> n = 8 \<or> n = 9 \<or> n = 10 \<or>
    n = 11 \<or> n = 12 \<or> n = 13 \<or> n = 14 \<or> n = 15" using assms by presburger
  then show ?thesis by (elim disjE) (simp_all add: unhex_def byte_def)
qed

lemma read_hex4_hex4: assumes "n < 65536" shows "read_hex4 (hex4 n @ x) = Some (n, x)"
proof -
  define m where "m = n div 16"
  define l where "l = m div 16"
  have d: "n div 256 = l" "n div 4096 = l div 16" by (simp_all add: l_def m_def div_mult2_eq [symmetric])
  have "l div 16 mod 16 = l div 16" using assms d(2) by simp
  moreover have "l div 16 * 16 + l mod 16 = l" "l * 16 + m mod 16 = m" "m * 16 + n mod 16 = n"
    using div_mult_mod_eq [of m 16] div_mult_mod_eq [of n 16] by (simp_all add: l_def m_def)
  ultimately have "((n div 4096 mod 16 * 16 + n div 256 mod 16) * 16 + n div 16 mod 16) * 16 + n mod 16 = n"
    by (simp only: d m_def [symmetric])
  moreover have "n div 4096 mod 16 = n div 4096" "n div 4096 < 16" using assms by simp_all
  ultimately show ?thesis by (simp add: read_hex4_def hex4_def unhex_digit del: nth_Cons_numeral)
qed

lemma unicode_escape_read:
  assumes "n < 65536" "n < 0xD800 \<or> 0xE000 \<le> n"
  shows "read_string (unicode_escape n @ x) = map_option (apfst (append (rune_bytes n))) (read_string x)"
proof -
  have "read_string (unicode_escape n @ x) = (case escape_at (CHR ''u'' # hex4 n @ x) of None \<Rightarrow> None
      | Some (b, r) \<Rightarrow> map_option (apfst (append b)) (read_string r))"
    by (simp add: unicode_escape_def read_string.simps(2))
  also have "escape_at (CHR ''u'' # hex4 n @ x) = Some (rune_bytes n, x)"
    using assms by (auto simp: escape_at_def unicode_escape_at_def read_hex4_hex4)
  finally show ?thesis by simp
qed

lemma short_escape_read:
  assumes "escape_at (c # x) = Some ([d], x)"
  shows "read_string (CHR 0x5C # c # x) = map_option (apfst (append [d])) (read_string x)"
  using assms by (simp add: read_string.simps(2))

lemma chr_escapes: "chr 34 = CHR 0x22" "chr 92 = CHR 0x5C" "chr 8 = CHR 0x08" "chr 12 = CHR 0x0C" "chr 10 = CHR 0x0A"
  "chr 13 = CHR 0x0D" "chr 9 = CHR 0x09"
  by code_simp+

lemma byte_eq: "byte c = n \<Longrightarrow> c = chr n"
  using chr_byte [of c] by simp

lemma escape_rune_single: "escape_rune [c] = (let n = byte c in
       if n = 0x22 \<or> n = 0x5C then [CHR 0x5C, c]
       else if n = 0x08 then [CHR 0x5C, CHR ''b''] else if n = 0x0C then [CHR 0x5C, CHR ''f'']
       else if n = 0x0A then [CHR 0x5C, CHR ''n''] else if n = 0x0D then [CHR 0x5C, CHR ''r'']
       else if n = 0x09 then [CHR 0x5C, CHR ''t'']
       else if n < 0x20 \<or> n = 0x3C \<or> n = 0x3E \<or> n = 0x26 then unicode_escape n
       else [c])"
  by (simp add: escape_rune_def byte_def)

lemma good_single: "good_rune [c] \<Longrightarrow> byte c < 0x80"
proof -
  assume "good_rune [c]"
  then have "rune_len [c] = 1" by (auto simp: good_rune_def)
  then show ?thesis by (auto simp: rune_len_def byte_in_def byte_def split: if_splits)
qed

lemma read_escaped_single:
  assumes "good_rune [c]"
  shows "read_string (escape_rune [c] @ x) = map_option (apfst (append [c])) (read_string x)"
proof -
  note esc = escape_rune_single [of c, unfolded Let_def]
  consider (mark) "byte c = 0x22 \<or> byte c = 0x5C" | (b) "byte c = 0x08" | (f) "byte c = 0x0C" | (n) "byte c = 0x0A"
    | (r) "byte c = 0x0D" | (t) "byte c = 0x09"
    | (other) "byte c \<notin> {0x22, 0x5C, 0x08, 0x0C, 0x0A, 0x0D, 0x09}" by auto
  then show ?thesis
  proof cases
    case mark
    then have "c = CHR 0x22 \<or> c = CHR 0x5C" by (auto dest!: byte_eq simp: chr_escapes)
    moreover have "escape_rune [c] = [CHR 0x5C, c]" using mark esc by simp
    ultimately show ?thesis by (auto intro!: short_escape_read simp: escape_at_def)
  next
    case other
    show ?thesis
    proof (cases "byte c < 0x20 \<or> byte c = 0x3C \<or> byte c = 0x3E \<or> byte c = 0x26")
      case True
      then have "rune_bytes (byte c) = [c]" by (auto simp: rune_bytes_def)
      with True other esc show ?thesis using unicode_escape_read [of "byte c" x] byte_less [of c] by simp
    next
      case False
      then have "escape_rune [c] = [c]" using other esc by auto
      moreover have "c \<noteq> CHR 0x22" "c \<noteq> CHR 0x5C" using other by (auto simp: byte_def)
      ultimately show ?thesis using read_string_other [OF assms, of x] False by simp
    qed
  qed (use esc in \<open>auto dest!: byte_eq simp: chr_escapes escape_at_def intro!: short_escape_read\<close>)
qed

lemma read_escaped:
  assumes u: "good_rune u"
  shows "read_string (escape_rune u @ x) = map_option (apfst (append u)) (read_string x)"
proof (cases "\<exists>c. u = [c]")
  case True
  with read_escaped_single u show ?thesis by auto
next
  case False
  then obtain a b v where ab: "u = a # b # v" using u by (cases u; cases "tl u") (auto simp: good_rune_def)
  have "\<not> byte_in 0 0x7F a"
  proof
    assume "byte_in 0 0x7F a"
    then have "rune_len (u @ []) = 1" by (simp add: ab rune_len_def)
    moreover have "rune_len (u @ []) = length u" using u by (simp only: good_rune_def)
    ultimately show False by (simp add: ab)
  qed
  then have a: "0x80 \<le> byte a" by (simp add: byte_in_def byte_def)
  then have "a \<noteq> CHR 0x22" "a \<noteq> CHR 0x5C" by (auto simp: byte_def)
  then have plain: "read_string (u @ x) = map_option (apfst (append u)) (read_string x)"
    using read_string_other [OF u, of x] a by (simp add: ab)
  have "chr 226 = CHR 0xE2" "chr 128 = CHR 0x80" "chr 168 = CHR 0xA8" "chr 169 = CHR 0xA9" by code_simp+
  then have sep: "rune_bytes 0x2028 = [CHR 0xE2, CHR 0x80, CHR 0xA8]" "rune_bytes 0x2029 = [CHR 0xE2, CHR 0x80, CHR 0xA9]"
    by (simp_all add: rune_bytes_def)
  have "escape_rune u = (if u = [CHR 0xE2, CHR 0x80, CHR 0xA8] then unicode_escape 0x2028
      else if u = [CHR 0xE2, CHR 0x80, CHR 0xA9] then unicode_escape 0x2029 else u)"
    by (simp add: escape_rune_def ab)
  with plain sep unicode_escape_read show ?thesis by (cases "u = [CHR 0xE2, CHR 0x80, CHR 0xA8]"; cases "u = [CHR 0xE2, CHR 0x80, CHR 0xA9]") simp_all
qed

text \<open>The text of a string is read back as the string with its invalid bytes replaced.\<close>

lemma read_string_text: "string_text s = CHR 0x22 # t \<Longrightarrow> read_string (t @ x) = Some (utf8 s, x)"
proof -
  have "read_string (concat (map escape_rune us) @ CHR 0x22 # x) = Some (concat us, x)" if "\<forall>u \<in> set us. good_rune u" for us
    using that by (induction us) (simp_all add: read_string.simps(2) read_escaped)
  moreover assume "string_text s = CHR 0x22 # t"
  ultimately show ?thesis using runes_good by (auto simp: string_text_def utf8_def)
qed

section \<open>Documents are read back\<close>

text \<open>Numbers in the grammar, strings and keys in UTF-8.\<close>

fun text_ok :: "doc \<Rightarrow> bool"
and texts_ok :: "doc list \<Rightarrow> bool"
and fields_ok :: "(string \<times> doc) list \<Rightarrow> bool" where
  "text_ok DNull \<longleftrightarrow> True"
| "text_ok (DBool b) \<longleftrightarrow> True"
| "text_ok (DNum s) \<longleftrightarrow> read_number s = Some (s, [])"
| "text_ok (DStr s) \<longleftrightarrow> utf8 s = s"
| "text_ok (DArr xs) \<longleftrightarrow> texts_ok xs"
| "text_ok (DObj fs) \<longleftrightarrow> fields_ok fs"
| "texts_ok [] \<longleftrightarrow> True"
| "texts_ok (x # xs) \<longleftrightarrow> text_ok x \<and> texts_ok xs"
| "fields_ok [] \<longleftrightarrow> True"
| "fields_ok ((k, x) # fs) \<longleftrightarrow> utf8 k = k \<and> text_ok x \<and> fields_ok fs"

fun doc_depth :: "doc \<Rightarrow> nat"
and docs_depth :: "doc list \<Rightarrow> nat"
and fields_depth :: "(string \<times> doc) list \<Rightarrow> nat" where
  "doc_depth DNull = 0"
| "doc_depth (DBool b) = 0"
| "doc_depth (DNum s) = 0"
| "doc_depth (DStr s) = 0"
| "doc_depth (DArr xs) = Suc (docs_depth xs)"
| "doc_depth (DObj fs) = Suc (fields_depth fs)"
| "docs_depth [] = 0"
| "docs_depth (x # xs) = max (doc_depth x) (docs_depth xs)"
| "fields_depth [] = 0"
| "fields_depth ((k, x) # fs) = max (doc_depth x) (fields_depth fs)"

text \<open>What may follow a value inside a document.\<close>

definition stops :: "string \<Rightarrow> bool" where
  "stops r \<longleftrightarrow> (case r of [] \<Rightarrow> True | c # _ \<Rightarrow> c = CHR '','' \<or> c = CHR '']'' \<or> c = CHR ''}'')"

lemma stops_digit: "stops r \<Longrightarrow> takeWhile is_digit r = [] \<and> dropWhile is_digit r = r"
  by (auto simp: stops_def is_digit_def byte_def split: list.splits)

lemma read_digits_append: "read_digits s = Some (d, r) \<Longrightarrow> stops x \<Longrightarrow> read_digits (s @ x) = Some (d, r @ x)"
proof -
  assume d: "read_digits s = Some (d, r)" and x: "stops x"
  have "takeWhile is_digit (s @ x) = takeWhile is_digit s \<and> dropWhile is_digit (s @ x) = dropWhile is_digit s @ x"
  proof (cases "list_all is_digit s")
    case True
    then have a: "takeWhile is_digit s = s" "dropWhile is_digit s = []" by (simp_all add: takeWhile_eq_all_conv list_all_iff)
    have b: "takeWhile is_digit (s @ x) = s @ takeWhile is_digit x" "dropWhile is_digit (s @ x) = dropWhile is_digit x"
      using True by (auto simp: list_all_iff intro: takeWhile_append2 dropWhile_append2)
    show ?thesis unfolding a b using stops_digit [OF x] by simp
  next
    case False
    then obtain c where c: "c \<in> set s" "\<not> is_digit c" by (auto simp: list_all_iff)
    then show ?thesis by (simp add: takeWhile_append1 [OF c(1)] dropWhile_append1 [OF c(1)])
  qed
  with d show ?thesis by (auto simp: read_digits_def Let_def split: if_splits)
qed

lemma read_integer_append: "read_integer s = Some (d, r) \<Longrightarrow> stops x \<Longrightarrow> read_integer (s @ x) = Some (d, r @ x)"
  using read_digits_append [of s d r x] by (auto simp: read_integer_def split: list.splits if_splits)

lemma stops_none: "stops x \<Longrightarrow> read_fraction x = Some ([], x) \<and> read_exponent x = Some ([], x)"
  by (cases x) (auto simp: stops_def read_fraction_def read_exponent_def)

lemma read_fraction_append: "read_fraction s = Some (d, r) \<Longrightarrow> stops x \<Longrightarrow> read_fraction (s @ x) = Some (d, r @ x)"
  using stops_none [of x] by (cases s) (auto simp: read_fraction_def dest: read_digits_append split: if_splits)

lemma read_exponent_append: "read_exponent s = Some (d, r) \<Longrightarrow> stops x \<Longrightarrow> read_exponent (s @ x) = Some (d, r @ x)"
  using stops_none [of x]
  by (cases s; cases "tl s") (auto simp: read_exponent_def dest: read_digits_append split: if_splits)

lemma read_number_append:
  assumes "read_number s = Some (d, r)" "stops x"
  shows "read_number (s @ x) = Some (d, r @ x)"
proof -
  obtain sign t where st: "(case s of c # r \<Rightarrow> if c = CHR ''-'' then ([c], r) else ([], s) | [] \<Rightarrow> ([], [])) = (sign, t)" by fastforce
  from assms(1) obtain a ra b rb c where p: "read_integer t = Some (a, ra)" "read_fraction ra = Some (b, rb)"
    "read_exponent rb = Some (c, r)" "d = sign @ a @ b @ c"
    by (auto simp: read_number_def st split: option.splits)
  have "s \<noteq> []" using p(1) st by (auto simp: read_integer_def)
  then have "(case s @ x of c # r \<Rightarrow> if c = CHR ''-'' then ([c], r) else ([], s @ x) | [] \<Rightarrow> ([], [])) = (sign, t @ x)"
    using st by (cases s) (auto split: if_splits)
  with p read_integer_append [OF p(1) assms(2)] read_fraction_append [OF p(2) assms(2)] read_exponent_append [OF p(3) assms(2)]
  show ?thesis by (simp add: read_number_def)
qed

lemma number_start: "read_number s = Some (d, r) \<Longrightarrow> \<exists>c t. s = c # t \<and> (c = CHR ''-'' \<or> is_digit c)"
  by (cases s) (auto simp: read_number_def read_integer_def read_digits_def Let_def is_digit_def byte_def split: if_splits option.splits)

text \<open>The first character of a value.\<close>

lemma doc_text_start:
  assumes "text_ok d"
  shows "\<exists>c t. doc_text d = c # t \<and> \<not> json_space c \<and> c \<noteq> CHR '']'' \<and>
    (c = CHR 0x22 \<longrightarrow> (\<exists>s. d = DStr s)) \<and> (c = CHR ''['' \<longrightarrow> (\<exists>xs. d = DArr xs)) \<and> (c = CHR ''{'' \<longrightarrow> (\<exists>fs. d = DObj fs))"
proof (cases d)
  case (DNum s)
  with assms number_start [of s s "[]"] show ?thesis by (auto simp: json_space_def is_digit_def byte_def)
qed (auto simp: json_space_def string_text_def)

lemma next_char_Cons: "\<not> json_space c \<Longrightarrow> next_char (c # r) = Some (c, r)"
  by (simp add: next_char_def skip_space_def)

lemma read_literal_text:
  assumes "text_ok d" "stops x" "\<And>s. d \<noteq> DStr s" "\<And>xs. d \<noteq> DArr xs" "\<And>fs. d \<noteq> DObj fs"
  shows "read_literal (doc_text d @ x) = Some (d, x)"
proof (cases d)
  case (DNum s)
  with assms(1) have n: "read_number s = Some (s, [])" by simp
  obtain c t where s: "s = c # t" "c = CHR ''-'' \<or> is_digit c" using number_start [OF n] by blast
  then have "c \<noteq> CHR ''n''" "c \<noteq> CHR ''t''" "c \<noteq> CHR ''f''" by (auto simp: is_digit_def byte_def)
  then have "cut_prefix (s @ x) ''null'' = None" "cut_prefix (s @ x) ''true'' = None" "cut_prefix (s @ x) ''false'' = None"
    by (simp_all add: s(1) cut_prefix_def has_prefix_def)
  with DNum read_number_append [OF n assms(2)] show ?thesis by (simp add: read_literal_def)
next
  case (DBool b)
  then show ?thesis by (cases b) (simp_all add: read_literal_def cut_prefix_def has_prefix_def)
qed (use assms in \<open>auto simp: read_literal_def cut_prefix_def has_prefix_def\<close>)

text \<open>The fuel a document needs, at most two for each character of its text.\<close>

fun need :: "doc \<Rightarrow> nat"
and needs :: "doc list \<Rightarrow> nat"
and fields_need :: "(string \<times> doc) list \<Rightarrow> nat" where
  "need DNull = 1"
| "need (DBool b) = 1"
| "need (DNum s) = 1"
| "need (DStr s) = 1"
| "need (DArr xs) = Suc (needs xs)"
| "need (DObj fs) = Suc (fields_need fs)"
| "needs [] = 0"
| "needs (x # xs) = Suc (max (need x) (needs xs))"
| "fields_need [] = 0"
| "fields_need ((k, x) # fs) = Suc (max (need x) (fields_need fs))"

lemma str_join_Cons: "xs \<noteq> [] \<Longrightarrow> str_join sep (x # xs) = x @ sep @ str_join sep xs"
  by (cases xs) simp_all

lemma texts_Nil [simp]: "list_texts xs = [] \<longleftrightarrow> xs = []" "field_texts fs = [] \<longleftrightarrow> fs = []"
  by (cases xs, simp_all) (cases fs, auto)

lemma need_length:
  "text_ok d \<Longrightarrow> need d \<le> 2 * length (doc_text d)"
  "texts_ok xs \<Longrightarrow> needs xs \<le> 2 * length (str_join '','' (list_texts xs)) + 1"
  "fields_ok fs \<Longrightarrow> fields_need fs \<le> 2 * length (str_join '','' (field_texts fs)) + 1"
proof (induction d and xs and fs rule: need_needs_fields_need.induct)
  case (3 s)
  then show ?case using number_start [of s s "[]"] by auto
next
  case (8 x xs)
  then show ?case by (cases "xs = []") (auto simp: str_join_Cons)
next
  case (10 k x fs)
  then show ?case by (cases "fs = []") (auto simp: str_join_Cons)
qed (auto simp: string_text_def)

lemma read_back:
  "text_ok d \<Longrightarrow> need d \<le> k \<Longrightarrow> level + doc_depth d \<le> max_depth \<Longrightarrow> stops x \<Longrightarrow>
     read_value k level (doc_text d @ x) = Some (d, x)"
  "texts_ok xs \<Longrightarrow> xs \<noteq> [] \<Longrightarrow> needs xs \<le> k \<Longrightarrow> level + docs_depth xs \<le> max_depth \<Longrightarrow>
     read_list k level (str_join '','' (list_texts xs) @ CHR '']'' # x) = Some (xs, x)"
  "fields_ok fs \<Longrightarrow> fs \<noteq> [] \<Longrightarrow> fields_need fs \<le> k \<Longrightarrow> level + fields_depth fs \<le> max_depth \<Longrightarrow>
     read_fields k level (str_join '','' (field_texts fs) @ CHR ''}'' # x) = Some (fs, x)"
proof (induction d and xs and fs arbitrary: k level x and k level x and k level x rule: need_needs_fields_need.induct)
  case (1 k level x)
  then show ?case using read_literal_text [of DNull x] by (cases k) (auto simp: next_char_Cons json_space_def)
next
  case (2 b k level x)
  then show ?case using read_literal_text [of "DBool b" x] by (cases k; cases b) (auto simp: next_char_Cons json_space_def)
next
  case (3 s k level x)
  then obtain c t where s: "s = c # t" "c = CHR ''-'' \<or> is_digit c" using number_start [of s s "[]"] by auto
  then have c: "\<not> json_space c" "c \<noteq> CHR 0x22" "c \<noteq> CHR ''[''" "c \<noteq> CHR ''{''" by (auto simp: json_space_def is_digit_def byte_def)
  have "read_literal (s @ x) = Some (DNum s, x)" using read_literal_text [of "DNum s" x] 3 by simp
  with 3(2) c show ?case by (cases k) (auto simp: s(1) next_char_Cons)
next
  case (4 s k level x)
  have "string_text s = CHR 0x22 # tl (string_text s)" by (simp add: string_text_def)
  from read_string_text [OF this, of x] 4(1,2) show ?case
    by (cases k) (auto simp: string_text_def next_char_Cons json_space_def)
next
  case (5 xs k level x)
  then obtain k' where k: "k = Suc k'" by (cases k) auto
  show ?case
  proof (cases xs)
    case Nil
    with 5(4) show ?thesis by (simp add: k next_char_Cons json_space_def)
  next
    case (Cons y ys)
    then have "text_ok y" using 5(2) by simp
    then obtain c t where c: "doc_text y = c # t" "\<not> json_space c" "c \<noteq> CHR '']''" using doc_text_start by blast
    then have hd: "map_option fst (next_char (str_join '','' (list_texts xs) @ CHR '']'' # x)) \<noteq> Some (CHR '']'')"
      by (cases "ys = []") (auto simp: Cons str_join_Cons next_char_Cons)
    have "read_list k' (Suc level) (str_join '','' (list_texts xs) @ CHR '']'' # x) = Some (xs, x)"
      using 5 Cons by (intro 5(1)) (auto simp: k)
    with 5(4) hd show ?thesis by (simp add: k next_char_Cons json_space_def)
  qed
next
  case (6 fs k level x)
  then obtain k' where k: "k = Suc k'" by (cases k) auto
  show ?case
  proof (cases fs)
    case Nil
    with 6(4) show ?thesis by (simp add: k next_char_Cons json_space_def)
  next
    case (Cons y ys)
    obtain key v where y: "y = (key, v)" by (cases y)
    have hd: "map_option fst (next_char (str_join '','' (field_texts fs) @ CHR ''}'' # x)) \<noteq> Some (CHR ''}'')"
      by (cases "ys = []") (auto simp: Cons y str_join_Cons string_text_def next_char_Cons json_space_def)
    have "read_fields k' (Suc level) (str_join '','' (field_texts fs) @ CHR ''}'' # x) = Some (fs, x)"
      using 6 Cons by (intro 6(1)) (auto simp: k)
    with 6(4) hd show ?thesis by (simp add: k next_char_Cons json_space_def)
  qed
next
  case (8 y ys k level x)
  then obtain k' where k: "k = Suc k'" by (cases k) auto
  show ?case
  proof (cases "ys = []")
    case True
    have "read_value k' level (doc_text y @ CHR '']'' # x) = Some (y, CHR '']'' # x)"
      using 8 by (intro 8(1)) (auto simp: k stops_def)
    with True show ?thesis by (simp add: k next_char_Cons json_space_def)
  next
    case False
    let ?r = "str_join '','' (list_texts ys) @ CHR '']'' # x"
    have "read_value k' level (doc_text y @ CHR '','' # ?r) = Some (y, CHR '','' # ?r)"
      using 8 by (intro 8(1)) (auto simp: k stops_def)
    moreover have "read_list k' level ?r = Some (ys, x)" using 8 False by (intro 8(2)) (auto simp: k)
    ultimately show ?thesis using False by (simp add: k str_join_Cons next_char_Cons json_space_def)
  qed
next
  case (10 key v fs k level x)
  then obtain k' where k: "k = Suc k'" by (cases k) auto
  have key: "read_string (tl (string_text key) @ z) = Some (key, z)" for z
    using read_string_text [of key "tl (string_text key)" z] 10(3) by (simp add: string_text_def)
  have quote: "string_text key = CHR 0x22 # tl (string_text key)" by (simp add: string_text_def)
  have member: "read_fields k level (string_text key @ '':'' @ doc_text v @ z) =
      (case next_char z of
         Some (c, r') \<Rightarrow> (if c = CHR '','' then map_option (apfst (Cons (key, v))) (read_fields k' level r')
                          else if c = CHR ''}'' then Some ([(key, v)], r') else None)
       | None \<Rightarrow> None)" if "stops z" for z
  proof -
    have "read_value k' level (doc_text v @ z) = Some (v, z)" using 10 that by (intro 10(1)) (auto simp: k)
    then show ?thesis by (subst quote) (simp add: k next_char_Cons json_space_def key)
  qed
  show ?case
  proof (cases "fs = []")
    case True
    then show ?thesis using member [of "CHR ''}'' # x"] by (simp add: stops_def next_char_Cons json_space_def)
  next
    case False
    let ?r = "str_join '','' (field_texts fs) @ CHR ''}'' # x"
    have "read_fields k' level ?r = Some (fs, x)" using 10 False by (intro 10(2)) (auto simp: k)
    with False show ?thesis using member [of "CHR '','' # ?r"]
      by (simp add: str_join_Cons stops_def next_char_Cons json_space_def)
  qed
qed simp_all

lemma read_doc_text:
  assumes "text_ok d" "doc_depth d \<le> max_depth"
  shows "read_doc (doc_text d) = Some d"
proof -
  have "read_value (2 * length (doc_text d) + 1) 0 (doc_text d @ []) = Some (d, [])"
    using need_length(1) [OF assms(1)] assms by (intro read_back(1)) (auto simp: stops_def)
  then show ?thesis by (simp add: read_doc_def skip_space_def)
qed

end
