(* ===== verification/JsonStruct.thy ===== *)
theory JsonStruct
  imports JsonParse
begin

text \<open>
  Go structs as JSON: strings the way \<^verbatim>\<open>json.Marshal\<close> writes them, objects of strings, and
  decoding of a text into a struct. What is written is read back, up to bytes that are no
  UTF-8.
\<close>

section \<open>Decoding into a struct\<close>

text \<open>
  A key names a field up to case; next to the letters of ASCII the long s and the Kelvin
  sign fold to one. \<open>null\<close> leaves a field as it is, keys without a field are skipped, and
  the last of several values stays.
\<close>

definition fold_name :: "string \<Rightarrow> string" where
  "fold_name s = concat (map (\<lambda>r. if r = [CHR 0xC5, CHR 0xBF] then ''s'' else if r = [CHR 0xE2, CHR 0x84, CHR 0xAA] then ''k''
     else ascii_lower r) (runes s))"

fun decode_fields :: "(string \<Rightarrow> doc \<Rightarrow> 'a \<Rightarrow> 'a option) \<Rightarrow> (string \<times> doc) list \<Rightarrow> 'a \<Rightarrow> 'a option" where
  "decode_fields field [] p = Some p"
| "decode_fields field ((k, v) # fs) p =
     (if v = DNull then decode_fields field fs p
      else case field (fold_name k) v p of None \<Rightarrow> None | Some q \<Rightarrow> decode_fields field fs q)"

definition unmarshal_struct :: "(string \<Rightarrow> doc \<Rightarrow> 'a \<Rightarrow> 'a option) \<Rightarrow> 'a \<Rightarrow> string \<Rightarrow> 'a option" where
  "unmarshal_struct field zero text = (case read_doc text of
     Some DNull \<Rightarrow> Some zero | Some (DObj fs) \<Rightarrow> decode_fields field fs zero | _ \<Rightarrow> None)"

definition str_field :: "doc \<Rightarrow> (string \<Rightarrow> 'a) \<Rightarrow> 'a option" where
  "str_field v f = (case v of DStr s \<Rightarrow> Some (f s) | _ \<Rightarrow> None)"

definition bool_field :: "doc \<Rightarrow> (bool \<Rightarrow> 'a) \<Rightarrow> 'a option" where
  "bool_field v f = (case v of DBool b \<Rightarrow> Some (f b) | _ \<Rightarrow> None)"

section \<open>Text of a struct of strings\<close>

text \<open>\<open>json.Marshal\<close> of a string; a byte that is no UTF-8 is written as \<^verbatim>\<open>\ufffd\<close>.\<close>

function json_body :: "string \<Rightarrow> string" where
  "json_body [] = []"
| "json_body (c # s) = (let n = rune_len (c # s) in
     if n = 0 then unicode_escape 0xFFFD @ json_body s
     else escape_rune (take n (c # s)) @ json_body (drop (n - 1) s))"
  by pat_completeness auto
termination by (relation "measure length") auto

definition json_string :: "string \<Rightarrow> string" where
  "json_string s = [CHR 0x22] @ json_body s @ [CHR 0x22]"

definition marshal_strings :: "(string \<times> string) list \<Rightarrow> string" where
  "marshal_strings fs = ''{'' @ str_join '','' (map (\<lambda>(k, v). json_string k @ '':'' @ json_string v) fs) @ ''}''"

section \<open>Structs of strings are read back\<close>

lemma read_error_rune: "read_string (unicode_escape 0xFFFD @ x) = map_option (apfst (append rune_error)) (read_string x)"
proof -
  have "chr 239 = CHR 0xEF" "chr 191 = CHR 0xBF" "chr 189 = CHR 0xBD" by code_simp+
  then have "rune_bytes 0xFFFD = rune_error" by (simp add: rune_bytes_def rune_error_def)
  then show ?thesis using unicode_escape_read [of "0xFFFD" x] by simp
qed

lemma read_json_body: "read_string (json_body s @ CHR 0x22 # x) = Some (utf8 s, x)"
proof (induction s rule: json_body.induct)
  case (2 c s)
  show ?case
  proof (cases "rune_len (c # s) = 0")
    case True
    with 2(1) show ?thesis by (simp add: read_error_rune utf8_def)
  next
    case False
    then have "good_rune (take (rune_len (c # s)) (c # s))"
      by (intro runes_good [of _ "c # s"]) (simp add: Let_def)
    with 2(2) False show ?thesis by (simp add: read_escaped utf8_def Let_def)
  qed
qed (simp add: read_string.simps(2) utf8_def)

definition string_members :: "(string \<times> string) list \<Rightarrow> (string \<times> doc) list" where
  "string_members fs = map (\<lambda>(k, v). (utf8 k, DStr (utf8 v))) fs"

lemma read_strings:
  "fs \<noteq> [] \<Longrightarrow> length fs \<le> k \<Longrightarrow>
   read_fields (Suc k) level (str_join '','' (map (\<lambda>(k, v). json_string k @ '':'' @ json_string v) fs) @ CHR ''}'' # x) =
   Some (string_members fs, x)"
proof (induction fs arbitrary: k)
  case (Cons f fs)
  obtain key v where f: "f = (key, v)" by (cases f)
  from Cons.prems(2) obtain j where k: "k = Suc j" by (cases k) auto
  have step: "read_fields (Suc k) level (json_string key @ '':'' @ json_string v @ c # z) =
    (if c = CHR '','' then map_option (apfst (Cons (utf8 key, DStr (utf8 v)))) (read_fields k level z)
     else if c = CHR ''}'' then Some ([(utf8 key, DStr (utf8 v))], z) else None)" if "\<not> json_space c" for c z
    using that by (simp add: k json_string_def next_char_Cons json_space_def read_json_body)
  show ?case
  proof (cases "fs = []")
    case True
    then show ?thesis using step [of "CHR ''}''" x] by (simp add: f string_members_def json_space_def)
  next
    case False
    let ?r = "str_join '','' (map (\<lambda>(k, v). json_string k @ '':'' @ json_string v) fs) @ CHR ''}'' # x"
    have "read_fields k level ?r = Some (string_members fs, x)" using Cons.IH [OF False, of j] Cons.prems by (simp add: k)
    with False show ?thesis using step [of "CHR '',''" ?r]
      by (simp add: f string_members_def json_space_def str_join_Cons)
  qed
qed simp

lemma members_length: "length fs \<le> length (str_join '','' (map (\<lambda>(k, v). json_string k @ '':'' @ json_string v) fs))"
proof (induction fs)
  case (Cons f fs)
  then show ?case by (cases "fs = []"; cases f) (simp_all add: str_join_Cons json_string_def)
qed simp

lemma read_marshal_strings:
  assumes "fs \<noteq> []"
  shows "read_doc (marshal_strings fs) = Some (DObj (string_members fs))"
proof -
  let ?b = "str_join '','' (map (\<lambda>(k, v). json_string k @ '':'' @ json_string v) fs)"
  obtain j where j: "2 * length (marshal_strings fs) = Suc j" "length fs \<le> j"
    using members_length [of fs] by (cases "2 * length (marshal_strings fs)") (simp_all add: marshal_strings_def)
  obtain t where t: "?b = CHR 0x22 # t"
    using assms by (cases fs; cases "tl fs = []") (auto simp: json_string_def str_join_Cons split: prod.splits)
  have "map_option fst (next_char (?b @ CHR ''}'' # [])) \<noteq> Some (CHR ''}'')"
    unfolding t by (simp add: next_char_Cons json_space_def)
  moreover have "read_fields (Suc j) 1 (?b @ CHR ''}'' # []) = Some (string_members fs, [])"
    by (rule read_strings [OF assms j(2)])
  ultimately have "read_value (Suc (Suc j)) 0 (CHR ''{'' # ?b @ CHR ''}'' # []) = Some (DObj (string_members fs), [])"
    by (simp add: next_char_Cons json_space_def max_depth_def del: read_fields.simps)
  moreover have "marshal_strings fs = CHR ''{'' # ?b @ CHR ''}'' # []" by (simp add: marshal_strings_def)
  ultimately show ?thesis unfolding read_doc_def j(1) by (simp add: skip_space_def del: read_value.simps)
qed

text \<open>ASCII text is left alone.\<close>

definition ascii :: "string \<Rightarrow> bool" where "ascii s \<longleftrightarrow> list_all (\<lambda>c. byte c < 128) s"

lemma runes_ascii: "ascii s \<Longrightarrow> runes s = map (\<lambda>c. [c]) s"
proof (induction s)
  case (Cons c s)
  then have "rune_len (c # s) = 1" by (simp add: ascii_def rune_len_def byte_in_def byte_def)
  with Cons show ?case by (simp add: ascii_def)
qed simp

lemma utf8_ascii: "ascii s \<Longrightarrow> utf8 s = s"
  by (simp add: utf8_def runes_ascii)

lemma fold_name_ascii: "ascii s \<Longrightarrow> fold_name s = ascii_lower s"
  by (simp add: fold_name_def runes_ascii ascii_lower_def comp_def)

lemma b64_ascii: "ascii (b64_encode s)"
proof -
  have t: "list_all (\<lambda>k. byte (b64_char k) < 128) [0..<64]" by code_simp
  then have "byte (b64_char k) < 128" if "k < 64" for k using that by (auto simp: list_all_iff)
  then show ?thesis unfolding ascii_def b64_encode_values using b64_values_less by (auto simp: list_all_iff)
qed

end
