(* ===== verification/Login.thy ===== *)
theory Login
  imports Api UrlProps JsonStruct
begin

text \<open>
  The login flow: \<^verbatim>\<open>internal/api/auth.go\<close> (without the exchange of a code for a token, which
  is in \<^verbatim>\<open>Api\<close>) and \<^verbatim>\<open>internal/oidcauth/oidcauth.go\<close>. The state between the steps is in a signed
  cookie that holds JSON text; the users and the one-time codes are tables. The OAuth2
  client library, which talks to the identity provider, is a parameter, and so are the
  clock and everything drawn at random.
\<close>

section \<open>oidcauth.go\<close>

record Identity =
  oi_Email :: string
  oi_EmailVerified :: bool
  oi_Name :: string
  oi_Nonce :: string

text \<open>
  The library: the URL of the provider for a state, a nonce and a verifier; the token
  endpoint, whose answer is the \<^verbatim>\<open>id_token\<close> when it has one that is a string; and the check of
  issuer, audience, expiry and signature, which yields the nonce and the text of the claims.
\<close>

record oidc_client =
  oc_AuthCodeURL :: "string \<Rightarrow> string \<Rightarrow> string \<Rightarrow> string"
  oc_Exchange :: "string \<Rightarrow> string \<Rightarrow> string option option"
  oc_Verify :: "string \<Rightarrow> (string \<times> string) option"

definition claim_field :: "string \<Rightarrow> doc \<Rightarrow> Identity \<Rightarrow> Identity option" where
  "claim_field k v p =
     (if k = ''email'' then str_field v (\<lambda>s. p\<lparr>oi_Email := s\<rparr>)
      else if k = ''email_verified'' then bool_field v (\<lambda>b. p\<lparr>oi_EmailVerified := b\<rparr>)
      else if k = ''name'' then str_field v (\<lambda>s. p\<lparr>oi_Name := s\<rparr>)
      else Some p)"

definition Client_Exchange :: "oidc_client \<Rightarrow> string \<Rightarrow> string \<Rightarrow> Identity option" where
  "Client_Exchange c code verifier =
     (case oc_Exchange c code verifier of
        None \<Rightarrow> None
      | Some None \<Rightarrow> None
      | Some (Some rawID) \<Rightarrow>
         (if rawID = [] then None
          else case oc_Verify c rawID of
            None \<Rightarrow> None
          | Some (nonce, claims) \<Rightarrow>
              map_option (\<lambda>i. i\<lparr>oi_Nonce := nonce\<rparr>)
                (unmarshal_struct claim_field \<lparr>oi_Email = [], oi_EmailVerified = False, oi_Name = [], oi_Nonce = []\<rparr> claims)))"

section \<open>State and cookies\<close>

record AuthHandler =
  ah_oidc :: "oidc_client option"
  ah_sessions :: "(string \<Rightarrow> string) option"
  ah_pending :: "(string \<Rightarrow> string) option"
  ah_secure :: bool
  ah_baseURL :: string
  ah_authDisabled :: bool

record login_db =
  ld_users :: "user_row list"
  ld_codes :: "login_code list"

text \<open>
  What a request draws and what happens around it: the clock when the session is signed or
  checked and when a code is stored, the code, the id of a new user, and what other
  transactions do between the statements that find or create the user.
\<close>

record login_env =
  le_HashToken :: "string \<Rightarrow> string"
  le_now :: time
  le_code_now :: time
  le_code :: string
  le_genID :: "string result"
  le_e1 :: "user_row list \<Rightarrow> user_row list"
  le_e2 :: "user_row list \<Rightarrow> user_row list"

record Cookie =
  ck_Name :: string
  ck_Value :: string
  ck_Path :: string
  ck_MaxAge :: int
  ck_HttpOnly :: bool
  ck_Secure :: bool
  ck_SameSiteLax :: bool

record loginOutput =
  lo_Location :: string
  lo_SetCookie :: "Cookie list"

definition pendingCookieName :: string where "pendingCookieName = ''conbench_pending''"
definition SessionCookieName :: string where "SessionCookieName = ''conbench_session''"
definition pendingMaxAge :: int where "pendingMaxAge = 10 * 60 * 1000000000"
definition oidcMarkerPassword :: string where "oidcMarkerPassword = ''!''"

definition seconds :: "int \<Rightarrow> int" where "seconds d = d div 1000000000"

definition cookie :: "AuthHandler \<Rightarrow> string \<Rightarrow> string \<Rightarrow> int \<Rightarrow> string \<Rightarrow> Cookie" where
  "cookie h name v maxAge path = \<lparr>ck_Name = name, ck_Value = v, ck_Path = path, ck_MaxAge = maxAge, ck_HttpOnly = True,
     ck_Secure = ah_secure h, ck_SameSiteLax = True\<rparr>"

definition expire :: "AuthHandler \<Rightarrow> string \<Rightarrow> string \<Rightarrow> Cookie" where
  "expire h name path = cookie h name [] (- 1) path"

section \<open>The pending login\<close>

record pendingLogin =
  pn_State :: string
  pn_Nonce :: string
  pn_Verifier :: string
  pn_CLIRedirect :: string
  pn_CLIState :: string

definition no_pending :: pendingLogin where
  "no_pending = \<lparr>pn_State = [], pn_Nonce = [], pn_Verifier = [], pn_CLIRedirect = [], pn_CLIState = []\<rparr>"

definition omitempty :: "string \<Rightarrow> string \<Rightarrow> (string \<times> string) list" where
  "omitempty k s = (if s = [] then [] else [(k, s)])"

definition marshal_pending :: "pendingLogin \<Rightarrow> string" where
  "marshal_pending p = marshal_strings
     ([(''state'', pn_State p), (''nonce'', pn_Nonce p), (''verifier'', pn_Verifier p)] @
      omitempty ''cli_redirect'' (pn_CLIRedirect p) @ omitempty ''cli_state'' (pn_CLIState p))"

definition pending_field :: "string \<Rightarrow> doc \<Rightarrow> pendingLogin \<Rightarrow> pendingLogin option" where
  "pending_field k v p =
     (if k = ''state'' then str_field v (\<lambda>s. p\<lparr>pn_State := s\<rparr>)
      else if k = ''nonce'' then str_field v (\<lambda>s. p\<lparr>pn_Nonce := s\<rparr>)
      else if k = ''verifier'' then str_field v (\<lambda>s. p\<lparr>pn_Verifier := s\<rparr>)
      else if k = ''cli_redirect'' then str_field v (\<lambda>s. p\<lparr>pn_CLIRedirect := s\<rparr>)
      else if k = ''cli_state'' then str_field v (\<lambda>s. p\<lparr>pn_CLIState := s\<rparr>)
      else Some p)"

definition readPending :: "AuthHandler \<Rightarrow> string \<Rightarrow> pendingLogin option" where
  "readPending h v = (case ah_pending h of
     None \<Rightarrow> None
   | Some mac \<Rightarrow>
      (if v = [] then None
       else case Signer_Verify mac v of None \<Rightarrow> None
       | Some raw \<Rightarrow> unmarshal_struct pending_field no_pending raw))"

text \<open>\<open>RandomToken\<close> of 32 random bytes.\<close>

definition RandomToken :: "string \<Rightarrow> string" where "RandomToken b = b64_encode b"

definition beginOIDC :: "AuthHandler \<Rightarrow> pendingLogin \<Rightarrow> loginOutput api" where
  "beginOIDC h pend = (case (ah_oidc h, ah_pending h) of
     (Some c, Some mac) \<Rightarrow>
       Inr \<lparr>lo_Location = oc_AuthCodeURL c (pn_State pend) (pn_Nonce pend) (pn_Verifier pend),
         lo_SetCookie = [cookie h pendingCookieName (Signer_Sign mac (marshal_pending pend)) (seconds pendingMaxAge) ''/api/auth'']\<rparr>
   | _ \<Rightarrow> Inl Panicked)"

section \<open>Loopback redirects\<close>

text \<open>\<open>None\<close> is an accepted redirect.\<close>

definition validateLoopbackRedirect :: "string \<Rightarrow> string option" where
  "validateLoopbackRedirect raw = (case url_parse raw of
     None \<Rightarrow> Some ''invalid redirect_uri''
   | Some u \<Rightarrow>
      (if u_Scheme u \<noteq> ''http'' then Some ''redirect_uri must use http on loopback''
       else if Hostname u \<noteq> ''127.0.0.1'' \<and> Hostname u \<noteq> ''::1'' then Some ''redirect_uri must be a loopback address''
       else None))"

text \<open>\<open>None\<close> is the use of the nil URL of a redirect that does not parse.\<close>

definition appendQuery :: "string \<Rightarrow> string \<Rightarrow> string \<Rightarrow> string option" where
  "appendQuery redirectURI code state = (case url_parse redirectURI of
     None \<Rightarrow> None
   | Some u \<Rightarrow>
       (let q = values_set ''state'' state (values_set ''code'' code (parse_query (u_RawQuery u)))
        in Some (url_string (u\<lparr>u_RawQuery := values_encode q\<rparr>))))"

section \<open>Handlers\<close>

definition login :: "AuthHandler \<Rightarrow> string \<Rightarrow> string \<Rightarrow> string \<Rightarrow> loginOutput api" where
  "login h stateBytes nonceBytes verifier =
     (if ah_oidc h = None then Inl (Error501 ''OIDC is not configured'')
      else beginOIDC h \<lparr>pn_State = RandomToken stateBytes, pn_Nonce = RandomToken nonceBytes, pn_Verifier = verifier,
        pn_CLIRedirect = [], pn_CLIState = []\<rparr>)"

definition sessionUser :: "AuthHandler \<Rightarrow> time \<Rightarrow> string \<Rightarrow> string option" where
  "sessionUser h now session = (case ah_sessions h of
     None \<Rightarrow> None | Some mac \<Rightarrow> if session = [] then None else Session_Verify mac session now)"

definition issue_code :: "login_env \<Rightarrow> string \<Rightarrow> login_db \<Rightarrow> string result \<times> login_db" where
  "issue_code v userID d =
     (case DBCodeStore_Issue (le_HashToken v) (le_code v) (le_code_now v) userID (ld_codes d) of
        (r, t) \<Rightarrow> (r, d\<lparr>ld_codes := t\<rparr>))"

definition redirectToLoopback ::
  "AuthHandler \<Rightarrow> login_env \<Rightarrow> string \<Rightarrow> string \<Rightarrow> string \<Rightarrow> login_db \<Rightarrow> loginOutput api \<times> login_db" where
  "redirectToLoopback h v redirectURI state userID d =
     (case issue_code v userID d of
        (Inl e, d') \<Rightarrow> (Inl (Error500 e), d')
      | (Inr code, d') \<Rightarrow>
          (case appendQuery redirectURI code state of
             None \<Rightarrow> (Inl Panicked, d')
           | Some location \<Rightarrow> (Inr \<lparr>lo_Location = location, lo_SetCookie = [expire h pendingCookieName ''/api/auth'']\<rparr>, d')))"

definition cliStart ::
  "AuthHandler \<Rightarrow> login_env \<Rightarrow> string \<Rightarrow> string \<Rightarrow> string \<Rightarrow> string \<Rightarrow> string \<Rightarrow> string \<Rightarrow> login_db \<Rightarrow> loginOutput api \<times> login_db" where
  "cliStart h v stateBytes nonceBytes verifier redirectURI state session d =
     (case validateLoopbackRedirect redirectURI of
        Some msg \<Rightarrow> (Inl (Error400 msg), d)
      | None \<Rightarrow>
     (case sessionUser h (le_now v) session of
        Some uid \<Rightarrow> redirectToLoopback h v redirectURI state uid d
      | None \<Rightarrow>
          (if ah_oidc h = None then (Inl (Error501 ''OIDC is not configured''), d)
           else (beginOIDC h \<lparr>pn_State = RandomToken stateBytes, pn_Nonce = RandomToken nonceBytes, pn_Verifier = verifier,
             pn_CLIRedirect = redirectURI, pn_CLIState = state\<rparr>, d))))"

definition login_user :: "login_env \<Rightarrow> Identity \<Rightarrow> login_db \<Rightarrow> string result \<times> login_db" where
  "login_user v identity d =
     (case GetOrCreateUserByEmail (le_e1 v) (le_e2 v) (le_genID v) (oi_Email identity)
         (if oi_Name identity = [] then oi_Email identity else oi_Name identity) oidcMarkerPassword (ld_users d) of
        (r, t) \<Rightarrow> (r, d\<lparr>ld_users := t\<rparr>))"

text \<open>The end of a login, for the user that was found or created.\<close>

definition finish_login :: "AuthHandler \<Rightarrow> login_env \<Rightarrow> pendingLogin \<Rightarrow> string \<Rightarrow> login_db \<Rightarrow> loginOutput api \<times> login_db" where
  "finish_login h v pend userID d =
     (case ah_sessions h of
        None \<Rightarrow> (Inl Panicked, d)
      | Some mac \<Rightarrow>
     (let sessionCookie = cookie h SessionCookieName (Session_Sign mac userID (le_now v + SessionMaxAge)) (seconds SessionMaxAge) ''/'';
          cookies = [sessionCookie, expire h pendingCookieName ''/api/auth''] in
      if pn_CLIRedirect pend \<noteq> [] then
        (case issue_code v userID d of
           (Inl e, d') \<Rightarrow> (Inl (Error500 e), d')
         | (Inr code, d') \<Rightarrow>
             (case appendQuery (pn_CLIRedirect pend) code (pn_CLIState pend) of
                None \<Rightarrow> (Inl Panicked, d')
              | Some location \<Rightarrow> (Inr \<lparr>lo_Location = location, lo_SetCookie = cookies\<rparr>, d')))
      else (Inr \<lparr>lo_Location = ah_baseURL h @ ''/'', lo_SetCookie = cookies\<rparr>, d)))"

definition callback ::
  "AuthHandler \<Rightarrow> login_env \<Rightarrow> string \<Rightarrow> string \<Rightarrow> string \<Rightarrow> login_db \<Rightarrow> loginOutput api \<times> login_db" where
  "callback h v state code pending d =
     (case ah_oidc h of
        None \<Rightarrow> (Inl (Error501 ''OIDC is not configured''), d)
      | Some c \<Rightarrow>
     (case readPending h pending of
        None \<Rightarrow> (Inl (Error400 ''invalid login state''), d)
      | Some pend \<Rightarrow>
     (if state = [] \<or> state \<noteq> pn_State pend then (Inl (Error400 ''state mismatch''), d)
      else case Client_Exchange c code (pn_Verifier pend) of
        None \<Rightarrow> (Inl (Error400 ''login failed''), d)
      | Some identity \<Rightarrow>
          (if oi_Nonce identity \<noteq> pn_Nonce pend then (Inl (Error400 ''nonce mismatch''), d)
           else if \<not> oi_EmailVerified identity \<or> oi_Email identity = [] then (Inl (Error400 ''email not verified''), d)
           else case login_user v identity d of
             (Inl e, d') \<Rightarrow> (Inl (Error500 e), d')
           | (Inr userID, d') \<Rightarrow> finish_login h v pend userID d'))))"

definition logout :: "AuthHandler \<Rightarrow> Cookie" where
  "logout h = expire h SessionCookieName ''/''"

record capabilitiesOutput =
  co_SignedIn :: bool
  co_AuthDisabled :: bool
  co_CanWriteResults :: bool

definition capabilities :: "AuthHandler \<Rightarrow> time \<Rightarrow> string \<Rightarrow> capabilitiesOutput" where
  "capabilities h now session =
     (let signedIn = sessionUser h now session \<noteq> None in
      \<lparr>co_SignedIn = signedIn, co_AuthDisabled = ah_authDisabled h, co_CanWriteResults = ah_authDisabled h \<or> signedIn\<rparr>)"

definition me :: "AuthHandler \<Rightarrow> time \<Rightarrow> string \<Rightarrow> user_row list \<Rightarrow> (string \<times> string \<times> string) api" where
  "me h now session users =
     (case sessionUser h now session of
        None \<Rightarrow> Inl (Error401 ''authentication required'')
      | Some userID \<Rightarrow> (case GetUserByID userID users of
          Inl e \<Rightarrow> Inl (if e = ErrNotFound then Error401 ''authentication required'' else Error500 e)
        | Inr user \<Rightarrow> Inr user))"

end
