(* ===== verification/LoginProps.thy ===== *)
theory LoginProps
  imports Login
begin

text \<open>
  What the login flow guarantees: where a one-time code may be sent, what a completed login
  has checked, that the two signed cookies cannot be confused, and that a login from the
  command line runs to its end.
\<close>

section \<open>The pending login is read back\<close>

definition pending_utf8 :: "pendingLogin \<Rightarrow> pendingLogin" where
  "pending_utf8 p = \<lparr>pn_State = utf8 (pn_State p), pn_Nonce = utf8 (pn_Nonce p), pn_Verifier = utf8 (pn_Verifier p),
     pn_CLIRedirect = utf8 (pn_CLIRedirect p), pn_CLIState = utf8 (pn_CLIState p)\<rparr>"

lemma key_ascii: "\<forall>k \<in> {''state'', ''nonce'', ''verifier'', ''cli_redirect'', ''cli_state''}. ascii k \<and> ascii_lower k = k"
  by (simp add: ascii_def ascii_lower_def byte_def)

lemma unmarshal_marshal_pending: "unmarshal_struct pending_field no_pending (marshal_pending p) = Some (pending_utf8 p)"
proof -
  have k: "utf8 k = k" "fold_name k = k" if "k \<in> {''state'', ''nonce'', ''verifier'', ''cli_redirect'', ''cli_state''}" for k
    using key_ascii that utf8_ascii fold_name_ascii by auto
  have "utf8 [] = []" by (simp add: utf8_def)
  then show ?thesis
    unfolding unmarshal_struct_def marshal_pending_def
    by (subst read_marshal_strings)
       (auto simp: string_members_def omitempty_def k pending_field_def str_field_def no_pending_def pending_utf8_def)
qed

lemma readPending_own:
  assumes "ah_pending h = Some mac"
  shows "readPending h (Signer_Sign mac (marshal_pending p)) = Some (pending_utf8 p)"
proof -
  have "Signer_Sign mac (marshal_pending p) \<noteq> []" by (simp add: Signer_Sign_def Let_def)
  with assms show ?thesis by (simp add: readPending_def unmarshal_marshal_pending)
qed

section \<open>Loopback redirects\<close>

lemma accepted_redirect:
  assumes "validateLoopbackRedirect r = None"
  obtains u where "url_parse r = Some u" "u_Scheme u = ''http''" "Hostname u \<in> {''127.0.0.1'', ''::1''}"
  using assms by (auto simp: validateLoopbackRedirect_def split: option.splits if_splits)

lemma Hostname_empty: "u_Host u = [] \<Longrightarrow> Hostname u = []"
proof -
  assume "u_Host u = []"
  moreover have "cut_last c [] = None" for c by (simp add: cut_last_None)
  ultimately show "Hostname u = []" by (simp add: Hostname_def has_prefix_def)
qed

lemma map_of_sorted:
  fixes vs :: "('a \<times> 'b) list"
  assumes "filter (\<lambda>kv. fst kv = k) vs = [(k, v)]"
  shows "map_of (stable_sort lt vs) k = Some v"
proof -
  have "mset (filter (\<lambda>kv. fst kv = k) (stable_sort lt vs)) = mset (filter (\<lambda>kv. fst kv = k) vs)" by simp
  then have "mset (filter (\<lambda>kv. fst kv = k) (stable_sort lt vs)) = {#(k, v)#}" unfolding assms by simp
  then have "filter (\<lambda>kv. fst kv = k) (stable_sort lt vs) = [(k, v)]" unfolding mset_single_iff .
  moreover have "map_of xs k = map_of (filter (\<lambda>kv. fst kv = k) xs) k" for xs :: "('a \<times> 'b) list"
    by (induction xs) auto
  from this [of "stable_sort lt vs"] calculation show ?thesis by simp
qed

lemma values_set_length: "length (values_set k v vs) \<le> Suc (length vs)"
  by (simp add: values_set_def)

text \<open>The URL with its query replaced, as text.\<close>

lemma url_string_http:
  assumes "u_Scheme u = ''http''" "u_Opaque u = []" "loopback_host (u_Host u)" "u_RawQuery u \<noteq> []"
    "EscapedPath u = [] \<or> (\<exists>r. EscapedPath u = CHR ''/'' # r)"
  shows "url_string u = ''http://'' @ authority_text (u_User u) (u_Host u) @ EscapedPath u @ ''?'' @ u_RawQuery u @
    (if u_Fragment u \<noteq> [] then ''#'' @ escaped_part MFragment (u_RawFragment u) (u_Fragment u) else [])"
proof -
  have "escape MHost (u_Host u) = u_Host u" using loopback_kept [OF assms(3)] by (rule escape_id)
  moreover have "u_Host u \<noteq> []" using assms(3) by (auto simp: loopback_host_def)
  moreover have "EscapedPath u \<noteq> [] \<Longrightarrow> has_prefix (EscapedPath u) ''/''" using assms(5) by (auto simp: has_prefix_def)
  ultimately show ?thesis
    using assms(1,2,4) by (cases "u_User u") (auto simp: url_string_def Let_def authority_text_def)
qed

text \<open>What an accepted redirect is made of, and that the parts are read back from their text.\<close>

definition fragment_text :: "url \<Rightarrow> string" where
  "fragment_text u = (if u_Fragment u \<noteq> [] then ''#'' @ escaped_part MFragment (u_RawFragment u) (u_Fragment u) else [])"

lemma accepted_parts:
  assumes "validateLoopbackRedirect r = None" "url_parse r = Some u"
  shows "u_Scheme u = ''http''" "Hostname u \<in> {''127.0.0.1'', ''::1''}" "loopback_host (u_Host u)" "u_Opaque u = []"
    "unescape MPath (EscapedPath u) = Some (u_Path u)" "EscapedPath u = [] \<or> (\<exists>r. EscapedPath u = CHR ''/'' # r)"
    "\<forall>c \<in> set (EscapedPath u). \<not> control c \<and> c \<noteq> CHR ''#'' \<and> c \<noteq> CHR ''?''"
    "fragment_text u = [] \<and> u_Fragment u = [] \<or> (\<exists>f. fragment_text u = CHR ''#'' # f \<and> f \<noteq> [] \<and> unescape MFragment f = Some (u_Fragment u))"
proof -
  show u: "u_Scheme u = ''http''" "Hostname u \<in> {''127.0.0.1'', ''::1''}"
    using accepted_redirect [OF assms(1)] assms(2) by auto
  have ne: "u_Host u \<noteq> []" using u(2) Hostname_empty [of u] by auto
  obtain auth path frag where p: "parse_authority (u_Scheme u) auth = Some (u_User u, u_Host u)"
    "path = [] \<or> (\<exists>r. path = CHR ''/'' # r)" "unescape MPath path = Some (u_Path u)"
    "u_RawPath u = (if path = escape MPath (u_Path u) then [] else path)" "u_Opaque u = []"
    "unescape MFragment frag = Some (u_Fragment u)" "u_RawFragment u = (if frag = escape MFragment (u_Fragment u) then [] else frag)"
    by (rule url_parse_host [OF assms(2) ne])
  obtain h0 where "parse_host ''http'' h0 = Some (u_Host u)"
    using p(1) unfolding u(1) parse_authority_def by (auto split: option.splits prod.splits if_splits)
  then show "loopback_host (u_Host u)" using u(2) by (rule Hostname_loopback)
  show "u_Opaque u = []" by (rule p(5))
  show "unescape MPath (EscapedPath u) = Some (u_Path u)" "EscapedPath u = [] \<or> (\<exists>r. EscapedPath u = CHR ''/'' # r)"
    "\<forall>c \<in> set (EscapedPath u). \<not> control c \<and> c \<noteq> CHR ''#'' \<and> c \<noteq> CHR ''?''"
    by (fact EscapedPath_facts [OF p(2,3,4)])+
  note f = escaped_part_facts [OF p(6,7)]
  show "fragment_text u = [] \<and> u_Fragment u = [] \<or> (\<exists>f. fragment_text u = CHR ''#'' # f \<and> f \<noteq> [] \<and> unescape MFragment f = Some (u_Fragment u))"
    using f by (auto simp: fragment_text_def)
qed

text \<open>The query of the location: encoded, then read again.\<close>

definition callback_query :: "url \<Rightarrow> string \<Rightarrow> string \<Rightarrow> (string \<times> string) list" where
  "callback_query u code state = values_set ''state'' state (values_set ''code'' code (parse_query (u_RawQuery u)))"

lemma callback_query_facts:
  fixes code state :: string
  assumes "length (str_split (CHR ''&'') (u_RawQuery u)) \<le> 9998"
    and query_def: "query = values_encode (callback_query u code state)"
  shows "query \<noteq> []" "values_get ''code'' (parse_query query) = code" "values_get ''state'' (parse_query query) = state"
proof -
  let ?q = "callback_query u code state"
  have "length (List.map_filter query_pair ps) \<le> length ps" for ps by (simp add: List.map_filter_def)
  then have "length (parse_query (u_RawQuery u)) \<le> 9998"
    using assms(1) by (auto simp: parse_query_def Let_def intro: order_trans)
  moreover have "length ?q \<le> Suc (Suc (length (parse_query (u_RawQuery u))))"
    unfolding callback_query_def by (rule order_trans [OF values_set_length]) (simp add: values_set_length)
  ultimately have "parse_query query = stable_sort (\<lambda>a b. fst a < fst b) ?q"
    unfolding query_def by (intro parse_query_encode) simp
  note sorted = this
  have c: "filter (\<lambda>kv. fst kv = ''code'') ?q = [(''code'', code)]" and t: "filter (\<lambda>kv. fst kv = ''state'') ?q = [(''state'', state)]"
    by (auto simp: callback_query_def values_set_def filter_empty_conv)
  show "values_get ''code'' (parse_query query) = code" "values_get ''state'' (parse_query query) = state"
    by (simp_all add: sorted values_get_def map_of_sorted [OF c] map_of_sorted [OF t])
  have "parse_query [] = []" by (simp add: parse_query_def query_pair_def List.map_filter_def)
  moreover have "?q \<noteq> []" by (simp add: callback_query_def values_set_def)
  ultimately show "query \<noteq> []" using sorted by auto
qed

text \<open>A redirect as the command line tool sends it.\<close>

definition demo_redirect :: string where "demo_redirect = ''http://127.0.0.1:7/cb?state=x''"

definition demo_url :: url where
  "demo_url = no_url\<lparr>u_Scheme := ''http'', u_Host := ''127.0.0.1:7'', u_Path := ''/cb'', u_RawQuery := ''state=x''\<rparr>"

lemma demo_redirect_ok: "url_parse demo_redirect = Some demo_url" "validateLoopbackRedirect demo_redirect = None"
proof -
  have l: "loopback_host ''127.0.0.1:7''"
    unfolding loopback_host_def by (rule exI [of _ "''127.0.0.1''"], rule exI [of _ "'':7''"]) (simp add: valid_port_def is_digit_def byte_def)
  have "parse_authority ''http'' ''127.0.0.1:7'' = Some (None, ''127.0.0.1:7'')"
    using authority_written(1) [OF l, of None] by (simp add: authority_text_def)
  moreover have "cut_or (CHR ''#'') ''http://127.0.0.1:7/cb?state=x'' = (''http://127.0.0.1:7/cb?state=x'', [])"
    "cut_or (CHR ''?'') ''//127.0.0.1:7/cb?state=x'' = (''//127.0.0.1:7/cb'', ''state=x'')"
    using cut_or_present [of "CHR ''?''" "''//127.0.0.1:7/cb''" "''state=x''"] by (simp_all add: cut_or_absent)
  ultimately show u: "url_parse demo_redirect = Some demo_url"
    by (simp add: demo_redirect_def demo_url_def url_parse_def parse_url_def get_scheme_def is_letter_def is_digit_def byte_def control_def cut_query_def
        ascii_lower_def parse_rest_def has_prefix_def set_path_def no_url_def keep_def marks_def unreserved_def)
  have "Hostname demo_url = ''127.0.0.1''"
    using cut_last_Some [of "CHR '':''" "''127.0.0.1:7''" "''127.0.0.1''" "''7''"]
    by (simp add: demo_url_def no_url_def Hostname_def is_digit_def byte_def has_prefix_def)
  with u show "validateLoopbackRedirect demo_redirect = None"
    by (simp add: validateLoopbackRedirect_def demo_url_def no_url_def)
qed

text \<open>
  C21: A code leaves the server only for this machine. For a redirect the handler accepts, the
  location it answers with is read by a browser as an \<^verbatim>\<open>http\<close> URL of the same literal loopback
  host, user, path and fragment, whose query gives the issued code and the caller's state,
  whatever the redirect's own query holds.
\<close>

theorem appendQuery_loopback:
  assumes "validateLoopbackRedirect r = None" "url_parse r = Some u" "length (str_split (CHR ''&'') (u_RawQuery u)) \<le> 9998"
  shows "\<exists>location v. appendQuery r code state = Some location \<and> url_parse location = Some v \<and>
    u_Scheme v = ''http'' \<and> u_Host v = u_Host u \<and> Hostname v \<in> {''127.0.0.1'', ''::1''} \<and>
    u_User v = u_User u \<and> u_Path v = u_Path u \<and> u_Fragment v = u_Fragment u \<and>
    values_get ''code'' (parse_query (u_RawQuery v)) = code \<and> values_get ''state'' (parse_query (u_RawQuery v)) = state"
proof -
  note a = accepted_parts [OF assms(1,2)]
  let ?query = "values_encode (callback_query u code state)"
  let ?w = "u\<lparr>u_RawQuery := ?query\<rparr>"
  let ?auth = "authority_text (u_User u) (u_Host u)"
  note q = callback_query_facts [OF assms(3) refl, of code state]
  note aw = authority_written [OF a(3), of "u_User u"]
  have path: "EscapedPath ?w = EscapedPath u" by (simp add: EscapedPath_def)
  have loc: "url_string ?w = ''http://'' @ ?auth @ EscapedPath u @ ''?'' @ ?query @ fragment_text u"
    using url_string_http [of ?w] a(1,3,4,6) q(1) path by (simp add: fragment_text_def)
  have "\<forall>c \<in> set ?query. \<not> control c \<and> c \<noteq> CHR ''#''" using values_encode_clean by blast
  then have clean: "\<forall>c \<in> set (?auth @ EscapedPath u @ ?query). \<not> control c \<and> c \<noteq> CHR ''#''"
    "CHR ''?'' \<notin> set (?auth @ EscapedPath u)"
    using aw(3) a(7) unfolding set_append by blast+
  obtain v where v: "url_parse (''http://'' @ ?auth @ EscapedPath u @ ''?'' @ ?query @ fragment_text u) = Some v"
    "u_Scheme v = ''http''" "u_User v = u_User u" "u_Host v = u_Host u"
    "u_Path v = u_Path u" "u_RawQuery v = ?query" "u_Fragment v = u_Fragment u"
    by (rule url_parse_http [OF aw(1,2) a(6,5) q(1) clean a(8)])
  have "appendQuery r code state = Some (url_string ?w)"
    using assms(2) by (simp add: appendQuery_def callback_query_def)
  moreover have "Hostname v = Hostname u" by (simp only: Hostname_def v(4))
  ultimately show ?thesis using v q(2,3) a(2) unfolding loc by auto
qed

theorem appendQuery_loopback_witness:
  "\<exists>location v. appendQuery demo_redirect ''c'' ''s'' = Some location \<and> url_parse location = Some v \<and>
    u_Host v = ''127.0.0.1:7'' \<and> u_Path v = ''/cb'' \<and> values_get ''state'' (parse_query (u_RawQuery v)) = ''s''"
proof -
  have "length (str_split (CHR ''&'') (u_RawQuery demo_url)) \<le> 9998" by (simp add: demo_url_def)
  from appendQuery_loopback [OF demo_redirect_ok(2,1) this, of "''c''" "''s''"] show ?thesis by (auto simp: demo_url_def)
qed

section \<open>The callback\<close>

lemma select_id_row: "select_id key rid k t = Inr i \<Longrightarrow> \<exists>r \<in> set t. key r = k \<and> rid r = i"
  by (auto simp: select_id_def find_Some_iff split: option.splits)

lemma login_user_row:
  assumes "login_user v identity d = (Inr uid, d')"
  shows "\<exists>r \<in> set (ld_users d'). user_email r = oi_Email identity \<and> user_id r = uid" "ld_codes d' = ld_codes d"
proof -
  let ?name = "if oi_Name identity = [] then oi_Email identity else oi_Name identity"
  obtain t where t: "GetOrCreateUserByEmail (le_e1 v) (le_e2 v) (le_genID v) (oi_Email identity) ?name oidcMarkerPassword (ld_users d) =
      (Inr uid, t)" "d' = d\<lparr>ld_users := t\<rparr>"
    using assms by (auto simp: login_user_def split: prod.splits)
  show "ld_codes d' = ld_codes d" by (simp add: t(2))
  have "\<exists>r \<in> set t. user_email r = oi_Email identity \<and> user_id r = uid"
    using t(1) unfolding GetOrCreateUserByEmail_def getOrCreate_def
    by (auto simp: GetUserByEmail_def InsertUser_def insert_nothing_def Let_def dest!: select_id_row
        split: sum.splits if_splits prod.splits)
  then show "\<exists>r \<in> set (ld_users d'). user_email r = oi_Email identity \<and> user_id r = uid" by (simp add: t(2))
qed

lemma issue_code_row:
  assumes "issue_code v uid d = (Inr code, d')"
  shows "code = le_code v" "ld_users d' = ld_users d"
    "\<exists>r \<in> set (ld_codes d'). code_hash r = le_HashToken v code \<and> code_user r = uid \<and> code_redeemed r = None \<and>
       code_expires r = le_code_now v + codeTTL"
  using assms
  by (auto simp: issue_code_def DBCodeStore_Issue_def InsertCLILoginCode_def split: prod.splits sum.splits if_splits)

text \<open>The cookie of the user that ends up logged in.\<close>

definition session_cookie :: "AuthHandler \<Rightarrow> (string \<Rightarrow> string) \<Rightarrow> time \<Rightarrow> string \<Rightarrow> Cookie" where
  "session_cookie h mac now uid =
     cookie h SessionCookieName (Session_Sign mac uid (now + SessionMaxAge)) (seconds SessionMaxAge) ''/''"

lemma finish_login_Inr:
  assumes "finish_login h v p uid d = (Inr out, d')"
  shows "\<exists>mac. ah_sessions h = Some mac \<and>
      lo_SetCookie out = [session_cookie h mac (le_now v) uid, expire h pendingCookieName ''/api/auth'']"
    "ld_users d' = ld_users d"
    "pn_CLIRedirect p = [] \<Longrightarrow> lo_Location out = ah_baseURL h @ ''/'' \<and> d' = d"
    "pn_CLIRedirect p \<noteq> [] \<Longrightarrow> issue_code v uid d = (Inr (le_code v), d') \<and>
       appendQuery (pn_CLIRedirect p) (le_code v) (pn_CLIState p) = Some (lo_Location out)"
proof -
  obtain mac where mac: "ah_sessions h = Some mac" using assms by (auto simp: finish_login_def split: option.splits)
  have "(\<exists>mac. ah_sessions h = Some mac \<and>
      lo_SetCookie out = [session_cookie h mac (le_now v) uid, expire h pendingCookieName ''/api/auth'']) \<and> ld_users d' = ld_users d \<and>
    (pn_CLIRedirect p = [] \<longrightarrow> lo_Location out = ah_baseURL h @ ''/'' \<and> d' = d) \<and>
    (pn_CLIRedirect p \<noteq> [] \<longrightarrow> issue_code v uid d = (Inr (le_code v), d') \<and>
       appendQuery (pn_CLIRedirect p) (le_code v) (pn_CLIState p) = Some (lo_Location out))"
  proof (cases "pn_CLIRedirect p = []")
    case True
    with assms mac show ?thesis by (auto simp: finish_login_def session_cookie_def Let_def)
  next
    case False
    with assms mac obtain code where c: "issue_code v uid d = (Inr code, d')"
      "appendQuery (pn_CLIRedirect p) code (pn_CLIState p) = Some (lo_Location out)"
      "lo_SetCookie out = [session_cookie h mac (le_now v) uid, expire h pendingCookieName ''/api/auth'']"
      by (auto simp: finish_login_def session_cookie_def Let_def split: option.splits prod.splits sum.splits)
    with False mac issue_code_row(1,2) [OF c(1)] show ?thesis by simp
  qed
  then show "\<exists>mac. ah_sessions h = Some mac \<and>
      lo_SetCookie out = [session_cookie h mac (le_now v) uid, expire h pendingCookieName ''/api/auth'']"
    "ld_users d' = ld_users d"
    "pn_CLIRedirect p = [] \<Longrightarrow> lo_Location out = ah_baseURL h @ ''/'' \<and> d' = d"
    "pn_CLIRedirect p \<noteq> [] \<Longrightarrow> issue_code v uid d = (Inr (le_code v), d') \<and>
       appendQuery (pn_CLIRedirect p) (le_code v) (pn_CLIState p) = Some (lo_Location out)"
    by blast+
qed

lemma callback_cases:
  assumes "callback h v state code pending d = (Inr out, d')"
  obtains c p identity uid d1 where "ah_oidc h = Some c" "readPending h pending = Some p" "state = pn_State p" "state \<noteq> []"
    "Client_Exchange c code (pn_Verifier p) = Some identity" "oi_Nonce identity = pn_Nonce p" "oi_EmailVerified identity"
    "oi_Email identity \<noteq> []" "login_user v identity d = (Inr uid, d1)" "finish_login h v p uid d1 = (Inr out, d')"
  using assms by (auto simp: callback_def split: option.splits if_splits prod.splits sum.splits)

lemma readPending_authentic:
  assumes "readPending h pending = Some p"
  shows "\<exists>mac body raw. ah_pending h = Some mac \<and> pending = body @ ''.'' @ b64_encode (mac body) \<and> b64_decode body = Some raw \<and>
    unmarshal_struct pending_field no_pending raw = Some p"
proof -
  obtain mac raw where m: "ah_pending h = Some mac" "Signer_Verify mac pending = Some raw"
    "unmarshal_struct pending_field no_pending raw = Some p"
    using assms by (auto simp: readPending_def split: option.splits if_splits)
  from Signer_Verify_authentic [OF m(2)] m(1,3) show ?thesis by metis
qed

lemma callback_run:
  assumes "ah_oidc h = Some c" "readPending h pending = Some p" "pn_State p \<noteq> []"
    "Client_Exchange c code (pn_Verifier p) = Some identity" "oi_Nonce identity = pn_Nonce p" "oi_EmailVerified identity"
    "oi_Email identity \<noteq> []" "login_user v identity d = (Inr uid, d1)"
  shows "callback h v (pn_State p) code pending d = finish_login h v p uid d1"
  using assms by (simp add: callback_def)

lemma RandomToken_facts: "utf8 (RandomToken b) = RandomToken b" "b \<noteq> [] \<Longrightarrow> RandomToken b \<noteq> []"
  using utf8_ascii [OF b64_ascii] by (simp add: RandomToken_def) (cases b rule: b64_encode.cases, simp_all add: RandomToken_def Let_def)

lemma find_last: "find P xs = None \<Longrightarrow> find P (xs @ [y]) = (if P y then Some y else None)"
  by (induction xs) (auto split: if_splits)

text \<open>A provider that vouches for one address, and a server with no users yet.\<close>

definition demo_claims :: doc where
  "demo_claims = DObj [(''email'', DStr ''a@b''), (''email_verified'', DBool True)]"

definition demo_client :: oidc_client where
  "demo_client = \<lparr>oc_AuthCodeURL = (\<lambda>s n v. ''https://idp/?state='' @ s), oc_Exchange = (\<lambda>code v. Some (Some ''token'')),
     oc_Verify = (\<lambda>raw. Some (RandomToken ''n'', doc_text demo_claims))\<rparr>"

definition demo_handler :: AuthHandler where
  "demo_handler = \<lparr>ah_oidc = Some demo_client, ah_sessions = Some rev, ah_pending = Some rev, ah_secure = True,
     ah_baseURL = ''https://bench'', ah_authDisabled = False\<rparr>"

definition demo_env :: login_env where
  "demo_env = \<lparr>le_HashToken = (\<lambda>s. s), le_now = 0, le_code_now = 0, le_code = ''k'', le_genID = Inr ''u1'',
     le_e1 = (\<lambda>t. t), le_e2 = (\<lambda>t. t)\<rparr>"

definition demo_login_db :: login_db where "demo_login_db = \<lparr>ld_users = [], ld_codes = []\<rparr>"

definition demo_identity :: Identity where
  "demo_identity = \<lparr>oi_Email = ''a@b'', oi_EmailVerified = True, oi_Name = [], oi_Nonce = RandomToken ''n''\<rparr>"

lemma demo_exchange: "Client_Exchange demo_client code v = Some demo_identity"
proof -
  have a: "\<forall>k \<in> {''email'', ''email_verified'', ''a@b''}. ascii k \<and> ascii_lower k = k" by (simp add: ascii_def ascii_lower_def byte_def)
  then have k: "fold_name ''email'' = ''email''" "fold_name ''email_verified'' = ''email_verified''"
    using fold_name_ascii by simp_all
  have "text_ok demo_claims" using a utf8_ascii by (simp add: demo_claims_def)
  moreover have "doc_depth demo_claims \<le> max_depth" by (simp add: demo_claims_def max_depth_def)
  ultimately have "read_doc (doc_text demo_claims) = Some demo_claims" by (rule read_doc_text)
  then show ?thesis
    by (simp add: Client_Exchange_def demo_client_def unmarshal_struct_def)
       (simp add: demo_claims_def k claim_field_def str_field_def bool_field_def demo_identity_def)
qed

lemma demo_user: "login_user demo_env demo_identity demo_login_db =
  (Inr ''u1'', demo_login_db\<lparr>ld_users := [\<lparr>user_id = ''u1'', user_email = ''a@b'', user_name = ''a@b'', user_password = ''!''\<rparr>]\<rparr>)"
  by (simp add: login_user_def GetOrCreateUserByEmail_def getOrCreate_def GetUserByEmail_def InsertUser_def select_id_def
      insert_nothing_def demo_env_def demo_identity_def demo_login_db_def oidcMarkerPassword_def)

lemma demo_callback:
  "\<exists>out d'. callback demo_handler demo_env (RandomToken ''s'') ''c''
     (Signer_Sign rev (marshal_pending \<lparr>pn_State = RandomToken ''s'', pn_Nonce = RandomToken ''n'', pn_Verifier = [],
        pn_CLIRedirect = [], pn_CLIState = []\<rparr>)) demo_login_db = (Inr out, d')"
proof -
  let ?p = "\<lparr>pn_State = RandomToken ''s'', pn_Nonce = RandomToken ''n'', pn_Verifier = [], pn_CLIRedirect = [], pn_CLIState = []\<rparr>"
  have p: "readPending demo_handler (Signer_Sign rev (marshal_pending ?p)) = Some ?p"
    using readPending_own [of demo_handler rev ?p] by (simp add: demo_handler_def pending_utf8_def RandomToken_facts(1)) (simp add: utf8_def)
  have "callback demo_handler demo_env (pn_State ?p) ''c'' (Signer_Sign rev (marshal_pending ?p)) demo_login_db =
    finish_login demo_handler demo_env ?p ''u1'' (snd (login_user demo_env demo_identity demo_login_db))"
    by (rule callback_run [where c = demo_client and identity = demo_identity])
       (simp_all only: p demo_exchange demo_user, simp_all add: demo_handler_def demo_identity_def RandomToken_facts(2))
  then show ?thesis by (simp add: finish_login_def Let_def demo_handler_def)
qed

text \<open>
  C4: A completed login was begun here, by this browser, and proved who it is. When the callback
  answers with a session, the pending cookie bears the server's signature, its state is the
  state of the request, the identity provider vouched for a token with its nonce for the code
  and the cookie's verifier, the e-mail address is verified and not empty, and the session is
  for the row of that address. A code is issued only to a redirect the signed cookie holds.
\<close>

theorem callback_sound:
  assumes "callback h v state code pending d = (Inr out, d')"
  shows "\<exists>c mac body raw p identity uid smac. ah_oidc h = Some c \<and>
    ah_pending h = Some mac \<and> pending = body @ ''.'' @ b64_encode (mac body) \<and> b64_decode body = Some raw \<and>
    unmarshal_struct pending_field no_pending raw = Some p \<and> state = pn_State p \<and> state \<noteq> [] \<and>
    Client_Exchange c code (pn_Verifier p) = Some identity \<and> oi_Nonce identity = pn_Nonce p \<and>
    oi_EmailVerified identity \<and> oi_Email identity \<noteq> [] \<and>
    (\<exists>r \<in> set (ld_users d'). user_email r = oi_Email identity \<and> user_id r = uid) \<and>
    ah_sessions h = Some smac \<and>
    lo_SetCookie out = [session_cookie h smac (le_now v) uid, expire h pendingCookieName ''/api/auth''] \<and>
    (if pn_CLIRedirect p = [] then lo_Location out = ah_baseURL h @ ''/'' \<and> ld_codes d' = ld_codes d
     else appendQuery (pn_CLIRedirect p) (le_code v) (pn_CLIState p) = Some (lo_Location out) \<and>
       (\<exists>r \<in> set (ld_codes d'). code_hash r = le_HashToken v (le_code v) \<and> code_user r = uid))"
proof -
  obtain c p identity uid d1 where k: "ah_oidc h = Some c" "readPending h pending = Some p" "state = pn_State p" "state \<noteq> []"
    "Client_Exchange c code (pn_Verifier p) = Some identity" "oi_Nonce identity = pn_Nonce p" "oi_EmailVerified identity"
    "oi_Email identity \<noteq> []" and u: "login_user v identity d = (Inr uid, d1)" and f: "finish_login h v p uid d1 = (Inr out, d')"
    by (rule callback_cases [OF assms])
  note row = login_user_row [OF u]
  note fin = finish_login_Inr [OF f]
  have last: "if pn_CLIRedirect p = [] then lo_Location out = ah_baseURL h @ ''/'' \<and> ld_codes d' = ld_codes d
     else appendQuery (pn_CLIRedirect p) (le_code v) (pn_CLIState p) = Some (lo_Location out) \<and>
       (\<exists>r \<in> set (ld_codes d'). code_hash r = le_HashToken v (le_code v) \<and> code_user r = uid)"
    using fin(3,4) row(2) issue_code_row(3) [of v uid d1 "le_code v" d'] by auto
  have "\<exists>r \<in> set (ld_users d'). user_email r = oi_Email identity \<and> user_id r = uid" using row(1) fin(2) by simp
  with readPending_authentic [OF k(2)] fin(1) k last show ?thesis by blast
qed

theorem callback_sound_witness:
  "\<exists>pending out d' r. callback demo_handler demo_env (RandomToken ''s'') ''c'' pending demo_login_db = (Inr out, d') \<and>
     r \<in> set (ld_users d') \<and> user_email r = ''a@b''"
proof -
  from demo_callback obtain pending out d' where c: "callback demo_handler demo_env (RandomToken ''s'') ''c'' pending demo_login_db = (Inr out, d')"
    by blast
  from callback_sound [OF c] obtain c identity v where "ah_oidc demo_handler = Some c" "Client_Exchange c ''c'' v = Some identity"
    "\<exists>r \<in> set (ld_users d'). user_email r = oi_Email identity" by blast
  moreover from this(1) have "c = demo_client" by (simp add: demo_handler_def)
  ultimately have "\<exists>r \<in> set (ld_users d'). user_email r = ''a@b''" by (auto simp: demo_exchange) (auto simp: demo_identity_def)
  with c show ?thesis by blast
qed

text \<open>A freshly issued code is redeemed once, for its user, until it expires.\<close>

lemma issue_redeem:
  assumes "le_HashToken v (le_code v) \<notin> code_hash ` set (ld_codes d)"
  obtains d' where "issue_code v uid d = (Inr (le_code v), d')" "ld_users d' = ld_users d"
    "\<And>t. fst (DBCodeStore_Redeem (le_HashToken v) (le_code v) t (ld_codes d')) = (if t \<le> le_code_now v + codeTTL then Some uid else None)"
proof -
  let ?h = "le_HashToken v (le_code v)"
  let ?old = "DeleteExpiredCLILoginCodes (le_code_now v) (ld_codes d)"
  let ?row = "\<lparr>code_hash = ?h, code_user = uid, code_created = le_code_now v, code_expires = le_code_now v + codeTTL, code_redeemed = None\<rparr>"
  have fresh: "?h \<notin> code_hash ` set ?old" using assms by (auto simp: DeleteExpiredCLILoginCodes_def)
  then have i: "issue_code v uid d = (Inr (le_code v), d\<lparr>ld_codes := ?old @ [?row]\<rparr>)"
    by (simp add: issue_code_def DBCodeStore_Issue_def InsertCLILoginCode_def)
  have "find (\<lambda>c. code_hash c = ?h \<and> code_redeemed c = None \<and> t \<le> code_expires c) (?old @ [?row]) =
      (if t \<le> le_code_now v + codeTTL then Some ?row else None)" for t
    by (subst find_last) (use fresh in \<open>force simp: find_None_iff image_iff\<close>)+
  then show ?thesis
    by (intro that [OF i]) (auto simp: DBCodeStore_Redeem_def RedeemCLILoginCode_def Let_def)
qed


lemma url_parse_nil: "url_parse [] = Some no_url"
  by (simp add: url_parse_def cut_or_absent parse_url_def get_scheme_def cut_query_def ascii_lower_def parse_rest_def
      has_prefix_def set_path_def no_url_def)

lemma cliStart_pending:
  assumes "cliStart h v stateBytes nonceBytes verifier r st session d = (Inr out, d')" "sessionUser h (le_now v) session = None"
  shows "validateLoopbackRedirect r = None" "d' = d"
    "\<exists>c mac. ah_oidc h = Some c \<and> ah_pending h = Some mac \<and>
       lo_Location out = oc_AuthCodeURL c (RandomToken stateBytes) (RandomToken nonceBytes) verifier \<and>
       ck_Value (hd (lo_SetCookie out)) = Signer_Sign mac (marshal_pending \<lparr>pn_State = RandomToken stateBytes,
         pn_Nonce = RandomToken nonceBytes, pn_Verifier = verifier, pn_CLIRedirect = r, pn_CLIState = st\<rparr>)"
  using assms by (auto simp: cliStart_def beginOIDC_def cookie_def split: option.splits if_splits)



lemma digits_val_chars: "digits_val acc s = Some n \<Longrightarrow> c \<in> set s \<Longrightarrow> digit_val c \<noteq> None"
  by (induction s arbitrary: acc) (auto split: option.splits)

lemma parse_int64_chars:
  assumes "parse_int64 s = Some n" "c \<in> set s"
  shows "digit_val c \<noteq> None \<or> c = CHR ''-'' \<or> c = CHR ''+''"
proof -
  obtain d r where s: "s = d # r" using assms(2) by (cases s) auto
  show ?thesis
  proof (cases "d = CHR ''-'' \<or> d = CHR ''+''")
    case True
    then have "\<exists>n. digits_val 0 r = Some n" using assms(1) by (auto simp: s parse_int64_def Let_def split: option.splits if_splits)
    with True assms(2) digits_val_chars show ?thesis unfolding s by fastforce
  next
    case False
    then have "\<exists>n. digits_val 0 s = Some n" using assms(1)
      by (auto simp: s parse_int64_def Let_def simp del: digits_val.simps split: option.splits if_splits)
    with assms(2) digits_val_chars show ?thesis by blast
  qed
qed

text \<open>
  The two signed cookies share a key but are never confused: a pending login is no session,
  at any time and whatever a caller puts into it.
\<close>

theorem pending_no_session: "Session_Verify mac (Signer_Sign mac (marshal_pending p)) now = None"
proof -
  obtain t where t: "marshal_pending p = t @ ''}''" by (simp add: marshal_pending_def marshal_strings_def)
  have "parse_int64 e = None" if "t @ ''}'' = a @ CHR ''|'' # e" for a e
  proof -
    have "CHR ''}'' \<in> set e" using that by (cases e rule: rev_cases) auto
    then show ?thesis using parse_int64_chars [of e _ "CHR ''}''"] by (cases "parse_int64 e") (auto simp: digit_val_def byte_def)
  qed
  then show ?thesis by (auto simp: Session_Verify_def t str_cut_Some_iff split: option.splits)
qed

end
