(* ===== verification/TimeText.thy ===== *)
theory TimeText
  imports JsonText UrlParse
begin

text \<open>
  \<^verbatim>\<open>time.Time\<close> as RFC 3339 text: formatting in UTC with and without nanoseconds, and \<^verbatim>\<open>time.Parse\<close>
  with the layouts \<^verbatim>\<open>RFC3339\<close> and \<^verbatim>\<open>RFC3339Nano\<close>, which accept the same texts: one digit for the
  hour, a comma before the fraction, any number of digits in it, offsets up to 24:60. The civil
  calendar is shown to be inverted by counting days, so what is written is read back.
\<close>

section \<open>Formatting\<close>

definition two :: "int \<Rightarrow> string" where "two k = pad_left 2 (itoa k)"

definition year_text :: "int \<Rightarrow> string" where
  "year_text y = (if y < 0 then ''-'' @ pad_left 4 (itoa (- y)) else pad_left 4 (itoa y))"

definition date_text :: "int \<Rightarrow> string" where
  "date_text days = (let (y, m, d) = civil days in year_text y @ ''-'' @ two m @ ''-'' @ two d)"

definition clock_text :: "int \<Rightarrow> string" where
  "clock_text s = two (s div 3600) @ '':'' @ two (s div 60 mod 60) @ '':'' @ two (s mod 60)"

definition nano_text :: "int \<Rightarrow> string" where
  "nano_text ns = (if ns = 0 then [] else ''.'' @ trim_right (\<lambda>c. c = CHR ''0'') (pad_left 9 (itoa ns)))"

definition seconds_text :: "time \<Rightarrow> string" where
  "seconds_text t = (let secs = t div 10 ^ 9 in date_text (secs div 86400) @ ''T'' @ clock_text (secs mod 86400))"

definition RFC3339 :: "time \<Rightarrow> string" where "RFC3339 t = seconds_text t @ ''Z''"
definition RFC3339Nano :: "time \<Rightarrow> string" where "RFC3339Nano t = seconds_text t @ nano_text (t mod 10 ^ 9) @ ''Z''"

section \<open>Parsing\<close>

definition leap_year :: "int \<Rightarrow> bool" where
  "leap_year y \<longleftrightarrow> y mod 4 = 0 \<and> (y mod 100 \<noteq> 0 \<or> y mod 400 = 0)"

definition days_in :: "int \<Rightarrow> int \<Rightarrow> int" where
  "days_in m y = (if m = 2 then (if leap_year y then 29 else 28) else if m \<in> {4, 6, 9, 11} then 30 else 31)"

definition day_number :: "int \<Rightarrow> int \<Rightarrow> int \<Rightarrow> int" where
  "day_number y m d = (let z = (if m \<le> 2 then y - 1 else y); yoe = z mod 400; mp = (m + 9) mod 12 in
     z div 400 * 146097 + (yoe * 365 + yoe div 4 - yoe div 100 + ((153 * mp + 2) div 5 + d - 1)) - 719468)"

definition digits_int :: "string \<Rightarrow> int" where
  "digits_int s = foldl (\<lambda>n c. n * 10 + (int (byte c) - 48)) 0 s"

text \<open>One or two digits; two when fixed.\<close>

definition getnum :: "bool \<Rightarrow> string \<Rightarrow> (int \<times> string) option" where
  "getnum fixed s =
     (if 2 \<le> length s \<and> list_all is_digit (take 2 s) then Some (digits_int (take 2 s), drop 2 s)
      else if \<not> fixed \<and> s \<noteq> [] \<and> is_digit (hd s) then Some (digits_int (take 1 s), drop 1 s)
      else None)"

definition in_range :: "int \<Rightarrow> int \<Rightarrow> (int \<times> string) option \<Rightarrow> (int \<times> string) option" where
  "in_range lo hi r = (case r of Some (n, s) \<Rightarrow> if lo \<le> n \<and> n \<le> hi then Some (n, s) else None | None \<Rightarrow> None)"

definition parse_year :: "string \<Rightarrow> (int \<times> string) option" where
  "parse_year s = (if 4 \<le> length s \<and> list_all is_digit (take 4 s) then Some (digits_int (take 4 s), drop 4 s) else None)"

definition after :: "char \<Rightarrow> string \<Rightarrow> string option" where
  "after c s = (case s of [] \<Rightarrow> None | x # r \<Rightarrow> if x = c then Some r else None)"

definition parse_fraction :: "string \<Rightarrow> int \<times> string" where
  "parse_fraction s = (case s of
     c # r \<Rightarrow>
       (let ds = takeWhile is_digit r in
        if (c = CHR ''.'' \<or> c = CHR '','') \<and> ds \<noteq> []
        then (digits_int (take 9 (ds @ replicate 9 (CHR ''0''))), dropWhile is_digit r) else (0, s))
   | [] \<Rightarrow> (0, []))"

text \<open>The offset in seconds; the text has to end with it.\<close>

definition parse_zone :: "string \<Rightarrow> int option" where
  "parse_zone s =
     (if s = ''Z'' then Some 0
      else case s of
        [sign, a, b, c, d, e] \<Rightarrow>
          (if c \<noteq> CHR '':'' \<or> sign \<noteq> CHR ''+'' \<and> sign \<noteq> CHR ''-'' then None
           else case (in_range 0 24 (getnum True [a, b]), in_range 0 60 (getnum True [d, e])) of
             (Some (h, _), Some (m, _)) \<Rightarrow> Some ((if sign = CHR ''-'' then -1 else 1) * ((h * 60 + m) * 60))
           | _ \<Rightarrow> None)
      | _ \<Rightarrow> None)"

definition obind :: "'a option \<Rightarrow> ('a \<Rightarrow> 'b option) \<Rightarrow> 'b option" where
  "obind x f = (case x of None \<Rightarrow> None | Some y \<Rightarrow> f y)"

definition parse_time :: "string \<Rightarrow> time option" where
  "parse_time s =
     obind (parse_year s) (\<lambda>(y, s). obind (after (CHR ''-'') s) (\<lambda>s.
     obind (in_range 1 12 (getnum True s)) (\<lambda>(m, s). obind (after (CHR ''-'') s) (\<lambda>s.
     obind (getnum True s) (\<lambda>(d, s). obind (after (CHR ''T'') s) (\<lambda>s.
     obind (in_range 0 23 (getnum False s)) (\<lambda>(h, s). obind (after (CHR '':'') s) (\<lambda>s.
     obind (in_range 0 59 (getnum True s)) (\<lambda>(mi, s). obind (after (CHR '':'') s) (\<lambda>s.
     obind (in_range 0 59 (getnum True s)) (\<lambda>(sec, s).
       (case parse_fraction s of (ns, s) \<Rightarrow>
          obind (parse_zone s) (\<lambda>offset.
            if 1 \<le> d \<and> d \<le> days_in m y
            then Some (((day_number y m d * 86400 + h * 3600 + mi * 60 + sec) - offset) * 10 ^ 9 + ns)
            else None)))))))))))))"

section \<open>The calendar\<close>

text \<open>A day of the 400-year cycle: century, group of four years, year and day in the year from March.\<close>

lemma split_cycle:
  assumes "0 \<le> n" "n \<le> hi * b" "0 < b" "0 < (hi::int)"
  obtains q r where "0 \<le> q" "q \<le> hi - 1" "0 \<le> r" "r \<le> b" "r = b \<Longrightarrow> q = hi - 1" "n = b * q + r"
proof (cases "n = hi * b")
  case True
  then show ?thesis using assms by (intro that [of "hi - 1" b]) (auto simp: algebra_simps)
next
  case False
  with assms have "n < hi * b" by simp
  moreover have "b * (n div b) \<le> n" using assms(3) pos_mod_sign [of b n] mult_div_mod_eq [of b n] by linarith
  ultimately have "b * (n div b) < b * hi" by (simp add: mult.commute)
  then have "n div b < hi" using assms(3) by (simp only: mult_less_cancel_left_pos)
  then show ?thesis using assms
    by (intro that [of "n div b" "n mod b"]) (auto simp: pos_imp_zdiv_nonneg_iff dest: pos_mod_bound [of b n] intro: less_imp_le)
qed

lemma cycle_day:
  assumes "0 \<le> doe" "doe < (146097::int)"
  obtains c q k doy where "0 \<le> c" "c \<le> 3" "0 \<le> q" "q \<le> 24" "0 \<le> k" "k \<le> 3" "0 \<le> doy" "doy \<le> 365"
    "doy = 365 \<longrightarrow> k = 3 \<and> (q = 24 \<longrightarrow> c = 3)" "doe = 36524 * c + 1461 * q + 365 * k + doy"
proof -
  obtain c r where c: "0 \<le> c" "c \<le> 4 - 1" "0 \<le> r" "r \<le> 36524" "r = 36524 \<Longrightarrow> c = 4 - 1" "doe = 36524 * c + r"
    using split_cycle [of doe 4 36524] assms by auto
  define q r' where "q = r div 1461" and "r' = r mod 1461"
  have q: "0 \<le> q" "q \<le> 24" "0 \<le> r'" "r' \<le> 1460" "r = 1461 * q + r'"
    using c(3,4) by (simp_all add: q_def r'_def)
  obtain k doy where k: "0 \<le> k" "k \<le> 4 - 1" "0 \<le> doy" "doy \<le> 365" "doy = 365 \<Longrightarrow> k = 4 - 1" "r' = 365 * k + doy"
    using split_cycle [of r' 4 365] q(3,4) by auto
  show ?thesis
  proof (rule that [of c q k doy])
    show "doy = 365 \<longrightarrow> k = 3 \<and> (q = 24 \<longrightarrow> c = 3)"
      using k(5,6) q(5) c(5) by auto
  qed (use c q k in auto)
qed

lemma year_of_cycle:
  assumes "0 \<le> c" "c \<le> (3::int)" "0 \<le> q" "q \<le> 24" "0 \<le> k" "k \<le> 3" "0 \<le> doy" "doy \<le> 365"
    "doy = 365 \<longrightarrow> k = 3 \<and> (q = 24 \<longrightarrow> c = 3)" "doe = 36524 * c + 1461 * q + 365 * k + doy"
  shows "(doe - doe div 1460 + doe div 36524 - doe div 146096) div 365 = 100 * c + 4 * q + k"
proof -
  define e where "e = 24 * c + q + 365 * k + doy"
  define f where "f = 1461 * q + 365 * k + doy"
  have "doe = 1460 * (25 * c + q) + e" by (simp add: e_def assms(10))
  moreover have e: "0 \<le> e" "e < 2 * 1460" using assms(1-8) by (simp_all add: e_def)
  ultimately have d1: "doe div 1460 = 25 * c + q + e div 1460" by simp
  have f: "doe = 36524 * c + f" "0 \<le> f" "f \<le> 36524" using assms by (simp_all add: f_def)
  have d2: "doe div 36524 - doe div 146096 = c"
  proof (cases "f = 36524")
    case True
    then have "doy = 365" "q = 24" using assms(3-8) unfolding f_def by linarith+
    with assms(9) have "c = 3" by simp
    with True f(1) show ?thesis by simp
  next
    case False
    then have "f div 36524 = 0" using f(2,3) by (intro div_pos_pos_trivial) auto
    moreover have "doe div 36524 = c + f div 36524" by (simp add: f(1))
    moreover have "doe div 146096 = 0" using False f assms(1,2) by (intro div_pos_pos_trivial) auto
    ultimately show ?thesis by simp
  qed
  have "doe - doe div 1460 + doe div 36524 - doe div 146096 = 365 * (100 * c + 4 * q + k) + (doy - e div 1460)"
    using d1 d2 by (simp add: assms(10))
  moreover have "0 \<le> doy - e div 1460" "doy - e div 1460 < 365"
  proof -
    have "e div 1460 = 0 \<and> e < 1460 \<or> e div 1460 = 1 \<and> 1460 \<le> e"
    proof (cases "e < 1460")
      case False
      then show ?thesis using e int_div_pos_eq [of e 1460 1 "e - 1460"] by simp
    qed (use e in \<open>simp add: div_pos_pos_trivial\<close>)
    then consider "e div 1460 = 0" "e < 1460" | "e div 1460 = 1" "1460 \<le> e" by blast
    then have "0 \<le> doy - e div 1460 \<and> doy - e div 1460 < 365"
    proof cases
      case 1
      have "doy \<noteq> 365"
      proof
        assume "doy = 365"
        with assms(1,3,9) have "1460 \<le> e" unfolding e_def by linarith
        with 1(2) show False by simp
      qed
      with 1 assms(7,8) show ?thesis by simp
    next
      case 2
      have "1 \<le> doy" using 2(2) assms(2,4,6) unfolding e_def by linarith
      with 2 assms(8) show ?thesis by simp
    qed
    then show "0 \<le> doy - e div 1460" "doy - e div 1460 < 365" by simp_all
  qed
  ultimately show ?thesis by simp
qed

text \<open>The days of the year from March, one by one.\<close>

definition march_day :: "int \<Rightarrow> int \<times> int" where
  "march_day doy = (let mp = (5 * doy + 2) div 153 in (if mp < 10 then mp + 3 else mp - 9, doy - (153 * mp + 2) div 5 + 1))"

definition march_ok :: "int \<Rightarrow> bool" where
  "march_ok doy \<longleftrightarrow> (let (m, d) = march_day doy; mp = (m + 9) mod 12 in
     1 \<le> m \<and> m \<le> 12 \<and> 1 \<le> d \<and> (153 * mp + 2) div 5 + d - 1 = doy \<and>
     d \<le> (if m = 2 then (if doy = 365 then 29 else 28) else if m \<in> {4, 6, 9, 11} then 30 else 31))"

lemma march_days: assumes "0 \<le> doy" "doy \<le> 365" shows "march_ok doy"
proof -
  define mp where "mp = (5 * doy + 2) div 153"
  have b: "153 * mp \<le> 5 * doy + 2" "5 * doy + 2 < 153 * mp + 153" by (simp_all add: mp_def) 
  then have "0 \<le> mp" "mp \<le> 11" using assms by simp_all
  then have "mp = 0 \<or> mp = 1 \<or> mp = 2 \<or> mp = 3 \<or> mp = 4 \<or> mp = 5 \<or> mp = 6 \<or> mp = 7 \<or> mp = 8 \<or> mp = 9 \<or> mp = 10 \<or> mp = 11"
    by arith
  moreover have "march_day doy = (if mp < 10 then mp + 3 else mp - 9, doy - (153 * mp + 2) div 5 + 1)"
    by (simp add: march_day_def mp_def Let_def)
  ultimately show ?thesis unfolding march_ok_def using b assms(2) by (elim disjE) simp_all
qed

lemma civil_inverse:
  assumes "civil days = (y, m, d)"
  shows "1 \<le> m \<and> m \<le> 12 \<and> 1 \<le> d \<and> d \<le> days_in m y \<and> day_number y m d = days"
proof -
  define z where "z = days + 719468"
  define era where "era = z div 146097"
  define doe where "doe = z mod 146097"
  have doe: "0 \<le> doe" "doe < 146097" by (simp_all add: doe_def)
  obtain c q k doy where p: "0 \<le> c" "c \<le> 3" "0 \<le> q" "q \<le> 24" "0 \<le> k" "k \<le> 3" "0 \<le> doy" "doy \<le> 365"
    "doy = 365 \<longrightarrow> k = 3 \<and> (q = 24 \<longrightarrow> c = 3)" "doe = 36524 * c + 1461 * q + 365 * k + doy"
    by (rule cycle_day [OF doe])
  define yoe where "yoe = 100 * c + 4 * q + k"
  have yoe: "(doe - doe div 1460 + doe div 36524 - doe div 146096) div 365 = yoe"
    unfolding yoe_def by (rule year_of_cycle [OF p])
  have parts: "yoe div 4 = 25 * c + q" "yoe div 100 = c" "0 \<le> yoe" "yoe < 400"
    using p(1-6) by (simp_all add: yoe_def)
  then have doy: "doe - (365 * yoe + yoe div 4 - yoe div 100) = doy" by (simp add: p(10) yoe_def)
  have ymd: "march_day doy = (m, d)" "y = yoe + era * 400 + (if m \<le> 2 then 1 else 0)"
    using assms unfolding civil_def Let_def z_def [symmetric] era_def [symmetric] doe_def [symmetric] yoe doy
    by (auto simp: march_day_def Let_def)
  have ok: "1 \<le> m" "m \<le> 12" "1 \<le> d" "(153 * ((m + 9) mod 12) + 2) div 5 + d - 1 = doy"
    "d \<le> (if m = 2 then (if doy = 365 then 29 else 28) else if m \<in> {4, 6, 9, 11} then 30 else 31)"
    using march_days [OF p(7,8)] by (simp_all add: march_ok_def ymd(1) Let_def)
  have "leap_year y" if "doy = 365" "m = 2"
  proof -
    have y: "y = 400 * era + 100 * c + 4 * (q + 1)" "q = 24 \<longrightarrow> c = 3"
      using p(9) that ymd(2) by (auto simp: yoe_def)
    have "y = 4 * (100 * era + 25 * c + q + 1)" using y(1) by simp
    then have "y mod 4 = 0" by simp
    moreover have "y mod 100 \<noteq> 0" if "q < 24"
    proof -
      have "y = 100 * (4 * era + c) + 4 * (q + 1)" using y(1) by simp
      then have "y mod 100 = (4 * (q + 1)) mod 100" by (simp only: mod_mult_self3 mod_mult_self4 mult.commute)
      with that p(3) show ?thesis by simp
    qed
    moreover have "y mod 400 = 0" if "q = 24" using y that by simp
    ultimately show ?thesis using p(4) by (cases "q < 24") (auto simp: leap_year_def)
  qed
  then have "d \<le> days_in m y" using ok(5) by (auto simp: days_in_def split: if_splits)
  moreover have "day_number y m d = days"
  proof -
    have "(if m \<le> 2 then y - 1 else y) = yoe + era * 400" using ymd(2) by simp
    moreover have "(yoe + era * 400) div 400 = era" "(yoe + era * 400) mod 400 = yoe" using parts(3,4) by simp_all
    ultimately have "day_number y m d = era * 146097 + (yoe * 365 + yoe div 4 - yoe div 100 + doy) - 719468"
      using ok(4) by (simp add: day_number_def Let_def)
    also have "yoe * 365 + yoe div 4 - yoe div 100 + doy = doe" using doy by simp
    also have "era * 146097 + doe = z" by (simp add: era_def doe_def)
    finally show ?thesis by (simp add: z_def)
  qed
  ultimately show ?thesis using ok(1-3) by simp
qed

section \<open>What is written is read back\<close>

lemma digit_char: "n < 10 \<Longrightarrow> is_digit (char_of (48 + n)) \<and> byte (char_of (48 + n)) = 48 + n"
  by (simp add: is_digit_def byte_chr)

lemma digits_int_snoc: "digits_int (s @ [c]) = digits_int s * 10 + (int (byte c) - 48)"
  by (simp add: digits_int_def)

lemma dec_digits_facts: "list_all is_digit (dec_digits n) \<and> digits_int (dec_digits n) = int n"
proof (induction n rule: dec_digits.induct)
  case (1 n)
  show ?case
  proof (cases "n < 10")
    case True
    then show ?thesis using digit_char [OF True] by (simp add: dec_digits.simps [of n] digits_int_def)
  next
    case False
    have "n mod 10 < 10" by simp
    then have "is_digit (char_of (48 + n mod 10))" "byte (char_of (48 + n mod 10)) = 48 + n mod 10"
      using digit_char by blast+
    moreover have "dec_digits n = dec_digits (n div 10) @ [char_of (48 + n mod 10)]" using False by (simp add: dec_digits.simps [of n])
    moreover have "int (n div 10) * 10 + int (n mod 10) = int n" by (metis div_mult_mod_eq of_nat_add of_nat_mult of_nat_numeral)
    ultimately show ?thesis using 1 [OF False] by (simp add: digits_int_snoc)
  qed
qed

lemma dec_digits_length: "n < 10 ^ j \<Longrightarrow> 0 < j \<Longrightarrow> length (dec_digits n) \<le> j"
proof (induction n arbitrary: j rule: dec_digits.induct)
  case (1 n)
  show ?case
  proof (cases "n < 10")
    case True
    then show ?thesis using 1(3) by (simp add: dec_digits.simps [of n])
  next
    case False
    then obtain i where i: "j = Suc i" "0 < i" using 1(2,3) by (cases j; cases "j = 1") auto
    then have "n div 10 < 10 ^ i" using 1(2) by (simp add: div_less_iff_less_mult mult.commute)
    with 1(1) [OF False, of i] i show ?thesis using False by (simp add: dec_digits.simps [of n])
  qed
qed

lemma digits_int_zeros: "digits_int (replicate k (CHR ''0'') @ s) = digits_int s"
proof -
  have "foldl (\<lambda>n c. n * 10 + (int (byte c) - 48)) 0 (replicate k (CHR ''0'')) = 0" by (induction k) (simp_all add: byte_def)
  then show ?thesis by (simp add: digits_int_def)
qed

text \<open>A number padded to a width it fits.\<close>

lemma padded:
  assumes "0 \<le> k" "k < 10 ^ j" "0 < j"
  shows "length (pad_left j (itoa k)) = j" "list_all is_digit (pad_left j (itoa k))" "digits_int (pad_left j (itoa k)) = k"
proof -
  have "length (dec_digits (nat k)) \<le> j" using assms by (intro dec_digits_length) (simp_all add: nat_less_iff)
  then show "length (pad_left j (itoa k)) = j" using assms(1) by (simp add: pad_left_def itoa_def)
  show "list_all is_digit (pad_left j (itoa k))" "digits_int (pad_left j (itoa k)) = k"
    using assms(1) dec_digits_facts [of "nat k"]
    by (simp_all add: pad_left_def itoa_def digits_int_zeros) (auto simp: list_all_iff is_digit_def byte_def)
qed

lemma getnum_two: "0 \<le> k \<Longrightarrow> k \<le> 99 \<Longrightarrow> getnum fixed (two k @ s) = Some (k, s)"
  using padded [of k 2] by (simp add: getnum_def two_def)

lemma parse_year_text: "0 \<le> y \<Longrightarrow> y \<le> 9999 \<Longrightarrow> parse_year (year_text y @ s) = Some (y, s)"
  using padded [of y 4] by (simp add: parse_year_def year_text_def)

lemma after_Cons [simp]: "after c (c # s) = Some s"
  by (simp add: after_def)

lemma trimmed: "\<exists>k. s = trim_right (\<lambda>c. c = a) s @ replicate k a"
proof -
  obtain t where t: "s = trim_right (\<lambda>c. c = a) s @ t" "\<forall>c \<in> set t. c = a" using trim_right_split [of s "\<lambda>c. c = a"] by blast
  then have "t = replicate (length t) a" by (simp add: replicate_eqI)
  with t(1) show ?thesis by metis
qed

lemma parse_nano:
  assumes "0 \<le> ns" "ns < 10 ^ 9"
  shows "parse_fraction (nano_text ns @ ''Z'') = (ns, ''Z'')"
proof (cases "ns = 0")
  case True
  then show ?thesis by (simp add: nano_text_def parse_fraction_def)
next
  case False
  let ?p = "pad_left 9 (itoa ns)"
  define ds where "ds = trim_right (\<lambda>c. c = CHR ''0'') ?p"
  have p: "length ?p = 9" "list_all is_digit ?p" "digits_int ?p = ns" using padded [of ns 9] assms by simp_all
  obtain k where k: "?p = ds @ replicate k (CHR ''0'')" using trimmed [of ?p "CHR ''0''"] by (auto simp: ds_def)
  have "ds \<noteq> []" using p(3) k False digits_int_zeros [of k "[]"] by (auto simp: digits_int_def)
  moreover have "take 9 (ds @ replicate 9 (CHR ''0'')) = ?p"
  proof -
    have "length ds + k = 9" using p(1) unfolding k by simp
    then have "9 - length ds = k" by simp
    then show ?thesis unfolding k using \<open>length ds + k = 9\<close> by simp
  qed
  moreover have "list_all is_digit ds" using p(2) unfolding k by simp
  moreover from this have "takeWhile is_digit (ds @ ''Z'') = ds" "dropWhile is_digit (ds @ ''Z'') = ''Z''"
    by (auto simp: list_all_iff is_digit_def byte_def takeWhile_append2 dropWhile_append2)
  ultimately show ?thesis using False p(3) by (simp add: nano_text_def parse_fraction_def ds_def [symmetric])
qed

lemma obind_Some [simp]: "obind (Some x) f = f x"
  by (simp add: obind_def)

lemma parse_written:
  assumes "0 \<le> y" "y \<le> 9999" "1 \<le> m" "m \<le> 12" "1 \<le> d" "d \<le> days_in m y" "0 \<le> h" "h \<le> 23" "0 \<le> mi" "mi \<le> 59"
    "0 \<le> sec" "sec \<le> 59" "parse_fraction (f @ ''Z'') = (ns, ''Z'')"
  shows "parse_time (year_text y @ ''-'' @ two m @ ''-'' @ two d @ ''T'' @ two h @ '':'' @ two mi @ '':'' @ two sec @ f @ ''Z'') =
    Some ((day_number y m d * 86400 + h * 3600 + mi * 60 + sec) * 10 ^ 9 + ns)"
proof -
  have "d \<le> 99" using assms(6) by (auto simp: days_in_def split: if_splits)
  then have g: "getnum fixed (two m @ s) = Some (m, s)" "getnum fixed (two d @ s) = Some (d, s)" "getnum fixed (two h @ s) = Some (h, s)"
    "getnum fixed (two mi @ s) = Some (mi, s)" "getnum fixed (two sec @ s) = Some (sec, s)" for fixed s
    using assms by (simp_all add: getnum_two)
  have "parse_zone ''Z'' = Some 0" by (simp add: parse_zone_def)
  then show ?thesis using assms by (simp add: parse_time_def parse_year_text g in_range_def)
qed

lemma parse_seconds:
  assumes "civil (t div 10 ^ 9 div 86400) = (y, m, d)" "0 \<le> y" "y \<le> 9999" "parse_fraction (f @ ''Z'') = (ns, ''Z'')"
  shows "parse_time (seconds_text t @ f @ ''Z'') = Some (t div 10 ^ 9 * 10 ^ 9 + ns)"
proof -
  define days secs where "days = t div 10 ^ 9 div 86400" and "secs = t div 10 ^ 9 mod 86400"
  note c = civil_inverse [OF assms(1)]
  have s: "0 \<le> secs" "secs < 86400" by (simp_all add: secs_def)
  then have h: "0 \<le> secs div 3600" "secs div 3600 \<le> 23" "0 \<le> secs div 60 mod 60" "secs div 60 mod 60 \<le> 59"
    "0 \<le> secs mod 60" "secs mod 60 \<le> 59" by (simp_all add: pos_imp_zdiv_nonneg_iff)
  have shown: "seconds_text t = year_text y @ ''-'' @ two m @ ''-'' @ two d @ ''T'' @
      two (secs div 3600) @ '':'' @ two (secs div 60 mod 60) @ '':'' @ two (secs mod 60)"
    using assms(1) by (simp add: seconds_text_def date_text_def clock_text_def secs_def Let_def)
  have "days * 86400 + secs div 3600 * 3600 + secs div 60 mod 60 * 60 + secs mod 60 = t div 10 ^ 9"
  proof -
    have "secs div 3600 = secs div 60 div 60" by (simp add: zdiv_zmult2_eq [symmetric])
    then have "secs div 3600 * 3600 + secs div 60 mod 60 * 60 + secs mod 60 = secs"
      using div_mult_mod_eq [of "secs div 60" 60] div_mult_mod_eq [of secs 60] by linarith
    moreover have "days * 86400 + secs = t div 10 ^ 9" unfolding days_def secs_def by (rule div_mult_mod_eq)
    ultimately show ?thesis by linarith
  qed
  note total = this
  have ymd: "1 \<le> m" "m \<le> 12" "1 \<le> d" "d \<le> days_in m y" and n: "day_number y m d = days" using c unfolding days_def by blast+
  show ?thesis
    using parse_written [OF assms(2,3) ymd h assms(4)] unfolding n total shown append_assoc .
qed

text \<open>The year is the one the text shows.\<close>

definition year_of :: "time \<Rightarrow> int" where "year_of t = fst (civil (t div 10 ^ 9 div 86400))"

lemma parse_RFC3339Nano:
  assumes "0 \<le> year_of t" "year_of t \<le> 9999"
  shows "parse_time (RFC3339Nano t) = Some t"
proof -
  obtain y m d where c: "civil (t div 10 ^ 9 div 86400) = (y, m, d)" by (cases "civil (t div 10 ^ 9 div 86400)")
  have "parse_fraction (nano_text (t mod 10 ^ 9) @ ''Z'') = (t mod 10 ^ 9, ''Z'')" by (rule parse_nano) simp_all
  from parse_seconds [OF c _ _ this] assms c show ?thesis by (simp add: RFC3339Nano_def year_of_def)
qed

lemma parse_RFC3339:
  assumes "0 \<le> year_of t" "year_of t \<le> 9999"
  shows "parse_time (RFC3339 t) = Some (t div 10 ^ 9 * 10 ^ 9)"
proof -
  obtain y m d where c: "civil (t div 10 ^ 9 div 86400) = (y, m, d)" by (cases "civil (t div 10 ^ 9 div 86400)")
  have "parse_fraction ([] @ ''Z'') = (0, ''Z'')" by (simp add: parse_fraction_def)
  from parse_seconds [OF c _ _ this] assms c show ?thesis by (simp add: RFC3339_def year_of_def)
qed

end
