(* ===== verification/ReadApi.thy ===== *)
theory ReadApi
  imports Api TimeText IngestValues SeriesProps CIReportProps
begin

text \<open>
  The HTTP handlers over results: \<^verbatim>\<open>internal/api/read.go\<close>, \<^verbatim>\<open>compare.go\<close>, \<^verbatim>\<open>list.go\<close>, \<^verbatim>\<open>runs.go\<close>, \<^verbatim>\<open>series.go\<close>,
  \<^verbatim>\<open>ci_report.go\<close>, \<^verbatim>\<open>results.go\<close> and \<^verbatim>\<open>health.go\<close>. A handler decodes its parameters, calls the service
  and maps the service's errors to statuses; an error it does not map is answered with 500 by
  the framework. The framework has set the defaults of absent parameters. The texts of errors
  of the library and of the units package are the record \<open>messages\<close>.
\<close>

section \<open>Base64, standard alphabet with padding\<close>

definition b64_std :: "string \<Rightarrow> string" where
  "b64_std s = map (\<lambda>c. if c = CHR ''-'' then CHR ''+'' else if c = CHR ''_'' then CHR ''/'' else c) (b64_encode s) @
     replicate ((3 - length s mod 3) mod 3) (CHR ''='')"

definition std_index :: "char \<Rightarrow> nat option" where
  "std_index c = (if c = CHR ''+'' then Some 62 else if c = CHR ''/'' then Some 63
     else if c = CHR ''-'' \<or> c = CHR ''_'' then None else b64_index c)"

definition b64_std_decode :: "string \<Rightarrow> string option" where
  "b64_std_decode s =
     (let t = filter (\<lambda>c. c \<noteq> CHR 0x0A \<and> c \<noteq> CHR 0x0D) s;
          body = (if has_suffix t ''=='' then take (length t - 2) t else if has_suffix t ''='' then take (length t - 1) t else t)
      in if length t mod 4 \<noteq> 0 then None
         else case map_opt std_index body of None \<Rightarrow> None | Some ks \<Rightarrow> b64_groups ks)"

section \<open>Errors\<close>

datatype http_error = HttpError nat string | ReadFailed svc_error | WriteFailed submit_error

type_synonym 'a http = "http_error + 'a"

text \<open>
  The texts of errors that others write, Go's quoting of a string, and which error of the
  database is a statement that was cancelled because it ran too long.
\<close>

record messages =
  ms_SVS :: "svs_error \<Rightarrow> string"
  ms_Unit :: "unit_error \<Rightarrow> string"
  ms_Time :: "string \<Rightarrow> string"
  ms_Cursor :: "string \<Rightarrow> string"
  ms_Quote :: "string \<Rightarrow> string"
  ms_Timeout :: "db_error \<Rightarrow> bool"

definition not_comparable_text :: "messages \<Rightarrow> not_comparable \<Rightarrow> string" where
  "not_comparable_text ms e = ''not comparable: '' @
     (case e of
        ResultFailed i \<Rightarrow> ''result '' @ i @ '' failed or has no measurement''
      | SummaryError x \<Rightarrow> ms_SVS ms x
      | NoSummary i \<Rightarrow> ''result '' @ i @ '' has no single value summary''
      | UnitsDiffer a b \<Rightarrow> ''units differ ('' @ a @ '' vs '' @ b @ '')''
      | DirectionUnknown u \<Rightarrow> ''unknown unit '' @ ms_Quote ms u
      | FingerprintsDiffer \<Rightarrow> ''history fingerprints differ'')"

definition mapReadError :: "messages \<Rightarrow> svc_error \<Rightarrow> http_error" where
  "mapReadError ms e = (case e of
     SvcNotFound \<Rightarrow> HttpError 404 ''not found''
   | NotComparable n \<Rightarrow> HttpError 422 (not_comparable_text ms n)
   | SvcStore what x \<Rightarrow>
       (if ms_Timeout ms x
        then HttpError 422 ''read query timed out; narrow the request, reduce page size, add filters, or retry a more specific lookup''
        else ReadFailed e)
   | _ \<Rightarrow> ReadFailed e)"

definition respond :: "('e \<Rightarrow> http_error) \<Rightarrow> 'e + 'a \<Rightarrow> 'a http" where
  "respond f r = (case r of Inl e \<Rightarrow> Inl (f e) | Inr x \<Rightarrow> Inr x)"

section \<open>Results, history and comparison\<close>

definition getResult :: "messages \<Rightarrow> (string \<Rightarrow> ResultDetailRow result) \<Rightarrow> string \<Rightarrow> ResultDetail http" where
  "getResult ms get i = respond (mapReadError ms) (Reader_ResultDetail get i)"

definition HistoryForResult :: "storage \<Rightarrow> (string \<Rightarrow> BenchmarkResult result) \<Rightarrow> string \<Rightarrow> (string \<times> HistorySample list) svc" where
  "HistoryForResult st get i = (case get i of
     Inl e \<Rightarrow> Inl (if e = ErrNotFound then SvcNotFound else SvcStore ''load result'' e)
   | Inr row \<Rightarrow> History st (ir_HistoryFingerprint row))"

definition getHistoryForResult ::
  "messages \<Rightarrow> storage \<Rightarrow> (string \<Rightarrow> BenchmarkResult result) \<Rightarrow> string \<Rightarrow> (string \<times> HistorySample list) http" where
  "getHistoryForResult ms st get i = respond (mapReadError ms) (HistoryForResult st get i)"

definition getHistory :: "messages \<Rightarrow> storage \<Rightarrow> string \<Rightarrow> (string \<times> HistorySample list) http" where
  "getHistory ms st fingerprint = respond (mapReadError ms) (History st fingerprint)"

definition invalid_float :: "string \<Rightarrow> http_error" where
  "invalid_float field = HttpError 422 (''invalid '' @ field @ '': must be a finite number greater than zero'')"

definition validatePositiveCompareFloat :: "f64 \<Rightarrow> string \<Rightarrow> http_error option" where
  "validatePositiveCompareFloat v field = (if v = NaN \<or> v = PInf \<or> v = NInf \<or> fle v (Fin 0) then Some (invalid_float field) else None)"

definition getCompare :: "messages \<Rightarrow> mathlib \<Rightarrow> storage \<Rightarrow> string \<Rightarrow> string \<Rightarrow> f64 \<Rightarrow> f64 \<Rightarrow> CompareResult http" where
  "getCompare ms ml st baselineID contenderID threshold thresholdZ =
     (case validatePositiveCompareFloat threshold ''threshold'' of Some e \<Rightarrow> Inl e | None \<Rightarrow>
     (case validatePositiveCompareFloat thresholdZ ''threshold_z'' of Some e \<Rightarrow> Inl e | None \<Rightarrow>
       respond (mapReadError ms) (Compare ml st baselineID contenderID threshold thresholdZ)))"

section \<open>Lists\<close>

definition setIfNonEmpty :: "string \<Rightarrow> string ptr" where
  "setIfNonEmpty v = (if v = [] then None else Some v)"

text \<open>An optional bound; the instant does not depend on the offset it is written with.\<close>

definition parseUTCBound :: "messages \<Rightarrow> string \<Rightarrow> string \<Rightarrow> time ptr http" where
  "parseUTCBound ms v field =
     (if v = [] then Inr None
      else case parse_time v of
        None \<Rightarrow> Inl (HttpError 422 (''invalid '' @ field @ '': '' @ ms_Time ms v))
      | Some t \<Rightarrow> Inr (Some t))"

record ListResultsInput =
  ri_RunID :: string
  ri_BatchID :: string
  ri_RunReason :: string
  ri_Earliest :: string
  ri_Latest :: string
  ri_Cursor :: string
  ri_PageSize :: int

definition getResults :: "messages \<Rightarrow> (ListResultsParams \<Rightarrow> ResultListRow list result) \<Rightarrow> ListResultsInput \<Rightarrow> ResultPage http" where
  "getResults ms select inp =
     (case parseUTCBound ms (ri_Earliest inp) ''earliest_timestamp'' of Inl e \<Rightarrow> Inl e | Inr earliest \<Rightarrow>
     (case parseUTCBound ms (ri_Latest inp) ''latest_timestamp'' of Inl e \<Rightarrow> Inl e | Inr latest \<Rightarrow>
       respond (mapReadError ms) (ListResults select
         \<lparr>lq_RunID = ri_RunID inp, lq_BatchID = ri_BatchID inp, lq_RunReason = ri_RunReason inp, lq_Earliest = earliest,
          lq_Latest = latest, lq_Cursor = ri_Cursor inp, lq_PageSize = ri_PageSize inp\<rparr>)))"

definition getRecentRuns ::
  "messages \<Rightarrow> mathlib \<Rightarrow> storage \<Rightarrow> (RecentRunsParams \<Rightarrow> RecentRunRow list result) \<Rightarrow> string list result \<Rightarrow>
   int \<Rightarrow> bool \<Rightarrow> string \<Rightarrow> RecentRunsPage http" where
  "getRecentRuns ms ml st select repositories pageSize includeAttention repository =
     respond (mapReadError ms) (ListRecentRuns ml st select repositories
       \<lparr>nq_PageSize = pageSize, nq_IncludeAttention = includeAttention, nq_Repository = setIfNonEmpty repository\<rparr>)"

section \<open>Series and their cursors\<close>

definition cursorSeparator :: string where "cursorSeparator = ''|''"

definition encodeCursor :: "SeriesCursor \<Rightarrow> string" where
  "encodeCursor c = b64_std (RFC3339Nano (sc_Ts c) @ cursorSeparator @ sc_Fp c)"

text \<open>The error is its text.\<close>

definition decodeCursor :: "messages \<Rightarrow> string \<Rightarrow> string + SeriesCursor" where
  "decodeCursor ms token = (case b64_std_decode token of
     None \<Rightarrow> Inl (ms_Cursor ms token)
   | Some decoded \<Rightarrow>
      (case str_cut (CHR ''|'') decoded of
         None \<Rightarrow> Inl ''missing separator''
       | Some (tsStr, fp) \<Rightarrow>
          (case parse_time tsStr of
             None \<Rightarrow> Inl (ms_Time ms tsStr)
           | Some t \<Rightarrow> Inr \<lparr>sc_Ts = t, sc_Fp = fp\<rparr>)))"

record ListSeriesInput =
  lsi_Q :: string
  lsi_Hardware :: string
  lsi_Repository :: string
  lsi_Fingerprint :: string
  lsi_ActiveSince :: string
  lsi_ActiveUntil :: string
  lsi_Cursor :: string
  lsi_PageSize :: int

record SeriesPageBody =
  sp_Series :: "SeriesListItem list"
  sp_NextPageCursor :: "string ptr"

definition series_query :: "messages \<Rightarrow> ListSeriesInput \<Rightarrow> SeriesListParams http" where
  "series_query ms inp =
     (case parseUTCBound ms (lsi_ActiveSince inp) ''active_since'' of Inl e \<Rightarrow> Inl e | Inr since \<Rightarrow>
     (case parseUTCBound ms (lsi_ActiveUntil inp) ''active_until'' of Inl e \<Rightarrow> Inl e | Inr until \<Rightarrow>
     (let q = \<lparr>slp_Fingerprint = setIfNonEmpty (lsi_Fingerprint inp), slp_Q = setIfNonEmpty (lsi_Q inp),
            slp_Repository = setIfNonEmpty (lsi_Repository inp), slp_Hardware = setIfNonEmpty (lsi_Hardware inp),
            slp_ActiveSince = since, slp_ActiveUntil = until, slp_CursorTs = None, slp_CursorFp = None,
            slp_PageSize = lsi_PageSize inp\<rparr> in
      if lsi_Cursor inp \<noteq> [] \<and> lsi_Cursor inp \<noteq> ''null'' then
        (case decodeCursor ms (lsi_Cursor inp) of
           Inl e \<Rightarrow> Inl (HttpError 422 (''invalid cursor: '' @ e))
         | Inr cur \<Rightarrow> Inr (q\<lparr>slp_CursorTs := Some (sc_Ts cur), slp_CursorFp := Some (sc_Fp cur)\<rparr>))
      else Inr q)))"

definition getSeries ::
  "messages \<Rightarrow> (SeriesListParams \<Rightarrow> SeriesPageRow list result) \<Rightarrow> (string list \<Rightarrow> HistoryRow list result) \<Rightarrow>
   ListSeriesInput \<Rightarrow> SeriesPageBody http" where
  "getSeries ms page members inp = (case series_query ms inp of Inl e \<Rightarrow> Inl e | Inr q \<Rightarrow>
     (case respond (mapReadError ms) (ListSeries page members q) of
        Inl e \<Rightarrow> Inl e
      | Inr r \<Rightarrow> Inr \<lparr>sp_Series = sl_Series r, sp_NextPageCursor = map_option encodeCursor (sl_NextCursor r)\<rparr>))"

section \<open>CI reports\<close>

definition parseRunIDs :: "string \<Rightarrow> string list" where
  "parseRunIDs raw = (if raw = [] then [] else filter (\<lambda>i. i \<noteq> []) (map trim_space (str_split (CHR '','') raw)))"

text \<open>A parameter that is not set is \<open>None\<close>.\<close>

definition parsePositiveReportFloat :: "f64 option \<Rightarrow> f64 \<Rightarrow> string \<Rightarrow> f64 http" where
  "parsePositiveReportFloat raw fallback field = (case raw of
     None \<Rightarrow> Inr fallback
   | Some v \<Rightarrow> (if v = NaN \<or> v = PInf \<or> v = NInf \<or> fle v (Fin 0) then Inl (invalid_float field) else Inr v))"

definition mapCIReportError :: "svc_error \<Rightarrow> http_error" where
  "mapCIReportError e = (case e of
     ValidationError msg \<Rightarrow> HttpError 422 msg | SvcNotFound \<Rightarrow> HttpError 404 ''not found'' | _ \<Rightarrow> ReadFailed e)"

record CIReportInput =
  ci_Repository :: string
  ci_CommitSHA :: string
  ci_RunIDs :: string
  ci_BaselineRunIDs :: string
  ci_Baseline :: string
  ci_Threshold :: "f64 option"
  ci_ThresholdZ :: "f64 option"

definition getReport :: "mathlib \<Rightarrow> storage \<Rightarrow> string \<Rightarrow> CIReportInput \<Rightarrow> CIReport http" where
  "getReport ml st publicBaseURL inp =
     (case parsePositiveReportFloat (ci_Threshold inp) PairwisePercentThresholdDefault ''threshold'' of Inl e \<Rightarrow> Inl e | Inr threshold \<Rightarrow>
     (case parsePositiveReportFloat (ci_ThresholdZ inp) ZScoreThresholdDefault ''threshold_z'' of Inl e \<Rightarrow> Inl e | Inr thresholdZ \<Rightarrow>
       respond mapCIReportError (Report ml st publicBaseURL
         \<lparr>q_Repository = ci_Repository inp, q_CommitSHA = ci_CommitSHA inp, q_RunIDs = parseRunIDs (ci_RunIDs inp),
          q_BaselineRunIDs = parseRunIDs (ci_BaselineRunIDs inp), q_Baseline = ci_Baseline inp, q_Threshold = threshold,
          q_ThresholdZ = thresholdZ, q_PublicBaseURL = []\<rparr>)))"

section \<open>Writes\<close>

definition Authenticate :: "credentials \<Rightarrow> bool" where
  "Authenticate c \<longleftrightarrow> fst (ResolvePrincipal (cred_HashToken c) (cred_auth c) (cred_now c) (cred_header c) (cred_session c)) \<noteq> ErrUnauthorized"

definition unauthorized :: http_error where "unauthorized = HttpError 401 ''authentication required''"

definition submit ::
  "messages \<Rightarrow> script \<Rightarrow> (string \<Rightarrow> string) \<Rightarrow> (string \<Rightarrow> string) \<Rightarrow> (Request \<Rightarrow> string + Info option) \<Rightarrow>
   credentials \<Rightarrow> SubmitRequest \<Rightarrow> ingest_db \<Rightarrow> SubmitResult http \<times> ingest_db" where
  "submit ms sx md5 sha256 resolve c body d =
     (if \<not> Authenticate c then (Inl unauthorized, d)
      else case Submit sx md5 sha256 resolve body d of
        (Inr res, d') \<Rightarrow> (Inr res, d')
      | (Inl e, d') \<Rightarrow>
          (Inl (case e of
             SubmissionConflict \<Rightarrow> HttpError 409 ''submission key already exists with different content''
           | ValidationFailed msg \<Rightarrow> HttpError 422 msg
           | UnitRejected u \<Rightarrow> HttpError 422 (ms_Unit ms u)
           | _ \<Rightarrow> WriteFailed e), d'))"

definition result_missing :: http_error where "result_missing = HttpError 404 ''benchmark result not found''"

text \<open>\<open>env2\<close> is what others do between the update and the read of the response.\<close>

definition update_result ::
  "(ingest_db \<Rightarrow> ingest_db) \<Rightarrow> (ingest_db \<Rightarrow> ingest_db) \<Rightarrow> credentials \<Rightarrow> string \<Rightarrow> any_map ptr \<Rightarrow>
   ingest_db \<Rightarrow> ResultDetail http \<times> ingest_db" where
  "update_result env env2 c i given d =
     (if \<not> Authenticate c then (Inl unauthorized, d)
      else case UpdateChangeAnnotations env i given d of
        (Inl e, d') \<Rightarrow> (Inl (if e = SubmitNotFound then result_missing else WriteFailed e), d')
      | (Inr _, d') \<Rightarrow>
          (respond (\<lambda>e. if e = SvcNotFound then result_missing else ReadFailed e)
             (Reader_ResultDetail (GetBenchmarkResultDetail (env2 d')) i), env2 d'))"

definition delete_result :: "credentials \<Rightarrow> string \<Rightarrow> ingest_db \<Rightarrow> unit http \<times> ingest_db" where
  "delete_result c i d =
     (if \<not> Authenticate c then (Inl unauthorized, d)
      else case DeleteResult i d of
        (Inl e, d') \<Rightarrow> (Inl (if e = SubmitNotFound then result_missing else WriteFailed e), d')
      | (Inr _, d') \<Rightarrow> (Inr (), d'))"

definition ping :: string where "ping = ''ok''"

end
