(* ===== verification/ReadApiProps.thy ===== *)
theory ReadApiProps
  imports ReadApi
begin

text \<open>
  What the handlers over results promise: cursors are read back, so a client that follows
  the opaque tokens sees what the service lists; writes need authentication; and which status
  an outcome of the service has.
\<close>

section \<open>Base64\<close>

definition std_char :: "nat \<Rightarrow> char" where
  "std_char k = (let c = b64_char k in if c = CHR ''-'' then CHR ''+'' else if c = CHR ''_'' then CHR ''/'' else c)"

lemma std_table: "list_all (\<lambda>k. std_index (std_char k) = Some k \<and> std_char k \<noteq> CHR 0x0A \<and> std_char k \<noteq> CHR 0x0D \<and>
    std_char k \<noteq> CHR ''='') [0..<64]"
  by code_simp

lemma std_char_facts: "k < 64 \<Longrightarrow> std_index (std_char k) = Some k \<and> std_char k \<noteq> CHR 0x0A \<and> std_char k \<noteq> CHR 0x0D \<and> std_char k \<noteq> CHR ''=''"
  using std_table by (auto simp: list_all_iff)

lemma b64_values_length: "(length (b64_values s) + (3 - length s mod 3) mod 3) mod 4 = 0 \<and> length s \<le> length (b64_values s)"
proof (induction s rule: b64_values.induct)
  case (1 a b c r)
  have "length (a # b # c # r) mod 3 = length r mod 3" by simp
  with 1 show ?case by (simp add: Let_def)
qed (simp_all add: Let_def)

lemma b64_std_values: "b64_std s = map std_char (b64_values s) @ replicate ((3 - length s mod 3) mod 3) (CHR ''='')"
  by (simp add: b64_std_def b64_encode_values std_char_def Let_def)

lemma map_opt_std: "list_all (\<lambda>k. k < 64) ks \<Longrightarrow> map_opt std_index (map std_char ks) = Some ks"
  by (induction ks) (use std_char_facts in auto)

lemma b64_std_roundtrip: "b64_std_decode (b64_std s) = Some s"
proof -
  define b where "b = map std_char (b64_values s)"
  define n where "n = (3 - length s mod 3) mod 3"
  have vs: "list_all (\<lambda>k. k < 64) (b64_values s)" using b64_values_less by (auto simp: list_all_iff)
  have chars: "c \<noteq> CHR ''=''" "c \<noteq> CHR 0x0A" "c \<noteq> CHR 0x0D" if "c \<in> set b" for c
    using that vs std_char_facts by (auto simp: b_def list_all_iff)
  have t: "filter (\<lambda>c. c \<noteq> CHR 0x0A \<and> c \<noteq> CHR 0x0D) (b64_std s) = b @ replicate n (CHR ''='')"
    using chars by (simp add: b64_std_values b_def [symmetric] n_def [symmetric] filter_id_conv)
  have len: "length (b @ replicate n (CHR ''='')) mod 4 = 0"
    using b64_values_length [of s] by (simp add: b_def n_def)
  have last: "has_suffix b ''='' = False \<and> has_suffix b ''=='' = False \<and> has_suffix (b @ ''='') ''=='' = False"
  proof (cases b rule: rev_cases)
    case (snoc b' c)
    then have "c \<noteq> CHR ''=''" using chars(1) [of c] by simp
    with snoc show ?thesis by (simp add: has_suffix_def has_prefix_def)
  qed (simp add: has_suffix_def has_prefix_def)
  have "n < 3" by (simp add: n_def)
  then have "n = 0 \<or> n = 1 \<or> n = 2" by auto
  then have "(if has_suffix (b @ replicate n (CHR ''='')) ''=='' then take (length (b @ replicate n (CHR ''='')) - 2) (b @ replicate n (CHR ''=''))
      else if has_suffix (b @ replicate n (CHR ''='')) ''='' then take (length (b @ replicate n (CHR ''='')) - 1) (b @ replicate n (CHR ''=''))
      else b @ replicate n (CHR ''='')) = b"
  proof (elim disjE)
    assume "n = 1"
    then show ?thesis using last by (simp add: has_suffix_def has_prefix_def)
  qed (use last in \<open>simp_all add: has_suffix_def has_prefix_def numeral_2_eq_2\<close>)
  then show ?thesis
    using len map_opt_std [OF vs] b64_groups_values by (simp add: b64_std_decode_def t Let_def b_def [symmetric])
qed

section \<open>Cursors\<close>

lemma two_bar: "CHR ''|'' \<notin> set (two k)"
  using itoa_no_bar by (auto simp: two_def pad_left_def)

lemma seconds_bar: "CHR ''|'' \<notin> set (seconds_text t)"
  using itoa_no_bar two_bar
  by (auto simp: seconds_text_def date_text_def clock_text_def year_text_def pad_left_def Let_def split: prod.splits)

lemma nano_bar: "CHR ''|'' \<notin> set (nano_text n)"
proof -
  have "set (trim_right P s) \<subseteq> set s" for P and s :: string
    by (auto simp: trim_right_def dest: set_dropWhileD)
  moreover have "CHR ''|'' \<notin> set (pad_left 9 (itoa n))" using itoa_no_bar by (auto simp: pad_left_def)
  ultimately have "CHR ''|'' \<notin> set (trim_right P (pad_left 9 (itoa n)))" for P by blast
  then show ?thesis by (simp add: nano_text_def)
qed

lemma decode_encode:
  assumes "0 \<le> year_of (sc_Ts c)" "year_of (sc_Ts c) \<le> 9999"
  shows "decodeCursor ms (encodeCursor c) = Inr c"
proof -
  let ?ts = "RFC3339Nano (sc_Ts c)"
  have "CHR ''|'' \<notin> set ?ts" using seconds_bar nano_bar by (simp add: RFC3339Nano_def)
  then have "str_cut (CHR ''|'') (?ts @ cursorSeparator @ sc_Fp c) = Some (?ts, sc_Fp c)"
    by (simp add: str_cut_Some_iff cursorSeparator_def)
  then show ?thesis
    using parse_RFC3339Nano [OF assms] by (simp add: decodeCursor_def encodeCursor_def b64_std_roundtrip)
qed

text \<open>
  C35: A cursor is read back. The token of a position, whatever its fingerprint and to the
  nanosecond of its time, decodes to that position, for the years a four-digit year can show.
\<close>

theorem cursor_roundtrip:
  assumes "0 \<le> year_of (sc_Ts c)" "year_of (sc_Ts c) \<le> 9999"
  shows "decodeCursor ms (encodeCursor c) = Inr c"
  by (rule decode_encode [OF assms])

theorem cursor_roundtrip_witness:
  "\<forall>ms. decodeCursor ms (encodeCursor \<lparr>sc_Ts = 1767225599000000001, sc_Fp = ''a|b''\<rparr>) = Inr \<lparr>sc_Ts = 1767225599000000001, sc_Fp = ''a|b''\<rparr>"
proof -
  have "year_of 1767225599000000001 = 2025" by code_simp
  then show ?thesis by (intro allI cursor_roundtrip) simp_all
qed

lemma encodeCursor_token: "encodeCursor c \<noteq> [] \<and> encodeCursor c \<noteq> ''null''"
proof -
  have "4 < length (RFC3339Nano (sc_Ts c) @ cursorSeparator @ sc_Fp c)"
    by (simp add: RFC3339Nano_def seconds_text_def date_text_def clock_text_def Let_def split: prod.split)
  also have "\<dots> \<le> length (encodeCursor c)"
    using b64_values_length [of "RFC3339Nano (sc_Ts c) @ cursorSeparator @ sc_Fp c", THEN conjunct2]
    by (simp add: encodeCursor_def b64_std_values)
  finally have "4 < length (encodeCursor c)" .
  then show ?thesis by auto
qed

text \<open>A client that follows the tokens of the endpoint.\<close>

fun api_series_pages ::
  "messages \<Rightarrow> (SeriesListParams \<Rightarrow> SeriesPageRow list result) \<Rightarrow> (string list \<Rightarrow> HistoryRow list result) \<Rightarrow>
   ListSeriesInput \<Rightarrow> nat \<Rightarrow> (SeriesListItem list \<times> bool) http" where
  "api_series_pages ms page members inp 0 = Inr ([], False)"
| "api_series_pages ms page members inp (Suc k) =
     (case getSeries ms page members inp of
        Inl e \<Rightarrow> Inl e
      | Inr body \<Rightarrow>
         (case sp_NextPageCursor body of
            None \<Rightarrow> Inr (sp_Series body, True)
          | Some token \<Rightarrow>
             (case api_series_pages ms page members (inp\<lparr>lsi_Cursor := token\<rparr>) k of
                Inl e \<Rightarrow> Inl e | Inr (items, fin) \<Rightarrow> Inr (sp_Series body @ items, fin))))"

definition dated_page :: "(SeriesListParams \<Rightarrow> SeriesPageRow list result) \<Rightarrow> bool" where
  "dated_page page \<longleftrightarrow> (\<forall>p rows. page p = Inr rows \<longrightarrow>
     (\<forall>r \<in> set rows. 0 \<le> year_of (sw_LatestCommitTimestamp r) \<and> year_of (sw_LatestCommitTimestamp r) \<le> 9999))"

lemma series_query_cursor:
  assumes "series_query ms inp = Inr q" "0 \<le> year_of (sc_Ts c)" "year_of (sc_Ts c) \<le> 9999"
  shows "series_query ms (inp\<lparr>lsi_Cursor := encodeCursor c\<rparr>) = Inr (at_cursor q c)"
proof -
  have d: "decodeCursor ms (encodeCursor c) = Inr c" by (rule decode_encode [OF assms(2,3)])
  show ?thesis using assms(1) encodeCursor_token [of c] d
    by (auto simp: series_query_def at_cursor_def Let_def split: sum.splits if_splits)
qed

lemma ListSeries_cursor:
  assumes "dated_page page" "ListSeries page members q = Inr r" "sl_NextCursor r = Some c"
  shows "0 \<le> year_of (sc_Ts c) \<and> year_of (sc_Ts c) \<le> 9999"
proof -
  obtain rows other items where p: "page (with_page_size q) = Inr rows"
    "svc_map (\<lambda>row. seriesListItem row (groupMembersByFingerprint other (sw_HistoryFingerprint row))) rows = Inr items"
    "sl_NextCursor r = (if int (length items) = slp_PageSize (with_page_size q)
       then Some \<lparr>sc_Ts = sw_LatestCommitTimestamp (last rows), sc_Fp = sw_HistoryFingerprint (last rows)\<rparr> else None)"
    using assms(2) by (auto simp: ListSeries_def svc_bind_Inr_iff of_store_def split: sum.splits)
  have "length rows = length items" using p(2) by (simp add: svc_map_Inr list_all2_lengthD)
  moreover have "int (length items) = slp_PageSize (with_page_size q)" "sc_Ts c = sw_LatestCommitTimestamp (last rows)"
    using p(3) assms(3) by (auto split: if_splits)
  ultimately have "rows \<noteq> []" using series_size [of q] by auto
  with \<open>sc_Ts c = _\<close> show ?thesis using assms(1) p(1) by (auto simp: dated_page_def)
qed

text \<open>
  C28: The endpoint lists what the service lists. A client that follows its opaque tokens gets
  the pages that following the service's own cursors yields, errors included, when the
  timestamps of commits have years of four digits.
\<close>

theorem api_series_walk:
  assumes "dated_page page" "series_query ms inp = Inr q"
  shows "api_series_pages ms page members inp k = respond (mapReadError ms) (series_pages page members q k)"
  using assms(2)
proof (induction k arbitrary: inp q)
  case (Suc k)
  show ?case
  proof (cases "ListSeries page members q")
    case (Inl e)
    then show ?thesis by (simp add: getSeries_def Suc.prems respond_def)
  next
    case (Inr r)
    show ?thesis
    proof (cases "sl_NextCursor r")
      case None
      with Inr show ?thesis by (simp add: getSeries_def Suc.prems respond_def)
    next
      case (Some c)
      with ListSeries_cursor [OF assms(1) Inr] have "series_query ms (inp\<lparr>lsi_Cursor := encodeCursor c\<rparr>) = Inr (at_cursor q c)"
        by (intro series_query_cursor [OF Suc.prems]) auto
      from Suc.IH [OF this] Inr Some show ?thesis
        by (cases "series_pages page members (at_cursor q c) k") (auto simp: getSeries_def Suc.prems respond_def)
    qed
  qed
qed (simp add: respond_def)

text \<open>One series, then nothing.\<close>

definition demo_row :: SeriesPageRow where
  "demo_row = \<lparr>sw_HistoryFingerprint = ''f'', sw_LatestResultID = ''r'', sw_LatestResultTimestamp = 0, sw_LatestCommitSha = ''c'',
     sw_LatestCommitTimestamp = 1500000000, sw_CommitRepoUrl = [], sw_LatestUnit = None, sw_LatestData = [], sw_PointCount = 1,
     sw_CaseName = ''n'', sw_CaseTags = JObj [], sw_ContextTags = JObj [], sw_HardwareID = ''h'', sw_HardwareName = [],
     sw_HardwareType = [], sw_HardwareHash = []\<rparr>"

definition demo_page :: "SeriesListParams \<Rightarrow> SeriesPageRow list result" where
  "demo_page q = Inr (if slp_CursorTs q = None then [demo_row] else [])"

definition demo_request :: ListSeriesInput where
  "demo_request = \<lparr>lsi_Q = [], lsi_Hardware = [], lsi_Repository = [], lsi_Fingerprint = [], lsi_ActiveSince = [],
     lsi_ActiveUntil = [], lsi_Cursor = [], lsi_PageSize = 1\<rparr>"

definition demo_request_query :: SeriesListParams where
  "demo_request_query = \<lparr>slp_Fingerprint = None, slp_Q = None, slp_Repository = None, slp_Hardware = None,
     slp_ActiveSince = None, slp_ActiveUntil = None, slp_CursorTs = None, slp_CursorFp = None, slp_PageSize = 1\<rparr>"

lemma demo_request_pages: "(case series_pages demo_page (\<lambda>_. Inr []) demo_request_query 2 of
  Inr (items, fin) \<Rightarrow> map se_HistoryFingerprint items = [''f''] \<and> fin | Inl _ \<Rightarrow> False)"
  by code_simp

theorem api_series_walk_witness:
  "\<forall>ms. \<exists>items. api_series_pages ms demo_page (\<lambda>_. Inr []) demo_request 2 = Inr (items, True) \<and> map se_HistoryFingerprint items = [''f'']"
proof -
  have "year_of 1500000000 = 1970" by code_simp
  then have d: "dated_page demo_page" by (simp add: dated_page_def demo_page_def demo_row_def)
  have q: "series_query ms demo_request = Inr demo_request_query" for ms
    by (simp add: series_query_def demo_request_def demo_request_query_def parseUTCBound_def setIfNonEmpty_def Let_def)
  show ?thesis
  proof
    fix ms show "\<exists>items. api_series_pages ms demo_page (\<lambda>_. Inr []) demo_request 2 = Inr (items, True) \<and> map se_HistoryFingerprint items = [''f'']"
      using demo_request_pages api_series_walk [OF d q, of ms "\<lambda>_. Inr []" 2] by (auto simp: respond_def split: sum.splits)
  qed
qed

section \<open>Writes\<close>

lemma find_filter: "find P (filter Q xs) = find (\<lambda>x. Q x \<and> P x) xs"
  by (induction xs) auto

lemma find_cong_in: "(\<And>x. x \<in> set xs \<Longrightarrow> P x = Q x) \<Longrightarrow> find P xs = find Q xs"
  by (induction xs) auto

lemma deleted_row: "GetBenchmarkResultByID j (d\<lparr>in_results := filter (\<lambda>r. ir_ID r \<noteq> i) (in_results d)\<rparr>) =
  (if j = i then Inl ErrNotFound else GetBenchmarkResultByID j d)"
proof -
  have "find (\<lambda>r. ir_ID r \<noteq> i \<and> ir_ID r = j) (in_results d) =
      (if j = i then None else find (\<lambda>r. ir_ID r = j) (in_results d))"
    by (auto simp: find_None_iff intro!: find_cong_in)
  then show ?thesis by (auto simp: GetBenchmarkResultByID_def find_filter)
qed

text \<open>
  C32: Deletion over the API. It is answered with success only to a request that is
  authenticated and only when the result was there; afterwards reading or deleting it is a 404,
  and every other result reads as before. Any other answer has changed nothing.
\<close>

theorem delete_result_effect:
  "(case delete_result c i d of
      (Inr _, d') \<Rightarrow> Authenticate c \<and> i \<in> set (map ir_ID (in_results d)) \<and>
        fst (delete_result c i d') = Inl (HttpError 404 ''benchmark result not found'') \<and>
        getResult ms (GetBenchmarkResultDetail d') i = Inl (HttpError 404 ''not found'') \<and>
        (\<forall>j. j = i \<or> getResult ms (GetBenchmarkResultDetail d') j = getResult ms (GetBenchmarkResultDetail d) j)
    | (Inl e, d') \<Rightarrow> d' = d \<and> e = (if Authenticate c then HttpError 404 ''benchmark result not found'' else HttpError 401 ''authentication required''))"
proof (cases "Authenticate c \<and> i \<in> set (map ir_ID (in_results d))")
  case True
  let ?d = "d\<lparr>in_results := filter (\<lambda>r. ir_ID r \<noteq> i) (in_results d)\<rparr>"
  have del: "delete_result c i d = (Inr (), ?d)" using True by (simp add: delete_result_def DeleteResult_def DeleteBenchmarkResult_def)
  have det: "GetBenchmarkResultDetail ?d j = (if j = i then Inl ErrNotFound else GetBenchmarkResultDetail d j)" for j
  proof -
    have "left_commit ?d = left_commit d" by (rule ext) (simp add: left_commit_def split: option.split)
    then show ?thesis by (simp add: GetBenchmarkResultDetail_def deleted_row cong: sum.case_cong option.case_cong prod.case_cong)
  qed
  have again: "fst (delete_result c i ?d) = Inl result_missing"
    using True by (auto simp: delete_result_def DeleteResult_def DeleteBenchmarkResult_def)
  show ?thesis
    using True again by (auto simp: del getResult_def Reader_ResultDetail_def det respond_def mapReadError_def result_missing_def)
next
  case False
  then show ?thesis
    by (auto simp: delete_result_def DeleteResult_def DeleteBenchmarkResult_def result_missing_def unauthorized_def)
qed

end
