(* ===== verification/GitHubRest.thy ===== *)
theory GitHubRest
  imports Auth UrlProps JsonStruct
begin

text \<open>
  \<^verbatim>\<open>internal/githubapi\<close>: the client of the GitHub REST API that publishes reports and mints
  installation tokens. The transport is a parameter: the answer to a request. The parser of
  private keys and the signature are parameters too.
\<close>

section \<open>Requests\<close>

record http_request =
  hq_Method :: string
  hq_URL :: string
  hq_Headers :: "(string \<times> string) list"
  hq_Body :: "string option"

text \<open>No answer, an answer that breaks off, and a status with its body.\<close>

datatype http_reply = NoReply string | BrokenReply nat string | Reply nat string

type_synonym transport = "http_request \<Rightarrow> http_reply"

datatype rest_error =
  RestRepository string | RestBuild string | RestSend string | RestRead string
| RestStatus string string nat string | RestDecode | RestConfig string | RestKey string | RestContext string rest_error

text \<open>\<open>http.NewRequest\<close> fails on a URL that does not parse.\<close>

definition NewRequest :: "string \<Rightarrow> string \<Rightarrow> (string \<times> string) list \<Rightarrow> string option \<Rightarrow> http_request option" where
  "NewRequest m u headers body = (case url_parse u of None \<Rightarrow> None
     | Some _ \<Rightarrow> Some \<lparr>hq_Method = m, hq_URL = u, hq_Headers = headers, hq_Body = body\<rparr>)"

definition defaultBaseURL :: string where "defaultBaseURL = ''https://api.github.com''"

record RestClient =
  rc_token :: string
  rc_baseURL :: string

definition base_or_default :: "string \<Rightarrow> string" where
  "base_or_default raw = (let b = trim_right (\<lambda>c. c = CHR ''/'') raw in if b = [] then defaultBaseURL else b)"

definition success :: "nat \<Rightarrow> bool" where "success status \<longleftrightarrow> 200 \<le> status \<and> status < 300"

text \<open>The request of a call, or none when it cannot be built.\<close>

definition rest_request :: "RestClient \<Rightarrow> string \<Rightarrow> string \<Rightarrow> string option \<Rightarrow> http_request option" where
  "rest_request c m path body = NewRequest m (rc_baseURL c @ path)
     ([(''Accept'', ''application/vnd.github+json''), (''Authorization'', ''Bearer '' @ rc_token c), (''User-Agent'', ''conbench'')] @
      (if body = None then [] else [(''Content-Type'', ''application/json'')])) body"

text \<open>A response is read up to a megabyte; \<open>decode\<close> is the unmarshalling into the caller's type.\<close>

definition doJSON :: "transport \<Rightarrow> RestClient \<Rightarrow> string \<Rightarrow> string \<Rightarrow> string option \<Rightarrow> (string \<Rightarrow> 'a option) \<Rightarrow> rest_error + 'a" where
  "doJSON send c m path body decode =
     (case rest_request c m path body of
        None \<Rightarrow> Inl (RestBuild (rc_baseURL c @ path))
      | Some rq \<Rightarrow>
         (case send rq of
            NoReply e \<Rightarrow> Inl (RestSend e)
          | BrokenReply _ e \<Rightarrow> Inl (RestRead e)
          | Reply status text \<Rightarrow>
              (let raw = take 1048576 text in
               if \<not> success status then Inl (RestStatus m path status (trim_space raw))
               else case decode raw of None \<Rightarrow> Inl RestDecode | Some x \<Rightarrow> Inr x)))"

section \<open>Repositories\<close>

definition repository_error :: string where
  "repository_error = ''github repository must be a github.com repository URL''"

definition trim_slashes :: "string \<Rightarrow> string" where "trim_slashes = trim_chars (\<lambda>c. c = CHR ''/'')"

definition RepositorySpec :: "string \<Rightarrow> rest_error + string" where
  "RepositorySpec raw0 =
     (let raw = trim_space (trim_suffix raw0 ''.git'') in
      if raw = [] then Inl (RestRepository ''github repository is required'')
      else
       (let short = (if \<not> str_contains raw ''://'' \<and> \<not> has_prefix raw ''git@'' then
              (case str_split (CHR ''/'') (trim_slashes raw) of
                 [a, b] \<Rightarrow> if a \<noteq> [] \<and> b \<noteq> [] then Some (path_escape a @ ''/'' @ path_escape b) else None
               | _ \<Rightarrow> None) else None) in
        case short of
          Some spec \<Rightarrow> Inr spec
        | None \<Rightarrow>
           (let raw = (case cut_prefix raw ''git@github.com:'' of
                  Some rest \<Rightarrow> ''https://github.com/'' @ trim_suffix rest ''.git'' | None \<Rightarrow> raw) in
            case url_parse (trim_right (\<lambda>c. c = CHR ''/'') raw) of
              None \<Rightarrow> Inl (RestRepository repository_error)
            | Some u \<Rightarrow>
               (if u_Scheme u \<noteq> ''https'' \<or> u_Host u \<noteq> ''github.com'' then Inl (RestRepository repository_error)
                else case str_split (CHR ''/'') (trim_slashes (u_Path u)) of
                  [a, b] \<Rightarrow> if a = [] \<or> b = [] then Inl (RestRepository repository_error)
                           else Inr (path_escape a @ ''/'' @ path_escape (trim_suffix b ''.git''))
                | _ \<Rightarrow> Inl (RestRepository repository_error)))))"

section \<open>Calls\<close>

definition object_text :: "(string \<times> string) list \<Rightarrow> string" where
  "object_text fs = ''{'' @ str_join '','' (map (\<lambda>(k, v). json_string k @ '':'' @ v) fs) @ ''}''"

definition omit_string :: "string \<Rightarrow> string \<Rightarrow> (string \<times> string) list" where
  "omit_string k s = (if s = [] then [] else [(k, json_string s)])"

record CheckRunRequest =
  cr_Name :: string
  cr_HeadSHA :: string
  cr_Status :: string
  cr_Conclusion :: string
  cr_CompletedAt :: string
  cr_DetailsURL :: string
  cr_ExternalID :: string
  cr_Title :: string
  cr_Summary :: string
  cr_Text :: string

definition check_run_text :: "CheckRunRequest \<Rightarrow> string" where
  "check_run_text b = object_text
     ([(''name'', json_string (cr_Name b)), (''head_sha'', json_string (cr_HeadSHA b))] @
      omit_string ''status'' (cr_Status b) @ omit_string ''conclusion'' (cr_Conclusion b) @
      omit_string ''completed_at'' (cr_CompletedAt b) @ omit_string ''details_url'' (cr_DetailsURL b) @
      omit_string ''external_id'' (cr_ExternalID b) @
      [(''output'', object_text ([(''title'', json_string (cr_Title b)), (''summary'', json_string (cr_Summary b))] @
          omit_string ''text'' (cr_Text b)))])"

definition html_url_field :: "string \<Rightarrow> doc \<Rightarrow> string \<Rightarrow> string option" where
  "html_url_field k v s = (if k = ''html_url'' then str_field v (\<lambda>x. x) else Some s)"

definition CreateCheckRun :: "transport \<Rightarrow> RestClient \<Rightarrow> string \<Rightarrow> CheckRunRequest \<Rightarrow> rest_error + string" where
  "CreateCheckRun send c repository body = (case RepositorySpec repository of Inl e \<Rightarrow> Inl e
     | Inr spec \<Rightarrow> doJSON send c ''POST'' (''/repos/'' @ spec @ ''/check-runs'') (Some (check_run_text body))
         (unmarshal_struct html_url_field []))"

text \<open>An integer field takes a literal without fraction and exponent in the range of its type.\<close>

definition int_field :: "doc \<Rightarrow> (int \<Rightarrow> 'a) \<Rightarrow> 'a option" where
  "int_field v f = (case v of DNum s \<Rightarrow> map_option f (parse_int64 s) | _ \<Rightarrow> None)"

definition decode_struct :: "(string \<Rightarrow> doc \<Rightarrow> 'a \<Rightarrow> 'a option) \<Rightarrow> 'a \<Rightarrow> doc \<Rightarrow> 'a option" where
  "decode_struct field zero d = (case d of DNull \<Rightarrow> Some zero | DObj fs \<Rightarrow> decode_fields field fs zero | _ \<Rightarrow> None)"

definition unmarshal_array :: "(string \<Rightarrow> doc \<Rightarrow> 'a \<Rightarrow> 'a option) \<Rightarrow> 'a \<Rightarrow> string \<Rightarrow> 'a list option" where
  "unmarshal_array field zero raw = (case read_doc raw of
     Some DNull \<Rightarrow> Some [] | Some (DArr ds) \<Rightarrow> map_opt (decode_struct field zero) ds | _ \<Rightarrow> None)"

definition number_field :: "string \<Rightarrow> string \<Rightarrow> doc \<Rightarrow> int \<Rightarrow> int option" where
  "number_field name k v n = (if k = name then int_field v (\<lambda>x. x) else Some n)"

definition PullRequestsForCommit :: "transport \<Rightarrow> RestClient \<Rightarrow> string \<Rightarrow> string \<Rightarrow> rest_error + int list" where
  "PullRequestsForCommit send c repository sha = (case RepositorySpec repository of Inl e \<Rightarrow> Inl e
     | Inr spec \<Rightarrow> doJSON send c ''GET'' (''/repos/'' @ spec @ ''/commits/'' @ path_escape sha @ ''/pulls'') None
         (unmarshal_array (number_field ''number'') 0))"

definition CreatePullRequestComment :: "transport \<Rightarrow> RestClient \<Rightarrow> string \<Rightarrow> int \<Rightarrow> string \<Rightarrow> rest_error + string" where
  "CreatePullRequestComment send c repository number body = (case RepositorySpec repository of Inl e \<Rightarrow> Inl e
     | Inr spec \<Rightarrow> doJSON send c ''POST'' (''/repos/'' @ spec @ ''/issues/'' @ itoa number @ ''/comments'')
         (Some (marshal_strings [(''body'', body)])) (unmarshal_struct html_url_field []))"

section \<open>Credentials\<close>

text \<open>A literal backslash and n in the key become a line break.\<close>

fun unescape_newlines :: "string \<Rightarrow> string" where
  "unescape_newlines [] = []"
| "unescape_newlines [c] = [c]"
| "unescape_newlines (c # d # s) =
     (if c = CHR 0x5C \<and> d = CHR ''n'' then CHR 0x0A # unescape_newlines s else c # unescape_newlines (d # s))"

text \<open>The parser of PEM blocks and keys, and the signature with a key; both may fail.\<close>

record 'k rsa =
  rsa_parse :: "string \<Rightarrow> string + 'k"
  rsa_sign :: "'k \<Rightarrow> string \<Rightarrow> string + string"

definition parseRSAPrivateKey :: "'k rsa \<Rightarrow> string \<Rightarrow> rest_error + 'k" where
  "parseRSAPrivateKey r raw = (case rsa_parse r (unescape_newlines raw) of Inl e \<Rightarrow> Inl (RestKey e) | Inr k \<Rightarrow> Inr k)"

definition jwt_unsigned :: "string \<Rightarrow> time \<Rightarrow> string" where
  "jwt_unsigned appID now =
     b64_encode (marshal_strings [(''alg'', ''RS256''), (''typ'', ''JWT'')]) @ ''.'' @
     b64_encode (object_text [(''exp'', itoa (Unix (now + 3 * 60 * 1000000000))), (''iat'', itoa (Unix (now - 60 * 1000000000))),
       (''iss'', json_string (trim_space appID))])"

definition encodeAppJWTWithKey :: "'k rsa \<Rightarrow> string \<Rightarrow> 'k \<Rightarrow> time \<Rightarrow> rest_error + string" where
  "encodeAppJWTWithKey r appID key now =
     (case rsa_sign r key (jwt_unsigned appID now) of
        Inl e \<Rightarrow> Inl (RestKey (''sign github app jwt: '' @ e))
      | Inr sig \<Rightarrow> Inr (jwt_unsigned appID now @ ''.'' @ b64_encode sig))"

definition encodeAppJWT :: "'k rsa \<Rightarrow> string \<Rightarrow> string \<Rightarrow> time \<Rightarrow> rest_error + string" where
  "encodeAppJWT r appID privateKey now = (case parseRSAPrivateKey r privateKey of
     Inl e \<Rightarrow> Inl e | Inr key \<Rightarrow> encodeAppJWTWithKey r appID key now)"

definition token_field :: "string \<Rightarrow> doc \<Rightarrow> string \<Rightarrow> string option" where
  "token_field k v s = (if k = ''token'' then str_field v (\<lambda>x. x) else Some s)"

definition in_context :: "string \<Rightarrow> rest_error + 'a \<Rightarrow> rest_error + 'a" where
  "in_context what r = (case r of Inl e \<Rightarrow> Inl (RestContext what e) | Inr x \<Rightarrow> Inr x)"

definition access_tokens_path :: "int \<Rightarrow> string" where
  "access_tokens_path i = ''/app/installations/'' @ itoa i @ ''/access_tokens''"

definition installationToken :: "transport \<Rightarrow> RestClient \<Rightarrow> rest_error + string" where
  "installationToken send c =
     (case in_context ''list github app installations''
             (doJSON send c ''GET'' ''/app/installations'' None (unmarshal_array (number_field ''id'') 0)) of
        Inl e \<Rightarrow> Inl e
      | Inr [] \<Rightarrow> Inl (RestConfig ''github app has no installations'')
      | Inr (i # _) \<Rightarrow>
          (case in_context ''create github app installation token''
                  (doJSON send c ''POST'' (access_tokens_path i) (Some ''{}'') (unmarshal_struct token_field [])) of
             Inl e \<Rightarrow> Inl e
           | Inr token \<Rightarrow> if token = [] then Inl (RestConfig ''github app installation token response was empty'') else Inr token))"

record RestConfiguration =
  gc_Token :: string
  gc_AppID :: string
  gc_AppPrivateKey :: string
  gc_BaseURL :: string

definition NewClient :: "'k rsa \<Rightarrow> transport \<Rightarrow> time \<Rightarrow> RestConfiguration \<Rightarrow> rest_error + RestClient" where
  "NewClient r send now cfg =
     (let baseURL = base_or_default (gc_BaseURL cfg); token = trim_space (gc_Token cfg) in
      if token \<noteq> [] then Inr \<lparr>rc_token = token, rc_baseURL = baseURL\<rparr>
      else if trim_space (gc_AppID cfg) = [] \<and> trim_space (gc_AppPrivateKey cfg) = []
        then Inl (RestConfig ''github token or app credentials are required'')
      else if trim_space (gc_AppID cfg) = [] then Inl (RestConfig ''github app id is required'')
      else if trim_space (gc_AppPrivateKey cfg) = [] then Inl (RestConfig ''github app private key is required'')
      else case encodeAppJWT r (gc_AppID cfg) (gc_AppPrivateKey cfg) now of Inl e \<Rightarrow> Inl e
        | Inr jwt \<Rightarrow>
           (case installationToken send \<lparr>rc_token = jwt, rc_baseURL = baseURL\<rparr> of Inl e \<Rightarrow> Inl e
            | Inr t \<Rightarrow> Inr \<lparr>rc_token = t, rc_baseURL = baseURL\<rparr>))"

text \<open>The identity of a renewable token source; its cache is \<open>AppTokenSource\<close>.\<close>

record 'k AppSource =
  sa_appID :: string
  sa_installationID :: int
  sa_privateKey :: 'k
  sa_baseURL :: string

definition NewAppTokenSource :: "'k rsa \<Rightarrow> string \<Rightarrow> int \<Rightarrow> string \<Rightarrow> string \<Rightarrow> rest_error + 'k AppSource \<times> AppTokenSource" where
  "NewAppTokenSource r appID installationID privateKey baseURL =
     (if trim_space appID = [] then Inl (RestConfig ''github app id is required'')
      else if installationID \<le> 0 then Inl (RestConfig ''github app installation id must be positive'')
      else if trim_space privateKey = [] then Inl (RestConfig ''github app private key is required'')
      else case parseRSAPrivateKey r privateKey of Inl e \<Rightarrow> Inl e
        | Inr key \<Rightarrow> Inr (\<lparr>sa_appID = trim_space appID, sa_installationID = installationID, sa_privateKey = key,
            sa_baseURL = base_or_default baseURL\<rparr>, \<lparr>src_token = [], src_expiresAt = None\<rparr>))"

end
