(* ===== verification/AlertSenders.thy ===== *)
theory AlertSenders
  imports AlertDelivery GitHubRest TimeText
begin

text \<open>
  The senders of \<^verbatim>\<open>internal/service/alert_delivery.go\<close>: webhook, Slack, e-mail, GitHub check run and
  commit comment. A sender returns the text of its error, if any. The HTTP transport, the mail
  server, the grammar of mail addresses (\<^verbatim>\<open>net/mail\<close>) and the text of \<^verbatim>\<open>url.Parse\<close> errors are
  parameters.
\<close>

section \<open>Posting\<close>

definition isAbsoluteHTTPURL :: "string \<Rightarrow> bool" where
  "isAbsoluteHTTPURL raw = (case url_parse raw of None \<Rightarrow> False
     | Some u \<Rightarrow> u_Host u \<noteq> [] \<and> (u_Scheme u = ''http'' \<or> u_Scheme u = ''https''))"

text \<open>\<open>built\<close> and \<open>what\<close> name the request in the errors. Only the status of the answer is read.\<close>

definition post_status :: "string \<Rightarrow> nat \<Rightarrow> string option" where
  "post_status what status = (if success status then None
     else Some (''post '' @ what @ '': unexpected HTTP status '' @ itoa (int status)))"

definition post_alert :: "transport \<Rightarrow> (string \<Rightarrow> string) \<Rightarrow> string \<Rightarrow> string \<Rightarrow> string \<Rightarrow> (string \<times> string) list \<Rightarrow> string \<Rightarrow> string option" where
  "post_alert send url_error built what target headers body =
     (case NewRequest ''POST'' target headers (Some body) of
        None \<Rightarrow> Some (''build '' @ built @ '' request: '' @ url_error target)
      | Some rq \<Rightarrow>
         (case send rq of
            NoReply _ \<Rightarrow> Some (''post '' @ what @ '': request failed'')
          | BrokenReply status _ \<Rightarrow> post_status what status
          | Reply status _ \<Rightarrow> post_status what status))"

definition alert_agent :: string where "alert_agent = ''conbench-alert-delivery''"

definition json_headers :: "(string \<times> string) list" where
  "json_headers = [(''Content-Type'', ''application/json''), (''User-Agent'', alert_agent)]"

section \<open>Webhook\<close>

definition omit_pointer :: "string \<Rightarrow> string ptr \<Rightarrow> (string \<times> string) list" where
  "omit_pointer k p = (case p of None \<Rightarrow> [] | Some s \<Rightarrow> [(k, json_string s)])"

text \<open>The compact text of a \<^verbatim>\<open>jsonb\<close> value, whose numbers the database writes, is a parameter.\<close>

definition event_text :: "(json \<Rightarrow> string) \<Rightarrow> AlertDeliveryEvent \<Rightarrow> string option" where
  "event_text jsonb e = (case time_text (dv_CreatedAt e) 0 of None \<Rightarrow> None
     | Some created \<Rightarrow> Some (object_text
         ([(''id'', json_string (dv_ID e)), (''rule_id'', json_string (dv_RuleID e)), (''kind'', json_string (dv_Kind e)),
           (''status'', json_string (dv_Status e)), (''status_reason'', json_string (dv_StatusReason e))] @
          omit_pointer ''run_id'' (dv_RunID e) @ omit_pointer ''commit_sha'' (dv_CommitSHA e) @
          omit_string ''repository'' (dv_Repository e) @
          [(''report_url'', json_string (dv_ReportURL e)), (''summary'', jsonb (dv_Summary e)),
           (''created_at'', [CHR 0x22] @ created @ [CHR 0x22])])))"

definition payload_text :: "(json \<Rightarrow> string) \<Rightarrow> AlertDeliveryPayload \<Rightarrow> string option" where
  "payload_text jsonb p = map_option (\<lambda>e. object_text
     [(''delivery_id'', json_string (pl_DeliveryID p)), (''channel'', json_string (pl_Channel p)), (''event'', e)])
     (event_text jsonb (pl_Event p))"

definition send_webhook ::
  "transport \<Rightarrow> (string \<Rightarrow> string) \<Rightarrow> (json \<Rightarrow> string) \<Rightarrow> string \<Rightarrow> AlertDeliveryPayload \<Rightarrow> string option" where
  "send_webhook send url_error jsonb encode_error p = (case payload_text jsonb p of
     None \<Rightarrow> Some (''encode webhook payload: '' @ encode_error)
   | Some body \<Rightarrow> post_alert send url_error ''webhook'' ''webhook'' (pl_Target p) json_headers body)"

section \<open>Slack\<close>

definition slack_section :: "string \<Rightarrow> string" where
  "slack_section md = object_text [(''type'', json_string ''section''),
     (''text'', object_text [(''type'', json_string ''mrkdwn''), (''text'', json_string md)])]"

definition slackAlertDeliveryMessage :: "AlertDeliveryEvent \<Rightarrow> string" where
  "slackAlertDeliveryMessage e = object_text
     [(''text'', json_string (''Conbench alert: '' @ dv_Status e @ '' - '' @ dv_StatusReason e @ '' - '' @ dv_ReportURL e)),
      (''blocks'', ''['' @ str_join '',''
         ([slack_section (''*Conbench alert:* '' @ dv_Status e @ [CHR 0x0A] @ dv_StatusReason e)] @
          (if isAbsoluteHTTPURL (dv_ReportURL e) then [slack_section (''<'' @ dv_ReportURL e @ ''|Open report>'')] else [])) @ '']'')]"

definition send_slack :: "transport \<Rightarrow> (string \<Rightarrow> string) \<Rightarrow> AlertDeliveryPayload \<Rightarrow> string option" where
  "send_slack send url_error p =
     post_alert send url_error ''slack'' ''slack webhook'' (pl_Target p) json_headers (slackAlertDeliveryMessage (pl_Event p))"

section \<open>GitHub\<close>

record github_sender =
  gs_token :: string
  gs_baseURL :: string

text \<open>An empty URL selects the public API; then slashes at the end are cut.\<close>

definition NewGitHubSender :: "string \<Rightarrow> string \<Rightarrow> github_sender" where
  "NewGitHubSender token baseURL = \<lparr>gs_token = token,
     gs_baseURL = trim_right (\<lambda>c. c = CHR ''/'') (if baseURL = [] then ''https://api.github.com'' else baseURL)\<rparr>"

definition target_error :: string where "target_error = ''target must be a github.com repository URL''"

definition githubRepositorySpec :: "string \<Rightarrow> string + string" where
  "githubRepositorySpec raw0 =
     (let raw = (case cut_prefix raw0 ''git@github.com:'' of Some rest \<Rightarrow> ''https://github.com/'' @ rest | None \<Rightarrow> raw0) in
      case url_parse (trim_right (\<lambda>c. c = CHR ''/'') raw) of
        None \<Rightarrow> Inl target_error
      | Some u \<Rightarrow>
         (if u_Scheme u \<noteq> ''https'' \<or> u_Host u \<noteq> ''github.com'' then Inl target_error
          else case str_split (CHR ''/'') (trim_slashes (u_Path u)) of
            [owner, part] \<Rightarrow>
              (let repo = trim_suffix part ''.git'' in
               if owner = [] \<or> part = [] \<or> repo = [] then Inl target_error
               else Inr (path_escape owner @ ''/'' @ path_escape repo))
          | _ \<Rightarrow> Inl target_error))"

definition github_headers :: "github_sender \<Rightarrow> (string \<times> string) list" where
  "github_headers s = [(''Accept'', ''application/vnd.github+json''), (''Authorization'', ''Bearer '' @ gs_token s),
     (''Content-Type'', ''application/json''), (''User-Agent'', alert_agent)]"

definition payload_repository :: "AlertDeliveryPayload \<Rightarrow> string" where
  "payload_repository p = (if pl_Target p = [] then dv_Repository (pl_Event p) else pl_Target p)"

definition no_sha :: "AlertDeliveryEvent \<Rightarrow> bool" where
  "no_sha e \<longleftrightarrow> dv_CommitSHA e = None \<or> dv_CommitSHA e = Some []"

definition check_run_body :: "AlertDeliveryEvent \<Rightarrow> string" where
  "check_run_body e = object_text
     ([(''name'', json_string ''Conbench alert''), (''head_sha'', json_string (the (dv_CommitSHA e))),
       (''status'', json_string ''completed''), (''conclusion'', json_string (githubCheckConclusion (dv_Status e)))] @
      (if isAbsoluteHTTPURL (dv_ReportURL e) then omit_string ''details_url'' (dv_ReportURL e) else []) @
      omit_string ''external_id'' (dv_ID e) @
      [(''output'', object_text [(''title'', json_string (''Conbench alert: '' @ dv_Status e)),
         (''summary'', json_string (githubCheckSummary e))])])"

definition send_github_check :: "transport \<Rightarrow> (string \<Rightarrow> string) \<Rightarrow> github_sender \<Rightarrow> AlertDeliveryPayload \<Rightarrow> string option" where
  "send_github_check send url_error s p =
     (if no_sha (pl_Event p) then Some ''post github check run: alert event has no commit sha''
      else case githubRepositorySpec (payload_repository p) of
        Inl e \<Rightarrow> Some (''post github check run: '' @ e)
      | Inr spec \<Rightarrow> post_alert send url_error ''github check run'' ''github check run''
          (gs_baseURL s @ ''/repos/'' @ spec @ ''/check-runs'') (github_headers s) (check_run_body (pl_Event p)))"

definition ticked :: "string \<Rightarrow> string" where "ticked s = [CHR 0x60] @ s @ [CHR 0x60]"

definition blank_line :: string where "blank_line = [CHR 0x0A, CHR 0x0A]"

definition githubCommentBody :: "AlertDeliveryEvent \<Rightarrow> string" where
  "githubCommentBody e =
     ''### Conbench alert: '' @ dv_Status e @ blank_line @ dv_StatusReason e @
     (if dv_ReportURL e = [] then []
      else if isAbsoluteHTTPURL (dv_ReportURL e) then blank_line @ ''[Open Conbench report]('' @ dv_ReportURL e @ '')''
      else blank_line @ ''Report: '' @ ticked (dv_ReportURL e)) @
     (case dv_RunID e of None \<Rightarrow> [] | Some r \<Rightarrow> if r = [] then [] else blank_line @ ''Run: '' @ ticked r) @
     blank_line @ ''Alert event: '' @ ticked (dv_ID e)"

definition send_github_comment :: "transport \<Rightarrow> (string \<Rightarrow> string) \<Rightarrow> github_sender \<Rightarrow> AlertDeliveryPayload \<Rightarrow> string option" where
  "send_github_comment send url_error s p =
     (if no_sha (pl_Event p) then Some ''post github commit comment: alert event has no commit sha''
      else case githubRepositorySpec (payload_repository p) of
        Inl e \<Rightarrow> Some (''post github commit comment: '' @ e)
      | Inr spec \<Rightarrow> post_alert send url_error ''github commit comment'' ''github commit comment''
          (gs_baseURL s @ ''/repos/'' @ spec @ ''/commits/'' @ path_escape (the (dv_CommitSHA (pl_Event p))) @ ''/comments'')
          (github_headers s) (marshal_strings [(''body'', githubCommentBody (pl_Event p))]))"

section \<open>Mail: addresses and text\<close>

text \<open>The parser of one address and of a list yields addresses without their names.\<close>

record mail_grammar =
  mg_Address :: "string \<Rightarrow> string option"
  mg_List :: "string \<Rightarrow> string list option"
  mg_lower :: "string \<Rightarrow> string"

definition from_error :: string where "from_error = ''email from address is invalid''"
definition recipients_error :: string where "recipients_error = ''email recipients are invalid''"

definition NormalizeAlertEmailFrom :: "mail_grammar \<Rightarrow> string \<Rightarrow> string + string \<times> string" where
  "NormalizeAlertEmailFrom g raw = (case mg_Address g raw of
     None \<Rightarrow> Inl from_error
   | Some a \<Rightarrow> if a = [] then Inl from_error else Inr (a, trim_space raw))"

fun distinct_addresses :: "mail_grammar \<Rightarrow> string list \<Rightarrow> string list \<Rightarrow> string list option" where
  "distinct_addresses g seen [] = Some []"
| "distinct_addresses g seen (a # as) =
     (if a = [] then None
      else if mg_lower g a \<in> set seen then distinct_addresses g seen as
      else map_option (Cons a) (distinct_addresses g (mg_lower g a # seen) as))"

definition NormalizeAlertEmailRecipients :: "mail_grammar \<Rightarrow> string \<Rightarrow> string + string \<times> string list" where
  "NormalizeAlertEmailRecipients g raw = (case mg_List g raw of
     None \<Rightarrow> Inl recipients_error
   | Some as \<Rightarrow>
       (if as = [] then Inl recipients_error
        else case distinct_addresses g [] as of
          None \<Rightarrow> Inl recipients_error
        | Some rs \<Rightarrow> if rs = [] then Inl recipients_error else Inr (str_join '','' rs, rs)))"

text \<open>
  \<open>mime.QEncoding.Encode\<close>: printable ASCII and tabs stay; anything else makes the whole text
  encoded words of at most 63 characters of content, which split no rune.
\<close>

definition needs_encoding :: "string \<Rightarrow> bool" where
  "needs_encoding s \<longleftrightarrow> list_ex (\<lambda>c. (byte c < 32 \<or> 126 < byte c) \<and> byte c \<noteq> 9) s"

definition q_plain :: "char \<Rightarrow> bool" where
  "q_plain c \<longleftrightarrow> 32 \<le> byte c \<and> byte c \<le> 126 \<and> c \<noteq> CHR ''='' \<and> c \<noteq> CHR ''?'' \<and> c \<noteq> CHR ''_''"

definition q_byte :: "char \<Rightarrow> string" where
  "q_byte c = (if c = CHR '' '' then ''_'' else if q_plain c then [c]
     else [CHR ''='', hex_digit (byte c div 16), hex_digit (byte c mod 16)])"

definition open_word :: string where "open_word = ''=?utf-8?q?''"
definition close_word :: string where "close_word = ''?=''"

text \<open>The bytes of a rune, one byte when it starts none, with the length of their encoding.\<close>

function q_runes :: "string \<Rightarrow> string list" where
  "q_runes [] = []"
| "q_runes (c # s) = (let n = max 1 (rune_len (c # s)) in take n (c # s) # q_runes (drop n (c # s)))"
  by pat_completeness auto
termination by (relation "measure length") auto

definition q_cost :: "string \<Rightarrow> nat" where
  "q_cost r = (case r of [c] \<Rightarrow> if q_plain c then 1 else 3 | _ \<Rightarrow> 3 * length r)"

fun q_words :: "nat \<Rightarrow> string list \<Rightarrow> string" where
  "q_words len [] = []"
| "q_words len (r # rs) =
     (if 63 < len + q_cost r then close_word @ '' '' @ open_word @ concat (map q_byte r) @ q_words (q_cost r) rs
      else concat (map q_byte r) @ q_words (len + q_cost r) rs)"

definition q_encode :: "string \<Rightarrow> string" where
  "q_encode s = (if needs_encoding s then open_word @ q_words 0 (q_runes s) @ close_word else s)"

definition weekday_names :: "string list" where
  "weekday_names = [''Sun'', ''Mon'', ''Tue'', ''Wed'', ''Thu'', ''Fri'', ''Sat'']"

definition month_names :: "string list" where
  "month_names = [''Jan'', ''Feb'', ''Mar'', ''Apr'', ''May'', ''Jun'', ''Jul'', ''Aug'', ''Sep'', ''Oct'', ''Nov'', ''Dec'']"

text \<open>The epoch was a Thursday.\<close>

definition RFC1123Z :: "time \<Rightarrow> string" where
  "RFC1123Z t = (let secs = t div 10 ^ 9; days = secs div 86400; (y, m, d) = civil days in
     weekday_names ! nat ((days + 4) mod 7) @ '', '' @ two d @ '' '' @ month_names ! nat (m - 1) @ '' '' @ year_text y @ '' '' @
     clock_text (secs mod 86400) @ '' +0000'')"

definition line :: "string \<Rightarrow> string \<Rightarrow> string" where "line k v = k @ '': '' @ v @ [CHR 0x0A]"

definition emailAlertBody :: "AlertDeliveryEvent \<Rightarrow> string" where
  "emailAlertBody e =
     line ''Conbench alert'' (dv_Status e) @ [CHR 0x0A] @ line ''Kind'' (dv_Kind e) @ line ''Reason'' (dv_StatusReason e) @
     (if dv_ReportURL e = [] then [] else line ''Report'' (dv_ReportURL e)) @
     (if dv_Repository e = [] then [] else line ''Repository'' (dv_Repository e)) @
     (case dv_CommitSHA e of None \<Rightarrow> [] | Some s \<Rightarrow> if s = [] then [] else line ''Commit'' s) @
     (case dv_RunID e of None \<Rightarrow> [] | Some r \<Rightarrow> if r = [] then [] else line ''Run'' r) @
     line ''Alert event'' (dv_ID e) @ line ''Alert rule'' (dv_RuleID e) @ line ''Created at'' (RFC3339 (dv_CreatedAt e))"

definition email_headers :: "string \<Rightarrow> string list \<Rightarrow> AlertDeliveryEvent \<Rightarrow> string list" where
  "email_headers fromHeader recipients e =
     [''From: '' @ sanitizeEmailHeader fromHeader,
      ''To: '' @ sanitizeEmailHeader (str_join '', '' recipients),
      ''Subject: '' @ q_encode (sanitizeEmailHeader (''Conbench alert: '' @ dv_Status e)),
      ''Date: '' @ RFC1123Z (dv_CreatedAt e),
      ''MIME-Version: 1.0'',
      ''Content-Type: text/plain; charset=utf-8'',
      ''Content-Transfer-Encoding: 8bit'']"

definition crlf :: string where "crlf = [CHR 0x0D, CHR 0x0A]"

definition emailAlertMessage :: "string \<Rightarrow> string list \<Rightarrow> AlertDeliveryEvent \<Rightarrow> string" where
  "emailAlertMessage fromHeader recipients e =
     str_join crlf (email_headers fromHeader recipients e) @ crlf @ crlf @ emailAlertBody e"

section \<open>Mail: the session with the server\<close>

datatype smtp_step =
  SmtpConnect | SmtpDeadline time | SmtpGreet | SmtpStartTLS | SmtpAuth string string | SmtpMail string | SmtpRcpt string
| SmtpData | SmtpWrite string | SmtpClose | SmtpQuit

text \<open>Whether a step succeeds, and what the server offers, given the steps so far.\<close>

record mail_server =
  sv_ok :: "smtp_step list \<Rightarrow> smtp_step \<Rightarrow> bool"
  sv_ext :: "smtp_step list \<Rightarrow> string \<Rightarrow> bool"
  sv_deadline_error :: string

type_synonym smtp = "(string \<times> smtp_step list) + smtp_step list"

definition smtp_try :: "mail_server \<Rightarrow> smtp_step \<Rightarrow> string \<Rightarrow> smtp_step list \<Rightarrow> smtp" where
  "smtp_try sv step err tr = (if sv_ok sv tr step then Inr (tr @ [step]) else Inl (err, tr @ [step]))"

definition smtp_then :: "smtp \<Rightarrow> (smtp_step list \<Rightarrow> smtp) \<Rightarrow> smtp" where
  "smtp_then m f = (case m of Inl e \<Rightarrow> Inl e | Inr tr \<Rightarrow> f tr)"

fun smtp_recipients :: "mail_server \<Rightarrow> string list \<Rightarrow> smtp_step list \<Rightarrow> smtp" where
  "smtp_recipients sv [] tr = Inr tr"
| "smtp_recipients sv (r # rs) tr = smtp_then (smtp_try sv (SmtpRcpt r) ''smtp recipient failed'' tr) (smtp_recipients sv rs)"

definition sendMail :: "mail_server \<Rightarrow> time option \<Rightarrow> (string \<times> string) option \<Rightarrow> string \<Rightarrow> string list \<Rightarrow> string \<Rightarrow> smtp" where
  "sendMail sv deadline auth from recipients msg =
     smtp_then (smtp_try sv SmtpConnect ''connect smtp server failed'' []) (\<lambda>tr.
     smtp_then (case deadline of None \<Rightarrow> Inr tr
       | Some t \<Rightarrow> smtp_try sv (SmtpDeadline t) (''set smtp deadline: '' @ sv_deadline_error sv) tr) (\<lambda>tr.
     smtp_then (smtp_try sv SmtpGreet ''create smtp client failed'' tr) (\<lambda>tr.
     smtp_then (if sv_ext sv tr ''STARTTLS'' then smtp_try sv SmtpStartTLS ''start smtp tls failed'' tr else Inr tr) (\<lambda>tr.
     smtp_then (case auth of None \<Rightarrow> Inr tr
       | Some (u, p) \<Rightarrow> if sv_ext sv tr ''AUTH'' then smtp_try sv (SmtpAuth u p) ''smtp auth failed'' tr
                   else Inl (''smtp server does not support auth'', tr)) (\<lambda>tr.
     smtp_then (smtp_try sv (SmtpMail from) ''smtp mail from failed'' tr) (\<lambda>tr.
     smtp_then (smtp_recipients sv recipients tr) (\<lambda>tr.
     smtp_then (smtp_try sv SmtpData ''smtp data failed'' tr) (\<lambda>tr.
     smtp_then (smtp_try sv (SmtpWrite msg) ''write smtp message failed'' tr) (\<lambda>tr.
     smtp_then (smtp_try sv SmtpClose ''close smtp message failed'' tr) (\<lambda>tr.
     smtp_try sv SmtpQuit ''smtp quit failed'' tr))))))))))"

text \<open>\<open>net.SplitHostPort\<close> of \<^verbatim>\<open>host:port\<close> or \<^verbatim>\<open>[host]:port\<close>.\<close>

definition split_host_port :: "string \<Rightarrow> (string \<times> string) option" where
  "split_host_port s = (case cut_last (CHR '':'') s of
     None \<Rightarrow> None
   | Some (h, port) \<Rightarrow>
      (case h of
         c # r \<Rightarrow>
          (if c = CHR ''['' then
             (case str_cut (CHR '']'') s of
                None \<Rightarrow> None
              | Some (a, b) \<Rightarrow>
                  (if b = CHR '':'' # port \<and> CHR ''['' \<notin> set (tl a) \<and> CHR ''['' \<notin> set b \<and> CHR '']'' \<notin> set b then Some (tl a, port) else None))
           else if CHR '':'' \<in> set h \<or> CHR ''['' \<in> set s \<or> CHR '']'' \<in> set s then None else Some (h, port))
       | [] \<Rightarrow> if CHR ''['' \<in> set s \<or> CHR '']'' \<in> set s then None else Some ([], port)))"

definition ValidateAlertEmailSMTPAddr :: "string \<Rightarrow> string + string" where
  "ValidateAlertEmailSMTPAddr raw = (case split_host_port raw of
     None \<Rightarrow> Inl ''email smtp address must be host:port''
   | Some (host, port) \<Rightarrow> if host = [] \<or> port = [] then Inl ''email smtp address must be host:port'' else Inr host)"

record email_sender =
  em_addr :: string
  em_from :: string
  em_username :: string
  em_password :: string
  em_timeout :: int

text \<open>The steps taken are returned next to the error. The server is told the host only by TLS.\<close>

definition send_email ::
  "mail_grammar \<Rightarrow> mail_server \<Rightarrow> time option \<Rightarrow> time \<Rightarrow> email_sender \<Rightarrow> AlertDeliveryPayload \<Rightarrow> string option \<times> smtp_step list" where
  "send_email g sv deadline now s p =
     (let failed = (\<lambda>e. Some (''send email alert: '' @ e)) in
      case NormalizeAlertEmailFrom g (em_from s) of Inl e \<Rightarrow> (failed e, []) | Inr (from, fromHeader) \<Rightarrow>
     (case NormalizeAlertEmailRecipients g (pl_Target p) of Inl e \<Rightarrow> (failed e, []) | Inr (_, recipients) \<Rightarrow>
     (case ValidateAlertEmailSMTPAddr (em_addr s) of Inl e \<Rightarrow> (failed e, []) | Inr host \<Rightarrow>
     (case smtpAuth (em_username s) (em_password s) of Inl e \<Rightarrow> (failed e, []) | Inr auth \<Rightarrow>
     (case sendMail sv (emailAlertDeliveryDeadline deadline (em_timeout s) now) auth from recipients
             (emailAlertMessage fromHeader recipients (pl_Event p)) of
        Inl (e, tr) \<Rightarrow> (failed e, tr) | Inr tr \<Rightarrow> (None, tr))))))"

end
