(* ===== verification/AlertSendersProps.thy ===== *)
theory AlertSendersProps
  imports AlertSenders
begin

text \<open>
  What the senders of alerts guarantee: requests to GitHub go to the repository that was named,
  on the host of the sender; a header of a mail holds no line break; a mail counts as sent when the server
  took it for every recipient, and the password is offered only inside TLS where there is any.
\<close>

section \<open>Mail: headers\<close>

definition one_line :: "string \<Rightarrow> bool" where
  "one_line s \<longleftrightarrow> CHR 0x0D \<notin> set s \<and> CHR 0x0A \<notin> set s"

named_theorems one_line_intros

lemma one_line_simps [simp]: "one_line []" "one_line (c # s) \<longleftrightarrow> c \<noteq> CHR 0x0D \<and> c \<noteq> CHR 0x0A \<and> one_line s"
  "one_line (s @ t) \<longleftrightarrow> one_line s \<and> one_line t"
  by (auto simp: one_line_def)

lemma one_line_concat: "(\<And>x. x \<in> set xs \<Longrightarrow> one_line x) \<Longrightarrow> one_line (concat xs)"
  by (induction xs) auto

lemma sanitize_one_line [simp]: "one_line (sanitizeEmailHeader s)"
  by (auto simp: one_line_def sanitizeEmailHeader_def)

lemma hex_digit_one_line [simp]: "hex_digit n \<noteq> CHR 0x0D" "hex_digit n \<noteq> CHR 0x0A" if "n < 16"
proof -
  have "48 \<le> byte (hex_digit n)" using that by (simp add: hex_digit_def byte_def)
  then show "hex_digit n \<noteq> CHR 0x0D" "hex_digit n \<noteq> CHR 0x0A" by (auto simp: byte_def)
qed

lemma q_byte_one_line [simp]: "one_line (q_byte c)"
proof -
  have "byte c div 16 < 16" "byte c mod 16 < 16"
    using less_mult_imp_div_less [of "byte c" 16 16] byte_less [of c] by simp_all
  then show ?thesis by (auto simp: q_byte_def q_plain_def byte_def)
qed

lemma q_words_one_line: "one_line (q_words n rs)"
  by (induction n rs rule: q_words.induct) (auto simp: close_word_def open_word_def intro!: one_line_concat)

lemma q_encode_one_line: "one_line s \<Longrightarrow> one_line (q_encode s)"
  by (auto simp: q_encode_def q_words_one_line open_word_def close_word_def)

lemma digits_one_line: "list_all is_digit s \<Longrightarrow> one_line s"
  by (auto simp: one_line_def list_all_iff is_digit_def byte_def)

lemma itoa_one_line [simp]: "one_line (itoa k)"
  using dec_digits_facts digits_one_line by (auto simp: itoa_def)

lemma pad_one_line [simp]: "one_line (pad_left n s) = one_line s"
  by (auto simp: one_line_def pad_left_def)

lemma two_one_line [simp]: "one_line (two k)"
  by (simp add: two_def)

lemma name_one_line: "list_all one_line ns \<Longrightarrow> i < length ns \<Longrightarrow> one_line (ns ! i)"
  by (simp add: list_all_length)

lemma RFC1123Z_one_line: "one_line (RFC1123Z t)"
proof -
  obtain y m d where c: "civil (t div 10 ^ 9 div 86400) = (y, m, d)" by (cases "civil (t div 10 ^ 9 div 86400)")
  have m: "1 \<le> m" "m \<le> 12" using civil_inverse [OF c] by simp_all
  have "one_line (weekday_names ! nat (k mod 7))" for k :: int
    by (rule name_one_line) (simp_all add: weekday_names_def nat_less_iff)
  moreover have "one_line (month_names ! nat (m - 1))"
    by (rule name_one_line) (use m in \<open>simp_all add: month_names_def nat_less_iff\<close>)
  ultimately show ?thesis by (simp add: RFC1123Z_def c [simplified] Let_def clock_text_def year_text_def)
qed

definition header_names :: "string list" where
  "header_names = [''From'', ''To'', ''Subject'', ''Date'', ''MIME-Version'', ''Content-Type'', ''Content-Transfer-Encoding'']"

text \<open>C30:
  No header can be smuggled into an alert mail: whatever the sender address, the recipients and
  the texts of the event are, the message is the seven headers the code names, one line
  each, an empty line and the body.
\<close>

theorem emailAlertMessage_headers:
  "\<exists>hs. emailAlertMessage fromHeader recipients e = concat (map (\<lambda>h. h @ crlf) hs) @ crlf @ emailAlertBody e \<and>
     list_all one_line hs \<and> list_all2 (\<lambda>h n. has_prefix h (n @ '': '')) hs header_names"
proof (intro exI conjI)
  let ?hs = "email_headers fromHeader recipients e"
  show "emailAlertMessage fromHeader recipients e = concat (map (\<lambda>h. h @ crlf) ?hs) @ crlf @ emailAlertBody e"
    by (simp add: emailAlertMessage_def email_headers_def)
  show "list_all one_line ?hs"
    by (simp add: email_headers_def RFC1123Z_one_line q_encode_one_line)
  show "list_all2 (\<lambda>h n. has_prefix h (n @ '': '')) ?hs header_names"
    by (simp add: email_headers_def header_names_def has_prefix_def)
qed

section \<open>Mail: the session\<close>

text \<open>The session a mail needs, from what the server offers after its greeting and after TLS.\<close>

definition greeted :: "time option \<Rightarrow> smtp_step list" where
  "greeted deadline = [SmtpConnect] @ (case deadline of None \<Rightarrow> [] | Some t \<Rightarrow> [SmtpDeadline t]) @ [SmtpGreet]"

definition secured :: "mail_server \<Rightarrow> time option \<Rightarrow> smtp_step list" where
  "secured sv deadline = greeted deadline @ (if sv_ext sv (greeted deadline) ''STARTTLS'' then [SmtpStartTLS] else [])"

definition mail_session :: "mail_server \<Rightarrow> time option \<Rightarrow> (string \<times> string) option \<Rightarrow> string \<Rightarrow> string list \<Rightarrow> string \<Rightarrow> smtp_step list" where
  "mail_session sv deadline auth from recipients msg = secured sv deadline @
     (case auth of None \<Rightarrow> [] | Some (u, p) \<Rightarrow> [SmtpAuth u p]) @ [SmtpMail from] @ map SmtpRcpt recipients @
     [SmtpData, SmtpWrite msg, SmtpClose, SmtpQuit]"

text \<open>Every step of a session was taken by the server, each after those before it.\<close>

definition all_ok :: "mail_server \<Rightarrow> smtp_step list \<Rightarrow> bool" where
  "all_ok sv tr \<longleftrightarrow> list_all (\<lambda>k. sv_ok sv (take k tr) (tr ! k)) [0..<length tr]"

lemma all_ok_simps [simp]: "all_ok sv []" "all_ok sv (tr @ [x]) \<longleftrightarrow> all_ok sv tr \<and> sv_ok sv tr x"
proof -
  show "all_ok sv []" by (simp add: all_ok_def)
  have "list_all (\<lambda>k. sv_ok sv (take k (tr @ [x])) ((tr @ [x]) ! k)) [0..<length tr] = all_ok sv tr"
    unfolding all_ok_def by (intro list_all_cong refl) (simp add: nth_append)
  then show "all_ok sv (tr @ [x]) \<longleftrightarrow> all_ok sv tr \<and> sv_ok sv tr x" by (auto simp: all_ok_def)
qed

text \<open>
  A stage that was entered with \<open>tr\<close> and is to add \<open>steps\<close>: all of them, accepted, or an error
  after a part of them.
\<close>

definition stage :: "mail_server \<Rightarrow> smtp_step list \<Rightarrow> smtp_step list \<Rightarrow> smtp \<Rightarrow> bool" where
  "stage sv tr steps m \<longleftrightarrow> (case m of Inr tr' \<Rightarrow> tr' = tr @ steps \<and> (all_ok sv tr \<longrightarrow> all_ok sv tr')
     | Inl (_, tr') \<Rightarrow> \<exists>k \<le> length steps. tr' = tr @ take k steps)"

lemma stage_none [simp]: "stage sv tr [] (Inr tr)"
  by (simp add: stage_def)

lemma stage_stop: "stage sv tr steps (Inl (e, tr))"
  by (auto simp: stage_def intro: exI [of _ 0])

lemma stage_try [simp]: "stage sv tr [x] (smtp_try sv x err tr)"
  by (auto simp: stage_def smtp_try_def intro: exI [of _ 1])

lemma stage_then:
  assumes "stage sv tr steps m" "\<And>tr'. tr' = tr @ steps \<Longrightarrow> stage sv tr' steps2 (f tr')"
  shows "stage sv tr (steps @ steps2) (smtp_then m f)"
proof (cases m)
  case (Inl e)
  then obtain k where "k \<le> length steps" "snd e = tr @ take k steps" using assms(1) by (auto simp: stage_def split: prod.splits)
  then have "snd e = tr @ take k (steps @ steps2)" "k \<le> length (steps @ steps2)" by simp_all
  then show ?thesis using Inl by (auto simp: stage_def smtp_then_def split: prod.splits)
next
  case (Inr tr')
  then have tr': "tr' = tr @ steps" "all_ok sv tr \<Longrightarrow> all_ok sv tr'" using assms(1) by (auto simp: stage_def)
  have f: "stage sv tr' steps2 (f tr')" by (rule assms(2) [OF tr'(1)])
  show ?thesis
  proof (cases "f tr'")
    case (Inl e)
    then obtain k where "k \<le> length steps2" "snd e = tr' @ take k steps2" using f by (auto simp: stage_def split: prod.splits)
    then have "\<exists>n \<le> length (steps @ steps2). snd e = tr @ take n (steps @ steps2)"
      using tr'(1) by (intro exI [of _ "length steps + k"]) simp
    then show ?thesis using Inl Inr by (cases e) (simp add: stage_def smtp_then_def)
  next
    case (Inr tr2)
    then show ?thesis using f tr' \<open>m = Inr tr'\<close> by (auto simp: stage_def smtp_then_def)
  qed
qed

lemma stage_prefix: "stage sv tr steps m \<Longrightarrow> \<exists>k. (case m of Inl (_, t) \<Rightarrow> t | Inr t \<Rightarrow> t) = tr @ take k steps"
  by (auto simp: stage_def intro: exI [of _ "length steps"] split: sum.splits prod.splits)

lemma stage_recipients: "stage sv tr (map SmtpRcpt rs) (smtp_recipients sv rs tr)"
proof (induction rs arbitrary: tr)
  case (Cons r rs)
  have "stage sv tr ([SmtpRcpt r] @ map SmtpRcpt rs) (smtp_recipients sv (r # rs) tr)"
    by (simp add: stage_then Cons del: append.simps)
  then show ?case by simp
qed simp

lemma sendMail_stage: "stage sv [] (mail_session sv deadline auth from recipients msg) (sendMail sv deadline auth from recipients msg)"
proof -
  let ?auth = "case auth of None \<Rightarrow> [] | Some (u, p) \<Rightarrow> [SmtpAuth u p]"
  let ?tls = "if sv_ext sv (greeted deadline) ''STARTTLS'' then [SmtpStartTLS] else []"
  have "stage sv [] ([SmtpConnect] @ (case deadline of None \<Rightarrow> [] | Some t \<Rightarrow> [SmtpDeadline t]) @ [SmtpGreet] @ ?tls @ ?auth @ [SmtpMail from] @
      map SmtpRcpt recipients @ [SmtpData] @ [SmtpWrite msg] @ [SmtpClose] @ [SmtpQuit]) (sendMail sv deadline auth from recipients msg)"
    unfolding sendMail_def
    by (intro stage_then stage_try stage_recipients; (auto simp: greeted_def split: option.splits intro: stage_stop)?)
  then show ?thesis by (simp add: mail_session_def secured_def greeted_def)
qed

lemma auth_after_tls:
  assumes "SmtpAuth u pw \<in> set (take k (mail_session sv deadline auth from recipients msg))"
    and "smtpAuth user password = Inr auth"
  shows "u = user \<and> pw = password \<and>
    (\<exists>post. take k (mail_session sv deadline auth from recipients msg) = secured sv deadline @ SmtpAuth u pw # post)"
proof -
  let ?t = "secured sv deadline"
  have t: "SmtpAuth u pw \<notin> set ?t" by (auto simp: secured_def greeted_def split: option.splits)
  have "SmtpAuth u pw \<in> set (mail_session sv deadline auth from recipients msg)" using assms(1) by (rule in_set_takeD)
  then have a: "auth = Some (u, pw)" using t by (auto simp: mail_session_def split: option.splits)
  then have up: "u = user \<and> pw = password" using assms(2) by (auto simp: smtpAuth_def split: if_splits)
  obtain rest where s: "mail_session sv deadline auth from recipients msg = ?t @ SmtpAuth u pw # rest"
    by (simp add: mail_session_def a)
  have "length ?t < k"
  proof (rule ccontr)
    assume "\<not> length ?t < k"
    then have "take k (?t @ SmtpAuth u pw # rest) = take k ?t" by simp
    then show False using assms(1) t unfolding s by (auto dest: in_set_takeD)
  qed
  then have "take k (?t @ SmtpAuth u pw # rest) = ?t @ SmtpAuth u pw # take (k - length ?t - 1) rest"
    by (cases "k - length ?t") auto
  then show ?thesis using up unfolding s by blast
qed

text \<open>C25:
  An alert mail counts as sent only when the server accepted every step of the session: TLS
  where it was offered after the greeting, the credentials if any, the sender, every
  recipient, the message and its end. A mail that fails stopped within that session, so the
  credentials are never offered before TLS to a server that offers it.
\<close>

theorem send_email_session:
  assumes "send_email g sv deadline now s p = (outcome, tr)"
  shows "(outcome = None \<longrightarrow> (\<exists>from fromHeader targets recipients auth.
        NormalizeAlertEmailFrom g (em_from s) = Inr (from, fromHeader) \<and>
        NormalizeAlertEmailRecipients g (pl_Target p) = Inr (targets, recipients) \<and>
        smtpAuth (em_username s) (em_password s) = Inr auth \<and> all_ok sv tr \<and>
        tr = mail_session sv (emailAlertDeliveryDeadline deadline (em_timeout s) now) auth from recipients
          (emailAlertMessage fromHeader recipients (pl_Event p)))) \<and>
    (SmtpAuth u pw \<in> set tr \<longrightarrow> u = em_username s \<and> pw = em_password s \<and>
      (\<exists>post. tr = secured sv (emailAlertDeliveryDeadline deadline (em_timeout s) now) @ SmtpAuth u pw # post))"
proof -
  let ?dl = "emailAlertDeliveryDeadline deadline (em_timeout s) now"
  consider (early) e where "outcome = Some e" "tr = []"
  | (mail) sender fromHeader targets recipients auth where
      "NormalizeAlertEmailFrom g (em_from s) = Inr (sender, fromHeader)"
      "NormalizeAlertEmailRecipients g (pl_Target p) = Inr (targets, recipients)"
      "smtpAuth (em_username s) (em_password s) = Inr auth"
      "case sendMail sv ?dl auth sender recipients (emailAlertMessage fromHeader recipients (pl_Event p)) of
         Inl (e, tr') \<Rightarrow> outcome = Some (''send email alert: '' @ e) \<and> tr = tr' | Inr tr' \<Rightarrow> outcome = None \<and> tr = tr'"
    using assms by (auto simp: send_email_def Let_def split: sum.splits prod.splits)
  then show ?thesis
  proof cases
    case mail
    let ?msg = "emailAlertMessage fromHeader recipients (pl_Event p)"
    let ?m = "sendMail sv ?dl auth sender recipients ?msg"
    let ?s = "mail_session sv ?dl auth sender recipients ?msg"
    note st = sendMail_stage [of sv ?dl auth sender recipients ?msg]
    have "tr = (case ?m of Inl (_, t) \<Rightarrow> t | Inr t \<Rightarrow> t)" using mail(4) by (auto split: sum.splits prod.splits)
    then obtain k where k: "tr = take k ?s" using stage_prefix [OF st] by auto
    have "outcome = None \<longrightarrow> all_ok sv tr \<and> tr = ?s" using st mail(4) by (cases ?m) (auto simp: stage_def split: prod.splits)
    moreover have "u = em_username s \<and> pw = em_password s \<and> (\<exists>post. tr = secured sv ?dl @ SmtpAuth u pw # post)"
      if "SmtpAuth u pw \<in> set tr"
      by (rule auth_after_tls [OF that [unfolded k] mail(3), folded k])
    ultimately show ?thesis using mail(1-3) by blast
  qed simp
qed

section \<open>GitHub\<close>

lemma path_escape_mode: "path_escape s = escape MSegment s"
  unfolding path_escape_def escape_def
  by (intro arg_cong [where f = concat] map_cong refl) (auto simp: keep_def marks_def)

text \<open>A segment is read back inside a path.\<close>

lemma unescape_segment: "unescape MPath (escape MSegment s @ t) = map_option (append s) (unescape MPath t)"
proof (induction s)
  case Nil
  show ?case by (simp add: option.map_id [unfolded id_def])
next
  case (Cons c s)
  have "byte c div 16 < 16" "byte c mod 16 < 16"
    using less_mult_imp_div_less [of "byte c" 16 16] byte_less [of c] by simp_all
  then have u: "unhex (hex_digit (of_char c div 16)) = Some (byte c div 16)"
    "unhex (hex_digit (of_char c mod 16)) = Some (byte c mod 16)"
    by (simp_all add: unhex_hex byte_def)
  have "chr (byte c div 16 * 16 + byte c mod 16) = c" by simp
  moreover have "append (c # s) = (\<lambda>x. c # s @ x)" by auto
  ultimately have "unescape MPath (pct c @ escape MSegment s @ t) = map_option (append (c # s)) (unescape MPath t)"
    using Cons u by (simp add: pct_def option.map_comp comp_def)
  moreover have "c \<noteq> CHR ''%''" if "keep MSegment c" using that by auto
  moreover have "append (c # s) = (\<lambda>x. c # s @ x)" by auto
  ultimately show ?case using Cons by (auto simp: option.map_comp comp_def)
qed

definition path_char :: "char \<Rightarrow> bool" where
  "path_char c \<longleftrightarrow> plain MSegment c \<or> c = CHR ''/''"

lemma path_char_clean: "path_char c \<Longrightarrow> \<not> control c \<and> c \<noteq> CHR ''#'' \<and> c \<noteq> CHR ''?''"
  using plain_clean [of MSegment c] by (auto simp: path_char_def control_def byte_def)

lemma escape_path_chars: "list_all path_char (escape MSegment s)"
  by (auto simp: list_all_iff path_char_def dest: escape_plain)

lemma literal_chars: "path_char c \<longleftrightarrow> keep MSegment c \<or> c = CHR ''%'' \<or> c = CHR ''/''"
  "keep MSegment c \<longleftrightarrow> unreserved c \<or> c \<in> set ''$&+:=@''"
  "unreserved c \<longleftrightarrow> (let n = of_char c :: nat in
     48 \<le> n \<and> n \<le> 57 \<or> 65 \<le> n \<and> n \<le> 90 \<or> 97 \<le> n \<and> n \<le> 122 \<or> n \<in> {45, 46, 95, 126})"
  by (simp_all only: path_char_def plain_def keep_def marks_def unreserved_def mode.case) auto

text \<open>A request is for the public API and for a path below it.\<close>

definition at_github :: "string \<Rightarrow> string \<Rightarrow> bool" where
  "at_github address path \<longleftrightarrow> (case url_parse address of None \<Rightarrow> False | Some u \<Rightarrow>
     u_Scheme u = ''https'' \<and> u_Host u = ''api.github.com'' \<and> u_User u = None \<and> u_RawQuery u = [] \<and> u_Fragment u = [] \<and>
     u_Path u = path)"

lemma url_parse_github:
  assumes chars: "list_all path_char path" and path: "has_prefix path ''/''" "unescape MPath path = Some p"
  shows "at_github (''https://api.github.com'' @ path) p"
proof -
  let ?b = "''https://api.github.com'' @ path"
  obtain r where r: "path = CHR ''/'' # r" using path(1) by (cases path) (auto simp: has_prefix_def)
  have clean: "\<not> control c \<and> c \<noteq> CHR ''#'' \<and> c \<noteq> CHR ''?''" if "c \<in> set path" for c
    using chars that path_char_clean by (auto simp: list_all_iff)
  have nb: "CHR ''#'' \<notin> set ?b" "CHR ''?'' \<notin> set (''//api.github.com'' @ path)" using clean by auto
  have "list_ex control ?b = False" using clean by (auto simp: list_ex_iff control_def byte_def)
  moreover have "get_scheme ?b = Some (''https'', ''//api.github.com'' @ path)"
    by (simp add: get_scheme_def is_letter_def is_digit_def byte_def)
  moreover have "cut_query (''//api.github.com'' @ path) = (''//api.github.com'' @ path, False, [])"
    using nb(2) cut_or_absent [OF nb(2)] by (simp add: cut_query_def)
  moreover have "ascii_lower ''https'' = ''https''" by (simp add: ascii_lower_def byte_def)
  moreover have "parse_authority ''https'' ''api.github.com'' = Some (None, ''api.github.com'')" by code_simp
  moreover obtain w where w: "set_path path (no_url\<lparr>u_Scheme := ''https'', u_ForceQuery := False, u_RawQuery := [], u_User := None,
      u_Host := ''api.github.com''\<rparr>) = Some w"
    using path(2) by (auto simp: set_path_def)
  ultimately have parse: "parse_url ?b = Some w"
    by (simp add: parse_url_def parse_rest_def has_prefix_def r)
  have u: "url_parse ?b = Some w" using parse cut_or_absent [OF nb(1)] by (simp add: url_parse_def)
  show ?thesis
    unfolding at_github_def u using set_path_fields [OF w] path(2) by (simp add: no_url_def)
qed

lemma trim_chars_subset: "set (trim_chars P s) \<subseteq> set s"
  by (auto simp: trim_chars_def trim_right_def trim_left_def dest!: set_dropWhileD)

lemma githubRepositorySpec_parts:
  assumes "githubRepositorySpec raw = Inr spec"
  obtains owner repo where "spec = path_escape owner @ ''/'' @ path_escape repo" "owner \<noteq> []" "repo \<noteq> []"
    "CHR ''/'' \<notin> set owner" "CHR ''/'' \<notin> set repo"
proof -
  let ?x = "trim_right (\<lambda>c. c = CHR ''/'') (case cut_prefix raw ''git@github.com:'' of Some rest \<Rightarrow> ''https://github.com/'' @ rest | None \<Rightarrow> raw)"
  obtain u where x: "url_parse ?x = Some u" using assms by (cases "url_parse ?x") (simp_all add: githubRepositorySpec_def)
  have "\<exists>owner part. str_split (CHR ''/'') (trim_slashes (u_Path u)) = [owner, part] \<and>
      spec = path_escape owner @ ''/'' @ path_escape (trim_suffix part ''.git'') \<and> owner \<noteq> [] \<and> trim_suffix part ''.git'' \<noteq> []"
    using assms unfolding githubRepositorySpec_def Let_def x
    by (auto split: if_split_asm list.split_asm)
  then obtain owner part where u: "str_split (CHR ''/'') (trim_slashes (u_Path u)) = [owner, part]"
    and s: "spec = path_escape owner @ ''/'' @ path_escape (trim_suffix part ''.git'')"
    and ne: "owner \<noteq> []" "trim_suffix part ''.git'' \<noteq> []"
    by blast
  have "CHR ''/'' \<notin> set owner" "CHR ''/'' \<notin> set part"
    using str_split_parts [of owner "CHR ''/''" "trim_slashes (u_Path u)"] str_split_parts [of part "CHR ''/''" "trim_slashes (u_Path u)"]
    by (simp_all add: u)
  moreover have "set (trim_suffix part ''.git'') \<subseteq> set part" by (auto simp: trim_suffix_def dest: in_set_takeD)
  ultimately show ?thesis using that [OF s ne] by blast
qed

text \<open>
  What an alert may ask of GitHub: a post with the sender's token to the check runs of the
  named repository, or to the comments on the commit of the event.
\<close>

definition github_request :: "string \<Rightarrow> AlertDeliveryPayload \<Rightarrow> http_request \<Rightarrow> bool" where
  "github_request token p rq \<longleftrightarrow> hq_Method rq = ''POST'' \<and> (''Authorization'', ''Bearer '' @ token) \<in> set (hq_Headers rq) \<and>
     (\<exists>owner repo. githubRepositorySpec (payload_repository p) = Inr (path_escape owner @ ''/'' @ path_escape repo) \<and>
        owner \<noteq> [] \<and> repo \<noteq> [] \<and> CHR ''/'' \<notin> set owner \<and> CHR ''/'' \<notin> set repo \<and>
        (at_github (hq_URL rq) (''/repos/'' @ owner @ ''/'' @ repo @ ''/check-runs'') \<or>
         at_github (hq_URL rq) (''/repos/'' @ owner @ ''/'' @ repo @ ''/commits/'' @ the (dv_CommitSHA (pl_Event p)) @ ''/comments'')))"

lemma default_sender: "NewGitHubSender token [] = \<lparr>gs_token = token, gs_baseURL = ''https://api.github.com''\<rparr>"
  by (simp add: NewGitHubSender_def trim_right_def)

lemma NewRequest_fields: "NewRequest m u hs b = Some rq \<Longrightarrow> hq_Method rq = m \<and> hq_URL rq = u \<and> hq_Headers rq = hs \<and> hq_Body rq = b"
  by (auto simp: NewRequest_def split: option.splits)

lemma post_alert_cong:
  assumes "\<And>rq. NewRequest ''POST'' target headers (Some body) = Some rq \<Longrightarrow> send1 rq = send2 rq"
  shows "post_alert send1 ue built what target headers body = post_alert send2 ue built what target headers body"
  using assms by (cases "NewRequest ''POST'' target headers (Some body)") (simp_all add: post_alert_def)

lemma at_github_check:
  "at_github (''https://api.github.com'' @ ''/repos/'' @ (path_escape owner @ ''/'' @ path_escape repo) @ ''/check-runs'')
     (''/repos/'' @ owner @ ''/'' @ repo @ ''/check-runs'')"
  by (rule url_parse_github) (simp_all add: path_escape_mode escape_path_chars literal_chars has_prefix_def unescape_segment option.map_comp comp_def)

lemma at_github_comment:
  "at_github (''https://api.github.com'' @ ''/repos/'' @ (path_escape owner @ ''/'' @ path_escape repo) @ ''/commits/'' @ path_escape sha @ ''/comments'')
     (''/repos/'' @ owner @ ''/'' @ repo @ ''/commits/'' @ sha @ ''/comments'')"
  by (rule url_parse_github) (simp_all add: path_escape_mode escape_path_chars literal_chars has_prefix_def unescape_segment option.map_comp comp_def)

text \<open>C24:
  Whatever the target of a delivery and the event hold, the GitHub senders make no other
  request than the permitted ones: a post that carries the token goes to the public API over https,
  without user, query or fragment, and its path is that of the repository the target names,
  whose owner and name are one segment each, and of the commit of the event. Transports that agree on those
  requests cannot be told apart by the senders.
\<close>

theorem github_alert_confined:
  assumes "\<And>rq. github_request token p rq \<Longrightarrow> send1 rq = send2 rq"
  shows "send_github_check send1 ue (NewGitHubSender token []) p = send_github_check send2 ue (NewGitHubSender token []) p \<and>
    send_github_comment send1 ue (NewGitHubSender token []) p = send_github_comment send2 ue (NewGitHubSender token []) p"
proof (cases "githubRepositorySpec (payload_repository p)")
  case (Inl e)
  then show ?thesis by (simp add: send_github_check_def send_github_comment_def)
next
  case (Inr spec)
  obtain owner repo where s: "spec = path_escape owner @ ''/'' @ path_escape repo" "owner \<noteq> []" "repo \<noteq> []"
    "CHR ''/'' \<notin> set owner" "CHR ''/'' \<notin> set repo"
    by (rule githubRepositorySpec_parts [OF Inr])
  let ?h = "github_headers (NewGitHubSender token [])"
  let ?sha = "the (dv_CommitSHA (pl_Event p))"
  have h: "(''Authorization'', ''Bearer '' @ token) \<in> set ?h" by (simp add: github_headers_def default_sender)
  have ok: "github_request token p rq"
    if "NewRequest ''POST'' u ?h (Some b) = Some rq"
      "at_github u (''/repos/'' @ owner @ ''/'' @ repo @ ''/check-runs'') \<or>
       at_github u (''/repos/'' @ owner @ ''/'' @ repo @ ''/commits/'' @ ?sha @ ''/comments'')" for u b rq
    unfolding github_request_def using NewRequest_fields [OF that(1)] that(2) h Inr s
    by (intro conjI exI [of _ owner] exI [of _ repo]) simp_all
  have "post_alert send1 ue a w u ?h b = post_alert send2 ue a w u ?h b"
    if "u = ''https://api.github.com'' @ ''/repos/'' @ spec @ ''/check-runs'' \<or>
        u = ''https://api.github.com'' @ ''/repos/'' @ spec @ ''/commits/'' @ path_escape ?sha @ ''/comments''" for a w u b
    by (rule post_alert_cong, rule assms, erule ok) (use that at_github_check at_github_comment s(1) in blast)
  then show ?thesis
    using Inr by (simp add: send_github_check_def send_github_comment_def default_sender)
qed

section \<open>Instances\<close>

definition demo_event :: AlertDeliveryEvent where
  "demo_event = \<lparr>dv_ID = ''e'', dv_RuleID = ''r'', dv_Kind = ''opened'', dv_Status = ''failure'', dv_StatusReason = ''slow'',
     dv_RunID = None, dv_CommitSHA = Some ''abc'', dv_Repository = ''https://github.com/o/n'', dv_ReportURL = [],
     dv_Summary = JNull, dv_CreatedAt = 0\<rparr>"

definition demo_github :: AlertDeliveryPayload where
  "demo_github = \<lparr>pl_DeliveryID = ''d'', pl_Channel = ''github_check'', pl_Target = [], pl_Event = demo_event\<rparr>"

text \<open>A transport that answers only posts with the token of the sender.\<close>

definition demo_transport :: transport where
  "demo_transport rq = (if hq_Method rq = ''POST'' \<and> (''Authorization'', ''Bearer t'') \<in> set (hq_Headers rq)
     then Reply 201 [] else NoReply ''refused'')"

lemma demo_check: "send_github_check (\<lambda>_. Reply 201 []) ue (NewGitHubSender ''t'' []) demo_github = None"
proof -
  have "githubRepositorySpec ''https://github.com/o/n'' = Inr ''o/n''" by code_simp
  moreover have "url_parse ''https://api.github.com/repos/o/n/check-runs'' \<noteq> None" by code_simp
  ultimately show ?thesis
    by (auto simp: send_github_check_def demo_github_def demo_event_def no_sha_def payload_repository_def default_sender
        post_alert_def NewRequest_def post_status_def success_def split: option.splits)
qed

lemma github_alert_confined_witness:
  "send_github_check demo_transport (\<lambda>_. []) (NewGitHubSender ''t'' []) demo_github = None"
proof -
  have "(\<lambda>_. Reply 201 []) rq = demo_transport rq" if "github_request ''t'' demo_github rq" for rq
    using that by (simp add: github_request_def demo_transport_def)
  from github_alert_confined [of "''t''" demo_github, OF this] show ?thesis by (simp add: demo_check)
qed

text \<open>A mail server that offers TLS, and the mechanisms only inside it.\<close>

definition demo_mail_server :: mail_server where
  "demo_mail_server = \<lparr>sv_ok = (\<lambda>_ _. True),
     sv_ext = (\<lambda>tr e. e = ''STARTTLS'' \<and> SmtpStartTLS \<notin> set tr \<or> e = ''AUTH'' \<and> SmtpStartTLS \<in> set tr), sv_deadline_error = []\<rparr>"

definition demo_grammar :: mail_grammar where
  "demo_grammar = \<lparr>mg_Address = Some, mg_List = (\<lambda>s. Some (str_split (CHR '','') s)), mg_lower = ascii_lower\<rparr>"

definition demo_email_sender :: email_sender where
  "demo_email_sender = \<lparr>em_addr = ''mx:25'', em_from = ''c@b'', em_username = ''u'', em_password = ''p'', em_timeout = 0\<rparr>"

definition demo_mail :: AlertDeliveryPayload where
  "demo_mail = \<lparr>pl_DeliveryID = ''d'', pl_Channel = ''email'', pl_Target = ''a@b,A@b,d@b'', pl_Event = demo_event\<rparr>"

definition demo_message :: string where "demo_message = emailAlertMessage ''c@b'' [''a@b'', ''d@b''] demo_event"

lemma demo_mail_sent: "send_email demo_grammar demo_mail_server None 0 demo_email_sender demo_mail =
    (None, [SmtpConnect, SmtpGreet, SmtpStartTLS, SmtpAuth ''u'' ''p'', SmtpMail ''c@b'', SmtpRcpt ''a@b'', SmtpRcpt ''d@b'',
      SmtpData, SmtpWrite demo_message, SmtpClose, SmtpQuit])"
proof -
  have "ValidateAlertEmailSMTPAddr ''mx:25'' = Inr ''mx''" by code_simp
  moreover have "NormalizeAlertEmailRecipients demo_grammar ''a@b,A@b,d@b'' = Inr (''a@b,d@b'', [''a@b'', ''d@b''])" by code_simp
  moreover have "NormalizeAlertEmailFrom demo_grammar ''c@b'' = Inr (''c@b'', ''c@b'')" by code_simp
  ultimately show ?thesis
    by (simp add: send_email_def demo_email_sender_def demo_mail_def smtpAuth_def emailAlertDeliveryDeadline_def sendMail_def
        demo_mail_server_def smtp_try_def smtp_then_def demo_message_def)
qed

lemma send_email_session_witness:
  "[SmtpConnect, SmtpGreet, SmtpStartTLS, SmtpAuth ''u'' ''p'', SmtpMail ''c@b'', SmtpRcpt ''a@b'', SmtpRcpt ''d@b'',
      SmtpData, SmtpWrite demo_message, SmtpClose, SmtpQuit] =
   mail_session demo_mail_server None (Some (''u'', ''p'')) ''c@b'' [''a@b'', ''d@b''] demo_message"
proof -
  have n: "NormalizeAlertEmailRecipients demo_grammar ''a@b,A@b,d@b'' = Inr (''a@b,d@b'', [''a@b'', ''d@b''])"
    "NormalizeAlertEmailFrom demo_grammar ''c@b'' = Inr (''c@b'', ''c@b'')" by code_simp+
  show ?thesis
    using send_email_session [OF demo_mail_sent, of "''u''" "''p''"]
    by (simp add: demo_email_sender_def demo_mail_def n smtpAuth_def emailAlertDeliveryDeadline_def demo_message_def)
qed

text \<open>The two ways the code names a repository differ: the client accepts one without a name.\<close>

lemma RepositorySpec_empty_name:
  "RepositorySpec ''https://github.com/o/.git.git'' = Inr ''o/''"
  "githubRepositorySpec ''https://github.com/o/.git'' = Inl target_error"
  by code_simp+

end
