(* ===== verification/Spec2Isabelle.thy ===== *)
theory Spec2Isabelle
  imports Stats_Verdict GitHubClient Backfill CommitRepair Auth CIReportProps Alerts AlertDelivery Api IngestProps IngestValues SeriesProps LoginProps ReadApiProps AlertSendersProps
begin

text \<open>
  Conbench stores benchmark results, compares them with the history of their series, reports
  on the commits of a CI run and alerts on regressions. The development models the server of
  the repository: the statistics (\<^verbatim>\<open>src/internal/stats\<close>), the services that use them
  (\<^verbatim>\<open>src/internal/service\<close>), the statements they run on the database
  (\<^verbatim>\<open>src/internal/db\<close>, \<^verbatim>\<open>src/internal/storage\<close>), the workers that resolve commits
  (\<^verbatim>\<open>src/internal/commit\<close>, \<^verbatim>\<open>src/internal/commitrepair\<close>), authentication
  (\<^verbatim>\<open>src/internal/auth\<close>) and the HTTP handlers over them (\<^verbatim>\<open>src/internal/api\<close>).

  \<^bold>\<open>How the parts interact.\<close> A submission (\<open>Ingest\<close>) resolves its commit through a provider
  (\<open>Commit\<close>), finds or creates the rows it refers to (\<open>Store\<close>, \<open>ResultTable\<close>) and inserts one
  result. Commits known only by hash are completed later by the workers \<open>Backfill\<close> and
  \<open>CommitRepair\<close>, through the GitHub client (\<open>GitHubClient\<close>). The read services (\<open>Compare\<close>,
  \<open>CIReport\<close>, \<open>Listing\<close>, \<open>SeriesList\<close>) query the same tables (\<open>ResultStore\<close>) and feed the rows to
  the statistics (\<open>Stats_Window\<close>, \<open>Stats_Rolling\<close>, \<open>Stats_Verdict\<close>). The alert evaluator (\<open>Alerts\<close>)
  turns the CI report of the latest run of a rule into transitions of the rule and events
  (\<open>AlertStore\<close>, \<open>AlertMachine\<close>), and the dispatcher (\<open>AlertDelivery\<close>) sends each event to its
  channels. The handlers (\<open>Api\<close>) resolve the caller (\<open>Auth\<close>) and call the services.

  \<^bold>\<open>Theories, in the order they build on each other.\<close>
  \<^item> \<open>Prelude\<close>, \<open>Text\<close>, \<open>Encoding\<close>, \<open>Url\<close>, \<open>Float64\<close>, \<open>Json\<close>, \<open>JsonText\<close>: what the code uses of Go's
    standard library. A \<^verbatim>\<open>float64\<close> is a rational with rounding to nearest, infinities, NaN and a
    negative zero; a string is its bytes; a sort is the stable sort of the library or, where
    the code calls an unstable sort, a sort by a strict total order.
  \<^item> \<open>Units\<close>, \<open>Stats_Window\<close>, \<open>Stats_Rolling\<close>, \<open>Stats_Verdict\<close>: \<^verbatim>\<open>internal/units\<close> and \<^verbatim>\<open>internal/stats\<close>.
    The index arithmetic of slices can panic, so the routines return an option.
  \<^item> \<open>Store\<close>, \<open>ResultStore\<close>, \<open>ResultTable\<close>, \<open>AlertStore\<close>: \<^verbatim>\<open>internal/db\<close>. A table is the list of its
    rows, a statement a function on it, with the unique indexes, checks and foreign keys it
    relies on. What other transactions do between two statements of one operation is an
    argument (\<open>e1\<close>, \<open>env\<close>, \<open>io\<close>, \<open>ports\<close>) and ranges over all of it.
  \<^item> \<open>Commit\<close>, \<open>GitHubClient\<close>, \<open>Backfill\<close>, \<open>CommitRepair\<close>: the providers, the request loop with token
    rotation and quotas, the work queue as a step relation, the repair batch.
  \<^item> \<open>Auth\<close>, \<open>Api\<close>: tokens, sessions, signed blobs, principals; alert, token and login-code handlers.
  \<^item> \<open>Compare\<close>, \<open>CIReport\<close>, \<open>CIReportProps\<close>: comparison, history and the report on a commit.
  \<^item> \<open>AlertMachine\<close>, \<open>Alerts\<close>, \<open>AlertDelivery\<close>: the alert tables as a machine, the evaluator, the
    dispatcher.
  \<^item> \<open>Hardware\<close>, \<open>Ingest\<close>, \<open>IngestMachine\<close>, \<open>IngestProps\<close>, \<open>IngestValues\<close>: submission, update and
    deletion of results.
  \<^item> \<open>Listing\<close>, \<open>ListingProps\<close>, \<open>SeriesList\<close>, \<open>SeriesProps\<close>: the paged lists of results, runs and series.
  \<^item> \<open>UrlParse\<close>, \<open>UrlProps\<close>, \<open>JsonParse\<close>, \<open>JsonStruct\<close>, \<open>TimeText\<close>: \<^verbatim>\<open>net/url\<close>, \<^verbatim>\<open>encoding/json\<close> and RFC 3339 times, with
    what is written being read back: URLs that are built from checked parts, queries, structs
    of strings, time stamps.
  \<^item> \<open>Login\<close>, \<open>LoginProps\<close>: \<^verbatim>\<open>internal/api/auth.go\<close> and \<^verbatim>\<open>internal/oidcauth\<close>, the browser and command-line login.
  \<^item> \<open>ReadApi\<close>, \<open>ReadApiProps\<close>: the handlers over results, histories, comparisons, lists and reports.
  \<^item> \<open>GitHubRest\<close>, \<open>AlertSenders\<close>, \<open>AlertSendersProps\<close>: the GitHub client of \<^verbatim>\<open>internal/githubapi\<close> and the senders of
    \<^verbatim>\<open>internal/service/alert_delivery.go\<close>: webhook, Slack, mail, check run and commit comment.
  \<^bold>\<open>Interfaces.\<close> A component that relies on another does so through a locale, interpreted on the
  model of the component that provides it: \<open>weak_order\<close> and \<open>total_weak_order\<close> for every order that
  is sorted by (\<open>float_order\<close>, \<open>point_order\<close>, \<open>candidate_order\<close>, \<open>run_key_order\<close>, \<open>byte_order\<close>),
  \<open>keyed_table\<close> for select-or-insert on a unique key (\<open>case_table\<close>, \<open>context_table\<close>, \<open>user_table\<close>,
  \<open>commit_table\<close>), \<open>commit_provider\<close> for what a submission needs of a provider (the local, map and
  GitHub providers), \<open>alert_store\<close> and \<open>alert_evaluator\<close> for the evaluator over the alert tables,
  \<open>delivery_store\<close> for the dispatcher, \<open>keyset_query\<close> for pages that follow a cursor.

  \<^bold>\<open>What the lemmas show.\<close>
  \<^item> Statistics: the means of the rolling statistics are those of the segments a reference
    definition names, the computation never panics on commit times of the int64 nanosecond
    range, and does outside of it (\<open>Stats_Rolling\<close>).
  \<^item> Tables: the constraints of the schema hold in every reachable state of the ingestion and
    of the alert machine; get-or-create returns the row of the key whatever transactions
    interleave.
  \<^item> Ingestion: a keyed submission is idempotent, a refused one leaves no trace, a successful
    one is seen by the read queries, and joins a history exactly when it should.
  \<^item> Reads: the window of a comparison, the verdict it returns, the accounts of a report, its
    baseline and status, and that walking the pages of a list lists everything once.
  \<^item> Alerts: an evaluation refines an abstract machine of rules and events, transitions are made
    only on fresh rules, deliveries are claimed exclusively and delivered ones are final.
  \<^item> Security: principals, owners of rules, sessions, one-time codes; a login ends in a session only
    for the identity the provider vouched for, codes leave only to the loopback host, requests
    to GitHub only to the named repository, passwords to mail servers only after TLS.
  \<^item> Findings: closed theorems evaluate the code on an input where it does not do what it
    means to.

  \<^bold>\<open>Bounds and fuel.\<close> Loops over data are structural or have a measure; the request loop of the
  GitHub client and the worker queue are bounded by the counters of the code. The search for
  the shortest decimal of a \<^verbatim>\<open>float64\<close> tries up to 17 digits, which always suffice. Fixed-width
  integers are written out where they can wrap (\<open>UnixNano\<close>, \<open>int32\<close>, page sizes).

  \<^bold>\<open>Parameters.\<close> HMAC, SHA-256 and MD5, random bytes and the clock, the collation and the text
  functions of PostgreSQL, replies of the GitHub API and of HTTP, SMTP and OIDC peers, the grammar of mail addresses, RSA keys and
  signatures, the texts of errors of libraries. Hypotheses
  on them are named where they are used, and each property with one has a witness that
  instantiates it.

  \<^bold>\<open>Not modelled.\<close> The generated SDK (\<^verbatim>\<open>sdk/go\<close>) and the OpenAPI emitter; the wiring of the server,
  its metrics and the embedded web client (\<^verbatim>\<open>internal/server\<close>, \<^verbatim>\<open>internal/serverapp\<close>), which start
  goroutines and listeners; migrations, which are SQL executed by a library; the command line
  (\<^verbatim>\<open>cmd/conbench\<close>) and the tooling around production clones (\<^verbatim>\<open>internal/prodclone\<close>), which parse
  flags, call the server and print; test support. Concurrency inside one process is modelled
  where the code shares state (the worker queue, the code store); memory and timing are not.
\<close>

end
